(* ===== verification/Prelude.thy ===== *)
theory Prelude
  imports Main "HOL-Library.Word" "HOL-Library.Signed_Division"
begin

text \<open>
  Shared ground of the development: the C integer types the sources use, C string
  comparison, and generic lemmas on lists, words and integers.

  \<^item> \<open>lirc_t\<close> (a C \<open>int\<close>, \<open>include/media/lirc.h\<close>) and the other signed and unsigned
    C integers are HOL integers; every arithmetic operation of the code that can leave the
    range is wrapped by \<open>i32\<close>, \<open>u32\<close> or \<open>u64\<close>, two's complement for the signed
    case (what the compilers the program is built with give).
  \<^item> \<open>ir_code\<close> (\<open>uint64_t\<close>) is a 64-bit word.
  \<^item> C's integer division truncates towards zero: \<open>sdiv\<close>.
\<close>

unbundle bit_operations_syntax

named_theorems c_arith \<open>range facts that remove the wrap-around of C arithmetic\<close>
named_theorems c_defs \<open>small accessor definitions to be unfolded together\<close>

type_synonym lirc_t = int
type_synonym ir_code = "64 word"

section \<open>C integers\<close>

definition i32 :: "int \<Rightarrow> int" where
  "i32 x = signed_take_bit 31 x"

definition u32 :: "int \<Rightarrow> int" where
  "u32 x = take_bit 32 x"

definition u64 :: "int \<Rightarrow> int" where
  "u64 x = take_bit 64 x"

lemma i32_id [c_arith]: "- 2147483648 \<le> x \<Longrightarrow> x < 2147483648 \<Longrightarrow> i32 x = x"
  by (simp add: i32_def signed_take_bit_int_eq_self)

lemma u32_id [c_arith]: "0 \<le> x \<Longrightarrow> x < 4294967296 \<Longrightarrow> u32 x = x"
  by (simp add: u32_def take_bit_int_eq_self)

lemma u64_id [c_arith]: "0 \<le> x \<Longrightarrow> x < 18446744073709551616 \<Longrightarrow> u64 x = x"
  by (simp add: u64_def take_bit_int_eq_self)

lemma i32_range: "- 2147483648 \<le> i32 x \<and> i32 x < 2147483648"
  using signed_take_bit_int_greater_eq_minus_exp [of 31 x] signed_take_bit_int_less_exp [of 31 x]
  by (simp add: i32_def)

lemma u32_range: "0 \<le> u32 x \<and> u32 x < 4294967296"
  using take_bit_int_less_exp [of 32 x] by (simp add: u32_def)

lemma u64_range: "0 \<le> u64 x \<and> u64 x < 18446744073709551616"
  using take_bit_int_less_exp [of 64 x] by (simp add: u64_def)

lemma i32_0 [simp]: "i32 0 = 0" by (simp add: i32_def)
lemma u32_0 [simp]: "u32 0 = 0" by (simp add: u32_def)
lemma u64_0 [simp]: "u64 0 = 0" by (simp add: u64_def)

lemma i32_i32 [simp]: "i32 (i32 x) = i32 x"
  using i32_range [of x] by (simp add: i32_id)

text \<open>Truncating division of non-negative numbers is HOL's division.\<close>

lemma sdiv_nonneg [c_arith]: "0 \<le> (a::int) \<Longrightarrow> 0 \<le> b \<Longrightarrow> a sdiv b = a div b"
  by (cases "a = 0"; cases "b = 0") (auto simp: signed_divide_int_def)

section \<open>Words\<close>

text \<open>\<open>x << n\<close> and \<open>x >> n\<close> of a \<open>uint64_t\<close>, for a C \<open>int\<close> shift count. A count
  outside 0..63 is undefined in C; the model's value there is 0 (for a count of 64 or more)
  or the unshifted word, and every theorem that depends on it bounds the count.\<close>

definition shl :: "ir_code \<Rightarrow> int \<Rightarrow> ir_code" where
  "shl x n = push_bit (nat n) x"

definition shr :: "ir_code \<Rightarrow> int \<Rightarrow> ir_code" where
  "shr x n = drop_bit (nat n) x"

section \<open>C strings\<close>

text \<open>\<open>tolower\<close> and \<open>toupper\<close> in the C locale, and the equality tests of \<open>strcmp\<close> and
  \<open>strcasecmp\<close> (their result compared with 0).\<close>

definition tolower :: "char \<Rightarrow> char" where
  "tolower c = (let n = of_char c :: nat in if 65 \<le> n \<and> n \<le> 90 then char_of (n + 32) else c)"

definition toupper :: "char \<Rightarrow> char" where
  "toupper c = (let n = of_char c :: nat in if 97 \<le> n \<and> n \<le> 122 then char_of (n - 32) else c)"

definition strcaseeq :: "string \<Rightarrow> string \<Rightarrow> bool" where
  "strcaseeq a b \<longleftrightarrow> map tolower a = map tolower b"

lemma strcaseeq_refl [simp]: "strcaseeq a a"
  by (simp add: strcaseeq_def)

lemma strcaseeq_sym: "strcaseeq a b \<Longrightarrow> strcaseeq b a"
  by (simp add: strcaseeq_def)

lemma strcaseeq_trans: "strcaseeq a b \<Longrightarrow> strcaseeq b c \<Longrightarrow> strcaseeq a c"
  by (simp add: strcaseeq_def)

section \<open>Lists\<close>

text \<open>The index of the first element that satisfies a predicate.\<close>

fun find_index :: "('a \<Rightarrow> bool) \<Rightarrow> 'a list \<Rightarrow> nat option" where
  "find_index p [] = None"
| "find_index p (x # xs) = (if p x then Some 0 else map_option Suc (find_index p xs))"

lemma find_index_Some:
  "find_index p xs = Some i \<Longrightarrow> i < length xs \<and> p (xs ! i) \<and> (\<forall>j < i. \<not> p (xs ! j))"
proof (induction xs arbitrary: i)
  case Nil
  then show ?case by simp
next
  case (Cons x xs)
  then show ?case by (auto split: if_splits simp: less_Suc_eq_0_disj)
qed

lemma find_index_None: "find_index p xs = None \<longleftrightarrow> (\<forall>x \<in> set xs. \<not> p x)"
  by (induction xs) auto

lemma find_index_SomeI:
  "i < length xs \<Longrightarrow> p (xs ! i) \<Longrightarrow> (\<And>j. j < i \<Longrightarrow> \<not> p (xs ! j)) \<Longrightarrow> find_index p xs = Some i"
proof (induction xs arbitrary: i)
  case Nil
  then show ?case by simp
next
  case (Cons x xs)
  show ?case
  proof (cases i)
    case 0
    with Cons.prems show ?thesis by simp
  next
    case (Suc k)
    with Cons.prems(3) [of 0] have "\<not> p x" by simp
    moreover have "find_index p xs = Some k"
      using Cons.prems(1,2) Cons.prems(3) [of "Suc _"] Suc by (intro Cons.IH) auto
    ultimately show ?thesis using Suc by simp
  qed
qed

end
