(* ===== verification/IR_Types.thy ===== *)
theory IR_Types
  imports Prelude
begin

text \<open>
  The data model of \<open>lib/ir_remote_types.h\<close>, \<open>include/media/lirc.h\<close> and the part of
  \<open>lib/driver.h\<close> the decoder and encoder use.

  Pointers. A remote's \<open>codes\<close> array is a list (the C array ends at the entry whose name is
  NULL). The list of \<open>ir_code_node\<close>s hanging off a code is the list \<open>nexts\<close>, and the
  pointers \<open>current\<close> and \<open>transmit_state\<close> into it are indices (None is NULL). A pointer to
  a code (\<open>last_code\<close>, \<open>toggle_code\<close>) is an \<open>ncode_ref\<close>. A pointer to a remote is
  its index in the list of remotes.
\<close>

section \<open>Constants\<close>

text \<open>The object-like macros are abbreviations with the macros' names.\<close>

abbreviation (input) PULSE_BIT :: int where "PULSE_BIT \<equiv> 0x01000000"
abbreviation (input) PULSE_MASK :: int where "PULSE_MASK \<equiv> 0x00FFFFFF"
abbreviation (input) LIRC_MODE2_SPACE :: int where "LIRC_MODE2_SPACE \<equiv> 0"
abbreviation (input) LIRC_MODE2_PULSE :: int where "LIRC_MODE2_PULSE \<equiv> 0x01000000"
abbreviation (input) LIRC_MODE2_TIMEOUT :: int where "LIRC_MODE2_TIMEOUT \<equiv> 0x03000000"
abbreviation (input) LIRC_MODE2_OVERFLOW :: int where "LIRC_MODE2_OVERFLOW \<equiv> 0x04000000"
abbreviation (input) LIRC_VALUE_MASK :: int where "LIRC_VALUE_MASK \<equiv> 0x00FFFFFF"
abbreviation (input) LIRC_MODE2_MASK :: int where "LIRC_MODE2_MASK \<equiv> 0xFF000000"
abbreviation (input) LIRC_EOF :: int where "LIRC_EOF \<equiv> 0x08000000"

abbreviation (input) LIRC_MODE_RAW :: int where "LIRC_MODE_RAW \<equiv> 1"
abbreviation (input) LIRC_MODE_PULSE :: int where "LIRC_MODE_PULSE \<equiv> 2"
abbreviation (input) LIRC_MODE_MODE2 :: int where "LIRC_MODE_MODE2 \<equiv> 4"
abbreviation (input) LIRC_MODE_LIRCCODE :: int where "LIRC_MODE_LIRCCODE \<equiv> 16"

abbreviation (input) IR_PROTOCOL_MASK :: int where "IR_PROTOCOL_MASK \<equiv> 0x07ff"
abbreviation (input) RAW_CODES :: int where "RAW_CODES \<equiv> 0x0001"
abbreviation (input) RC5 :: int where "RC5 \<equiv> 0x0002"
abbreviation (input) SHIFT_ENC :: int where "SHIFT_ENC \<equiv> RC5"
abbreviation (input) RC6 :: int where "RC6 \<equiv> 0x0004"
abbreviation (input) RCMM :: int where "RCMM \<equiv> 0x0008"
abbreviation (input) SPACE_ENC :: int where "SPACE_ENC \<equiv> 0x0010"
abbreviation (input) SPACE_FIRST :: int where "SPACE_FIRST \<equiv> 0x0020"
abbreviation (input) GRUNDIG :: int where "GRUNDIG \<equiv> 0x0080"
abbreviation (input) BO :: int where "BO \<equiv> 0x0100"
abbreviation (input) SERIAL :: int where "SERIAL \<equiv> 0x0200"
abbreviation (input) XMP :: int where "XMP \<equiv> 0x0400"
abbreviation (input) REVERSE :: int where "REVERSE \<equiv> 0x0800"
abbreviation (input) NO_HEAD_REP :: int where "NO_HEAD_REP \<equiv> 0x1000"
abbreviation (input) NO_FOOT_REP :: int where "NO_FOOT_REP \<equiv> 0x2000"
abbreviation (input) CONST_LENGTH :: int where "CONST_LENGTH \<equiv> 0x4000"
abbreviation (input) REPEAT_HEADER :: int where "REPEAT_HEADER \<equiv> 0x8000"
abbreviation (input) COMPAT_REVERSE :: int where "COMPAT_REVERSE \<equiv> 0x00010000"

abbreviation (input) DEFAULT_FREQ :: int where "DEFAULT_FREQ \<equiv> 38000"
abbreviation (input) IR_PARITY_NONE :: int where "IR_PARITY_NONE \<equiv> 0"
abbreviation (input) IR_PARITY_EVEN :: int where "IR_PARITY_EVEN \<equiv> 1"
abbreviation (input) IR_PARITY_ODD :: int where "IR_PARITY_ODD \<equiv> 2"

section \<open>Structures\<close>

text \<open>\<open>struct timeval\<close> of the C library.\<close>

record timeval =
  tv_sec :: int
  tv_usec :: int

text \<open>\<open>struct ir_ncode\<close>: one button. \<open>nlength\<close> is the C field \<open>length\<close>; the field
  \<open>next_ncode\<close> (used by \<open>irrecord\<close> only) is left out.\<close>

record ir_ncode =
  nname :: string
  code :: ir_code
  nlength :: nat
  signals :: "lirc_t list option"
  nexts :: "ir_code list"
  current :: "nat option"
  transmit_state :: "nat option"

text \<open>A pointer to an \<open>ir_ncode\<close>: an entry of the remote's \<open>codes\<close>, one of its two
  \<open>dyncodes\<close>, or the constant \<open>NCODE_EOF\<close> of \<open>lib/ir_remote.c\<close>.\<close>

datatype ncode_ref = NCode nat | NDyn nat | NEof

text \<open>\<open>struct decode_ctx_t\<close>.\<close>

record decode_ctx =
  ctx_code :: ir_code
  ctx_pre :: ir_code
  ctx_post :: ir_code
  ctx_repeat_flag :: bool
  ctx_max_remaining_gap :: lirc_t
  ctx_min_remaining_gap :: lirc_t

text \<open>\<open>struct ir_remote\<close>, with the fields in the order and grouping of the header. The
  groups are record extensions of each other, so that \<open>ir_remote\<close> has all the fields.\<close>

record remote_ident =
  rname :: "string option"
  rdriver :: "string option"
  codes :: "ir_ncode list option"
  bits :: int
  flags :: int
  eps :: int
  aeps :: int
  dyncodes_name :: "string option"
  dyncode :: nat
  dyncodes :: "ir_ncode list"

record remote_timing = remote_ident +
  phead :: lirc_t
  shead :: lirc_t
  pthree :: lirc_t
  sthree :: lirc_t
  ptwo :: lirc_t
  stwo :: lirc_t
  pone :: lirc_t
  sone :: lirc_t
  pzero :: lirc_t
  szero :: lirc_t
  plead :: lirc_t
  ptrail :: lirc_t
  pfoot :: lirc_t
  sfoot :: lirc_t
  prepeat :: lirc_t
  srepeat :: lirc_t

record remote_data = remote_timing +
  pre_data_bits :: int
  pre_data :: ir_code
  post_data_bits :: int
  post_data :: ir_code
  pre_p :: lirc_t
  pre_s :: lirc_t
  post_p :: lirc_t
  post_s :: lirc_t
  gap :: int
  gap2 :: int
  repeat_gap :: int
  toggle_bit :: int
  toggle_bit_mask :: ir_code
  suppress_repeat :: int
  min_repeat :: int
  min_code_repeat :: int
  freq :: int
  duty_cycle :: int
  toggle_mask :: ir_code
  rc6_mask :: ir_code

record remote_serial = remote_data +
  baud :: int
  bits_in_byte :: int
  parity :: int
  stop_bits :: int
  ignore_mask :: ir_code
  repeat_mask :: ir_code

record ir_remote = remote_serial +
  toggle_bit_mask_state :: ir_code
  toggle_mask_state :: int
  repeat_countdown :: int
  last_code :: "ncode_ref option"
  toggle_code :: "ncode_ref option"
  reps :: int
  last_send :: timeval
  min_remaining_gap :: lirc_t
  max_remaining_gap :: lirc_t
  min_total_signal_length :: lirc_t
  max_total_signal_length :: lirc_t
  min_gap_length :: lirc_t
  max_gap_length :: lirc_t
  min_pulse_length :: lirc_t
  max_pulse_length :: lirc_t
  min_space_length :: lirc_t
  max_space_length :: lirc_t
  release_detected :: bool
  manual_sort :: int

text \<open>The fields of \<open>struct driver\<close> (\<open>curr_driver\<close>) the library reads.\<close>

record driver =
  resolution :: int
  rec_mode :: int
  code_length :: int

text \<open>What \<open>s_malloc(sizeof(struct ir_remote))\<close> gives: every byte zero.\<close>

definition zero_timeval :: timeval where
  "zero_timeval = \<lparr>tv_sec = 0, tv_usec = 0\<rparr>"

definition zero_ncode :: ir_ncode where
  "zero_ncode = \<lparr>nname = [], code = 0, nlength = 0, signals = None, nexts = [],
     current = None, transmit_state = None\<rparr>"

definition zero_remote :: ir_remote where
  "zero_remote = \<lparr>rname = None, rdriver = None, codes = None, bits = 0, flags = 0, eps = 0,
     aeps = 0, dyncodes_name = None, dyncode = 0, dyncodes = [zero_ncode, zero_ncode],
     phead = 0, shead = 0, pthree = 0, sthree = 0, ptwo = 0, stwo = 0, pone = 0, sone = 0,
     pzero = 0, szero = 0, plead = 0, ptrail = 0, pfoot = 0, sfoot = 0, prepeat = 0,
     srepeat = 0, pre_data_bits = 0, pre_data = 0, post_data_bits = 0, post_data = 0,
     pre_p = 0, pre_s = 0, post_p = 0, post_s = 0, gap = 0, gap2 = 0, repeat_gap = 0,
     toggle_bit = 0, toggle_bit_mask = 0, suppress_repeat = 0, min_repeat = 0,
     min_code_repeat = 0, freq = 0, duty_cycle = 0, toggle_mask = 0, rc6_mask = 0,
     baud = 0, bits_in_byte = 0, parity = 0, stop_bits = 0, ignore_mask = 0, repeat_mask = 0,
     toggle_bit_mask_state = 0, toggle_mask_state = 0, repeat_countdown = 0,
     last_code = None, toggle_code = None, reps = 0, last_send = zero_timeval,
     min_remaining_gap = 0, max_remaining_gap = 0, min_total_signal_length = 0,
     max_total_signal_length = 0, min_gap_length = 0, max_gap_length = 0,
     min_pulse_length = 0, max_pulse_length = 0, min_space_length = 0,
     max_space_length = 0, release_detected = False, manual_sort = 0\<rparr>"

definition zero_ctx :: decode_ctx where
  "zero_ctx = \<lparr>ctx_code = 0, ctx_pre = 0, ctx_post = 0, ctx_repeat_flag = False,
     ctx_max_remaining_gap = 0, ctx_min_remaining_gap = 0\<rparr>"

text \<open>The entry an \<open>ncode_ref\<close> of a remote points to, and an in-place update of it.\<close>

definition deref :: "ir_remote \<Rightarrow> ncode_ref \<Rightarrow> ir_ncode" where
  "deref rm p = (case p of
     NCode i \<Rightarrow> (case codes rm of Some cs \<Rightarrow> if i < length cs then cs ! i else zero_ncode
                                | None \<Rightarrow> zero_ncode)
   | NDyn i \<Rightarrow> if i < length (dyncodes rm) then dyncodes rm ! i else zero_ncode
   | NEof \<Rightarrow> zero_ncode\<lparr>nname := ''__EOF'', code := 0x08000000, nlength := 1\<rparr>)"

definition upd_ncode :: "ir_remote \<Rightarrow> ncode_ref \<Rightarrow> (ir_ncode \<Rightarrow> ir_ncode) \<Rightarrow> ir_remote" where
  "upd_ncode rm p f = (case p of
     NCode i \<Rightarrow> (case codes rm of
         Some cs \<Rightarrow> (if i < length cs then rm\<lparr>codes := Some (cs[i := f (cs ! i)])\<rparr> else rm)
       | None \<Rightarrow> rm)
   | NDyn i \<Rightarrow> (if i < length (dyncodes rm)
       then rm\<lparr>dyncodes := (dyncodes rm)[i := f (dyncodes rm ! i)]\<rparr> else rm)
   | NEof \<Rightarrow> rm)"

end
