(* ===== verification/IR_Ops.thy ===== *)
theory IR_Ops
  imports IR_Types
begin

text \<open>
  The inline functions of \<open>lib/ir_remote.h\<close>: walking the codes of a button, bit
  manipulation, the protocol and feature predicates, the gap bounds, the tolerance tests of
  the decoder, elapsed time and the assembly of a complete code.
\<close>

section \<open>Walking the codes of a button\<close>

definition get_ir_code :: "ir_ncode \<Rightarrow> nat option \<Rightarrow> ir_code" where
  "get_ir_code n node = (case node of
     Some i \<Rightarrow> (if nexts n \<noteq> [] then nexts n ! i else code n)
   | None \<Rightarrow> code n)"

text \<open>The pointers \<open>ncode->next\<close> and \<open>node->next\<close>.\<close>

definition first_node :: "ir_ncode \<Rightarrow> nat option" where
  "first_node n = (if nexts n = [] then None else Some 0)"

definition succ_node :: "ir_ncode \<Rightarrow> nat \<Rightarrow> nat option" where
  "succ_node n i = (if i + 1 < length (nexts n) then Some (i + 1) else None)"

definition get_next_ir_code_node :: "ir_ncode \<Rightarrow> nat option \<Rightarrow> nat option" where
  "get_next_ir_code_node n node = (case node of
     None \<Rightarrow> first_node n
   | Some i \<Rightarrow> succ_node n i)"

section \<open>Bits\<close>

definition bit_count :: "ir_remote \<Rightarrow> int" where
  "bit_count rm = i32 (pre_data_bits rm + bits rm + post_data_bits rm)"

function bits_set_loop :: "nat \<Rightarrow> ir_code \<Rightarrow> nat" where
  "bits_set_loop ret d =
     (if d \<noteq> 0 then bits_set_loop (if d AND 1 \<noteq> 0 then ret + 1 else ret) (drop_bit 1 d) else ret)"
  by pat_completeness auto
termination
  by (relation "measure (\<lambda>(ret, d). unat d)")
    (auto simp: drop_bit_eq_div word_less_nat_alt unat_div unat_gt_0)

definition bits_set :: "ir_code \<Rightarrow> nat" where
  "bits_set d = bits_set_loop 0 d"

definition reverse :: "ir_code \<Rightarrow> int \<Rightarrow> ir_code" where
  "reverse d n = fold (\<lambda>i c. c OR shl (if d AND shl 1 (int i) \<noteq> 0 then 1 else 0) (n - 1 - int i))
     [0..<nat n] 0"

definition gen_mask :: "int \<Rightarrow> ir_code" where
  "gen_mask n = fold (\<lambda>i m. shl m 1 OR 1) [0..<nat n] 0"

section \<open>Samples\<close>

definition LIRC_VALUE :: "lirc_t \<Rightarrow> int" where
  [c_defs]: "LIRC_VALUE v = v AND LIRC_VALUE_MASK"

definition is_pulse :: "lirc_t \<Rightarrow> bool" where
  [c_defs]: "is_pulse d \<longleftrightarrow> d AND LIRC_MODE2_MASK = LIRC_MODE2_PULSE"

definition is_space :: "lirc_t \<Rightarrow> bool" where
  [c_defs]: "is_space d \<longleftrightarrow> d AND LIRC_MODE2_MASK = LIRC_MODE2_SPACE"

definition is_timeout :: "lirc_t \<Rightarrow> bool" where
  [c_defs]: "is_timeout d \<longleftrightarrow> d AND LIRC_MODE2_MASK = LIRC_MODE2_TIMEOUT"

definition is_overflow :: "lirc_t \<Rightarrow> bool" where
  [c_defs]: "is_overflow d \<longleftrightarrow> d AND LIRC_MODE2_MASK = LIRC_MODE2_OVERFLOW"

section \<open>Protocol and feature predicates\<close>

definition has_repeat :: "ir_remote \<Rightarrow> bool" where
  [c_defs]: "has_repeat rm \<longleftrightarrow> prepeat rm > 0 \<and> srepeat rm > 0"

definition set_protocol :: "ir_remote \<Rightarrow> int \<Rightarrow> ir_remote" where
  "set_protocol rm p = rm\<lparr>flags := (flags rm AND NOT IR_PROTOCOL_MASK) OR p\<rparr>"

definition is_raw :: "ir_remote \<Rightarrow> bool" where
  [c_defs]: "is_raw rm \<longleftrightarrow> flags rm AND IR_PROTOCOL_MASK = RAW_CODES"

definition is_space_enc :: "ir_remote \<Rightarrow> bool" where
  [c_defs]: "is_space_enc rm \<longleftrightarrow> flags rm AND IR_PROTOCOL_MASK = SPACE_ENC"

definition is_space_first :: "ir_remote \<Rightarrow> bool" where
  [c_defs]: "is_space_first rm \<longleftrightarrow> flags rm AND IR_PROTOCOL_MASK = SPACE_FIRST"

definition is_rc5 :: "ir_remote \<Rightarrow> bool" where
  [c_defs]: "is_rc5 rm \<longleftrightarrow> flags rm AND IR_PROTOCOL_MASK = RC5"

definition is_rc6 :: "ir_remote \<Rightarrow> bool" where
  [c_defs]: "is_rc6 rm \<longleftrightarrow> flags rm AND IR_PROTOCOL_MASK = RC6 \<or> rc6_mask rm \<noteq> 0"

definition is_biphase :: "ir_remote \<Rightarrow> bool" where
  [c_defs]: "is_biphase rm \<longleftrightarrow> is_rc5 rm \<or> is_rc6 rm"

definition is_rcmm :: "ir_remote \<Rightarrow> bool" where
  [c_defs]: "is_rcmm rm \<longleftrightarrow> flags rm AND IR_PROTOCOL_MASK = RCMM"

definition is_grundig :: "ir_remote \<Rightarrow> bool" where
  [c_defs]: "is_grundig rm \<longleftrightarrow> flags rm AND IR_PROTOCOL_MASK = GRUNDIG"

definition is_bo :: "ir_remote \<Rightarrow> bool" where
  [c_defs]: "is_bo rm \<longleftrightarrow> flags rm AND IR_PROTOCOL_MASK = BO"

definition is_serial :: "ir_remote \<Rightarrow> bool" where
  [c_defs]: "is_serial rm \<longleftrightarrow> flags rm AND IR_PROTOCOL_MASK = SERIAL"

definition is_xmp :: "ir_remote \<Rightarrow> bool" where
  [c_defs]: "is_xmp rm \<longleftrightarrow> flags rm AND IR_PROTOCOL_MASK = XMP"

definition is_const :: "ir_remote \<Rightarrow> bool" where
  [c_defs]: "is_const rm \<longleftrightarrow> flags rm AND CONST_LENGTH \<noteq> 0"

definition has_repeat_gap :: "ir_remote \<Rightarrow> bool" where
  [c_defs]: "has_repeat_gap rm \<longleftrightarrow> repeat_gap rm > 0"

definition has_pre :: "ir_remote \<Rightarrow> bool" where
  [c_defs]: "has_pre rm \<longleftrightarrow> pre_data_bits rm > 0"

definition has_post :: "ir_remote \<Rightarrow> bool" where
  [c_defs]: "has_post rm \<longleftrightarrow> post_data_bits rm > 0"

definition has_header :: "ir_remote \<Rightarrow> bool" where
  [c_defs]: "has_header rm \<longleftrightarrow> phead rm > 0 \<and> shead rm > 0"

definition has_foot :: "ir_remote \<Rightarrow> bool" where
  [c_defs]: "has_foot rm \<longleftrightarrow> pfoot rm > 0 \<and> sfoot rm > 0"

definition has_toggle_bit_mask :: "ir_remote \<Rightarrow> bool" where
  [c_defs]: "has_toggle_bit_mask rm \<longleftrightarrow> toggle_bit_mask rm > 0"

definition has_ignore_mask :: "ir_remote \<Rightarrow> bool" where
  [c_defs]: "has_ignore_mask rm \<longleftrightarrow> ignore_mask rm > 0"

definition has_repeat_mask :: "ir_remote \<Rightarrow> bool" where
  [c_defs]: "has_repeat_mask rm \<longleftrightarrow> repeat_mask rm > 0"

definition has_toggle_mask :: "ir_remote \<Rightarrow> bool" where
  [c_defs]: "has_toggle_mask rm \<longleftrightarrow> toggle_mask rm > 0"

section \<open>Gaps, duty cycle\<close>

text \<open>\<open>gap\<close> and \<open>gap2\<close> are \<open>uint32_t\<close>; the result is converted to \<open>lirc_t\<close>.\<close>

definition min_gap :: "ir_remote \<Rightarrow> lirc_t" where
  "min_gap rm = (if gap2 rm \<noteq> 0 \<and> gap2 rm < gap rm then i32 (gap2 rm) else i32 (gap rm))"

definition max_gap :: "ir_remote \<Rightarrow> lirc_t" where
  "max_gap rm = (if gap2 rm > gap rm then i32 (gap2 rm) else i32 (gap rm))"

definition get_duty_cycle :: "ir_remote \<Rightarrow> int" where
  "get_duty_cycle rm =
     (if duty_cycle rm = 0 then 50
      else if duty_cycle rm < 0 then 1
      else if duty_cycle rm > 100 then 100
      else duty_cycle rm)"

section \<open>Tolerances\<close>

text \<open>The absolute tolerance in force: the larger of the driver's resolution and the
  remote's \<open>aeps\<close> (both unsigned), read as an \<open>int\<close>.\<close>

definition cur_aeps :: "driver \<Rightarrow> ir_remote \<Rightarrow> int" where
  "cur_aeps d rm = i32 (if resolution d > aeps rm then resolution d else aeps rm)"

definition expect :: "driver \<Rightarrow> ir_remote \<Rightarrow> lirc_t \<Rightarrow> lirc_t \<Rightarrow> bool" where
  "expect d rm delta exdelta \<longleftrightarrow>
     \<bar>i32 (exdelta - delta)\<bar> \<le> i32 (exdelta * eps rm) sdiv 100
     \<or> \<bar>i32 (exdelta - delta)\<bar> \<le> cur_aeps d rm"

definition expect_at_least :: "driver \<Rightarrow> ir_remote \<Rightarrow> lirc_t \<Rightarrow> lirc_t \<Rightarrow> bool" where
  "expect_at_least d rm delta exdelta \<longleftrightarrow>
     i32 (delta + i32 (exdelta * eps rm) sdiv 100) \<ge> exdelta
     \<or> i32 (delta + cur_aeps d rm) \<ge> exdelta"

definition expect_at_most :: "driver \<Rightarrow> ir_remote \<Rightarrow> lirc_t \<Rightarrow> lirc_t \<Rightarrow> bool" where
  "expect_at_most d rm delta exdelta \<longleftrightarrow>
     delta \<le> i32 (exdelta + i32 (exdelta * eps rm) sdiv 100)
     \<or> delta \<le> i32 (exdelta + cur_aeps d rm)"

definition upper_limit :: "driver \<Rightarrow> ir_remote \<Rightarrow> lirc_t \<Rightarrow> lirc_t" where
  "upper_limit d rm val =
     (let eps_val = i32 (val * i32 (100 + eps rm)) sdiv 100;
          aeps_val = i32 (val + cur_aeps d rm)
      in if eps_val > aeps_val then eps_val else aeps_val)"

definition lower_limit :: "driver \<Rightarrow> ir_remote \<Rightarrow> lirc_t \<Rightarrow> lirc_t" where
  "lower_limit d rm val =
     (let eps_val = i32 (val * i32 (100 - eps rm)) sdiv 100;
          aeps_val = i32 (val - cur_aeps d rm);
          eps_val = (if eps_val \<le> 0 then 1 else eps_val);
          aeps_val = (if aeps_val \<le> 0 then 1 else aeps_val)
      in if eps_val < aeps_val then eps_val else aeps_val)"

section \<open>Time\<close>

text \<open>\<open>time_elapsed\<close>: microseconds, as an \<open>unsigned long\<close> of 64 bits.\<close>

definition time_elapsed :: "timeval \<Rightarrow> timeval \<Rightarrow> int" where
  "time_elapsed lst cur =
     (let secs = u64 (tv_sec cur - tv_sec lst)
      in u64 (u64 (u64 (1000000 * secs) + tv_usec cur) - tv_usec lst))"

section \<open>Assembling a code\<close>

definition gen_ir_code :: "ir_remote \<Rightarrow> ir_code \<Rightarrow> ir_code \<Rightarrow> ir_code \<Rightarrow> ir_code" where
  "gen_ir_code rm pre cd post =
     (let all = pre AND gen_mask (pre_data_bits rm);
          all = shl all (bits rm);
          all = all OR (if is_raw rm then cd else cd AND gen_mask (bits rm));
          all = shl all (post_data_bits rm)
      in all OR (post AND gen_mask (post_data_bits rm)))"

section \<open>\<open>receive_timeout\<close> of \<open>lib/receive.h\<close>\<close>

abbreviation (input) MIN_RECEIVE_TIMEOUT :: int where "MIN_RECEIVE_TIMEOUT \<equiv> 100000"

definition receive_timeout :: "lirc_t \<Rightarrow> lirc_t" where
  "receive_timeout usec =
     (if i32 (2 * usec) < MIN_RECEIVE_TIMEOUT then MIN_RECEIVE_TIMEOUT else i32 (2 * usec))"

section \<open>Facts about the bit operations\<close>

text \<open>Every shift-and-mask routine is characterised by the bits of its result.\<close>

lemma bit_shl: "bit (shl x n) k \<longleftrightarrow> k < 64 \<and> nat n \<le> k \<and> bit x (k - nat n)"
  by (auto simp: shl_def bit_push_bit_iff)

lemma bit_shr: "bit (shr x n) k \<longleftrightarrow> bit x (nat n + k)"
  by (simp add: shr_def bit_drop_bit_eq)

lemma gen_mask_eq_mask: "gen_mask n = mask (nat n)"
proof -
  have "fold (\<lambda>i m. shl m 1 OR 1) [0..<k] 0 = (mask k :: ir_code)" for k
  proof (induction k)
    case 0
    then show ?case by simp
  next
    case (Suc k)
    then show ?case
      by (simp add: shl_def mask_Suc_double push_bit_eq_mult mult.commute or.commute)
  qed
  then show ?thesis by (simp add: gen_mask_def)
qed

lemma bit_gen_mask [simp]: "bit (gen_mask n) k \<longleftrightarrow> k < 64 \<and> k < nat n"
  by (auto simp: gen_mask_eq_mask bit_mask_iff)

lemma and_1_shl: "x AND shl 1 (int i) \<noteq> 0 \<longleftrightarrow> bit x i"
proof (cases "i < 64")
  case True
  then show ?thesis
    by (auto simp: shl_def and_exp_eq_0_iff_not_bit push_bit_of_1 simp flip: )
next
  case False
  then have "shl 1 (int i) = 0" by (intro bit_word_eqI) (auto simp: bit_shl bit_1_iff)
  moreover have "\<not> bit x i" using False by (simp add: bit_word.rep_eq)
  ultimately show ?thesis by simp
qed

lemma bit_reverse:
  assumes "n \<le> 64"
  shows "bit (reverse x n) k \<longleftrightarrow> k < nat n \<and> bit x (nat n - 1 - k)"
proof -
  let ?f = "\<lambda>i c. c OR shl (if x AND shl 1 (int i) \<noteq> 0 then 1 else 0) (n - 1 - int i)"
  have "bit (fold ?f [0..<j] 0) k \<longleftrightarrow> nat n - j \<le> k \<and> k < nat n \<and> bit x (nat n - 1 - k)"
    if "j \<le> nat n" for j
    using that
  proof (induction j)
    case 0
    then show ?case by simp
  next
    case (Suc j)
    have shift: "nat (n - 1 - int j) = nat n - 1 - j" using Suc.prems by linarith
    have "bit (shl (if x AND shl 1 (int j) \<noteq> 0 then 1 else 0) (n - 1 - int j)) k
       \<longleftrightarrow> k = nat n - 1 - j \<and> bit x j"
      using Suc.prems assms
      by (auto simp: and_1_shl bit_shl shift bit_1_iff)
    moreover have "nat n - Suc j \<le> k \<longleftrightarrow> nat n - j \<le> k \<or> k = nat n - 1 - j"
      and "k = nat n - 1 - j \<Longrightarrow> nat n - 1 - k = j"
      using Suc.prems by auto
    ultimately show ?case using Suc by (auto simp: bit_or_iff)
  qed
  from this [of "nat n"] show ?thesis by (simp add: reverse_def)
qed
lemma reverse_reverse:
  assumes "n \<le> 64"
  shows "reverse (reverse x n) n = x AND gen_mask n"
  by (rule bit_word_eqI) (use assms in \<open>auto simp: bit_reverse bit_and_iff\<close>)

lemma bits_set_loop_eq: "bits_set_loop r x = r + card {k. bit x k}"
proof (induction r x rule: bits_set_loop.induct)
  case (1 r x)
  show ?case
  proof (cases "x = 0")
    case True
    then show ?thesis by simp
  next
    case False
    let ?A = "{k. bit x k}" and ?B = "{k. bit (drop_bit 1 x) k}"
    have fin: "finite ?B" by (rule finite_subset [of _ "{..<64}"]) (auto dest: bit_imp_le_length)
    have split: "?A = (if bit x 0 then {0} else {}) \<union> Suc ` ?B"
    proof (rule set_eqI)
      fix k show "k \<in> ?A \<longleftrightarrow> k \<in> (if bit x 0 then {0} else {}) \<union> Suc ` ?B"
        by (cases k) (auto simp: bit_drop_bit_eq)
    qed
    have "card ?A = (if bit x 0 then 1 else 0) + card ?B"
      by (subst split) (auto simp: card_image fin)
    moreover have "x AND 1 \<noteq> 0 \<longleftrightarrow> bit x 0"
      by (simp add: and_one_eq bit_0 odd_iff_mod_2_eq_one)
    ultimately show ?thesis using 1 False
      by (subst bits_set_loop.simps) simp
  qed
qed

lemma bit_gen_ir_code:
  assumes "\<not> is_raw rm" "0 \<le> pre_data_bits rm" "0 \<le> bits rm" "0 \<le> post_data_bits rm"
    "pre_data_bits rm + bits rm + post_data_bits rm \<le> 64"
  shows "bit (gen_ir_code rm pre cd post) k \<longleftrightarrow>
    (let p = nat (post_data_bits rm); b = nat (bits rm); q = nat (pre_data_bits rm)
     in if k < p then bit post k
        else if k < p + b then bit cd (k - p)
        else k < p + b + q \<and> bit pre (k - p - b))"
proof -
  obtain p b q where n: "post_data_bits rm = int p" "bits rm = int b" "pre_data_bits rm = int q"
    using assms(2-4) by (metis nonneg_int_cases)
  have le: "p + b + q \<le> 64" using assms(5) n by linarith
  show ?thesis
    using assms(1) le bit_imp_le_length [of post k] bit_imp_le_length [of cd "k - p"]
    by (simp add: gen_ir_code_def Let_def bit_or_iff bit_and_iff bit_shl n) linarith
qed

end
