(* ===== verification/Rec_Buffer.thy ===== *)
theory Rec_Buffer
  imports IR_Ops
begin

text \<open>
  The receive buffer of \<open>lib/receive.c\<close>: the global \<open>rec_buffer\<close>, reading samples from
  the driver or from the samples kept in the buffer, putting samples back, clearing and
  rewinding.

  The world outside is part of the state: \<open>input\<close> is the list of the values the next calls
  of \<open>curr_driver->readdata\<close> return, in order (when it is exhausted the driver times out and
  returns 0); \<open>clock\<close> is the list of the values the next calls of \<open>gettimeofday\<close> return;
  \<open>lirccode\<close> is the list of the byte strings the next calls of \<open>read\<close> on the driver's
  descriptor return. Any finite run of the program reads some such lists.

  \<open>mem_fault\<close> is a ghost: it is set when the code reads or writes \<open>data\<close> outside its
  \<open>RBUF_SIZE\<close> elements, which is undefined behaviour in C.
\<close>

section \<open>State\<close>

abbreviation (input) RBUF_SIZE :: int where "RBUF_SIZE \<equiv> 512"
abbreviation (input) REC_SYNC :: nat where "REC_SYNC \<equiv> 8"

record rbuf =
  rdata :: "lirc_t list"
  decoded :: ir_code
  rptr :: int
  wptr :: int
  too_long :: bool
  rb_biphase :: bool
  pendingp :: lirc_t
  pendings :: lirc_t
  rsum :: lirc_t
  last_signal_time :: timeval
  at_eof :: bool
  input_log :: "(bool \<times> int) list option"

record rstate = rbuf +
  update_mode :: bool
  input :: "lirc_t list"
  clock :: "timeval list"
  lirccode :: "int list list"
  mem_fault :: bool

definition gettimeofday :: "rstate \<Rightarrow> timeval \<times> rstate" where
  "gettimeofday s = (case clock s of
     [] \<Rightarrow> (zero_timeval, s)
   | t # ts \<Rightarrow> (t, s\<lparr>clock := ts\<rparr>))"

text \<open>\<open>data[i]\<close> read, and the ghost record of an access out of range.\<close>

definition rb_at :: "rstate \<Rightarrow> int \<Rightarrow> lirc_t" where
  "rb_at s i = (if 0 \<le> i \<and> i < RBUF_SIZE then rdata s ! nat i else 0)"

definition rb_touch :: "int \<Rightarrow> rstate \<Rightarrow> rstate" where
  "rb_touch i s = s\<lparr>mem_fault := mem_fault s \<or> \<not> (0 \<le> i \<and> i < RBUF_SIZE)\<rparr>"

definition rb_put :: "int \<Rightarrow> lirc_t \<Rightarrow> rstate \<Rightarrow> rstate" where
  "rb_put i v s = (rb_touch i s)\<lparr>rdata :=
     (if 0 \<le> i \<and> i < RBUF_SIZE then (rdata s)[nat i := v] else rdata s)\<rparr>"

definition set_pending_pulse :: "lirc_t \<Rightarrow> rstate \<Rightarrow> rstate" where
  "set_pending_pulse deltap s = s\<lparr>pendingp := deltap\<rparr>"

definition set_pending_space :: "lirc_t \<Rightarrow> rstate \<Rightarrow> rstate" where
  "set_pending_space deltas s = s\<lparr>pendings := deltas\<rparr>"

definition rec_set_update_mode :: "bool \<Rightarrow> rstate \<Rightarrow> rstate" where
  "rec_set_update_mode m s = s\<lparr>update_mode := m\<rparr>"

section \<open>Reading\<close>

text \<open>\<open>readdata\<close>: the timeout is what the driver is asked to wait.\<close>

definition readdata :: "lirc_t \<Rightarrow> rstate \<Rightarrow> lirc_t \<times> rstate" where
  "readdata timeout s = (case input s of
     [] \<Rightarrow> (0, s\<lparr>at_eof := False\<rparr>)
   | x # xs \<Rightarrow> (x, s\<lparr>input := xs, at_eof := (x AND LIRC_EOF \<noteq> 0)\<rparr>))"

definition log_input :: "lirc_t \<Rightarrow> rstate \<Rightarrow> rstate" where
  "log_input dt s = s\<lparr>input_log :=
     map_option (\<lambda>l. l @ [(dt AND PULSE_BIT \<noteq> 0, dt AND PULSE_MASK)]) (input_log s)\<rparr>"

text \<open>The time since \<open>last_signal_time\<close>, 0 when that is not set (\<open>timerisset\<close>).\<close>

definition signal_elapsed :: "rstate \<Rightarrow> int \<times> rstate" where
  "signal_elapsed s =
     (if tv_sec (last_signal_time s) \<noteq> 0 \<or> tv_usec (last_signal_time s) \<noteq> 0
      then (let (cur, s) = gettimeofday s in (time_elapsed (last_signal_time s) cur, s))
      else (0, s))"

text \<open>A sample read from the driver is stored at the write pointer; \<open>sum\<close> grows by the
  sample at the read pointer, as the code has it.\<close>

definition store_sample :: "lirc_t \<Rightarrow> rstate \<Rightarrow> rstate" where
  "store_sample dt s2 =
     (let s = log_input dt (rb_put (wptr s2) dt s2);
          s = rb_touch (rptr s) s;
          s = s\<lparr>rsum := i32 (rsum s + (rb_at s (rptr s) AND PULSE_MASK)),
                wptr := wptr s + 1, rptr := rptr s + 1\<rparr>
      in rb_touch (rptr s - 1) s)"

lemma readdata_input: "readdata t s = (v, s') \<Longrightarrow> v \<noteq> 0 \<Longrightarrow> length (input s') < length (input s)"
  by (auto simp: readdata_def split: list.splits)

lemma signal_elapsed_input [simp]: "signal_elapsed s = (e, s') \<Longrightarrow> input s' = input s"
  by (auto simp: signal_elapsed_def gettimeofday_def split: if_splits list.splits)

function get_next_rec_buffer_internal :: "lirc_t \<Rightarrow> rstate \<Rightarrow> lirc_t \<times> rstate" where
  "get_next_rec_buffer_internal maxusec s =
     (if rptr s < wptr s then
        (let v = rb_at s (rptr s); s = rb_touch (rptr s) s
         in (v, s\<lparr>rsum := i32 (rsum s + (v AND PULSE_MASK)), rptr := rptr s + 1\<rparr>))
      else if wptr s < RBUF_SIZE then
        (let (elapsed, s1) = signal_elapsed s;
             (dt, s2) = (if elapsed < u64 maxusec then readdata (i32 (maxusec - elapsed)) s1
                         else (0, s1))
         in if dt = 0 then (0, s2)
            else if dt AND LIRC_EOF \<noteq> 0 then (dt, s2)
            else if is_timeout dt then
              (if LIRC_VALUE dt < maxusec
               then get_next_rec_buffer_internal (i32 (maxusec - LIRC_VALUE dt)) s2
               else (0, s2))
            else
              (let s = store_sample dt s2 in (rb_at s (rptr s - 1), s)))
      else (0, s\<lparr>too_long := True\<rparr>))"
  by pat_completeness auto
termination
  by (relation "measure (\<lambda>(m, s). length (input s))")
    (auto split: if_splits dest!: readdata_input [OF sym] signal_elapsed_input [OF sym])

declare get_next_rec_buffer_internal.simps [simp del]

definition get_next_rec_buffer :: "lirc_t \<Rightarrow> rstate \<Rightarrow> lirc_t \<times> rstate" where
  "get_next_rec_buffer maxusec s = get_next_rec_buffer_internal (receive_timeout maxusec) s"

definition get_next_pulse :: "lirc_t \<Rightarrow> rstate \<Rightarrow> lirc_t \<times> rstate" where
  "get_next_pulse maxusec s =
     (let (dt, s) = get_next_rec_buffer maxusec s
      in if dt = 0 then (0, s)
         else if \<not> is_pulse dt then (0, s)
         else (dt AND PULSE_MASK, s))"

definition get_next_space :: "lirc_t \<Rightarrow> rstate \<Rightarrow> lirc_t \<times> rstate" where
  "get_next_space maxusec s =
     (let (dt, s) = get_next_rec_buffer maxusec s
      in if dt = 0 then (0, s)
         else if \<not> is_space dt then (0, s)
         else (dt, s))"

section \<open>Putting back, rewinding, clearing\<close>

definition unget_rec_buffer :: "nat \<Rightarrow> rstate \<Rightarrow> rstate" where
  "unget_rec_buffer count s =
     (if count = 1 \<or> count = 2 then
        (let s = s\<lparr>rptr := rptr s - int count\<rparr>;
             s = rb_touch (rptr s) s;
             s = s\<lparr>rsum := i32 (rsum s - (rb_at s (rptr s) AND PULSE_MASK))\<rparr>
         in if count = 2 then
              (let s = rb_touch (rptr s + 1) s
               in s\<lparr>rsum := i32 (rsum s - (rb_at s (rptr s + 1) AND PULSE_MASK))\<rparr>)
            else s)
      else s)"

definition unget_rec_buffer_delta :: "lirc_t \<Rightarrow> rstate \<Rightarrow> rstate" where
  "unget_rec_buffer_delta delta s =
     (let s = s\<lparr>rptr := rptr s - 1\<rparr>;
          s = s\<lparr>rsum := i32 (rsum s - (delta AND PULSE_MASK))\<rparr>
      in rb_put (rptr s) delta s)"

text \<open>\<open>memset(&rec_buffer, 0, sizeof(rec_buffer))\<close>.\<close>

definition rec_buffer_init :: "rstate \<Rightarrow> rstate" where
  "rec_buffer_init s = s\<lparr>rdata := replicate 512 0, decoded := 0, rptr := 0, wptr := 0,
     too_long := False, rb_biphase := False, pendingp := 0, pendings := 0, rsum := 0,
     last_signal_time := zero_timeval, at_eof := False, input_log := None\<rparr>"

definition rec_buffer_rewind :: "rstate \<Rightarrow> rstate" where
  "rec_buffer_rewind s =
     (let s = s\<lparr>rptr := 0, too_long := False\<rparr>;
          s = set_pending_pulse 0 s;
          s = set_pending_space 0 s
      in s\<lparr>rsum := 0, at_eof := False\<rparr>)"

definition rec_buffer_reset_wptr :: "rstate \<Rightarrow> rstate" where
  "rec_buffer_reset_wptr s = s\<lparr>wptr := 0\<rparr>"

definition rec_buffer_set_logfile :: "(bool \<times> int) list option \<Rightarrow> rstate \<Rightarrow> rstate" where
  "rec_buffer_set_logfile f s = s\<lparr>input_log := f\<rparr>"

text \<open>\<open>read\<close> of \<open>count\<close> bytes from the driver's descriptor: the bytes it returned.\<close>

definition read_code_bytes :: "rstate \<Rightarrow> int list \<times> rstate" where
  "read_code_bytes s = (case lirccode s of
     [] \<Rightarrow> ([], s)
   | bs # bss \<Rightarrow> (bs, s\<lparr>lirccode := bss\<rparr>))"

definition rec_buffer_clear :: "driver \<Rightarrow> rstate \<Rightarrow> bool \<times> rstate" where
  "rec_buffer_clear d s =
     (let s = s\<lparr>last_signal_time := zero_timeval\<rparr>
      in if rec_mode d = LIRC_MODE_LIRCCODE then
           (let count = nat (code_length d) div 8 + (if nat (code_length d) mod 8 \<noteq> 0 then 1 else 0);
                (buffer, s) = read_code_bytes s
            in if length buffer \<noteq> count then (False, s)
               else (let s = s\<lparr>decoded := fold (\<lambda>b c. shl c 8 + word_of_int (take_bit 8 b)) buffer 0\<rparr>
                     in (True, (rec_buffer_rewind s)\<lparr>rb_biphase := False\<rparr>)))
         else
           (let move = wptr s - rptr s;
                s = (if move > 0 \<and> rptr s > 0 then
                       s\<lparr>rdata := (let n = nat (rptr s); m = nat move
                                    in take m (drop n (rdata s)) @ drop m (rdata s)),
                         wptr := wptr s - rptr s\<rparr>
                     else
                       (let s = s\<lparr>wptr := 0\<rparr>;
                            (dt, s) = readdata 0 s;
                            s = rb_put (wptr s) dt s
                        in s\<lparr>wptr := wptr s + 1\<rparr>))
            in (True, (rec_buffer_rewind s)\<lparr>rb_biphase := False\<rparr>)))"

section \<open>Facts: what reading changes\<close>

text \<open>The state after the driver has been asked for a sample differs from the state before
  only in the world and in \<open>at_eof\<close>.\<close>

definition world_step :: "rstate \<Rightarrow> rstate \<Rightarrow> bool" where
  "world_step s s' \<longleftrightarrow> s' = s\<lparr>input := input s', at_eof := at_eof s', clock := clock s'\<rparr>"

lemma world_step_refl [simp]: "world_step s s"
  by (simp add: world_step_def)

lemma world_step_trans:
  assumes "world_step s s'" "world_step s' s''"
  shows "world_step s s''"
proof -
  let ?w = "\<lambda>x. x\<lparr>input := input s'', at_eof := at_eof s'', clock := clock s''\<rparr>"
  have "s'' = ?w s'" using assms(2) by (simp only: world_step_def)
  also have "?w s' = ?w (s\<lparr>input := input s', at_eof := at_eof s', clock := clock s'\<rparr>)"
    by (rule arg_cong [OF assms(1) [unfolded world_step_def]])
  also have "\<dots> = ?w s" by simp
  finally show ?thesis by (simp only: world_step_def)
qed

lemma world_step_readdata: "readdata t s = (v, s') \<Longrightarrow> world_step s s'"
  by (cases "input s") (auto simp: readdata_def world_step_def)

lemma world_step_clock: "world_step s (s\<lparr>clock := c\<rparr>)"
  by (simp add: world_step_def)

lemma world_step_gettimeofday: "gettimeofday s = (v, s') \<Longrightarrow> world_step s s'"
  by (cases "clock s") (auto simp: gettimeofday_def intro: world_step_clock)

lemma world_step_elapsed: "signal_elapsed s = (e, s') \<Longrightarrow> world_step s s'"
  by (auto simp: signal_elapsed_def split: if_splits prod.splits dest: world_step_gettimeofday)

lemma world_stepD:
  assumes "world_step s s'"
  shows "rdata s' = rdata s" "rptr s' = rptr s" "wptr s' = wptr s" "rsum s' = rsum s"
    "pendingp s' = pendingp s" "pendings s' = pendings s" "mem_fault s' = mem_fault s"
    "too_long s' = too_long s" "decoded s' = decoded s" "input_log s' = input_log s"
    "update_mode s' = update_mode s" "lirccode s' = lirccode s" "rb_biphase s' = rb_biphase s"
    "last_signal_time s' = last_signal_time s"
  by (subst assms [unfolded world_step_def], simp)+

lemma next_buffered:
  "rptr s < wptr s \<Longrightarrow> get_next_rec_buffer_internal m s =
     (rb_at s (rptr s),
      (rb_touch (rptr s) s)\<lparr>rsum := i32 (rsum s + (rb_at s (rptr s) AND PULSE_MASK)), rptr := rptr s + 1\<rparr>)"
  by (subst get_next_rec_buffer_internal.simps) (simp add: Let_def rb_touch_def)

lemma next_full:
  "\<not> rptr s < wptr s \<Longrightarrow> \<not> wptr s < RBUF_SIZE \<Longrightarrow>
     get_next_rec_buffer_internal m s = (0, s\<lparr>too_long := True\<rparr>)"
  by (subst get_next_rec_buffer_internal.simps) simp

text \<open>Reading from the driver either leaves the buffer alone, returning 0 or the end of
  input, or stores one sample and returns what is then at the read position.\<close>

lemma next_fresh:
  assumes "get_next_rec_buffer_internal m s = (v, s')" "\<not> rptr s < wptr s" "wptr s < RBUF_SIZE"
  shows "(world_step s s' \<and> (v = 0 \<or> v AND LIRC_EOF \<noteq> 0))
    \<or> (\<exists>dt s2. world_step s s2 \<and> dt \<noteq> 0 \<and> dt AND LIRC_EOF = 0 \<and> \<not> is_timeout dt
         \<and> s' = store_sample dt s2 \<and> v = rb_at s' (rptr s' - 1))"
  using assms
proof (induction m s rule: get_next_rec_buffer_internal.induct)
  case (1 m s)
  obtain e s1 where e: "signal_elapsed s = (e, s1)" by force
  obtain dt s2 where r: "(if e < u64 m then readdata (i32 (m - e)) s1 else (0, s1)) = (dt, s2)"
    by force
  have w: "world_step s s2"
    using world_step_elapsed [OF e] r
    by (auto split: if_splits intro: world_step_trans world_step_readdata)
  then have ptrs: "rptr s2 = rptr s" "wptr s2 = wptr s" by (auto dest: world_stepD)
  note unf = "1.prems"(1) [unfolded get_next_rec_buffer_internal.simps [of m s]]
  show ?case
  proof (cases "dt \<noteq> 0 \<and> dt AND LIRC_EOF = 0 \<and> is_timeout dt \<and> LIRC_VALUE dt < m")
    case True
    with unf "1.prems" e r have rec: "get_next_rec_buffer_internal (i32 (m - LIRC_VALUE dt)) s2 = (v, s')"
      by (simp add: Let_def)
    from "1.IH" [OF _ _ e [symmetric] refl r [symmetric] refl] True "1.prems" rec ptrs
    have "(world_step s2 s' \<and> (v = 0 \<or> v AND LIRC_EOF \<noteq> 0))
      \<or> (\<exists>dt s3. world_step s2 s3 \<and> dt \<noteq> 0 \<and> dt AND LIRC_EOF = 0 \<and> \<not> is_timeout dt
           \<and> s' = store_sample dt s3 \<and> v = rb_at s' (rptr s' - 1))" by auto
    then show ?thesis using w by (auto intro: world_step_trans)
  next
    case False
    show ?thesis
    proof (cases "dt = 0 \<or> dt AND LIRC_EOF \<noteq> 0 \<or> is_timeout dt")
      case True
      with False unf "1.prems" e r w show ?thesis by (auto simp: Let_def split: if_splits)
    next
      case stored: False
      with unf "1.prems" e r have "s' = store_sample dt s2 \<and> v = rb_at s' (rptr s' - 1)"
        by (auto simp: Let_def)
      with stored w show ?thesis by blast
    qed
  qed
qed

lemma store_sample_ptrs [simp]:
  "rptr (store_sample dt s) = rptr s + 1" "wptr (store_sample dt s) = wptr s + 1"
  by (simp_all add: store_sample_def Let_def rb_touch_def rb_put_def log_input_def)

text \<open>How many samples can still be read without going round: the measure of the loops
  that read until the buffer is full.\<close>

definition rb_left :: "rstate \<Rightarrow> nat" where
  "rb_left s = nat (RBUF_SIZE - wptr s) + nat (wptr s - rptr s)"

lemma next_ptrs:
  assumes "get_next_rec_buffer_internal m s = (v, s')"
  shows "(rptr s' = rptr s + 1 \<and> wptr s' = max (wptr s) (if rptr s < wptr s then wptr s else wptr s + 1)
            \<and> (rptr s < wptr s \<or> wptr s < RBUF_SIZE))
       \<or> (rptr s' = rptr s \<and> wptr s' = wptr s \<and> (v = 0 \<or> v AND LIRC_EOF \<noteq> 0))"
proof (cases "rptr s < wptr s")
  case True
  with assms show ?thesis by (auto simp: next_buffered rb_touch_def)
next
  case False
  show ?thesis
  proof (cases "wptr s < RBUF_SIZE")
    case True
    from next_fresh [OF assms False True] False True show ?thesis
      by (auto dest: world_stepD)
  next
    case full: False
    with assms False show ?thesis by (auto simp: next_full)
  qed
qed

lemma rb_left_next:
  assumes "get_next_rec_buffer_internal m s = (v, s')"
  shows "rb_left s' \<le> rb_left s" "v \<noteq> 0 \<Longrightarrow> v AND LIRC_EOF = 0 \<Longrightarrow> rb_left s' < rb_left s"
  using next_ptrs [OF assms] by (auto simp: rb_left_def split: if_splits)

lemma eof_bit: "v AND LIRC_EOF = (v AND LIRC_MODE2_MASK) AND LIRC_EOF"
  by (simp add: and.assoc)

lemma not_eof: "is_pulse v \<Longrightarrow> v AND LIRC_EOF = 0" "is_space v \<Longrightarrow> v AND LIRC_EOF = 0"
  by (subst eof_bit, simp add: is_pulse_def is_space_def)+

text \<open>One sample read: the read pointer advances by at most one, and by exactly one when a
  pulse or a space is returned.\<close>

definition advances :: "bool \<Rightarrow> rstate \<Rightarrow> rstate \<Rightarrow> bool" where
  "advances must s s' \<longleftrightarrow>
     (rptr s' = rptr s + 1 \<and> wptr s' = (if rptr s < wptr s then wptr s else wptr s + 1)
        \<and> (rptr s < wptr s \<or> wptr s < RBUF_SIZE))
     \<or> (\<not> must \<and> rptr s' = rptr s \<and> wptr s' = wptr s)"

lemma next_advances: "get_next_rec_buffer m s = (v, s') \<Longrightarrow> advances (v \<noteq> 0 \<and> v AND LIRC_EOF = 0) s s'"
  unfolding get_next_rec_buffer_def by (drule next_ptrs) (auto simp: advances_def)

lemma advances_weaken: "advances b s s' \<Longrightarrow> (c \<Longrightarrow> b) \<Longrightarrow> advances c s s'"
  by (auto simp: advances_def)

lemma next_pulse_advances: "get_next_pulse m s = (v, s') \<Longrightarrow> advances (v \<noteq> 0) s s'"
  by (auto simp: get_next_pulse_def Let_def not_eof split: prod.splits if_splits
      dest!: next_advances elim!: advances_weaken)

lemma next_space_advances: "get_next_space m s = (v, s') \<Longrightarrow> advances (v \<noteq> 0) s s'"
  by (auto simp: get_next_space_def Let_def not_eof split: prod.splits if_splits
      dest!: next_advances elim!: advances_weaken)

lemma advances_left:
  "advances b s s' \<Longrightarrow> rb_left s' \<le> rb_left s \<and> (b \<longrightarrow> rb_left s' < rb_left s)"
  by (auto simp: advances_def rb_left_def split: if_splits)

end
