(* ===== verification/Receive.thy ===== *)
theory Receive
  imports Rec_Buffer
begin

text \<open>
  The signal recognisers of \<open>lib/receive.c\<close>: matching expected pulses and spaces, bits,
  the sync space, header, foot, lead, trail, gap and repeat code. Each function takes the
  driver, the remote and the receive state and returns its C result (\<open>True\<close> for 1) with the
  new state. \<open>last\<close> is the remote \<open>last_remote\<close> points to; of it the code reads only the
  tolerances and the remaining gaps.
\<close>

section \<open>Pulses and spaces\<close>

definition sync_pending_pulse :: "driver \<Rightarrow> ir_remote \<Rightarrow> rstate \<Rightarrow> bool \<times> rstate" where
  "sync_pending_pulse d rm s =
     (if pendingp s > 0 then
        (let (deltap, s) = get_next_pulse (pendingp s) s
         in if deltap = 0 then (False, s)
            else if \<not> expect d rm deltap (pendingp s) then (False, s)
            else (True, set_pending_pulse 0 s))
      else (True, s))"

definition sync_pending_space :: "driver \<Rightarrow> ir_remote \<Rightarrow> rstate \<Rightarrow> bool \<times> rstate" where
  "sync_pending_space d rm s =
     (if pendings s > 0 then
        (let (deltas, s) = get_next_space (pendings s) s
         in if deltas = 0 then (False, s)
            else if \<not> expect d rm deltas (pendings s) then (False, s)
            else (True, set_pending_space 0 s))
      else (True, s))"

definition expectpulse :: "driver \<Rightarrow> ir_remote \<Rightarrow> lirc_t \<Rightarrow> rstate \<Rightarrow> bool \<times> rstate" where
  "expectpulse d rm exdelta s =
     (let (ok, s) = sync_pending_space d rm s
      in if \<not> ok then (False, s)
         else
           (let (deltap, s) = get_next_pulse (i32 (pendingp s + exdelta)) s
            in if deltap = 0 then (False, s)
               else if pendingp s > 0 then
                 (if pendingp s > deltap then (False, s)
                  else if \<not> expect d rm (i32 (deltap - pendingp s)) exdelta then (False, s)
                  else (True, set_pending_pulse 0 s))
               else (expect d rm deltap exdelta, s)))"

definition expectspace :: "driver \<Rightarrow> ir_remote \<Rightarrow> lirc_t \<Rightarrow> rstate \<Rightarrow> bool \<times> rstate" where
  "expectspace d rm exdelta s =
     (let (ok, s) = sync_pending_pulse d rm s
      in if \<not> ok then (False, s)
         else
           (let (deltas, s) = get_next_space (i32 (pendings s + exdelta)) s
            in if deltas = 0 then (False, s)
               else if pendings s > 0 then
                 (if pendings s > deltas then (False, s)
                  else if \<not> expect d rm (i32 (deltas - pendings s)) exdelta then (False, s)
                  else (True, set_pending_space 0 s))
               else (expect d rm deltas exdelta, s)))"

section \<open>Single bits\<close>

definition bit_mask_of :: "ir_remote \<Rightarrow> int \<Rightarrow> ir_code" where
  "bit_mask_of rm b = shl 1 (bit_count rm - 1 - b)"

definition expectone :: "driver \<Rightarrow> ir_remote \<Rightarrow> int \<Rightarrow> rstate \<Rightarrow> bool \<times> rstate" where
  "expectone d rm b s =
     (if is_biphase rm then
        (let k = (if bit_mask_of rm b AND rc6_mask rm \<noteq> 0 then 2 else 1);
             (ok, s) = (if sone rm > 0 then expectspace d rm (i32 (k * sone rm)) s else (True, s))
         in if \<not> ok then (False, unget_rec_buffer 1 s)
            else (True, set_pending_pulse (i32 (k * pone rm)) s))
      else if is_space_first rm then
        (let (ok, s) = (if sone rm > 0 then expectspace d rm (sone rm) s else (True, s))
         in if \<not> ok then (False, unget_rec_buffer 1 s)
            else
              (let (ok, s) = (if pone rm > 0 then expectpulse d rm (pone rm) s else (True, s))
               in if \<not> ok then (False, unget_rec_buffer 2 s) else (True, s)))
      else
        (let (ok, s) = (if pone rm > 0 then expectpulse d rm (pone rm) s else (True, s))
         in if \<not> ok then (False, unget_rec_buffer 1 s)
            else if ptrail rm > 0 then
              (let (ok, s) = (if sone rm > 0 then expectspace d rm (sone rm) s else (True, s))
               in if \<not> ok then (False, unget_rec_buffer 2 s) else (True, s))
            else (True, set_pending_space (sone rm) s)))"

definition expectzero :: "driver \<Rightarrow> ir_remote \<Rightarrow> int \<Rightarrow> rstate \<Rightarrow> bool \<times> rstate" where
  "expectzero d rm b s =
     (if is_biphase rm then
        (let k = (if bit_mask_of rm b AND rc6_mask rm \<noteq> 0 then 2 else 1);
             (ok, s) = expectpulse d rm (i32 (k * pzero rm)) s
         in if \<not> ok then (False, unget_rec_buffer 1 s)
            else (True, set_pending_space (i32 (k * szero rm)) s))
      else if is_space_first rm then
        (let (ok, s) = (if szero rm > 0 then expectspace d rm (szero rm) s else (True, s))
         in if \<not> ok then (False, unget_rec_buffer 1 s)
            else
              (let (ok, s) = (if pzero rm > 0 then expectpulse d rm (pzero rm) s else (True, s))
               in if \<not> ok then (False, unget_rec_buffer 2 s) else (True, s)))
      else
        (let (ok, s) = expectpulse d rm (pzero rm) s
         in if \<not> ok then (False, unget_rec_buffer 1 s)
            else if ptrail rm > 0 then
              (let (ok, s) = expectspace d rm (szero rm) s
               in if \<not> ok then (False, unget_rec_buffer 2 s) else (True, s))
            else (True, set_pending_space (szero rm) s)))"

section \<open>Sync space\<close>

text \<open>The loop of \<open>sync_rec_buffer\<close>: skip pulse and space pairs until a space is at least
  as long as the gap the last remote leaves; 0 when none is found.\<close>

function sync_loop :: "driver \<Rightarrow> ir_remote \<Rightarrow> nat \<Rightarrow> lirc_t \<Rightarrow> rstate \<Rightarrow> lirc_t \<times> rstate" where
  "sync_loop d lst count deltas s =
     (if expect_at_least d lst deltas (min_remaining_gap lst) then (deltas, s)
      else
        (let (deltap, s) = get_next_pulse 1000000 s
         in if deltap = 0 then (0, s)
            else
              (let (deltas, s) = get_next_space 1000000 s
               in if deltas = 0 then (0, s)
                  else if count + 1 > REC_SYNC then (0, s)
                  else sync_loop d lst (count + 1) deltas s)))"
  by pat_completeness auto
termination
  by (relation "measure (\<lambda>(d, lst, count, deltas, s). 9 - count)") auto

declare sync_loop.simps [simp del]

definition sync_rec_buffer ::
  "driver \<Rightarrow> ir_remote option \<Rightarrow> ir_remote \<Rightarrow> rstate \<Rightarrow> lirc_t \<times> ir_remote \<times> rstate" where
  "sync_rec_buffer d lst rm s =
     (let (deltas, s) = get_next_space 1000000 s
      in if deltas = 0 then (0, rm, s)
         else (case lst of
             Some l \<Rightarrow>
               (if is_rcmm rm then (deltas, rm, s\<lparr>rsum := 0\<rparr>)
                else
                  (let (deltas, s) = sync_loop d l 0 deltas s
                   in if deltas = 0 then (0, rm, s)
                      else
                        (let rm = (if has_toggle_mask rm
                                      \<and> \<not> expect_at_most d l deltas (max_remaining_gap l)
                                   then rm\<lparr>toggle_mask_state := 0, toggle_code := None\<rparr>
                                   else rm)
                         in (deltas, rm, s\<lparr>rsum := 0\<rparr>))))
           | None \<Rightarrow> (deltas, rm, s\<lparr>rsum := 0\<rparr>)))"

section \<open>Header, foot, lead, trail, gap, repeat\<close>

definition get_header :: "driver \<Rightarrow> ir_remote \<Rightarrow> rstate \<Rightarrow> bool \<times> rstate" where
  "get_header d rm s =
     (if is_rcmm rm then
        (let (deltap, s) = get_next_pulse (phead rm) s
         in if deltap = 0 then (False, unget_rec_buffer 1 s)
            else
              (let (deltas, s) = get_next_space (shead rm) s
               in if deltas = 0 then (False, unget_rec_buffer 2 s)
                  else if expect d rm (i32 (deltap + deltas)) (i32 (phead rm + shead rm))
                  then (True, s)
                  else (False, unget_rec_buffer 2 s)))
      else if is_bo rm then
        (let (ok, s) = expectpulse d rm (pone rm) s;
             (ok, s) = (if ok then expectspace d rm (sone rm) s else (False, s));
             (ok, s) = (if ok then expectpulse d rm (pone rm) s else (False, s));
             (ok, s) = (if ok then expectspace d rm (sone rm) s else (False, s));
             (ok, s) = (if ok then expectpulse d rm (phead rm) s else (False, s))
         in if ok then expectspace d rm (shead rm) s else (False, s))
      else if shead rm = 0 then
        (let (ok, s) = sync_pending_space d rm s
         in if \<not> ok then (False, s) else (True, set_pending_pulse (phead rm) s))
      else
        (let (ok, s) = expectpulse d rm (phead rm) s
         in if \<not> ok then (False, unget_rec_buffer 1 s)
            else if flags rm AND NO_HEAD_REP \<noteq> 0 then
              (let (deltas, s) = get_next_space (shead rm) s
               in if deltas \<noteq> 0 then
                    (if expect d rm (shead rm) deltas then (True, s)
                     else (False, unget_rec_buffer 2 s))
                  else (True, set_pending_space (shead rm) s))
            else (True, set_pending_space (shead rm) s)))"

definition get_foot :: "driver \<Rightarrow> ir_remote \<Rightarrow> rstate \<Rightarrow> bool \<times> rstate" where
  "get_foot d rm s =
     (let (ok, s) = expectspace d rm (sfoot rm) s
      in if \<not> ok then (False, s) else expectpulse d rm (pfoot rm) s)"

definition get_lead :: "driver \<Rightarrow> ir_remote \<Rightarrow> rstate \<Rightarrow> bool \<times> rstate" where
  "get_lead d rm s =
     (if plead rm = 0 then (True, s)
      else
        (let (ok, s) = sync_pending_space d rm s
         in if \<not> ok then (False, s) else (True, set_pending_pulse (plead rm) s)))"

definition get_trail :: "driver \<Rightarrow> ir_remote \<Rightarrow> rstate \<Rightarrow> bool \<times> rstate" where
  "get_trail d rm s =
     (let (ok, s) = (if ptrail rm \<noteq> 0 then expectpulse d rm (ptrail rm) s else (True, s))
      in if \<not> ok then (False, s)
         else if pendingp s > 0 then
           (let (ok, s) = sync_pending_pulse d rm s in (ok, s))
         else (True, s))"

definition get_gap :: "driver \<Rightarrow> ir_remote \<Rightarrow> lirc_t \<Rightarrow> rstate \<Rightarrow> bool \<times> rstate" where
  "get_gap d rm g s =
     (let (dt, s) = get_next_rec_buffer (i32 (g - i32 (g * eps rm) sdiv 100)) s
      in if dt = 0 then (True, s)
         else if \<not> is_space dt then (False, s)
         else
           (let s = unget_rec_buffer 1 s
            in if \<not> expect_at_least d rm dt g then (False, s) else (True, s)))"

text \<open>\<open>is_const(remote) ? (min_gap > sum ? min_gap - sum : 0) : \<dots>\<close>, which the code writes
  out in several places, once with \<open>min_gap\<close> and once with \<open>max_gap\<close>.\<close>

definition gap_after :: "lirc_t \<Rightarrow> rstate \<Rightarrow> lirc_t" where
  "gap_after g s = (if g > rsum s then i32 (g - rsum s) else 0)"

definition get_repeat :: "driver \<Rightarrow> ir_remote \<Rightarrow> rstate \<Rightarrow> bool \<times> rstate" where
  "get_repeat d rm s =
     (let (ok, s) = get_lead d rm s
      in if \<not> ok then (False, s)
         else
           (let (ok, s) =
                  (if is_biphase rm then
                     (let (ok, s) = expectspace d rm (srepeat rm) s
                      in if \<not> ok then (False, s) else expectpulse d rm (prepeat rm) s)
                   else
                     (let (ok, s) = expectpulse d rm (prepeat rm) s
                      in if \<not> ok then (False, s) else (True, set_pending_space (srepeat rm) s)))
            in if \<not> ok then (False, s)
               else
                 (let (ok, s) = get_trail d rm s
                  in if \<not> ok then (False, s)
                     else get_gap d rm
                       (if is_const rm then gap_after (min_gap rm) s
                        else if has_repeat_gap rm then i32 (repeat_gap rm) else min_gap rm) s)))"

end
