(* ===== verification/Receive_Data.thy ===== *)
theory Receive_Data
  imports Receive
begin

text \<open>
  \<open>get_data\<close> of \<open>lib/receive.c\<close>, one function per protocol, and \<open>get_pre\<close> and
  \<open>get_post\<close> on top of it. The C code returns \<open>(ir_code) -1\<close> when it cannot read the
  data. A result \<open>None\<close> means that the call does not return: an integer division by zero
  kills the process (serial remotes without a baud rate, XMP remotes without the length of
  a one), or the loop of the serial decoder does not end.
\<close>

abbreviation (input) FAILED :: ir_code where "FAILED \<equiv> - 1"

text \<open>The sums of all four pulse and space lengths, the longest wait for one sample.\<close>

definition all_pulses :: "ir_remote \<Rightarrow> lirc_t" where
  "all_pulses rm = i32 (pzero rm + pone rm + ptwo rm + pthree rm)"

definition all_spaces :: "ir_remote \<Rightarrow> lirc_t" where
  "all_spaces rm = i32 (szero rm + sone rm + stwo rm + sthree rm)"

section \<open>RC-MM: two bits per pulse and space\<close>

definition rcmm_symbol :: "driver \<Rightarrow> ir_remote \<Rightarrow> lirc_t \<Rightarrow> ir_code option" where
  "rcmm_symbol d rm tot =
     (if expect d rm tot (i32 (pzero rm + szero rm)) then Some 0
      else if expect d rm tot (i32 (pone rm + sone rm)) then Some 1
      else if expect d rm tot (i32 (ptwo rm + stwo rm)) then Some 2
      else if expect d rm tot (i32 (pthree rm + sthree rm)) then Some 3
      else None)"

function get_data_rcmm :: "driver \<Rightarrow> ir_remote \<Rightarrow> int \<Rightarrow> int \<Rightarrow> ir_code \<Rightarrow> rstate \<Rightarrow> ir_code \<times> rstate" where
  "get_data_rcmm d rm bts i cd s =
     (if i < bts then
        (let cd = shl cd 2;
             (deltap, s) = get_next_pulse (all_pulses rm) s;
             (deltas, s) = get_next_space (all_spaces rm) s
         in if deltap = 0 \<or> deltas = 0 then (FAILED, s)
            else (case rcmm_symbol d rm (i32 (deltap + deltas)) of
                None \<Rightarrow> (FAILED, s)
              | Some v \<Rightarrow> get_data_rcmm d rm bts (i + 2) (cd OR v) s))
      else (cd, s))"
  by pat_completeness auto
termination
  by (relation "measure (\<lambda>(d, rm, bts, i, cd, s). nat (bts - i))") auto

declare get_data_rcmm.simps [simp del]

section \<open>Grundig: two bits per one or two intervals\<close>

definition grundig_symbol :: "driver \<Rightarrow> ir_remote \<Rightarrow> lirc_t \<Rightarrow> int option" where
  "grundig_symbol d rm tot =
     (if expect d rm tot (i32 (szero rm + pzero rm)) then Some 0
      else if expect d rm tot (i32 (sone rm + pone rm)) then Some 1
      else if expect d rm tot (i32 (stwo rm + ptwo rm)) then Some 2
      else if expect d rm tot (i32 (sthree rm + pthree rm)) then Some 3
      else None)"

text \<open>One interval: the two bits it completes, nothing yet (the first half), or an error.\<close>

definition grundig_step :: "int \<Rightarrow> int \<Rightarrow> (ir_code option) option" where
  "grundig_step laststate state =
     (if state = 3 then Some (Some 0)
      else if laststate = 2 \<and> state = 0 then Some (Some 1)
      else if laststate = 1 \<and> state = 1 then Some (Some 2)
      else if laststate = 0 \<and> state = 2 then Some (Some 3)
      else if laststate = -1 then Some None
      else None)"

function get_data_grundig ::
  "driver \<Rightarrow> ir_remote \<Rightarrow> int \<Rightarrow> int \<Rightarrow> int \<Rightarrow> ir_code \<Rightarrow> rstate \<Rightarrow> ir_code \<times> rstate" where
  "get_data_grundig d rm bts i laststate cd s =
     (if i < bts then
        (let (deltas, s) = get_next_space (all_spaces rm) s;
             (deltap, s) = get_next_pulse (all_pulses rm) s
         in if deltas = 0 \<or> deltap = 0 then (FAILED, s)
            else (case grundig_symbol d rm (i32 (deltas + deltap)) of
                None \<Rightarrow> (FAILED, s)
              | Some state \<Rightarrow>
                 (case grundig_step laststate state of
                    None \<Rightarrow> (FAILED, s)
                  | Some None \<Rightarrow> get_data_grundig d rm bts i state cd s
                  | Some (Some v) \<Rightarrow> get_data_grundig d rm bts (i + 2) (-1) (shl cd 2 OR v) s)))
      else (cd, s))"
  by pat_completeness auto
termination
proof (relation "measure (\<lambda>(d, rm, bts, i, l, cd, s). rb_left s)")
  show "wf (measure (\<lambda>(d, rm, bts, i, l, cd, s). rb_left s))" by simp
qed (auto dest!: next_space_advances [OF sym, THEN advances_left]
      next_pulse_advances [OF sym, THEN advances_left])

declare get_data_grundig.simps [simp del]

section \<open>Serial\<close>

text \<open>The local variables of the serial loop.\<close>

record serial_vars =
  sv_received :: int
  sv_space :: bool
  sv_stop_bit :: bool
  sv_delta :: lirc_t
  sv_origdelta :: lirc_t
  sv_parity :: bool
  sv_gap_delta :: lirc_t
  sv_code :: ir_code

datatype serial_res = SCont serial_vars | SFail | STrap

text \<open>The constants the loop is entered with.\<close>

record serial_const =
  sc_bits :: int
  sc_parity_bit :: int
  sc_base :: lirc_t
  sc_stop :: lirc_t
  sc_max_space :: lirc_t
  sc_max_pulse :: lirc_t

text \<open>A complete byte has been received: parity check, bit order, stop bit.\<close>

definition serial_byte :: "ir_remote \<Rightarrow> serial_const \<Rightarrow> serial_vars \<Rightarrow> rstate \<Rightarrow> serial_res \<times> rstate" where
  "serial_byte rm c v s =
     (if (parity rm = IR_PARITY_EVEN \<and> sv_parity v) \<or> (parity rm = IR_PARITY_ODD \<and> \<not> sv_parity v)
      then (SFail, s)
      else
        (let temp = shr (sv_code v) (bits_in_byte rm + sc_parity_bit c);
             cd = shl temp (bits_in_byte rm)
                  OR reverse (shr (sv_code v) (sc_parity_bit c)) (bits_in_byte rm);
             v = v\<lparr>sv_parity := False, sv_code := cd\<rparr>
         in if sv_space v \<and> sv_delta v = 0 then (SFail, s)
            else (SCont (v\<lparr>sv_stop_bit := True\<rparr>), set_pending_space (sc_stop c) s)))"

definition flip_space :: "serial_vars \<Rightarrow> serial_vars" where
  "flip_space v = (if sv_delta v = 0 then v\<lparr>sv_space := \<not> sv_space v\<rparr> else v)"

text \<open>One data bit, the end of the loop body.\<close>

definition serial_bit :: "driver \<Rightarrow> ir_remote \<Rightarrow> serial_const \<Rightarrow> serial_vars \<Rightarrow> rstate \<Rightarrow> serial_res \<times> rstate" where
  "serial_bit d rm c v s =
     (let expecting = (if sv_space v then sone rm else pzero rm)
      in if sv_delta v > expecting \<or> expect d rm (sv_delta v) expecting then
           (let v = v\<lparr>sv_delta := i32 (sv_delta v - (if expecting > sv_delta v then sv_delta v else expecting)),
                      sv_received := i32 (sv_received v + 1),
                      sv_code := shl (sv_code v) 1 OR (if sv_space v then 1 else 0),
                      sv_parity := (sv_parity v \<noteq> sv_space v)\<rparr>;
                bb = u32 (bits_in_byte rm + sc_parity_bit c)
            in if bb = 0 then (STrap, s)
               else if u32 (sv_received v) mod bb = 0 then
                 (case serial_byte rm c v s of
                    (SCont v, s) \<Rightarrow> (SCont (flip_space v), s)
                  | r \<Rightarrow> r)
               else (SCont (flip_space v), s))
         else if sv_delta v = sv_origdelta v then (SFail, s)
         else (SCont (flip_space (v\<lparr>sv_delta := 0\<rparr>)), s))"

definition serial_step :: "driver \<Rightarrow> ir_remote \<Rightarrow> serial_const \<Rightarrow> serial_vars \<Rightarrow> rstate \<Rightarrow> serial_res \<times> rstate" where
  "serial_step d rm c v s =
     (let (v, s) =
        (if sv_delta v = 0 then
           (let (dl, s) = (if sv_space v then get_next_space (sc_max_space c) s
                           else get_next_pulse (sc_max_pulse c) s);
                dl = (if dl = 0 \<and> sv_space v
                         \<and> u32 (sv_received v + bits_in_byte rm + sc_parity_bit c) \<ge> u32 (sc_bits c)
                      then sc_max_space c else dl)
            in (v\<lparr>sv_delta := dl, sv_origdelta := dl\<rparr>, s))
         else (v, s))
      in if sv_delta v = 0 then (SFail, s)
         else
           (let pending = (if sv_space v then pendings s else pendingp s)
            in if \<not> expect d rm (sv_delta v) pending \<and> \<not> sv_delta v > pending then (SFail, s)
               else
                 (let v = v\<lparr>sv_delta := (if expect d rm (sv_delta v) pending then 0
                                         else i32 (sv_delta v - pending))\<rparr>
                  in if pending > 0 then
                       (if sv_stop_bit v then
                          (SCont (v\<lparr>sv_gap_delta := sv_delta v, sv_delta := 0,
                                    sv_stop_bit := False, sv_space := False\<rparr>),
                           set_pending_space 0 (set_pending_pulse (sc_base c) s))
                        else (SCont (flip_space v), set_pending_space 0 (set_pending_pulse 0 s)))
                     else serial_bit d rm c v s)))"

partial_function (option) serial_loop ::
  "driver \<Rightarrow> ir_remote \<Rightarrow> serial_const \<Rightarrow> serial_vars \<Rightarrow> rstate \<Rightarrow> (serial_vars option \<times> rstate) option" where
  "serial_loop d rm c v s =
     (if sv_received v < sc_bits c \<or> sv_stop_bit v then
        (case serial_step d rm c v s of
           (SCont v, s) \<Rightarrow> serial_loop d rm c v s
         | (SFail, s) \<Rightarrow> Some (None, s)
         | (STrap, s) \<Rightarrow> None)
      else Some (Some v, s))"

definition get_data_serial :: "driver \<Rightarrow> ir_remote \<Rightarrow> int \<Rightarrow> rstate \<Rightarrow> (ir_code \<times> rstate) option" where
  "get_data_serial d rm bts s =
     (if baud rm = 0 \<or> (parity rm \<noteq> IR_PARITY_NONE \<and> bits_in_byte rm = 0) then None
      else
        (let base = i32 (1000000 div baud rm);
             s = set_pending_pulse base s;
             stop = i32 (u32 (base * stop_bits rm) div 2);
             par = parity rm \<noteq> IR_PARITY_NONE;
             max_space = i32 (sone rm * bits_in_byte rm + stop);
             max_pulse = i32 (pzero rm * (1 + bits_in_byte rm));
             c = \<lparr>sc_bits = (if par then i32 (bts + u32 bts div bits_in_byte rm) else bts),
                  sc_parity_bit = (if par then 1 else 0),
                  sc_base = base, sc_stop = stop,
                  sc_max_space = (if par then i32 (max_space + sone rm) else max_space),
                  sc_max_pulse = (if par then i32 (max_pulse + pzero rm) else max_pulse)\<rparr>;
             v = \<lparr>sv_received = 0, sv_space = (pendingp s = 0), sv_stop_bit = False, sv_delta = 0,
                  sv_origdelta = 0, sv_parity = False, sv_gap_delta = 0, sv_code = 0\<rparr>
         in case serial_loop d rm c v s of
              None \<Rightarrow> None
            | Some (None, s) \<Rightarrow> Some (FAILED, s)
            | Some (Some v, s) \<Rightarrow>
                (let s = (if sv_gap_delta v \<noteq> 0 then unget_rec_buffer_delta (sv_gap_delta v) s else s)
                 in Some (sv_code v, set_pending_space 0 (set_pending_pulse 0 s)))))"

section \<open>Bang and Olufsen: the code of a bit depends on the last bit\<close>

function get_data_bo :: "driver \<Rightarrow> ir_remote \<Rightarrow> int \<Rightarrow> int \<Rightarrow> bool \<Rightarrow> ir_code \<Rightarrow> rstate \<Rightarrow> ir_code \<times> rstate" where
  "get_data_bo d rm bts i lastbit cd s =
     (if i < bts then
        (let cd = shl cd 1;
             (deltap, s) = get_next_pulse (all_pulses rm) s;
             (deltas, s) = get_next_space (all_spaces rm) s
         in if deltap = 0 \<or> deltas = 0 then (FAILED, s)
            else
              (let p0 = (if lastbit then pone rm else ptwo rm);
                   s0 = (if lastbit then sone rm else stwo rm);
                   p1 = (if lastbit then ptwo rm else pthree rm);
                   s1 = (if lastbit then stwo rm else sthree rm)
               in if expect d rm deltap p0 \<and> expect d rm deltas s0
                  then get_data_bo d rm bts (i + 1) False cd s
                  else if expect d rm deltap p1 \<and> expect d rm deltas s1
                  then get_data_bo d rm bts (i + 1) True (cd OR 1) s
                  else (FAILED, s)))
      else (cd, s))"
  by pat_completeness auto
termination
  by (relation "measure (\<lambda>(d, rm, bts, i, l, cd, s). nat (bts - i))") auto

declare get_data_bo.simps [simp del]

section \<open>XMP: four bits per pulse and space\<close>

text \<open>The nibble a pulse and space encode: \<open>(sum + sone / 2) / sone\<close> of the excess over the
  shortest interval, converted to \<open>ir_code\<close> (a negative value becomes a huge one).\<close>

definition xmp_nibble :: "ir_remote \<Rightarrow> lirc_t \<Rightarrow> ir_code" where
  "xmp_nibble rm tot = word_of_int (i32 (i32 (tot - i32 (pzero rm + szero rm)) + sone rm sdiv 2) sdiv sone rm)"

function get_data_xmp :: "ir_remote \<Rightarrow> int \<Rightarrow> int \<Rightarrow> ir_code \<Rightarrow> rstate \<Rightarrow> (ir_code \<times> rstate) option" where
  "get_data_xmp rm bts i cd s =
     (if i < bts then
        (let cd = shl cd 4;
             (deltap, s) = get_next_pulse (pzero rm) s;
             (deltas, s) = get_next_space (i32 (szero rm + 16 * sone rm)) s
         in if deltap = 0 \<or> deltas = 0 then Some (FAILED, s)
            else if sone rm = 0 then None
            else
              (let n = xmp_nibble rm (i32 (deltap + deltas))
               in if n \<ge> 16 then Some (FAILED, s)
                  else get_data_xmp rm bts (i + 4) (cd OR n) s))
      else Some (cd, s))"
  by pat_completeness auto
termination
  by (relation "measure (\<lambda>(rm, bts, i, cd, s). nat (bts - i))") auto

declare get_data_xmp.simps [simp del]

section \<open>Bit by bit: biphase, space encoding and space-first encoding\<close>

function get_data_bits :: "driver \<Rightarrow> ir_remote \<Rightarrow> int \<Rightarrow> int \<Rightarrow> int \<Rightarrow> ir_code \<Rightarrow> rstate \<Rightarrow> ir_code \<times> rstate" where
  "get_data_bits d rm bts dn i cd s =
     (if i < bts then
        (let cd = shl cd 1;
             (one, s) = expectone d rm (dn + i) s
         in if one then get_data_bits d rm bts dn (i + 1) (cd OR 1) s
            else
              (let (zero, s) = expectzero d rm (dn + i) s
               in if zero then get_data_bits d rm bts dn (i + 1) cd s
                  else (FAILED, s)))
      else (cd, s))"
  by pat_completeness auto
termination
  by (relation "measure (\<lambda>(d, rm, bts, dn, i, cd, s). nat (bts - i))") auto

declare get_data_bits.simps [simp del]

section \<open>Dispatch\<close>

definition get_data :: "driver \<Rightarrow> ir_remote \<Rightarrow> int \<Rightarrow> int \<Rightarrow> rstate \<Rightarrow> (ir_code \<times> rstate) option" where
  "get_data d rm bts dn s =
     (if is_rcmm rm then
        (if bts mod 2 \<noteq> 0 \<or> dn mod 2 \<noteq> 0 then Some (FAILED, s)
         else (let (ok, s) = sync_pending_space d rm s
               in if \<not> ok then Some (0, s) else Some (get_data_rcmm d rm bts 0 0 s)))
      else if is_grundig rm then
        (if bts mod 2 \<noteq> 0 \<or> dn mod 2 \<noteq> 0 then Some (FAILED, s)
         else (let (ok, s) = sync_pending_pulse d rm s
               in if \<not> ok then Some (FAILED, s) else Some (get_data_grundig d rm bts 0 (-1) 0 s)))
      else if is_serial rm then get_data_serial d rm bts s
      else if is_bo rm then Some (get_data_bo d rm bts 0 True 0 s)
      else if is_xmp rm then
        (if bts mod 4 \<noteq> 0 \<or> dn mod 4 \<noteq> 0 then Some (FAILED, s)
         else (let (ok, s) = sync_pending_space d rm s
               in if \<not> ok then Some (0, s) else get_data_xmp rm bts 0 0 s))
      else Some (get_data_bits d rm bts dn 0 0 s))"

definition get_pre :: "driver \<Rightarrow> ir_remote \<Rightarrow> rstate \<Rightarrow> (ir_code \<times> rstate) option" where
  "get_pre d rm s =
     (case get_data d rm (pre_data_bits rm) 0 s of
        None \<Rightarrow> None
      | Some (pre, s) \<Rightarrow>
          Some
            (if pre = FAILED then (FAILED, s)
             else if update_mode s
               \<and> (let toggle = shr (toggle_bit_mask rm) (post_data_bits rm)
                  in pre_data rm \<noteq> 0 \<and> pre_data rm AND NOT toggle \<noteq> pre AND NOT toggle)
             then (FAILED, s)
             else if pre_p rm > 0 \<and> pre_s rm > 0 then
               (let (ok, s) = expectpulse d rm (pre_p rm) s
                in if \<not> ok then (FAILED, s) else (pre, set_pending_space (pre_s rm) s))
             else (pre, s)))"

definition get_post :: "driver \<Rightarrow> ir_remote \<Rightarrow> rstate \<Rightarrow> (ir_code \<times> rstate) option" where
  "get_post d rm s =
     (let (ok, s) = (if post_p rm > 0 \<and> post_s rm > 0 then
                       (let (ok, s) = expectpulse d rm (post_p rm) s
                        in if \<not> ok then (False, s) else (True, set_pending_space (post_s rm) s))
                     else (True, s))
      in if \<not> ok then Some (FAILED, s)
         else get_data d rm (post_data_bits rm) (pre_data_bits rm + bits rm) s)"

end
