(* ===== verification/Receive_Decode.thy ===== *)
theory Receive_Decode
  imports Receive_Data
begin

text \<open>
  \<open>receive_decode\<close> of \<open>lib/receive.c\<close>: one attempt to decode the buffered signal as a code
  of one remote. The result is the C return value, the filled \<open>decode_ctx\<close>, the remote
  (\<open>sync_rec_buffer\<close> may reset its toggle state) and the receive state. \<open>None\<close>: the
  call does not return (see \<open>Receive_Data\<close>), or it dereferences the NULL \<open>codes\<close> of a raw
  remote without codes.
\<close>

type_synonym decode_result = "bool \<times> decode_ctx \<times> ir_remote \<times> rstate"

section \<open>Repeat code and header\<close>

text \<open>The attempt to read a repeat code. \<open>Inl\<close>: the function returns this; \<open>Inr\<close>: it goes
  on with decoding a full signal.\<close>

definition rd_repeat :: "driver \<Rightarrow> ir_remote option \<Rightarrow> bool \<Rightarrow> ir_remote \<Rightarrow> rstate
    \<Rightarrow> decode_result + (ir_remote \<times> rstate)" where
  "rd_repeat d lst is_last rm s =
     (if has_repeat rm \<and> is_last then
        (let (ok, s) = (if flags rm AND REPEAT_HEADER \<noteq> 0 \<and> has_header rm
                        then get_header d rm s else (True, s))
         in if \<not> ok then Inl (False, zero_ctx, rm, s)
            else
              (let (ok, s) = get_repeat d rm s
               in if ok then
                    (case last_code rm of
                       None \<Rightarrow> Inl (False, zero_ctx, rm, s)
                     | Some p \<Rightarrow>
                         Inl (True,
                           \<lparr>ctx_code = code (deref rm p), ctx_pre = pre_data rm,
                            ctx_post = post_data rm, ctx_repeat_flag = True,
                            ctx_max_remaining_gap =
                              (if is_const rm then gap_after (max_gap rm) s
                               else if has_repeat_gap rm then i32 (repeat_gap rm) else max_gap rm),
                            ctx_min_remaining_gap =
                              (if is_const rm then gap_after (min_gap rm) s
                               else if has_repeat_gap rm then i32 (repeat_gap rm) else min_gap rm)\<rparr>,
                           rm, s))
                  else
                    (let s = rec_buffer_rewind s;
                         (_, rm, s) = sync_rec_buffer d lst rm s
                     in Inr (rm, s))))
      else Inr (rm, s))"

text \<open>The header: \<open>None\<close> when the signal cannot be this remote's, otherwise whether a
  header was read.\<close>

definition rd_header :: "driver \<Rightarrow> ir_remote \<Rightarrow> lirc_t \<Rightarrow> rstate \<Rightarrow> bool option \<times> rstate" where
  "rd_header d rm sync s =
     (if has_header rm then
        (let (ok, s) = get_header d rm s
         in if ok then (Some True, s)
            else if flags rm AND NO_HEAD_REP \<noteq> 0 \<and> expect_at_most d rm sync (max_gap rm)
            then (Some False, s)
            else (None, s))
      else (Some False, s))"

section \<open>Raw codes\<close>

text \<open>The signals of a raw code, pulse first.\<close>

definition sig_list :: "ir_ncode \<Rightarrow> lirc_t list" where
  "sig_list c = (case signals c of None \<Rightarrow> [] | Some xs \<Rightarrow> take (nlength c) xs)"

fun match_signals :: "driver \<Rightarrow> ir_remote \<Rightarrow> lirc_t list \<Rightarrow> rstate \<Rightarrow> bool \<times> rstate" where
  "match_signals d rm [] s = (True, s)"
| "match_signals d rm [p] s = expectpulse d rm p s"
| "match_signals d rm (p # q # rest) s =
     (let (ok, s) = expectpulse d rm p s
      in if \<not> ok then (False, s)
         else
           (let (ok, s) = expectspace d rm q s
            in if \<not> ok then (False, s) else match_signals d rm rest s))"

fun match_raw :: "driver \<Rightarrow> ir_remote option \<Rightarrow> ir_ncode list \<Rightarrow> ir_remote \<Rightarrow> rstate
    \<Rightarrow> ir_ncode option \<times> ir_remote \<times> rstate" where
  "match_raw d lst [] rm s = (None, rm, s)"
| "match_raw d lst (c # cs) rm s =
     (let (ok, s) = match_signals d rm (sig_list c) s
      in if \<not> ok then
           (let s = rec_buffer_rewind s;
                (_, rm, s) = sync_rec_buffer d lst rm s
            in match_raw d lst cs rm s)
         else
           (let (ok, s) = get_gap d rm (if is_const rm then i32 (min_gap rm - rsum s) else min_gap rm) s
            in if ok then (Some c, rm, s) else match_raw d lst cs rm s))"

section \<open>Codes the driver has decoded\<close>

text \<open>The length of a whole signal, summed from the remote's timing.\<close>

definition signal_estimate :: "ir_remote \<Rightarrow> lirc_t" where
  "signal_estimate rm =
     (let one = i32 (pone rm + sone rm); zero = i32 (pzero rm + szero rm)
      in i32 (phead rm + shead rm + (if one > zero then one else zero) * bit_count rm + plead rm
              + ptrail rm + pfoot rm + sfoot rm + pre_p rm + pre_s rm + post_p rm + post_s rm))"

definition rd_lirccode :: "driver \<Rightarrow> ir_remote \<Rightarrow> rstate
    \<Rightarrow> (decode_ctx \<times> lirc_t \<times> timeval \<times> rstate) option" where
  "rd_lirccode d rm s =
     (if code_length d \<noteq> u32 (bit_count rm) then None
      else
        (let dec = decoded s;
             post = dec AND gen_mask (post_data_bits rm);
             dec = shr dec (post_data_bits rm);
             cd = dec AND gen_mask (bits rm);
             pre = shr dec (bits rm);
             (cur, s) = gettimeofday s;
             total = signal_estimate rm;
             s = s\<lparr>rsum := (if u32 total \<ge> gap rm then i32 (gap rm - 1) else total)\<rparr>
         in Some (zero_ctx\<lparr>ctx_code := cd, ctx_pre := pre, ctx_post := post\<rparr>,
                  i32 (time_elapsed (last_send rm) cur - rsum s), cur, s)))"

section \<open>Pulse and space signals\<close>

text \<open>The part of the function that reads lead, data, trail, foot and gap. \<open>Some None\<close>: not
  this remote's signal.\<close>

definition rd_tail :: "driver \<Rightarrow> ir_remote \<Rightarrow> bool \<Rightarrow> rstate \<Rightarrow> bool \<times> rstate" where
  "rd_tail d rm header s =
     (let (ok, s) = get_trail d rm s
      in if \<not> ok then (False, s)
         else
           (let (ok, s) = (if has_foot rm then get_foot d rm s else (True, s))
            in if \<not> ok then (False, s)
               else
                 (let s = (if header \<and> is_const rm \<and> flags rm AND NO_HEAD_REP \<noteq> 0
                           then s\<lparr>rsum := i32 (rsum s - i32 (phead rm + shead rm))\<rparr> else s)
                  in if is_rcmm rm then get_gap d rm 1000 s
                     else if is_const rm then get_gap d rm (gap_after (min_gap rm) s) s
                     else get_gap d rm (min_gap rm) s)))"

definition rd_signal :: "driver \<Rightarrow> ir_remote \<Rightarrow> bool \<Rightarrow> rstate \<Rightarrow> (decode_ctx option \<times> rstate) option" where
  "rd_signal d rm header s =
     (let (ok, s) = get_lead d rm s
      in if \<not> ok then Some (None, s)
         else
           (case (if has_pre rm then get_pre d rm s else Some (0, s)) of
              None \<Rightarrow> None
            | Some (pre, s) \<Rightarrow>
                if has_pre rm \<and> pre = FAILED then Some (None, s)
                else
                  (case get_data d rm (bits rm) (pre_data_bits rm) s of
                     None \<Rightarrow> None
                   | Some (cd, s) \<Rightarrow>
                       if cd = FAILED then Some (None, s)
                       else
                         (case (if has_post rm then get_post d rm s else Some (0, s)) of
                            None \<Rightarrow> None
                          | Some (post, s) \<Rightarrow>
                              if has_post rm \<and> post = FAILED then Some (None, s)
                              else
                                (let (ok, s) = rd_tail d rm header s
                                 in Some (if ok then Some (zero_ctx\<lparr>ctx_code := cd, ctx_pre := pre,
                                                                   ctx_post := post\<rparr>)
                                          else None, s))))))"

section \<open>Repeat flag and remaining gap\<close>

definition rd_finish :: "driver \<Rightarrow> ir_remote \<Rightarrow> lirc_t \<Rightarrow> timeval \<Rightarrow> decode_ctx \<Rightarrow> rstate \<Rightarrow> decode_ctx" where
  "rd_finish d rm sync cur ctx s =
     (let rep = (\<not> has_repeat rm \<or> u32 (reps rm) < min_code_repeat rm)
                \<and> expect_at_most d rm sync (max_remaining_gap rm);
          rep = (if rec_mode d = LIRC_MODE_LIRCCODE \<and> time_elapsed (last_send rm) cur < 325000
                 then True else rep)
      in ctx\<lparr>ctx_repeat_flag := rep,
             ctx_min_remaining_gap := (if is_const rm then gap_after (min_gap rm) s else min_gap rm),
             ctx_max_remaining_gap := (if is_const rm then gap_after (max_gap rm) s else max_gap rm)\<rparr>)"

section \<open>The whole decoder\<close>

definition rd_body :: "driver \<Rightarrow> ir_remote option \<Rightarrow> ir_remote \<Rightarrow> lirc_t \<Rightarrow> bool \<Rightarrow> rstate
    \<Rightarrow> decode_result option" where
  "rd_body d lst rm sync header s =
     (if is_raw rm then
        (if rec_mode d = LIRC_MODE_LIRCCODE then Some (False, zero_ctx, rm, s)
         else (case codes rm of
             None \<Rightarrow> None
           | Some cs \<Rightarrow>
               (let (found, rm, s) = match_raw d lst cs rm s
                in Some (case found of
                     None \<Rightarrow> (False, zero_ctx, rm, s)
                   | Some c \<Rightarrow>
                       (True, rd_finish d rm sync zero_timeval (zero_ctx\<lparr>ctx_code := code c\<rparr>) s, rm, s)))))
      else if rec_mode d = LIRC_MODE_LIRCCODE then
        Some (case rd_lirccode d rm s of
            None \<Rightarrow> (False, zero_ctx, rm, s)
          | Some (ctx, sync, cur, s) \<Rightarrow> (True, rd_finish d rm sync cur ctx s, rm, s))
      else
        (case rd_signal d rm header s of
           None \<Rightarrow> None
         | Some (None, s) \<Rightarrow> Some (False, zero_ctx, rm, s)
         | Some (Some ctx, s) \<Rightarrow> Some (True, rd_finish d rm sync zero_timeval ctx s, rm, s)))"

definition reads_samples :: "driver \<Rightarrow> bool" where
  "reads_samples d \<longleftrightarrow> rec_mode d = LIRC_MODE_MODE2 \<or> rec_mode d = LIRC_MODE_PULSE
     \<or> rec_mode d = LIRC_MODE_RAW"

definition receive_decode :: "driver \<Rightarrow> ir_remote option \<Rightarrow> bool \<Rightarrow> ir_remote \<Rightarrow> rstate
    \<Rightarrow> decode_result option" where
  "receive_decode d lst is_last rm s =
     (if at_eof s \<and> wptr s - rptr s \<le> 1 then
        Some (True, zero_ctx\<lparr>ctx_code := word_of_int LIRC_EOF\<rparr>, rm, s\<lparr>at_eof := False\<rparr>)
      else if reads_samples d then
        (let s = (rec_buffer_rewind s)\<lparr>rb_biphase := is_biphase rm\<rparr>;
             (sync, rm, s) = sync_rec_buffer d lst rm s
         in if sync = 0 then Some (False, zero_ctx, rm, s)
            else
              (case rd_repeat d lst is_last rm s of
                 Inl r \<Rightarrow> Some r
               | Inr (rm, s) \<Rightarrow>
                   (case rd_header d rm sync s of
                      (None, s) \<Rightarrow> Some (False, zero_ctx, rm, s)
                    | (Some header, s) \<Rightarrow> rd_body d lst rm sync header s)))
      else rd_body d lst rm 0 False s)"

end
