(* ===== verification/Rec_Tape.thy ===== *)
theory Rec_Tape
  imports Receive_Decode
begin

text \<open>
  The receive buffer as a tape. Whether a sample comes from the buffer or from the driver,
  the decoder sees one sequence of samples with a read position: reading a sample moves the
  position forward, putting it back moves it backward, and the sequence never changes.
  \<open>on_tape ys k b pp ps s\<close> says that the state \<open>s\<close> stands at position \<open>k\<close> of the samples \<open>ys\<close>
  with pending pulse \<open>pp\<close> and pending space \<open>ps\<close>, and that \<open>rsum\<close> has been reset at the sum \<open>b\<close>.
  The recognisers of \<open>Receive\<close> are characterised by what they do on the tape.
\<close>

section \<open>The tape\<close>

definition tape_sum :: "lirc_t list \<Rightarrow> nat \<Rightarrow> int" where
  "tape_sum ys k = sum_list (map (\<lambda>v. v AND PULSE_MASK) (take k ys))"

definition on_tape :: "lirc_t list \<Rightarrow> nat \<Rightarrow> int \<Rightarrow> lirc_t \<Rightarrow> lirc_t \<Rightarrow> rstate \<Rightarrow> bool" where
  "on_tape ys k b pp ps s \<longleftrightarrow>
     rptr s = int k \<and> int k \<le> wptr s \<and> wptr s \<le> 512 \<and> length (rdata s) = 512 \<and> length ys \<le> 512
     \<and> take (nat (wptr s)) (rdata s) @ input s = ys \<and> last_signal_time s = zero_timeval
     \<and> rsum s = i32 (tape_sum ys k - b) \<and> pendingp s = pp \<and> pendings s = ps"

definition is_sample :: "lirc_t \<Rightarrow> bool" where
  "is_sample v \<longleftrightarrow> v \<noteq> 0 \<and> v AND LIRC_EOF = 0 \<and> \<not> is_timeout v"

text \<open>What a driver reports for a pulse and for a space.\<close>

definition pulse_sample :: "lirc_t \<Rightarrow> lirc_t" where
  "pulse_sample p = p OR PULSE_BIT"

definition duration :: "lirc_t \<Rightarrow> bool" where
  "duration v \<longleftrightarrow> 0 < v \<and> v < 0x01000000"

lemma i32_eq_iff: "i32 a = i32 b \<longleftrightarrow> take_bit 32 a = take_bit 32 b"
  by (simp add: i32_def signed_take_bit_eq_iff_take_bit_eq)

lemma take_bit_i32: "take_bit 32 (i32 a) = take_bit 32 a"
  by (simp add: i32_def take_bit_signed_take_bit)

lemma i32_add [simp]: "i32 (i32 a + c) = i32 (a + c)"
  by (metis i32_eq_iff take_bit_i32 take_bit_add)

lemma i32_diff [simp]: "i32 (i32 a - c) = i32 (a - c)"
  by (metis i32_eq_iff take_bit_i32 take_bit_diff)

lemma receive_timeout_pos: "0 < receive_timeout m"
  by (simp add: receive_timeout_def)

lemma receive_timeout_u64: "0 < u64 (receive_timeout m)"
proof -
  have "receive_timeout m < 2147483648" using i32_range [of "2 * m"]
    by (simp add: receive_timeout_def)
  then show ?thesis using receive_timeout_pos [of m] by (simp add: u64_id)
qed

lemma tape_sum_Suc: "k < length ys \<Longrightarrow> tape_sum ys (Suc k) = tape_sum ys k + (ys ! k AND PULSE_MASK)"
  by (simp add: tape_sum_def take_Suc_conv_app_nth)

text \<open>Reading at the position.\<close>

lemma next_stored:
  assumes "\<not> rptr s < wptr s" "wptr s < RBUF_SIZE" "last_signal_time s = zero_timeval"
    "input s = v # xs" "is_sample v"
  shows "get_next_rec_buffer m s =
    (let s' = store_sample v (s\<lparr>input := xs, at_eof := False\<rparr>) in (rb_at s' (rptr s' - 1), s'))"
proof -
  have rd: "readdata t s = (v, s\<lparr>input := xs, at_eof := False\<rparr>)" for t
    using assms(4,5) by (simp add: readdata_def is_sample_def)
  have el: "signal_elapsed s = (0, s)"
    using assms(3) by (simp add: signal_elapsed_def zero_timeval_def)
  show ?thesis
    unfolding get_next_rec_buffer_def get_next_rec_buffer_internal.simps [of "receive_timeout m"]
    using assms(1,2,5) by (simp only: el rd Let_def prod.case if_False if_True is_sample_def
      receive_timeout_u64 not_False_eq_True simp_thms)
qed

lemma tape_next:
  assumes "on_tape ys k b pp ps s" "k < length ys" "is_sample (ys ! k)"
  shows "\<exists>s'. get_next_rec_buffer m s = (ys ! k, s') \<and> on_tape ys (Suc k) b pp ps s'"
proof (cases "rptr s < wptr s")
  case True
  have k: "k < nat (wptr s)" using True assms(1) by (auto simp: on_tape_def)
  have "ys ! k = rdata s ! k"
    using assms(1) k by (auto simp: on_tape_def nth_append)
  then have at: "rb_at s (rptr s) = ys ! k"
    using assms(1) True by (auto simp: on_tape_def rb_at_def)
  have st: "get_next_rec_buffer m s = (ys ! k, (rb_touch (rptr s) s)
      \<lparr>rsum := i32 (rsum s + (ys ! k AND PULSE_MASK)), rptr := rptr s + 1\<rparr>)"
    using True at by (simp add: get_next_rec_buffer_def next_buffered)
  have "on_tape ys (Suc k) b pp ps ((rb_touch (rptr s) s)
      \<lparr>rsum := i32 (rsum s + (ys ! k AND PULSE_MASK)), rptr := rptr s + 1\<rparr>)"
    using assms(1,2) True by (simp add: on_tape_def rb_touch_def tape_sum_Suc algebra_simps)
  with st show ?thesis by blast
next
  case False
  let ?v = "ys ! k" and ?n = "nat (wptr s)"
  have w: "wptr s = int k" "rptr s = int k" using False assms(1) by (auto simp: on_tape_def)
  then have "length (take ?n (rdata s)) = k" using assms(1) by (auto simp: on_tape_def)
  then obtain xs where inp: "input s = ?v # xs" and ys: "take k (rdata s) @ ?v # xs = ys"
    using assms(1,2) w by (cases "input s") (auto simp: on_tape_def nth_append)
  have k512: "k < 512" using assms(1,2) by (auto simp: on_tape_def)
  have len: "length (rdata s) = 512" "rsum s = i32 (tape_sum ys k - b)" "length ys \<le> 512"
    "last_signal_time s = zero_timeval" "pendingp s = pp" "pendings s = ps"
    using assms(1) by (simp_all add: on_tape_def)
  let ?s' = "store_sample ?v (s\<lparr>input := xs, at_eof := False\<rparr>)"
  have fields: "rdata ?s' = (rdata s)[k := ?v]" "rsum ?s' = i32 (tape_sum ys (Suc k) - b)"
    "wptr ?s' = int k + 1" "rptr ?s' = int k + 1" "input ?s' = xs" "pendingp ?s' = pp"
    "pendings ?s' = ps" "last_signal_time ?s' = zero_timeval"
    using w k512 len assms(2)
    by (simp_all add: store_sample_def Let_def log_input_def rb_put_def rb_touch_def rb_at_def
        tape_sum_Suc algebra_simps)
  have "get_next_rec_buffer m s = (rb_at ?s' (rptr ?s' - 1), ?s')"
    using next_stored [OF False _ _ inp assms(3)] k512 w len by (simp add: Let_def)
  moreover have "rb_at ?s' (rptr ?s' - 1) = ?v"
    using k512 len w by (simp add: rb_at_def fields)
  moreover have "take (Suc k) ((rdata s)[k := ?v]) @ xs = ys"
    using k512 len ys by (simp add: take_Suc_conv_app_nth)
  then have "on_tape ys (Suc k) b pp ps ?s'"
    using k512 len w by (simp add: on_tape_def fields nat_add_distrib)
  ultimately show ?thesis by metis
qed

lemma unget_frame [simp]:
  "wptr (unget_rec_buffer c s) = wptr s" "rdata (unget_rec_buffer c s) = rdata s"
  "input (unget_rec_buffer c s) = input s" "pendingp (unget_rec_buffer c s) = pendingp s"
  "pendings (unget_rec_buffer c s) = pendings s"
  "last_signal_time (unget_rec_buffer c s) = last_signal_time s"
  by (simp_all add: unget_rec_buffer_def Let_def rb_touch_def)

lemma tape_unget:
  assumes "on_tape ys (Suc k) b pp ps s" "k < length ys"
  shows "on_tape ys k b pp ps (unget_rec_buffer 1 s)"
proof -
  have k: "k < nat (wptr s)" "k < 512" using assms by (auto simp: on_tape_def)
  then have at: "ys ! k = rdata s ! k" using assms(1) by (auto simp: on_tape_def nth_append)
  have "i32 (rsum s - (ys ! k AND PULSE_MASK)) = i32 (tape_sum ys k - b)"
    using assms by (simp add: on_tape_def tape_sum_Suc)
  with at have sm: "i32 (rsum s - (rdata s ! k AND PULSE_MASK)) = i32 (tape_sum ys k - b)" by simp
  have n: "rptr s = int k + 1" using assms by (simp add: on_tape_def)
  have "rptr (unget_rec_buffer 1 s) = int k" "rsum (unget_rec_buffer 1 s) = i32 (tape_sum ys k - b)"
    using k n sm by (simp_all add: unget_rec_buffer_def Let_def rb_touch_def rb_at_def)
  then show ?thesis using assms by (simp add: on_tape_def)
qed

lemma tape_unget_2:
  assumes "on_tape ys (Suc (Suc k)) b pp ps s" "Suc k < length ys"
  shows "on_tape ys k b pp ps (unget_rec_buffer 2 s)"
proof -
  have k: "Suc k < nat (wptr s)" "Suc k < 512" using assms by (auto simp: on_tape_def)
  then have at: "ys ! k = rdata s ! k" "ys ! Suc k = rdata s ! Suc k"
    using assms(1) by (auto simp: on_tape_def nth_append)
  have "i32 (rsum s - (ys ! k AND PULSE_MASK) - (ys ! Suc k AND PULSE_MASK)) = i32 (tape_sum ys k - b)"
    using assms by (simp add: on_tape_def tape_sum_Suc diff_diff_eq)
  with at have sm: "i32 (i32 (rsum s - (rdata s ! k AND PULSE_MASK)) - (rdata s ! Suc k AND PULSE_MASK))
      = i32 (tape_sum ys k - b)" by simp
  have n: "rptr s = int k + 2" using assms by (auto simp: on_tape_def)
  have "rptr (unget_rec_buffer 2 s) = int k"
    "rsum (unget_rec_buffer 2 s) = i32 (tape_sum ys k - b)"
    using k n sm
    by (simp_all add: unget_rec_buffer_def Let_def rb_touch_def rb_at_def nat_add_distrib)
  then show ?thesis using assms by (simp add: on_tape_def)
qed

lemma tape_set_pulse: "on_tape ys k b pp ps s \<Longrightarrow> on_tape ys k b v ps (set_pending_pulse v s)"
  by (simp add: on_tape_def set_pending_pulse_def)

lemma tape_set_space: "on_tape ys k b pp ps s \<Longrightarrow> on_tape ys k b pp v (set_pending_space v s)"
  by (simp add: on_tape_def set_pending_space_def)

lemma tape_pending: "on_tape ys k b pp ps s \<Longrightarrow> pendingp s = pp \<and> pendings s = ps"
  by (simp add: on_tape_def)

section \<open>Pulses and spaces on the tape\<close>

lemma duration_pulse:
  assumes "duration p"
  shows "is_sample (pulse_sample p)" "is_pulse (pulse_sample p)" "pulse_sample p AND PULSE_MASK = p"
proof -
  have low: "p AND 0x00FFFFFF = p"
    using assms take_bit_int_eq_self [of p 24]
    by (simp add: duration_def take_bit_eq_mask mask_eq_exp_minus_1)
  have ev: "pulse_sample p AND 0xFF000000 = PULSE_BIT"
    by (subst low [symmetric]) (simp add: pulse_sample_def bit.conj_disj_distrib2 and.assoc)
  then show "is_pulse (pulse_sample p)" by (simp add: is_pulse_def)
  then have "pulse_sample p AND LIRC_EOF = 0" by (rule not_eof)
  moreover have "pulse_sample p \<noteq> 0" using ev by auto
  ultimately show "is_sample (pulse_sample p)" using ev by (simp add: is_sample_def is_timeout_def)
  show "pulse_sample p AND PULSE_MASK = p"
    using low by (simp add: pulse_sample_def bit.conj_disj_distrib2)
qed

lemma duration_space:
  assumes "duration v"
  shows "is_sample v" "is_space v" "v AND PULSE_MASK = v"
proof -
  show low: "v AND PULSE_MASK = v"
    using assms take_bit_int_eq_self [of v 24]
    by (simp add: duration_def take_bit_eq_mask mask_eq_exp_minus_1)
  have ev: "v AND 0xFF000000 = 0"
    by (subst low [symmetric]) (simp add: and.assoc)
  then show "is_space v" by (simp add: is_space_def)
  then have "v AND LIRC_EOF = 0" by (rule not_eof)
  then show "is_sample v" using ev assms by (simp add: is_sample_def is_timeout_def duration_def)
qed

lemma pulse_not_space: "duration p \<Longrightarrow> \<not> is_space (pulse_sample p)"
  using duration_pulse(2) [of p] by (auto simp: is_pulse_def is_space_def)

lemma space_not_pulse: "duration v \<Longrightarrow> \<not> is_pulse v"
  using duration_space(2) [of v] by (auto simp: is_pulse_def is_space_def)

lemma duration_pos: "duration v \<Longrightarrow> 0 < v"
  by (simp add: duration_def)

text \<open>The sample at a position of the tape.\<close>

definition pulse_at :: "lirc_t list \<Rightarrow> nat \<Rightarrow> lirc_t \<Rightarrow> bool" where
  "pulse_at ys k p \<longleftrightarrow> k < length ys \<and> duration p \<and> ys ! k = pulse_sample p"

definition space_at :: "lirc_t list \<Rightarrow> nat \<Rightarrow> lirc_t \<Rightarrow> bool" where
  "space_at ys k v \<longleftrightarrow> k < length ys \<and> duration v \<and> ys ! k = v"

lemma tape_pulse:
  assumes "on_tape ys k b pp ps s" "pulse_at ys k p"
  shows "\<exists>s'. get_next_pulse m s = (p, s') \<and> on_tape ys (Suc k) b pp ps s'"
proof -
  obtain s' where "get_next_rec_buffer m s = (pulse_sample p, s')" "on_tape ys (Suc k) b pp ps s'"
    using tape_next [OF assms(1), of m] assms(2) by (auto simp: pulse_at_def duration_pulse)
  then show ?thesis using assms(2)
    by (auto simp: get_next_pulse_def pulse_at_def duration_pulse is_sample_def
        dest: duration_pulse(1))
qed

lemma tape_space:
  assumes "on_tape ys k b pp ps s" "space_at ys k v"
  shows "\<exists>s'. get_next_space m s = (v, s') \<and> on_tape ys (Suc k) b pp ps s'"
proof -
  obtain s' where "get_next_rec_buffer m s = (v, s')" "on_tape ys (Suc k) b pp ps s'"
    using tape_next [OF assms(1), of m] assms(2) by (auto simp: space_at_def duration_space)
  then show ?thesis using assms(2)
    by (auto simp: get_next_space_def space_at_def duration_space dest: duration_pos)
qed

text \<open>A pending space is read with the sample it stands for; after that nothing is pending.
  \<open>settled\<close>: the position after that sample.\<close>

definition settled :: "driver \<Rightarrow> ir_remote \<Rightarrow> lirc_t list \<Rightarrow> nat \<Rightarrow> lirc_t \<Rightarrow> nat \<Rightarrow> bool" where
  "settled d rm ys k ps k' \<longleftrightarrow>
     (ps = 0 \<and> k' = k) \<or> (ps > 0 \<and> k' = Suc k \<and> (\<exists>v. space_at ys k v \<and> expect d rm v ps))"

lemma tape_sync_space:
  assumes "on_tape ys k b pp ps s" "settled d rm ys k ps k'"
  shows "\<exists>s'. sync_pending_space d rm s = (True, s') \<and> on_tape ys k' b pp 0 s'"
proof (cases "ps = 0")
  case True
  with assms show ?thesis
    by (auto simp: sync_pending_space_def settled_def dest: tape_pending)
next
  case False
  then obtain v where v: "ps > 0" "k' = Suc k" "space_at ys k v" "expect d rm v ps"
    using assms(2) by (auto simp: settled_def)
  obtain s' where "get_next_space ps s = (v, s')" "on_tape ys k' b pp ps s'"
    using tape_space [OF assms(1) v(3)] v(2) by blast
  moreover have "v \<noteq> 0" using v(3) by (auto simp: space_at_def dest: duration_pos)
  moreover have "pendings s = ps" "pendings s' = ps"
    using assms(1) \<open>on_tape ys k' b pp ps s'\<close> by (auto dest: tape_pending)
  ultimately show ?thesis
    using v by (auto simp: sync_pending_space_def intro: tape_set_space)
qed

lemma tape_expectpulse:
  assumes "on_tape ys k b 0 ps s" "settled d rm ys k ps k'" "pulse_at ys k' p"
  shows "\<exists>s'. expectpulse d rm e s = (expect d rm p e, s') \<and> on_tape ys (Suc k') b 0 0 s'"
proof -
  obtain s1 where 1: "sync_pending_space d rm s = (True, s1)" "on_tape ys k' b 0 0 s1"
    using tape_sync_space [OF assms(1,2)] by blast
  obtain s2 where 2: "get_next_pulse (i32 (pendingp s1 + e)) s1 = (p, s2)" "on_tape ys (Suc k') b 0 0 s2"
    using tape_pulse [OF 1(2) assms(3)] by blast
  have "pendingp s2 = 0" "p \<noteq> 0"
    using 2 assms(3) by (auto simp: pulse_at_def dest: tape_pending duration_pos)
  then show ?thesis using 1 2 by (simp add: expectpulse_def)
qed

lemma tape_expectspace:
  assumes "on_tape ys k b 0 0 s" "space_at ys k v"
  shows "\<exists>s'. expectspace d rm e s = (expect d rm v e, s') \<and> on_tape ys (Suc k) b 0 0 s'"
proof -
  have 1: "sync_pending_pulse d rm s = (True, s)"
    using assms(1) by (auto simp: sync_pending_pulse_def dest: tape_pending)
  obtain s2 where 2: "get_next_space (i32 (pendings s + e)) s = (v, s2)" "on_tape ys (Suc k) b 0 0 s2"
    using tape_space [OF assms] by blast
  have "pendings s2 = 0" "v \<noteq> 0"
    using 2 assms(2) by (auto simp: space_at_def dest: tape_pending duration_pos)
  then show ?thesis using 1 2 by (simp add: expectspace_def)
qed

end
