(* ===== verification/Space_Decode.thy ===== *)
theory Space_Decode
  imports Rec_Tape
begin

text \<open>
  Decoding a space-encoded signal. \<open>signal_of rm cd\<close> is the list of durations, pulses and
  spaces in turn, that make up the code \<open>cd\<close> of the remote \<open>rm\<close>: header, pre data, code, post
  data, trail and foot. \<open>heard\<close> says that the samples on the tape agree with such a list within
  the remote's tolerance. The lemmas follow the recognisers over the parts of the signal; the
  result is that \<open>receive_decode\<close> recovers the code from everything that is heard as its signal.
\<close>

section \<open>The signal of a code\<close>

definition bits_msb :: "ir_code \<Rightarrow> int \<Rightarrow> bool list" where
  "bits_msb x n = rev (map (bit x) [0..<nat n])"

definition bit_pair :: "ir_remote \<Rightarrow> bool \<Rightarrow> lirc_t list" where
  "bit_pair rm v = (if v then [pone rm, sone rm] else [pzero rm, szero rm])"

definition data_signal :: "ir_remote \<Rightarrow> ir_code \<Rightarrow> int \<Rightarrow> lirc_t list" where
  "data_signal rm x n = concat (map (bit_pair rm) (bits_msb x n))"

definition header_signal :: "ir_remote \<Rightarrow> lirc_t list" where
  "header_signal rm = (if has_header rm then [phead rm, shead rm] else [])"

definition pre_signal :: "ir_remote \<Rightarrow> lirc_t list" where
  "pre_signal rm = (if has_pre rm then data_signal rm (pre_data rm) (pre_data_bits rm)
     @ (if pre_p rm > 0 \<and> pre_s rm > 0 then [pre_p rm, pre_s rm] else []) else [])"

definition post_signal :: "ir_remote \<Rightarrow> lirc_t list" where
  "post_signal rm = (if has_post rm then
     (if post_p rm > 0 \<and> post_s rm > 0 then [post_p rm, post_s rm] else [])
     @ data_signal rm (post_data rm) (post_data_bits rm) else [])"

definition tail_signal :: "ir_remote \<Rightarrow> lirc_t list" where
  "tail_signal rm = ptrail rm # (if has_foot rm then [sfoot rm, pfoot rm] else [])"

definition signal_of :: "ir_remote \<Rightarrow> ir_code \<Rightarrow> lirc_t list" where
  "signal_of rm cd = header_signal rm @ pre_signal rm @ data_signal rm cd (bits rm)
     @ post_signal rm @ tail_signal rm"

text \<open>The largest deviation \<open>expect\<close> accepts.\<close>

definition tolerance :: "driver \<Rightarrow> ir_remote \<Rightarrow> lirc_t \<Rightarrow> int" where
  "tolerance d rm e = max (i32 (e * eps rm) sdiv 100) (cur_aeps d rm)"

lemma expect_tolerance: "expect d rm x e \<longleftrightarrow> \<bar>i32 (e - x)\<bar> \<le> tolerance d rm e"
  by (auto simp: expect_def tolerance_def)

text \<open>The remotes whose signals are studied here: space encoding with a trailing pulse, no
  lead pulse, no toggling, and timings that fit the 24 bits of a sample. The two bits must
  differ by more than the tolerances in the pulse or in the space.\<close>

definition separated :: "driver \<Rightarrow> ir_remote \<Rightarrow> bool" where
  "separated d rm \<longleftrightarrow>
     \<bar>pone rm - pzero rm\<bar> > tolerance d rm (pone rm) + tolerance d rm (pzero rm)
     \<or> \<bar>sone rm - szero rm\<bar> > tolerance d rm (sone rm) + tolerance d rm (szero rm)"

definition space_remote :: "ir_remote \<Rightarrow> bool" where
  "space_remote rm \<longleftrightarrow>
     is_space_enc rm \<and> rc6_mask rm = 0 \<and> plead rm = 0
     \<and> list_all duration [pone rm, sone rm, pzero rm, szero rm, ptrail rm]
     \<and> 0 \<le> eps rm \<and> eps rm \<le> 100
     \<and> 0 \<le> pre_data_bits rm \<and> pre_data_bits rm < 64
     \<and> 0 < bits rm \<and> bits rm < 64 \<and> 0 \<le> post_data_bits rm \<and> post_data_bits rm < 64
     \<and> pre_data_bits rm + bits rm + post_data_bits rm \<le> 64
     \<and> flags rm AND NO_HEAD_REP = 0"

lemma space_remote_protocol:
  assumes "space_remote rm"
  shows "\<not> is_raw rm" "\<not> is_biphase rm" "\<not> is_space_first rm" "\<not> is_rcmm rm" "\<not> is_grundig rm"
    "\<not> is_bo rm" "\<not> is_serial rm" "\<not> is_xmp rm"
  using assms by (simp_all add: space_remote_def c_defs)

lemma space_remote_timing:
  assumes "space_remote rm"
  shows "duration (pone rm)" "duration (sone rm)" "duration (pzero rm)" "duration (szero rm)"
    "duration (ptrail rm)" "plead rm = 0"
  using assms by (simp_all add: space_remote_def)

section \<open>What is heard\<close>

definition heard :: "driver \<Rightarrow> ir_remote \<Rightarrow> lirc_t list \<Rightarrow> nat \<Rightarrow> lirc_t list \<Rightarrow> bool" where
  "heard d rm ys k es \<longleftrightarrow> (\<forall>i < length es.
     if even i then \<exists>p. pulse_at ys (k + i) p \<and> expect d rm p (es ! i)
     else \<exists>v. space_at ys (k + i) v \<and> expect d rm v (es ! i))"

lemma heard_Nil [simp]: "heard d rm ys k []"
  by (simp add: heard_def)

lemma all_less_add:
  fixes m n :: nat
  shows "(\<forall>i < m + n. Q i) \<longleftrightarrow> (\<forall>i < m. Q i) \<and> (\<forall>i < n. Q (m + i))"
proof -
  have "Q i" if "\<forall>i < n. Q (m + i)" "i < m + n" "\<not> i < m" for i
    using that(1) [rule_format, of "i - m"] that(2,3) by simp
  then show ?thesis by auto
qed

lemma heard_append:
  assumes "even (length xs)"
  shows "heard d rm ys k (xs @ zs) \<longleftrightarrow> heard d rm ys k xs \<and> heard d rm ys (k + length xs) zs"
  unfolding heard_def length_append all_less_add using assms by (simp add: nth_append add.assoc)

lemma heard_pair:
  "heard d rm ys k [e, f] \<longleftrightarrow> (\<exists>p. pulse_at ys k p \<and> expect d rm p e)
     \<and> (\<exists>v. space_at ys (Suc k) v \<and> expect d rm v f)"
  by (auto simp: heard_def less_Suc_eq)

lemma heard_pair_append:
  "heard d rm ys k (e # f # zs) \<longleftrightarrow> heard d rm ys k [e, f] \<and> heard d rm ys (k + 2) zs"
  using heard_append [of "[e, f]" d rm ys k zs] by (simp add: numeral_2_eq_2)

lemma heard_hd: "heard d rm ys k (e # es) \<Longrightarrow> \<exists>p. pulse_at ys k p \<and> expect d rm p e"
  by (auto simp: heard_def dest: spec [of _ 0])

lemma length_bit_pair [simp]: "length (bit_pair rm v) = 2"
  by (simp add: bit_pair_def)

lemma length_pairs [simp]: "length (concat (map (bit_pair rm) bs)) = 2 * length bs"
  by (induction bs) simp_all

lemma length_data_signal [simp]: "length (data_signal rm x n) = 2 * nat n"
  by (simp add: data_signal_def bits_msb_def)

text \<open>What is heard as a zero is not heard as a one.\<close>

lemma expect_near:
  assumes "expect d rm x e" "duration x" "duration e"
  shows "\<bar>e - x\<bar> \<le> tolerance d rm e"
proof -
  have "i32 (e - x) = e - x" using assms(2,3) by (simp add: i32_id duration_def)
  with assms(1) show ?thesis by (simp add: expect_tolerance)
qed

lemma separated_bits:
  assumes "separated d rm" "space_remote rm" "duration p" "duration v"
    "expect d rm p (pzero rm)" "expect d rm v (szero rm)"
  shows "\<not> (expect d rm p (pone rm) \<and> expect d rm v (sone rm))"
proof
  assume "expect d rm p (pone rm) \<and> expect d rm v (sone rm)"
  with assms have "\<bar>pone rm - p\<bar> \<le> tolerance d rm (pone rm)" "\<bar>sone rm - v\<bar> \<le> tolerance d rm (sone rm)"
    "\<bar>pzero rm - p\<bar> \<le> tolerance d rm (pzero rm)" "\<bar>szero rm - v\<bar> \<le> tolerance d rm (szero rm)"
    by (auto intro: expect_near simp: space_remote_timing)
  then show False using assms(1) unfolding separated_def by linarith
qed

section \<open>The recognisers on the tape\<close>

text \<open>\<open>ready\<close>: everything up to position \<open>n\<close> is read or pending.\<close>

definition ready :: "driver \<Rightarrow> ir_remote \<Rightarrow> lirc_t list \<Rightarrow> int \<Rightarrow> nat \<Rightarrow> rstate \<Rightarrow> bool" where
  "ready d rm ys b n s \<longleftrightarrow> (\<exists>k ps. on_tape ys k b 0 ps s \<and> settled d rm ys k ps n)"

lemma readyI: "on_tape ys n b 0 0 s \<Longrightarrow> ready d rm ys b n s"
  by (auto simp: ready_def settled_def)

lemma ready_pulse:
  assumes "ready d rm ys b n s" "pulse_at ys n p"
  shows "\<exists>s'. expectpulse d rm e s = (expect d rm p e, s') \<and> on_tape ys (Suc n) b 0 0 s'"
  using assms tape_expectpulse by (fastforce simp: ready_def)

text \<open>A pulse and a pending space.\<close>

lemma ready_pair:
  assumes "ready d rm ys b n s" "heard d rm ys n [e, f]" "0 < f"
  shows "\<exists>s'. expectpulse d rm e s = (True, s') \<and> ready d rm ys b (n + 2) (set_pending_space f s')"
proof -
  obtain p v where p: "pulse_at ys n p" "expect d rm p e" and v: "space_at ys (Suc n) v" "expect d rm v f"
    using assms(2) by (auto simp: heard_pair)
  obtain s' where "expectpulse d rm e s = (True, s')" "on_tape ys (Suc n) b 0 0 s'"
    using ready_pulse [OF assms(1) p(1), of e] p(2) by auto
  moreover have "settled d rm ys (Suc n) f (n + 2)" using v assms(3) by (auto simp: settled_def)
  ultimately show ?thesis by (auto simp: ready_def intro: tape_set_space)
qed

lemma tape_bit:
  assumes r: "space_remote rm" "separated d rm" and s: "ready d rm ys b n s"
    and h: "heard d rm ys n (bit_pair rm v)"
  shows "\<exists>s1. expectone d rm j s = (v, s1)
    \<and> (if v then on_tape ys (n + 2) b 0 0 s1
       else \<exists>s2. expectzero d rm j s1 = (True, s2) \<and> on_tape ys (n + 2) b 0 0 s2)"
proof -
  note prot = space_remote_protocol [OF r(1)] and tim = space_remote_timing [OF r(1)]
  have pos: "pone rm > 0" "sone rm > 0" "pzero rm > 0" "szero rm > 0" "ptrail rm > 0"
    using tim by (auto dest: duration_pos)
  obtain p w where p: "pulse_at ys n p" and w: "space_at ys (Suc n) w"
    and m: "if v then expect d rm p (pone rm) \<and> expect d rm w (sone rm)
            else expect d rm p (pzero rm) \<and> expect d rm w (szero rm)"
    using h by (cases v) (auto simp: bit_pair_def heard_pair)
  have two: "n < length ys" "Suc n < length ys" using p w by (auto simp: pulse_at_def space_at_def)
  obtain t where t: "expectpulse d rm (pone rm) s = (expect d rm p (pone rm), t)" "on_tape ys (Suc n) b 0 0 t"
    using ready_pulse [OF s p] by blast
  obtain u where u: "expectspace d rm (sone rm) t = (expect d rm w (sone rm), u)"
      "on_tape ys (Suc (Suc n)) b 0 0 u"
    using tape_expectspace [OF t(2) w] by blast
  have one: "expectone d rm j s =
      (if \<not> expect d rm p (pone rm) then (False, unget_rec_buffer 1 t)
       else if \<not> expect d rm w (sone rm) then (False, unget_rec_buffer 2 u) else (True, u))"
    using prot pos t(1) u(1) by (simp add: expectone_def)
  show ?thesis
  proof (cases v)
    case True
    with one m u(2) show ?thesis by simp
  next
    case False
    have "duration p" "duration w" using p w by (auto simp: pulse_at_def space_at_def)
    with False m have no: "\<not> (expect d rm p (pone rm) \<and> expect d rm w (sone rm))"
      using separated_bits [OF r(2,1)] by auto
    obtain x where x: "expectone d rm j s = (False, x)" "on_tape ys n b 0 0 x"
      using one no tape_unget [OF t(2) two(1)] tape_unget_2 [OF u(2) two(2)]
      by (cases "expect d rm p (pone rm)") auto
    obtain y where y: "expectpulse d rm (pzero rm) x = (True, y)" "on_tape ys (Suc n) b 0 0 y"
      using ready_pulse [OF readyI [OF x(2)] p, of d rm "pzero rm"] m False by auto
    obtain z where z: "expectspace d rm (szero rm) y = (True, z)" "on_tape ys (Suc (Suc n)) b 0 0 z"
      using tape_expectspace [OF y(2) w, of d rm "szero rm"] m False by auto
    have "expectzero d rm j x = (True, z)"
      using prot pos y(1) z(1) by (simp add: expectzero_def)
    with x(1) z(2) False show ?thesis by auto
  qed
qed

section \<open>Data\<close>

definition shift_in :: "bool list \<Rightarrow> ir_code \<Rightarrow> ir_code" where
  "shift_in bs c = fold (\<lambda>v c. shl c 1 OR (if v then 1 else 0)) bs c"

lemma shift_in_bits: "shift_in (bits_msb x (int n)) c = shl c (int n) OR (x AND mask n)"
proof (induction n arbitrary: c)
  case 0
  then show ?case by (simp add: shift_in_def bits_msb_def shl_def)
next
  case (Suc n)
  have "bits_msb x (int (Suc n)) = bit x n # bits_msb x (int n)"
    by (simp add: bits_msb_def nat_int flip: of_nat_Suc)
  then have "shift_in (bits_msb x (int (Suc n))) c =
      shl (shl c 1 OR (if bit x n then 1 else 0)) (int n) OR (x AND mask n)"
    using Suc.IH by (simp add: shift_in_def)
  also have "\<dots> = shl c (int (Suc n)) OR (x AND mask (Suc n))"
    by (rule bit_word_eqI)
      (auto simp: bit_or_iff bit_and_iff bit_shl bit_mask_iff bit_1_iff less_Suc_eq nat_add_distrib)
  finally show ?case .
qed

lemma shift_in_0: "0 \<le> n \<Longrightarrow> shift_in (bits_msb x n) 0 = x AND gen_mask n"
  using shift_in_bits [of x "nat n" 0] by (simp add: gen_mask_eq_mask shl_def)

lemma tape_data:
  assumes r: "space_remote rm" "separated d rm"
  shows "ready d rm ys b n s \<Longrightarrow> heard d rm ys n (concat (map (bit_pair rm) bs)) \<Longrightarrow>
    \<exists>s'. get_data_bits d rm (i + int (length bs)) dn i cd s = (shift_in bs cd, s')
      \<and> ready d rm ys b (n + 2 * length bs) s'"
proof (induction bs arbitrary: n i cd s)
  case Nil
  then show ?case by (simp add: get_data_bits.simps shift_in_def)
next
  case (Cons v bs)
  have h: "heard d rm ys n (bit_pair rm v)" "heard d rm ys (n + 2) (concat (map (bit_pair rm) bs))"
    using Cons.prems(2) by (simp_all add: heard_append)
  obtain s1 where s1: "expectone d rm (dn + i) s = (v, s1)"
      "if v then on_tape ys (n + 2) b 0 0 s1
       else \<exists>s2. expectzero d rm (dn + i) s1 = (True, s2) \<and> on_tape ys (n + 2) b 0 0 s2"
    using tape_bit [OF r Cons.prems(1) h(1)] by blast
  then obtain s2 where s2: "on_tape ys (n + 2) b 0 0 s2"
      "if v then s2 = s1 else expectzero d rm (dn + i) s1 = (True, s2)"
    by (auto split: if_splits)
  have "get_data_bits d rm (i + int (length (v # bs))) dn i cd s
      = get_data_bits d rm (i + 1 + int (length bs)) dn (i + 1) (shl cd 1 OR (if v then 1 else 0)) s2"
    using s1(1) s2(2)
    by (subst get_data_bits.simps) (auto simp: Let_def algebra_simps split: if_splits)
  then show ?case
    using Cons.IH [OF readyI [OF s2(1)] h(2), of "i + 1" "shl cd 1 OR (if v then 1 else 0)"]
    by (simp add: shift_in_def)
qed

lemma tape_get_data:
  assumes r: "space_remote rm" "separated d rm" "ready d rm ys b n s"
    and h: "heard d rm ys n (data_signal rm x w)" and w: "0 \<le> w"
  shows "\<exists>s'. get_data d rm w dn s = Some (x AND gen_mask w, s') \<and> ready d rm ys b (n + 2 * nat w) s'"
proof -
  have len: "int (length (bits_msb x w)) = w" "length (bits_msb x w) = nat w"
    using w by (simp_all add: bits_msb_def)
  show ?thesis
    using tape_data [OF r(1,2,3) h [unfolded data_signal_def], of 0 dn 0] len w
      space_remote_protocol [OF r(1)]
    by (auto simp: get_data_def shift_in_0)
qed

lemma masked_not_failed: "n < 64 \<Longrightarrow> x AND gen_mask n \<noteq> FAILED"
proof -
  assume "n < 64"
  then have "\<not> bit (x AND gen_mask n) 63" by (auto simp: bit_and_iff)
  moreover have "bit (FAILED) 63" by simp
  ultimately show ?thesis by metis
qed

lemma tape_get_pre:
  assumes r: "space_remote rm" "separated d rm" "ready d rm ys b n s"
    and h: "heard d rm ys n (pre_signal rm)" and pre: "has_pre rm"
    and m: "pre_data rm AND gen_mask (pre_data_bits rm) = pre_data rm"
  shows "\<exists>s'. get_pre d rm s = Some (pre_data rm, s')
    \<and> ready d rm ys b (n + length (pre_signal rm)) s'"
proof -
  let ?n = "pre_data_bits rm"
  have n: "0 \<le> ?n" "?n < 64" using r(1) by (auto simp: space_remote_def)
  have f: "pre_data rm \<noteq> FAILED" using masked_not_failed [OF n(2), of "pre_data rm"] m by simp
  have h1: "heard d rm ys n (data_signal rm (pre_data rm) ?n)"
    and h2: "pre_p rm > 0 \<and> pre_s rm > 0 \<Longrightarrow> heard d rm ys (n + 2 * nat ?n) [pre_p rm, pre_s rm]"
    using h pre by (simp_all add: pre_signal_def heard_append split: if_splits)
  obtain s1 where s1: "get_data d rm ?n 0 s = Some (pre_data rm, s1)" "ready d rm ys b (n + 2 * nat ?n) s1"
    using tape_get_data [OF r h1 n(1), of 0] m by auto
  show ?thesis
  proof (cases "pre_p rm > 0 \<and> pre_s rm > 0")
    case True
    then obtain s2 where "expectpulse d rm (pre_p rm) s1 = (True, s2)"
        "ready d rm ys b (n + 2 * nat ?n + 2) (set_pending_space (pre_s rm) s2)"
      using ready_pair [OF s1(2) h2] by blast
    then show ?thesis using s1(1) True f pre by (auto simp: get_pre_def pre_signal_def Let_def)
  next
    case False
    then show ?thesis using s1 f pre by (auto simp: get_pre_def pre_signal_def Let_def)
  qed
qed

lemma tape_get_post:
  assumes r: "space_remote rm" "separated d rm" "ready d rm ys b n s"
    and h: "heard d rm ys n (post_signal rm)" and post: "has_post rm"
    and m: "post_data rm AND gen_mask (post_data_bits rm) = post_data rm"
  shows "\<exists>s'. get_post d rm s = Some (post_data rm, s')
    \<and> ready d rm ys b (n + length (post_signal rm)) s'"
proof -
  let ?n = "post_data_bits rm" and ?dn = "pre_data_bits rm + bits rm"
  have n: "0 \<le> ?n" using r(1) by (auto simp: space_remote_def)
  show ?thesis
  proof (cases "post_p rm > 0 \<and> post_s rm > 0")
    case True
    have "heard d rm ys n (post_p rm # post_s rm # data_signal rm (post_data rm) ?n)"
      using h post True by (simp add: post_signal_def)
    then have h1: "heard d rm ys n [post_p rm, post_s rm]"
      and h2: "heard d rm ys (n + 2) (data_signal rm (post_data rm) ?n)"
      by (auto dest: iffD1 [OF heard_pair_append])
    obtain s1 where s1: "expectpulse d rm (post_p rm) s = (True, s1)"
        "ready d rm ys b (n + 2) (set_pending_space (post_s rm) s1)"
      using ready_pair [OF r(3) h1] True by blast
    then show ?thesis using tape_get_data [OF r(1,2) s1(2) h2 n, of ?dn] True post m
      by (auto simp: get_post_def post_signal_def)
  next
    case False
    with h post have "heard d rm ys n (data_signal rm (post_data rm) ?n)" by (simp add: post_signal_def)
    then show ?thesis using tape_get_data [OF r _ n, of "post_data rm" ?dn] False post m
      by (auto simp: get_post_def post_signal_def Let_def)
  qed
qed

section \<open>Header, trail, foot and gap\<close>

lemma tape_rd_header:
  assumes r: "space_remote rm" "ready d rm ys b n s" and h: "heard d rm ys n (header_signal rm)"
  shows "\<exists>s'. rd_header d rm g s = (Some (has_header rm), s')
    \<and> ready d rm ys b (n + length (header_signal rm)) s'"
proof (cases "has_header rm")
  case True
  then have pos: "shead rm > 0" and h2: "heard d rm ys n [phead rm, shead rm]"
    using h by (simp_all add: has_header_def header_signal_def)
  obtain s1 where "expectpulse d rm (phead rm) s = (True, s1)"
      "ready d rm ys b (n + 2) (set_pending_space (shead rm) s1)"
    using ready_pair [OF r(2) h2 pos] by blast
  then show ?thesis using True pos r(1) space_remote_protocol [OF r(1)]
    by (simp add: rd_header_def get_header_def header_signal_def space_remote_def)
next
  case False
  then show ?thesis using r(2) by (simp add: rd_header_def header_signal_def)
qed

lemma tape_rd_tail_parts:
  assumes r: "space_remote rm" "ready d rm ys b n s" and h: "heard d rm ys n (tail_signal rm)"
  shows "\<exists>s1 s2. get_trail d rm s = (True, s1)
    \<and> (if has_foot rm then get_foot d rm s1 else (True, s1)) = (True, s2)
    \<and> on_tape ys (n + length (tail_signal rm)) b 0 0 s2"
proof -
  have ne: "ptrail rm \<noteq> 0" using space_remote_timing(5) [OF r(1)] by (auto dest: duration_pos)
  obtain p where p: "pulse_at ys n p" "expect d rm p (ptrail rm)"
    using h by (auto simp: tail_signal_def dest: heard_hd)
  obtain s1 where s1: "expectpulse d rm (ptrail rm) s = (True, s1)" "on_tape ys (Suc n) b 0 0 s1"
    using ready_pulse [OF r(2) p(1), of "ptrail rm"] p(2) by auto
  then have tr: "get_trail d rm s = (True, s1)"
    using ne tape_pending [OF s1(2)] by (simp add: get_trail_def)
  show ?thesis
  proof (cases "has_foot rm")
    case False
    then show ?thesis using tr s1(2) by (simp add: tail_signal_def)
  next
    case True
    then have "heard d rm ys n [ptrail rm, sfoot rm, pfoot rm]" using h by (simp add: tail_signal_def)
    then obtain v q where v: "space_at ys (Suc n) v" "expect d rm v (sfoot rm)"
      and q: "pulse_at ys (Suc (Suc n)) q" "expect d rm q (pfoot rm)"
      unfolding heard_def
      by (metis (no_types, lifting) add_2_eq_Suc' add.commute even_Suc even_zero length_Cons
          less_add_same_cancel2 list.size(3) nth_Cons_0 nth_Cons_Suc numeral_2_eq_2 plus_1_eq_Suc
          zero_less_Suc Suc_less_eq)
    obtain s2 where s2: "expectspace d rm (sfoot rm) s1 = (True, s2)" "on_tape ys (Suc (Suc n)) b 0 0 s2"
      using tape_expectspace [OF s1(2) v(1), of d rm "sfoot rm"] v(2) by auto
    obtain s3 where s3: "expectpulse d rm (pfoot rm) s2 = (True, s3)"
        "on_tape ys (Suc (Suc (Suc n))) b 0 0 s3"
      using ready_pulse [OF readyI [OF s2(2)] q(1), of d rm "pfoot rm"] q(2) by auto
    show ?thesis using tr s2 s3 True
      by (simp add: get_foot_def tail_signal_def)
  qed
qed

lemma at_least_larger:
  assumes "0 \<le> eps rm" "eps rm \<le> 100" "0 \<le> g" "g < 0x01000000" "g \<le> v" "duration v"
  shows "expect_at_least d rm v g"
proof -
  have "g * eps rm \<le> 0x00FFFFFF * 100" using assms by (intro mult_mono) auto
  moreover have "0 \<le> g * eps rm" using assms by simp
  ultimately have e: "i32 (g * eps rm) = g * eps rm" by (simp add: i32_id)
  have "0 \<le> g * eps rm div 100" "g * eps rm div 100 \<le> 0x00FFFFFF"
    using \<open>0 \<le> g * eps rm\<close> \<open>g * eps rm \<le> 0x00FFFFFF * 100\<close> by simp_all
  then have "i32 (v + g * eps rm div 100) = v + g * eps rm div 100"
    using assms by (simp add: i32_id duration_def)
  then show ?thesis using e \<open>0 \<le> g * eps rm div 100\<close> assms(5) \<open>0 \<le> g * eps rm\<close>
    by (simp add: expect_at_least_def sdiv_nonneg)
qed

lemma tape_get_gap:
  assumes "on_tape ys n b 0 0 s" "space_at ys n v" "0 \<le> eps rm" "eps rm \<le> 100"
    "0 \<le> g" "g < 0x01000000" "g \<le> v"
  shows "\<exists>s'. get_gap d rm g s = (True, s') \<and> on_tape ys n b 0 0 s'"
proof -
  have v: "duration v" "ys ! n = v" "n < length ys" using assms(2) by (auto simp: space_at_def)
  obtain s1 where "get_next_rec_buffer (i32 (g - i32 (g * eps rm) sdiv 100)) s = (v, s1)"
      "on_tape ys (Suc n) b 0 0 s1"
    using tape_next [OF assms(1) v(3)] v duration_space(1) by blast
  then show ?thesis
    using tape_unget [of ys n b 0 0 s1] v duration_space(2) [OF v(1)] at_least_larger [OF assms(3-7) v(1)]
      duration_pos [OF v(1)]
    by (simp add: get_gap_def)
qed

text \<open>The gap the decoder waits for after a signal that is \<open>t\<close> microseconds long.\<close>

definition gap_left :: "ir_remote \<Rightarrow> int \<Rightarrow> lirc_t" where
  "gap_left rm t = (if is_const rm then max 0 (min_gap rm - t) else min_gap rm)"

lemma tape_rd_tail:
  assumes r: "space_remote rm" "ready d rm ys b n s" and h: "heard d rm ys n (tail_signal rm)"
    and m: "m = n + length (tail_signal rm)"
    and g: "space_at ys m v" "gap_left rm (tape_sum ys m - b) \<le> v"
      "0 \<le> min_gap rm" "min_gap rm < 0x01000000"
      "0 \<le> tape_sum ys m - b" "tape_sum ys m - b < 0x01000000"
  shows "\<exists>s'. rd_tail d rm hdr s = (True, s') \<and> on_tape ys m b 0 0 s'"
proof -
  obtain s1 s2 where s: "get_trail d rm s = (True, s1)"
      "(if has_foot rm then get_foot d rm s1 else (True, s1)) = (True, s2)" "on_tape ys m b 0 0 s2"
    using tape_rd_tail_parts [OF r h] m by blast
  have nh: "\<not> (hdr \<and> is_const rm \<and> flags rm AND NO_HEAD_REP \<noteq> 0)" "0 \<le> eps rm" "eps rm \<le> 100"
    using r(1) by (simp_all add: space_remote_def)
  have t: "rsum s2 = tape_sum ys m - b"
    using s(3) g(5,6) by (simp add: on_tape_def i32_id)
  have "gap_after (min_gap rm) s2 = max 0 (min_gap rm - (tape_sum ys m - b))"
    using t g(3-6) by (simp add: gap_after_def i32_id)
  then have "0 \<le> gap_left rm (tape_sum ys m - b)" "gap_left rm (tape_sum ys m - b) < 0x01000000"
    "(if is_const rm then gap_after (min_gap rm) s2 else min_gap rm) = gap_left rm (tape_sum ys m - b)"
    using g(3-6) by (auto simp: gap_left_def)
  then show ?thesis
    using tape_get_gap [OF s(3) g(1) nh(2,3) _ _ g(2), of d] s(1,2) nh(1) space_remote_protocol [OF r(1)]
    by (auto simp: rd_tail_def split: if_splits)
qed

section \<open>The whole signal\<close>

lemma tape_rd_signal:
  assumes r: "space_remote rm" "separated d rm" "ready d rm ys b n s"
    and h: "heard d rm ys n (pre_signal rm @ data_signal rm cd (bits rm) @ post_signal rm @ tail_signal rm)"
    and md: "pre_data rm AND gen_mask (pre_data_bits rm) = pre_data rm"
      "post_data rm AND gen_mask (post_data_bits rm) = post_data rm"
    and m: "m = n + length (pre_signal rm @ data_signal rm cd (bits rm) @ post_signal rm @ tail_signal rm)"
    and g: "space_at ys m v" "gap_left rm (tape_sum ys m - b) \<le> v"
      "0 \<le> min_gap rm" "min_gap rm < 0x01000000"
      "0 \<le> tape_sum ys m - b" "tape_sum ys m - b < 0x01000000"
  shows "\<exists>s'. rd_signal d rm hdr s = Some (Some (zero_ctx\<lparr>ctx_code := cd AND gen_mask (bits rm),
      ctx_pre := (if has_pre rm then pre_data rm else 0),
      ctx_post := (if has_post rm then post_data rm else 0)\<rparr>), s') \<and> on_tape ys m b 0 0 s'"
proof -
  let ?n1 = "n + length (pre_signal rm)"
  let ?n2 = "?n1 + length (data_signal rm cd (bits rm))"
  let ?n3 = "?n2 + length (post_signal rm)"
  have ev: "even (length (pre_signal rm))" "even (length (post_signal rm))"
    by (simp_all add: pre_signal_def post_signal_def)
  have hs: "heard d rm ys n (pre_signal rm)" "heard d rm ys ?n1 (data_signal rm cd (bits rm))"
    "heard d rm ys ?n2 (post_signal rm)" "heard d rm ys ?n3 (tail_signal rm)"
    using h ev by (simp_all add: heard_append)
  have b: "0 \<le> bits rm" "bits rm < 64" "pre_data_bits rm < 64" "post_data_bits rm < 64"
    using r(1) by (auto simp: space_remote_def)
  have nf: "cd AND gen_mask (bits rm) \<noteq> FAILED" "pre_data rm \<noteq> FAILED" "post_data rm \<noteq> FAILED"
    using masked_not_failed [of _ "pre_data rm"] masked_not_failed [of _ "post_data rm"] b md
      masked_not_failed [OF b(2)] by metis+
  have lead: "get_lead d rm s = (True, s)"
    using space_remote_timing(6) [OF r(1)] by (simp add: get_lead_def)
  obtain s1 where s1: "(if has_pre rm then get_pre d rm s else Some (0, s))
      = Some (if has_pre rm then pre_data rm else 0, s1)" "ready d rm ys b ?n1 s1"
    using tape_get_pre [OF r hs(1) _ md(1)] r(3)
    by (cases "has_pre rm") (auto simp: pre_signal_def)
  obtain s2 where s2: "get_data d rm (bits rm) (pre_data_bits rm) s1
      = Some (cd AND gen_mask (bits rm), s2)" "ready d rm ys b ?n2 s2"
    using tape_get_data [OF r(1,2) s1(2) hs(2) b(1), of "pre_data_bits rm"] b(1) by auto
  obtain s3 where s3: "(if has_post rm then get_post d rm s2 else Some (0, s2))
      = Some (if has_post rm then post_data rm else 0, s3)" "ready d rm ys b ?n3 s3"
    using tape_get_post [OF r(1,2) s2(2) hs(3) _ md(2)] s2(2)
    by (cases "has_post rm") (auto simp: post_signal_def)
  have "m = ?n3 + length (tail_signal rm)" using m by simp
  then obtain s4 where s4: "rd_tail d rm hdr s3 = (True, s4)" "on_tape ys m b 0 0 s4"
    using tape_rd_tail [OF r(1) s3(2) hs(4) _ g] by blast
  have "rd_signal d rm hdr s = Some (Some (zero_ctx\<lparr>ctx_code := cd AND gen_mask (bits rm),
      ctx_pre := (if has_pre rm then pre_data rm else 0),
      ctx_post := (if has_post rm then post_data rm else 0)\<rparr>), s4)"
    using lead s1(1) s2(1) s3(1) s4(1) nf by (simp add: rd_signal_def)
  then show ?thesis using s4(2) by blast
qed

text \<open>The driver will deliver, or the buffer already holds, exactly these samples.\<close>

definition holds_samples :: "lirc_t list \<Rightarrow> rstate \<Rightarrow> bool" where
  "holds_samples ys s \<longleftrightarrow>
     0 \<le> wptr s \<and> wptr s \<le> 512 \<and> length (rdata s) = 512 \<and> length ys \<le> 512
     \<and> take (nat (wptr s)) (rdata s) @ input s = ys
     \<and> tv_sec (last_signal_time s) = 0 \<and> tv_usec (last_signal_time s) = 0 \<and> \<not> at_eof s"

lemma holds_tape:
  assumes "holds_samples ys s"
  shows "on_tape ys 0 0 0 0 ((rec_buffer_rewind s)\<lparr>rb_biphase := x\<rparr>)"
  using assms
  by (auto simp: on_tape_def holds_samples_def rec_buffer_rewind_def set_pending_pulse_def
      set_pending_space_def Let_def tape_sum_def zero_timeval_def)

lemma tape_sync:
  assumes t: "on_tape ys 0 0 0 0 s" "space_at ys 0 g" and r: "space_remote rm" "\<not> has_toggle_mask rm"
    and l: "\<And>l. lst = Some l \<Longrightarrow> expect_at_least d l g (min_remaining_gap l)"
  shows "\<exists>s'. sync_rec_buffer d lst rm s = (g, rm, s') \<and> on_tape ys 1 (tape_sum ys 1) 0 0 s'"
proof -
  obtain s1 where s1: "get_next_space 1000000 s = (g, s1)" "on_tape ys 1 0 0 0 s1"
    using tape_space [OF t] by auto
  have g: "g \<noteq> 0" using t(2) by (auto simp: space_at_def dest: duration_pos)
  have "on_tape ys 1 (tape_sum ys 1) 0 0 (s1\<lparr>rsum := 0\<rparr>)"
    using s1(2) by (simp add: on_tape_def)
  moreover have "sync_rec_buffer d lst rm s = (g, rm, s1\<lparr>rsum := 0\<rparr>)"
    using s1(1) g r(2) l space_remote_protocol [OF r(1)]
    by (auto simp: sync_rec_buffer_def sync_loop.simps split: option.split)
  ultimately show ?thesis by blast
qed

lemma decode_heard:
  assumes r: "space_remote rm" "separated d rm" "\<not> has_toggle_mask rm"
    and dr: "reads_samples d" "\<not> (has_repeat rm \<and> is_last)"
    and md: "pre_data rm AND gen_mask (pre_data_bits rm) = pre_data rm"
      "post_data rm AND gen_mask (post_data_bits rm) = post_data rm"
    and s: "holds_samples ys s" "space_at ys 0 g"
      "\<And>l. lst = Some l \<Longrightarrow> expect_at_least d l g (min_remaining_gap l)"
    and h: "heard d rm ys 1 (signal_of rm cd)" and m: "m = 1 + length (signal_of rm cd)"
    and g: "space_at ys m v" "gap_left rm (tape_sum ys m - tape_sum ys 1) \<le> v"
      "0 \<le> min_gap rm" "min_gap rm < 0x01000000"
      "0 \<le> tape_sum ys m - tape_sum ys 1" "tape_sum ys m - tape_sum ys 1 < 0x01000000"
  shows "\<exists>ctx s'. receive_decode d lst is_last rm s = Some (True, ctx, rm, s')
    \<and> ctx_code ctx = cd AND gen_mask (bits rm)
    \<and> ctx_pre ctx = (if has_pre rm then pre_data rm else 0)
    \<and> ctx_post ctx = (if has_post rm then post_data rm else 0)
    \<and> ctx_repeat_flag ctx = ((\<not> has_repeat rm \<or> u32 (reps rm) < min_code_repeat rm)
         \<and> expect_at_most d rm g (max_remaining_gap rm))"
proof -
  let ?b = "tape_sum ys 1" and ?n = "1 + length (header_signal rm)"
  have eof: "\<not> at_eof s" using s(1) by (simp add: holds_samples_def)
  obtain s1 where s1: "sync_rec_buffer d lst rm ((rec_buffer_rewind s)\<lparr>rb_biphase := is_biphase rm\<rparr>)
      = (g, rm, s1)" "on_tape ys 1 ?b 0 0 s1"
    using tape_sync [OF holds_tape [OF s(1)] s(2) r(1,3) s(3)] by blast
  have g0: "g \<noteq> 0" using s(2) by (auto simp: space_at_def dest: duration_pos)
  have rep: "rd_repeat d lst is_last rm s1 = Inr (rm, s1)" using dr(2) by (simp only: rd_repeat_def if_False)
  have hs: "heard d rm ys 1 (header_signal rm)"
    "heard d rm ys ?n (pre_signal rm @ data_signal rm cd (bits rm) @ post_signal rm @ tail_signal rm)"
    using h heard_append [of "header_signal rm"] by (auto simp: signal_of_def header_signal_def)
  obtain s2 where s2: "rd_header d rm g s1 = (Some (has_header rm), s2)" "ready d rm ys ?b ?n s2"
    using tape_rd_header [OF r(1) readyI [OF s1(2)] hs(1)] by blast
  have m': "m = ?n + length (pre_signal rm @ data_signal rm cd (bits rm) @ post_signal rm @ tail_signal rm)"
    using m by (simp add: signal_of_def)
  obtain s3 where s3: "rd_signal d rm (has_header rm) s2 = Some (Some (zero_ctx\<lparr>
      ctx_code := cd AND gen_mask (bits rm), ctx_pre := (if has_pre rm then pre_data rm else 0),
      ctx_post := (if has_post rm then post_data rm else 0)\<rparr>), s3)"
    using tape_rd_signal [OF r(1,2) s2(2) hs(2) md m' g] by blast
  have mode: "rec_mode d \<noteq> LIRC_MODE_LIRCCODE" using dr(1) by (auto simp: reads_samples_def)
  show ?thesis
    using eof dr(1) s1(1) g0 rep s2(1) s3 mode space_remote_protocol(1) [OF r(1)]
    by (simp add: receive_decode_def rd_body_def rd_finish_def)
qed

end
