(* ===== verification/Transmit.thy ===== *)
theory Transmit
  imports IR_Ops
begin

text \<open>
  The transmit side, \<open>lib/transmit.c\<close>: the global \<open>send_buffer\<close>, the emission of pulses
  and spaces (merged while they are pending), of bits in every protocol that can be sent, of
  header, pre and post data, trail, foot and repeat code, and \<open>init_send_or_sim\<close>, which
  builds the whole buffer and is behind \<open>send_buffer_put\<close> and \<open>init_sim\<close>.

  The pointer \<open>send_buffer.data\<close> is NULL, the buffer's own array \<open>_data\<close>, or the
  \<open>signals\<close> of a raw code. \<open>tx_fault\<close> is a ghost: it is set when the code reads or writes
  through it where there is no element (the NULL pointer, an index past the end).
\<close>

abbreviation (input) WBUF_SIZE :: nat where "WBUF_SIZE \<equiv> 256"
abbreviation (input) LIRCD_EXACT_GAP_THRESHOLD :: int where "LIRCD_EXACT_GAP_THRESHOLD \<equiv> 10000"

section \<open>State\<close>

datatype tx_ptr = TxNull | TxBuf | TxSignals "lirc_t list"

record sbuf =
  tx_data :: tx_ptr
  tx_buf :: "lirc_t list"
  tx_wptr :: nat
  tx_too_long :: bool
  tx_biphase :: bool
  tx_pendingp :: lirc_t
  tx_pendings :: lirc_t
  tx_sum :: lirc_t
  tx_fault :: bool

text \<open>\<open>memset(&send_buffer, 0, sizeof(send_buffer))\<close>.\<close>

definition send_buffer_init :: "sbuf \<Rightarrow> sbuf" where
  "send_buffer_init t = \<lparr>tx_data = TxNull, tx_buf = replicate 256 0, tx_wptr = 0,
     tx_too_long = False, tx_biphase = False, tx_pendingp = 0, tx_pendings = 0, tx_sum = 0,
     tx_fault = tx_fault t\<rparr>"

definition clear_send_buffer :: "sbuf \<Rightarrow> sbuf" where
  "clear_send_buffer t = t\<lparr>tx_wptr := 0, tx_too_long := False, tx_biphase := False,
     tx_pendingp := 0, tx_pendings := 0, tx_sum := 0\<rparr>"

section \<open>Pulses and spaces\<close>

definition add_send_buffer :: "lirc_t \<Rightarrow> sbuf \<Rightarrow> sbuf" where
  "add_send_buffer v t =
     (if tx_wptr t < WBUF_SIZE
      then t\<lparr>tx_sum := i32 (tx_sum t + v), tx_buf := (tx_buf t)[tx_wptr t := v],
             tx_wptr := tx_wptr t + 1\<rparr>
      else t\<lparr>tx_too_long := True\<rparr>)"

definition send_pulse :: "lirc_t \<Rightarrow> sbuf \<Rightarrow> sbuf" where
  "send_pulse v t =
     (if tx_pendingp t > 0 then t\<lparr>tx_pendingp := i32 (tx_pendingp t + v)\<rparr>
      else
        (let t = (if tx_pendings t > 0 then (add_send_buffer (tx_pendings t) t)\<lparr>tx_pendings := 0\<rparr>
                  else t)
         in t\<lparr>tx_pendingp := v\<rparr>))"

definition send_space :: "lirc_t \<Rightarrow> sbuf \<Rightarrow> sbuf" where
  "send_space v t =
     (if tx_wptr t = 0 \<and> tx_pendingp t = 0 then t
      else if tx_pendings t > 0 then t\<lparr>tx_pendings := i32 (tx_pendings t + v)\<rparr>
      else
        (let t = (if tx_pendingp t > 0 then (add_send_buffer (tx_pendingp t) t)\<lparr>tx_pendingp := 0\<rparr>
                  else t)
         in t\<lparr>tx_pendings := v\<rparr>))"

definition bad_send_buffer :: "sbuf \<Rightarrow> bool" where
  "bad_send_buffer t \<longleftrightarrow> tx_too_long t \<or> (tx_wptr t = WBUF_SIZE \<and> tx_pendingp t > 0)"

text \<open>\<open>send_buffer.data[i]\<close>, and whether there is such an element.\<close>

definition tx_ok :: "sbuf \<Rightarrow> nat \<Rightarrow> bool" where
  "tx_ok t i = (case tx_data t of
     TxNull \<Rightarrow> False | TxBuf \<Rightarrow> i < WBUF_SIZE | TxSignals xs \<Rightarrow> i < length xs)"

definition tx_at :: "sbuf \<Rightarrow> nat \<Rightarrow> lirc_t" where
  "tx_at t i = (if tx_ok t i then (case tx_data t of
       TxNull \<Rightarrow> 0 | TxBuf \<Rightarrow> tx_buf t ! i | TxSignals xs \<Rightarrow> xs ! i) else 0)"

text \<open>The first \<open>wptr\<close> elements, as a reader of \<open>send_buffer_data()\<close> and
  \<open>send_buffer_length()\<close> sees them.\<close>

definition send_buffer_data :: "sbuf \<Rightarrow> lirc_t list" where
  "send_buffer_data t = map (tx_at t) [0..<tx_wptr t]"

definition send_buffer_length :: "sbuf \<Rightarrow> nat" where
  "send_buffer_length t = tx_wptr t"

definition send_buffer_sum :: "sbuf \<Rightarrow> lirc_t" where
  "send_buffer_sum t = tx_sum t"

definition tx_touch_all :: "sbuf \<Rightarrow> sbuf" where
  "tx_touch_all t = t\<lparr>tx_fault := tx_fault t \<or> \<not> list_all (tx_ok t) [0..<tx_wptr t]\<rparr>"

definition check_send_buffer :: "sbuf \<Rightarrow> bool \<times> sbuf" where
  "check_send_buffer t =
     (if tx_wptr t = 0 then (False, t)
      else (list_all (\<lambda>v. v \<noteq> 0) (send_buffer_data t), tx_touch_all t))"

definition flush_send_buffer :: "sbuf \<Rightarrow> sbuf" where
  "flush_send_buffer t =
     (let t = (if tx_pendingp t > 0 then (add_send_buffer (tx_pendingp t) t)\<lparr>tx_pendingp := 0\<rparr> else t)
      in if tx_pendings t > 0 then (add_send_buffer (tx_pendings t) t)\<lparr>tx_pendings := 0\<rparr> else t)"

definition sync_send_buffer :: "sbuf \<Rightarrow> sbuf" where
  "sync_send_buffer t =
     (let t = (if tx_pendingp t > 0 then (add_send_buffer (tx_pendingp t) t)\<lparr>tx_pendingp := 0\<rparr> else t)
      in if tx_wptr t > 0 \<and> tx_wptr t mod 2 = 0 then t\<lparr>tx_wptr := tx_wptr t - 1\<rparr> else t)"

section \<open>Parts of a signal\<close>

definition send_header :: "ir_remote \<Rightarrow> sbuf \<Rightarrow> sbuf" where
  "send_header rm t = (if has_header rm then send_space (shead rm) (send_pulse (phead rm) t) else t)"

definition send_foot :: "ir_remote \<Rightarrow> sbuf \<Rightarrow> sbuf" where
  "send_foot rm t = (if has_foot rm then send_pulse (pfoot rm) (send_space (sfoot rm) t) else t)"

definition send_lead :: "ir_remote \<Rightarrow> sbuf \<Rightarrow> sbuf" where
  "send_lead rm t = (if plead rm \<noteq> 0 then send_pulse (plead rm) t else t)"

definition send_trail :: "ir_remote \<Rightarrow> sbuf \<Rightarrow> sbuf" where
  "send_trail rm t = (if ptrail rm \<noteq> 0 then send_pulse (ptrail rm) t else t)"

text \<open>The loops of \<open>send_data\<close>: two bits at a time, four bits at a time, one bit at a
  time. \<open>x\<close> is the data, reversed, so that its lowest bit is the next to send.\<close>

function send_rcmm :: "ir_remote \<Rightarrow> int \<Rightarrow> int \<Rightarrow> ir_code \<Rightarrow> sbuf \<Rightarrow> sbuf" where
  "send_rcmm rm bts i x t =
     (if i < bts then
        (let v = x AND 3;
             t = (if v = 0 then send_space (szero rm) (send_pulse (pzero rm) t)
                  else if v = 2 then send_space (sone rm) (send_pulse (pone rm) t)
                  else if v = 1 then send_space (stwo rm) (send_pulse (ptwo rm) t)
                  else send_space (sthree rm) (send_pulse (pthree rm) t))
         in send_rcmm rm bts (i + 2) (shr x 2) t)
      else t)"
  by pat_completeness auto
termination
  by (relation "measure (\<lambda>(rm, bts, i, x, t). nat (bts - i))") auto

function send_xmp :: "ir_remote \<Rightarrow> int \<Rightarrow> int \<Rightarrow> ir_code \<Rightarrow> sbuf \<Rightarrow> sbuf" where
  "send_xmp rm bts i x t =
     (if i < bts then
        (let nibble = reverse (x AND 0xf) 4;
             t = send_space (i32 (szero rm + uint nibble * sone rm)) (send_pulse (pzero rm) t)
         in send_xmp rm bts (i + 4) (shr x 4) t)
      else t)"
  by pat_completeness auto
termination
  by (relation "measure (\<lambda>(rm, bts, i, x, t). nat (bts - i))") auto

declare send_rcmm.simps [simp del] send_xmp.simps [simp del]

text \<open>The toggle masks change the next bit before it is sent.\<close>

definition toggle_bit_of :: "ir_remote \<Rightarrow> ir_code \<Rightarrow> ir_code \<Rightarrow> ir_code" where
  "toggle_bit_of rm msk x =
     (let x = (if has_toggle_bit_mask rm \<and> msk AND toggle_bit_mask rm \<noteq> 0 then
                 (if bits_set (toggle_bit_mask rm) = 1 then
                    (let x = x AND NOT 1
                     in if toggle_bit_mask_state rm AND msk \<noteq> 0 then x OR 1 else x)
                  else if toggle_bit_mask_state rm AND msk \<noteq> 0 then x XOR 1 else x)
               else x)
      in if has_toggle_mask rm \<and> msk AND toggle_mask rm \<noteq> 0 \<and> toggle_mask_state rm mod 2 \<noteq> 0
         then x XOR 1 else x)"

definition send_bit :: "ir_remote \<Rightarrow> ir_code \<Rightarrow> bool \<Rightarrow> sbuf \<Rightarrow> sbuf" where
  "send_bit rm msk b t =
     (if b then
        (if is_biphase rm then
           (if msk AND rc6_mask rm \<noteq> 0
            then send_pulse (i32 (2 * pone rm)) (send_space (i32 (2 * sone rm)) t)
            else send_pulse (pone rm) (send_space (sone rm) t))
         else if is_space_first rm then send_pulse (pone rm) (send_space (sone rm) t)
         else send_space (sone rm) (send_pulse (pone rm) t))
      else
        (if msk AND rc6_mask rm \<noteq> 0
         then send_space (i32 (2 * szero rm)) (send_pulse (i32 (2 * pzero rm)) t)
         else if is_space_first rm then send_pulse (pzero rm) (send_space (szero rm) t)
         else send_space (szero rm) (send_pulse (pzero rm) t)))"

function send_bits :: "ir_remote \<Rightarrow> int \<Rightarrow> int \<Rightarrow> ir_code \<Rightarrow> ir_code \<Rightarrow> sbuf \<Rightarrow> sbuf" where
  "send_bits rm bts i msk x t =
     (if i < bts then
        (let x = toggle_bit_of rm msk x;
             t = send_bit rm msk (x AND 1 \<noteq> 0) t
         in send_bits rm bts (i + 1) (shr msk 1) (shr x 1) t)
      else t)"
  by pat_completeness auto
termination
  by (relation "measure (\<lambda>(rm, bts, i, msk, x, t). nat (bts - i))") auto

declare send_bits.simps [simp del]

definition send_data :: "ir_remote \<Rightarrow> ir_code \<Rightarrow> int \<Rightarrow> int \<Rightarrow> sbuf \<Rightarrow> sbuf" where
  "send_data rm x bts dn t =
     (let x = reverse x bts
      in if is_rcmm rm then
           (if bts mod 2 \<noteq> 0 \<or> dn mod 2 \<noteq> 0 then t else send_rcmm rm bts 0 x t)
         else if is_xmp rm then
           (if bts mod 4 \<noteq> 0 \<or> dn mod 4 \<noteq> 0 then t else send_xmp rm bts 0 x t)
         else send_bits rm bts 0 (shl 1 (bit_count rm - 1 - dn)) x t)"

definition send_pre :: "ir_remote \<Rightarrow> sbuf \<Rightarrow> sbuf" where
  "send_pre rm t =
     (if has_pre rm then
        (let t = send_data rm (pre_data rm) (pre_data_bits rm) 0 t
         in if pre_p rm > 0 \<and> pre_s rm > 0 then send_space (pre_s rm) (send_pulse (pre_p rm) t) else t)
      else t)"

definition send_post :: "ir_remote \<Rightarrow> sbuf \<Rightarrow> sbuf" where
  "send_post rm t =
     (if has_post rm then
        (let t = (if post_p rm > 0 \<and> post_s rm > 0
                  then send_space (post_s rm) (send_pulse (post_p rm) t) else t)
         in send_data rm (post_data rm) (post_data_bits rm) (pre_data_bits rm + bits rm) t)
      else t)"

definition send_repeat :: "ir_remote \<Rightarrow> sbuf \<Rightarrow> sbuf" where
  "send_repeat rm t =
     send_trail rm (send_space (srepeat rm) (send_pulse (prepeat rm) (send_lead rm t)))"

definition send_code :: "ir_remote \<Rightarrow> ir_code \<Rightarrow> bool \<Rightarrow> sbuf \<Rightarrow> sbuf" where
  "send_code rm cd rep t =
     (let t = (if \<not> rep \<or> flags rm AND NO_HEAD_REP = 0 then send_header rm t else t);
          t = send_lead rm t;
          t = send_pre rm t;
          t = send_data rm cd (bits rm) (pre_data_bits rm) t;
          t = send_post rm t;
          t = send_trail rm t;
          t = (if \<not> rep \<or> flags rm AND NO_FOOT_REP = 0 then send_foot rm t else t)
      in if \<not> rep \<and> flags rm AND NO_HEAD_REP \<noteq> 0 \<and> flags rm AND CONST_LENGTH \<noteq> 0
         then t\<lparr>tx_sum := i32 (tx_sum t - i32 (phead rm + shead rm))\<rparr> else t)"

definition send_signals :: "lirc_t list \<Rightarrow> sbuf \<Rightarrow> sbuf" where
  "send_signals xs t = fold add_send_buffer xs t"

section \<open>Filling the buffer\<close>

text \<open>The code word to send: the one the transmit state points to, with the repeat mask
  applied to repeats.\<close>

definition next_tx_code :: "ir_remote \<Rightarrow> ir_ncode \<Rightarrow> bool \<Rightarrow> bool \<Rightarrow> ir_code" where
  "next_tx_code rm nc sim rep =
     (let cd = (case transmit_state nc of
                  None \<Rightarrow> code nc
                | Some i \<Rightarrow> if sim then code nc else nexts nc ! i)
      in if rep \<and> has_repeat_mask rm then cd XOR repeat_mask rm else cd)"

text \<open>One pass from the label \<open>init_send_loop\<close> up to the synchronised buffer. The flag is
  False when the function returns 0 here (a raw code without signals).\<close>

definition fill_once :: "ir_remote \<Rightarrow> ir_ncode \<Rightarrow> bool \<Rightarrow> bool \<Rightarrow> sbuf \<Rightarrow> bool \<times> ir_remote \<times> sbuf" where
  "fill_once rm nc sim rep t =
     (if rep \<and> has_repeat rm then
        (let t = (if flags rm AND REPEAT_HEADER \<noteq> 0 \<and> has_header rm then send_header rm t else t)
         in (True, rm, sync_send_buffer (send_repeat rm t)))
      else if \<not> is_raw rm then
        (let t = send_code rm (next_tx_code rm nc sim rep) rep t;
             rm = (if \<not> sim \<and> has_toggle_mask rm
                   then rm\<lparr>toggle_mask_state :=
                          (if toggle_mask_state rm + 1 = 4 then 2 else i32 (toggle_mask_state rm + 1))\<rparr>
                   else rm)
         in (True, rm, sync_send_buffer (t\<lparr>tx_data := TxBuf\<rparr>)))
      else
        (case signals nc of
           None \<Rightarrow> (False, rm, t)
         | Some xs \<Rightarrow>
             (let xs = take (nlength nc) xs
              in (True, rm, sync_send_buffer
                   (if tx_wptr t > 0 then send_signals xs t
                    else t\<lparr>tx_data := TxSignals xs, tx_wptr := nlength nc,
                           tx_sum := fold (\<lambda>x a. i32 (a + x)) xs (tx_sum t)\<rparr>)))))"

text \<open>The gap that must follow the signal; False when a signal of constant length is too
  long for it.\<close>

definition set_remaining_gap :: "ir_remote \<Rightarrow> bool \<Rightarrow> sbuf \<Rightarrow> bool \<times> ir_remote" where
  "set_remaining_gap rm rep t =
     (if has_repeat_gap rm \<and> rep \<and> has_repeat rm then
        (True, rm\<lparr>min_remaining_gap := i32 (repeat_gap rm), max_remaining_gap := i32 (repeat_gap rm)\<rparr>)
      else if is_const rm then
        (if min_gap rm > tx_sum t then
           (True, rm\<lparr>min_remaining_gap := i32 (min_gap rm - tx_sum t),
                     max_remaining_gap := i32 (max_gap rm - tx_sum t)\<rparr>)
         else (False, rm\<lparr>min_remaining_gap := min_gap rm, max_remaining_gap := max_gap rm\<rparr>))
      else (True, rm\<lparr>min_remaining_gap := min_gap rm, max_remaining_gap := max_gap rm\<rparr>))"

definition next_transmit_state :: "ir_remote \<Rightarrow> ir_ncode \<Rightarrow> nat option" where
  "next_transmit_state rm nc =
     (if nexts nc \<noteq> [] then
        (case transmit_state nc of
           None \<Rightarrow> Some 0
         | Some i \<Rightarrow>
             (case succ_node nc i of
                None \<Rightarrow> if is_xmp rm then Some 0 else None
              | Some j \<Rightarrow> Some j))
      else transmit_state nc)"

text \<open>Copying a raw code's signals into the own array (\<open>unrolling raw signal
  optimisation\<close>).\<close>

definition unroll_raw :: "sbuf \<Rightarrow> sbuf" where
  "unroll_raw t =
     (if tx_data t = TxBuf then t
      else
        (let xs = send_buffer_data t
         in send_signals xs ((tx_touch_all t)\<lparr>tx_data := TxBuf, tx_wptr := 0\<rparr>)))"

text \<open>The state of the function between two passes, and its outcome.\<close>

type_synonym tx_result = "bool \<times> ir_remote \<times> ir_ncode \<times> sbuf"

definition final_check :: "ir_remote \<Rightarrow> ir_ncode \<Rightarrow> sbuf \<Rightarrow> tx_result" where
  "final_check rm nc t = (let (ok, t) = check_send_buffer t in (ok, rm, nc, t))"

text \<open>Whether the next signal follows in the same buffer, and the preparation of it.\<close>

definition loops_back :: "ir_remote \<Rightarrow> ir_ncode \<Rightarrow> bool" where
  "loops_back rm nc \<longleftrightarrow> (repeat_countdown rm > 0 \<or> transmit_state nc \<noteq> None)
     \<and> min_remaining_gap rm < LIRCD_EXACT_GAP_THRESHOLD"

definition prepare_next :: "ir_remote \<Rightarrow> ir_ncode \<Rightarrow> sbuf \<Rightarrow> ir_remote \<times> ir_ncode \<times> sbuf" where
  "prepare_next rm nc t =
     (let t = unroll_raw t;
          rm = (if nexts nc = [] \<or> transmit_state nc = None
                then rm\<lparr>repeat_countdown := i32 (repeat_countdown rm - 1)\<rparr> else rm);
          t = flush_send_buffer (send_space (min_remaining_gap rm) t)
      in (rm, nc, t\<lparr>tx_sum := 0\<rparr>))"

text \<open>One pass of the loop: \<open>Inl\<close> the function returns, \<open>Inr\<close> it jumps back.\<close>

definition send_pass :: "bool \<Rightarrow> bool \<Rightarrow> ir_remote \<Rightarrow> ir_ncode \<Rightarrow> sbuf
    \<Rightarrow> tx_result + (ir_remote \<times> ir_ncode \<times> sbuf)" where
  "send_pass sim rep rm nc t =
     (let (ok, rm, t) = fill_once rm nc sim rep t
      in if \<not> ok then Inl (False, rm, nc, t)
         else if bad_send_buffer t then Inl (False, rm, nc, t)
         else if sim then Inl (final_check rm nc t)
         else
           (let (ok, rm) = set_remaining_gap rm rep t
            in if \<not> ok then Inl (False, rm, nc, t)
               else
                 (let nc = nc\<lparr>transmit_state := next_transmit_state rm nc\<rparr>
                  in if loops_back rm nc then Inr (prepare_next rm nc t)
                     else Inl (final_check rm nc t))))"

partial_function (option) send_loop :: "bool \<Rightarrow> bool \<Rightarrow> ir_remote \<Rightarrow> ir_ncode \<Rightarrow> sbuf \<Rightarrow> tx_result option" where
  "send_loop sim rep rm nc t =
     (case send_pass sim rep rm nc t of
        Inl r \<Rightarrow> Some r
      | Inr (rm, nc, t) \<Rightarrow> send_loop sim True rm nc t)"

text \<open>\<open>send_buffer.data[0] = LIRC_EOF | 1; wptr += 1\<close> for the internal remote \<open>lirc\<close>.\<close>

definition put_eof :: "sbuf \<Rightarrow> sbuf" where
  "put_eof t =
     (let v = LIRC_EOF OR 1;
          t = (case tx_data t of
                 TxNull \<Rightarrow> t\<lparr>tx_fault := True\<rparr>
               | TxBuf \<Rightarrow> t\<lparr>tx_buf := (tx_buf t)[tx_wptr t := v]\<rparr>
               | TxSignals xs \<Rightarrow>
                   (if tx_wptr t < length xs then t\<lparr>tx_data := TxSignals (xs[tx_wptr t := v])\<rparr>
                    else t\<lparr>tx_fault := True\<rparr>))
      in t\<lparr>tx_wptr := tx_wptr t + 1\<rparr>)"

text \<open>\<open>repeating\<close> is \<open>repeat_remote != NULL\<close>. \<open>None\<close>: the loop does not end.\<close>

definition init_send_or_sim :: "bool \<Rightarrow> ir_remote \<Rightarrow> ir_ncode \<Rightarrow> bool \<Rightarrow> bool \<Rightarrow> sbuf \<Rightarrow> tx_result option" where
  "init_send_or_sim repeating rm nc sim repeat_preset t =
     (if is_grundig rm \<or> is_serial rm \<or> is_bo rm then Some (False, rm, nc, t)
      else
        (let t = clear_send_buffer t
         in if rname rm = Some ''lirc'' then Some (final_check rm nc (put_eof t))
            else
              (let t = (if is_biphase rm then t\<lparr>tx_biphase := True\<rparr> else t);
                   rm = (if \<not> sim \<and> \<not> repeating
                         then rm\<lparr>repeat_countdown := min_repeat rm\<rparr> else rm);
                   rep = (if \<not> sim \<and> repeating then True else repeat_preset)
               in send_loop sim rep rm nc t)))"

definition send_buffer_put :: "bool \<Rightarrow> ir_remote \<Rightarrow> ir_ncode \<Rightarrow> sbuf \<Rightarrow> tx_result option" where
  "send_buffer_put repeating rm nc t = init_send_or_sim repeating rm nc False False t"

definition init_sim :: "ir_remote \<Rightarrow> ir_ncode \<Rightarrow> bool \<Rightarrow> sbuf \<Rightarrow> tx_result option" where
  "init_sim rm nc repeat_preset t = init_send_or_sim False rm nc True repeat_preset t"

end
