(* ===== verification/Space_Send.thy ===== *)
theory Space_Send
  imports Space_Decode Transmit
begin

text \<open>
  Sending a space-encoded signal, and what a receiver hears of it. \<open>tx_holds xs t\<close> says that
  the send buffer stands for the durations \<open>xs\<close>, the last of which may still be pending; the
  operations of \<open>Transmit\<close> append to it. The result is that \<open>send_buffer_put\<close> leaves exactly
  \<open>signal_of\<close> in the buffer. \<open>alternate\<close> turns durations into the samples of a driver.
\<close>

section \<open>The send buffer as a list\<close>

definition tx_holds :: "lirc_t list \<Rightarrow> sbuf \<Rightarrow> bool" where
  "tx_holds xs t \<longleftrightarrow>
     length (tx_buf t) = 256 \<and> \<not> tx_too_long t \<and> (\<forall>x \<in> set xs. 0 < x)
     \<and> tx_wptr t = length xs - 1 \<and> take (length xs - 1) (tx_buf t) = butlast xs
     \<and> tx_sum t = i32 (sum_list (butlast xs))
     \<and> tx_pendingp t = (if odd (length xs) then last xs else 0)
     \<and> tx_pendings t = (if xs \<noteq> [] \<and> even (length xs) then last xs else 0)"

lemma tx_holds_clear: "length (tx_buf t) = 256 \<Longrightarrow> tx_holds [] (clear_send_buffer t)"
  by (simp add: tx_holds_def clear_send_buffer_def)

lemma sum_list_last: "xs \<noteq> [] \<Longrightarrow> sum_list (butlast xs) + last xs = sum_list (xs :: int list)"
  by (induction xs rule: rev_induct) simp_all

lemma add_last:
  assumes "xs \<noteq> []" "length xs \<le> 256" "length (tx_buf t) = 256" "tx_wptr t = length xs - 1"
    "take (length xs - 1) (tx_buf t) = butlast xs" "tx_sum t = i32 (sum_list (butlast xs))"
  shows "add_send_buffer (last xs) t = t\<lparr>tx_sum := i32 (sum_list xs),
      tx_buf := (tx_buf t)[length xs - 1 := last xs], tx_wptr := length xs\<rparr>
    \<and> take (length xs) ((tx_buf t)[length xs - 1 := last xs]) = xs"
proof -
  obtain n where n: "length xs = Suc n" using assms(1) by (cases "length xs") auto
  have "take (Suc n) ((tx_buf t)[n := last xs]) = take n (tx_buf t) @ [last xs]"
    using assms(2,3) n by (simp add: take_Suc_conv_app_nth)
  then have "take (length xs) ((tx_buf t)[length xs - 1 := last xs]) = xs"
    using assms(1,5) n by simp
  then show ?thesis
    using assms n sum_list_last [OF assms(1)] by (simp add: add_send_buffer_def)
qed

lemma holds_pulse:
  assumes "tx_holds xs t" "even (length xs)" "length xs \<le> 256" "0 < v"
  shows "tx_holds (xs @ [v]) (send_pulse v t)"
proof (cases "xs = []")
  case True
  with assms show ?thesis by (simp add: tx_holds_def send_pulse_def)
next
  case False
  then have l: "0 < last xs" using assms(1) by (simp add: tx_holds_def)
  have "add_send_buffer (last xs) t = t\<lparr>tx_sum := i32 (sum_list xs),
      tx_buf := (tx_buf t)[length xs - 1 := last xs], tx_wptr := length xs\<rparr>
    \<and> take (length xs) ((tx_buf t)[length xs - 1 := last xs]) = xs"
    using assms False by (intro add_last) (simp_all add: tx_holds_def)
  then show ?thesis using assms False l
    by (simp add: tx_holds_def send_pulse_def)
qed

lemma holds_space:
  assumes "tx_holds xs t" "odd (length xs)" "length xs \<le> 256" "0 < v"
  shows "tx_holds (xs @ [v]) (send_space v t)"
proof -
  have ne: "xs \<noteq> []" using assms(2) by auto
  then have l: "0 < last xs" using assms(1) by (simp add: tx_holds_def)
  have "add_send_buffer (last xs) t = t\<lparr>tx_sum := i32 (sum_list xs),
      tx_buf := (tx_buf t)[length xs - 1 := last xs], tx_wptr := length xs\<rparr>
    \<and> take (length xs) ((tx_buf t)[length xs - 1 := last xs]) = xs"
    using assms ne by (intro add_last) (simp_all add: tx_holds_def)
  moreover have "tx_pendingp t = last xs" "tx_pendings t = 0"
    using assms ne by (simp_all add: tx_holds_def)
  then have "send_space v t = (add_send_buffer (last xs) t)\<lparr>tx_pendingp := 0, tx_pendings := v\<rparr>"
    using l by (simp add: send_space_def)
  ultimately show ?thesis using assms ne by (simp add: tx_holds_def)
qed

lemma holds_pair:
  assumes "tx_holds xs t" "even (length xs)" "length xs + 2 \<le> 256" "0 < p" "0 < v"
  shows "tx_holds (xs @ [p, v]) (send_space v (send_pulse p t))"
  using holds_space [OF holds_pulse [OF assms(1,2) _ assms(4)] _ _ assms(5)] assms(2,3) by simp

section \<open>The parts of a signal\<close>

text \<open>Remotes without the features that change bits from one signal to the next.\<close>

definition plain_sender :: "ir_remote \<Rightarrow> bool" where
  "plain_sender rm \<longleftrightarrow> \<not> has_toggle_bit_mask rm \<and> \<not> has_toggle_mask rm \<and> min_repeat rm \<le> 0
     \<and> rname rm \<noteq> Some ''lirc''"

lemma holds_bits:
  assumes r: "space_remote rm" "plain_sender rm"
  shows "tx_holds xs t \<Longrightarrow> even (length xs) \<Longrightarrow> length xs + 2 * n \<le> 256 \<Longrightarrow>
    tx_holds (xs @ concat (map (bit_pair rm) (map (bit y) [0..<n]))) (send_bits rm (i + int n) i msk y t)"
proof (induction n arbitrary: xs t i msk y)
  case 0
  then show ?case by (simp add: send_bits.simps)
next
  case (Suc n)
  note prot = space_remote_protocol [OF r(1)]
  have pos: "0 < pone rm" "0 < sone rm" "0 < pzero rm" "0 < szero rm"
    using space_remote_timing [OF r(1)] by (auto dest: duration_pos)
  have tb: "toggle_bit_of rm msk y = y" using r(2) by (simp add: toggle_bit_of_def plain_sender_def)
  have rc6: "rc6_mask rm = 0" using r(1) by (simp add: space_remote_def)
  have b0: "y AND 1 \<noteq> 0 \<longleftrightarrow> bit y 0" by (simp add: and_one_eq bit_0 odd_iff_mod_2_eq_one)
  let ?t = "send_bit rm msk (bit y 0) t"
  have "tx_holds (xs @ bit_pair rm (bit y 0)) ?t"
    using holds_pair [OF Suc.prems(1,2)] Suc.prems(3) pos prot rc6
    by (simp add: send_bit_def bit_pair_def)
  then have "tx_holds ((xs @ bit_pair rm (bit y 0)) @ concat (map (bit_pair rm) (map (bit (shr y 1)) [0..<n])))
      (send_bits rm ((i + 1) + int n) (i + 1) (shr msk 1) (shr y 1) ?t)"
    using Suc.prems by (intro Suc.IH) auto
  moreover have "map (bit y) [0..<Suc n] = bit y 0 # map (bit (shr y 1)) [0..<n]"
    by (simp add: map_upt_Suc bit_shr fun_eq_iff del: upt_Suc)
  ultimately show ?case
    by (subst send_bits.simps) (simp add: tb b0 Let_def algebra_simps del: upt_Suc)
qed

lemma bits_of_reverse:
  assumes "w \<le> 64"
  shows "map (bit (reverse x w)) [0..<nat w] = bits_msb x w"
  by (rule nth_equalityI) (use assms in \<open>auto simp: bits_msb_def bit_reverse rev_nth\<close>)

lemma holds_data:
  assumes r: "space_remote rm" "plain_sender rm" and w: "0 \<le> w" "w \<le> 64"
    and t: "tx_holds xs t" "even (length xs)" "length xs + 2 * nat w \<le> 256"
  shows "tx_holds (xs @ data_signal rm x w) (send_data rm x w dn t)"
  using holds_bits [OF r t, of "reverse x w" 0] w space_remote_protocol [OF r(1)]
  by (simp add: send_data_def data_signal_def bits_of_reverse)

lemma holds_code:
  assumes r: "space_remote rm" "plain_sender rm" and t: "tx_holds [] t"
  shows "tx_holds (signal_of rm cd) (send_code rm cd False t)"
proof -
  have b: "0 \<le> pre_data_bits rm" "0 \<le> bits rm" "0 \<le> post_data_bits rm"
    "pre_data_bits rm + bits rm + post_data_bits rm \<le> 64" and nh: "flags rm AND NO_HEAD_REP = 0"
    using r(1) by (auto simp: space_remote_def)
  have len: "nat (pre_data_bits rm) + nat (bits rm) + nat (post_data_bits rm) \<le> 64" using b by linarith
  let ?h = "header_signal rm" and ?p = "pre_signal rm" and ?d = "data_signal rm cd (bits rm)"
    and ?q = "post_signal rm"
  have lens: "length ?h \<le> 2" "even (length ?h)" "length ?p \<le> 2 * nat (pre_data_bits rm) + 2"
      "even (length ?p)" "length ?q \<le> 2 * nat (post_data_bits rm) + 2" "even (length ?q)"
    by (simp_all add: header_signal_def pre_signal_def post_signal_def)
  have 1: "tx_holds ?h (send_lead rm (send_header rm t))"
    using t holds_pair [OF t] space_remote_timing(6) [OF r(1)]
    by (auto simp: send_lead_def send_header_def header_signal_def has_header_def)
  have 2: "tx_holds (?h @ ?p) (send_pre rm (send_lead rm (send_header rm t)))"
  proof (cases "has_pre rm")
    case True
    have "tx_holds (?h @ data_signal rm (pre_data rm) (pre_data_bits rm))
        (send_data rm (pre_data rm) (pre_data_bits rm) 0 (send_lead rm (send_header rm t)))"
      using len lens b by (intro holds_data [OF r _ _ 1]) auto
    then show ?thesis using True lens len holds_pair [of "?h @ data_signal rm (pre_data rm) (pre_data_bits rm)"]
      by (simp add: send_pre_def pre_signal_def Let_def)
  next
    case False
    with 1 show ?thesis by (simp add: send_pre_def pre_signal_def)
  qed
  have 3: "tx_holds ((?h @ ?p) @ ?d) (send_data rm cd (bits rm) (pre_data_bits rm)
      (send_pre rm (send_lead rm (send_header rm t))))" (is "tx_holds _ ?t3")
    using len lens b by (intro holds_data [OF r _ _ 2]) auto
  have 4: "tx_holds (?h @ ?p @ ?d @ ?q) (send_post rm ?t3)"
  proof (cases "has_post rm")
    case True
    let ?xs = "((?h @ ?p) @ ?d) @ (if post_p rm > 0 \<and> post_s rm > 0 then [post_p rm, post_s rm] else [])"
    have "tx_holds ?xs (if post_p rm > 0 \<and> post_s rm > 0
        then send_space (post_s rm) (send_pulse (post_p rm) ?t3) else ?t3)" (is "tx_holds _ ?t4")
      using 3 holds_pair [OF 3] lens len by simp
    then have "tx_holds (?xs @ data_signal rm (post_data rm) (post_data_bits rm))
        (send_data rm (post_data rm) (post_data_bits rm) (pre_data_bits rm + bits rm) ?t4)"
      using len lens b by (intro holds_data [OF r]) auto
    then show ?thesis using True by (simp add: send_post_def post_signal_def Let_def)
  next
    case False
    with 3 show ?thesis by (simp add: send_post_def post_signal_def)
  qed
  have pt: "0 < ptrail rm" using space_remote_timing(5) [OF r(1)] by (rule duration_pos)
  have 5: "tx_holds ((?h @ ?p @ ?d @ ?q) @ [ptrail rm]) (send_trail rm (send_post rm ?t3))"
    using holds_pulse [OF 4, of "ptrail rm"] pt len lens by (simp add: send_trail_def)
  have 6: "tx_holds (signal_of rm cd) (send_foot rm (send_trail rm (send_post rm ?t3)))"
  proof (cases "has_foot rm")
    case True
    then have pos: "0 < sfoot rm" "0 < pfoot rm" by (simp_all add: has_foot_def)
    have "tx_holds (((?h @ ?p @ ?d @ ?q) @ [ptrail rm]) @ [sfoot rm])
        (send_space (sfoot rm) (send_trail rm (send_post rm ?t3)))"
      using len lens pos by (intro holds_space [OF 5]) auto
    then have "tx_holds ((((?h @ ?p @ ?d @ ?q) @ [ptrail rm]) @ [sfoot rm]) @ [pfoot rm])
        (send_pulse (pfoot rm) (send_space (sfoot rm) (send_trail rm (send_post rm ?t3))))"
      using len lens pos by (intro holds_pulse) auto
    then show ?thesis using True by (simp add: send_foot_def signal_of_def tail_signal_def)
  next
    case False
    with 5 show ?thesis by (simp add: send_foot_def signal_of_def tail_signal_def)
  qed
  then show ?thesis using nh by (simp add: send_code_def Let_def)
qed

section \<open>The whole send buffer\<close>

lemma length_signal_of:
  assumes "space_remote rm"
  shows "length (signal_of rm cd) \<le> 137" "odd (length (signal_of rm cd))"
proof -
  have b: "0 \<le> pre_data_bits rm" "0 \<le> bits rm" "0 \<le> post_data_bits rm"
    "pre_data_bits rm + bits rm + post_data_bits rm \<le> 64"
    using assms by (auto simp: space_remote_def)
  then have "nat (pre_data_bits rm) + nat (bits rm) + nat (post_data_bits rm) \<le> 64" by linarith
  then show "length (signal_of rm cd) \<le> 137"
    by (simp add: signal_of_def header_signal_def pre_signal_def post_signal_def tail_signal_def)
  show "odd (length (signal_of rm cd))"
    by (simp add: signal_of_def header_signal_def pre_signal_def post_signal_def tail_signal_def)
qed

lemma holds_sync:
  assumes "tx_holds xs t" "odd (length xs)" "length xs \<le> 256"
  shows "let t' = (sync_send_buffer t)\<lparr>tx_data := TxBuf\<rparr>
    in send_buffer_data t' = xs \<and> tx_wptr t' = length xs \<and> tx_sum t' = i32 (sum_list xs)
       \<and> \<not> bad_send_buffer t'"
proof -
  have ne: "xs \<noteq> []" using assms(2) by auto
  then have l: "0 < last xs" using assms(1) by (simp add: tx_holds_def)
  have a: "add_send_buffer (last xs) t = t\<lparr>tx_sum := i32 (sum_list xs),
      tx_buf := (tx_buf t)[length xs - 1 := last xs], tx_wptr := length xs\<rparr>
    \<and> take (length xs) ((tx_buf t)[length xs - 1 := last xs]) = xs"
    using assms ne by (intro add_last) (simp_all add: tx_holds_def)
  let ?t' = "(sync_send_buffer t)\<lparr>tx_data := TxBuf\<rparr>"
  have f: "tx_buf ?t' = (tx_buf t)[length xs - 1 := last xs]" "tx_wptr ?t' = length xs"
      "tx_sum ?t' = i32 (sum_list xs)" "tx_pendingp ?t' = 0" "tx_too_long ?t' = tx_too_long t"
      "tx_data ?t' = TxBuf"
    using a l assms(1,2) by (simp_all add: sync_send_buffer_def tx_holds_def Let_def odd_iff_mod_2_eq_one)
  have "send_buffer_data ?t' = take (length xs) (tx_buf ?t')"
  proof (rule nth_equalityI)
    show "length (send_buffer_data ?t') = length (take (length xs) (tx_buf ?t'))"
      using assms(1,3) by (simp add: send_buffer_data_def f(1,2) tx_holds_def del: list_update_nonempty)
    fix i assume "i < length (send_buffer_data ?t')"
    then show "send_buffer_data ?t' ! i = take (length xs) (tx_buf ?t') ! i"
      using assms(3) f(2,6) by (simp add: send_buffer_data_def tx_at_def tx_ok_def)
  qed
  with a f(1) have "send_buffer_data ?t' = xs" by simp
  then show ?thesis using f assms(1) by (simp add: Let_def bad_send_buffer_def tx_holds_def)
qed

lemma sync_data: "sync_send_buffer (t\<lparr>tx_data := p\<rparr>) = (sync_send_buffer t)\<lparr>tx_data := p\<rparr>"
  by (simp add: sync_send_buffer_def add_send_buffer_def Let_def)

lemma countdown_bit_pair [simp]: "bit_pair (rm\<lparr>repeat_countdown := n\<rparr>) = bit_pair rm"
  by (simp add: fun_eq_iff bit_pair_def)

lemma countdown_frame [simp]:
  "space_remote (rm\<lparr>repeat_countdown := n\<rparr>) = space_remote rm"
  "plain_sender (rm\<lparr>repeat_countdown := n\<rparr>) = plain_sender rm"
  "signal_of (rm\<lparr>repeat_countdown := n\<rparr>) cd = signal_of rm cd"
  by (simp_all add: space_remote_def plain_sender_def signal_of_def header_signal_def pre_signal_def
      post_signal_def tail_signal_def data_signal_def c_defs)

lemma touch_data [simp]:
  "send_buffer_data (tx_touch_all t) = send_buffer_data t" "tx_too_long (tx_touch_all t) = tx_too_long t"
  by (auto simp: tx_touch_all_def send_buffer_data_def tx_at_def tx_ok_def split: tx_ptr.split)

lemma gap_result:
  assumes "is_const rm \<Longrightarrow> tx_sum t < min_gap rm"
  shows "\<exists>rm'. set_remaining_gap rm False t = (True, rm') \<and> repeat_countdown rm' = repeat_countdown rm
    \<and> min_remaining_gap rm' = (if is_const rm then i32 (min_gap rm - tx_sum t) else min_gap rm)"
  using assms by (cases "is_const rm") (simp_all add: set_remaining_gap_def)

lemma pass_space_remote:
  assumes r: "space_remote rm" "plain_sender rm" and t: "tx_holds [] t"
    and nc: "nexts nc = []" "transmit_state nc = None" and cd: "repeat_countdown rm \<le> 0"
    and c: "is_const rm \<Longrightarrow> i32 (sum_list (signal_of rm (code nc))) < min_gap rm"
  shows "\<exists>rm' t'. send_pass False False rm nc t = Inl (True, rm', nc, t')
    \<and> send_buffer_data t' = signal_of rm (code nc) \<and> \<not> tx_too_long t'
    \<and> min_remaining_gap rm' = (if is_const rm
        then i32 (min_gap rm - i32 (sum_list (signal_of rm (code nc)))) else min_gap rm)"
proof -
  let ?xs = "signal_of rm (code nc)"
  let ?t = "(sync_send_buffer (send_code rm (code nc) False t))\<lparr>tx_data := TxBuf\<rparr>"
  note prot = space_remote_protocol [OF r(1)] and len = length_signal_of [OF r(1), of "code nc"]
  have h: "tx_holds ?xs (send_code rm (code nc) False t)" by (rule holds_code [OF r t])
  then have pos: "\<forall>x \<in> set ?xs. x \<noteq> 0" by (force simp: tx_holds_def)
  have s: "send_buffer_data ?t = ?xs" "tx_wptr ?t = length ?xs" "tx_sum ?t = i32 (sum_list ?xs)"
      "\<not> bad_send_buffer ?t"
    using holds_sync [OF h len(2)] len(1) by (simp_all add: Let_def)
  have fill: "fill_once rm nc False False t = (True, rm, ?t)"
    using prot r(2) nc by (simp add: fill_once_def next_tx_code_def plain_sender_def sync_data)
  obtain rm' where g: "set_remaining_gap rm False ?t = (True, rm')" "repeat_countdown rm' = repeat_countdown rm"
      "min_remaining_gap rm' = (if is_const rm then i32 (min_gap rm - i32 (sum_list ?xs)) else min_gap rm)"
    using gap_result [of rm ?t] c s(3) by metis
  have nx: "next_transmit_state rm' nc = None" "nc\<lparr>transmit_state := None\<rparr> = nc"
    using nc by (simp_all add: next_transmit_state_def)
  have "tx_wptr ?t \<noteq> 0" using s(2) len(2) by (metis even_zero)
  then have "check_send_buffer ?t = (True, tx_touch_all ?t)"
    using s(1) pos by (simp add: check_send_buffer_def list_all_iff)
  then have "send_pass False False rm nc t = Inl (True, rm', nc, tx_touch_all ?t)"
    using fill s(4) g nx nc(2) cd by (simp add: send_pass_def final_check_def loops_back_def)
  moreover have "send_buffer_data (tx_touch_all ?t) = ?xs" "\<not> tx_too_long (tx_touch_all ?t)"
    using s(1,4) by (simp_all add: touch_data bad_send_buffer_def)
  ultimately show ?thesis using g(3) by blast
qed

lemma put_space_remote:
  assumes r: "space_remote rm" "plain_sender rm" and t: "length (tx_buf t) = 256"
    and nc: "nexts nc = []" "transmit_state nc = None"
    and c: "is_const rm \<Longrightarrow> i32 (sum_list (signal_of rm (code nc))) < min_gap rm"
  shows "\<exists>rm' t'. send_buffer_put False rm nc t = Some (True, rm', nc, t')
    \<and> send_buffer_data t' = signal_of rm (code nc) \<and> \<not> tx_too_long t'
    \<and> min_remaining_gap rm' = (if is_const rm
        then i32 (min_gap rm - i32 (sum_list (signal_of rm (code nc)))) else min_gap rm)"
proof -
  let ?rm = "rm\<lparr>repeat_countdown := min_repeat rm\<rparr>"
  have f: "is_const ?rm = is_const rm" "min_gap ?rm = min_gap rm" by (simp_all add: c_defs min_gap_def)
  have "repeat_countdown ?rm \<le> 0" using r(2) by (simp add: plain_sender_def)
  then obtain rm' t' where p: "send_pass False False ?rm nc (clear_send_buffer t) = Inl (True, rm', nc, t')"
      "send_buffer_data t' = signal_of rm (code nc)" "\<not> tx_too_long t'"
      "min_remaining_gap rm' = (if is_const rm
        then i32 (min_gap rm - i32 (sum_list (signal_of rm (code nc)))) else min_gap rm)"
    using pass_space_remote [of ?rm "clear_send_buffer t" nc] r nc c f tx_holds_clear [OF t] by auto
  have "send_buffer_put False rm nc t = send_loop False False ?rm nc (clear_send_buffer t)"
    using space_remote_protocol [OF r(1)] r(2)
    by (simp add: send_buffer_put_def init_send_or_sim_def plain_sender_def)
  also have "\<dots> = Some (True, rm', nc, t')"
    by (subst send_loop.simps) (simp add: p(1))
  finally show ?thesis using p(2-4) by blast
qed

section \<open>What a receiver hears\<close>

text \<open>The samples a driver delivers for pulses and spaces in turn; \<open>b\<close>: the first is a pulse.\<close>

fun alternate :: "bool \<Rightarrow> lirc_t list \<Rightarrow> lirc_t list" where
  "alternate b [] = []"
| "alternate b (x # xs) = (if b then pulse_sample x else x) # alternate (\<not> b) xs"

lemma length_alternate [simp]: "length (alternate b xs) = length xs"
  by (induction xs arbitrary: b) simp_all

lemma nth_alternate:
  "i < length xs \<Longrightarrow> alternate b xs ! i = (if even i = b then pulse_sample (xs ! i) else xs ! i)"
  by (induction xs arbitrary: b i) (auto simp: nth_Cons split: nat.split)

text \<open>Durations that agree with a signal within the remote's tolerance.\<close>

definition hears :: "driver \<Rightarrow> ir_remote \<Rightarrow> lirc_t list \<Rightarrow> lirc_t list \<Rightarrow> bool" where
  "hears d rm ms es \<longleftrightarrow> list_all2 (\<lambda>m e. duration m \<and> expect d rm m e) ms es"

text \<open>The samples of one signal: the space before it, the signal, the space after it.\<close>

definition samples_of :: "lirc_t \<Rightarrow> lirc_t list \<Rightarrow> lirc_t \<Rightarrow> lirc_t list" where
  "samples_of g ms v = g # alternate True ms @ [v]"

lemma hears_heard:
  assumes "hears d rm ms es"
  shows "heard d rm (samples_of g ms v) 1 es"
proof -
  have len: "length ms = length es" using assms by (auto simp: hears_def dest: list_all2_lengthD)
  have "duration (ms ! i) \<and> expect d rm (ms ! i) (es ! i)" if "i < length es" for i
    using assms that len by (simp add: hears_def list_all2_conv_all_nth)
  moreover have "samples_of g ms v ! (1 + i) = (if even i then pulse_sample (ms ! i) else ms ! i)"
    if "i < length es" for i
    using that len by (simp add: samples_of_def nth_append nth_alternate)
  ultimately show ?thesis
    using len by (auto simp: heard_def pulse_at_def space_at_def samples_of_def)
qed

lemma alternate_values:
  "\<forall>x \<in> set xs. duration x \<Longrightarrow> map (\<lambda>v. v AND PULSE_MASK) (alternate b xs) = xs"
  by (induction xs arbitrary: b) (auto simp: duration_pulse duration_space)

lemma samples_sum:
  assumes "hears d rm ms es"
  shows "tape_sum (samples_of g ms v) (1 + length es) - tape_sum (samples_of g ms v) 1 = sum_list ms"
proof -
  have "length ms = length es" "\<forall>x \<in> set ms. duration x"
    using assms by (auto simp: hears_def list_all2_conv_all_nth in_set_conv_nth)
  then show ?thesis by (simp add: tape_sum_def samples_of_def alternate_values)
qed

lemma samples_ends:
  assumes "duration g" "duration v"
  shows "space_at (samples_of g ms v) 0 g" "space_at (samples_of g ms v) (1 + length ms) v"
  using assms by (simp_all add: space_at_def samples_of_def nth_append)

text \<open>Together: what is heard of a signal that was sent is decoded as the code that was sent.\<close>

lemma decode_hears:
  assumes r: "space_remote rm" "separated d rm" "\<not> has_toggle_mask rm"
    and dr: "reads_samples d" "\<not> (has_repeat rm \<and> is_last)"
    and md: "pre_data rm AND gen_mask (pre_data_bits rm) = pre_data rm"
      "post_data rm AND gen_mask (post_data_bits rm) = post_data rm"
    and s: "holds_samples (samples_of g ms v) s" "duration g" "duration v"
      "\<And>l. lst = Some l \<Longrightarrow> expect_at_least d l g (min_remaining_gap l)"
    and h: "hears d rm ms (signal_of rm cd)"
    and gp: "gap_left rm (sum_list ms) \<le> v" "0 \<le> min_gap rm" "min_gap rm < 0x01000000"
      "sum_list ms < 0x01000000"
  shows "\<exists>ctx s'. receive_decode d lst is_last rm s = Some (True, ctx, rm, s')
    \<and> ctx_code ctx = cd AND gen_mask (bits rm)
    \<and> ctx_pre ctx = (if has_pre rm then pre_data rm else 0)
    \<and> ctx_post ctx = (if has_post rm then post_data rm else 0)
    \<and> ctx_repeat_flag ctx = ((\<not> has_repeat rm \<or> u32 (reps rm) < min_code_repeat rm)
         \<and> expect_at_most d rm g (max_remaining_gap rm))"
proof -
  have len: "length ms = length (signal_of rm cd)" and dur: "\<forall>x \<in> set ms. duration x"
    using h by (auto simp: hears_def list_all2_conv_all_nth in_set_conv_nth)
  have nn: "0 \<le> sum_list ms" using dur by (intro sum_list_nonneg) (auto simp: duration_def)
  show ?thesis
    using s(4) gp nn samples_sum [OF h, of g v]
    by (intro decode_heard [OF r dr md s(1) samples_ends(1) [OF s(2,3)] _ hears_heard [OF h] refl
      samples_ends(2) [OF s(2,3), of ms, unfolded len]]) simp_all
qed

end
