(* ===== verification/Release.thy ===== *)
theory Release
  imports IR_Ops
begin

text \<open>
  \<open>lib/release.c\<close>: the button press whose release is still to be reported, and the time at
  which it is due. The static variables of the file are the record \<open>release\<close>; a pointer to
  a remote is its index in the list of remotes.
\<close>

record release =
  release_time :: timeval
  release_remote :: "nat option"
  release_ncode :: "ncode_ref option"
  release_code :: ir_code
  release_reps :: int
  release_gap :: lirc_t
  release_remote2 :: "nat option"
  release_ncode2 :: "ncode_ref option"
  release_code2 :: ir_code

definition release_start :: release where
  "release_start = \<lparr>release_time = zero_timeval, release_remote = None, release_ncode = None,
     release_code = 0, release_reps = 0, release_gap = 0, release_remote2 = None,
     release_ncode2 = None, release_code2 = 0\<rparr>"

text \<open>\<open>timeradd\<close> of the C library: one carry from microseconds to seconds.\<close>

definition timeradd :: "timeval \<Rightarrow> timeval \<Rightarrow> timeval" where
  "timeradd a b =
     (let sec = tv_sec a + tv_sec b; usec = tv_usec a + tv_usec b
      in if usec \<ge> 1000000 then \<lparr>tv_sec = sec + 1, tv_usec = usec - 1000000\<rparr>
         else \<lparr>tv_sec = sec, tv_usec = usec\<rparr>)"

text \<open>\<open>now\<close> is what \<open>gettimeofday\<close> returns.\<close>

definition register_input :: "timeval \<Rightarrow> release \<Rightarrow> release" where
  "register_input now r =
     (if release_remote r = None then r
      else r\<lparr>release_time := timeradd now \<lparr>tv_sec = 0, tv_usec = release_gap r\<rparr>\<rparr>)"

text \<open>The time after which a button counts as released: a signal, a gap and a margin.\<close>

definition release_gap_of :: "driver \<Rightarrow> ir_remote \<Rightarrow> lirc_t" where
  "release_gap_of d rm =
     i32 (upper_limit d rm (i32 (max_total_signal_length rm - min_gap_length rm))
          + receive_timeout (upper_limit d rm (min_gap_length rm)) + 10000)"

definition register_button_press ::
  "driver \<Rightarrow> ir_remote \<Rightarrow> nat \<Rightarrow> ncode_ref option \<Rightarrow> ir_code \<Rightarrow> int \<Rightarrow> timeval \<Rightarrow> release \<Rightarrow> release" where
  "register_button_press d rm ri nc cd rp now r =
     (let r = (if rp = 0 \<and> release_remote r \<noteq> None
               then r\<lparr>release_remote2 := release_remote r, release_ncode2 := release_ncode r,
                      release_code2 := release_code r\<rparr>
               else r);
          r = r\<lparr>release_remote := Some ri, release_ncode := nc, release_code := cd,
                release_reps := rp, release_gap := release_gap_of d rm\<rparr>
      in register_input now r)"

text \<open>The names are looked up in the list of remotes.\<close>

definition get_release_data :: "ir_remote list \<Rightarrow> release \<Rightarrow> string option \<times> string \<times> int" where
  "get_release_data rms r = (case release_remote r of
     None \<Rightarrow> (Some ''(NULL)'', ''(NULL)'', 0)
   | Some ri \<Rightarrow> (rname (rms ! ri),
       (case release_ncode r of None \<Rightarrow> '''' | Some p \<Rightarrow> nname (deref (rms ! ri) p)),
       release_reps r))"

definition get_release_time :: "release \<Rightarrow> timeval" where
  "get_release_time r = release_time r"

end
