(* ===== verification/IR_Remote.thy ===== *)
theory IR_Remote
  imports Receive_Decode Release
begin

text \<open>
  \<open>lib/ir_remote.c\<close>: looking remotes and codes up, splitting a received code into pre data,
  code and post data, estimating gaps, recognising the button a code belongs to (with toggle
  masks, repeat masks, multi-code buttons and dynamic codes), counting repetitions, and
  \<open>decode_all\<close>, which tries every remote and formats the message for the clients.

  The global pointers of the file are the record \<open>lirc_state\<close>; a pointer to a remote is its
  index in \<open>remotes\<close>.
\<close>

section \<open>Elapsed time, matching\<close>

definition time_left :: "timeval \<Rightarrow> timeval \<Rightarrow> lirc_t \<Rightarrow> lirc_t" where
  "time_left cur lst g =
     (let diff = time_elapsed lst cur in if diff < u64 g then i32 (u64 g - diff) else 0)"

definition match_ir_code :: "ir_remote \<Rightarrow> ir_code \<Rightarrow> ir_code \<Rightarrow> bool" where
  "match_ir_code rm a b \<longleftrightarrow>
     ignore_mask rm OR a = ignore_mask rm OR b
     \<or> ignore_mask rm OR a = ignore_mask rm OR (b XOR toggle_bit_mask rm)"

section \<open>Lists of remotes\<close>

text \<open>The loop of \<open>get_frequency_range\<close> from the second remote on, and the function.\<close>

fun freq_scan :: "ir_remote list \<Rightarrow> int \<Rightarrow> int \<Rightarrow> int \<times> int" where
  "freq_scan [] mn mx = (mn, mx)"
| "freq_scan (r # rs) mn mx =
     (if freq r \<noteq> 0 then
        (if freq r > mx then freq_scan rs mn (freq r)
         else if freq r < mn then freq_scan rs (freq r) mx
         else freq_scan rs mn mx)
      else freq_scan rs mn mx)"

fun get_frequency_range :: "ir_remote list \<Rightarrow> int \<times> int" where
  "get_frequency_range [] = (0, 0)"
| "get_frequency_range (r # rs) = freq_scan rs (freq r) (freq r)"

record filter_params =
  fp_max_gap :: lirc_t
  fp_min_pulse :: lirc_t
  fp_min_space :: lirc_t
  fp_max_pulse :: lirc_t
  fp_max_space :: lirc_t

definition filter_step :: "driver \<Rightarrow> ir_remote \<Rightarrow> filter_params \<Rightarrow> filter_params" where
  "filter_step d r p =
     (let v = upper_limit d r (max_gap_length r);
          p = (if v > fp_max_gap p then p\<lparr>fp_max_gap := v\<rparr> else p);
          v = lower_limit d r (min_pulse_length r);
          p = (if fp_min_pulse p = 0 \<or> v < fp_min_pulse p then p\<lparr>fp_min_pulse := v\<rparr> else p);
          v = lower_limit d r (min_space_length r);
          p = (if fp_min_space p = 0 \<or> v > fp_min_space p then p\<lparr>fp_min_space := v\<rparr> else p);
          v = upper_limit d r (max_pulse_length r);
          p = (if v > fp_max_pulse p then p\<lparr>fp_max_pulse := v\<rparr> else p);
          v = upper_limit d r (max_space_length r)
      in (if v > fp_max_space p then p\<lparr>fp_max_space := v\<rparr> else p))"

definition get_filter_parameters :: "driver \<Rightarrow> ir_remote list \<Rightarrow> filter_params" where
  "get_filter_parameters d rs = fold (filter_step d) rs
     \<lparr>fp_max_gap = 0, fp_min_pulse = 0, fp_min_space = 0, fp_max_pulse = 0, fp_max_space = 0\<rparr>"

text \<open>A remote pointer is in the list when it is the index of an element.\<close>

definition is_in_remotes :: "ir_remote list \<Rightarrow> nat option \<Rightarrow> nat option" where
  "is_in_remotes rs p = (case p of Some i \<Rightarrow> if i < length rs then Some i else None | None \<Rightarrow> None)"

text \<open>\<open>get_ir_remote\<close>: the internal remote for the name \<open>lirc\<close>, else the first remote whose
  name matches, ignoring case.\<close>

datatype remote_ref = RInternal | RIndex nat

definition lirc_internal_remote :: ir_remote where
  "lirc_internal_remote = zero_remote\<lparr>rname := Some ''lirc''\<rparr>"

definition has_name :: "string \<Rightarrow> string option \<Rightarrow> bool" where
  "has_name nm n = (case n of Some x \<Rightarrow> strcaseeq x nm | None \<Rightarrow> False)"

definition get_ir_remote :: "ir_remote list \<Rightarrow> string \<Rightarrow> remote_ref option" where
  "get_ir_remote rs nm =
     (if nm = ''lirc'' then Some RInternal
      else map_option RIndex (find_index (\<lambda>r. has_name nm (rname r)) rs))"

definition get_code_by_name :: "ir_remote \<Rightarrow> string \<Rightarrow> ncode_ref option" where
  "get_code_by_name rm nm = (case codes rm of
     None \<Rightarrow> None
   | Some cs \<Rightarrow>
       (if rname rm = Some ''lirc'' then (if nm = ''__EOF'' then Some NEof else None)
        else map_option NCode (find_index (\<lambda>c. strcaseeq (nname c) nm) cs)))"

section \<open>Splitting a code, estimating the gap\<close>

definition map_code :: "ir_remote \<Rightarrow> decode_ctx \<Rightarrow> int \<Rightarrow> ir_code \<Rightarrow> int \<Rightarrow> ir_code \<Rightarrow> int \<Rightarrow> ir_code
    \<Rightarrow> bool \<times> decode_ctx" where
  "map_code rm ctx pre_bits pre bts cd post_bits post =
     (if i32 (pre_bits + bts + post_bits) \<noteq> bit_count rm then (False, ctx)
      else
        (let all = pre AND gen_mask pre_bits;
             all = shl all bts;
             all = all OR (cd AND gen_mask bts);
             all = shl all post_bits;
             all = all OR (post AND gen_mask post_bits);
             post' = all AND gen_mask (post_data_bits rm);
             all = shr all (post_data_bits rm);
             cd' = all AND gen_mask (bits rm);
             all = shr all (bits rm)
         in (True, ctx\<lparr>ctx_post := post', ctx_code := cd',
                       ctx_pre := all AND gen_mask (pre_data_bits rm)\<rparr>)))"

definition map_gap :: "driver \<Rightarrow> ir_remote \<Rightarrow> decode_ctx \<Rightarrow> timeval \<Rightarrow> timeval \<Rightarrow> lirc_t \<Rightarrow> decode_ctx" where
  "map_gap d rm ctx start lst signal_length =
     (let rep = (if tv_sec start - tv_sec lst \<ge> 2 then False
                 else expect_at_most d rm (i32 (time_elapsed lst start)) (max_remaining_gap rm));
          ctx = ctx\<lparr>ctx_repeat_flag := rep\<rparr>
      in if is_const rm then
           (if min_gap rm > signal_length then
              ctx\<lparr>ctx_min_remaining_gap := i32 (min_gap rm - signal_length),
                  ctx_max_remaining_gap := i32 (max_gap rm - signal_length)\<rparr>
            else
              ctx\<lparr>ctx_min_remaining_gap := 0,
                  ctx_max_remaining_gap :=
                    (if max_gap rm > signal_length then i32 (max_gap rm - signal_length) else 0)\<rparr>)
         else ctx\<lparr>ctx_min_remaining_gap := min_gap rm, ctx_max_remaining_gap := max_gap rm\<rparr>)"

section \<open>Buttons that send several codes\<close>

text \<open>The inner loop of \<open>find_longest_match\<close>: compare the codes from the start (\<open>prev\<close>) with
  those from node \<open>i\<close> up to the node \<open>c\<close> that \<open>current\<close> points to. The pointer \<open>next\<close> of the
  code runs through the nodes \<open>i, i + 1, \<dots>\<close> and stops at \<open>current\<close>.\<close>

function flm_compare :: "ir_ncode \<Rightarrow> nat option \<Rightarrow> nat \<Rightarrow> nat \<Rightarrow> bool \<times> nat option" where
  "flm_compare nc prev i c =
     (if i < c then
        (if get_ir_code nc prev \<noteq> get_ir_code nc (Some i) then (False, prev)
         else flm_compare nc (get_next_ir_code_node nc prev) (i + 1) c)
      else (True, prev))"
  by pat_completeness auto
termination
  by (relation "measure (\<lambda>(nc, prev, i, c). c - i)") auto

declare flm_compare.simps [simp del]

text \<open>The outer loop, from node \<open>i\<close> to \<open>current\<close>. \<open>flag\<close> is the C variable, which is set
  to 1 once, before the loop. The result is the new \<open>current\<close> when a sequence matches.\<close>

function flm_search :: "ir_remote \<Rightarrow> ir_ncode \<Rightarrow> ir_code \<Rightarrow> bool \<Rightarrow> nat \<Rightarrow> nat \<Rightarrow> (nat option) option" where
  "flm_search rm nc all flag i c =
     (if i \<le> c then
        (let (eq, prev) = flm_compare nc None i c;
             flag = (flag \<and> eq)
         in if flag \<and> match_ir_code rm (gen_ir_code rm (pre_data rm) (get_ir_code nc prev) (post_data rm)) all
            then Some (get_next_ir_code_node nc prev)
            else flm_search rm nc all flag (i + 1) c)
      else None)"
  by pat_completeness auto
termination
  by (relation "measure (\<lambda>(rm, nc, all, flag, i, c). Suc c - i)") auto

declare flm_search.simps [simp del]

text \<open>\<open>find_longest_match\<close>: the code with its new \<open>current\<close>, and whether a sequence matched.\<close>

definition find_longest_match :: "ir_remote \<Rightarrow> ir_ncode \<Rightarrow> ir_code \<Rightarrow> ir_ncode \<times> bool" where
  "find_longest_match rm nc all =
     (case (nexts nc, current nc) of
        (x # xs, Some c) \<Rightarrow>
          (case flm_search rm nc all True 0 c of
             Some cur \<Rightarrow> (nc\<lparr>current := cur\<rparr>, True)
           | None \<Rightarrow> (nc\<lparr>current := None\<rparr>, False))
      | _ \<Rightarrow> (nc\<lparr>current := None\<rparr>, False))"

section \<open>Recognising the button\<close>

text \<open>The loop that applies \<open>toggle_mask\<close>: bit by bit to the post data, the code and the
  pre data (\<open>affected\<close>), \<open>cur\<close> counting within the affected part.\<close>

datatype affected = APost | ACode | APre

function toggle_loop :: "ir_remote \<Rightarrow> int \<Rightarrow> int \<Rightarrow> affected \<Rightarrow> ir_code \<Rightarrow> ir_code \<times> ir_code \<times> ir_code
    \<Rightarrow> ir_code \<times> ir_code \<times> ir_code" where
  "toggle_loop rm b cur aff msk (pre, cd, post) =
     (if b < bit_count rm then
        (let (aff, cur) = (if b = post_data_bits rm then (ACode, 0) else (aff, cur));
             (aff, cur) = (if b = i32 (post_data_bits rm + bits rm) then (APre, 0) else (aff, cur));
             x = shl (msk AND 1) cur;
             v = (case aff of
                    APost \<Rightarrow> (pre, cd, post XOR x)
                  | ACode \<Rightarrow> (pre, cd XOR x, post)
                  | APre \<Rightarrow> (pre XOR x, cd, post))
         in toggle_loop rm (b + 1) (cur + 1) aff (shr msk 1) v)
      else (pre, cd, post))"
  by pat_completeness auto
termination
  by (relation "measure (\<lambda>(rm, b, cur, aff, msk, v). nat (bit_count rm - b))") auto

declare toggle_loop.simps [simp del]

text \<open>\<open>pre_mask\<close> and \<open>post_mask\<close>.\<close>

definition high_part :: "ir_remote \<Rightarrow> ir_code \<Rightarrow> ir_code" where
  "high_part rm msk = shr msk (bits rm + post_data_bits rm)"

definition low_part :: "ir_remote \<Rightarrow> ir_code \<Rightarrow> ir_code" where
  "low_part rm msk = msk AND gen_mask (post_data_bits rm)"

definition pre_mask_of :: "ir_remote \<Rightarrow> ir_code" where
  "pre_mask_of rm =
     (if has_toggle_bit_mask rm then high_part rm (toggle_bit_mask rm) else 0)
     OR (if has_ignore_mask rm then high_part rm (ignore_mask rm) else 0)"

definition post_mask_of :: "ir_remote \<Rightarrow> ir_code" where
  "post_mask_of rm =
     (if has_toggle_bit_mask rm then low_part rm (toggle_bit_mask rm) else 0)
     OR (if has_ignore_mask rm then low_part rm (ignore_mask rm) else 0)"

text \<open>The variables \<open>found\<close>, \<open>found_code\<close> and \<open>have_code\<close>, and one round of the loop over
  the codes.\<close>

record match_vars =
  mv_found :: "ncode_ref option"
  mv_found_code :: bool
  mv_have_code :: bool

definition advance_current :: "ir_ncode \<Rightarrow> ir_ncode" where
  "advance_current nc =
     (if nexts nc \<noteq> [] then nc\<lparr>current := get_next_ir_code_node nc (current nc)\<rparr> else nc)"

definition code_matches :: "ir_remote \<Rightarrow> bool \<Rightarrow> ir_code \<Rightarrow> ir_ncode \<Rightarrow> bool" where
  "code_matches rm rep all nc \<longleftrightarrow>
     (let next_all = gen_ir_code rm (pre_data rm) (get_ir_code nc (current nc)) (post_data rm)
      in match_ir_code rm next_all all
         \<or> (rep \<and> has_repeat_mask rm \<and> match_ir_code rm next_all (all XOR repeat_mask rm)))"

definition match_step :: "ir_remote \<Rightarrow> bool \<Rightarrow> ir_code \<Rightarrow> nat \<Rightarrow> ir_ncode \<Rightarrow> match_vars
    \<Rightarrow> ir_ncode \<times> match_vars" where
  "match_step rm rep all i nc v =
     (if code_matches rm rep all nc then
        (let nc = advance_current nc;
             v = v\<lparr>mv_found_code := True\<rparr>
         in (nc, if \<not> mv_have_code v
                 then v\<lparr>mv_found := Some (NCode i), mv_have_code := (current nc = None)\<rparr>
                 else v))
      else
        (let (nc, hit) = find_longest_match rm nc all
         in (nc, if hit then
                   v\<lparr>mv_found_code := True,
                     mv_found := (if \<not> mv_have_code v then Some (NCode i) else mv_found v)\<rparr>
                 else v)))"

fun match_codes :: "ir_remote \<Rightarrow> bool \<Rightarrow> ir_code \<Rightarrow> nat \<Rightarrow> ir_ncode list \<Rightarrow> match_vars
    \<Rightarrow> ir_ncode list \<times> match_vars" where
  "match_codes rm rep all i [] v = ([], v)"
| "match_codes rm rep all i (nc # ncs) v =
     (let (nc, v) = match_step rm rep all i nc v;
          (ncs, v) = match_codes rm rep all (i + 1) ncs v
      in (nc # ncs, v))"

text \<open>An unknown code is remembered in one of two dynamic codes.\<close>

definition use_dyncode :: "ir_remote \<Rightarrow> ir_code \<Rightarrow> ncode_ref \<times> ir_remote" where
  "use_dyncode rm cd =
     (let rm = (if code (deref rm (NDyn (dyncode rm))) \<noteq> cd
                then rm\<lparr>dyncode := (dyncode rm + 1) mod 2\<rparr> else rm)
      in (NDyn (dyncode rm), upd_ncode rm (NDyn (dyncode rm)) (\<lambda>nc. nc\<lparr>code := cd\<rparr>)))"

text \<open>The three parts of the code with the toggle mask undone.\<close>

definition untoggle :: "ir_remote \<Rightarrow> ir_code \<times> ir_code \<times> ir_code \<Rightarrow> ir_code \<times> ir_code \<times> ir_code" where
  "untoggle rm v =
     (if has_toggle_mask rm \<and> toggle_mask_state rm mod 2 \<noteq> 0
      then toggle_loop rm 0 0 APost (toggle_mask rm) v else v)"

text \<open>Pre data or post data of another remote.\<close>

definition foreign_data :: "ir_remote \<Rightarrow> ir_code \<Rightarrow> ir_code \<Rightarrow> bool" where
  "foreign_data rm pre post \<longleftrightarrow>
     (has_pre rm \<and> pre OR pre_mask_of rm \<noteq> pre_data rm OR pre_mask_of rm)
     \<or> (has_post rm \<and> post OR post_mask_of rm \<noteq> post_data rm OR post_mask_of rm)"

text \<open>The code of a repeat with the repeat mask undone.\<close>

definition without_repeat :: "ir_remote \<Rightarrow> bool \<Rightarrow> ir_code \<Rightarrow> ir_code" where
  "without_repeat rm rep all = (if rep \<and> has_repeat_mask rm then all XOR repeat_mask rm else all)"

text \<open>The search among the codes of the remote, and the dynamic codes.\<close>

definition search_codes :: "ir_remote \<Rightarrow> bool \<Rightarrow> ir_code \<Rightarrow> ir_remote \<times> match_vars" where
  "search_codes rm rep all =
     (let v = \<lparr>mv_found = None, mv_found_code = False, mv_have_code = False\<rparr>
      in case codes rm of
           None \<Rightarrow> (rm, v)
         | Some cs \<Rightarrow> (let (cs, v) = match_codes rm rep all 0 cs v in (rm\<lparr>codes := Some cs\<rparr>, v)))"

definition try_dyncode :: "bool \<Rightarrow> ir_code \<Rightarrow> ir_remote \<times> match_vars \<Rightarrow> ir_remote \<times> match_vars" where
  "try_dyncode dyn cd rv =
     (let (rm, v) = rv
      in if \<not> mv_found_code v \<and> dyn then
           (let (p, rm) = use_dyncode rm cd in (rm, v\<lparr>mv_found := Some p, mv_found_code := True\<rparr>))
         else (rm, v))"

text \<open>With a toggle mask a button counts only when its two halves name the same button.\<close>

definition toggle_result :: "ir_remote \<Rightarrow> match_vars \<Rightarrow> ncode_ref option \<times> ir_remote" where
  "toggle_result rm v =
     (if mv_found_code v \<and> mv_found v \<noteq> None \<and> has_toggle_mask rm then
        (if toggle_mask_state rm mod 2 = 0 then (mv_found v, rm\<lparr>toggle_code := mv_found v\<rparr>)
         else if mv_found v \<noteq> toggle_code rm then (None, rm\<lparr>toggle_code := None\<rparr>)
         else (mv_found v, rm\<lparr>toggle_code := None\<rparr>))
      else (mv_found v, rm))"

text \<open>\<open>get_code\<close>: the button (None for NULL), the state of the toggle bits of the code, and
  the remote with its new state.\<close>

definition get_code :: "bool \<Rightarrow> ir_remote \<Rightarrow> ir_code \<Rightarrow> ir_code \<Rightarrow> ir_code \<Rightarrow> bool
    \<Rightarrow> ncode_ref option \<times> ir_code \<times> ir_remote" where
  "get_code dyn rm pre cd post rep =
     (let (pre, cd, post) = untoggle rm (pre, cd, post)
      in if foreign_data rm pre post then (None, 0, rm)
         else
           (let all = without_repeat rm rep (gen_ir_code rm pre cd post);
                (rm', v) = try_dyncode dyn cd (search_codes rm rep all);
                (found, rm') = toggle_result rm' v
            in (found, all AND toggle_bit_mask rm, rm')))"

end
