(* ===== verification/Decode_All.thy ===== *)
theory Decode_All
  imports IR_Remote
begin

text \<open>
  The second half of \<open>lib/ir_remote.c\<close>: the bookkeeping of a recognised button
  (\<open>set_code\<close>), the message sent to the clients (\<open>write_message\<close>), \<open>decode_all\<close>, and
  \<open>send_ir_ncode\<close>.

  The decoder of the current driver (\<open>curr_driver->decode_func\<close>) is the argument \<open>decode\<close>:
  from \<open>last_remote\<close>, whether that is the remote at hand, the remote and the receive state it
  gives the C result, the context, the remote and the new state (None: the call does not
  return). For the drivers that use the library's decoder it is \<open>receive_decode d\<close>.
\<close>

section \<open>Bookkeeping\<close>

text \<open>The code reported for a button: pre data, code and post data.\<close>

definition full_code :: "ir_remote \<Rightarrow> ncode_ref \<Rightarrow> ir_code" where
  "full_code rm p =
     (let c = (if has_pre rm then shl (pre_data rm) (bits rm) else 0);
          c = c OR code (deref rm p);
          c = (if has_post rm then shl c (post_data_bits rm) OR post_data rm else c)
      in if flags rm AND COMPAT_REVERSE \<noteq> 0 then reverse c (bit_count rm) else c)"

text \<open>Whether the code counts as a repetition of the last one.\<close>

definition is_repetition :: "ir_remote \<Rightarrow> bool \<Rightarrow> ncode_ref \<Rightarrow> ir_code \<Rightarrow> bool \<Rightarrow> timeval \<Rightarrow> bool" where
  "is_repetition rm same p tbs rep now \<longleftrightarrow>
     same
     \<and> (last_code rm = Some p \<or> (nexts (deref rm p) \<noteq> [] \<and> current (deref rm p) \<noteq> None))
     \<and> rep
     \<and> time_elapsed (last_send rm) now < 1000000
     \<and> (\<not> has_toggle_bit_mask rm \<or> tbs = toggle_bit_mask_state rm)"

text \<open>\<open>set_code\<close>: \<open>same\<close> is \<open>remote == last_decoded\<close>, \<open>now\<close> the time of day. The caller
  sets \<open>last_remote\<close> and \<open>last_decoded\<close>.\<close>

definition count_repetition :: "ir_remote \<Rightarrow> ncode_ref \<Rightarrow> ir_remote" where
  "count_repetition rm p =
     (if has_toggle_mask rm then
        (let rm = rm\<lparr>toggle_mask_state := i32 (toggle_mask_state rm + 1)\<rparr>
         in if toggle_mask_state rm = 4
            then rm\<lparr>reps := i32 (reps rm + 1), toggle_mask_state := 2\<rparr> else rm)
      else if current (deref rm p) = None then rm\<lparr>reps := i32 (reps rm + 1)\<rparr>
      else rm)"

definition start_press :: "ir_remote \<Rightarrow> ncode_ref \<Rightarrow> ir_code \<Rightarrow> ir_remote" where
  "start_press rm p tbs =
     (let rm = rm\<lparr>reps := (if nexts (deref rm p) \<noteq> [] \<and> current (deref rm p) = None then 1 else 0)\<rparr>;
          rm = (if has_toggle_mask rm then rm\<lparr>toggle_mask_state := 1, toggle_code := Some p\<rparr> else rm)
      in if has_toggle_bit_mask rm then rm\<lparr>toggle_bit_mask_state := tbs\<rparr> else rm)"

definition set_code :: "bool \<Rightarrow> ir_remote \<Rightarrow> ncode_ref \<Rightarrow> ir_code \<Rightarrow> decode_ctx \<Rightarrow> timeval
    \<Rightarrow> ir_code \<times> decode_ctx \<times> ir_remote" where
  "set_code same rm p tbs ctx now =
     (let (rm, ctx) = (if release_detected rm
                       then (rm\<lparr>release_detected := False\<rparr>, ctx\<lparr>ctx_repeat_flag := False\<rparr>)
                       else (rm, ctx));
          rm = (if is_repetition rm same p tbs (ctx_repeat_flag ctx) now
                then count_repetition rm p else start_press rm p tbs);
          rm = (if current (deref rm p) = None then rm\<lparr>last_code := Some p\<rparr> else rm);
          rm = rm\<lparr>last_send := now, min_remaining_gap := ctx_min_remaining_gap ctx,
                  max_remaining_gap := ctx_max_remaining_gap ctx\<rparr>;
          cd = full_code rm p
      in (cd, ctx\<lparr>ctx_code := cd\<rparr>, rm))"

section \<open>The message\<close>

definition hex_digit :: "nat \<Rightarrow> char" where
  "hex_digit n = ''0123456789abcdef'' ! (n mod 16)"

fun to_hex :: "nat \<Rightarrow> string" where
  "to_hex n = (if n < 16 then [hex_digit n] else to_hex (n div 16) @ [hex_digit n])"

declare to_hex.simps [simp del]

text \<open>The conversion \<open>%0wx\<close>.\<close>

definition fmt_hex :: "nat \<Rightarrow> nat \<Rightarrow> string" where
  "fmt_hex w n = replicate (w - length (to_hex n)) (CHR ''0'') @ to_hex n"

definition message_text :: "string \<Rightarrow> string \<Rightarrow> string option \<Rightarrow> ir_code \<Rightarrow> int \<Rightarrow> string" where
  "message_text remote_name button_name button_suffix cd rp =
     fmt_hex 16 (unat cd) @ '' '' @ fmt_hex 2 (nat (u32 rp)) @ '' '' @ button_name
     @ (case button_suffix of None \<Rightarrow> '''' | Some x \<Rightarrow> x) @ '' '' @ remote_name @ [char_of (10::nat)]"

text \<open>\<open>snprintf\<close>: the length of the whole text, and what fits into the buffer.\<close>

definition write_message :: "nat \<Rightarrow> string \<Rightarrow> string \<Rightarrow> string option \<Rightarrow> ir_code \<Rightarrow> int \<Rightarrow> nat \<times> string" where
  "write_message sz remote_name button_name button_suffix cd rp =
     (let txt = message_text remote_name button_name button_suffix cd rp
      in (length txt, take (sz - 1) txt))"

section \<open>The global state\<close>

abbreviation (input) PACKET_SIZE :: nat where "PACKET_SIZE \<equiv> 256"

definition PACKET_EOF :: string where
  "PACKET_EOF = ''0000000008000000 00 __EOF lirc'' @ [char_of (10::nat)]"

record lirc_state =
  remotes :: "ir_remote list"
  last_remote :: "nat option"
  last_decoded :: "nat option"
  decoding :: bool
  use_dyncodes :: bool
  receiver :: rstate
  rel :: release

type_synonym decoder = "ir_remote option \<Rightarrow> bool \<Rightarrow> ir_remote \<Rightarrow> rstate \<Rightarrow> decode_result option"

definition ir_remote_init :: "bool \<Rightarrow> lirc_state \<Rightarrow> lirc_state" where
  "ir_remote_init dyn g = g\<lparr>use_dyncodes := dyn\<rparr>"

definition upd_remote :: "nat \<Rightarrow> (ir_remote \<Rightarrow> ir_remote) \<Rightarrow> lirc_state \<Rightarrow> lirc_state" where
  "upd_remote i f g = g\<lparr>remotes := (remotes g)[i := f (remotes g ! i)]\<rparr>"

text \<open>After a complete button: every code of every remote starts from its first code again.
  \<open>None\<close>: a remote without a \<open>codes\<close> array, whose NULL pointer the loop dereferences.\<close>

definition reset_currents :: "ir_remote list \<Rightarrow> ir_remote list option" where
  "reset_currents rs =
     (if list_all (\<lambda>r. codes r \<noteq> None) rs
      then Some (map (\<lambda>r. r\<lparr>codes := map_option (map (\<lambda>nc. nc\<lparr>current := None\<rparr>)) (codes r)\<rparr>) rs)
      else None)"

text \<open>All buttons start from their first code again; with XMP the button just pressed goes on
  with its second one. \<open>p\<close> is the button, the result is \<open>last_code\<close> and the new state.\<close>

definition restart_codes :: "nat \<Rightarrow> ncode_ref \<Rightarrow> lirc_state \<Rightarrow> (ncode_ref \<times> lirc_state) option" where
  "restart_codes i p g = (case reset_currents (remotes g) of
     None \<Rightarrow> None
   | Some rs \<Rightarrow>
       (let g = g\<lparr>remotes := rs\<rparr>;
            lc = (case last_code (remotes g ! i) of Some q \<Rightarrow> q | None \<Rightarrow> p)
        in Some (lc, if is_xmp (remotes g ! i)
                     then upd_remote i (\<lambda>r. upd_ncode r lc (\<lambda>nc. nc\<lparr>current := first_node nc\<rparr>)) g
                     else g)))"

text \<open>The message for button \<open>lc\<close> of remote \<open>i\<close>, unless it is too long for the buffer.\<close>

definition emit_button :: "driver \<Rightarrow> nat \<Rightarrow> ncode_ref \<Rightarrow> ir_code \<Rightarrow> int \<Rightarrow> lirc_state
    \<Rightarrow> string option \<times> lirc_state" where
  "emit_button d i lc cd rp g =
     (let rm = remotes g ! i;
          (t, rc) = gettimeofday (receiver g);
          g = g\<lparr>receiver := rc, rel := register_button_press d rm i (Some lc) cd rp t (rel g),
                decoding := False\<rparr>;
          (len, msg) = write_message (PACKET_SIZE + 1)
            (case rname rm of Some n \<Rightarrow> n | None \<Rightarrow> [])
            (nname (deref rm lc)) (Some []) cd rp
      in (if len \<ge> PACKET_SIZE + 1 then None else Some msg, g))"

text \<open>What \<open>decode_all\<close> does once \<open>get_code\<close> has found the button \<open>p\<close> of remote \<open>i\<close>: the
  message to send, if any.\<close>

definition report_button :: "driver \<Rightarrow> nat \<Rightarrow> ncode_ref \<Rightarrow> ir_code \<Rightarrow> decode_ctx \<Rightarrow> lirc_state
    \<Rightarrow> (string option \<times> lirc_state) option" where
  "report_button d i p tbs ctx g =
     (let (now, rc) = gettimeofday (receiver g);
          (cd, ctx, rm) = set_code (last_decoded g = Some i) (remotes g ! i) p tbs ctx now;
          g = upd_remote i (\<lambda>_. rm) (g\<lparr>receiver := rc, last_remote := Some i, last_decoded := Some i\<rparr>)
      in if (has_toggle_mask rm \<and> toggle_mask_state rm mod 2 \<noteq> 0) \<or> current (deref rm p) \<noteq> None
         then Some (None, g\<lparr>decoding := False\<rparr>)
         else
           (case restart_codes i p g of
              None \<Rightarrow> None
            | Some (lc, g) \<Rightarrow>
                (let rm = remotes g ! i;
                     rp = i32 (reps rm - (if nexts (deref rm p) \<noteq> [] then 1 else 0))
                 in if rp > 0 \<and> rp \<le> suppress_repeat rm then Some (None, g\<lparr>decoding := False\<rparr>)
                    else Some (emit_button d i lc cd
                      (if rp > 0 then i32 (rp - suppress_repeat rm) else rp) g))))"

text \<open>The button of a decoded signal, None when the decoder failed.\<close>

definition button_of :: "bool \<Rightarrow> bool \<Rightarrow> decode_ctx \<Rightarrow> ir_remote
    \<Rightarrow> ncode_ref option \<times> ir_code \<times> ir_remote" where
  "button_of dyn ok ctx rm =
     (if ok then get_code dyn rm (ctx_pre ctx) (ctx_code ctx) (ctx_post ctx) (ctx_repeat_flag ctx)
      else (None, 0, rm))"

text \<open>The loop over the remotes, from remote \<open>i\<close> on.\<close>

function decode_from :: "driver \<Rightarrow> decoder \<Rightarrow> nat \<Rightarrow> lirc_state \<Rightarrow> (string option \<times> lirc_state) option" where
  "decode_from d decode i g =
     (if i < length (remotes g) then
        (case decode (map_option (\<lambda>j. remotes g ! j) (last_remote g)) (last_remote g = Some i)
                (remotes g ! i) (receiver g) of
           None \<Rightarrow> None
         | Some (ok, ctx, rm, rc) \<Rightarrow>
             (let g = upd_remote i (\<lambda>_. rm) (g\<lparr>receiver := rc\<rparr>);
                  (found, tbs, rm) = button_of (use_dyncodes g) ok ctx rm;
                  g = upd_remote i (\<lambda>_. rm) g
              in case found of
                   Some NEof \<Rightarrow> Some (Some PACKET_EOF, g)
                 | Some p \<Rightarrow> report_button d i p tbs ctx g
                 | None \<Rightarrow>
                     decode_from d decode (i + 1) (upd_remote i (\<lambda>r. r\<lparr>toggle_mask_state := 0\<rparr>) g)))
      else Some (None, g\<lparr>decoding := False, last_remote := None\<rparr>))"
  by pat_completeness auto
termination
  by (relation "measure (\<lambda>(d, decode, i, g). length (remotes g) - i)") (auto simp: upd_remote_def)

declare decode_from.simps [simp del]

definition decode_all :: "driver \<Rightarrow> decoder \<Rightarrow> lirc_state \<Rightarrow> (string option \<times> lirc_state) option" where
  "decode_all d decode g = decode_from d decode 0 (g\<lparr>decoding := True\<rparr>)"

section \<open>Sending\<close>

text \<open>
  \<open>send_ir_ncode\<close>: how long it sleeps (None when it does not), and the remote after the
  driver's \<open>send_func\<close> has returned \<open>ret\<close>. \<open>holds_repeat\<close> is
  \<open>repeat_remote != NULL && remote == repeat_remote\<close>. \<open>t0\<close> and \<open>t1\<close> are the times of day
  before and after sending.
\<close>

definition send_pause :: "ir_remote \<Rightarrow> ncode_ref \<Rightarrow> bool \<Rightarrow> bool \<Rightarrow> timeval \<Rightarrow> int option" where
  "send_pause rm p delay holds_repeat t0 =
     (if delay \<and> last_code rm \<noteq> None then
        (let usecs = time_left t0 (last_send rm) (i32 (min_remaining_gap rm * 2))
         in if u64 usecs > 0 \<and> (\<not> holds_repeat \<or> last_code rm \<noteq> Some p) then Some (u64 usecs) else None)
      else None)"

definition send_ir_ncode ::
  "(ir_remote \<Rightarrow> ncode_ref \<Rightarrow> bool \<times> ir_remote) \<Rightarrow> ir_remote \<Rightarrow> ncode_ref \<Rightarrow> bool \<Rightarrow> bool
    \<Rightarrow> timeval \<Rightarrow> timeval \<Rightarrow> int option \<times> bool \<times> ir_remote" where
  "send_ir_ncode send_func rm p delay holds_repeat t0 t1 =
     (let pause = send_pause rm p delay holds_repeat t0;
          (ret, rm) = send_func rm p
      in (pause, ret, if ret then rm\<lparr>last_send := t1, last_code := Some p\<rparr> else rm))"

end
