(* ===== verification/CStdlib.thy ===== *)
theory CStdlib
  imports Prelude
begin

text \<open>
  The parts of the C library the configuration reader uses: \<open>strtoul\<close>, \<open>strtoull\<close> and
  \<open>strtol\<close> with base 0 (\<open>unsigned long\<close> and \<open>long\<close> have 64 bits), \<open>strtok\<close> and \<open>fgets\<close>.
  A C string is a list of characters without NUL.
\<close>

section \<open>Numbers\<close>

definition isspace :: "char \<Rightarrow> bool" where
  "isspace c \<longleftrightarrow> (let n = of_char c :: nat in n = 32 \<or> (9 \<le> n \<and> n \<le> 13))"

definition digit_val :: "char \<Rightarrow> nat option" where
  "digit_val c = (let n = of_char c :: nat
     in if 48 \<le> n \<and> n \<le> 57 then Some (n - 48)
        else if 97 \<le> n \<and> n \<le> 122 then Some (n - 87)
        else if 65 \<le> n \<and> n \<le> 90 then Some (n - 55)
        else None)"

definition is_digit_of :: "nat \<Rightarrow> char \<Rightarrow> bool" where
  "is_digit_of base c \<longleftrightarrow> (case digit_val c of Some v \<Rightarrow> v < base | None \<Rightarrow> False)"

fun read_digits :: "nat \<Rightarrow> nat \<Rightarrow> string \<Rightarrow> nat \<times> string" where
  "read_digits base acc [] = (acc, [])"
| "read_digits base acc (c # cs) =
     (if is_digit_of base c then read_digits base (acc * base + the (digit_val c)) cs
      else (acc, c # cs))"

text \<open>The subject sequence of \<open>strtoul\<close> with base 0: \<open>Some (negative, magnitude, rest)\<close>, or
  None when there is none.\<close>

definition read_magnitude :: "string \<Rightarrow> (nat \<times> string) option" where
  "read_magnitude s = (case s of
     [] \<Rightarrow> None
   | c # cs \<Rightarrow>
       if c = CHR ''0'' then
         (case cs of
            x # h # r \<Rightarrow>
              (if (x = CHR ''x'' \<or> x = CHR ''X'') \<and> is_digit_of 16 h
               then Some (read_digits 16 0 (h # r)) else Some (read_digits 8 0 s))
          | _ \<Rightarrow> Some (read_digits 8 0 s))
       else if is_digit_of 10 c then Some (read_digits 10 0 s)
       else None)"

definition read_integer :: "string \<Rightarrow> (bool \<times> nat \<times> string) option" where
  "read_integer s =
     (let s = dropWhile isspace s;
          (neg, s) = (case s of
              c # cs \<Rightarrow> (if c = CHR ''-'' then (True, cs) else if c = CHR ''+'' then (False, cs)
                          else (False, s))
            | [] \<Rightarrow> (False, s))
      in map_option (\<lambda>(m, r). (neg, m, r)) (read_magnitude s))"

text \<open>Value, end pointer and whether \<open>errno\<close> is \<open>ERANGE\<close>.\<close>

definition strtoul :: "string \<Rightarrow> int \<times> string \<times> bool" where
  "strtoul s = (case read_integer s of
     None \<Rightarrow> (0, s, False)
   | Some (neg, m, r) \<Rightarrow>
       (if m \<ge> 2 ^ 64 then (2 ^ 64 - 1, r, True)
        else (u64 (if neg then - int m else int m), r, False)))"

definition strtol :: "string \<Rightarrow> int \<times> string \<times> bool" where
  "strtol s = (case read_integer s of
     None \<Rightarrow> (0, s, False)
   | Some (neg, m, r) \<Rightarrow>
       (let v = (if neg then - int m else int m)
        in if v \<ge> 2 ^ 63 then (2 ^ 63 - 1, r, True)
           else if v < - (2 ^ 63) then (- (2 ^ 63), r, True)
           else (v, r, False)))"

section \<open>Strings\<close>

text \<open>The tokens successive calls of \<open>strtok\<close> with the same delimiters return.\<close>

fun tokens_acc :: "(char \<Rightarrow> bool) \<Rightarrow> string \<Rightarrow> string \<Rightarrow> string list" where
  "tokens_acc delim cur [] = (if cur = [] then [] else [rev cur])"
| "tokens_acc delim cur (c # cs) =
     (if delim c then (if cur = [] then tokens_acc delim [] cs else rev cur # tokens_acc delim [] cs)
      else tokens_acc delim (c # cur) cs)"

definition strtok_all :: "(char \<Rightarrow> bool) \<Rightarrow> string \<Rightarrow> string list" where
  "strtok_all delim s = tokens_acc delim [] s"

abbreviation (input) newline :: char where "newline \<equiv> char_of (10::nat)"
abbreviation (input) carriage_return :: char where "carriage_return \<equiv> char_of (13::nat)"

text \<open>\<open>fgets(buf, n + 1, f)\<close>: at most \<open>n\<close> characters, up to and including a newline; the
  rest of the file is returned with them.\<close>

fun fgets :: "nat \<Rightarrow> string \<Rightarrow> string \<times> string" where
  "fgets 0 f = ([], f)"
| "fgets (Suc n) [] = ([], [])"
| "fgets (Suc n) (c # cs) =
     (if c = newline then ([c], cs)
      else (let (l, r) = fgets n cs in (c # l, r)))"

lemma fgets_length: "fgets n f = (l, r) \<Longrightarrow> length l \<le> n"
  by (induction n f arbitrary: l r rule: fgets.induct) (auto split: if_splits prod.splits)

lemma fgets_append: "fgets n f = (l, r) \<Longrightarrow> l @ r = f"
  by (induction n f arbitrary: l r rule: fgets.induct) (auto split: if_splits prod.splits)

lemma fgets_progress: "fgets (Suc n) (c # cs) = (l, r) \<Longrightarrow> length r < length (c # cs)"
  using fgets_append [of "Suc n" "c # cs" l r] by (cases l) (auto split: if_splits prod.splits)

text \<open>All the strings a loop of \<open>fgets\<close> reads from a file.\<close>

function fgets_all :: "nat \<Rightarrow> string \<Rightarrow> string list" where
  "fgets_all n f =
     (if f = [] \<or> n = 0 then [] else (let (l, r) = fgets n f in l # fgets_all n r))"
  by pat_completeness auto
termination
proof (relation "measure (\<lambda>(n, f). length f)")
  fix n :: nat and f x l r
  assume a: "\<not> (f = [] \<or> n = 0)" "x = fgets n f" "(l, r) = x"
  then obtain m c cs where "n = Suc m" "f = c # cs" by (cases n; cases f) auto
  with a show "((n, r), (n, f)) \<in> measure (\<lambda>(n, f). length f)"
    using fgets_progress [of m c cs l r] by simp
qed simp

declare fgets_all.simps [simp del]

lemma fgets_all_lengths: "l \<in> set (fgets_all n f) \<Longrightarrow> length l \<le> n"
proof (induction n f rule: fgets_all.induct)
  case (1 n f)
  show ?case
  proof (cases "f = [] \<or> n = 0")
    case True
    with 1 show ?thesis by (simp add: fgets_all.simps [of n f])
  next
    case False
    obtain l' r where lr: "fgets n f = (l', r)" by force
    with "1.prems" False have "l = l' \<or> l \<in> set (fgets_all n r)"
      by (auto simp: fgets_all.simps [of n f])
    then show ?thesis using "1.IH" [OF False lr [symmetric] refl] fgets_length [OF lr] by auto
  qed
qed

lemma concat_fgets_all: "n \<noteq> 0 \<Longrightarrow> concat (fgets_all n f) = f"
proof (induction n f rule: fgets_all.induct)
  case (1 n f)
  obtain l r where lr: "fgets n f = (l, r)" by force
  with 1 show ?case
    by (cases "f = []") (auto simp: fgets_all.simps [of n f] fgets_all.simps [of n "[]"] dest: fgets_append)
qed

end
