(* ===== verification/Remote_Facts.thy ===== *)
theory Remote_Facts
  imports Decode_All CStdlib
begin

text \<open>
  Facts about \<open>lib/ir_remote.c\<close>: which button \<open>get_code\<close> finds, how a code is split and put
  together again, the text of a message, and the contract between \<open>decode_all\<close> and the decoder of
  a driver, stated as the locale \<open>driver_decoder\<close> and discharged for \<open>receive_decode\<close>.
\<close>

section \<open>Labels\<close>

text \<open>What identifies a remote and its buttons and never changes while the program decodes.\<close>

definition button_label :: "ir_ncode \<Rightarrow> string \<times> ir_code \<times> ir_code list \<times> lirc_t list option" where
  "button_label nc = (nname nc, code nc, nexts nc, signals nc)"

definition remote_label :: "ir_remote \<Rightarrow> string option
    \<times> (string \<times> ir_code \<times> ir_code list \<times> lirc_t list option) list option" where
  "remote_label rm = (rname rm, map_option (map button_label) (codes rm))"

lemma button_label_current [simp]: "button_label (nc\<lparr>current := c\<rparr>) = button_label nc"
  by (simp add: button_label_def)

lemma remote_label_frame [simp]:
  "remote_label (rm\<lparr>toggle_mask_state := a\<rparr>) = remote_label rm"
  "remote_label (rm\<lparr>toggle_code := b\<rparr>) = remote_label rm"
  "remote_label (rm\<lparr>reps := e\<rparr>) = remote_label rm"
  "remote_label (rm\<lparr>last_code := f\<rparr>) = remote_label rm"
  "remote_label (rm\<lparr>toggle_bit_mask_state := h\<rparr>) = remote_label rm"
  "remote_label (rm\<lparr>release_detected := j\<rparr>) = remote_label rm"
  "remote_label (rm\<lparr>dyncode := k\<rparr>) = remote_label rm"
  "remote_label (rm\<lparr>last_send := l, min_remaining_gap := m, max_remaining_gap := n\<rparr>) = remote_label rm"
  by (simp_all add: remote_label_def)

lemma label_upd_current [simp]:
  "remote_label (upd_ncode rm p (\<lambda>nc. nc\<lparr>current := f nc\<rparr>)) = remote_label rm"
proof (cases p)
  case (NCode i)
  then show ?thesis
    by (cases "codes rm") (auto simp: upd_ncode_def remote_label_def map_update intro!: list_update_same_conv [THEN iffD2])
qed (auto simp: upd_ncode_def remote_label_def)

text \<open>A reference to a button of the remote: one of its list, or one of its dynamic codes. The references a
  remote keeps are of that kind.\<close>

definition valid_ref :: "ir_remote \<Rightarrow> ncode_ref \<Rightarrow> bool" where
  "valid_ref rm p \<longleftrightarrow> (case p of
     NCode i \<Rightarrow> (case codes rm of Some cs \<Rightarrow> i < length cs | None \<Rightarrow> False)
   | NDyn i \<Rightarrow> i < length (dyncodes rm)
   | NEof \<Rightarrow> False)"

definition refs_ok :: "ir_remote \<Rightarrow> bool" where
  "refs_ok rm \<longleftrightarrow> length (dyncodes rm) = 2 \<and> dyncode rm < 2 \<and> (\<forall>p. last_code rm = Some p \<longrightarrow> valid_ref rm p)"

lemma valid_ref_label:
  assumes "remote_label rm' = remote_label rm" "length (dyncodes rm') = length (dyncodes rm)"
  shows "valid_ref rm' p = valid_ref rm p"
proof -
  have "map_option length (codes rm') = map_option length (codes rm)"
    using assms(1) by (cases "codes rm'"; cases "codes rm") (auto simp: remote_label_def dest: map_eq_imp_length_eq)
  then show ?thesis using assms(2)
    by (cases "codes rm'"; cases "codes rm") (auto simp: valid_ref_def split: ncode_ref.split)
qed

lemma refs_ok_frame:
  assumes "remote_label rm' = remote_label rm" "length (dyncodes rm') = length (dyncodes rm)" "dyncode rm' = dyncode rm"
    "last_code rm' = last_code rm"
  shows "refs_ok rm' = refs_ok rm"
  using valid_ref_label [OF assms(1,2)] assms(2-4) by (simp add: refs_ok_def)

lemma dyncodes_upd_current [simp]:
  "length (dyncodes (upd_ncode rm p f)) = length (dyncodes rm)" "dyncode (upd_ncode rm p f) = dyncode rm"
  "last_code (upd_ncode rm p f) = last_code rm"
  by (auto simp: upd_ncode_def split: ncode_ref.split option.split)

section \<open>The button \<open>get_code\<close> finds\<close>

text \<open>Every index found is one of a button that is there.\<close>

lemma match_step_found:
  assumes "match_step rm rep a i nc v = (nc', v')"
  shows "(mv_found v' = mv_found v \<or> mv_found v' = Some (NCode i)) \<and> button_label nc' = button_label nc"
proof -
  have flm: "button_label x = button_label nc" if "find_longest_match rm nc a = (x, h)" for x h
    using that by (auto simp: find_longest_match_def split: list.splits option.splits)
  show ?thesis
    using assms flm by (auto simp: match_step_def advance_current_def Let_def split: if_splits prod.splits)
qed

lemma match_codes_found:
  "match_codes rm rep a i ncs v = (ncs', v') \<Longrightarrow>
    (mv_found v' = mv_found v \<or> (\<exists>j. i \<le> j \<and> j < i + length ncs \<and> mv_found v' = Some (NCode j)))
    \<and> map button_label ncs' = map button_label ncs"
proof (induction ncs arbitrary: i v ncs' v')
  case Nil
  then show ?case by simp
next
  case (Cons nc ncs)
  obtain nc1 v1 where 1: "match_step rm rep a i nc v = (nc1, v1)" by force
  obtain ncs2 v2 where 2: "match_codes rm rep a (i + 1) ncs v1 = (ncs2, v2)" by force
  have e: "ncs' = nc1 # ncs2" "v' = v2" using Cons.prems 1 2 by simp_all
  note m = match_step_found [OF 1] and r = Cons.IH [OF 2]
  show ?case
  proof (cases "mv_found v2 = mv_found v1")
    case True
    with m r e show ?thesis by auto
  next
    case False
    with r obtain j where "i + 1 \<le> j" "j < i + 1 + length ncs" "mv_found v2 = Some (NCode j)" by auto
    then have "i \<le> j \<and> j < i + length (nc # ncs) \<and> mv_found v2 = Some (NCode j)" by simp
    with m r e show ?thesis by auto
  qed
qed

lemma use_dyncode_result:
  "use_dyncode rm cd = (p, rm') \<Longrightarrow> (\<exists>i. p = NDyn i) \<and> remote_label rm' = remote_label rm"
  by (auto simp: use_dyncode_def Let_def upd_ncode_def remote_label_def split: if_splits)

lemma search_codes_result:
  assumes "search_codes rm rep a = (rm', v)"
  shows "remote_label rm' = remote_label rm
    \<and> (mv_found v = None \<or> (\<exists>i cs. mv_found v = Some (NCode i) \<and> codes rm = Some cs \<and> i < length cs))"
  using assms
  by (auto simp: search_codes_def Let_def remote_label_def split: option.splits prod.splits
      dest!: match_codes_found)

lemma try_dyncode_result:
  assumes "try_dyncode dyn cd (rm, v) = (rm', v')"
  shows "remote_label rm' = remote_label rm
    \<and> (mv_found v' = mv_found v \<or> (dyn \<and> (\<exists>i. mv_found v' = Some (NDyn i))))"
  using assms by (auto simp: try_dyncode_def split: if_splits prod.splits dest!: use_dyncode_result)

lemma toggle_result_result:
  assumes "toggle_result rm v = (found, rm')"
  shows "remote_label rm' = remote_label rm \<and> (found = None \<or> found = mv_found v)"
  using assms by (auto simp: toggle_result_def split: if_splits)

lemma get_code_result:
  assumes "get_code dyn rm pre cd post rep = (found, tbs, rm')"
  shows "remote_label rm' = remote_label rm
    \<and> (found = None \<or> (\<exists>i cs. found = Some (NCode i) \<and> codes rm = Some cs \<and> i < length cs)
       \<or> (dyn \<and> (\<exists>i. found = Some (NDyn i))))"
proof -
  obtain p c q where u: "untoggle rm (pre, cd, post) = (p, c, q)" by (cases "untoggle rm (pre, cd, post)")
  let ?a = "without_repeat rm rep (gen_ir_code rm p c q)"
  obtain rm1 v1 where 1: "search_codes rm rep ?a = (rm1, v1)" by force
  obtain rm2 v2 where 2: "try_dyncode dyn c (rm1, v1) = (rm2, v2)" by force
  obtain f rm3 where 3: "toggle_result rm2 v2 = (f, rm3)" by force
  show ?thesis
  proof (cases "foreign_data rm p q")
    case True
    with assms u show ?thesis by (simp add: get_code_def)
  next
    case False
    with assms u 1 2 3 have "found = f" "rm' = rm3" by (auto simp: get_code_def Let_def)
    with search_codes_result [OF 1] try_dyncode_result [OF 2] toggle_result_result [OF 3]
    show ?thesis by metis
  qed
qed

lemma search_codes_refs:
  assumes "search_codes rm rep a = (rm', v)" "refs_ok rm"
  shows "refs_ok rm' \<and> (\<forall>p. mv_found v = Some p \<longrightarrow> valid_ref rm' p)"
proof -
  note r = search_codes_result [OF assms(1)]
  have f: "dyncodes rm' = dyncodes rm" "dyncode rm' = dyncode rm" "last_code rm' = last_code rm"
    using assms(1) by (cases "codes rm"; simp add: search_codes_def Let_def case_prod_beta; elim conjE; hypsubst; simp)+
  have "valid_ref rm p" if "mv_found v = Some p" for p using r that by (auto simp: valid_ref_def)
  moreover have "valid_ref rm' p = valid_ref rm p" for p by (rule valid_ref_label) (use r f(1) in simp_all)
  moreover have "refs_ok rm' = refs_ok rm" by (rule refs_ok_frame) (use r f in simp_all)
  ultimately show ?thesis using assms(2) by blast
qed

lemma use_dyncode_refs:
  assumes "use_dyncode rm cd = (p, rm')" "refs_ok rm"
  shows "refs_ok rm' \<and> valid_ref rm' p"
proof -
  define rm1 where "rm1 = (if code (deref rm (NDyn (dyncode rm))) \<noteq> cd then rm\<lparr>dyncode := (dyncode rm + 1) mod 2\<rparr> else rm)"
  have e: "p = NDyn (dyncode rm1)" "rm' = upd_ncode rm1 (NDyn (dyncode rm1)) (\<lambda>nc. nc\<lparr>code := cd\<rparr>)"
    using assms(1) unfolding use_dyncode_def Let_def rm1_def [symmetric] by auto
  have 1: "length (dyncodes rm1) = 2" "dyncode rm1 < 2" "last_code rm1 = last_code rm" "dyncodes rm1 = dyncodes rm"
    using assms(2) by (auto simp: rm1_def refs_ok_def)
  have l: "valid_ref rm' q = valid_ref rm q" for q
    using valid_ref_label [of rm' rm q] use_dyncode_result [OF assms(1)] 1(4) e(2) by simp
  show ?thesis using assms(2) 1 l unfolding refs_ok_def by (simp add: e) (simp add: valid_ref_def)
qed

lemma toggle_result_refs:
  assumes "toggle_result rm v = (found, rm')"
  shows "refs_ok rm' = refs_ok rm" "valid_ref rm' p = valid_ref rm p"
proof -
  have f: "dyncodes rm' = dyncodes rm" "dyncode rm' = dyncode rm" "last_code rm' = last_code rm"
    using assms by (auto simp: toggle_result_def split: if_splits)
  show "refs_ok rm' = refs_ok rm" using toggle_result_result [OF assms] f by (intro refs_ok_frame) simp_all
  show "valid_ref rm' p = valid_ref rm p" using toggle_result_result [OF assms] f by (intro valid_ref_label) simp_all
qed

lemma get_code_refs:
  assumes "get_code dyn rm pre cd post rep = (found, tbs, rm')" "refs_ok rm"
  shows "refs_ok rm' \<and> (\<forall>p. found = Some p \<longrightarrow> valid_ref rm' p)"
proof -
  obtain p c q where u: "untoggle rm (pre, cd, post) = (p, c, q)" by (cases "untoggle rm (pre, cd, post)")
  let ?a = "without_repeat rm rep (gen_ir_code rm p c q)"
  obtain rm1 v1 where 1: "search_codes rm rep ?a = (rm1, v1)" by force
  obtain rm2 v2 where 2: "try_dyncode dyn c (rm1, v1) = (rm2, v2)" by force
  obtain f rm3 where 3: "toggle_result rm2 v2 = (f, rm3)" by force
  show ?thesis
  proof (cases "foreign_data rm p q")
    case True
    with assms u show ?thesis by (simp add: get_code_def)
  next
    case False
    with assms(1) u 1 2 3 have "found = f" "rm' = rm3" by (auto simp: get_code_def Let_def)
    moreover have "refs_ok rm2 \<and> (\<forall>p. mv_found v2 = Some p \<longrightarrow> valid_ref rm2 p)"
      using 2 search_codes_refs [OF 1 assms(2)] use_dyncode_refs by (auto simp: try_dyncode_def split: if_splits prod.splits)
    ultimately show ?thesis using toggle_result_result [OF 3] toggle_result_refs [OF 3] by auto
  qed
qed

text \<open>A remote whose buttons send one code each: the button is the first that matches.\<close>

definition plain_buttons :: "ir_remote \<Rightarrow> bool" where
  "plain_buttons rm \<longleftrightarrow> \<not> has_toggle_mask rm \<and> \<not> has_repeat_mask rm
     \<and> (case codes rm of None \<Rightarrow> True | Some cs \<Rightarrow> list_all (\<lambda>nc. nexts nc = [] \<and> current nc = None) cs)"

definition button_matches :: "ir_remote \<Rightarrow> ir_code \<Rightarrow> ir_ncode \<Rightarrow> bool" where
  "button_matches rm all nc \<longleftrightarrow>
     match_ir_code rm (gen_ir_code rm (pre_data rm) (code nc) (post_data rm)) all"

lemma match_step_plain:
  assumes "\<not> has_repeat_mask rm" "nexts nc = []" "current nc = None"
  shows "match_step rm rep a i nc v = (nc, if button_matches rm a nc then v\<lparr>mv_found_code := True,
      mv_found := (if mv_have_code v then mv_found v else Some (NCode i)), mv_have_code := True\<rparr> else v)"
proof -
  have "nc\<lparr>current := None\<rparr> = nc" using assms(3) by simp
  then show ?thesis using assms
    by (auto simp: match_step_def code_matches_def button_matches_def get_ir_code_def advance_current_def
        find_longest_match_def Let_def)
qed

lemma match_codes_plain:
  assumes "\<not> has_repeat_mask rm"
  shows "list_all (\<lambda>nc. nexts nc = [] \<and> current nc = None) ncs \<Longrightarrow>
    \<exists>v'. match_codes rm rep a i ncs v = (ncs, v')
      \<and> mv_found_code v' = (mv_found_code v \<or> find_index (button_matches rm a) ncs \<noteq> None)
      \<and> mv_found v' = (if mv_have_code v then mv_found v
           else case find_index (button_matches rm a) ncs of None \<Rightarrow> mv_found v | Some j \<Rightarrow> Some (NCode (i + j)))"
proof (induction ncs arbitrary: i v)
  case Nil
  then show ?case by simp
next
  case (Cons nc ncs)
  then have pl: "nexts nc = []" "current nc = None" and ih: "list_all (\<lambda>nc. nexts nc = [] \<and> current nc = None) ncs"
    by simp_all
  obtain v1 where v1: "match_step rm rep a i nc v = (nc, v1)"
      "v1 = (if button_matches rm a nc then v\<lparr>mv_found_code := True,
        mv_found := (if mv_have_code v then mv_found v else Some (NCode i)), mv_have_code := True\<rparr> else v)"
    using match_step_plain [OF assms pl] by simp
  obtain v2 where v2: "match_codes rm rep a (i + 1) ncs v1 = (ncs, v2)"
      "mv_found_code v2 = (mv_found_code v1 \<or> find_index (button_matches rm a) ncs \<noteq> None)"
      "mv_found v2 = (if mv_have_code v1 then mv_found v1
         else case find_index (button_matches rm a) ncs of None \<Rightarrow> mv_found v1 | Some j \<Rightarrow> Some (NCode (i + 1 + j)))"
    using Cons.IH [OF ih, of "i + 1" v1] by blast
  show ?case
    using v1 v2 by (cases "button_matches rm a nc")
      (auto split: option.splits)
qed

lemma get_code_plain:
  assumes "plain_buttons rm" "\<not> foreign_data rm pre post"
  shows "\<exists>tbs. get_code False rm pre cd post rep =
    (case codes rm of None \<Rightarrow> None
     | Some cs \<Rightarrow> map_option NCode (find_index (button_matches rm (gen_ir_code rm pre cd post)) cs), tbs, rm)"
proof -
  let ?a = "gen_ir_code rm pre cd post"
  have u: "untoggle rm (pre, cd, post) = (pre, cd, post)" "without_repeat rm rep ?a = ?a"
    "\<not> has_repeat_mask rm" "\<not> has_toggle_mask rm"
    using assms(1) by (simp_all add: untoggle_def without_repeat_def plain_buttons_def)
  have "\<exists>v. search_codes rm rep ?a = (rm, v) \<and> mv_found v = (case codes rm of None \<Rightarrow> None
     | Some cs \<Rightarrow> map_option NCode (find_index (button_matches rm ?a) cs))"
  proof (cases "codes rm")
    case None
    then show ?thesis by (simp add: search_codes_def)
  next
    case (Some cs)
    then have "list_all (\<lambda>nc. nexts nc = [] \<and> current nc = None) cs" "rm\<lparr>codes := Some cs\<rparr> = rm"
      using assms(1) by (simp_all add: plain_buttons_def)
    moreover obtain v where "match_codes rm rep ?a 0 cs
        \<lparr>mv_found = None, mv_found_code = False, mv_have_code = False\<rparr> = (cs, v)"
        "mv_found v = map_option NCode (find_index (button_matches rm ?a) cs)"
      using match_codes_plain [OF u(3) calculation(1), of rep ?a 0
          "\<lparr>mv_found = None, mv_found_code = False, mv_have_code = False\<rparr>"]
      by (cases "find_index (button_matches rm ?a) cs") auto
    ultimately show ?thesis using Some by (auto simp: search_codes_def)
  qed
  then obtain v where "search_codes rm rep ?a = (rm, v)" "mv_found v = (case codes rm of None \<Rightarrow> None
     | Some cs \<Rightarrow> map_option NCode (find_index (button_matches rm ?a) cs))" by blast
  then show ?thesis using assms(2) u
    by (simp add: get_code_def try_dyncode_def toggle_result_def Let_def)
qed

section \<open>Splitting a code and putting it together\<close>

lemma map_code_result:
  assumes "i32 (n + m + k) = bit_count rm"
  shows "map_code rm ctx n pre m cd k post =
    (let all = shl (shl (pre AND gen_mask n) m OR (cd AND gen_mask m)) k OR (post AND gen_mask k)
     in (True, ctx\<lparr>ctx_post := all AND gen_mask (post_data_bits rm),
           ctx_code := shr all (post_data_bits rm) AND gen_mask (bits rm),
           ctx_pre := shr (shr all (post_data_bits rm)) (bits rm) AND gen_mask (pre_data_bits rm)\<rparr>))"
  using assms by (simp add: map_code_def Let_def)

lemma split_and_join:
  assumes "\<not> is_raw rm" "0 \<le> pre_data_bits rm" "0 \<le> bits rm" "0 \<le> post_data_bits rm"
    "pre_data_bits rm + bits rm + post_data_bits rm \<le> 64"
  shows "gen_ir_code rm (shr (shr x (post_data_bits rm)) (bits rm) AND gen_mask (pre_data_bits rm))
      (shr x (post_data_bits rm) AND gen_mask (bits rm)) (x AND gen_mask (post_data_bits rm))
    = x AND gen_mask (pre_data_bits rm + bits rm + post_data_bits rm)"
proof -
  obtain p b q where n: "post_data_bits rm = int p" "bits rm = int b" "pre_data_bits rm = int q"
    using assms(2-4) by (metis nonneg_int_cases)
  have le: "p + b + q \<le> 64" using assms(5) n by linarith
  have tot: "nat (int q + int b + int p) = p + b + q" by linarith
  show ?thesis
  proof (rule bit_word_eqI)
    fix i assume "i < LENGTH(64)"
    then have i: "i < 64" by simp
    have a: "\<not> i < p \<Longrightarrow> p + (i - p) = i" "\<not> i < p + b \<Longrightarrow> p + (b + (i - p - b)) = i" by linarith+
    show "bit (gen_ir_code rm (shr (shr x (post_data_bits rm)) (bits rm) AND gen_mask (pre_data_bits rm))
        (shr x (post_data_bits rm) AND gen_mask (bits rm)) (x AND gen_mask (post_data_bits rm))) i
      \<longleftrightarrow> bit (x AND gen_mask (pre_data_bits rm + bits rm + post_data_bits rm)) i"
      using i le a
      by (simp only: bit_gen_ir_code [OF assms] n Let_def nat_int bit_and_iff bit_shr bit_gen_mask tot)
        auto
  qed
qed

section \<open>The text of a message\<close>

text \<open>The digits the message prints are digits \<open>strtoul\<close> reads, with the values printed.\<close>

lemma hex_digit_value: "n < 16 \<Longrightarrow> digit_val (hex_digit n) = Some n"
proof -
  have "list_all (\<lambda>k. digit_val (hex_digit k) = Some k) [0..<16]" by code_simp
  then show "n < 16 \<Longrightarrow> ?thesis" by (auto simp: list_all_iff)
qed

lemma hex_digit_is_digit: "is_digit_of 16 (hex_digit n)"
  using hex_digit_value [of "n mod 16"] by (simp add: is_digit_of_def hex_digit_def)

lemma read_digits_append:
  "list_all (is_digit_of b) xs \<Longrightarrow> read_digits b a (xs @ ys) = read_digits b (fst (read_digits b a xs)) ys"
  by (induction xs arbitrary: a) simp_all

lemma to_hex_digits: "list_all (is_digit_of 16) (to_hex n)"
proof (induction n rule: to_hex.induct)
  case (1 n)
  then show ?case by (subst to_hex.simps) (simp add: hex_digit_is_digit)
qed

lemma read_to_hex: "read_digits 16 0 (to_hex n) = (n, [])"
proof (induction n rule: to_hex.induct)
  case (1 n)
  have d: "hex_digit n = hex_digit (n mod 16)" by (simp add: hex_digit_def)
  show ?case
  proof (cases "n < 16")
    case True
    then show ?thesis
      by (subst to_hex.simps) (simp add: hex_digit_is_digit hex_digit_value)
  next
    case False
    with 1 have "read_digits 16 0 (to_hex (n div 16)) = (n div 16, [])" by blast
    moreover have "the (digit_val (hex_digit n)) = n mod 16"
      by (subst d) (simp add: hex_digit_value)
    ultimately show ?thesis using False
      by (subst to_hex.simps) (simp add: read_digits_append [OF to_hex_digits] hex_digit_is_digit)
  qed
qed

lemma to_hex_length: "0 < w \<Longrightarrow> n < 16 ^ w \<Longrightarrow> length (to_hex n) \<le> w"
proof (induction w arbitrary: n)
  case 0
  then show ?case by simp
next
  case (Suc w)
  show ?case
  proof (cases "n < 16")
    case True
    then show ?thesis by (subst to_hex.simps) simp
  next
    case False
    have "n div 16 < 16 ^ w" using Suc.prems(2) by (simp add: less_mult_imp_div_less mult.commute)
    moreover have "0 < w" using False Suc.prems(2) by (cases w) auto
    ultimately have "length (to_hex (n div 16)) \<le> w" by (rule Suc.IH [rotated])
    then show ?thesis using False by (subst to_hex.simps) simp
  qed
qed

lemma read_zeros: "read_digits 16 0 (replicate k (CHR ''0'') @ xs) = read_digits 16 0 xs"
  by (induction k) (simp_all add: is_digit_of_def digit_val_def)

lemma read_fmt_hex: "read_digits 16 0 (fmt_hex w n) = (n, [])"
  by (simp add: fmt_hex_def read_zeros read_to_hex)

lemma length_fmt_hex: "0 < w \<Longrightarrow> n < 16 ^ w \<Longrightarrow> length (fmt_hex w n) = w"
  using to_hex_length [of w n] by (simp add: fmt_hex_def)

section \<open>The bookkeeping of a button\<close>

lemma set_code_label:
  "set_code same rm p tbs ctx now = (cd, ctx', rm') \<Longrightarrow> remote_label rm' = remote_label rm"
  by (auto simp: set_code_def Let_def count_repetition_def start_press_def split: if_splits prod.splits)

lemma set_code_refs:
  assumes "set_code same rm p tbs ctx now = (cd, ctx', rm')" "refs_ok rm" "valid_ref rm p"
  shows "refs_ok rm' \<and> valid_ref rm' p"
proof -
  have f: "dyncodes rm' = dyncodes rm" "dyncode rm' = dyncode rm" "last_code rm' = last_code rm \<or> last_code rm' = Some p"
    using assms(1) by (auto simp: set_code_def Let_def count_repetition_def start_press_def split: if_splits prod.splits)
  have "valid_ref rm' q = valid_ref rm q" for q using set_code_label [OF assms(1)] f(1) by (intro valid_ref_label) simp_all
  then show ?thesis using assms(2,3) f by (auto simp: refs_ok_def)
qed

lemma reset_currents_label:
  "reset_currents rs = Some rs' \<Longrightarrow> map remote_label rs' = map remote_label rs"
  by (auto simp: reset_currents_def remote_label_def comp_def option.map_comp split: if_splits)

lemma map_list_update_same: "f y = f (xs ! i) \<Longrightarrow> map f (xs[i := y]) = map f xs"
  by (metis list_update_id map_update)

lemma upd_remote_frame [simp]: "use_dyncodes (upd_remote i f g) = use_dyncodes g"
  by (simp add: upd_remote_def)

lemma upd_remote_label:
  "remote_label (f (remotes g ! i)) = remote_label (remotes g ! i) \<Longrightarrow>
    map remote_label (remotes (upd_remote i f g)) = map remote_label (remotes g)"
  by (simp add: upd_remote_def map_list_update_same)

lemma restart_codes_label:
  assumes "restart_codes i p g = Some (lc, g')"
  shows "map remote_label (remotes g') = map remote_label (remotes g)"
proof -
  obtain rs where rs: "reset_currents (remotes g) = Some rs"
    using assms by (auto simp: restart_codes_def split: option.splits)
  have "map remote_label (remotes g') = map remote_label rs"
    using assms rs by (auto simp: restart_codes_def Let_def upd_remote_label split: if_splits)
  then show ?thesis using reset_currents_label [OF rs] by simp
qed

lemma upd_remote_all: "list_all P (remotes g) \<Longrightarrow> P (f (remotes g ! i)) \<Longrightarrow> list_all P (remotes (upd_remote i f g))"
  by (cases "i < length (remotes g)") (auto simp: upd_remote_def list_all_length nth_list_update)

lemma restart_codes_refs:
  assumes "restart_codes i p g = Some (lc, g')" "list_all refs_ok (remotes g)" "i < length (remotes g)"
    "valid_ref (remotes g ! i) p"
  shows "list_all refs_ok (remotes g') \<and> valid_ref (remotes g' ! i) lc"
proof -
  obtain rs where rs: "reset_currents (remotes g) = Some rs"
    using assms(1) by (auto simp: restart_codes_def split: option.splits)
  let ?f = "\<lambda>r. r\<lparr>codes := map_option (map (\<lambda>nc. nc\<lparr>current := None\<rparr>)) (codes r)\<rparr>"
  have m: "rs = map ?f (remotes g)" using rs by (simp add: reset_currents_def split: if_splits)
  have l: "remote_label (?f r) = remote_label r" for r by (simp add: remote_label_def comp_def option.map_comp)
  have k: "refs_ok (?f r) = refs_ok r" "valid_ref (?f r) q = valid_ref r q" for r q
    by (rule refs_ok_frame [OF l]; simp) (rule valid_ref_label [OF l]; simp)
  have ok: "list_all refs_ok rs" using assms(2) k(1) by (simp add: m list_all_iff)
  have "valid_ref (rs ! i) lc" "refs_ok (rs ! i)"
    using assms k unfolding m
    by (auto simp: restart_codes_def rs m Let_def refs_ok_def list_all_length split: if_splits option.splits)
  moreover have "g' = g\<lparr>remotes := rs\<rparr> \<or> g' = upd_remote i (\<lambda>r. upd_ncode r lc (\<lambda>nc. nc\<lparr>current := first_node nc\<rparr>)) (g\<lparr>remotes := rs\<rparr>)"
    using assms(1) by (auto simp: restart_codes_def rs Let_def split: if_splits)
  moreover have u: "refs_ok (upd_ncode r lc (\<lambda>nc. nc\<lparr>current := first_node nc\<rparr>)) = refs_ok r"
    "valid_ref (upd_ncode r lc (\<lambda>nc. nc\<lparr>current := first_node nc\<rparr>)) q = valid_ref r q" for r q
    by (rule refs_ok_frame; simp) (rule valid_ref_label; simp)
  moreover have "list_all refs_ok (remotes (upd_remote i (\<lambda>r. upd_ncode r lc (\<lambda>nc. nc\<lparr>current := first_node nc\<rparr>)) (g\<lparr>remotes := rs\<rparr>)))"
    using calculation ok by (intro upd_remote_all) simp_all
  moreover have "i < length rs" using assms(3) by (simp add: m)
  ultimately show ?thesis using ok by (auto simp: upd_remote_def)
qed

text \<open>The messages that name a remote of the list and one of its buttons.\<close>

definition proper_message :: "ir_remote list \<Rightarrow> string \<Rightarrow> bool" where
  "proper_message rs msg \<longleftrightarrow>
     (\<exists>i p cd rp. i < length rs \<and> valid_ref (rs ! i) p \<and> msg = message_text (case rname (rs ! i) of Some n \<Rightarrow> n | None \<Rightarrow> [])
        (nname (deref (rs ! i) p)) (Some []) cd rp)
     \<and> length msg \<le> PACKET_SIZE"

lemma emit_button_result:
  assumes "emit_button d i lc cd rp g = (res, g')" "i < length (remotes g)" "valid_ref (remotes g ! i) lc"
  shows "remotes g' = remotes g \<and> (case res of None \<Rightarrow> True | Some msg \<Rightarrow> proper_message (remotes g) msg)"
proof -
  obtain t rc where t: "gettimeofday (receiver g) = (t, rc)" by force
  let ?m = "message_text (case rname (remotes g ! i) of Some n \<Rightarrow> n | None \<Rightarrow> [])
    (nname (deref (remotes g ! i) lc)) (Some []) cd rp"
  have r: "res = (if length ?m \<ge> PACKET_SIZE + 1 then None else Some ?m)" "remotes g' = remotes g"
    using assms(1) t by (auto simp: emit_button_def write_message_def Let_def)
  have "proper_message (remotes g) ?m" if "length ?m \<le> PACKET_SIZE"
    using assms(2,3) that by (simp only: proper_message_def) blast
  then show ?thesis using r by auto
qed

lemma report_button_result:
  assumes "report_button d i p tbs ctx g = Some (res, g')" "i < length (remotes g)" "list_all refs_ok (remotes g)"
    "valid_ref (remotes g ! i) p"
  shows "map remote_label (remotes g') = map remote_label (remotes g) \<and> list_all refs_ok (remotes g')
    \<and> (case res of None \<Rightarrow> True | Some msg \<Rightarrow> proper_message (remotes g') msg)"
proof -
  obtain now rc where t: "gettimeofday (receiver g) = (now, rc)" by force
  obtain cd ctx' rm where sc: "set_code (last_decoded g = Some i) (remotes g ! i) p tbs ctx now = (cd, ctx', rm)"
    by (cases "set_code (last_decoded g = Some i) (remotes g ! i) p tbs ctx now")
  have "refs_ok (remotes g ! i)" using assms(2,3) by (simp add: list_all_length)
  note sr = set_code_refs [OF sc this assms(4)]
  define g1 where "g1 = upd_remote i (\<lambda>_. rm)
    (g\<lparr>receiver := rc, last_remote := Some i, last_decoded := Some i\<rparr>)"
  have l1: "map remote_label (remotes g1) = map remote_label (remotes g)"
    using set_code_label [OF sc] by (simp add: g1_def upd_remote_label)
  have r1: "list_all refs_ok (remotes g1)" unfolding g1_def using assms(3) sr by (intro upd_remote_all) simp_all
  have n1: "i < length (remotes g1)" "remotes g1 ! i = rm" using assms(2) by (simp_all add: g1_def upd_remote_def)
  show ?thesis
  proof (cases "(has_toggle_mask rm \<and> toggle_mask_state rm mod 2 \<noteq> 0) \<or> current (deref rm p) \<noteq> None")
    case True
    then have "res = None" "g' = g1\<lparr>decoding := False\<rparr>"
      using assms(1) t sc by (auto simp: report_button_def g1_def)
    with l1 r1 show ?thesis by simp
  next
    case False
    then obtain lc g2 where g2: "restart_codes i p g1 = Some (lc, g2)"
      using assms(1) t sc by (auto simp: report_button_def g1_def split: option.splits)
    have l2: "map remote_label (remotes g2) = map remote_label (remotes g)"
      using restart_codes_label [OF g2] l1 by simp
    then have len: "i < length (remotes g2)" using assms(2) by (metis length_map)
    have r2: "list_all refs_ok (remotes g2)" "valid_ref (remotes g2 ! i) lc"
      using restart_codes_refs [OF g2 r1 n1(1)] n1(2) sr by simp_all
    have "(res = None \<and> g' = g2\<lparr>decoding := False\<rparr>) \<or> (\<exists>rp. emit_button d i lc cd rp g2 = (res, g'))"
      using assms(1) t sc False g2 by (auto simp: report_button_def g1_def Let_def split: if_splits)
    then show ?thesis
    proof
      assume "res = None \<and> g' = g2\<lparr>decoding := False\<rparr>"
      then show ?thesis using l2 r2 by simp
    next
      assume "\<exists>rp. emit_button d i lc cd rp g2 = (res, g')"
      then show ?thesis using l2 r2 emit_button_result [OF _ len r2(2)] by metis
    qed
  qed
qed

section \<open>The contract of a driver's decoder\<close>

text \<open>\<open>decode_all\<close> calls the decoder of the driver for every remote. What it relies on is that
  the decoder does not touch what identifies the remote and its buttons, and leaves the references in order.\<close>

locale driver_decoder =
  fixes decode :: decoder
  assumes keeps_label: "decode lst is_last rm s = Some (ok, ctx, rm', s') \<Longrightarrow> remote_label rm' = remote_label rm"
    and keeps_refs: "decode lst is_last rm s = Some (ok, ctx, rm', s') \<Longrightarrow> refs_ok rm \<Longrightarrow> refs_ok rm'"
begin

lemma decode_from_result:
  "decode_from d decode i g = Some (res, g') \<Longrightarrow> list_all refs_ok (remotes g) \<Longrightarrow>
    map remote_label (remotes g') = map remote_label (remotes g) \<and> list_all refs_ok (remotes g')
    \<and> (case res of None \<Rightarrow> True | Some msg \<Rightarrow> proper_message (remotes g') msg)"
proof (induction "length (remotes g) - i" arbitrary: i g rule: less_induct)
  case (less i g)
  show ?case
  proof (cases "i < length (remotes g)")
    case False
    with less.prems show ?thesis by (subst (asm) decode_from.simps) auto
  next
    case True
    obtain ok ctx rm rc where dec: "decode (map_option (\<lambda>j. remotes g ! j) (last_remote g))
        (last_remote g = Some i) (remotes g ! i) (receiver g) = Some (ok, ctx, rm, rc)"
      using less.prems(1) True by (subst (asm) decode_from.simps) (auto split: option.splits)
    obtain found tbs rm2 where gc: "button_of (use_dyncodes g) ok ctx rm = (found, tbs, rm2)"
      by (cases "button_of (use_dyncodes g) ok ctx rm")
    have lab: "remote_label rm2 = remote_label (remotes g ! i)" and neof: "found \<noteq> Some NEof"
      using keeps_label [OF dec] gc
      by (auto simp: button_of_def split: if_splits dest: get_code_result)
    have "refs_ok rm" using keeps_refs [OF dec] less.prems(2) True by (simp add: list_all_length)
    then have refs: "refs_ok rm2" "found = Some p \<Longrightarrow> valid_ref rm2 p" for p
      using gc by (auto simp: button_of_def split: if_splits dest: get_code_refs)
    define g1 where "g1 = upd_remote i (\<lambda>_. rm2) (upd_remote i (\<lambda>_. rm) (g\<lparr>receiver := rc\<rparr>))"
    have g1: "remotes g1 = (remotes g)[i := rm2]" by (simp add: g1_def upd_remote_def)
    have l1: "map remote_label (remotes g1) = map remote_label (remotes g)"
      using lab by (simp add: g1 map_list_update_same)
    have len: "i < length (remotes g1)" "remotes g1 ! i = rm2" using True by (simp_all add: g1)
    have r1: "list_all refs_ok (remotes g1)"
      unfolding g1 using less.prems(2) refs(1) True by (simp add: list_all_length) (metis nth_list_update)
    show ?thesis
    proof (cases found)
      case None
      let ?g2 = "upd_remote i (\<lambda>r. r\<lparr>toggle_mask_state := 0\<rparr>) g1"
      have "decode_from d decode (i + 1) ?g2 = Some (res, g')"
        using less.prems(1) True dec gc None by (subst (asm) decode_from.simps) (simp add: g1_def Let_def)
      moreover have "map remote_label (remotes ?g2) = map remote_label (remotes g)"
        using l1 by (simp add: upd_remote_label)
      moreover have "refs_ok (rm2\<lparr>toggle_mask_state := 0\<rparr>)"
        using refs(1) refs_ok_frame [of "rm2\<lparr>toggle_mask_state := 0\<rparr>" rm2] by simp
      then have "list_all refs_ok (remotes ?g2)" using r1 len by (intro upd_remote_all) simp_all
      moreover have "length (remotes ?g2) - (i + 1) < length (remotes g) - i"
        using True by (simp add: upd_remote_def g1)
      ultimately show ?thesis using less.hyps [of ?g2 "i + 1"] by simp
    next
      case (Some p)
      then have "report_button d i p tbs ctx g1 = Some (res, g')"
        using less.prems(1) True dec gc neof
        by (subst (asm) decode_from.simps) (simp add: g1_def Let_def split: ncode_ref.splits)
      then show ?thesis using report_button_result [OF _ len(1) r1] refs(2) [OF Some] l1 len(2) by simp
    qed
  qed
qed

end

section \<open>The library's decoder keeps the contract\<close>

text \<open>Of the remote, decoding changes the two fields that follow the toggle mask.\<close>

definition same_remote :: "ir_remote \<Rightarrow> ir_remote \<Rightarrow> bool" where
  "same_remote rm rm' \<longleftrightarrow>
     rm' = rm\<lparr>toggle_mask_state := toggle_mask_state rm', toggle_code := toggle_code rm'\<rparr>"

lemma same_remote_refl [simp]: "same_remote rm rm"
  by (simp add: same_remote_def)

lemma same_remote_trans:
  assumes "same_remote a b" "same_remote b c"
  shows "same_remote a c"
proof -
  let ?w = "\<lambda>x. x\<lparr>toggle_mask_state := toggle_mask_state c, toggle_code := toggle_code c\<rparr>"
  have "c = ?w b" using assms(2) by (simp only: same_remote_def)
  also have "?w b = ?w (a\<lparr>toggle_mask_state := toggle_mask_state b, toggle_code := toggle_code b\<rparr>)"
    by (rule arg_cong [OF assms(1) [unfolded same_remote_def]])
  also have "\<dots> = ?w a" by simp
  finally show ?thesis by (simp only: same_remote_def)
qed

lemma same_remote_label: "same_remote rm rm' \<Longrightarrow> remote_label rm' = remote_label rm"
  by (subst same_remote_def [THEN iffD1], assumption) simp

lemma same_remote_refs: "same_remote rm rm' \<Longrightarrow> refs_ok rm' = refs_ok rm"
  by (rule refs_ok_frame) (simp only: same_remote_label, (subst same_remote_def [THEN iffD1], assumption, simp)+)

lemma same_sync: "sync_rec_buffer d lst rm s = (v, rm', s') \<Longrightarrow> same_remote rm rm'"
  by (auto simp: sync_rec_buffer_def same_remote_def Let_def split: prod.splits if_splits option.splits)

lemma same_match_raw: "match_raw d lst cs rm s = (c, rm', s') \<Longrightarrow> same_remote rm rm'"
proof (induction d lst cs rm s arbitrary: c rm' s' rule: match_raw.induct)
  case (1 d lst rm s)
  then show ?case by simp
next
  case (2 d lst c0 cs rm s)
  then show ?case
    by (auto simp: Let_def split: prod.splits if_splits dest: same_sync intro: same_remote_trans)
qed

lemma same_rd_repeat:
  assumes "rd_repeat d lst is_last rm s = r"
  shows "(case r of Inl (ok, ctx, rm', s') \<Rightarrow> same_remote rm rm' | Inr (rm', s') \<Rightarrow> same_remote rm rm')"
  using assms
  by (auto simp: rd_repeat_def Let_def split: prod.splits if_splits option.splits sum.splits dest: same_sync)

lemma same_rd_body: "rd_body d lst rm sync hdr s = Some (ok, ctx, rm', s') \<Longrightarrow> same_remote rm rm'"
  by (auto simp: rd_body_def Let_def split: if_splits option.splits prod.splits dest: same_match_raw)

lemma same_receive_decode:
  assumes "receive_decode d lst is_last rm s = Some (ok, ctx, rm', s')"
  shows "same_remote rm rm'"
proof (cases "at_eof s \<and> wptr s - rptr s \<le> 1 \<or> \<not> reads_samples d")
  case True
  with assms show ?thesis by (auto simp: receive_decode_def dest: same_rd_body split: if_splits)
next
  case False
  obtain sync rm1 s1 where 1: "sync_rec_buffer d lst rm ((rec_buffer_rewind s)\<lparr>rb_biphase := is_biphase rm\<rparr>)
      = (sync, rm1, s1)" by (metis prod_cases3)
  note same1 = same_sync [OF 1]
  show ?thesis
  proof (cases "sync = 0")
    case True
    with assms False 1 same1 show ?thesis by (auto simp: receive_decode_def)
  next
    case ne: False
    show ?thesis
    proof (cases "rd_repeat d lst is_last rm1 s1")
      case (Inl r)
      with assms False 1 ne have "r = (ok, ctx, rm', s')" by (auto simp: receive_decode_def)
      with same_rd_repeat [OF Inl] same1 show ?thesis by (auto intro: same_remote_trans)
    next
      case (Inr q)
      obtain rm2 s2 where q: "q = (rm2, s2)" by force
      have same2: "same_remote rm rm2"
        using same_rd_repeat [OF Inr] q same1 by (auto intro: same_remote_trans)
      obtain h s3 where h: "rd_header d rm2 sync s2 = (h, s3)" by force
      from assms False 1 ne Inr q h same2 show ?thesis
        by (auto simp: receive_decode_def split: option.splits
            dest!: same_rd_body intro: same_remote_trans [OF same2])
    qed
  qed
qed

interpretation lirc_decoder: driver_decoder "receive_decode d" for d
proof unfold_locales
  fix lst is_last rm s ok ctx rm' s'
  assume a: "receive_decode d lst is_last rm s = Some (ok, ctx, rm', s')"
  show "remote_label rm' = remote_label rm" by (rule same_remote_label [OF same_receive_decode [OF a]])
  show "refs_ok rm \<Longrightarrow> refs_ok rm'" using same_remote_refs [OF same_receive_decode [OF a]] by simp
qed

end
