(* ===== verification/Press.thy ===== *)
theory Press
  imports Space_Send Remote_Facts
begin

text \<open>
  From a signal to the message the clients read: a program configured with one remote that
  hears the signal of a button reports that button, once and with repeat count 0.
\<close>

section \<open>The first report of a button\<close>

text \<open>Buttons and remotes without the features that spread a press over several signals.\<close>

definition plain_remote :: "ir_remote \<Rightarrow> bool" where
  "plain_remote rm \<longleftrightarrow> plain_buttons rm \<and> \<not> has_toggle_bit_mask rm \<and> \<not> is_xmp rm"

lemma plain_remote_codes:
  "plain_remote rm \<Longrightarrow> codes rm = Some cs \<Longrightarrow> map (\<lambda>nc. nc\<lparr>current := None\<rparr>) cs = cs"
  by (auto simp: plain_remote_def plain_buttons_def list_all_iff intro!: map_idI)

lemma full_code_frame [simp]:
  "full_code (rm\<lparr>release_detected := a\<rparr>) p = full_code rm p"
  "full_code (rm\<lparr>reps := b\<rparr>) p = full_code rm p"
  "full_code (rm\<lparr>last_code := c\<rparr>) p = full_code rm p"
  "full_code (rm\<lparr>last_send := e, min_remaining_gap := f, max_remaining_gap := h\<rparr>) p = full_code rm p"
  by (cases p; simp add: full_code_def deref_def has_pre_def has_post_def bit_count_def Let_def)+

lemma set_code_first:
  assumes "plain_remote rm" "codes rm = Some cs" "i < length cs"
  shows "\<exists>ctx' rm'. set_code False rm (NCode i) tbs ctx now = (full_code rm (NCode i), ctx', rm')
    \<and> codes rm' = codes rm \<and> rname rm' = rname rm \<and> reps rm' = 0 \<and> last_code rm' = Some (NCode i)
    \<and> is_xmp rm' = is_xmp rm \<and> has_toggle_mask rm' = has_toggle_mask rm"
proof -
  have pl: "nexts (cs ! i) = []" "current (cs ! i) = None" "\<not> has_toggle_mask rm" "\<not> has_toggle_bit_mask rm"
    using assms by (auto simp: plain_remote_def plain_buttons_def list_all_iff)
  show ?thesis
    using pl assms
    by (cases "release_detected rm")
      (simp_all add: set_code_def is_repetition_def start_press_def deref_def has_toggle_mask_def
        has_toggle_bit_mask_def is_xmp_def Let_def)
qed

lemma report_first:
  assumes rm: "plain_remote rm" "codes rm = Some cs" "i < length cs" "rname rm = Some nm"
    and g: "remotes g = [rm]" "last_decoded g \<noteq> Some 0"
    and len: "length (message_text nm (nname (cs ! i)) (Some []) (full_code rm (NCode i)) 0) \<le> PACKET_SIZE"
  shows "\<exists>g'. report_button d 0 (NCode i) tbs ctx g
    = Some (Some (message_text nm (nname (cs ! i)) (Some []) (full_code rm (NCode i)) 0), g')"
proof -
  obtain now rc where t: "gettimeofday (receiver g) = (now, rc)" by force
  obtain ctx' rm' where sc: "set_code False rm (NCode i) tbs ctx now = (full_code rm (NCode i), ctx', rm')"
    and rm': "codes rm' = codes rm" "rname rm' = rname rm" "reps rm' = 0" "last_code rm' = Some (NCode i)"
      "is_xmp rm' = is_xmp rm" "has_toggle_mask rm' = has_toggle_mask rm"
    using set_code_first [OF rm(1-3)] by blast
  have pl: "nexts (cs ! i) = []" "current (cs ! i) = None" "\<not> has_toggle_mask rm" "\<not> is_xmp rm"
    using rm(1-3) by (auto simp: plain_remote_def plain_buttons_def list_all_iff)
  have f: "codes rm' = Some cs" "rname rm' = Some nm" "reps rm' = 0" "last_code rm' = Some (NCode i)"
    "\<not> is_xmp rm'" "\<not> has_toggle_mask rm'" "rm'\<lparr>codes := Some cs\<rparr> = rm'"
    using rm(2,4) pl rm' by simp_all
  have dr: "deref rm' (NCode i) = cs ! i" using f(1) rm(3) by (simp add: deref_def)
  let ?g1 = "upd_remote 0 (\<lambda>_. rm') (g\<lparr>receiver := rc, last_remote := Some 0, last_decoded := Some 0\<rparr>)"
  have r1: "remotes ?g1 = [rm']" using g(1) by (simp add: upd_remote_def)
  have rs: "restart_codes 0 (NCode i) ?g1 = Some (NCode i, ?g1\<lparr>remotes := [rm']\<rparr>)"
    using f(1-6) plain_remote_codes [OF rm(1,2)]
    by (simp add: restart_codes_def r1 reset_currents_def Let_def f(7))
  obtain t2 rc2 where t2: "gettimeofday (receiver (?g1\<lparr>remotes := [rm']\<rparr>)) = (t2, rc2)" by force
  have em: "\<exists>g'. emit_button d 0 (NCode i) cd rp (?g1\<lparr>remotes := [rm']\<rparr>)
      = (if length (message_text nm (nname (cs ! i)) (Some []) cd rp) \<ge> PACKET_SIZE + 1 then None
         else Some (message_text nm (nname (cs ! i)) (Some []) cd rp), g')" for cd rp
    using t2 f(2) dr by (simp add: emit_button_def write_message_def Let_def)
  have "report_button d 0 (NCode i) tbs ctx g
      = Some (emit_button d 0 (NCode i) (full_code rm (NCode i)) 0 (?g1\<lparr>remotes := [rm']\<rparr>))"
    using t sc g rs f pl dr by (simp add: report_button_def Let_def)
  then show ?thesis using em [of "full_code rm (NCode i)" 0] len by auto
qed

section \<open>From the samples to the message\<close>

lemma gen_ir_code_inj:
  assumes "\<not> is_raw rm" "0 \<le> pre_data_bits rm" "0 \<le> bits rm" "0 \<le> post_data_bits rm"
    "pre_data_bits rm + bits rm + post_data_bits rm \<le> 64"
    and eq: "gen_ir_code rm p c q = gen_ir_code rm p' c' q'"
  shows "c AND gen_mask (bits rm) = c' AND gen_mask (bits rm)"
proof (rule bit_word_eqI)
  fix k assume "k < LENGTH(64)"
  have "bit (gen_ir_code rm p c q) (k + nat (post_data_bits rm))
      = bit (gen_ir_code rm p' c' q') (k + nat (post_data_bits rm))" by (simp only: eq)
  then show "bit (c AND gen_mask (bits rm)) k = bit (c' AND gen_mask (bits rm)) k"
    by (auto simp: bit_gen_ir_code [OF assms(1-5)] Let_def bit_and_iff)
qed

lemma gen_ir_code_masked:
  "\<not> is_raw rm \<Longrightarrow> gen_ir_code rm p (c AND gen_mask (bits rm)) q = gen_ir_code rm p c q"
  by (simp add: gen_ir_code_def Let_def and.assoc)

lemma gen_ir_code_absent:
  "pre_data_bits rm = 0 \<Longrightarrow> gen_ir_code rm p c q = gen_ir_code rm p' c q"
  "post_data_bits rm = 0 \<Longrightarrow> gen_ir_code rm p c q = gen_ir_code rm p c q'"
  by (simp_all add: gen_ir_code_def Let_def gen_mask_def)

text \<open>Button \<open>i\<close> is the first with its code, as far as the remote's \<open>bits\<close> go.\<close>

definition first_with_code :: "ir_remote \<Rightarrow> ir_ncode list \<Rightarrow> nat \<Rightarrow> bool" where
  "first_with_code rm cs i \<longleftrightarrow> i < length cs
     \<and> list_all (\<lambda>nc. code nc AND gen_mask (bits rm) \<noteq> code (cs ! i) AND gen_mask (bits rm)) (take i cs)"

lemma own_code_found:
  assumes r: "space_remote rm" "plain_remote rm" "ignore_mask rm = 0" and c: "codes rm = Some cs"
    and i: "first_with_code rm cs i"
  shows "\<exists>tbs. get_code False rm (if has_pre rm then pre_data rm else 0)
      (code (cs ! i) AND gen_mask (bits rm)) (if has_post rm then post_data rm else 0) rep
    = (Some (NCode i), tbs, rm)"
proof -
  let ?pre = "if has_pre rm then pre_data rm else 0" and ?post = "if has_post rm then post_data rm else 0"
  let ?all = "\<lambda>x. gen_ir_code rm (pre_data rm) x (post_data rm)"
  have b: "\<not> is_raw rm" "0 \<le> pre_data_bits rm" "0 \<le> bits rm" "0 \<le> post_data_bits rm"
    "pre_data_bits rm + bits rm + post_data_bits rm \<le> 64"
    using r(1) space_remote_protocol(1) [OF r(1)] by (auto simp: space_remote_def)
  have nf: "\<not> foreign_data rm ?pre ?post" by (simp add: foreign_data_def)
  have "gen_ir_code rm ?pre x ?post = gen_ir_code rm (pre_data rm) x ?post" for x
    using b(2) gen_ir_code_absent(1) [of rm 0 x _ "pre_data rm"] by (simp add: has_pre_def)
  moreover have "gen_ir_code rm (pre_data rm) x ?post = ?all x" for x
    using b(4) gen_ir_code_absent(2) [of rm "pre_data rm" x 0 "post_data rm"] by (simp add: has_post_def)
  ultimately have all: "gen_ir_code rm ?pre x ?post = ?all x" for x by simp
  have tb: "toggle_bit_mask rm = 0" using r(2) by (simp add: plain_remote_def has_toggle_bit_mask_def word_gt_0)
  have m: "button_matches rm (?all (code (cs ! i) AND gen_mask (bits rm))) nc \<longleftrightarrow> ?all (code nc) = ?all (code (cs ! i))"
    for nc using r(3) tb gen_ir_code_masked [OF b(1)]
    by (simp add: button_matches_def match_ir_code_def)
  have "find_index (button_matches rm (?all (code (cs ! i) AND gen_mask (bits rm)))) cs = Some i"
  proof (rule find_index_SomeI)
    show "i < length cs" using i by (simp add: first_with_code_def)
    show "button_matches rm (?all (code (cs ! i) AND gen_mask (bits rm))) (cs ! i)" by (simp add: m)
    fix j assume j: "j < i"
    then have "code (cs ! j) AND gen_mask (bits rm) \<noteq> code (cs ! i) AND gen_mask (bits rm)"
      using i by (simp add: first_with_code_def list_all_length)
    then show "\<not> button_matches rm (?all (code (cs ! i) AND gen_mask (bits rm))) (cs ! j)"
      unfolding m using gen_ir_code_inj [OF b, of "pre_data rm" "code (cs ! j)" "post_data rm"
        "pre_data rm" "code (cs ! i)" "post_data rm"] by blast
  qed
  then show ?thesis
    using get_code_plain [of rm ?pre ?post "code (cs ! i) AND gen_mask (bits rm)" rep] r(2) nf c all
    by (simp add: plain_remote_def)
qed

lemma press_reported:
  assumes r: "space_remote rm" "separated d rm" "plain_remote rm" "ignore_mask rm = 0"
    and dr: "reads_samples d"
    and md: "pre_data rm AND gen_mask (pre_data_bits rm) = pre_data rm"
      "post_data rm AND gen_mask (post_data_bits rm) = post_data rm"
    and c: "codes rm = Some cs" "first_with_code rm cs i" "rname rm = Some nm"
    and g: "remotes g = [rm]" "last_remote g = None" "last_decoded g \<noteq> Some 0" "\<not> use_dyncodes g"
    and s: "holds_samples (samples_of sp ms v) (receiver g)" "duration sp" "duration v"
    and h: "hears d rm ms (signal_of rm (code (cs ! i)))"
    and gp: "gap_left rm (sum_list ms) \<le> v" "0 \<le> min_gap rm" "min_gap rm < 0x01000000"
      "sum_list ms < 0x01000000"
    and len: "length (message_text nm (nname (cs ! i)) (Some []) (full_code rm (NCode i)) 0) \<le> PACKET_SIZE"
  shows "\<exists>g'. decode_all d (receive_decode d) g
    = Some (Some (message_text nm (nname (cs ! i)) (Some []) (full_code rm (NCode i)) 0), g')"
proof -
  have nt: "\<not> has_toggle_mask rm" using r(3) by (simp add: plain_remote_def plain_buttons_def)
  obtain ctx rc where dec: "receive_decode d None False rm (receiver g) = Some (True, ctx, rm, rc)"
    "ctx_code ctx = code (cs ! i) AND gen_mask (bits rm)"
    "ctx_pre ctx = (if has_pre rm then pre_data rm else 0)"
    "ctx_post ctx = (if has_post rm then post_data rm else 0)"
    using decode_hears [OF r(1,2) nt dr _ md s _ h gp, of False None] by auto
  obtain tbs where gc: "button_of False True ctx rm = (Some (NCode i), tbs, rm)"
    using own_code_found [OF r(1,3,4) c(1,2), of "ctx_repeat_flag ctx"] dec(2-4) by (auto simp: button_of_def)
  let ?g1 = "upd_remote 0 (\<lambda>_. rm) (upd_remote 0 (\<lambda>_. rm) (g\<lparr>decoding := True, receiver := rc\<rparr>))"
  have i: "i < length cs" using c(2) by (simp add: first_with_code_def)
  have g1: "remotes ?g1 = [rm]" "last_decoded ?g1 \<noteq> Some 0" using g(1,3) by (simp_all add: upd_remote_def)
  have "decode_all d (receive_decode d) g = report_button d 0 (NCode i) tbs ctx ?g1"
    using g dec(1) gc by (simp add: decode_all_def decode_from.simps [of d _ 0] Let_def)
  then show ?thesis using report_first [OF r(3) c(1) i c(3) g1 len] by simp
qed

end
