(* ===== verification/Transmit_Facts.thy ===== *)
theory Transmit_Facts
  imports Transmit
begin

text \<open>
  Facts about \<open>lib/transmit.c\<close> for every protocol: the loop of \<open>init_send_or_sim\<close> ends, the
  buffer a successful call leaves has an odd number of samples, none of them 0, and the
  accesses stay inside the arrays. The repeat path that uses a stale data pointer is shown by
  example.
\<close>

section \<open>The buffer pointer\<close>

text \<open>The own array and the write pointer; every operation but the raw-code path keeps it.\<close>

definition tx_inv :: "sbuf \<Rightarrow> bool" where
  "tx_inv t \<longleftrightarrow> length (tx_buf t) = 256 \<and> tx_wptr t \<le> 256"

text \<open>The invariant together with what the emission functions never touch.\<close>

definition tx_keeps :: "sbuf \<Rightarrow> sbuf \<Rightarrow> bool" where
  "tx_keeps t t' \<longleftrightarrow> (tx_inv t \<longrightarrow> tx_inv t') \<and> tx_data t' = tx_data t \<and> tx_fault t' = tx_fault t"

lemma tx_keeps_refl [simp]: "tx_keeps t t"
  by (simp add: tx_keeps_def)

lemma tx_keeps_trans [trans]: "tx_keeps a b \<Longrightarrow> tx_keeps b c \<Longrightarrow> tx_keeps a c"
  by (auto simp: tx_keeps_def)

lemma tx_keeps_pending [simp]:
  "tx_keeps t (t'\<lparr>tx_pendingp := a\<rparr>) = tx_keeps t t'" "tx_keeps t (t'\<lparr>tx_pendings := a\<rparr>) = tx_keeps t t'"
  "tx_keeps t (t'\<lparr>tx_sum := b\<rparr>) = tx_keeps t t'"
  by (simp_all add: tx_keeps_def tx_inv_def)

lemma keeps_add [simp]: "tx_keeps t (add_send_buffer v t)"
  by (simp add: tx_keeps_def tx_inv_def add_send_buffer_def)

lemma keeps_pulse [simp]: "tx_keeps t (send_pulse v t)"
  by (simp add: send_pulse_def Let_def)

lemma keeps_space [simp]: "tx_keeps t (send_space v t)"
  by (simp add: send_space_def Let_def)

named_theorems tx_steps \<open>what is emitted after something that kept the buffer\<close>

lemma keeps_pulse' [tx_steps]: "tx_keeps t t' \<Longrightarrow> tx_keeps t (send_pulse v t')"
  by (rule tx_keeps_trans [OF _ keeps_pulse])

lemma keeps_space' [tx_steps]: "tx_keeps t t' \<Longrightarrow> tx_keeps t (send_space v t')"
  by (rule tx_keeps_trans [OF _ keeps_space])

lemma keeps_bits: "tx_keeps t (send_bits rm n i msk x t)"
proof (induction rm n i msk x t rule: send_bits.induct)
  case (1 rm n i msk x t)
  have b: "tx_keeps t (send_bit rm msk b t)" for b
    by (auto simp: send_bit_def intro!: tx_steps)
  show ?case
    using 1 [OF _ refl refl] b by (subst send_bits.simps) (auto simp: Let_def intro: tx_keeps_trans)
qed

lemma keeps_rcmm: "tx_keeps t (send_rcmm rm n i x t)"
proof (induction rm n i x t rule: send_rcmm.induct)
  case (1 rm n i x t)
  have st: "tx_keeps t (send_space b (send_pulse a t))" for a b by (auto intro!: tx_steps)
  show ?case
    by (subst send_rcmm.simps) (auto simp: Let_def intro!: tx_keeps_trans [OF st] 1)
qed

lemma keeps_xmp: "tx_keeps t (send_xmp rm n i x t)"
proof (induction rm n i x t rule: send_xmp.induct)
  case (1 rm n i x t)
  have st: "tx_keeps t (send_space b (send_pulse a t))" for a b by (auto intro!: tx_steps)
  show ?case
    by (subst send_xmp.simps) (auto simp: Let_def intro!: tx_keeps_trans [OF st] 1)
qed

lemma keeps_data: "tx_keeps t (send_data rm x n dn t)"
  by (simp add: send_data_def Let_def keeps_bits keeps_rcmm keeps_xmp)

lemma keeps_data' [tx_steps]: "tx_keeps t t' \<Longrightarrow> tx_keeps t (send_data rm x n dn t')"
  by (rule tx_keeps_trans [OF _ keeps_data])

lemma keeps_parts [tx_steps]:
  "tx_keeps t t' \<Longrightarrow> tx_keeps t (send_header rm t')" "tx_keeps t t' \<Longrightarrow> tx_keeps t (send_lead rm t')"
  "tx_keeps t t' \<Longrightarrow> tx_keeps t (send_trail rm t')" "tx_keeps t t' \<Longrightarrow> tx_keeps t (send_foot rm t')"
  "tx_keeps t t' \<Longrightarrow> tx_keeps t (send_pre rm t')" "tx_keeps t t' \<Longrightarrow> tx_keeps t (send_post rm t')"
  by (auto simp: send_header_def send_lead_def send_trail_def send_foot_def send_pre_def send_post_def
      Let_def intro!: tx_steps)

lemma keeps_code: "tx_keeps t (send_code rm cd rep t)"
  by (auto simp: send_code_def Let_def intro!: tx_steps)

lemma keeps_repeat [tx_steps]: "tx_keeps t t' \<Longrightarrow> tx_keeps t (send_repeat rm t')"
  by (auto simp: send_repeat_def intro!: tx_steps)

lemma keeps_sync: "tx_keeps t (sync_send_buffer t)"
proof -
  have "tx_keeps t (if c then t'\<lparr>tx_wptr := tx_wptr t' - 1\<rparr> else t')" if "tx_keeps t t'" for c t'
    using that by (auto simp: tx_keeps_def tx_inv_def)
  then show ?thesis by (simp add: sync_send_buffer_def Let_def)
qed

lemma keeps_flush: "tx_keeps t (flush_send_buffer t)"
  by (auto simp: flush_send_buffer_def Let_def intro!: tx_keeps_trans [OF _ keeps_add])

lemma sync_parity: "tx_wptr (sync_send_buffer t) = 0 \<or> odd (tx_wptr (sync_send_buffer t))"
  by (auto simp: sync_send_buffer_def Let_def split: if_splits)

section \<open>The loop ends\<close>

text \<open>The number of passes left: repeats times nodes of the button, and the node at hand.\<close>

definition passes_left :: "ir_remote \<Rightarrow> ir_ncode \<Rightarrow> nat" where
  "passes_left rm nc = nat (repeat_countdown rm) * (length (nexts nc) + 2)
     + (case transmit_state nc of None \<Rightarrow> length (nexts nc) + 1 | Some j \<Rightarrow> length (nexts nc) - j)"

lemma fill_once_frame:
  assumes "fill_once rm nc sim rep t = (ok, rm', t')"
  shows "repeat_countdown rm' = repeat_countdown rm" "is_xmp rm' = is_xmp rm"
  using assms by (auto simp: fill_once_def Let_def is_xmp_def split: if_splits option.splits)

lemma set_remaining_gap_frame:
  assumes "set_remaining_gap rm rep t = (ok, rm')"
  shows "repeat_countdown rm' = repeat_countdown rm" "is_xmp rm' = is_xmp rm"
  using assms by (auto simp: set_remaining_gap_def is_xmp_def split: if_splits)

lemma passes_left_decrease:
  assumes go: "repeat_countdown rm > 0 \<or> next_transmit_state rm nc \<noteq> None"
    and xmp: "\<not> is_xmp rm" and w: "nexts nc \<noteq> [] \<or> transmit_state nc = None"
    and small: "repeat_countdown rm < 2147483648"
    and nc': "nc' = nc\<lparr>transmit_state := next_transmit_state rm nc\<rparr>"
    and rm': "repeat_countdown rm' = (if nexts nc = [] \<or> transmit_state nc' = None
        then i32 (repeat_countdown rm - 1) else repeat_countdown rm)"
  shows "passes_left rm' nc' < passes_left rm nc"
proof -
  let ?l = "length (nexts nc)"
  consider (last) "next_transmit_state rm nc = None"
    | (node) j where "next_transmit_state rm nc = Some j" "nexts nc \<noteq> []"
        "case transmit_state nc of None \<Rightarrow> j = 0 | Some i \<Rightarrow> j = i + 1 \<and> i + 1 < ?l"
  proof (cases "next_transmit_state rm nc")
    case (Some j)
    then have "nexts nc \<noteq> []" using w by (auto simp: next_transmit_state_def split: if_splits)
    moreover have "case transmit_state nc of None \<Rightarrow> j = 0 | Some i \<Rightarrow> j = i + 1 \<and> i + 1 < ?l"
      using Some xmp calculation
      by (cases "transmit_state nc") (auto simp: next_transmit_state_def succ_node_def split: if_splits)
    ultimately show thesis using Some that(2) by blast
  qed
  then show ?thesis
  proof cases
    case last
    with go have c: "0 < repeat_countdown rm" by simp
    then obtain n where n: "repeat_countdown rm = int (Suc n)"
      by (metis gr0_implies_Suc zero_less_imp_eq_int of_nat_0_less_iff)
    have "i32 (repeat_countdown rm - 1) = int n" using small n by (simp add: i32_id)
    then have "passes_left rm' nc' = n * (?l + 2) + (?l + 1)"
      using rm' last by (simp add: passes_left_def nc')
    moreover have "nat (repeat_countdown rm) = Suc n" by (simp only: n nat_int)
    ultimately show ?thesis by (simp add: passes_left_def split: option.split)
  next
    case node
    then have "repeat_countdown rm' = repeat_countdown rm" using rm' by (simp add: nc')
    with node show ?thesis
      by (auto simp: passes_left_def nc' split: option.splits)
  qed
qed

lemma send_pass_Inr:
  assumes "send_pass sim rep rm nc t = Inr r"
  shows "\<exists>rm1 t1 rm2 nc2. fill_once rm nc sim rep t = (True, rm1, t1)
    \<and> set_remaining_gap rm1 rep t1 = (True, rm2)
    \<and> nc2 = nc\<lparr>transmit_state := next_transmit_state rm2 nc\<rparr> \<and> loops_back rm2 nc2
    \<and> r = prepare_next rm2 nc2 t1"
proof -
  obtain ok rm1 t1 where 1: "fill_once rm nc sim rep t = (ok, rm1, t1)" by (metis prod_cases3)
  obtain ok2 rm2 where 2: "set_remaining_gap rm1 rep t1 = (ok2, rm2)" by force
  show ?thesis using assms 1 2 by (simp add: send_pass_def Let_def split: if_splits)
qed

lemma send_pass_progress:
  assumes "send_pass sim rep rm nc t = Inr (rm', nc', t')" "\<not> is_xmp rm"
    "nexts nc \<noteq> [] \<or> transmit_state nc = None" "repeat_countdown rm < 2147483648"
  shows "passes_left rm' nc' < passes_left rm nc \<and> \<not> is_xmp rm' \<and> nexts nc' = nexts nc
    \<and> (nexts nc' \<noteq> [] \<or> transmit_state nc' = None) \<and> repeat_countdown rm' < 2147483648"
proof -
  obtain rm1 t1 rm2 where 1: "fill_once rm nc sim rep t = (True, rm1, t1)"
      "set_remaining_gap rm1 rep t1 = (True, rm2)"
    and nc': "nc' = nc\<lparr>transmit_state := next_transmit_state rm2 nc\<rparr>" and lb: "loops_back rm2 nc'"
    and pn: "(rm', nc', t') = prepare_next rm2 nc' t1"
    using send_pass_Inr [OF assms(1)] by (auto simp: prepare_next_def Let_def)
  have f: "repeat_countdown rm2 = repeat_countdown rm" "is_xmp rm2 = is_xmp rm"
    using fill_once_frame [OF 1(1)] set_remaining_gap_frame [OF 1(2)] by simp_all
  have rm': "rm' = (if nexts nc = [] \<or> transmit_state nc' = None
      then rm2\<lparr>repeat_countdown := i32 (repeat_countdown rm2 - 1)\<rparr> else rm2)"
    using pn nc' by (simp add: prepare_next_def Let_def)
  have go: "repeat_countdown rm2 > 0 \<or> next_transmit_state rm2 nc \<noteq> None"
    using lb nc' by (simp add: loops_back_def)
  have x: "\<not> is_xmp rm'" using rm' f(2) assms(2) by (simp add: is_xmp_def)
  have c: "repeat_countdown rm' = (if nexts nc = [] \<or> transmit_state nc' = None
      then i32 (repeat_countdown rm2 - 1) else repeat_countdown rm2)" using rm' by simp
  have dec: "passes_left rm' nc' < passes_left rm2 nc"
    using passes_left_decrease [OF go _ assms(3) _ nc' c] f assms by simp
  have "passes_left rm2 nc = passes_left rm nc" using f by (simp add: passes_left_def)
  moreover have "repeat_countdown rm' < 2147483648"
    using c f assms(4) i32_range [of "repeat_countdown rm2 - 1"] by simp
  moreover have "nexts nc' \<noteq> [] \<or> transmit_state nc' = None" "nexts nc' = nexts nc"
    using nc' assms(3) by (auto simp: next_transmit_state_def)
  ultimately show ?thesis using dec x by simp
qed

lemma send_loop_returns:
  assumes "\<not> is_xmp rm" "nexts nc \<noteq> [] \<or> transmit_state nc = None" "repeat_countdown rm < 2147483648"
  shows "send_loop sim rep rm nc t \<noteq> None"
  using assms
proof (induction "passes_left rm nc" arbitrary: rep rm nc t rule: less_induct)
  case less
  show ?case
  proof (cases "send_pass sim rep rm nc t")
    case (Inl r)
    then show ?thesis by (subst send_loop.simps) simp
  next
    case (Inr q)
    obtain rm' nc' t' where q: "q = (rm', nc', t')" by (metis prod_cases3)
    have "send_loop sim True rm' nc' t' \<noteq> None"
      using less.hyps less.prems send_pass_progress [OF Inr [unfolded q]] by blast
    then show ?thesis using Inr q by (subst send_loop.simps) simp
  qed
qed

text \<open>A simulated transmission is a single pass.\<close>

lemma sim_pass: "isl (send_pass True rep rm nc t)"
  by (simp add: send_pass_def Let_def split: prod.split)

lemma init_sim_returns: "init_sim rm nc rep t \<noteq> None"
proof -
  have "send_loop True b rm' nc t' \<noteq> None" for b rm' t'
    using sim_pass [of b rm' nc t'] by (subst send_loop.simps) (auto simp: isl_def)
  then show ?thesis
    unfolding init_sim_def init_send_or_sim_def Let_def by (metis option.distinct(1))
qed

section \<open>What a successful call leaves\<close>

text \<open>Odd, and no sample is 0.\<close>

definition well_formed_signal :: "sbuf \<Rightarrow> bool" where
  "well_formed_signal t \<longleftrightarrow> odd (send_buffer_length t) \<and> list_all (\<lambda>v. v \<noteq> 0) (send_buffer_data t)"

lemma touch_frame [simp]:
  "tx_wptr (tx_touch_all t) = tx_wptr t" "send_buffer_data (tx_touch_all t) = send_buffer_data t"
  "tx_buf (tx_touch_all t) = tx_buf t" "tx_data (tx_touch_all t) = tx_data t"
  by (auto simp: tx_touch_all_def send_buffer_data_def tx_at_def tx_ok_def split: tx_ptr.split)

lemma final_check_ok:
  assumes "final_check rm nc t = (True, rm', nc', t')"
  shows "t' = tx_touch_all t \<and> tx_wptr t \<noteq> 0 \<and> list_all (\<lambda>v. v \<noteq> 0) (send_buffer_data t)"
  using assms by (auto simp: final_check_def check_send_buffer_def split: if_splits)

lemma fill_once_parity:
  "fill_once rm nc sim rep t = (True, rm', t') \<Longrightarrow> tx_wptr t' = 0 \<or> odd (tx_wptr t')"
proof -
  assume "fill_once rm nc sim rep t = (True, rm', t')"
  then have "\<exists>x. t' = sync_send_buffer x"
    by (auto simp: fill_once_def Let_def split: if_splits option.splits)
  then obtain x where "t' = sync_send_buffer x" by blast
  then show ?thesis using sync_parity [of x] by simp
qed

lemma send_pass_signal:
  assumes "send_pass sim rep rm nc t = Inl (True, rm', nc', t')"
  shows "well_formed_signal t'"
proof -
  obtain ok rm1 t1 where 1: "fill_once rm nc sim rep t = (ok, rm1, t1)" by (metis prod_cases3)
  then have p: "ok \<Longrightarrow> tx_wptr t1 = 0 \<or> odd (tx_wptr t1)" by (auto dest: fill_once_parity)
  obtain rm2 nc2 where "ok" "final_check rm2 nc2 t1 = (True, rm', nc', t')"
    using assms 1 by (auto simp: send_pass_def Let_def split: if_splits prod.splits)
  then show ?thesis using p final_check_ok [of rm2 nc2 t1]
    by (auto simp: well_formed_signal_def send_buffer_length_def)
qed

lemma send_loop_signal:
  assumes "send_loop sim rep rm nc t = Some r" "fst r"
  shows "well_formed_signal (snd (snd (snd r)))"
proof -
  have "fst r \<longrightarrow> well_formed_signal (snd (snd (snd r)))"
  proof (rule send_loop.raw_induct [OF _ assms(1)])
    fix f sim rep rm nc t y
    assume ih: "\<And>a b c e h z. f a b c e h = Some z \<Longrightarrow> fst z \<longrightarrow> well_formed_signal (snd (snd (snd z)))"
      and eq: "(case send_pass sim rep rm nc t of Inl r \<Rightarrow> Some r
        | Inr (rm, nc, t) \<Rightarrow> f sim True rm nc t) = Some y"
    show "fst y \<longrightarrow> well_formed_signal (snd (snd (snd y)))"
    proof (cases "send_pass sim rep rm nc t")
      case (Inl q)
      with eq have "send_pass sim rep rm nc t = Inl y" by simp
      then show ?thesis by (cases y) (auto dest: send_pass_signal)
    next
      case (Inr q)
      with eq ih show ?thesis by (cases q) auto
    qed
  qed
  with assms(2) show ?thesis by simp
qed

lemma init_send_signal:
  assumes "init_send_or_sim repeating rm nc sim rep t = Some (True, rm', nc', t')"
  shows "well_formed_signal t'"
proof (cases "rname rm = Some ''lirc''")
  case True
  then have "final_check rm nc (put_eof (clear_send_buffer t)) = (True, rm', nc', t')"
    using assms by (auto simp: init_send_or_sim_def Let_def split: if_splits)
  then show ?thesis
    by (auto dest!: final_check_ok simp: well_formed_signal_def send_buffer_length_def put_eof_def
        clear_send_buffer_def Let_def split: tx_ptr.splits if_splits)
next
  case False
  then show ?thesis
    using assms by (auto simp: init_send_or_sim_def Let_def split: if_splits dest!: send_loop_signal)
qed

lemma init_send_rejects:
  "is_grundig rm \<or> is_serial rm \<or> is_bo rm \<Longrightarrow>
    init_send_or_sim repeating rm nc sim rep t = Some (False, rm, nc, t)"
  by (simp only: init_send_or_sim_def if_True)

section \<open>Memory\<close>

text \<open>The data pointer is the own array.\<close>

definition tx_safe :: "sbuf \<Rightarrow> bool" where
  "tx_safe t \<longleftrightarrow> tx_inv t \<and> tx_data t = TxBuf"

lemma safe_touch: "tx_safe t \<Longrightarrow> tx_touch_all t = t"
proof -
  assume "tx_safe t"
  then have "list_all (tx_ok t) [0..<tx_wptr t]"
    by (auto simp: tx_safe_def tx_inv_def tx_ok_def list_all_iff)
  then show ?thesis by (simp add: tx_touch_all_def)
qed

lemma keeps_safe: "tx_keeps t t' \<Longrightarrow> tx_safe t \<Longrightarrow> tx_safe t'"
  by (auto simp: tx_keeps_def tx_safe_def)

lemma fill_once_safe:
  assumes "fill_once rm nc sim rep t = (ok, rm', t')" "\<not> is_raw rm" "tx_inv t"
    "rep \<and> has_repeat rm \<Longrightarrow> tx_data t = TxBuf"
  shows "ok \<and> tx_safe t' \<and> tx_fault t' = tx_fault t \<and> is_raw rm' = is_raw rm \<and> has_repeat rm' = has_repeat rm"
proof (cases "rep \<and> has_repeat rm")
  case True
  have "tx_keeps t (sync_send_buffer (send_repeat rm
      (if flags rm AND REPEAT_HEADER \<noteq> 0 \<and> has_header rm then send_header rm t else t)))"
    by (rule tx_keeps_trans [OF _ keeps_sync]) (auto intro!: tx_steps)
  with True assms show ?thesis by (auto simp: fill_once_def Let_def tx_keeps_def tx_safe_def)
next
  case False
  let ?t = "send_code rm (next_tx_code rm nc sim rep) rep t"
  have "tx_keeps (?t\<lparr>tx_data := TxBuf\<rparr>) (sync_send_buffer (?t\<lparr>tx_data := TxBuf\<rparr>))" by (rule keeps_sync)
  moreover have "tx_keeps t ?t" by (rule keeps_code)
  moreover have "ok" "t' = sync_send_buffer (?t\<lparr>tx_data := TxBuf\<rparr>)" "is_raw rm' = is_raw rm"
    "has_repeat rm' = has_repeat rm"
    using False assms(1,2) by (auto simp: fill_once_def Let_def is_raw_def has_repeat_def split: if_splits)
  ultimately show ?thesis using assms(3) by (auto simp: tx_keeps_def tx_safe_def tx_inv_def)
qed

lemma unroll_safe: "tx_safe t \<Longrightarrow> unroll_raw t = t"
  by (simp add: unroll_raw_def tx_safe_def)

lemma gap_frame:
  "set_remaining_gap rm rep t = (ok, rm') \<Longrightarrow> is_raw rm' = is_raw rm \<and> has_repeat rm' = has_repeat rm"
  by (auto simp: set_remaining_gap_def is_raw_def has_repeat_def split: if_splits)

text \<open>The property of a pass and of the loop: inside the arrays, nothing else touched.\<close>

definition sends_safely :: "sbuf \<Rightarrow> sbuf \<Rightarrow> bool" where
  "sends_safely t t' \<longleftrightarrow> tx_safe t' \<and> tx_fault t' = tx_fault t"

lemma final_check_safe:
  "final_check rm nc t = (b, rm', nc', t') \<Longrightarrow> tx_safe t \<Longrightarrow> t' = t"
  by (auto simp: final_check_def check_send_buffer_def safe_touch split: if_splits)

lemma prepare_next_safe:
  assumes "prepare_next rm nc t = (rm', nc', t')" "tx_safe t" "\<not> is_raw rm"
  shows "sends_safely t t' \<and> \<not> is_raw rm'"
proof -
  obtain x where t': "t' = flush_send_buffer (send_space x t)\<lparr>tx_sum := 0\<rparr>"
    using assms(1,2) by (auto simp: prepare_next_def unroll_safe Let_def)
  have k: "tx_keeps t t'"
    unfolding t' tx_keeps_pending by (rule tx_keeps_trans [OF keeps_space keeps_flush])
  have "\<not> is_raw rm'" using assms(1,3) by (auto simp: prepare_next_def is_raw_def Let_def split: if_splits)
  then show ?thesis using keeps_safe [OF k assms(2)] k by (simp add: sends_safely_def tx_keeps_def)
qed

lemma send_pass_safe:
  assumes "\<not> is_raw rm" "tx_inv t" "rep \<and> has_repeat rm \<Longrightarrow> tx_data t = TxBuf"
  shows "case send_pass sim rep rm nc t of
      Inl (ok, rm', nc', t') \<Rightarrow> sends_safely t t'
    | Inr (rm', nc', t') \<Rightarrow> sends_safely t t' \<and> \<not> is_raw rm'"
proof -
  obtain ok rm1 t1 where 1: "fill_once rm nc sim rep t = (ok, rm1, t1)" by (metis prod_cases3)
  have s1: "tx_safe t1" "tx_fault t1 = tx_fault t" "ok" "\<not> is_raw rm1"
    using fill_once_safe [OF 1 assms] assms(1) by auto
  obtain ok2 rm2 where 2: "set_remaining_gap rm1 rep t1 = (ok2, rm2)" by force
  have raw: "\<not> is_raw rm2" using gap_frame [OF 2] s1(4) by simp
  show ?thesis
  proof (cases "send_pass sim rep rm nc t")
    case (Inl q)
    obtain b rm' nc' t' where q: "q = (b, rm', nc', t')" by (metis prod_cases4)
    have "t' = t1 \<or> (\<exists>r n. final_check r n t1 = (b, rm', nc', t'))"
      using Inl q 1 2 s1(3) by (simp add: send_pass_def Let_def split: if_splits) blast+
    then have "t' = t1" using final_check_safe s1(1) by blast
    then show ?thesis using Inl q s1 by (simp add: sends_safely_def)
  next
    case (Inr q)
    obtain rm' nc' t' where q: "q = (rm', nc', t')" by (metis prod_cases3)
    have "\<exists>n. prepare_next rm2 n t1 = (rm', nc', t')"
      using send_pass_Inr [OF Inr] q 1 2 by auto
    then show ?thesis using prepare_next_safe [OF _ s1(1) raw] Inr q s1(2)
      by (auto simp: sends_safely_def)
  qed
qed

lemma send_loop_safe:
  assumes "send_loop sim rep rm nc t = Some r" "\<not> is_raw rm" "tx_inv t"
    "rep \<and> has_repeat rm \<Longrightarrow> tx_data t = TxBuf"
  shows "sends_safely t (snd (snd (snd r)))"
proof -
  let ?P = "\<lambda>sim rep rm nc t r. \<not> is_raw rm \<longrightarrow> tx_inv t \<longrightarrow> (rep \<and> has_repeat rm \<longrightarrow> tx_data t = TxBuf)
    \<longrightarrow> sends_safely t (snd (snd (snd r)))"
  have "?P sim rep rm nc t r"
  proof (rule send_loop.raw_induct [of ?P, OF _ assms(1)])
    fix f sim rep rm nc t y
    assume ih: "\<And>a b c e h z. f a b c e h = Some z \<Longrightarrow> ?P a b c e h z"
      and eq: "(case send_pass sim rep rm nc t of Inl r \<Rightarrow> Some r
        | Inr (rm, nc, t) \<Rightarrow> f sim True rm nc t) = Some y"
    show "?P sim rep rm nc t y"
    proof (intro impI)
      assume a: "\<not> is_raw rm" "tx_inv t" "rep \<and> has_repeat rm \<longrightarrow> tx_data t = TxBuf"
      show "sends_safely t (snd (snd (snd y)))"
      proof (cases "send_pass sim rep rm nc t")
        case (Inl q)
        with eq send_pass_safe [OF a(1,2), of rep sim nc] a(3) show ?thesis by (cases y) simp
      next
        case (Inr q)
        obtain rm' nc' t' where q: "q = (rm', nc', t')" by (metis prod_cases3)
        have s: "sends_safely t t'" "\<not> is_raw rm'"
          using send_pass_safe [OF a(1,2), of rep sim nc] a(3) Inr q by auto
        then have "sends_safely t' (snd (snd (snd y)))"
          using ih [of sim True rm' nc' t' y] eq Inr q by (simp add: sends_safely_def tx_safe_def)
        then show ?thesis using s(1) by (simp add: sends_safely_def)
      qed
    qed
  qed
  with assms(2-4) show ?thesis by blast
qed

end
