(* ===== verification/Sample.thy ===== *)
theory Sample
  imports Space_Send Transmit_Facts Release
begin

text \<open>
  A small remote, the empty buffers and a driver, for the examples that go with the properties:
  space encoding with a header, four bits of pre data, four data bits and a trailing pulse.
\<close>

definition sample_button :: "string \<Rightarrow> ir_code \<Rightarrow> ir_ncode" where
  "sample_button nm c = zero_ncode\<lparr>nname := nm, code := c\<rparr>"

definition sample_remote :: ir_remote where
  "sample_remote = zero_remote\<lparr>rname := Some ''tv'', codes := Some [sample_button ''UP'' 5, sample_button ''DOWN'' 10],
     bits := 4, flags := SPACE_ENC, eps := 30, aeps := 100, phead := 9000, shead := 4500,
     pone := 560, sone := 1690, pzero := 560, szero := 560, ptrail := 560,
     pre_data_bits := 4, pre_data := 14, gap := 40000, min_repeat := 0\<rparr>"

definition sample_driver :: driver where
  "sample_driver = \<lparr>resolution = 0, rec_mode = LIRC_MODE_MODE2, code_length = 0\<rparr>"

definition sample_tx :: sbuf where
  "sample_tx = \<lparr>tx_data = TxNull, tx_buf = replicate 256 0, tx_wptr = 0, tx_too_long = False,
     tx_biphase = False, tx_pendingp = 0, tx_pendings = 0, tx_sum = 0, tx_fault = False\<rparr>"

definition sample_rx :: "lirc_t list \<Rightarrow> rstate" where
  "sample_rx xs = \<lparr>rdata = replicate 512 0, decoded = 0, rptr = 0, wptr = 0, too_long = False,
     rb_biphase = False, pendingp = 0, pendings = 0, rsum = 0, last_signal_time = zero_timeval,
     at_eof = False, input_log = None, update_mode = False, input = xs, clock = [], lirccode = [],
     mem_fault = False\<rparr>"

section \<open>The sample remote\<close>

lemma sample_space_remote: "space_remote sample_remote" "plain_sender sample_remote"
  by (simp_all add: space_remote_def plain_sender_def sample_remote_def zero_remote_def c_defs duration_def)

lemma sample_not_const: "\<not> is_const sample_remote" "\<not> is_raw sample_remote" "\<not> has_repeat sample_remote"
  by (simp_all add: sample_remote_def zero_remote_def c_defs)

lemma sample_button_plain: "nexts (sample_button nm c) = []" "transmit_state (sample_button nm c) = None"
  "code (sample_button nm c) = c" "nname (sample_button nm c) = nm" "current (sample_button nm c) = None"
  by (simp_all add: sample_button_def zero_ncode_def)

lemma sample_tx_inv: "tx_inv sample_tx" "length (tx_buf sample_tx) = 256" "\<not> tx_fault sample_tx"
  by (simp_all add: tx_inv_def sample_tx_def)

lemma sample_min_gap: "min_gap sample_remote = 40000"
  by (simp add: min_gap_def sample_remote_def zero_remote_def c_arith)

lemma sample_signal: "signal_of sample_remote 5 = [9000, 4500, 560, 1690, 560, 1690, 560, 1690, 560, 560,
    560, 560, 560, 1690, 560, 560, 560, 1690, 560]"
  by (simp add: signal_of_def header_signal_def pre_signal_def post_signal_def tail_signal_def
      data_signal_def bits_msb_def bit_pair_def sample_remote_def zero_remote_def c_defs
      bit_numeral_rec upt_rec)

text \<open>What a receiver measures of this signal: every duration 50 microseconds too long.\<close>

definition sample_heard :: "lirc_t list" where
  "sample_heard = [9050, 4550, 610, 1740, 610, 1740, 610, 1740, 610, 610,
    610, 610, 610, 1740, 610, 610, 610, 1740, 610]"

lemma sample_tolerance: "expect sample_driver sample_remote m e \<longleftrightarrow>
    \<bar>i32 (e - m)\<bar> \<le> i32 (e * 30) sdiv 100 \<or> \<bar>i32 (e - m)\<bar> \<le> 100"
  by (simp add: expect_def cur_aeps_def sample_driver_def sample_remote_def zero_remote_def c_arith)

lemma sample_hears: "hears sample_driver sample_remote sample_heard (signal_of sample_remote 5)"
  by (simp add: hears_def sample_heard_def sample_signal sample_tolerance duration_def c_arith)

lemma sample_separated: "separated sample_driver sample_remote"
  by (simp add: separated_def tolerance_def cur_aeps_def sample_driver_def sample_remote_def
      zero_remote_def c_arith)

lemma sample_rx_holds: "length xs \<le> 512 \<Longrightarrow> holds_samples xs (sample_rx xs)"
  by (simp add: holds_samples_def sample_rx_def zero_timeval_def)

lemma sample_rx_tape: "length xs \<le> 512 \<Longrightarrow> on_tape xs 0 0 0 0 (sample_rx xs)"
  by (simp add: on_tape_def sample_rx_def tape_sum_def)

lemma sample_reads: "reads_samples sample_driver"
  by (simp add: reads_samples_def sample_driver_def)

lemma sample_gap: "gap_left sample_remote t = 40000"
  by (simp add: gap_left_def sample_not_const sample_min_gap)

lemma sample_data: "pre_data sample_remote AND gen_mask (pre_data_bits sample_remote) = pre_data sample_remote"
  "post_data sample_remote AND gen_mask (post_data_bits sample_remote) = post_data sample_remote"
  by (simp_all add: sample_remote_def zero_remote_def gen_mask_eq_mask mask_eq_exp_minus_1)

end
