(* ===== verification/Transmit_Props.thy ===== *)
theory Transmit_Props
  imports Sample
begin

text \<open>
  The properties of \<open>lib/transmit.c\<close>, each with an example of its use on the sample remote.
\<close>

section \<open>Properties\<close>

text \<open>C31. For a space-encoded remote \<open>send_buffer_put\<close> succeeds, leaves in the buffer exactly
  the header, pre data, code, post data, trail and foot of the code, and sets the gap that must
  follow to the configured gap, for signals of constant length less the length of the signal.\<close>

theorem put_leaves_signal:
  assumes "space_remote rm" "plain_sender rm" "length (tx_buf t) = 256"
    "nexts nc = []" "transmit_state nc = None"
    "is_const rm \<Longrightarrow> i32 (sum_list (signal_of rm (code nc))) < min_gap rm"
  shows "\<exists>rm' t'. send_buffer_put False rm nc t = Some (True, rm', nc, t')
    \<and> send_buffer_data t' = signal_of rm (code nc)
    \<and> min_remaining_gap rm' = (if is_const rm
        then i32 (min_gap rm - i32 (sum_list (signal_of rm (code nc)))) else min_gap rm)"
  using put_space_remote [OF assms] by blast

theorem put_leaves_signal_witness:
  "\<exists>rm' t'. send_buffer_put False sample_remote (sample_button ''UP'' 5) sample_tx
      = Some (True, rm', sample_button ''UP'' 5, t')
    \<and> send_buffer_data t' = [9000, 4500, 560, 1690, 560, 1690, 560, 1690, 560, 560,
        560, 560, 560, 1690, 560, 560, 560, 1690, 560]
    \<and> min_remaining_gap rm' = 40000"
proof -
  show ?thesis
    using put_leaves_signal [OF sample_space_remote sample_tx_inv(2) sample_button_plain(1,2), of "''UP''" 5]
    by (simp add: sample_not_const sample_button_plain sample_signal sample_min_gap)
qed

text \<open>C35. Whenever the encoder succeeds, for any protocol, whether it sends or simulates, the
  buffer holds an odd number of durations (it begins and ends with a pulse), none of them 0.\<close>

theorem sent_signal_well_formed:
  assumes "init_send_or_sim repeating rm nc sim rep t = Some (True, rm', nc', t')"
  shows "odd (send_buffer_length t') \<and> (\<forall>v \<in> set (send_buffer_data t'). v \<noteq> 0)"
  using init_send_signal [OF assms] by (simp add: well_formed_signal_def list_all_iff)

theorem sent_signal_well_formed_witness:
  "\<exists>rm' nc' t'. init_send_or_sim False sample_remote (sample_button ''UP'' 5) False False sample_tx
      = Some (True, rm', nc', t')
    \<and> odd (send_buffer_length t') \<and> (\<forall>v \<in> set (send_buffer_data t'). v \<noteq> 0)"
proof -
  obtain rm' t' where "init_send_or_sim False sample_remote (sample_button ''UP'' 5) False False sample_tx
      = Some (True, rm', sample_button ''UP'' 5, t')"
    using put_space_remote [OF sample_space_remote sample_tx_inv(2) sample_button_plain(1,2), of "''UP''" 5]
    by (auto simp: sample_not_const send_buffer_put_def)
  then show ?thesis using sent_signal_well_formed by blast
qed

text \<open>C32. Filling the send buffer ends for every protocol but XMP, however many codes a button
  has and however often its signal is repeated within the buffer.\<close>

theorem sending_returns:
  assumes "\<not> is_xmp rm" "nexts nc \<noteq> [] \<or> transmit_state nc = None"
    "min_repeat rm < 2147483648" "repeat_countdown rm < 2147483648"
  shows "init_send_or_sim repeating rm nc sim rep t \<noteq> None"
proof -
  have 1: "send_loop sim b rm nc t' \<noteq> None" for b t'
    using assms by (intro send_loop_returns) auto
  have 2: "send_loop sim b (rm\<lparr>repeat_countdown := min_repeat rm\<rparr>) nc t' \<noteq> None" for b t'
    using assms by (intro send_loop_returns) (auto simp: is_xmp_def)
  show ?thesis using 1 2 by (simp only: init_send_or_sim_def Let_def split: if_split) blast
qed

theorem sending_returns_witness:
  "init_send_or_sim False (sample_remote\<lparr>min_repeat := 3, gap := 500\<rparr>)
     ((sample_button ''UP'' 5)\<lparr>nexts := [6, 7]\<rparr>) False False sample_tx \<noteq> None"
  by (rule sending_returns)
    (simp_all add: sample_remote_def zero_remote_def sample_button_def zero_ncode_def is_xmp_def)

text \<open>C27. For remotes without raw codes, of a protocol that can be sent (not Grundig, serial or B&O) and other than the
  internal remote \<open>lirc\<close>, no access leaves the send buffer, the NULL pointer is never used and the write position
  stays in the buffer, however long the signal is. A repeat of a remote with a repeat code is assumed to come after
  a signal that was put into the own array of the buffer; otherwise it uses an old pointer.\<close>

theorem sending_stays_in_buffer:
  assumes "\<not> is_raw rm" "rname rm \<noteq> Some ''lirc''" "length (tx_buf t) = 256"
    "(repeating \<or> rep) \<and> has_repeat rm \<Longrightarrow> tx_data t = TxBuf"
    "init_send_or_sim repeating rm nc sim rep t = Some (ok, rm', nc', t')"
    "\<not> (is_grundig rm \<or> is_serial rm \<or> is_bo rm)"
  shows "tx_fault t' = tx_fault t \<and> tx_data t' = TxBuf \<and> tx_wptr t' \<le> 256"
proof -
  let ?t = "if is_biphase rm then (clear_send_buffer t)\<lparr>tx_biphase := True\<rparr> else clear_send_buffer t"
  let ?rm = "if \<not> sim \<and> \<not> repeating then rm\<lparr>repeat_countdown := min_repeat rm\<rparr> else rm"
  have l: "send_loop sim (if \<not> sim \<and> repeating then True else rep) ?rm nc ?t = Some (ok, rm', nc', t')"
    using assms(2,5,6) by (simp add: init_send_or_sim_def Let_def)
  have t: "tx_inv ?t" "tx_data ?t = tx_data t" "tx_fault ?t = tx_fault t"
    using assms(3) by (simp_all add: tx_inv_def clear_send_buffer_def)
  have r: "is_raw ?rm = is_raw rm" "has_repeat ?rm = has_repeat rm" by (simp_all add: is_raw_def has_repeat_def)
  have "sends_safely ?t t'"
    using send_loop_safe [OF l] assms(1,4) t r by (auto split: if_splits)
  then show ?thesis using t(3) by (simp add: sends_safely_def tx_safe_def tx_inv_def)
qed

theorem sending_stays_in_buffer_witness:
  "\<exists>ok rm' nc' t'. init_send_or_sim False (sample_remote\<lparr>min_repeat := 500, gap := 500\<rparr>)
      (sample_button ''UP'' 5) False False sample_tx = Some (ok, rm', nc', t')
    \<and> \<not> tx_fault t' \<and> tx_data t' = TxBuf \<and> tx_wptr t' \<le> 256"
proof -
  let ?rm = "sample_remote\<lparr>min_repeat := 500, gap := 500\<rparr>"
  have p: "\<not> is_raw ?rm" "rname ?rm \<noteq> Some ''lirc''" "\<not> has_repeat ?rm" "\<not> is_xmp ?rm"
    "\<not> (is_grundig ?rm \<or> is_serial ?rm \<or> is_bo ?rm)"
    by (simp_all add: sample_remote_def zero_remote_def c_defs)
  have "init_send_or_sim False ?rm (sample_button ''UP'' 5) False False sample_tx \<noteq> None"
  proof -
    have "send_loop False False (?rm\<lparr>repeat_countdown := 500\<rparr>) (sample_button ''UP'' 5) x \<noteq> None" for x
      by (rule send_loop_returns)
        (simp_all add: sample_remote_def zero_remote_def is_xmp_def sample_button_plain)
    then show ?thesis using p by (simp add: init_send_or_sim_def Let_def)
  qed
  then obtain ok rm' nc' t' where s: "init_send_or_sim False ?rm (sample_button ''UP'' 5) False False sample_tx
      = Some (ok, rm', nc', t')" by (metis option.exhaust prod_cases4)
  show ?thesis
    using sending_stays_in_buffer [OF p(1,2) sample_tx_inv(2) _ s p(5)] s p(3) sample_tx_inv(3) by auto
qed

text \<open>A repeat does not set the data pointer: after a raw code has been sent, what a
  successful repeat with a repeat code leaves to be transmitted is the beginning of the old raw
  signal, not the repeat code.\<close>

theorem repeat_sends_old_signal:
  assumes "has_repeat rm" "tx_data t = TxSignals xs"
    "send_pass False True rm nc t = Inl (True, rm', nc', t')"
  shows "send_buffer_data t' = take (send_buffer_length t') xs"
proof -
  define u where "u = sync_send_buffer (send_repeat rm
      (if flags rm AND REPEAT_HEADER \<noteq> 0 \<and> has_header rm then send_header rm t else t))"
  have "tx_keeps t u"
    unfolding u_def by (rule tx_keeps_trans [OF _ keeps_sync]) (auto intro!: tx_steps)
  then have d: "tx_data u = TxSignals xs" using assms(2) by (simp add: tx_keeps_def)
  have f: "fill_once rm nc False True t = (True, rm, u)" using assms(1) by (simp add: fill_once_def u_def Let_def)
  obtain rm2 nc2 where fc: "final_check rm2 nc2 u = (True, rm', nc', t')"
    using assms(3) f by (auto simp: send_pass_def Let_def split: if_splits prod.splits)
  have t': "t' = tx_touch_all u" and nz: "list_all (\<lambda>v. v \<noteq> 0) (send_buffer_data u)"
    using final_check_ok [OF fc] by simp_all
  have "i < length xs" if "i < tx_wptr u" for i
    using nz that d by (auto simp: list_all_iff send_buffer_data_def tx_at_def tx_ok_def split: if_splits)
  then have "tx_wptr u \<le> length xs" by (meson leI less_irrefl)
  then have "send_buffer_data u = take (tx_wptr u) xs"
    using d by (intro nth_equalityI) (auto simp: send_buffer_data_def tx_at_def tx_ok_def)
  then show ?thesis using t' by (simp add: send_buffer_length_def)
qed

lemma tx_at_fault [simp]: "tx_at (t\<lparr>tx_fault := b\<rparr>) = tx_at t"
  by (rule ext) (simp add: tx_at_def tx_ok_def split: tx_ptr.split)

lemma holds_repeat:
  assumes "tx_holds [] t" "plead rm = 0" "0 < prepeat rm" "0 < srepeat rm" "0 < ptrail rm"
  shows "tx_holds [prepeat rm, srepeat rm, ptrail rm] (send_repeat rm t)"
  using holds_pulse [OF holds_pair [OF assms(1)], of "prepeat rm" "srepeat rm" "ptrail rm"] assms(2-5)
  by (simp add: send_repeat_def send_lead_def send_trail_def)

theorem repeat_sends_old_signal_witness:
  "\<exists>rm' nc' t'. send_pass False True (sample_remote\<lparr>flags := RAW_CODES, prepeat := 9000, srepeat := 2250\<rparr>)
      (sample_button ''UP'' 5) (clear_send_buffer (sample_tx\<lparr>tx_data := TxSignals [100, 200, 300, 400, 500]\<rparr>))
      = Inl (True, rm', nc', t')
    \<and> send_buffer_data (t'\<lparr>tx_data := TxBuf\<rparr>) = [9000, 2250, 560] \<and> send_buffer_data t' = [100, 200, 300]"
proof -
  define rm where "rm = sample_remote\<lparr>flags := RAW_CODES, prepeat := 9000, srepeat := 2250\<rparr>"
  define nc where "nc = sample_button ''UP'' 5"
  define t where "t = clear_send_buffer (sample_tx\<lparr>tx_data := TxSignals [100, 200, 300, 400, 500]\<rparr>)"
  have rm: "has_repeat rm" "flags rm = RAW_CODES" "plead rm = 0" "prepeat rm = 9000" "srepeat rm = 2250"
    "ptrail rm = 560" "repeat_countdown rm = 0" "\<not> is_const rm" "min_gap rm = 40000" "max_gap rm = 40000"
    "\<not> has_repeat_gap rm"
    by (simp_all add: rm_def sample_remote_def zero_remote_def c_defs min_gap_def max_gap_def c_arith)
  have nc: "nexts nc = []" "transmit_state nc = None" by (simp_all add: nc_def sample_button_plain)
  have t: "tx_holds [] t" "tx_data t = TxSignals [100, 200, 300, 400, 500]"
    by (simp_all add: t_def tx_holds_clear sample_tx_inv(2)) (simp add: clear_send_buffer_def)
  define u where "u = sync_send_buffer (send_repeat rm t)"
  have h: "tx_holds [9000, 2250, 560] (send_repeat rm t)" using holds_repeat [OF t(1), of rm] rm by simp
  have u: "send_buffer_data (u\<lparr>tx_data := TxBuf\<rparr>) = [9000, 2250, 560]" "tx_wptr u = 3"
    "\<not> bad_send_buffer u"
    using holds_sync [OF h] by (simp_all add: u_def Let_def bad_send_buffer_def)
  have d: "tx_data u = TxSignals [100, 200, 300, 400, 500]"
    using tx_keeps_trans [OF keeps_repeat [OF tx_keeps_refl] keeps_sync, of t rm] t(2)
    by (simp add: u_def tx_keeps_def)
  have du: "send_buffer_data u = [100, 200, 300]"
    by (simp add: send_buffer_data_def u(2) d tx_at_def tx_ok_def upt_rec)
  have f: "fill_once rm nc False True t = (True, rm, u)" using rm(1,2) by (simp add: fill_once_def u_def)
  have g: "set_remaining_gap rm True u = (True, rm\<lparr>min_remaining_gap := 40000, max_remaining_gap := 40000\<rparr>)"
    using rm by (simp add: set_remaining_gap_def)
  have "check_send_buffer u = (True, tx_touch_all u)" by (simp add: check_send_buffer_def u(2) du)
  then obtain rm' nc' where p: "send_pass False True rm nc t = Inl (True, rm', nc', tx_touch_all u)"
    using f g u(3) rm(7) nc by (simp add: send_pass_def loops_back_def final_check_def next_transmit_state_def)
  have "send_buffer_data (tx_touch_all u) = [100, 200, 300]"
    using repeat_sends_old_signal [OF rm(1) t(2) p] by (simp add: send_buffer_length_def u(2))
  moreover have "(tx_touch_all u)\<lparr>tx_data := TxBuf\<rparr> = (u\<lparr>tx_data := TxBuf\<rparr>)\<lparr>tx_fault := tx_fault (tx_touch_all u)\<rparr>"
    by (simp add: tx_touch_all_def)
  then have "send_buffer_data ((tx_touch_all u)\<lparr>tx_data := TxBuf\<rparr>) = [9000, 2250, 560]"
    using u(1) by (simp add: send_buffer_data_def)
  ultimately show ?thesis using p unfolding rm_def nc_def t_def by blast
qed

end
