(* ===== verification/Receive_Facts.thy ===== *)
theory Receive_Facts
  imports Receive_Decode
begin

text \<open>
  Facts about \<open>lib/receive.c\<close> for every protocol: the receive buffer stays inside its array,
  every reader of samples keeps it so (the locale \<open>sample_reader\<close>), and what \<open>get_data\<close> returns
  fits in the number of bits it was asked for.
\<close>

section \<open>The receive buffer\<close>

definition rb_ok :: "rstate \<Rightarrow> bool" where
  "rb_ok s \<longleftrightarrow> length (rdata s) = 512 \<and> 0 \<le> rptr s \<and> rptr s \<le> wptr s \<and> wptr s \<le> 512"

text \<open>In the bounds before and after, and no access outside the array on the way.\<close>

definition rb_safe :: "rstate \<Rightarrow> rstate \<Rightarrow> bool" where
  "rb_safe s s' \<longleftrightarrow> (rb_ok s \<longrightarrow> rb_ok s' \<and> mem_fault s' = mem_fault s)"

lemma rb_safe_refl [simp]: "rb_safe s s"
  by (simp add: rb_safe_def)

lemma rb_safe_trans [trans]: "rb_safe a b \<Longrightarrow> rb_safe b c \<Longrightarrow> rb_safe a c"
  by (auto simp: rb_safe_def)

lemma rb_safe_world: "world_step s s' \<Longrightarrow> rb_safe s s'"
proof -
  assume w: "world_step s s'"
  show ?thesis by (simp add: rb_safe_def rb_ok_def world_stepD [OF w])
qed

lemma rb_safe_store:
  assumes "\<not> rptr s < wptr s" "wptr s < 512"
  shows "rb_safe s (store_sample dt s)"
  using assms
  by (auto simp: rb_safe_def rb_ok_def store_sample_def Let_def rb_put_def rb_touch_def log_input_def)

lemma rb_safe_next: "get_next_rec_buffer_internal m s = (v, s') \<Longrightarrow> rb_safe s s'"
proof (cases "rptr s < wptr s")
  case True
  assume "get_next_rec_buffer_internal m s = (v, s')"
  then show ?thesis using True
    by (auto simp: next_buffered rb_safe_def rb_ok_def rb_touch_def)
next
  case False
  assume n: "get_next_rec_buffer_internal m s = (v, s')"
  show ?thesis
  proof (cases "wptr s < RBUF_SIZE")
    case True
    from next_fresh [OF n False True] show ?thesis
    proof
      assume "world_step s s' \<and> (v = 0 \<or> v AND LIRC_EOF \<noteq> 0)"
      then show ?thesis by (blast intro: rb_safe_world)
    next
      assume "\<exists>dt s2. world_step s s2 \<and> dt \<noteq> 0 \<and> dt AND LIRC_EOF = 0 \<and> \<not> is_timeout dt
        \<and> s' = store_sample dt s2 \<and> v = rb_at s' (rptr s' - 1)"
      then obtain dt s2 where w: "world_step s s2" and s': "s' = store_sample dt s2" by blast
      have "rb_safe s2 s'" unfolding s'
        using False True world_stepD(2,3) [OF w] by (intro rb_safe_store) simp_all
      with rb_safe_world [OF w] show ?thesis by (rule rb_safe_trans)
    qed
  next
    case full: False
    with n False show ?thesis by (auto simp: next_full rb_safe_def rb_ok_def)
  qed
qed

text \<open>The interface of the functions that read samples: they stay inside the buffer, and a
  pulse or a space they return has been read past.\<close>

locale sample_reader =
  fixes read :: "lirc_t \<Rightarrow> rstate \<Rightarrow> lirc_t \<times> rstate"
  assumes read_safe: "read m s = (v, s') \<Longrightarrow> rb_safe s s'"
    and read_advances: "read m s = (v, s') \<Longrightarrow> v \<noteq> 0 \<Longrightarrow> v AND LIRC_EOF = 0 \<Longrightarrow> rptr s' = rptr s + 1"
begin

text \<open>Putting back what has been read is inside the buffer.\<close>

lemma unget_read:
  assumes "read m s = (v, s')" "v \<noteq> 0" "v AND LIRC_EOF = 0" "rb_ok s"
  shows "rb_ok (unget_rec_buffer 1 s')" "rptr (unget_rec_buffer 1 s') = rptr s"
    "mem_fault (unget_rec_buffer 1 s') = mem_fault s"
proof -
  have r: "rptr s' = rptr s + 1" "rb_ok s'" "mem_fault s' = mem_fault s"
    using read_advances [OF assms(1-3)] read_safe [OF assms(1)] assms(4) by (auto simp: rb_safe_def)
  then show "rb_ok (unget_rec_buffer 1 s')" "rptr (unget_rec_buffer 1 s') = rptr s"
    "mem_fault (unget_rec_buffer 1 s') = mem_fault s"
    using assms(4) by (auto simp: unget_rec_buffer_def Let_def rb_touch_def rb_ok_def)
qed

lemma unget_two:
  assumes "read m s = (v, s1)" "read m' s1 = (w, s2)" "v \<noteq> 0" "w \<noteq> 0"
    "v AND LIRC_EOF = 0" "w AND LIRC_EOF = 0" "rb_ok s"
  shows "rb_ok (unget_rec_buffer 2 s2)" "rptr (unget_rec_buffer 2 s2) = rptr s"
    "mem_fault (unget_rec_buffer 2 s2) = mem_fault s"
proof -
  have "rptr s2 = rptr s + 2" "rb_ok s2" "mem_fault s2 = mem_fault s"
    using read_advances [OF assms(1,3,5)] read_advances [OF assms(2,4,6)] read_safe [OF assms(1)]
      read_safe [OF assms(2)] assms(7) by (auto simp: rb_safe_def)
  then show "rb_ok (unget_rec_buffer 2 s2)" "rptr (unget_rec_buffer 2 s2) = rptr s"
    "mem_fault (unget_rec_buffer 2 s2) = mem_fault s"
    using assms(7) by (auto simp: unget_rec_buffer_def Let_def rb_touch_def rb_ok_def)
qed

text \<open>Any number of reads.\<close>

lemma reads_safe: "rb_safe s (fold (\<lambda>m s. snd (read m s)) ms s)"
proof (induction ms arbitrary: s)
  case Nil
  then show ?case by simp
next
  case (Cons m ms)
  have "rb_safe s (snd (read m s))" by (metis prod.collapse read_safe)
  then show ?case using Cons by (auto intro: rb_safe_trans)
qed

end

interpretation any_reader: sample_reader get_next_rec_buffer
proof
  fix m s v s'
  assume n: "get_next_rec_buffer m s = (v, s')"
  then show "rb_safe s s'" unfolding get_next_rec_buffer_def by (rule rb_safe_next)
  show "v \<noteq> 0 \<Longrightarrow> v AND LIRC_EOF = 0 \<Longrightarrow> rptr s' = rptr s + 1"
    using next_advances [OF n] by (auto simp: advances_def)
qed

interpretation pulse_reader: sample_reader get_next_pulse
proof
  fix m s v s'
  assume n: "get_next_pulse m s = (v, s')"
  then show "rb_safe s s'"
    by (auto simp: get_next_pulse_def Let_def split: prod.splits if_splits dest: any_reader.read_safe)
  show "v \<noteq> 0 \<Longrightarrow> v AND LIRC_EOF = 0 \<Longrightarrow> rptr s' = rptr s + 1"
    using next_pulse_advances [OF n] by (auto simp: advances_def)
qed

interpretation space_reader: sample_reader get_next_space
proof
  fix m s v s'
  assume n: "get_next_space m s = (v, s')"
  then show "rb_safe s s'"
    by (auto simp: get_next_space_def Let_def split: prod.splits if_splits dest: any_reader.read_safe)
  show "v \<noteq> 0 \<Longrightarrow> v AND LIRC_EOF = 0 \<Longrightarrow> rptr s' = rptr s + 1"
    using next_space_advances [OF n] by (auto simp: advances_def)
qed

lemma readdata_frame:
  "readdata t s = (v, s') \<Longrightarrow> mem_fault s' = mem_fault s \<and> rdata s' = rdata s \<and> wptr s' = wptr s"
  by (drule world_step_readdata) (simp add: world_stepD)

lemma safe_clear:
  assumes "rec_buffer_clear d s = (ok, s')"
  shows "rb_safe s s'"
  using assms
  by (auto simp: rec_buffer_clear_def rb_safe_def rb_ok_def rec_buffer_rewind_def set_pending_pulse_def
      set_pending_space_def rb_put_def rb_touch_def read_code_bytes_def Let_def min_def
      split: if_splits prod.splits list.splits dest!: readdata_frame)

lemma safe_recognisers:
  "sync_pending_pulse d rm s = (ok, s') \<Longrightarrow> rb_safe s s'"
  "sync_pending_space d rm s = (ok, s') \<Longrightarrow> rb_safe s s'"
  by (auto simp: sync_pending_pulse_def sync_pending_space_def set_pending_pulse_def set_pending_space_def
      rb_safe_def rb_ok_def split: if_splits prod.splits
      dest!: pulse_reader.read_safe space_reader.read_safe)

section \<open>The data fits\<close>

definition fits :: "int \<Rightarrow> ir_code \<Rightarrow> bool" where
  "fits n x \<longleftrightarrow> x AND gen_mask n = x"

lemma fits_bits: "fits n x \<longleftrightarrow> (\<forall>k. bit x k \<longrightarrow> k < nat n)"
proof
  assume f: "fits n x"
  show "\<forall>k. bit x k \<longrightarrow> k < nat n"
  proof (intro allI impI)
    fix k assume "bit x k"
    then have "bit (x AND gen_mask n) k" using f by (simp add: fits_def)
    then show "k < nat n" by (simp add: bit_and_iff)
  qed
next
  assume "\<forall>k. bit x k \<longrightarrow> k < nat n"
  then show "fits n x" unfolding fits_def
    by (intro bit_word_eqI) (auto simp: bit_and_iff)
qed

lemma fits_0 [simp]: "fits n 0"
  by (simp add: fits_def)

lemma fits_mono: "fits n x \<Longrightarrow> n \<le> m \<Longrightarrow> fits m x"
  by (auto simp: fits_bits intro: less_le_trans)

lemma fits_shift: "fits n x \<Longrightarrow> fits k v \<Longrightarrow> 0 \<le> n \<Longrightarrow> 0 \<le> k \<Longrightarrow> fits (n + k) (shl x k OR v)"
  by (auto simp: fits_bits bit_or_iff bit_shl nat_add_distrib)

lemma fits_small: "v \<in> {0, 1} \<Longrightarrow> fits 1 v" "v \<in> {0, 1, 2, 3} \<Longrightarrow> fits 2 v"
  by (auto simp: fits_def gen_mask_eq_mask mask_eq_exp_minus_1)

definition data_fits :: "int \<Rightarrow> ir_code \<Rightarrow> bool" where
  "data_fits n v \<longleftrightarrow> v = FAILED \<or> fits n v"

lemma get_data_bits_fits:
  "get_data_bits d rm n dn i cd s = (v, s') \<Longrightarrow> 0 \<le> i \<Longrightarrow> fits i cd \<Longrightarrow> i \<le> n \<or> cd = 0 \<Longrightarrow> data_fits n v"
proof (induction d rm n dn i cd s arbitrary: v s' rule: get_data_bits.induct)
  case (1 d rm n dn i cd s)
  show ?case
  proof (cases "i < n")
    case False
    with 1 show ?thesis by (subst (asm) get_data_bits.simps) (auto simp: data_fits_def)
  next
    case True
    obtain one s1 where o: "expectone d rm (dn + i) s = (one, s1)" by force
    obtain zero s2 where z: "expectzero d rm (dn + i) s1 = (zero, s2)" by force
    have f: "fits (i + 1) (shl cd 1 OR 1)" "fits (i + 1) (shl cd 1)"
      using fits_shift [OF "1.prems"(3) fits_small(1), of 1] fits_shift [OF "1.prems"(3) fits_small(1), of 0]
        "1.prems"(2) by simp_all
    consider (one) "get_data_bits d rm n dn (i + 1) (shl cd 1 OR 1) s1 = (v, s')" "one"
      | (zero) "get_data_bits d rm n dn (i + 1) (shl cd 1) s2 = (v, s')" "\<not> one" "zero" | (fail) "v = FAILED"
      using "1.prems"(1) True o z by (subst (asm) get_data_bits.simps) (auto simp: Let_def split: if_splits)
    then show ?thesis
    proof cases
      case one
      then show ?thesis using "1.IH"(1) [OF True refl o [symmetric] refl] f True "1.prems"(2) by auto
    next
      case zero
      then show ?thesis using "1.IH"(2) [OF True refl o [symmetric] refl _ z [symmetric] refl] f True "1.prems"(2) by auto
    next
      case fail
      then show ?thesis by (simp add: data_fits_def)
    qed
  qed
qed

lemma rcmm_symbol_small: "rcmm_symbol d rm t = Some v \<Longrightarrow> v \<in> {0, 1, 2, 3}"
  by (auto simp: rcmm_symbol_def split: if_splits)

lemma get_data_rcmm_fits:
  "get_data_rcmm d rm n i cd s = (v, s') \<Longrightarrow> 0 \<le> i \<Longrightarrow> even i \<Longrightarrow> even n \<Longrightarrow> fits i cd \<Longrightarrow> i \<le> n \<or> cd = 0
    \<Longrightarrow> data_fits n v"
proof (induction d rm n i cd s arbitrary: v s' rule: get_data_rcmm.induct)
  case (1 d rm n i cd s)
  show ?case
  proof (cases "i < n")
    case False
    with 1 show ?thesis by (subst (asm) get_data_rcmm.simps) (auto simp: data_fits_def)
  next
    case True
    then have le: "i + 2 \<le> n" using "1.prems"(3,4) by presburger
    obtain p s1 where p: "get_next_pulse (all_pulses rm) s = (p, s1)" by force
    obtain q s2 where q: "get_next_space (all_spaces rm) s1 = (q, s2)" by force
    consider (sym) w where "rcmm_symbol d rm (i32 (p + q)) = Some w" "\<not> (p = 0 \<or> q = 0)"
        "get_data_rcmm d rm n (i + 2) (shl cd 2 OR w) s2 = (v, s')" | (fail) "v = FAILED"
      using "1.prems"(1) True p q
      by (subst (asm) get_data_rcmm.simps) (auto simp: Let_def split: if_splits option.splits)
    then show ?thesis
    proof cases
      case sym
      then have "fits (i + 2) (shl cd 2 OR w)"
        using fits_shift [OF "1.prems"(5) fits_small(2) [OF rcmm_symbol_small]] "1.prems"(2) by simp
      then show ?thesis
        using "1.IH" [OF True refl p [symmetric] refl q [symmetric] refl sym(2,1,3)] le "1.prems"(2,3,4) by simp
    next
      case fail
      then show ?thesis by (simp add: data_fits_def)
    qed
  qed
qed

lemma grundig_step_small: "grundig_step a b = Some (Some v) \<Longrightarrow> v \<in> {0, 1, 2, 3}"
  by (auto simp: grundig_step_def split: if_splits)

lemma get_data_grundig_fits:
  "get_data_grundig d rm n i l cd s = (v, s') \<Longrightarrow> 0 \<le> i \<Longrightarrow> even i \<Longrightarrow> even n \<Longrightarrow> fits i cd
    \<Longrightarrow> i \<le> n \<or> cd = 0 \<Longrightarrow> data_fits n v"
proof (induction d rm n i l cd s arbitrary: v s' rule: get_data_grundig.induct)
  case (1 d rm n i l cd s)
  show ?case
  proof (cases "i < n")
    case False
    with 1 show ?thesis by (subst (asm) get_data_grundig.simps) (auto simp: data_fits_def)
  next
    case True
    then have le: "i + 2 \<le> n" using "1.prems"(3,4) by presburger
    obtain q s1 where q: "get_next_space (all_spaces rm) s = (q, s1)" by force
    obtain p s2 where p: "get_next_pulse (all_pulses rm) s1 = (p, s2)" by force
    consider (half) st where "grundig_symbol d rm (i32 (q + p)) = Some st" "\<not> (q = 0 \<or> p = 0)"
          "grundig_step l st = Some None" "get_data_grundig d rm n i st cd s2 = (v, s')"
      | (sym) st w where "grundig_symbol d rm (i32 (q + p)) = Some st" "\<not> (q = 0 \<or> p = 0)"
          "grundig_step l st = Some (Some w)" "get_data_grundig d rm n (i + 2) (-1) (shl cd 2 OR w) s2 = (v, s')"
      | (fail) "v = FAILED"
      using "1.prems"(1) True p q
      by (subst (asm) get_data_grundig.simps) (auto simp: Let_def split: if_splits option.splits)
    then show ?thesis
    proof cases
      case half
      then show ?thesis
        using "1.IH"(1) [OF True refl q [symmetric] refl p [symmetric] half(2,1,3) refl half(4)]
          "1.prems"(2-6) by blast
    next
      case sym
      then have "fits (i + 2) (shl cd 2 OR w)"
        using fits_shift [OF "1.prems"(5) fits_small(2) [OF grundig_step_small]] "1.prems"(2) by simp
      then show ?thesis
        using "1.IH"(2) [OF True refl q [symmetric] refl p [symmetric] sym(2,1,3) refl sym(4)]
          le "1.prems"(2,3,4) by simp
    next
      case fail
      then show ?thesis by (simp add: data_fits_def)
    qed
  qed
qed

lemma get_data_bo_fits:
  "get_data_bo d rm n i l cd s = (v, s') \<Longrightarrow> 0 \<le> i \<Longrightarrow> fits i cd \<Longrightarrow> i \<le> n \<or> cd = 0 \<Longrightarrow> data_fits n v"
proof (induction "nat (n - i)" arbitrary: i l cd s v s' rule: less_induct)
  case (less i l cd s v s')
  show ?case
  proof (cases "i < n")
    case False
    with less.prems show ?thesis by (subst (asm) get_data_bo.simps) (auto simp: data_fits_def)
  next
    case True
    have f: "fits (i + 1) (shl cd 1 OR 1)" "fits (i + 1) (shl cd 1)"
      using fits_shift [OF less.prems(3) fits_small(1), of 1] fits_shift [OF less.prems(3) fits_small(1), of 0]
        less.prems(2) by simp_all
    have "v = FAILED \<or> (\<exists>s2. get_data_bo d rm n (i + 1) False (shl cd 1) s2 = (v, s'))
        \<or> (\<exists>s2. get_data_bo d rm n (i + 1) True (shl cd 1 OR 1) s2 = (v, s'))"
      using less.prems(1) True
      by (subst (asm) get_data_bo.simps) (auto simp: Let_def split: if_splits prod.splits)
    moreover have "nat (n - (i + 1)) < nat (n - i)" using True by simp
    ultimately show ?thesis using less.hyps [of "i + 1"] f True less.prems(2)
      by (simp add: data_fits_def) blast
  qed
qed

lemma fits_nibble: "\<not> 16 \<le> (x :: ir_code) \<Longrightarrow> fits 4 x"
proof -
  assume "\<not> 16 \<le> x"
  then have "unat x < 2 ^ 4" by (simp add: word_le_nat_alt)
  then have "x AND mask 4 = x"
    by (simp add: word_unat_eq_iff unsigned_and_eq flip: take_bit_eq_mask) (simp add: take_bit_nat_eq_self unsigned_take_bit_eq)
  then show ?thesis by (simp add: fits_def gen_mask_eq_mask)
qed

lemma get_data_xmp_fits:
  "get_data_xmp rm n i cd s = Some (v, s') \<Longrightarrow> 0 \<le> i \<Longrightarrow> i mod 4 = 0 \<Longrightarrow> n mod 4 = 0 \<Longrightarrow> fits i cd
    \<Longrightarrow> i \<le> n \<or> cd = 0 \<Longrightarrow> data_fits n v"
proof (induction "nat (n - i)" arbitrary: i cd s v s' rule: less_induct)
  case (less i cd s v s')
  show ?case
  proof (cases "i < n")
    case False
    with less.prems show ?thesis by (subst (asm) get_data_xmp.simps) (auto simp: data_fits_def)
  next
    case True
    then have le: "i + 4 \<le> n" using less.prems(3,4) by presburger
    have "v = FAILED \<or> (\<exists>w s2. \<not> 16 \<le> w \<and> get_data_xmp rm n (i + 4) (shl cd 4 OR w) s2 = Some (v, s'))"
      using less.prems(1) True
      by (subst (asm) get_data_xmp.simps) (auto simp: Let_def split: if_splits prod.splits)
    moreover have "fits (i + 4) (shl cd 4 OR w)" if "\<not> 16 \<le> w" for w
      using fits_shift [OF less.prems(5) fits_nibble [OF that]] less.prems(2) by simp
    moreover have "nat (n - (i + 4)) < nat (n - i)" "(i + 4) mod 4 = 0" using True less.prems(3) by auto
    ultimately show ?thesis using less.hyps [of "i + 4"] le less.prems(2,4)
      by (simp add: data_fits_def) blast
  qed
qed

lemma get_data_fits:
  assumes "get_data d rm n dn s = Some (v, s')" "\<not> is_serial rm"
  shows "data_fits n v"
proof -
  have e: "n mod 2 = 0 \<longleftrightarrow> even n" by presburger
  consider (zero) "v = 0" | (fail) "v = FAILED"
    | (rcmm) s1 where "n mod 2 = 0" "get_data_rcmm d rm n 0 0 s1 = (v, s')"
    | (grundig) s1 where "n mod 2 = 0" "get_data_grundig d rm n 0 (-1) 0 s1 = (v, s')"
    | (bo) "get_data_bo d rm n 0 True 0 s = (v, s')"
    | (xmp) s1 where "n mod 4 = 0" "get_data_xmp rm n 0 0 s1 = Some (v, s')"
    | (bits) "get_data_bits d rm n dn 0 0 s = (v, s')"
    using assms unfolding get_data_def by (auto simp: Let_def split: if_splits prod.splits)
  then show ?thesis
  proof cases
    case rcmm
    then show ?thesis using get_data_rcmm_fits [of d rm n 0 0] e by simp
  next
    case grundig
    then show ?thesis using get_data_grundig_fits [of d rm n 0 "-1" 0] e by simp
  next
    case bo
    then show ?thesis using get_data_bo_fits [of d rm n 0 True 0] by simp
  next
    case xmp
    then show ?thesis using get_data_xmp_fits [of rm n 0 0] by simp
  next
    case bits
    then show ?thesis using get_data_bits_fits [of d rm n dn 0 0] by simp
  qed (simp_all add: data_fits_def)
qed

end
