(* ===== verification/Receive_Props.thy ===== *)
theory Receive_Props
  imports Receive_Facts Remote_Facts Sample
begin

text \<open>
  The properties of \<open>lib/receive.c\<close>: the receive buffer, putting samples back, tolerances, the
  data a signal gives, and that an attempt to decode returns.
\<close>

section \<open>Buffer\<close>

lemma masked_not_eof: "(v AND PULSE_MASK) AND LIRC_EOF = 0"
  by (simp add: and.assoc)

lemma pulse_not_eof: "get_next_pulse m s = (p, s') \<Longrightarrow> p AND LIRC_EOF = 0"
  by (auto simp: get_next_pulse_def Let_def masked_not_eof split: prod.splits if_splits)

lemma space_not_eof: "get_next_space m s = (p, s') \<Longrightarrow> p AND LIRC_EOF = 0"
  by (auto simp: get_next_space_def Let_def not_eof split: prod.splits if_splits)

text \<open>Reading a pulse and a space and putting both back with \<open>unget_rec_buffer(2)\<close> stays
  inside the receive buffer and leaves the read position where it was, whether the samples came
  from the driver or were still buffered.\<close>

theorem pulse_and_space_put_back:
  assumes "rb_ok s" "get_next_pulse m s = (p, s1)" "p \<noteq> 0" "get_next_space m' s1 = (v, s2)" "v \<noteq> 0"
  shows "rb_ok (unget_rec_buffer 2 s2) \<and> rptr (unget_rec_buffer 2 s2) = rptr s
    \<and> mem_fault (unget_rec_buffer 2 s2) = mem_fault s"
proof -
  have f: "p AND LIRC_EOF = 0" "v AND LIRC_EOF = 0"
    using pulse_not_eof [OF assms(2)] space_not_eof [OF assms(4)] by simp_all
  have r: "rptr s2 = rptr s + 2" "rb_ok s2" "mem_fault s2 = mem_fault s"
    using pulse_reader.read_advances [OF assms(2,3) f(1)] space_reader.read_advances [OF assms(4,5) f(2)]
      pulse_reader.read_safe [OF assms(2)] space_reader.read_safe [OF assms(4)] assms(1)
    by (auto simp: rb_safe_def)
  then show ?thesis using assms(1) by (auto simp: unget_rec_buffer_def Let_def rb_touch_def rb_ok_def)
qed

lemma sample_rx_ok: "rb_ok (sample_rx xs)"
  by (simp add: rb_ok_def sample_rx_def)

theorem pulse_and_space_put_back_witness:
  "\<exists>s1 s2. get_next_pulse 100 (sample_rx [0x01000230, 560]) = (560, s1)
    \<and> get_next_space 100 s1 = (560, s2)
    \<and> rb_ok (unget_rec_buffer 2 s2) \<and> rptr (unget_rec_buffer 2 s2) = 0
    \<and> \<not> mem_fault (unget_rec_buffer 2 s2)"
proof -
  have at: "pulse_at [0x01000230, 560] 0 560" "space_at [0x01000230, 560] (Suc 0) 560"
    by (simp_all add: pulse_at_def space_at_def duration_def pulse_sample_def)
  obtain s1 where 1: "get_next_pulse 100 (sample_rx [0x01000230, 560]) = (560, s1)"
      "on_tape [0x01000230, 560] (Suc 0) 0 0 0 s1"
    using tape_pulse [OF sample_rx_tape at(1)] by auto
  obtain s2 where 2: "get_next_space 100 s1 = (560, s2)" using tape_space [OF 1(2) at(2)] by auto
  have z: "rptr (sample_rx [0x01000230, 560]) = 0" "\<not> mem_fault (sample_rx [0x01000230, 560])"
    by (simp_all add: sample_rx_def)
  show ?thesis
    using pulse_and_space_put_back [OF sample_rx_ok 1(1) _ 2] 1(1) 2 z by auto
qed

text \<open>A sample that is put back with \<open>unget_rec_buffer(1)\<close> is read again, with any
  timeout, and reading it again leads to exactly the state the first read left.\<close>

theorem put_back_and_read_again:
  assumes "rb_ok s" "get_next_rec_buffer m s = (v, s')" "v \<noteq> 0" "v AND LIRC_EOF = 0"
  shows "get_next_rec_buffer m' (unget_rec_buffer 1 s') = (v, s')"
proof -
  have n: "get_next_rec_buffer_internal (receive_timeout m) s = (v, s')"
    using assms(2) by (simp add: get_next_rec_buffer_def)
  have r: "rptr s' = rptr s + 1" "rb_ok s'"
    using any_reader.read_advances [OF assms(2-4)] any_reader.read_safe [OF assms(2)] assms(1)
    by (auto simp: rb_safe_def)
  have "v = rb_at s' (rptr s) \<and> i32 (rsum s') = rsum s'"
  proof (cases "rptr s < wptr s")
    case True
    with n show ?thesis by (auto simp: next_buffered rb_touch_def rb_at_def)
  next
    case False
    show ?thesis
    proof (cases "wptr s < RBUF_SIZE")
      case True
      from next_fresh [OF n False True] assms(3,4) obtain dt s2
        where "s' = store_sample dt s2" "v = rb_at s' (rptr s' - 1)" by auto
      then show ?thesis using r(1)
        by (simp add: store_sample_def rb_touch_def rb_put_def log_input_def Let_def)
    next
      case full: False
      with n False assms(3) show ?thesis by (simp add: next_full)
    qed
  qed
  then have v: "v = rb_at s' (rptr s)" and i: "i32 (rsum s') = rsum s'" by simp_all
  have sum: "i32 (i32 (rsum s' - x) + x) = rsum s'" for x
    using i32_add [of "rsum s' - x" x] i by simp
  have ok: "0 \<le> rptr s" "rptr s < wptr s'" "wptr s' \<le> 512" using assms(1) r by (auto simp: rb_ok_def)
  have u: "unget_rec_buffer 1 s' = s'\<lparr>rptr := rptr s, rsum := i32 (rsum s' - (v AND PULSE_MASK))\<rparr>"
    using r(1) ok v by (simp add: unget_rec_buffer_def rb_touch_def rb_at_def Let_def)
  have "get_next_rec_buffer m' (unget_rec_buffer 1 s')
      = (v, s'\<lparr>rptr := rptr s + 1, rsum := i32 (i32 (rsum s' - (v AND PULSE_MASK)) + (v AND PULSE_MASK))\<rparr>)"
    unfolding u using ok v
    by (simp add: get_next_rec_buffer_def next_buffered rb_touch_def rb_at_def)
  then show ?thesis using r(1) sum by simp
qed

section \<open>Data\<close>

text \<open>C36. Whatever the protocol (serial excepted, whose result is built from bytes), what
  \<open>get_data\<close> reads is either the error value or fits into the number of bits asked for.\<close>

theorem data_fits_its_width:
  assumes "get_data d rm n dn s = Some (v, s')" "\<not> is_serial rm"
  shows "v = FAILED \<or> v AND gen_mask n = v"
  using get_data_fits [OF assms] by (simp add: data_fits_def fits_def)

theorem data_fits_its_width_witness:
  "\<exists>s1 s'. get_next_space 1000000 (sample_rx (samples_of 50000 [610, 610, 610, 1740] 50000)) = (50000, s1)
    \<and> get_data sample_driver sample_remote 2 0 s1 = Some (1, s') \<and> (1 :: ir_code) AND gen_mask 2 = 1"
proof -
  let ?ys = "samples_of 50000 [610, 610, 610, 1740] 50000"
  have d: "data_signal sample_remote 1 2 = [560, 560, 560, 1690]"
    by (simp add: data_signal_def bits_msb_def bit_pair_def sample_remote_def zero_remote_def
        bit_numeral_rec upt_rec)
  have "hears sample_driver sample_remote [610, 610, 610, 1740] (data_signal sample_remote 1 2)"
    by (simp add: d hears_def sample_tolerance duration_def c_arith)
  then have h: "heard sample_driver sample_remote ?ys 1 (data_signal sample_remote 1 2)" by (rule hears_heard)
  have t: "on_tape ?ys 0 0 0 0 (sample_rx ?ys)" by (rule sample_rx_tape) (simp add: samples_of_def)
  have a: "space_at ?ys 0 50000" by (simp add: space_at_def samples_of_def duration_def)
  obtain s1 where 1: "get_next_space 1000000 (sample_rx ?ys) = (50000, s1)" "on_tape ?ys (Suc 0) 0 0 0 s1"
    using tape_space [OF t a] by blast
  have r: "ready sample_driver sample_remote ?ys 0 1 s1" using readyI [OF 1(2)] by simp
  obtain s' where 2: "get_data sample_driver sample_remote 2 0 s1 = Some (1 AND gen_mask 2, s')"
    using tape_get_data [OF sample_space_remote(1) sample_separated r h, of 0] by auto
  have m: "(1 :: ir_code) AND gen_mask 2 = 1" by (simp add: gen_mask_eq_mask mask_eq_exp_minus_1)
  have "\<not> is_serial sample_remote" by (rule space_remote_protocol [OF sample_space_remote(1)])
  then have "(1 AND gen_mask 2 :: ir_code) = FAILED \<or> (1 AND gen_mask 2 :: ir_code) AND gen_mask 2 = 1 AND gen_mask 2"
    by (rule data_fits_its_width [OF 2])
  then show ?thesis using 1(1) 2 m by auto
qed

section \<open>Tolerance\<close>

text \<open>For a measured and an expected duration of at most 24 bits and a relative tolerance
  of at most 100 percent \<open>expect\<close> accepts exactly the interval around the expected value whose
  radius is the larger of \<open>eps\<close> percent of it, the remote's \<open>aeps\<close> and the resolution of the
  driver; no computation wraps round.\<close>

theorem expect_is_an_interval:
  assumes "duration x" "duration e" "0 \<le> eps rm" "eps rm \<le> 100"
    "0 \<le> aeps rm" "aeps rm < 2147483648" "0 \<le> resolution d" "resolution d < 2147483648"
  shows "expect d rm x e \<longleftrightarrow> \<bar>x - e\<bar> \<le> max (e * eps rm div 100) (max (aeps rm) (resolution d))"
proof -
  have m: "0 \<le> e * eps rm" "e * eps rm \<le> 16777216 * 100"
    using assms mult_mono [of e 16777216 "eps rm" 100] by (simp_all add: duration_def)
  have 1: "i32 (e * eps rm) sdiv 100 = e * eps rm div 100"
    using m by (simp add: i32_id sdiv_nonneg)
  have 2: "cur_aeps d rm = max (aeps rm) (resolution d)" using assms by (simp add: cur_aeps_def i32_id max_def)
  have "i32 (e - x) = e - x" using assms(1,2) by (simp add: i32_id duration_def)
  then show ?thesis by (simp add: expect_tolerance tolerance_def 1 2 abs_minus_commute)
qed

theorem expect_is_an_interval_witness:
  "expect sample_driver sample_remote 2197 1690 \<longleftrightarrow> \<bar>2197 - 1690\<bar> \<le> max (1690 * 30 div 100) (max 100 (0::int))"
  using expect_is_an_interval [of 2197 1690 sample_remote sample_driver]
  by (simp add: duration_def sample_remote_def zero_remote_def sample_driver_def)

section \<open>An attempt to decode\<close>

text \<open>Decoding leaves a remote as it is but for the two fields that follow a toggle mask.\<close>

theorem decoding_keeps_remote:
  assumes "receive_decode d lst is_last rm s = Some (ok, ctx, rm', s')"
  shows "rm' = rm\<lparr>toggle_mask_state := toggle_mask_state rm', toggle_code := toggle_code rm'\<rparr>"
  using same_receive_decode [OF assms] by (simp only: same_remote_def)

lemma get_data_returns: "\<not> is_serial rm \<Longrightarrow> \<not> is_xmp rm \<Longrightarrow> get_data d rm n dn s \<noteq> None"
  by (auto simp: get_data_def Let_def split: prod.split)

lemma get_pre_post_return:
  assumes "\<not> is_serial rm" "\<not> is_xmp rm"
  shows "get_pre d rm s \<noteq> None" "get_post d rm s \<noteq> None"
  using get_data_returns [OF assms] by (auto simp: get_pre_def get_post_def Let_def split: option.split prod.split)

lemma rd_signal_returns:
  assumes "\<not> is_serial rm" "\<not> is_xmp rm"
  shows "rd_signal d rm hdr s \<noteq> None"
proof -
  have "get_data d rm n dn s1 \<noteq> None" "get_pre d rm s1 \<noteq> None" "get_post d rm s1 \<noteq> None" for n dn s1
    using get_data_returns [OF assms] get_pre_post_return [OF assms] by auto
  then show ?thesis by (auto simp: rd_signal_def Let_def simp del: not_None_eq split: prod.split option.split)
qed

lemma same_remote_fields:
  assumes "same_remote rm rm'"
  shows "flags rm' = flags rm" "codes rm' = codes rm"
  by (subst assms [unfolded same_remote_def], simp)+

lemma rd_body_returns:
  assumes "\<not> is_serial rm" "\<not> is_xmp rm" "is_raw rm \<Longrightarrow> codes rm \<noteq> None"
  shows "rd_body d lst rm sync hdr s \<noteq> None"
proof -
  obtain y x where y: "rd_signal d rm hdr s = Some (y, x)"
    using rd_signal_returns [OF assms(1,2), of d hdr s] by (cases "rd_signal d rm hdr s") auto
  show ?thesis
  proof (cases "is_raw rm")
    case True
    then obtain cs where "codes rm = Some cs" using assms(3) by auto
    then show ?thesis using True by (simp add: rd_body_def del: not_None_eq split: prod.split)
  next
    case False
    then show ?thesis using y by (cases y) (simp_all add: rd_body_def del: not_None_eq)
  qed
qed

text \<open>C33. An attempt to decode returns, whatever samples arrive, unless the protocol is serial
  or XMP (where a missing \<open>baud\<close> or \<open>one\<close> makes it divide by zero) or a raw remote has no codes.\<close>

theorem decoding_returns:
  assumes "\<not> is_serial rm" "\<not> is_xmp rm" "is_raw rm \<Longrightarrow> codes rm \<noteq> None"
  shows "receive_decode d lst is_last rm s \<noteq> None"
proof (cases "at_eof s \<and> wptr s - rptr s \<le> 1 \<or> \<not> reads_samples d")
  case True
  then show ?thesis using rd_body_returns [OF assms] by (auto simp: receive_decode_def)
next
  case False
  obtain sync rm1 s1 where 1: "sync_rec_buffer d lst rm ((rec_buffer_rewind s)\<lparr>rb_biphase := is_biphase rm\<rparr>)
      = (sync, rm1, s1)" by (metis prod_cases3)
  have body: "rd_body d lst r sync h x \<noteq> None" if "same_remote rm r" for r h x
    using assms same_remote_fields [OF that] by (intro rd_body_returns) (simp_all add: c_defs)
  show ?thesis
  proof (cases "rd_repeat d lst is_last rm1 s1")
    case (Inl r)
    with False 1 show ?thesis by (cases r) (auto simp: receive_decode_def)
  next
    case (Inr q)
    obtain rm2 s2 where q: "q = (rm2, s2)" by force
    have "same_remote rm rm2"
      using same_rd_repeat [OF Inr] q same_sync [OF 1] by (auto intro: same_remote_trans)
    with False 1 Inr q body show ?thesis
      by (auto simp: receive_decode_def split: prod.split option.split)
  qed
qed

theorem decoding_returns_witness:
  "receive_decode sample_driver None False sample_remote (sample_rx [3, 0x01000230, 0]) \<noteq> None"
  using decoding_returns [of sample_remote] space_remote_protocol [OF sample_space_remote(1)] by blast

theorem decoding_keeps_remote_witness:
  "\<exists>ctx rm' s'. receive_decode sample_driver None False sample_remote
      (sample_rx (samples_of 50000 sample_heard 50000)) = Some (True, ctx, rm', s')
    \<and> rm' = sample_remote\<lparr>toggle_mask_state := toggle_mask_state rm', toggle_code := toggle_code rm'\<rparr>"
proof -
  have "\<not> has_toggle_mask sample_remote" using sample_space_remote(2) by (simp add: plain_sender_def)
  then obtain ctx s' where "receive_decode sample_driver None False sample_remote
      (sample_rx (samples_of 50000 sample_heard 50000)) = Some (True, ctx, sample_remote, s')"
    using decode_hears [OF sample_space_remote(1) sample_separated _ sample_reads _ sample_data
        sample_rx_holds _ _ _ sample_hears, of False 50000 50000 None] sample_not_const(3)
    by (auto simp: samples_of_def sample_heard_def sample_gap sample_min_gap duration_def)
  then show ?thesis using decoding_keeps_remote by blast
qed

theorem put_back_and_read_again_witness:
  "\<exists>s'. get_next_rec_buffer 100 (sample_rx [560, 0x01000230]) = (560, s')
    \<and> get_next_rec_buffer 7 (unget_rec_buffer 1 s') = (560, s')"
proof -
  have "is_sample (([560, 0x01000230] :: int list) ! 0)" by (simp add: is_sample_def is_timeout_def)
  then obtain s' where r: "get_next_rec_buffer 100 (sample_rx [560, 0x01000230]) = (560, s')"
    using tape_next [OF sample_rx_tape, of "[560, 0x01000230]" 100] by auto
  show ?thesis using put_back_and_read_again [OF sample_rx_ok r, of 7] r by auto
qed

end
