(* ===== verification/Config_Define.thy ===== *)
theory Config_Define
  imports CStdlib IR_Ops
begin

text \<open>
  The value parsers and line interpreters of \<open>lib/config_file.c\<close>: numbers, flags, the keys of
  a remote (\<open>defineRemote\<close>), codes and nodes, raw signals, and the checks at the end of a
  remote. The static flag \<open>parse_error\<close> stops the reader at the end of the line, so a function
  that sets it returns \<open>None\<close>; what it has changed by then is freed unread.
\<close>

section \<open>Numbers\<close>

definition s_strtocode :: "string \<Rightarrow> ir_code option" where
  "s_strtocode val =
     (let (n, e, erange) = strtoul val
      in if (n = 2 ^ 64 - 1 \<and> erange) \<or> e \<noteq> [] \<or> val = [] then None else Some (word_of_int n))"

definition s_strtou32 :: "string \<Rightarrow> int option" where
  "s_strtou32 val =
     (let (m, e, _) = strtoul val; n = u32 m
      in if val = [] \<or> e \<noteq> [] then None else Some n)"

definition s_strtoi :: "string \<Rightarrow> int option" where
  "s_strtoi val =
     (let (n, e, _) = strtol val; h = i32 n
      in if val = [] \<or> e \<noteq> [] \<or> n \<noteq> h then None else Some h)"

definition s_strtoui :: "string \<Rightarrow> int option" where
  "s_strtoui val =
     (let (m, e, _) = strtoul val; n = u32 m; h = u32 n
      in if val = [] \<or> e \<noteq> [] \<or> n \<noteq> u32 h then None else Some h)"

definition s_strtolirc_t :: "string \<Rightarrow> lirc_t option" where
  "s_strtolirc_t val =
     (let (m, e, _) = strtoul val; n = u32 m; h = i32 n
      in if val = [] \<or> e \<noteq> [] \<or> n \<noteq> u32 h then None else Some h)"

section \<open>Flags\<close>

definition all_flags :: "(string \<times> int) list" where
  "all_flags =
     [(''RAW_CODES'', RAW_CODES), (''RC5'', RC5), (''SHIFT_ENC'', SHIFT_ENC), (''RC6'', RC6),
      (''RCMM'', RCMM), (''SPACE_ENC'', SPACE_ENC), (''SPACE_FIRST'', SPACE_FIRST),
      (''GRUNDIG'', GRUNDIG), (''BO'', BO), (''SERIAL'', SERIAL), (''XMP'', XMP),
      (''REVERSE'', REVERSE), (''NO_HEAD_REP'', NO_HEAD_REP), (''NO_FOOT_REP'', NO_FOOT_REP),
      (''CONST_LENGTH'', CONST_LENGTH), (''REPEAT_HEADER'', REPEAT_HEADER)]"

text \<open>The parts between the bars; empty parts are kept, as the code keeps them.\<close>

fun split_bar :: "string \<Rightarrow> string \<Rightarrow> string list" where
  "split_bar cur [] = [rev cur]"
| "split_bar cur (c # cs) = (if c = CHR ''|'' then rev cur # split_bar [] cs else split_bar (c # cur) cs)"

definition flag_value :: "string \<Rightarrow> int option" where
  "flag_value f = map_option snd (List.find (\<lambda>(n, _). strcaseeq n f) all_flags)"

fun parse_flag_list :: "string list \<Rightarrow> int \<Rightarrow> int option" where
  "parse_flag_list [] fl = Some fl"
| "parse_flag_list (f # fs) fl = (case flag_value f of
     None \<Rightarrow> None
   | Some v \<Rightarrow>
       (if v AND IR_PROTOCOL_MASK \<noteq> 0 \<and> fl AND IR_PROTOCOL_MASK \<noteq> 0 then None
        else parse_flag_list fs (fl OR v)))"

definition parseFlags :: "string \<Rightarrow> int option" where
  "parseFlags val = parse_flag_list (split_bar [] val) 0"

section \<open>The keys of a remote\<close>

text \<open>A value that parsed is stored, and \<open>argc\<close> arguments have been used.\<close>

definition store :: "'a option \<Rightarrow> ('a \<Rightarrow> ir_remote) \<Rightarrow> int \<Rightarrow> (ir_remote \<times> int) option" where
  "store v f argc = map_option (\<lambda>x. (f x, argc)) v"

definition store2 :: "'a option \<Rightarrow> 'b option \<Rightarrow> ('a \<Rightarrow> 'b \<Rightarrow> ir_remote) \<Rightarrow> (ir_remote \<times> int) option" where
  "store2 v w f = (case (v, w) of (Some x, Some y) \<Rightarrow> Some (f x y, 2) | _ \<Rightarrow> None)"

text \<open>\<open>serial_mode\<close>: bits per byte, parity, stop bits (doubled, so that 1.5 is 3).\<close>

definition define_serial_mode :: "string \<Rightarrow> ir_remote \<Rightarrow> (ir_remote \<times> int) option" where
  "define_serial_mode val rm = (case val of
     [] \<Rightarrow> None
   | b # r \<Rightarrow>
       (if \<not> ((of_char b :: nat) \<ge> 53 \<and> (of_char b :: nat) \<le> 57) then None
        else
          (let rm = rm\<lparr>bits_in_byte := int (of_char b) - 48\<rparr>
           in case r of
                [] \<Rightarrow> None
              | p # stop \<Rightarrow>
                  (let par = (if toupper p = CHR ''N'' then Some IR_PARITY_NONE
                              else if toupper p = CHR ''E'' then Some IR_PARITY_EVEN
                              else if toupper p = CHR ''O'' then Some IR_PARITY_ODD
                              else None)
                   in case par of
                        None \<Rightarrow> None
                      | Some q \<Rightarrow>
                          (let rm = rm\<lparr>parity := q\<rparr>
                           in if stop = ''1.5'' then Some (rm\<lparr>stop_bits := 3\<rparr>, 1)
                              else store (s_strtoui stop) (\<lambda>n. rm\<lparr>stop_bits := u32 (n * 2)\<rparr>) 1)))))"

text \<open>The keys that take two values.\<close>

definition define_pair :: "string \<Rightarrow> string \<Rightarrow> string \<Rightarrow> ir_remote \<Rightarrow> (ir_remote \<times> int) option" where
  "define_pair key val val2 rm =
     (let set2 = store2 (s_strtolirc_t val) (s_strtolirc_t val2)
      in if strcaseeq ''header'' key then set2 (\<lambda>p q. rm\<lparr>phead := p, shead := q\<rparr>)
         else if strcaseeq ''three'' key then set2 (\<lambda>p q. rm\<lparr>pthree := p, sthree := q\<rparr>)
         else if strcaseeq ''two'' key then set2 (\<lambda>p q. rm\<lparr>ptwo := p, stwo := q\<rparr>)
         else if strcaseeq ''one'' key then set2 (\<lambda>p q. rm\<lparr>pone := p, sone := q\<rparr>)
         else if strcaseeq ''zero'' key then set2 (\<lambda>p q. rm\<lparr>pzero := p, szero := q\<rparr>)
         else if strcaseeq ''foot'' key then set2 (\<lambda>p q. rm\<lparr>pfoot := p, sfoot := q\<rparr>)
         else if strcaseeq ''repeat'' key then set2 (\<lambda>p q. rm\<lparr>prepeat := p, srepeat := q\<rparr>)
         else if strcaseeq ''pre'' key then set2 (\<lambda>p q. rm\<lparr>pre_p := p, pre_s := q\<rparr>)
         else if strcaseeq ''post'' key then set2 (\<lambda>p q. rm\<lparr>post_p := p, post_s := q\<rparr>)
         else None)"

text \<open>\<open>dyn\<close> is the option \<open>lircd:dynamic-codes\<close>. The result is the remote and the number of
  arguments used.\<close>

definition defineRemote :: "bool \<Rightarrow> string \<Rightarrow> string \<Rightarrow> string option \<Rightarrow> ir_remote
    \<Rightarrow> (ir_remote \<times> int) option" where
  "defineRemote dyn key val val2 rm =
     (if strcaseeq ''name'' key then Some (rm\<lparr>rname := Some val\<rparr>, 1)
      else if dyn then
        (if strcaseeq ''dyncodes_name'' key then Some (rm\<lparr>dyncodes_name := Some val\<rparr>, 1) else None)
      else if strcaseeq ''driver'' key then Some (rm\<lparr>rdriver := Some val\<rparr>, 1)
      else if strcaseeq ''bits'' key then store (s_strtoi val) (\<lambda>n. rm\<lparr>bits := n\<rparr>) 1
      else if strcaseeq ''flags'' key then store (parseFlags val) (\<lambda>n. rm\<lparr>flags := flags rm OR n\<rparr>) 1
      else if strcaseeq ''eps'' key then store (s_strtoi val) (\<lambda>n. rm\<lparr>eps := n\<rparr>) 1
      else if strcaseeq ''aeps'' key then store (s_strtoi val) (\<lambda>n. rm\<lparr>aeps := u32 n\<rparr>) 1
      else if strcaseeq ''plead'' key then store (s_strtolirc_t val) (\<lambda>n. rm\<lparr>plead := n\<rparr>) 1
      else if strcaseeq ''ptrail'' key then store (s_strtolirc_t val) (\<lambda>n. rm\<lparr>ptrail := n\<rparr>) 1
      else if strcaseeq ''pre_data_bits'' key then store (s_strtoi val) (\<lambda>n. rm\<lparr>pre_data_bits := n\<rparr>) 1
      else if strcaseeq ''pre_data'' key then store (s_strtocode val) (\<lambda>n. rm\<lparr>pre_data := n\<rparr>) 1
      else if strcaseeq ''post_data_bits'' key then store (s_strtoi val) (\<lambda>n. rm\<lparr>post_data_bits := n\<rparr>) 1
      else if strcaseeq ''post_data'' key then store (s_strtocode val) (\<lambda>n. rm\<lparr>post_data := n\<rparr>) 1
      else if strcaseeq ''gap'' key then
        (case val2 of
           None \<Rightarrow> store (s_strtou32 val) (\<lambda>n. rm\<lparr>gap := n\<rparr>) 1
         | Some v2 \<Rightarrow> store2 (s_strtou32 val) (s_strtou32 v2) (\<lambda>n m. rm\<lparr>gap2 := m, gap := n\<rparr>))
      else if strcaseeq ''repeat_gap'' key then store (s_strtou32 val) (\<lambda>n. rm\<lparr>repeat_gap := n\<rparr>) 1
      else if strcaseeq ''repeat_mask'' key then store (s_strtocode val) (\<lambda>n. rm\<lparr>repeat_mask := n\<rparr>) 1
      else if strcaseeq ''toggle_bit'' key then store (s_strtoi val) (\<lambda>n. rm\<lparr>toggle_bit := n\<rparr>) 1
      else if strcaseeq ''toggle_bit_mask'' key then store (s_strtocode val) (\<lambda>n. rm\<lparr>toggle_bit_mask := n\<rparr>) 1
      else if strcaseeq ''toggle_mask'' key then store (s_strtocode val) (\<lambda>n. rm\<lparr>toggle_mask := n\<rparr>) 1
      else if strcaseeq ''rc6_mask'' key then store (s_strtocode val) (\<lambda>n. rm\<lparr>rc6_mask := n\<rparr>) 1
      else if strcaseeq ''ignore_mask'' key then store (s_strtocode val) (\<lambda>n. rm\<lparr>ignore_mask := n\<rparr>) 1
      else if strcaseeq ''manual_sort'' key then store (s_strtoi val) (\<lambda>n. rm\<lparr>manual_sort := n\<rparr>) 1
      else if strcaseeq ''repeat_bit'' key then store (s_strtoi val) (\<lambda>n. rm\<lparr>toggle_bit := n\<rparr>) 1
      else if strcaseeq ''suppress_repeat'' key then store (s_strtoi val) (\<lambda>n. rm\<lparr>suppress_repeat := n\<rparr>) 1
      else if strcaseeq ''min_repeat'' key then store (s_strtoi val) (\<lambda>n. rm\<lparr>min_repeat := n\<rparr>) 1
      else if strcaseeq ''min_code_repeat'' key then store (s_strtoi val) (\<lambda>n. rm\<lparr>min_code_repeat := u32 n\<rparr>) 1
      else if strcaseeq ''frequency'' key then store (s_strtoui val) (\<lambda>n. rm\<lparr>freq := n\<rparr>) 1
      else if strcaseeq ''duty_cycle'' key then store (s_strtoui val) (\<lambda>n. rm\<lparr>duty_cycle := n\<rparr>) 1
      else if strcaseeq ''baud'' key then store (s_strtoui val) (\<lambda>n. rm\<lparr>baud := n\<rparr>) 1
      else if strcaseeq ''serial_mode'' key then define_serial_mode val rm
      else (case val2 of None \<Rightarrow> None | Some v2 \<Rightarrow> define_pair key val v2 rm))"

section \<open>Codes, nodes and signals\<close>

definition defineCode :: "string \<Rightarrow> string \<Rightarrow> ir_ncode option" where
  "defineCode key val = map_option (\<lambda>c. zero_ncode\<lparr>nname := key, code := c\<rparr>) (s_strtocode val)"

definition defineNode :: "ir_ncode \<Rightarrow> string \<Rightarrow> ir_ncode option" where
  "defineNode nc val = map_option (\<lambda>c. nc\<lparr>nexts := nexts nc @ [c], current := Some (length (nexts nc))\<rparr>)
     (s_strtocode val)"

text \<open>The nodes of a line: every further token up to a comment.\<close>

fun define_nodes :: "ir_ncode \<Rightarrow> string list \<Rightarrow> ir_ncode option" where
  "define_nodes nc [] = Some nc"
| "define_nodes nc (v # vs) =
     (if v \<noteq> [] \<and> hd v = CHR ''#'' then Some nc
      else (case defineNode nc v of None \<Rightarrow> None | Some nc \<Rightarrow> define_nodes nc vs))"

definition define_code_line :: "string \<Rightarrow> string \<Rightarrow> string list \<Rightarrow> ir_ncode option" where
  "define_code_line key val rest = (case defineCode key val of
     None \<Rightarrow> None
   | Some nc \<Rightarrow> map_option (\<lambda>nc. nc\<lparr>current := None\<rparr>) (define_nodes nc rest))"

text \<open>\<open>addSignal\<close> for all the tokens of a line.\<close>

fun add_signals :: "lirc_t list \<Rightarrow> string list \<Rightarrow> lirc_t list option" where
  "add_signals sg [] = Some sg"
| "add_signals sg (v # vs) = (case s_strtoui v of
     None \<Rightarrow> None
   | Some n \<Rightarrow> add_signals (sg @ [i32 n]) vs)"

section \<open>Checks at the end of a remote\<close>

definition sanityChecks :: "ir_remote \<Rightarrow> ir_remote option" where
  "sanityChecks rm =
     (if rname rm = None then None
      else if is_raw rm then Some rm
      else
        (let rm = rm\<lparr>pre_data := pre_data rm AND gen_mask (pre_data_bits rm)\<rparr>;
             rm = rm\<lparr>post_data := post_data rm AND gen_mask (post_data_bits rm)\<rparr>
         in case codes rm of
              None \<Rightarrow> None
            | Some cs \<Rightarrow>
                Some (rm\<lparr>codes := Some (map (\<lambda>nc. nc\<lparr>code := code nc AND gen_mask (bits rm),
                   nexts := map (\<lambda>c. c AND gen_mask (bits rm)) (nexts nc)\<rparr>) cs)\<rparr>)))"

end
