(* ===== verification/Config_Fixup.thy ===== *)
theory Config_Fixup
  imports Transmit
begin

text \<open>
  What \<open>read_config_recursive\<close> of \<open>lib/config_file.c\<close> does to the remotes of a file that
  parsed: the reverse flag, the obsolete toggle bit, the defaults of serial remotes, the
  repeat counts, and \<open>calculate_signal_lengths\<close>, which measures the shortest and the longest
  signal by simulating the transmission of every code. \<open>None\<close>: a NULL \<open>codes\<close> is
  dereferenced.
\<close>

section \<open>Signal lengths\<close>

record siglens =
  sl_first :: bool
  sl_min :: lirc_t
  sl_max :: lirc_t
  sl_max_pulse :: lirc_t
  sl_max_space :: lirc_t

text \<open>The longest pulse and space of the sent signal: the samples alternate.\<close>

fun max_samples :: "nat \<Rightarrow> lirc_t list \<Rightarrow> siglens \<Rightarrow> siglens" where
  "max_samples i [] l = l"
| "max_samples i (x # xs) l = max_samples (i + 1) xs
     (if i mod 2 = 1 then (if x > sl_max_space l then l\<lparr>sl_max_space := x\<rparr> else l)
      else (if x > sl_max_pulse l then l\<lparr>sl_max_pulse := x\<rparr> else l))"

definition note_signal :: "sbuf \<Rightarrow> siglens \<Rightarrow> siglens" where
  "note_signal t l =
     (let total = send_buffer_sum t;
          l = (if total \<noteq> 0 then
                 l\<lparr>sl_min := (if sl_first l \<or> total < sl_min l then total else sl_min l),
                   sl_max := (if sl_first l \<or> total > sl_max l then total else sl_max l),
                   sl_first := False\<rparr>
               else l)
      in max_samples 0 (send_buffer_data t) l)"

definition sim_signal :: "ir_remote \<Rightarrow> ir_ncode \<Rightarrow> bool \<Rightarrow> siglens \<times> sbuf \<Rightarrow> (siglens \<times> sbuf) option" where
  "sim_signal rm nc rep lt =
     (let (l, t) = lt
      in case init_sim rm nc rep t of
           None \<Rightarrow> None
         | Some (ok, _, _, t) \<Rightarrow> Some (if ok then note_signal t l else l, t))"

text \<open>Every code word of a button, each once as a first signal and once as a repeat.\<close>

fun sim_words :: "ir_remote \<Rightarrow> ir_ncode \<Rightarrow> ir_code list \<Rightarrow> siglens \<times> sbuf \<Rightarrow> (siglens \<times> sbuf) option" where
  "sim_words rm nc [] lt = Some lt"
| "sim_words rm nc (w # ws) lt = (case sim_signal rm (nc\<lparr>code := w\<rparr>) False lt of
     None \<Rightarrow> None
   | Some lt \<Rightarrow> (case sim_signal rm (nc\<lparr>code := w\<rparr>) True lt of
        None \<Rightarrow> None
      | Some lt \<Rightarrow> sim_words rm nc ws lt))"

fun sim_codes :: "ir_remote \<Rightarrow> ir_ncode list \<Rightarrow> siglens \<times> sbuf \<Rightarrow> (siglens \<times> sbuf) option" where
  "sim_codes rm [] lt = Some lt"
| "sim_codes rm (nc # ncs) lt = (case sim_words rm nc (code nc # nexts nc) lt of
     None \<Rightarrow> None
   | Some lt \<Rightarrow> sim_codes rm ncs lt)"

definition store_lengths :: "ir_remote \<Rightarrow> siglens \<Rightarrow> ir_remote" where
  "store_lengths rm l =
     (if sl_first l then
        rm\<lparr>min_total_signal_length := min_gap rm, max_total_signal_length := max_gap rm,
           min_gap_length := min_gap rm, max_gap_length := max_gap rm\<rparr>
      else if is_const rm then
        rm\<lparr>min_gap_length := (if min_total_signal_length rm > sl_max l
                              then i32 (min_total_signal_length rm - sl_max l) else 0),
           max_gap_length := (if max_total_signal_length rm > sl_min l
                              then i32 (max_total_signal_length rm - sl_min l) else 0)\<rparr>
      else
        rm\<lparr>min_total_signal_length := i32 (sl_min l + min_gap_length rm),
           max_total_signal_length := i32 (sl_max l + max_gap_length rm)\<rparr>)"

definition calculate_signal_lengths :: "ir_remote \<Rightarrow> sbuf \<Rightarrow> (ir_remote \<times> sbuf) option" where
  "calculate_signal_lengths rm t =
     (let rm = (if is_const rm
                then rm\<lparr>min_total_signal_length := min_gap rm, max_total_signal_length := max_gap rm\<rparr>
                else rm\<lparr>min_gap_length := min_gap rm, max_gap_length := max_gap rm\<rparr>)
      in case codes rm of
           None \<Rightarrow> None
         | Some cs \<Rightarrow>
             (case sim_codes rm cs (\<lparr>sl_first = True, sl_min = 0, sl_max = 0, sl_max_pulse = 0,
                                     sl_max_space = 0\<rparr>, t) of
                None \<Rightarrow> None
              | Some (l, t) \<Rightarrow> Some (store_lengths rm l, t)))"

section \<open>Flags and masks\<close>

text \<open>The \<open>REVERSE\<close> flag is replaced by \<open>COMPAT_REVERSE\<close> and the data turned round.\<close>

definition kick_reverse :: "ir_remote \<Rightarrow> ir_remote option" where
  "kick_reverse rm =
     (if \<not> is_raw rm \<and> flags rm AND REVERSE \<noteq> 0 then
        (let rm = (if has_pre rm then rm\<lparr>pre_data := reverse (pre_data rm) (pre_data_bits rm)\<rparr> else rm);
             rm = (if has_post rm then rm\<lparr>post_data := reverse (post_data rm) (post_data_bits rm)\<rparr> else rm)
         in case codes rm of
              None \<Rightarrow> None
            | Some cs \<Rightarrow> Some (rm\<lparr>codes := Some (map (\<lambda>nc. nc\<lparr>code := reverse (code nc) (bits rm)\<rparr>) cs),
                                  flags := (flags rm AND NOT REVERSE) OR COMPAT_REVERSE\<rparr>))
      else Some rm)"

definition bit_from_top :: "ir_remote \<Rightarrow> ir_code" where
  "bit_from_top rm = shl 1 (bit_count rm - toggle_bit rm)"

definition fix_toggle_bit :: "ir_remote \<Rightarrow> ir_remote" where
  "fix_toggle_bit rm =
     (let rm = (if flags rm AND RC6 \<noteq> 0 \<and> rc6_mask rm = 0 \<and> toggle_bit rm > 0
                then rm\<lparr>rc6_mask := bit_from_top rm\<rparr> else rm);
          rm = (if toggle_bit rm > 0 then
                  (let rm = (if has_toggle_bit_mask rm then rm
                             else rm\<lparr>toggle_bit_mask := bit_from_top rm\<rparr>)
                   in rm\<lparr>toggle_bit := 0\<rparr>)
                else rm)
      in if has_toggle_bit_mask rm \<and> \<not> is_raw rm then
           (case codes rm of
              None \<Rightarrow> rm
            | Some cs \<Rightarrow>
                (let st = (case cs of [] \<Rightarrow> 0 | nc # _ \<Rightarrow> code nc AND toggle_bit_mask rm)
                 in rm\<lparr>toggle_bit_mask_state := (if st \<noteq> 0 then st XOR toggle_bit_mask rm else 0)\<rparr>))
         else rm)"

definition fix_serial :: "ir_remote \<Rightarrow> ir_remote" where
  "fix_serial rm =
     (if is_serial rm then
        (let rm = (if baud rm > 0 then
                     (let base = i32 (1000000 div baud rm);
                          rm = (if pzero rm = 0 \<and> szero rm = 0 then rm\<lparr>pzero := base\<rparr> else rm)
                      in if pone rm = 0 \<and> sone rm = 0 then rm\<lparr>sone := base\<rparr> else rm)
                   else rm)
         in if bits_in_byte rm = 0 then rm\<lparr>bits_in_byte := 8\<rparr> else rm)
      else rm)"

definition fix_min_code_repeat :: "ir_remote \<Rightarrow> ir_remote" where
  "fix_min_code_repeat rm =
     (if min_code_repeat rm > 0 \<and> (\<not> has_repeat rm \<or> min_code_repeat rm > u32 (min_repeat rm))
      then rm\<lparr>min_code_repeat := 0\<rparr> else rm)"

definition fixup_remote :: "ir_remote \<Rightarrow> sbuf \<Rightarrow> (ir_remote \<times> sbuf) option" where
  "fixup_remote rm t = (case kick_reverse rm of
     None \<Rightarrow> None
   | Some rm \<Rightarrow>
       calculate_signal_lengths (fix_min_code_repeat (fix_serial (fix_toggle_bit rm))) t)"

fun fixup_remotes :: "ir_remote list \<Rightarrow> sbuf \<Rightarrow> (ir_remote list \<times> sbuf) option" where
  "fixup_remotes [] t = Some ([], t)"
| "fixup_remotes (r # rs) t = (case fixup_remote r t of
     None \<Rightarrow> None
   | Some (r, t) \<Rightarrow> (case fixup_remotes rs t of None \<Rightarrow> None | Some (rs, t) \<Rightarrow> Some (r # rs, t)))"

end
