(* ===== verification/Config_Read.thy ===== *)
theory Config_Read
  imports Config_Define Config_Fixup
begin

text \<open>
  The reader of \<open>lircd.conf\<close> files, \<open>read_config_recursive\<close> of \<open>lib/config_file.c\<close>: the state
  machine over the lines, the include mechanism and \<open>read_config\<close>.

  Files are the parameter \<open>fs\<close> (\<open>fopen\<close>: the contents of the file of that name, None when it
  cannot be opened) and \<open>globf\<close> (\<open>glob\<close>: the paths that match a pattern).
\<close>

section \<open>State\<close>

datatype directive = ID_none | ID_remote | ID_codes | ID_raw_codes | ID_raw_name

text \<open>The pointer \<open>rem\<close>: NULL, an element of the list \<open>top_rem\<close>, or a remote that is no
  longer in the list.\<close>

datatype rem_ref = RNone | RIn nat | RLost ir_remote

record reader =
  rd_mode :: directive
  rd_top :: "ir_remote list"
  rd_rem :: rem_ref
  rd_codes_list :: "ir_ncode list"
  rd_raw_codes :: "ir_ncode list"
  rd_signals :: "lirc_t list"
  rd_raw_code :: ir_ncode

definition reader_start :: reader where
  "reader_start = \<lparr>rd_mode = ID_none, rd_top = [], rd_rem = RNone, rd_codes_list = [],
     rd_raw_codes = [], rd_signals = [], rd_raw_code = zero_ncode\<rparr>"

definition cur_rem :: "reader \<Rightarrow> ir_remote" where
  "cur_rem r = (case rd_rem r of RNone \<Rightarrow> zero_remote | RIn i \<Rightarrow> rd_top r ! i | RLost x \<Rightarrow> x)"

definition put_rem :: "ir_remote \<Rightarrow> reader \<Rightarrow> reader" where
  "put_rem rm r = (case rd_rem r of
     RNone \<Rightarrow> r
   | RIn i \<Rightarrow> r\<lparr>rd_top := (rd_top r)[i := rm]\<rparr>
   | RLost x \<Rightarrow> r\<lparr>rd_rem := RLost rm\<rparr>)"

text \<open>A step of the reader: \<open>None\<close> when it sets \<open>parse_error\<close>, which ends the loop.\<close>

definition checkMode :: "directive \<Rightarrow> directive \<Rightarrow> reader \<Rightarrow> reader option" where
  "checkMode is_mode c_mode r = (if is_mode \<noteq> c_mode then None else Some r)"

section \<open>Sections of a remote\<close>

definition begin_codes :: "reader \<Rightarrow> reader option" where
  "begin_codes r = (case checkMode (rd_mode r) ID_remote r of
     None \<Rightarrow> None
   | Some r \<Rightarrow> (if codes (cur_rem r) \<noteq> None then None
                else Some (r\<lparr>rd_codes_list := [], rd_mode := ID_codes\<rparr>)))"

definition begin_raw_codes :: "reader \<Rightarrow> reader option" where
  "begin_raw_codes r = (case checkMode (rd_mode r) ID_remote r of
     None \<Rightarrow> None
   | Some r \<Rightarrow> (if codes (cur_rem r) \<noteq> None then None
                else (let r = put_rem (set_protocol (cur_rem r) RAW_CODES) r
                      in Some (r\<lparr>rd_raw_code := (rd_raw_code r)\<lparr>code := 0\<rparr>, rd_raw_codes := [],
                                 rd_mode := ID_raw_codes\<rparr>))))"

definition new_remote :: ir_remote where
  "new_remote = zero_remote\<lparr>freq := DEFAULT_FREQ\<rparr>"

definition begin_remote :: "reader \<Rightarrow> reader option" where
  "begin_remote r = (case checkMode (rd_mode r) ID_none r of
     None \<Rightarrow> None
   | Some r \<Rightarrow> Some (r\<lparr>rd_mode := ID_remote, rd_top := rd_top r @ [new_remote],
                       rd_rem := RIn (length (rd_top r))\<rparr>))"

definition end_codes :: "reader \<Rightarrow> reader option" where
  "end_codes r = (case checkMode (rd_mode r) ID_codes r of
     None \<Rightarrow> None
   | Some r \<Rightarrow> Some ((put_rem ((cur_rem r)\<lparr>codes := Some (rd_codes_list r)\<rparr>) r)\<lparr>rd_mode := ID_remote\<rparr>))"

text \<open>The raw code that is being read gets its signals and goes into the list; a signal must
  begin and end with a pulse.\<close>

definition finish_raw_code :: "reader \<Rightarrow> reader option" where
  "finish_raw_code r =
     (let rc = (rd_raw_code r)\<lparr>signals := Some (rd_signals r), nlength := length (rd_signals r)\<rparr>
      in if length (rd_signals r) mod 2 = 0 then None
         else Some (r\<lparr>rd_raw_code := rc, rd_raw_codes := rd_raw_codes r @ [rc]\<rparr>))"

definition end_raw_codes :: "reader \<Rightarrow> reader option" where
  "end_raw_codes r =
     (case (if rd_mode r = ID_raw_name
            then map_option (\<lambda>r. r\<lparr>rd_mode := ID_raw_codes\<rparr>) (finish_raw_code r) else Some r) of
        None \<Rightarrow> None
      | Some r \<Rightarrow> (case checkMode (rd_mode r) ID_raw_codes r of
           None \<Rightarrow> None
         | Some r \<Rightarrow> Some ((put_rem ((cur_rem r)\<lparr>codes := Some (rd_raw_codes r)\<rparr>) r)\<lparr>rd_mode := ID_remote\<rparr>)))"

text \<open>The end of a remote: \<open>rem->next = NULL\<close> ends the list there.\<close>

definition cut_list :: "reader \<Rightarrow> reader" where
  "cut_list r = (case rd_rem r of RIn i \<Rightarrow> r\<lparr>rd_top := take (i + 1) (rd_top r)\<rparr> | _ \<Rightarrow> r)"

definition name_dyncodes :: "bool \<Rightarrow> ir_remote \<Rightarrow> ir_remote" where
  "name_dyncodes dyn rm =
     (if dyn then
        (let nm = (case dyncodes_name rm of None \<Rightarrow> ''unknown'' | Some n \<Rightarrow> n)
         in rm\<lparr>dyncodes_name := Some nm, dyncodes := map (\<lambda>nc. nc\<lparr>nname := nm\<rparr>) (dyncodes rm)\<rparr>)
      else rm)"

definition end_remote :: "bool \<Rightarrow> reader \<Rightarrow> reader option" where
  "end_remote dyn r = (case checkMode (rd_mode r) ID_remote r of
     None \<Rightarrow> None
   | Some r \<Rightarrow> (case sanityChecks (cur_rem r) of
        None \<Rightarrow> None
      | Some rm \<Rightarrow>
          (let r = cut_list (put_rem ((name_dyncodes dyn rm)\<lparr>last_code := None\<rparr>) r)
           in Some (r\<lparr>rd_mode := ID_none\<rparr>))))"

definition code_line :: "string \<Rightarrow> string \<Rightarrow> string list \<Rightarrow> reader \<Rightarrow> reader option" where
  "code_line key val rest r =
     map_option (\<lambda>nc. r\<lparr>rd_codes_list := rd_codes_list r @ [nc]\<rparr>) (define_code_line key val rest)"

text \<open>A line in a \<open>raw_codes\<close> section with at least two tokens.\<close>

definition raw_line :: "string \<Rightarrow> string \<Rightarrow> string list \<Rightarrow> reader \<Rightarrow> reader option" where
  "raw_line key val rest r =
     (if strcaseeq ''name'' key then
        (case (if rd_mode r = ID_raw_name then finish_raw_code r else Some r) of
           None \<Rightarrow> None
         | Some r \<Rightarrow>
             Some (r\<lparr>rd_raw_code := (rd_raw_code r)\<lparr>nname := val, code := code (rd_raw_code r) + 1\<rparr>,
                     rd_signals := [], rd_mode := ID_raw_name\<rparr>))
      else if rd_mode r = ID_raw_codes then None
      else map_option (\<lambda>sg. r\<lparr>rd_signals := sg\<rparr>) (add_signals (rd_signals r) (key # val # rest)))"

definition begin_line :: "string \<Rightarrow> string \<Rightarrow> string list \<Rightarrow> reader \<Rightarrow> reader option" where
  "begin_line key val rest r =
     (if strcaseeq ''codes'' val then begin_codes r
      else if strcaseeq ''raw_codes'' val then begin_raw_codes r
      else if strcaseeq ''remote'' val then begin_remote r
      else if rd_mode r = ID_codes then code_line key val rest r
      else None)"

definition end_line :: "bool \<Rightarrow> string \<Rightarrow> string \<Rightarrow> string list \<Rightarrow> reader \<Rightarrow> reader option" where
  "end_line dyn key val rest r =
     (if strcaseeq ''codes'' val then end_codes r
      else if strcaseeq ''raw_codes'' val then end_raw_codes r
      else if strcaseeq ''remote'' val then end_remote dyn r
      else if rd_mode r = ID_codes then code_line key val rest r
      else None)"

definition other_line :: "bool \<Rightarrow> string \<Rightarrow> string \<Rightarrow> string list \<Rightarrow> reader \<Rightarrow> reader option" where
  "other_line dyn key val rest r = (case rd_mode r of
     ID_remote \<Rightarrow>
       map_option (\<lambda>(rm, argc). put_rem rm r)
         (defineRemote dyn key val (case rest of [] \<Rightarrow> None | v # _ \<Rightarrow> Some v) (cur_rem r))
   | ID_codes \<Rightarrow> code_line key val rest r
   | ID_raw_codes \<Rightarrow> raw_line key val rest r
   | ID_raw_name \<Rightarrow> raw_line key val rest r
   | ID_none \<Rightarrow> Some r)"

section \<open>Lines\<close>

text \<open>The end of the line is cut off: a newline, then a carriage return before it.\<close>

definition chop_eol :: "string \<Rightarrow> string" where
  "chop_eol s =
     (let n = length s
      in if n = 0 then s
         else (let s' = (if s ! (n - 1) = newline then take (n - 1) s else s)
               in if n - 1 > 0 \<and> s ! (n - 2) = carriage_return then take (n - 2) s else s'))"

definition is_ws :: "char \<Rightarrow> bool" where
  "is_ws c \<longleftrightarrow> c = CHR '' '' \<or> c = char_of (9::nat)"

text \<open>What a line asks for: an include, or a step of the reader.\<close>

datatype line_kind = LInclude string | LStep "reader option"

definition read_line :: "bool \<Rightarrow> string \<Rightarrow> reader \<Rightarrow> line_kind" where
  "read_line dyn ln r =
     (let s = chop_eol ln
      in if s \<noteq> [] \<and> hd s = CHR ''#'' then LStep (Some r)
         else (case strtok_all is_ws s of
             [] \<Rightarrow> LStep (Some r)
           | [key] \<Rightarrow>
               LStep (if rd_mode r = ID_raw_name
                      then map_option (\<lambda>sg. r\<lparr>rd_signals := sg\<rparr>) (add_signals (rd_signals r) [key])
                      else None)
           | key # val # rest \<Rightarrow>
               (if strcaseeq ''include'' key then LInclude val
                else if strcaseeq ''begin'' key then LStep (begin_line key val rest r)
                else if strcaseeq ''end'' key then LStep (end_line dyn key val rest r)
                else LStep (other_line dyn key val rest r))))"

section \<open>Include files\<close>

abbreviation (input) LINE_LEN :: nat where "LINE_LEN \<equiv> 4096"
abbreviation (input) MAX_INCLUDES :: nat where "MAX_INCLUDES \<equiv> 10"

definition lirc_parse_include :: "string \<Rightarrow> string option" where
  "lirc_parse_include s =
     (if length s < 2 then None
      else
        (let t = rev (dropWhile is_ws (rev s))
         in if length t \<le> 1 then None
            else if hd s = CHR ''\"'' \<and> last t = CHR ''\"'' \<or> hd s = CHR ''<'' \<and> last t = CHR ''>''
            then Some (butlast (tl t)) else None))"

text \<open>\<open>dirname\<close> of the C library, for the names of files.\<close>

definition dirname :: "string \<Rightarrow> string" where
  "dirname p =
     (let base = rev (dropWhile (\<lambda>c. c = CHR ''/'') (rev p));
          dir = rev (dropWhile (\<lambda>c. c \<noteq> CHR ''/'') (rev base));
          dir' = rev (dropWhile (\<lambda>c. c = CHR ''/'') (rev dir))
      in if base = [] then (if p = [] then ''.'' else ''/'')
         else if dir = [] then ''.''
         else if dir' = [] then ''/'' else dir')"

text \<open>What \<open>lirc_parse_relative\<close> leaves in its (initially empty) destination of \<open>n\<close> bytes.\<close>

definition lirc_parse_relative :: "nat \<Rightarrow> string \<Rightarrow> string \<Rightarrow> string" where
  "lirc_parse_relative n child cur =
     (if child \<noteq> [] \<and> hd child = CHR ''/'' then take (n - 1) child
      else if length cur \<ge> n then []
      else
        (let dir = dirname cur
         in if length dir + 1 + length child + 1 > n then dir else dir @ ''/'' @ child))"

text \<open>The list of remotes, whether the pointer to it has been dropped on the way, and
  \<open>parse_error\<close>.\<close>

record incl =
  in_top :: "ir_remote list"
  in_dropped :: bool
  in_error :: bool

text \<open>The result of reading a file: the error value \<open>(void*) -1\<close> is \<open>Inl ()\<close>; \<open>None\<close> is a
  crash (see \<open>Config_Fixup\<close>).\<close>

type_synonym file_result = "((unit + ir_remote list) \<times> sbuf) option"

text \<open>\<open>read_included\<close>; \<open>sub\<close> reads the contents of a file one level deeper, None when
  \<open>depth > MAX_INCLUDES\<close>.\<close>

definition read_included :: "(string \<Rightarrow> string option) \<Rightarrow> (string \<Rightarrow> string \<Rightarrow> sbuf \<Rightarrow> file_result) option
    \<Rightarrow> string \<Rightarrow> incl \<times> sbuf \<Rightarrow> (incl \<times> sbuf) option" where
  "read_included fs sub val ct =
     (let (c, t) = ct
      in case sub of
           None \<Rightarrow> Some (c, t)
         | Some rd \<Rightarrow>
             (case lirc_parse_include val of
                None \<Rightarrow> Some (c, t)
              | Some child \<Rightarrow>
                  (case fs child of
                     None \<Rightarrow> Some (c\<lparr>in_top := [], in_dropped := True\<rparr>, t)
                   | Some contents \<Rightarrow>
                       (case rd child contents t of
                          None \<Rightarrow> None
                        | Some (Inl _, t) \<Rightarrow> Some (c\<lparr>in_error := True\<rparr>, t)
                        | Some (Inr rs, t) \<Rightarrow> Some (c\<lparr>in_top := in_top c @ rs, in_error := False\<rparr>, t)))))"

fun read_paths :: "(string \<Rightarrow> string option) \<Rightarrow> (string \<Rightarrow> string \<Rightarrow> sbuf \<Rightarrow> file_result) option
    \<Rightarrow> string list \<Rightarrow> incl \<times> sbuf \<Rightarrow> (incl \<times> sbuf) option" where
  "read_paths fs sub [] ct = Some ct"
| "read_paths fs sub (p # ps) ct =
     (case read_included fs sub (take 255 (''\"'' @ p @ ''\"'')) ct of
        None \<Rightarrow> None
      | Some ct \<Rightarrow> read_paths fs sub ps ct)"

text \<open>\<open>read_all_included\<close>: the first and the last character of the value are taken for
  quotes.\<close>

definition read_all_included :: "(string \<Rightarrow> string option) \<Rightarrow> (string \<Rightarrow> string list)
    \<Rightarrow> (string \<Rightarrow> string \<Rightarrow> sbuf \<Rightarrow> file_result) option \<Rightarrow> string \<Rightarrow> string \<Rightarrow> ir_remote list \<Rightarrow> sbuf
    \<Rightarrow> (incl \<times> sbuf) option" where
  "read_all_included fs globf sub name val tops t =
     read_paths fs sub (globf (lirc_parse_relative 256 (butlast (tl val)) name))
       (\<lparr>in_top = tops, in_dropped = False, in_error = False\<rparr>, t)"

definition after_include :: "incl \<Rightarrow> reader \<Rightarrow> reader" where
  "after_include c r =
     (if in_dropped c
      then r\<lparr>rd_rem := (case rd_rem r of RIn i \<Rightarrow> RLost (rd_top r ! i) | x \<Rightarrow> x), rd_top := in_top c\<rparr>
      else r\<lparr>rd_top := in_top c\<rparr>)"

section \<open>Files\<close>

text \<open>The loop over the lines: \<open>Inl ()\<close> when \<open>parse_error\<close> is set.\<close>

fun read_lines :: "(string \<Rightarrow> string option) \<Rightarrow> (string \<Rightarrow> string list)
    \<Rightarrow> (string \<Rightarrow> string \<Rightarrow> sbuf \<Rightarrow> file_result) option \<Rightarrow> bool \<Rightarrow> string \<Rightarrow> string list
    \<Rightarrow> reader \<Rightarrow> sbuf \<Rightarrow> ((unit + reader) \<times> sbuf) option" where
  "read_lines fs globf sub dyn name [] r t = Some (Inr r, t)"
| "read_lines fs globf sub dyn name (l # ls) r t =
     (if length l = LINE_LEN \<and> last l \<noteq> newline then Some (Inl (), t)
      else (case read_line dyn l r of
          LInclude val \<Rightarrow>
            (case read_all_included fs globf sub name val (rd_top r) t of
               None \<Rightarrow> None
             | Some (c, t) \<Rightarrow>
                 (if in_error c then Some (Inl (), t)
                  else read_lines fs globf sub dyn name ls (after_include c r) t))
        | LStep None \<Rightarrow> Some (Inl (), t)
        | LStep (Some r) \<Rightarrow> read_lines fs globf sub dyn name ls r t))"

definition finish_file :: "((unit + reader) \<times> sbuf) option \<Rightarrow> file_result" where
  "finish_file res = (case res of
     None \<Rightarrow> None
   | Some (Inl _, t) \<Rightarrow> Some (Inl (), t)
   | Some (Inr r, t) \<Rightarrow>
       (if rd_mode r \<noteq> ID_none then Some (Inl (), t)
        else (case fixup_remotes (rd_top r) t of
            None \<Rightarrow> None
          | Some (rs, t) \<Rightarrow> Some (Inr rs, t))))"

text \<open>\<open>read_config_recursive\<close>; \<open>k\<close> is how many levels of includes are left: the C argument
  \<open>depth\<close> is \<open>MAX_INCLUDES + 1 - k\<close>.\<close>

primrec read_config_recursive :: "(string \<Rightarrow> string option) \<Rightarrow> (string \<Rightarrow> string list) \<Rightarrow> bool \<Rightarrow> nat
    \<Rightarrow> string \<Rightarrow> string \<Rightarrow> sbuf \<Rightarrow> file_result" where
  "read_config_recursive fs globf dyn 0 name contents t =
     finish_file (read_lines fs globf None dyn name (fgets_all (LINE_LEN - 1) contents) reader_start t)"
| "read_config_recursive fs globf dyn (Suc k) name contents t =
     finish_file (read_lines fs globf (Some (read_config_recursive fs globf dyn k)) dyn name
       (fgets_all (LINE_LEN - 1) contents) reader_start t)"

section \<open>Sorting\<close>

text \<open>\<open>remote_bits_cmp\<close>. Raw remotes have codes here: \<open>calculate_signal_lengths\<close> has read
  them.\<close>

definition code_count :: "ir_remote \<Rightarrow> int" where
  "code_count rm = (case codes rm of None \<Rightarrow> 0 | Some cs \<Rightarrow> int (length cs))"

definition remote_bits_cmp :: "ir_remote \<Rightarrow> ir_remote \<Rightarrow> int" where
  "remote_bits_cmp r1 r2 =
     (if \<not> is_raw r1 \<and> is_raw r2 then -1
      else if is_raw r1 \<and> \<not> is_raw r2 then 1
      else
        (let r1_size = (if is_raw r1 \<and> is_raw r2 then code_count r1 else bit_count r1);
             r2_size = (if is_raw r1 \<and> is_raw r2 then code_count r2 else bit_count r2)
         in if r1_size = r2_size then 0 else if r1_size < r2_size then -1 else 1))"

text \<open>The inner loop: past the remotes that are not slower.\<close>

fun insert_remote :: "ir_remote \<Rightarrow> ir_remote list \<Rightarrow> ir_remote list" where
  "insert_remote rem [] = [rem]"
| "insert_remote rem (s # ss) =
     (if remote_bits_cmp s rem \<le> 0 then s # insert_remote rem ss else rem # s # ss)"

text \<open>\<open>sort_by_bit_count\<close>: the loops skip the error value, for which the function returns
  NULL, the empty list.\<close>

definition sort_by_bit_count :: "unit + ir_remote list \<Rightarrow> ir_remote list" where
  "sort_by_bit_count rms = (case rms of
     Inl _ \<Rightarrow> []
   | Inr rs \<Rightarrow> (if list_ex (\<lambda>r. manual_sort r \<noteq> 0) rs then rs
                else fold (\<lambda>rem tops. insert_remote rem tops) rs []))"

definition read_config :: "(string \<Rightarrow> string option) \<Rightarrow> (string \<Rightarrow> string list) \<Rightarrow> bool
    \<Rightarrow> string \<Rightarrow> string \<Rightarrow> sbuf \<Rightarrow> (ir_remote list \<times> sbuf) option" where
  "read_config fs globf dyn name contents t =
     map_option (\<lambda>(res, t). (sort_by_bit_count res, t))
       (read_config_recursive fs globf dyn (MAX_INCLUDES + 1) name contents t)"

end
