(* ===== verification/Config_Facts.thy ===== *)
theory Config_Facts
  imports Config_Read Transmit_Facts "HOL-Library.Multiset"
begin

text \<open>
  Facts about \<open>lib/config_file.c\<close>: the sorting of remotes (through the locale
  \<open>insertion_sort\<close>), flags, the checks and repairs at the end of a file, the state machine of
  the reader as a step relation with its invariant, and what every remote of a configuration
  that was read has.
\<close>

section \<open>Insertion into a sorted list\<close>

text \<open>The contract between \<open>sort_by_bit_count\<close> and \<open>remote_bits_cmp\<close>: the comparison is a
  total preorder, and elements are inserted behind those that are not larger.\<close>

locale insertion_sort =
  fixes cmp :: "'a \<Rightarrow> 'a \<Rightarrow> int" and ins :: "'a \<Rightarrow> 'a list \<Rightarrow> 'a list"
  assumes cmp_total: "cmp x y \<le> 0 \<or> cmp y x \<le> 0"
    and cmp_trans: "cmp x y \<le> 0 \<Longrightarrow> cmp y z \<le> 0 \<Longrightarrow> cmp x z \<le> 0"
    and ins_Nil: "ins x [] = [x]"
    and ins_Cons: "ins x (y # ys) = (if cmp y x \<le> 0 then y # ins x ys else x # y # ys)"
begin

lemma mset_ins: "mset (ins x ys) = add_mset x (mset ys)"
  by (induction ys) (simp_all add: ins_Nil ins_Cons)

lemma set_ins: "set (ins x ys) = insert x (set ys)"
  using mset_ins [of x ys] by (metis set_mset_add_mset_insert set_mset_mset)

lemma sorted_ins:
  "sorted_wrt (\<lambda>a b. cmp a b \<le> 0) ys \<Longrightarrow> sorted_wrt (\<lambda>a b. cmp a b \<le> 0) (ins x ys)"
proof (induction ys)
  case Nil
  then show ?case by (simp add: ins_Nil)
next
  case (Cons y ys)
  show ?case
  proof (cases "cmp y x \<le> 0")
    case True
    with Cons show ?thesis by (auto simp: ins_Cons set_ins)
  next
    case False
    then have xy: "cmp x y \<le> 0" using cmp_total by blast
    with False Cons.prems show ?thesis by (auto simp: ins_Cons intro: cmp_trans)
  qed
qed

lemma filter_ins:
  assumes "\<And>a b. P a \<Longrightarrow> P b \<Longrightarrow> cmp a b \<le> 0"
  shows "sorted_wrt (\<lambda>a b. cmp a b \<le> 0) ys \<Longrightarrow> filter P (ins x ys) = filter P ys @ (if P x then [x] else [])"
proof (induction ys)
  case Nil
  then show ?case by (simp add: ins_Nil)
next
  case (Cons y ys)
  show ?case
  proof (cases "cmp y x \<le> 0")
    case True
    with Cons show ?thesis by (simp add: ins_Cons)
  next
    case False
    have "\<not> P z" if "P x" "z \<in> set (y # ys)" for z
    proof
      assume "P z"
      then have "cmp z x \<le> 0" using assms that(1) by blast
      moreover have "z = y \<or> cmp y z \<le> 0" using Cons.prems that(2) by auto
      ultimately show False using False cmp_trans by blast
    qed
    then have "P x \<Longrightarrow> filter P (y # ys) = []" by (simp only: filter_empty_conv) blast
    with False show ?thesis by (auto simp: ins_Cons)
  qed
qed

lemma fold_sorted:
  "sorted_wrt (\<lambda>a b. cmp a b \<le> 0) acc \<Longrightarrow> sorted_wrt (\<lambda>a b. cmp a b \<le> 0) (fold ins xs acc)"
  by (induction xs arbitrary: acc) (simp_all add: sorted_ins)

lemma fold_mset: "mset (fold ins xs acc) = mset xs + mset acc"
  by (induction xs arbitrary: acc) (simp_all add: mset_ins)

lemma fold_stable:
  assumes "\<And>a b. P a \<Longrightarrow> P b \<Longrightarrow> cmp a b \<le> 0"
  shows "sorted_wrt (\<lambda>a b. cmp a b \<le> 0) acc \<Longrightarrow> filter P (fold ins xs acc) = filter P acc @ filter P xs"
proof (induction xs arbitrary: acc)
  case Nil
  then show ?case by simp
next
  case (Cons x xs)
  then show ?case using sorted_ins [OF Cons.prems, of x] filter_ins [of P, OF assms Cons.prems] by simp
qed

end

text \<open>What \<open>remote_bits_cmp\<close> compares: remotes with raw codes come last, then the number of
  codes or of bits.\<close>

definition sort_size :: "ir_remote \<Rightarrow> int" where
  "sort_size r = (if is_raw r then code_count r else bit_count r)"

lemma remote_bits_cmp_le:
  "remote_bits_cmp a b \<le> 0 \<longleftrightarrow> (\<not> is_raw a \<and> is_raw b) \<or> (is_raw a = is_raw b \<and> sort_size a \<le> sort_size b)"
  by (auto simp: remote_bits_cmp_def sort_size_def Let_def)

interpretation by_bits: insertion_sort remote_bits_cmp insert_remote
  by unfold_locales (auto simp: remote_bits_cmp_le)

section \<open>Flags\<close>

definition protocols :: "int list" where
  "protocols = [RAW_CODES, RC5, RC6, RCMM, SPACE_ENC, SPACE_FIRST, GRUNDIG, BO, SERIAL, XMP]"

lemma find_in_set: "List.find p xs = Some x \<Longrightarrow> x \<in> set xs"
  by (induction xs) (auto split: if_splits)

lemma flag_value_protocol:
  assumes "flag_value f = Some v"
  shows "v AND IR_PROTOCOL_MASK = 0 \<or> v AND IR_PROTOCOL_MASK \<in> set protocols"
proof -
  have "v \<in> snd ` set all_flags"
    using assms by (force simp: flag_value_def dest: find_in_set)
  then show ?thesis by (auto simp: all_flags_def protocols_def)
qed

lemma parse_flag_list_protocol:
  "parse_flag_list fs fl = Some r \<Longrightarrow> fl AND IR_PROTOCOL_MASK = 0 \<or> fl AND IR_PROTOCOL_MASK \<in> set protocols
    \<Longrightarrow> r AND IR_PROTOCOL_MASK = 0 \<or> r AND IR_PROTOCOL_MASK \<in> set protocols"
proof (induction fs arbitrary: fl)
  case Nil
  then show ?case by simp
next
  case (Cons f fs)
  obtain v where v: "flag_value f = Some v" "\<not> (v AND IR_PROTOCOL_MASK \<noteq> 0 \<and> fl AND IR_PROTOCOL_MASK \<noteq> 0)"
      "parse_flag_list fs (fl OR v) = Some r"
    using Cons.prems(1) by (auto split: option.splits if_splits)
  have d: "(fl OR v) AND IR_PROTOCOL_MASK = (fl AND IR_PROTOCOL_MASK) OR (v AND IR_PROTOCOL_MASK)"
    by (rule bit.conj_disj_distrib2)
  have "(fl OR v) AND IR_PROTOCOL_MASK = 0 \<or> (fl OR v) AND IR_PROTOCOL_MASK \<in> set protocols"
    using v(2) Cons.prems(2) flag_value_protocol [OF v(1)] unfolding d by auto
  then show ?case by (rule Cons.IH [OF v(3)])
qed

section \<open>Checks and repairs\<close>

lemma sanity_result:
  assumes "sanityChecks rm = Some rm'"
  shows "rname rm' \<noteq> None" "\<not> is_raw rm' \<Longrightarrow> codes rm' \<noteq> None"
  using assms by (auto simp: sanityChecks_def is_raw_def Let_def split: if_splits option.splits)

lemma sim_signal_some: "sim_signal rm nc rep lt \<noteq> None"
  using init_sim_returns [of rm nc rep "snd lt"]
  by (cases lt) (auto simp: sim_signal_def split: option.split)

lemma sim_words_some: "sim_words rm nc ws lt \<noteq> None"
proof (induction ws arbitrary: lt)
  case Nil
  then show ?case by simp
next
  case (Cons w ws)
  obtain l1 l2 where "sim_signal rm (nc\<lparr>code := w\<rparr>) False lt = Some l1"
      "sim_signal rm (nc\<lparr>code := w\<rparr>) True l1 = Some l2"
    using sim_signal_some by (metis option.exhaust)
  then show ?case using Cons by simp
qed

lemma sim_codes_some: "sim_codes rm ncs lt \<noteq> None"
proof (induction ncs arbitrary: lt)
  case Nil
  then show ?case by simp
next
  case (Cons nc ncs)
  then show ?case using sim_words_some [of rm nc "code nc # nexts nc" lt]
    by (auto simp del: sim_words.simps split: option.split)
qed

text \<open>The repairs succeed exactly for the remotes that have codes; they keep the name.\<close>

lemma calculate_signal_lengths_None: "codes rm = None \<Longrightarrow> calculate_signal_lengths rm t = None"
  by (simp add: calculate_signal_lengths_def Let_def)

lemma calculate_signal_lengths_result:
  "(\<exists>rm' t'. calculate_signal_lengths rm t = Some (rm', t') \<and> rname rm' = rname rm
      \<and> codes rm' = codes rm) \<longleftrightarrow> codes rm \<noteq> None"
proof (cases "codes rm")
  case None
  then show ?thesis by (simp add: calculate_signal_lengths_def)
next
  case (Some cs)
  let ?rm = "if is_const rm then rm\<lparr>min_total_signal_length := min_gap rm, max_total_signal_length := max_gap rm\<rparr>
    else rm\<lparr>min_gap_length := min_gap rm, max_gap_length := max_gap rm\<rparr>"
  obtain l t' where "sim_codes ?rm cs (\<lparr>sl_first = True, sl_min = 0, sl_max = 0, sl_max_pulse = 0,
      sl_max_space = 0\<rparr>, t) = Some (l, t')"
    using sim_codes_some [of ?rm cs] by (metis option.exhaust prod.exhaust)
  then have "calculate_signal_lengths rm t = Some (store_lengths ?rm l, t')"
    using Some by (cases "is_const rm") (simp_all add: calculate_signal_lengths_def Let_def)
  moreover have "rname (store_lengths ?rm l) = rname rm" "codes (store_lengths ?rm l) = codes rm"
    by (simp_all add: store_lengths_def)
  ultimately show ?thesis using Some by simp
qed

lemma kick_reverse_frame:
  "kick_reverse rm = Some rm' \<Longrightarrow> rname rm' = rname rm \<and> (codes rm' = None \<longleftrightarrow> codes rm = None)"
  by (auto simp: kick_reverse_def Let_def split: if_splits option.splits)

lemma kick_reverse_some: "codes rm \<noteq> None \<Longrightarrow> kick_reverse rm \<noteq> None"
  by (cases "codes rm") (simp_all add: kick_reverse_def Let_def)

lemma fix_frame:
  "rname (fix_min_code_repeat (fix_serial (fix_toggle_bit rm))) = rname rm"
  "codes (fix_min_code_repeat (fix_serial (fix_toggle_bit rm))) = codes rm"
proof -
  have "rname (fix_toggle_bit rm) = rname rm \<and> codes (fix_toggle_bit rm) = codes rm" for rm
    by (auto simp: fix_toggle_bit_def Let_def split: option.split list.split)
  moreover have "rname (fix_serial rm) = rname rm \<and> codes (fix_serial rm) = codes rm" for rm
    by (auto simp: fix_serial_def Let_def)
  ultimately show "rname (fix_min_code_repeat (fix_serial (fix_toggle_bit rm))) = rname rm"
    "codes (fix_min_code_repeat (fix_serial (fix_toggle_bit rm))) = codes rm"
    by (simp_all add: fix_min_code_repeat_def)
qed

lemma fixup_remote_result:
  "codes rm \<noteq> None \<Longrightarrow> fixup_remote rm t \<noteq> None"
  "fixup_remote rm t = Some (rm', t') \<Longrightarrow> rname rm' = rname rm \<and> codes rm' \<noteq> None"
proof -
  show "fixup_remote rm t \<noteq> None" if ne: "codes rm \<noteq> None"
  proof -
    obtain rm1 where "kick_reverse rm = Some rm1" "codes rm1 \<noteq> None"
      using kick_reverse_some [OF ne] kick_reverse_frame [of rm] ne by auto
    then show ?thesis
      using calculate_signal_lengths_result [of "fix_min_code_repeat (fix_serial (fix_toggle_bit rm1))" t]
      by (auto simp: fixup_remote_def fix_frame)
  qed
  show "rname rm' = rname rm \<and> codes rm' \<noteq> None" if f: "fixup_remote rm t = Some (rm', t')"
  proof -
    obtain rm1 where k: "kick_reverse rm = Some rm1"
      using f by (auto simp: fixup_remote_def split: option.splits)
    let ?r = "fix_min_code_repeat (fix_serial (fix_toggle_bit rm1))"
    have c: "calculate_signal_lengths ?r t = Some (rm', t')" using f k by (simp add: fixup_remote_def)
    then have "codes ?r \<noteq> None" using calculate_signal_lengths_None [of ?r t] by auto
    then obtain a b where "calculate_signal_lengths ?r t = Some (a, b)" "rname a = rname ?r" "codes a = codes ?r"
      using calculate_signal_lengths_result [of ?r t] by blast
    then show ?thesis using c k \<open>codes ?r \<noteq> None\<close> kick_reverse_frame [OF k] by (simp add: fix_frame)
  qed
qed

lemma fixup_remotes_result:
  "fixup_remotes rs t = Some (rs', t') \<Longrightarrow>
    list_all2 (\<lambda>r r'. rname r' = rname r \<and> codes r' \<noteq> None) rs rs'"
  by (induction rs arbitrary: t rs' t')
    (auto split: option.splits dest: fixup_remote_result(2))

lemma fixup_remotes_some: "\<forall>r \<in> set rs. codes r \<noteq> None \<Longrightarrow> fixup_remotes rs t \<noteq> None"
proof (induction rs arbitrary: t)
  case Nil
  then show ?case by simp
next
  case (Cons r rs)
  obtain r' t1 where "fixup_remote r t = Some (r', t1)"
    using fixup_remote_result(1) [of r t] Cons.prems by auto
  moreover obtain rs' t2 where "fixup_remotes rs t1 = Some (rs', t2)"
    using Cons.IH [of t1] Cons.prems by auto
  ultimately show ?case by simp
qed

section \<open>The state machine of the reader\<close>

text \<open>Outside a remote every remote of the list is finished; inside one, all but the open one
  are, and the pointer to it is valid.\<close>

definition named :: "ir_remote \<Rightarrow> bool" where
  "named rm \<longleftrightarrow> rname rm \<noteq> None"

definition reader_ok :: "reader \<Rightarrow> bool" where
  "reader_ok r \<longleftrightarrow>
     (case rd_rem r of
        RNone \<Rightarrow> rd_mode r = ID_none \<and> list_all named (rd_top r)
      | RIn i \<Rightarrow> i < length (rd_top r)
          \<and> (\<forall>j < length (rd_top r). (j = i \<and> rd_mode r \<noteq> ID_none) \<or> named (rd_top r ! j))
      | RLost x \<Rightarrow> list_all named (rd_top r))"

lemma reader_ok_start: "reader_ok reader_start"
  by (simp add: reader_ok_def reader_start_def)

text \<open>Changing the open remote, or fields other than the list and the pointer.\<close>

lemma reader_ok_mode: "reader_ok r \<Longrightarrow> rd_mode r \<noteq> ID_none \<Longrightarrow> m \<noteq> ID_none \<Longrightarrow> reader_ok (r\<lparr>rd_mode := m\<rparr>)"
  by (auto simp: reader_ok_def split: rem_ref.splits)

lemma reader_ok_frame [simp]:
  "reader_ok (r\<lparr>rd_codes_list := a\<rparr>) = reader_ok r" "reader_ok (r\<lparr>rd_raw_codes := b\<rparr>) = reader_ok r"
  "reader_ok (r\<lparr>rd_signals := c\<rparr>) = reader_ok r" "reader_ok (r\<lparr>rd_raw_code := e\<rparr>) = reader_ok r"
  by (simp_all add: reader_ok_def split: rem_ref.split)

lemma reader_ok_put: "reader_ok r \<Longrightarrow> rd_mode r \<noteq> ID_none \<Longrightarrow> reader_ok (put_rem rm r)"
  by (auto simp: reader_ok_def put_rem_def nth_list_update split: rem_ref.splits)

lemma put_rem_mode [simp]: "rd_mode (put_rem rm r) = rd_mode r"
  by (simp add: put_rem_def split: rem_ref.split)

lemma checkMode_Some [simp]: "checkMode a b r = Some r' \<longleftrightarrow> a = b \<and> r' = r"
  by (auto simp: checkMode_def)

lemma ok_begin_codes: "reader_ok r \<Longrightarrow> begin_codes r = Some r' \<Longrightarrow> reader_ok r'"
  by (auto simp: begin_codes_def reader_ok_mode split: option.splits if_splits)

lemma ok_begin_raw_codes: "reader_ok r \<Longrightarrow> begin_raw_codes r = Some r' \<Longrightarrow> reader_ok r'"
  by (auto simp: begin_raw_codes_def Let_def reader_ok_mode reader_ok_put split: option.splits if_splits)

lemma ok_begin_remote: "reader_ok r \<Longrightarrow> begin_remote r = Some r' \<Longrightarrow> reader_ok r'"
  by (auto simp: begin_remote_def reader_ok_def nth_append list_all_length less_Suc_eq
      split: option.splits rem_ref.splits)

lemma ok_end_codes: "reader_ok r \<Longrightarrow> end_codes r = Some r' \<Longrightarrow> reader_ok r'"
  by (auto simp: end_codes_def reader_ok_mode reader_ok_put split: option.splits)

lemma ok_finish_raw: "reader_ok r \<Longrightarrow> finish_raw_code r = Some r' \<Longrightarrow> reader_ok r' \<and> rd_mode r' = rd_mode r"
  by (auto simp: finish_raw_code_def Let_def split: if_splits)

lemma ok_end_raw_codes: "reader_ok r \<Longrightarrow> end_raw_codes r = Some r' \<Longrightarrow> reader_ok r'"
proof -
  assume ok: "reader_ok r" and e: "end_raw_codes r = Some r'"
  obtain r1 where r1: "(if rd_mode r = ID_raw_name
      then map_option (\<lambda>r. r\<lparr>rd_mode := ID_raw_codes\<rparr>) (finish_raw_code r) else Some r) = Some r1"
    and m: "rd_mode r1 = ID_raw_codes"
    and r': "r' = (put_rem ((cur_rem r1)\<lparr>codes := Some (rd_raw_codes r1)\<rparr>) r1)\<lparr>rd_mode := ID_remote\<rparr>"
    using e by (auto simp only: end_raw_codes_def checkMode_Some split: option.splits)
  have "reader_ok r1"
  proof (cases "rd_mode r = ID_raw_name")
    case True
    then obtain r2 where "finish_raw_code r = Some r2" "r1 = r2\<lparr>rd_mode := ID_raw_codes\<rparr>" using r1 by auto
    then show ?thesis using ok_finish_raw [OF ok] True by (auto intro: reader_ok_mode)
  next
    case False
    then show ?thesis using r1 ok by simp
  qed
  then show ?thesis using m by (simp add: r' reader_ok_mode reader_ok_put)
qed

lemma ok_end_remote: "reader_ok r \<Longrightarrow> end_remote dyn r = Some r' \<Longrightarrow> reader_ok r'"
proof -
  assume ok: "reader_ok r" and e: "end_remote dyn r = Some r'"
  obtain rm where m: "rd_mode r = ID_remote" "sanityChecks (cur_rem r) = Some rm"
    and r': "r' = (cut_list (put_rem ((name_dyncodes dyn rm)\<lparr>last_code := None\<rparr>) r))\<lparr>rd_mode := ID_none\<rparr>"
    using e by (auto simp: end_remote_def split: option.splits)
  have "named ((name_dyncodes dyn rm)\<lparr>last_code := None\<rparr>)"
    using sanity_result(1) [OF m(2)] by (simp add: named_def name_dyncodes_def Let_def)
  then show ?thesis using ok m(1) unfolding r'
    by (cases "rd_rem r")
      (auto simp: reader_ok_def put_rem_def cut_list_def nth_list_update,
       metis less_Suc_eq order_less_trans)
qed

text \<open>Any line, or the return from an include with any remotes that have names, is a step of the machine: more
  than a particular file can do. An include that lost the list (\<open>in_dropped\<close>) starts it anew; otherwise remotes are appended.\<close>

inductive reader_step :: "bool \<Rightarrow> reader \<Rightarrow> reader \<Rightarrow> bool" for dyn where
  line: "read_line dyn ln r = LStep (Some r') \<Longrightarrow> reader_step dyn r r'"
| incl: "\<not> in_dropped c \<Longrightarrow> in_top c = rd_top r @ rs \<Longrightarrow> list_all named rs \<Longrightarrow>
    reader_step dyn r (after_include c r)"
| drop: "in_dropped c \<Longrightarrow> list_all named (in_top c) \<Longrightarrow> reader_step dyn r (after_include c r)"

inductive_cases reader_stepE: "reader_step dyn r r'"

lemma ok_code_line: "reader_ok r \<Longrightarrow> code_line key val rest r = Some r' \<Longrightarrow> reader_ok r'"
  by (auto simp: code_line_def)

lemma ok_raw_line:
  "reader_ok r \<Longrightarrow> rd_mode r \<noteq> ID_none \<Longrightarrow> raw_line key val rest r = Some r' \<Longrightarrow> reader_ok r'"
  by (auto simp: raw_line_def split: if_splits option.splits dest: ok_finish_raw intro!: reader_ok_mode)

lemma ok_other_line: "reader_ok r \<Longrightarrow> other_line dyn key val rest r = Some r' \<Longrightarrow> reader_ok r'"
  by (cases "rd_mode r") (auto simp: other_line_def dest: ok_code_line ok_raw_line intro!: reader_ok_put)

lemmas ok_sections = ok_begin_codes ok_begin_raw_codes ok_begin_remote ok_end_codes ok_end_raw_codes
  ok_end_remote ok_code_line ok_other_line

lemma ok_read_line: "reader_ok r \<Longrightarrow> read_line dyn ln r = LStep (Some r') \<Longrightarrow> reader_ok r'"
  by (auto simp: read_line_def begin_line_def end_line_def Let_def
      split: if_splits list.splits dest: ok_sections)

lemma ok_after_include:
  assumes "reader_ok r"
  shows "\<not> in_dropped c \<Longrightarrow> in_top c = rd_top r @ rs \<Longrightarrow> list_all named rs \<Longrightarrow> reader_ok (after_include c r)"
    and "in_dropped c \<Longrightarrow> list_all named (in_top c) \<Longrightarrow> reader_ok (after_include c r)"
  using assms
  by (auto simp: after_include_def reader_ok_def nth_append list_all_length split: rem_ref.splits)

lemma reader_step_ok: "reader_step dyn r r' \<Longrightarrow> reader_ok r \<Longrightarrow> reader_ok r'"
  by (erule reader_stepE) (auto intro: ok_read_line ok_after_include)

section \<open>Whole files\<close>

text \<open>What holds of the remotes a file of any depth gives.\<close>

definition good_file :: "file_result \<Rightarrow> bool" where
  "good_file res \<longleftrightarrow> (case res of Some (Inr rs, t) \<Rightarrow> list_all (\<lambda>r. named r \<and> codes r \<noteq> None) rs | _ \<Rightarrow> True)"

text \<open>The state of the includes: remotes appended to the list, or the list lost.\<close>

definition incl_ok :: "ir_remote list \<Rightarrow> incl \<Rightarrow> bool" where
  "incl_ok tops c \<longleftrightarrow> (if in_dropped c then list_all named (in_top c)
     else \<exists>rs. in_top c = tops @ rs \<and> list_all named rs)"

definition good_sub :: "(string \<Rightarrow> string \<Rightarrow> sbuf \<Rightarrow> file_result) option \<Rightarrow> bool" where
  "good_sub sub \<longleftrightarrow> (case sub of None \<Rightarrow> True | Some rd \<Rightarrow> \<forall>n c t. good_file (rd n c t))"

lemma ok_read_included:
  assumes "good_sub sub" "incl_ok tops c" "read_included fs sub val (c, t) = Some (c', t')"
  shows "incl_ok tops c'"
proof (cases "\<exists>rd child cont rs t1. sub = Some rd \<and> rd child cont t = Some (Inr rs, t1)
    \<and> c' = c\<lparr>in_top := in_top c @ rs, in_error := False\<rparr>")
  case True
  then obtain rd child cont rs t1 where "sub = Some rd" "rd child cont t = Some (Inr rs, t1)"
    and c': "c' = c\<lparr>in_top := in_top c @ rs, in_error := False\<rparr>" by blast
  moreover have "good_file (rd child cont t)"
    using assms(1) \<open>sub = Some rd\<close> by (simp add: good_sub_def)
  ultimately have "good_file (Some (Inr rs, t1))" by simp
  then have "list_all named rs" by (auto simp: good_file_def list_all_iff)
  then show ?thesis using assms(2) by (auto simp: c' incl_ok_def)
next
  case False
  then have "c' = c \<or> c' = c\<lparr>in_top := [], in_dropped := True\<rparr> \<or> c' = c\<lparr>in_error := True\<rparr>"
    using assms(3) by (auto simp: read_included_def split: option.splits prod.splits sum.splits)
  then show ?thesis using assms(2) by (auto simp: incl_ok_def)
qed

lemma ok_read_paths:
  "good_sub sub \<Longrightarrow> incl_ok tops c \<Longrightarrow> read_paths fs sub ps (c, t) = Some (c', t') \<Longrightarrow> incl_ok tops c'"
proof (induction ps arbitrary: c t)
  case Nil
  then show ?case by simp
next
  case (Cons p ps)
  obtain c1 t1 where 1: "read_included fs sub (take 255 (''\"'' @ p @ ''\"'')) (c, t) = Some (c1, t1)"
      "read_paths fs sub ps (c1, t1) = Some (c', t')"
    using Cons.prems(3) by (auto split: option.splits)
  then show ?case using Cons.IH [OF Cons.prems(1) ok_read_included [OF Cons.prems(1,2) 1(1)]] by blast
qed

lemma ok_read_all_included:
  assumes "good_sub sub" "read_all_included fs globf sub name val tops t = Some (c, t')"
  shows "incl_ok tops c"
proof -
  have "incl_ok tops \<lparr>in_top = tops, in_dropped = False, in_error = False\<rparr>" by (simp add: incl_ok_def)
  then show ?thesis using assms(2) unfolding read_all_included_def by (rule ok_read_paths [OF assms(1)])
qed

lemma ok_read_lines:
  assumes "good_sub sub"
  shows "reader_ok r \<Longrightarrow> read_lines fs globf sub dyn name ls r t = Some (Inr r', t') \<Longrightarrow> reader_ok r'"
proof (induction ls arbitrary: r t)
  case Nil
  then show ?case by simp
next
  case (Cons l ls)
  show ?case
  proof (cases "read_line dyn l r")
    case (LInclude val)
    obtain c t1 where c: "read_all_included fs globf sub name val (rd_top r) t = Some (c, t1)"
      using Cons.prems(2) LInclude by (auto split: if_splits option.splits)
    have ok: "incl_ok (rd_top r) c" by (rule ok_read_all_included [OF assms c])
    have "reader_ok (after_include c r)"
      using ok ok_after_include [OF Cons.prems(1)] by (auto simp: incl_ok_def split: if_splits)
    moreover have "read_lines fs globf sub dyn name ls (after_include c r) t1 = Some (Inr r', t')"
      using Cons.prems(2) LInclude c by (auto split: if_splits)
    ultimately show ?thesis by (rule Cons.IH)
  next
    case (LStep q)
    then obtain r1 where q: "q = Some r1" "read_lines fs globf sub dyn name ls r1 t = Some (Inr r', t')"
      using Cons.prems(2) by (auto split: if_splits option.splits)
    then show ?thesis using Cons.IH ok_read_line [OF Cons.prems(1)] LStep by blast
  qed
qed

lemma good_finish:
  assumes "good_sub sub"
  shows "good_file (finish_file (read_lines fs globf sub dyn name ls reader_start t))"
proof (cases "read_lines fs globf sub dyn name ls reader_start t")
  case None
  then show ?thesis by (simp add: finish_file_def good_file_def)
next
  case (Some p)
  obtain q t1 where p: "p = (q, t1)" by force
  show ?thesis
  proof (cases q)
    case (Inl u)
    with Some p show ?thesis by (simp add: finish_file_def good_file_def)
  next
    case (Inr r)
    have ok: "reader_ok r" using ok_read_lines [OF assms reader_ok_start] Some p Inr by blast
    show ?thesis
    proof (cases "rd_mode r \<noteq> ID_none \<or> fixup_remotes (rd_top r) t1 = None")
      case True
      with Some p Inr show ?thesis by (auto simp: finish_file_def good_file_def)
    next
      case False
      then obtain rs t2 where f: "fixup_remotes (rd_top r) t1 = Some (rs, t2)" by force
      have "list_all named (rd_top r)"
        using ok False by (auto simp: reader_ok_def list_all_length split: rem_ref.splits)
      then have "list_all (\<lambda>r. named r \<and> codes r \<noteq> None) rs"
        using fixup_remotes_result [OF f]
        by (auto simp: list_all_length list_all2_conv_all_nth named_def)
      with Some p Inr False f show ?thesis by (simp add: finish_file_def good_file_def)
    qed
  qed
qed

lemma good_read: "good_file (read_config_recursive fs globf dyn k name contents t)"
proof (induction k arbitrary: name contents t)
  case 0
  show ?case by (simp add: good_finish good_sub_def)
next
  case (Suc k)
  then show ?case by (simp add: good_finish good_sub_def)
qed

lemma sort_set:
  "sort_by_bit_count (Inr rs) = rs' \<Longrightarrow> mset rs' = mset rs
    \<and> (list_all (\<lambda>r. manual_sort r = 0) rs \<longrightarrow> sorted_wrt (\<lambda>a b. remote_bits_cmp a b \<le> 0) rs')
    \<and> (\<not> list_all (\<lambda>r. manual_sort r = 0) rs \<longrightarrow> rs' = rs)"
  by (auto simp: sort_by_bit_count_def by_bits.fold_mset list_ex_iff list_all_iff
      intro!: by_bits.fold_sorted)

end
