(* ===== verification/Code_Facts.thy ===== *)
theory Code_Facts
  imports Remote_Facts Config_Facts
begin

text \<open>
  Facts about codes that cross the configuration reader and the decoder: the code a client
  reads is the code the configuration file has, also for remotes whose data is reversed; the
  repeat counter; the search for the longest match; elapsed time and tolerance.
\<close>

section \<open>Reversed data\<close>

lemma fits_reverse:
  assumes "n \<le> 64"
  shows "reverse x n AND gen_mask n = reverse x n"
  by (rule bit_word_eqI) (use assms in \<open>auto simp: bit_and_iff bit_reverse\<close>)

lemma bit_joined:
  fixes a c q :: ir_code
  assumes "c AND gen_mask (int b) = c" "q AND gen_mask (int p) = q" "k < 64"
  shows "bit (shl (shl a (int b) OR c) (int p) OR q) k \<longleftrightarrow>
    (if k < p then bit q k else if k < p + b then bit c (k - p) else bit a (k - p - b))"
proof -
  have "bit c j \<Longrightarrow> j < b" "bit q j \<Longrightarrow> j < p" for j
    using assms(1,2) bit_and_iff [of c "gen_mask (int b)" j] bit_and_iff [of q "gen_mask (int p)" j] by auto
  then have "\<not> k < p + b \<Longrightarrow> \<not> bit c (k - p)" "\<not> k < p \<Longrightarrow> \<not> bit q k" by force+
  then show ?thesis using assms(3) by (auto simp: bit_or_iff bit_shl)
qed

lemma reverse_joined:
  assumes "a + b + p \<le> 64" "x AND gen_mask (int a) = x" "y AND gen_mask (int b) = y" "z AND gen_mask (int p) = z"
  shows "reverse (shl (shl (reverse x (int a)) (int b) OR reverse y (int b)) (int p) OR reverse z (int p))
      (int (a + b + p)) = shl (shl z (int b) OR y) (int a) OR x"
proof (rule bit_word_eqI)
  fix k assume "k < LENGTH(64)"
  then have k: "k < 64" by simp
  let ?j = "shl (shl (reverse x (int a)) (int b) OR reverse y (int b)) (int p) OR reverse z (int p)"
  have n: "nat (int (a + b + p)) = a + b + p" by (rule nat_int)
  have out: "bit z j \<Longrightarrow> j < p" for j
    using assms(4) bit_and_iff [of z "gen_mask (int p)" j] by auto
  have "bit (reverse ?j (int (a + b + p))) k \<longleftrightarrow> k < a + b + p \<and> bit ?j (a + b + p - 1 - k)"
    using assms(1) by (simp add: bit_reverse del: of_nat_add) 
  also have "\<dots> \<longleftrightarrow> bit (shl (shl z (int b) OR y) (int a) OR x) k"
  proof (cases "k < a + b + p")
    case False
    then have "\<not> bit z (k - a - b)" using out [of "k - a - b"] by linarith
    with False k show ?thesis
      by (subst bit_joined [OF assms(3,2) k]) simp
  next
    case True
    let ?m = "a + b + p - 1 - k"
    have m: "?m < 64" using assms(1) True by linarith
    have le: "int b \<le> 64" "int p \<le> 64" "int a \<le> 64" using assms(1) by simp_all
    have 1: "bit ?j ?m \<longleftrightarrow> (if ?m < p then bit (reverse z (int p)) ?m
        else if ?m < p + b then bit (reverse y (int b)) (?m - p) else bit (reverse x (int a)) (?m - p - b))"
      by (rule bit_joined [OF fits_reverse [OF le(1)] fits_reverse [OF le(2)] m])
    have 2: "bit (shl (shl z (int b) OR y) (int a) OR x) k \<longleftrightarrow>
        (if k < a then bit x k else if k < a + b then bit y (k - a) else bit z (k - a - b))"
      by (rule bit_joined [OF assms(3,2) k])
    consider "k < a" | "\<not> k < a" "k < a + b" | "\<not> k < a + b" by blast
    then show ?thesis
    proof cases
      case 1
      then have "\<not> ?m < p + b" "?m - p - b < a" "a - 1 - (?m - p - b) = k" using True by linarith+
      with 1 show ?thesis using True \<open>bit ?j ?m \<longleftrightarrow> _\<close> 2 by (simp add: bit_reverse [OF le(3)])
    next
      case 2
      then have "\<not> ?m < p" "?m < p + b" "?m - p < b" "b - 1 - (?m - p) = k - a" using True by linarith+
      with 2 show ?thesis
        using True \<open>bit ?j ?m \<longleftrightarrow> _\<close> \<open>bit (shl (shl z (int b) OR y) (int a) OR x) k \<longleftrightarrow> _\<close>
        by (simp add: bit_reverse [OF le(1)])
    next
      case 3
      then have "?m < p" "p - 1 - ?m = k - a - b" "\<not> k < a" using True by linarith+
      with 3 show ?thesis using True \<open>bit ?j ?m \<longleftrightarrow> _\<close> 2 by (simp add: bit_reverse [OF le(2)])
    qed
  qed
  finally show "bit (reverse ?j (int (a + b + p))) k \<longleftrightarrow> bit (shl (shl z (int b) OR y) (int a) OR x) k" .
qed

lemma compat_flag: "((f AND NOT REVERSE) OR COMPAT_REVERSE) AND COMPAT_REVERSE \<noteq> 0"
  by (simp add: bit.conj_disj_distrib2 or_eq_0_iff)

text \<open>The three parts of a remote's code as the configuration file has them.\<close>

definition configured_pre :: "ir_remote \<Rightarrow> ir_code" where
  "configured_pre rm = (if has_pre rm then pre_data rm else 0)"

definition configured_post :: "ir_remote \<Rightarrow> ir_code" where
  "configured_post rm = (if has_post rm then post_data rm else 0)"

definition sane_bits :: "ir_remote \<Rightarrow> bool" where
  "sane_bits rm \<longleftrightarrow> 0 \<le> pre_data_bits rm \<and> 0 \<le> bits rm \<and> 0 \<le> post_data_bits rm
     \<and> pre_data_bits rm + bits rm + post_data_bits rm \<le> 64
     \<and> pre_data rm AND gen_mask (pre_data_bits rm) = pre_data rm
     \<and> post_data rm AND gen_mask (post_data_bits rm) = post_data rm"

lemma full_code_parts:
  "full_code rm (NCode i) =
    (let c = shl (configured_pre rm) (bits rm) OR code (deref rm (NCode i));
         c = (if has_post rm then shl c (post_data_bits rm) OR post_data rm else c)
     in if flags rm AND COMPAT_REVERSE \<noteq> 0 then reverse c (bit_count rm) else c)"
  by (simp add: full_code_def configured_pre_def shl_def Let_def)

lemma reverse_0 [simp]: "reverse x 0 = 0"
  by (simp add: reverse_def)

definition reversed_remote :: "ir_remote \<Rightarrow> ir_ncode list \<Rightarrow> ir_remote" where
  "reversed_remote rm cs = rm\<lparr>
     pre_data := (if has_pre rm then reverse (pre_data rm) (pre_data_bits rm) else pre_data rm),
     post_data := (if has_post rm then reverse (post_data rm) (post_data_bits rm) else post_data rm),
     codes := Some (map (\<lambda>nc. nc\<lparr>code := reverse (code nc) (bits rm)\<rparr>) cs),
     flags := (flags rm AND NOT REVERSE) OR COMPAT_REVERSE\<rparr>"

lemma kick_reverse_eq:
  assumes "\<not> is_raw rm" "flags rm AND REVERSE \<noteq> 0" "codes rm = Some cs"
  shows "kick_reverse rm = Some (reversed_remote rm cs)"
  using assms
  by (cases "has_pre rm"; cases "has_post rm") (simp_all add: kick_reverse_def reversed_remote_def has_post_def Let_def)

lemma reversed_full_code:
  assumes r: "\<not> is_raw rm" "flags rm AND REVERSE \<noteq> 0" "codes rm = Some cs" "i < length cs" "sane_bits rm"
    and c: "code (cs ! i) AND gen_mask (bits rm) = code (cs ! i)"
  shows "\<exists>rm'. kick_reverse rm = Some rm' \<and> full_code rm' (NCode i)
    = shl (shl (configured_post rm) (bits rm) OR code (cs ! i)) (pre_data_bits rm) OR configured_pre rm"
proof -
  obtain a b p where n: "pre_data_bits rm = int a" "bits rm = int b" "post_data_bits rm = int p"
    and le: "a + b + p \<le> 64"
  proof
    show "pre_data_bits rm = int (nat (pre_data_bits rm))" "bits rm = int (nat (bits rm))"
      "post_data_bits rm = int (nat (post_data_bits rm))"
      "nat (pre_data_bits rm) + nat (bits rm) + nat (post_data_bits rm) \<le> 64"
      using r(5) by (auto simp: sane_bits_def)
  qed
  let ?x = "configured_pre rm" and ?z = "configured_post rm" and ?y = "code (cs ! i)"
  have m: "?x AND gen_mask (int a) = ?x" "?z AND gen_mask (int p) = ?z"
    using r(5) n by (simp_all add: sane_bits_def configured_pre_def configured_post_def)
  define rm' where "rm' = reversed_remote rm cs"
  have k: "kick_reverse rm = Some rm'" using kick_reverse_eq r(1-3) by (simp add: rm'_def)
  have f: "pre_data_bits rm' = int a" "bits rm' = int b" "post_data_bits rm' = int p"
    "codes rm' = Some (map (\<lambda>nc. nc\<lparr>code := reverse (code nc) (int b)\<rparr>) cs)"
    "flags rm' = (flags rm AND NOT REVERSE) OR COMPAT_REVERSE"
    "pre_data rm' = (if has_pre rm then reverse (pre_data rm) (int a) else pre_data rm)"
    "post_data rm' = (if has_post rm then reverse (post_data rm) (int p) else post_data rm)"
    using n by (simp_all add: rm'_def reversed_remote_def)
  have hp: "has_pre rm' = has_pre rm" "has_post rm' = has_post rm" using f n by (simp_all add: has_pre_def has_post_def)
  have bc: "bit_count rm' = int (a + b + p)" using le f by (simp add: bit_count_def i32_id)
  have cp: "configured_pre rm' = reverse ?x (int a)"
    using f(6) hp n by (auto simp: configured_pre_def has_pre_def)
  have "(if has_post rm' then shl c (post_data_bits rm') OR post_data rm' else c) = shl c (int p) OR reverse ?z (int p)" for c
    using f(3,7) hp n by (auto simp: configured_post_def has_post_def shl_def)
  then have "full_code rm' (NCode i) =
      reverse (shl (shl (reverse ?x (int a)) (int b) OR reverse ?y (int b)) (int p) OR reverse ?z (int p)) (int (a + b + p))"
    using r(4) f(1-5) cp bc compat_flag [of "flags rm"]
    by (simp only: full_code_parts Let_def) (simp add: deref_def)
  also have "\<dots> = shl (shl ?z (int b) OR ?y) (int a) OR ?x"
    using reverse_joined [OF le m(1) _ m(2)] c n(2) by simp
  finally show ?thesis using k n by simp
qed

section \<open>Counting repetitions\<close>

lemma set_code_counts:
  assumes "plain_buttons rm" "codes rm = Some cs" "i < length cs"
    and s: "set_code same rm (NCode i) tbs ctx now = (cd, ctx', rm')"
  shows "reps rm' = (if \<not> release_detected rm \<and> is_repetition rm same (NCode i) tbs (ctx_repeat_flag ctx) now
      then i32 (reps rm + 1) else 0)
    \<and> last_code rm' = Some (NCode i) \<and> last_send rm' = now \<and> \<not> release_detected rm'"
proof -
  have pl: "nexts (cs ! i) = []" "current (cs ! i) = None" "\<not> has_toggle_mask rm"
    using assms(1-3) by (auto simp: plain_buttons_def list_all_iff)
  show ?thesis
    using s pl assms(2,3)
    by (cases "release_detected rm")
      (auto simp: set_code_def is_repetition_def count_repetition_def start_press_def deref_def
        has_toggle_mask_def has_toggle_bit_mask_def Let_def split: if_splits)
qed

section \<open>The search for the longest match\<close>

lemma flm_search_no_flag: "flm_search rm nc a False i c = None"
proof (induction "Suc c - i" arbitrary: i rule: less_induct)
  case less
  then show ?case
    by (subst flm_search.simps) (auto split: prod.split)
qed

lemma flm_search_stuck:
  "i \<le> c \<Longrightarrow> \<not> fst (flm_compare nc None i c) \<Longrightarrow> flm_search rm nc a flag i c = None"
  by (subst flm_search.simps) (auto simp: flm_search_no_flag split: prod.split)

section \<open>Time\<close>

lemma time_left_range:
  assumes "0 \<le> g" "g < 2147483648"
  shows "0 \<le> time_left cur lst g \<and> time_left cur lst g \<le> g"
proof -
  have "0 \<le> time_elapsed lst cur" using u64_range by (simp add: time_elapsed_def Let_def)
  moreover have "u64 g = g" using assms by (simp add: u64_id)
  ultimately show ?thesis using assms by (auto simp: time_left_def Let_def i32_id)
qed

section \<open>Reading a message\<close>

lemma tokens_word:
  "list_all (\<lambda>c. \<not> delim c) w \<Longrightarrow> delim d \<Longrightarrow> cur \<noteq> [] \<or> w \<noteq> [] \<Longrightarrow>
    tokens_acc delim cur (w @ d # rest) = (rev cur @ w) # tokens_acc delim [] rest"
  by (induction w arbitrary: cur) auto

lemma tokens_last: "list_all (\<lambda>c. \<not> delim c) w \<Longrightarrow> tokens_acc delim cur w = (if cur = [] \<and> w = [] then [] else [rev cur @ w])"
  by (induction w arbitrary: cur) auto

definition no_blank :: "string \<Rightarrow> bool" where
  "no_blank w \<longleftrightarrow> w \<noteq> [] \<and> list_all (\<lambda>c. c \<noteq> CHR '' '') w"

lemma list_all_replicate: "P x \<Longrightarrow> list_all P (replicate k x)"
  by (induction k) simp_all

lemma fmt_hex_all: "P (CHR ''0'') \<Longrightarrow> list_all P (to_hex n) \<Longrightarrow> list_all P (fmt_hex w n)"
  unfolding fmt_hex_def list_all_append by (simp only: list_all_replicate)

lemma hex_no_blank: "no_blank (fmt_hex w n)"
proof -
  have "\<not> is_digit_of 16 (CHR '' '')" by (simp add: is_digit_of_def digit_val_def)
  then have "is_digit_of 16 c \<longrightarrow> c \<noteq> CHR '' ''" for c by auto
  then have "list_all (\<lambda>c. c \<noteq> CHR '' '') (to_hex n)" using to_hex_digits [of n] by (simp add: list_all_iff)
  then have "list_all (\<lambda>c. c \<noteq> CHR '' '') (fmt_hex w n)" by (intro fmt_hex_all) simp_all
  moreover have "to_hex n \<noteq> []" by (subst to_hex.simps) simp
  ultimately show ?thesis by (simp add: no_blank_def fmt_hex_def)
qed

lemma hex_reads: "strtoul (''0x'' @ fmt_hex w n) = (if n < 2 ^ 64 then (int n, [], False) else (2 ^ 64 - 1, [], True))"
proof -
  have "is_digit_of 16 (CHR ''0'')" by (simp add: is_digit_of_def digit_val_def)
  then have "list_all (is_digit_of 16) (fmt_hex w n)"
    using to_hex_digits [of n] by (rule fmt_hex_all)
  moreover have "fmt_hex w n \<noteq> []" using hex_no_blank by (simp add: no_blank_def)
  ultimately obtain h r where h: "fmt_hex w n = h # r" "is_digit_of 16 h" by (cases "fmt_hex w n") auto
  have "read_magnitude (''0x'' @ fmt_hex w n) = Some (read_digits 16 0 (fmt_hex w n))"
    by (simp add: read_magnitude_def h)
  then have "read_magnitude (''0x'' @ fmt_hex w n) = Some (n, [])" by (simp only: read_fmt_hex)
  then have "read_integer (''0x'' @ fmt_hex w n) = Some (False, n, [])"
    by (simp add: read_integer_def isspace_def)
  then show ?thesis by (simp add: strtoul_def u64_id)
qed

end
