(* ===== verification/Remote_Props.thy ===== *)
theory Remote_Props
  imports Press Code_Facts Sample
begin

text \<open>
  The properties of \<open>lib/ir_remote.c\<close>, \<open>lib/ir_remote.h\<close> and \<open>lib/release.c\<close>: bit operations,
  codes, buttons, repetitions, filters and the release of a button.
\<close>

section \<open>The sample remote\<close>

lemma sample_codes: "codes sample_remote = Some [sample_button ''UP'' 5, sample_button ''DOWN'' 10]"
  "rname sample_remote = Some ''tv''" "ignore_mask sample_remote = 0"
  by (simp_all add: sample_remote_def zero_remote_def)

lemma sample_plain: "plain_remote sample_remote"
  by (simp add: plain_remote_def plain_buttons_def sample_codes sample_button_plain)
    (simp add: sample_remote_def zero_remote_def c_defs)

lemma sample_bits: "pre_data_bits sample_remote = 4" "bits sample_remote = 4" "post_data_bits sample_remote = 0"
  "bit_count sample_remote = 8" "pre_data sample_remote = 14" "post_data sample_remote = 0"
  by (simp_all add: sample_remote_def zero_remote_def bit_count_def c_arith)

lemma sample_masks: "gen_mask 4 = 15" "gen_mask 0 = 0" "gen_mask 8 = 255"
  by (simp_all add: gen_mask_eq_mask mask_eq_exp_minus_1)

lemma shl_0 [simp]: "shl x 0 = x"
  by (simp add: shl_def)

lemma sample_code:
  assumes "b AND 15 = c AND 15"
  shows "gen_ir_code sample_remote a b 0 = gen_ir_code sample_remote a c 0"
proof -
  have "b AND gen_mask (bits sample_remote) = c AND gen_mask (bits sample_remote)"
    unfolding sample_bits sample_masks by (rule assms)
  then show ?thesis
    unfolding gen_ir_code_def Let_def by (simp only: sample_not_const if_False)
qed

section \<open>Bits and codes\<close>

text \<open>\<open>bits_set\<close> counts the bits that are set.\<close>

theorem bits_set_counts: "bits_set x = card {k. bit x k}"
  unfolding bits_set_def bits_set_loop_eq by simp

text \<open>Reversing the low bits of a code twice gives these bits back.\<close>

theorem reverse_twice:
  assumes "n \<le> 64"
  shows "reverse (reverse x n) n = x AND gen_mask n"
  by (rule reverse_reverse [OF assms])

theorem reverse_twice_witness: "reverse (reverse 0xA5 4) 4 = 5"
  using reverse_twice [of 4 "0xA5"] by (simp add: gen_mask_eq_mask mask_eq_exp_minus_1)

text \<open>The complete code of a remote without raw codes has the post data in its low bits,
  the code above it and the pre data on top, each cut to its width, and nothing else.\<close>

theorem code_layout:
  assumes "\<not> is_raw rm" "0 \<le> pre_data_bits rm" "0 \<le> bits rm" "0 \<le> post_data_bits rm"
    "pre_data_bits rm + bits rm + post_data_bits rm \<le> 64"
  shows "bit (gen_ir_code rm pre cd post) k \<longleftrightarrow>
    (let p = nat (post_data_bits rm); b = nat (bits rm); q = nat (pre_data_bits rm)
     in if k < p then bit post k
        else if k < p + b then bit cd (k - p)
        else k < p + b + q \<and> bit pre (k - p - b))"
  by (rule bit_gen_ir_code [OF assms])

theorem code_layout_witness: "bit (gen_ir_code sample_remote 14 5 0) 7 \<and> \<not> bit (gen_ir_code sample_remote 14 5 0) 4"
  using code_layout [of sample_remote 14 5 0 7] code_layout [of sample_remote 14 5 0 4]
  by (simp add: sample_bits sample_not_const bit_numeral_rec)

text \<open>A code that \<open>map_code\<close> splits along the lengths of a remote's parts is put together
  again by \<open>gen_ir_code\<close>, however the driver had divided it.\<close>

theorem split_code_joins:
  assumes "\<not> is_raw rm" "0 \<le> pre_data_bits rm" "0 \<le> bits rm" "0 \<le> post_data_bits rm"
    "pre_data_bits rm + bits rm + post_data_bits rm \<le> 64"
    and m: "map_code rm ctx n pre m cd k post = (True, ctx')"
  shows "gen_ir_code rm (ctx_pre ctx') (ctx_code ctx') (ctx_post ctx')
    = (shl (shl (pre AND gen_mask n) m OR (cd AND gen_mask m)) k OR (post AND gen_mask k))
      AND gen_mask (pre_data_bits rm + bits rm + post_data_bits rm)"
proof -
  have "i32 (n + m + k) = bit_count rm" using m by (auto simp: map_code_def split: if_splits)
  from map_code_result [OF this, of ctx pre cd post] m show ?thesis
    by (auto simp: Let_def split_and_join [OF assms(1-5)])
qed

theorem split_code_joins_witness:
  "\<exists>ctx. map_code sample_remote zero_ctx 0 0 8 0xE5 0 0 = (True, ctx)
    \<and> gen_ir_code sample_remote (ctx_pre ctx) (ctx_code ctx) (ctx_post ctx) = 0xE5"
proof -
  obtain ctx where m: "map_code sample_remote zero_ctx 0 0 8 0xE5 0 0 = (True, ctx)"
    by (simp add: map_code_def sample_bits Let_def c_arith)
  then show ?thesis
    using split_code_joins [OF _ _ _ _ _ m] sample_not_const
    by (simp add: sample_bits gen_mask_eq_mask mask_eq_exp_minus_1 shl_def)
qed

section \<open>Buttons\<close>

text \<open>For a remote whose buttons have one code each \<open>get_code\<close> finds the first button in
  the order of the configuration that matches the received code, and none when none matches; it
  does not change the remote.\<close>

theorem first_matching_button:
  assumes "plain_buttons rm" "\<not> foreign_data rm pre post" "codes rm = Some cs"
    and g: "get_code False rm pre cd post rep = (found, tbs, rm')"
  shows "rm' = rm \<and> (case found of
      None \<Rightarrow> \<forall>nc \<in> set cs. \<not> button_matches rm (gen_ir_code rm pre cd post) nc
    | Some (NCode i) \<Rightarrow> i < length cs \<and> button_matches rm (gen_ir_code rm pre cd post) (cs ! i)
        \<and> (\<forall>j < i. \<not> button_matches rm (gen_ir_code rm pre cd post) (cs ! j))
    | _ \<Rightarrow> False)"
proof (cases "find_index (button_matches rm (gen_ir_code rm pre cd post)) cs")
  case None
  then show ?thesis using get_code_plain [OF assms(1,2), of cd rep] assms(3) g None
    by (auto simp: find_index_None)
next
  case (Some i)
  then show ?thesis using get_code_plain [OF assms(1,2), of cd rep] assms(3) g Some find_index_Some [OF Some]
    by auto
qed

theorem first_matching_button_witness:
  "\<exists>tbs. get_code False sample_remote 14 10 0 False = (Some (NCode 1), tbs, sample_remote)"
proof -
  let ?all = "gen_ir_code sample_remote 14 10 0"
  obtain found tbs rm' where g: "get_code False sample_remote 14 10 0 False = (found, tbs, rm')"
    by (cases "get_code False sample_remote 14 10 0 False")
  have tb: "toggle_bit_mask sample_remote = 0" by (simp add: sample_remote_def zero_remote_def)
  have m: "button_matches sample_remote ?all (sample_button nm c) \<longleftrightarrow> c AND 15 = 10" for nm c
  proof -
    have "button_matches sample_remote ?all (sample_button nm c) \<longleftrightarrow>
        gen_ir_code sample_remote 14 c 0 = gen_ir_code sample_remote 14 10 0"
      by (simp add: button_matches_def match_ir_code_def sample_codes tb sample_bits sample_button_plain)
    also have "\<dots> \<longleftrightarrow> c AND 15 = 10"
    proof
      assume "gen_ir_code sample_remote 14 c 0 = gen_ir_code sample_remote 14 10 0"
      then have "c AND gen_mask (bits sample_remote) = 10 AND gen_mask (bits sample_remote)"
        by (rule gen_ir_code_inj [rotated -1]) (simp_all add: sample_not_const sample_bits)
      then show "c AND 15 = 10" by (simp add: sample_bits gen_mask_eq_mask mask_eq_exp_minus_1)
    next
      assume "c AND 15 = 10"
      then show "gen_ir_code sample_remote 14 c 0 = gen_ir_code sample_remote 14 10 0"
        by (intro sample_code) simp
    qed
    finally show ?thesis .
  qed
  have pl: "plain_buttons sample_remote" using sample_plain by (simp add: plain_remote_def)
  have f: "\<not> foreign_data sample_remote 14 0"
    by (simp add: foreign_data_def sample_bits has_post_def)
  have n: "\<not> button_matches sample_remote ?all (sample_button ''UP'' 5)"
    "button_matches sample_remote ?all (sample_button ''DOWN'' 10)" by (simp_all add: m)
  note first_matching_button [OF pl f sample_codes(1) g]
  then show ?thesis using g n
    by (cases found) (auto simp: nth_Cons less_Suc_eq split: ncode_ref.splits nat.splits)
qed

text \<open>C29. A button of a remote with one code per button, and without a toggle or repeat mask, that is reported
  again counts one repetition more exactly when it was the last remote and button, the repeat flag is set, the
  toggle bits are the same and less than a second has passed since, and no release was noticed;
  otherwise the count starts at 0. The press is noted as the last one.\<close>

theorem repetitions_are_counted:
  assumes "plain_buttons rm" "codes rm = Some cs" "i < length cs"
    and s: "set_code same rm (NCode i) tbs ctx now = (cd, ctx', rm')"
  shows "reps rm' = (if \<not> release_detected rm \<and> same \<and> last_code rm = Some (NCode i) \<and> ctx_repeat_flag ctx
        \<and> time_elapsed (last_send rm) now < 1000000
        \<and> (has_toggle_bit_mask rm \<longrightarrow> tbs = toggle_bit_mask_state rm)
      then i32 (reps rm + 1) else 0)
    \<and> last_code rm' = Some (NCode i) \<and> last_send rm' = now \<and> \<not> release_detected rm'"
proof -
  have "nexts (deref rm (NCode i)) = []"
    using assms(1-3) by (auto simp: plain_buttons_def list_all_iff deref_def)
  then show ?thesis using set_code_counts [OF assms] by (simp add: is_repetition_def)
qed

theorem repetitions_are_counted_witness:
  "\<exists>cd ctx' rm'. set_code True (sample_remote\<lparr>last_code := Some (NCode 1), reps := 2\<rparr>) (NCode 1) 0
      (zero_ctx\<lparr>ctx_repeat_flag := True\<rparr>) \<lparr>tv_sec = 0, tv_usec = 999999\<rparr>
    = (cd, ctx', rm') \<and> reps rm' = 3 \<and> last_code rm' = Some (NCode 1)"
proof -
  let ?rm = "sample_remote\<lparr>last_code := Some (NCode 1), reps := 2\<rparr>"
  let ?now = "\<lparr>tv_sec = 0, tv_usec = 999999\<rparr>" and ?ctx = "zero_ctx\<lparr>ctx_repeat_flag := True\<rparr>"
  obtain cd ctx' rm' where s: "set_code True ?rm (NCode 1) 0 ?ctx ?now = (cd, ctx', rm')"
    by (cases "set_code True ?rm (NCode 1) 0 ?ctx ?now")
  have p: "plain_buttons ?rm" using sample_plain by (simp add: plain_remote_def plain_buttons_def c_defs)
  have c: "codes ?rm = Some [sample_button ''UP'' 5, sample_button ''DOWN'' 10]" by (simp add: sample_codes)
  have t: "time_elapsed (last_send ?rm) ?now = 999999" "\<not> release_detected ?rm" "toggle_bit_mask_state ?rm = 0"
    "\<not> has_toggle_bit_mask ?rm"
    by (simp_all add: time_elapsed_def sample_remote_def zero_remote_def zero_timeval_def c_arith c_defs)
  show ?thesis using repetitions_are_counted [OF p c _ s] s t by (simp add: zero_ctx_def c_arith)
qed

text \<open>The longest match of a button that sends several codes is only found when the codes
  received so far repeat from the very beginning: the first comparison that fails clears a flag
  that is never set again, so the search gives up although a later start would match.\<close>

theorem mismatch_restarts_button:
  assumes "nexts nc \<noteq> []" "current nc = Some c" "\<not> fst (flm_compare nc None 0 c)"
  shows "find_longest_match rm nc all = (nc\<lparr>current := None\<rparr>, False)"
  using assms flm_search_stuck [of 0 c nc]
  by (auto simp: find_longest_match_def split: list.split option.split)

theorem mismatch_restarts_button_witness:
  "let nc = (sample_button ''UP'' 1)\<lparr>nexts := [2, 1, 3], current := Some 2\<rparr>;
       all = gen_ir_code sample_remote (pre_data sample_remote) 2 (post_data sample_remote)
   in find_longest_match sample_remote nc all = (nc\<lparr>current := None\<rparr>, False)
     \<and> flm_search sample_remote nc all True 1 2 = Some (Some 1)"
proof -
  let ?nc = "(sample_button ''UP'' 1)\<lparr>nexts := [2, 1, 3], current := Some 2\<rparr>"
  let ?all = "gen_ir_code sample_remote (pre_data sample_remote) 2 (post_data sample_remote)"
  have g: "get_ir_code ?nc None = 1" "get_ir_code ?nc (Some 0) = 2" "get_ir_code ?nc (Some 1) = 1"
    "get_next_ir_code_node ?nc None = Some 0" "get_next_ir_code_node ?nc (Some 0) = Some 1"
    by (simp_all add: get_ir_code_def get_next_ir_code_node_def first_node_def succ_node_def sample_button_plain)
  have "\<not> fst (flm_compare ?nc None 0 2)" using g by (subst flm_compare.simps) simp
  then have 1: "find_longest_match sample_remote ?nc ?all = (?nc\<lparr>current := None\<rparr>, False)"
    by (intro mismatch_restarts_button) simp_all
  have "flm_compare ?nc (Some 0) 2 2 = (True, Some 0)" by (subst flm_compare.simps) simp
  then have "flm_compare ?nc None 1 2 = (True, Some 0)" using g by (subst flm_compare.simps) (simp add: numeral_2_eq_2)
  then have "flm_search sample_remote ?nc ?all True 1 2 = Some (Some 1)"
    using g by (subst flm_search.simps) (simp add: match_ir_code_def)
  with 1 show ?thesis by (simp add: Let_def)
qed

section \<open>Time\<close>

definition total_usecs :: "timeval \<Rightarrow> int" where
  "total_usecs t = tv_sec t * 1000000 + tv_usec t"

lemma time_elapsed_total: "time_elapsed lst cur = (total_usecs cur - total_usecs lst) mod 2 ^ 64"
proof -
  have e: "total_usecs cur - total_usecs lst = 1000000 * (tv_sec cur - tv_sec lst) + (tv_usec cur - tv_usec lst)"
    by (simp add: total_usecs_def algebra_simps)
  have m: "(1000000 * (x mod M) + c) mod M = (1000000 * x + c) mod M" for x c M :: int
    by (metis mod_add_left_eq mod_mult_right_eq)
  show ?thesis
    by (simp only: e time_elapsed_def u64_def Let_def take_bit_eq_mod mod_add_left_eq mod_diff_left_eq m
        add_diff_eq [symmetric])
qed

text \<open>\<open>time_left\<close> is the part of a gap that is still to be waited for: the gap less the
  time since the last signal, and never negative.\<close>

theorem time_left_is_rest:
  assumes "0 \<le> g" "g < 2147483648" "total_usecs lst \<le> total_usecs cur"
    "total_usecs cur - total_usecs lst < 2 ^ 64"
  shows "time_left cur lst g = max 0 (g - (total_usecs cur - total_usecs lst))"
proof -
  have "time_elapsed lst cur = total_usecs cur - total_usecs lst"
    using assms(3,4) by (simp add: time_elapsed_total)
  moreover have "u64 g = g" using assms(1,2) by (simp add: u64_id)
  ultimately show ?thesis using assms by (auto simp: time_left_def Let_def i32_id)
qed

theorem time_left_is_rest_witness:
  "time_left \<lparr>tv_sec = 11, tv_usec = 5\<rparr> \<lparr>tv_sec = 10, tv_usec = 990005\<rparr> 40000 = 30000"
  using time_left_is_rest [of 40000 "\<lparr>tv_sec = 10, tv_usec = 990005\<rparr>" "\<lparr>tv_sec = 11, tv_usec = 5\<rparr>"]
  by (simp add: total_usecs_def)

text \<open>A reported button is due to be released a signal, a gap and a margin after the time it
  was reported; the release reports that button, code and repeat count. A new press while
  another button is held keeps that one, to be released first.\<close>

theorem press_schedules_release:
  "let r' = register_button_press d rm ri nc cd rp now r
   in total_usecs (get_release_time r') = total_usecs now + release_gap_of d rm
     \<and> release_remote r' = Some ri \<and> release_ncode r' = nc \<and> release_code r' = cd \<and> release_reps r' = rp
     \<and> (if rp = 0 \<and> release_remote r \<noteq> None
        then release_remote2 r' = release_remote r \<and> release_ncode2 r' = release_ncode r
          \<and> release_code2 r' = release_code r
        else release_remote2 r' = release_remote2 r \<and> release_ncode2 r' = release_ncode2 r
          \<and> release_code2 r' = release_code2 r)"
  by (auto simp: register_button_press_def register_input_def get_release_time_def timeradd_def
      total_usecs_def Let_def)

section \<open>Ranges over all remotes\<close>

lemma lower_limit_pos: "1 \<le> lower_limit d rm v"
  by (simp add: lower_limit_def Let_def)

lemma Min_snoc: "xs \<noteq> [] \<Longrightarrow> Min (f ` set (xs @ [x])) = min (f x) (Min (f ` set xs))"
  and Max_snoc: "xs \<noteq> [] \<Longrightarrow> Max (f ` set (xs @ [x])) = max (f x) (Max (f ` set xs))"
  by simp_all

text \<open>The filter a driver may apply: the longest gap, pulse and space are the largest over all
  remotes and the shortest pulse is the smallest, but the shortest space is the largest of the
  remotes' shortest spaces, so that a driver would drop spaces the other remotes need.\<close>

theorem filter_covers_remotes:
  assumes "rs \<noteq> []"
  shows "let p = get_filter_parameters d rs in
    fp_min_pulse p = Min ((\<lambda>r. lower_limit d r (min_pulse_length r)) ` set rs)
    \<and> fp_min_space p = Max ((\<lambda>r. lower_limit d r (min_space_length r)) ` set rs)
    \<and> fp_max_gap p = max 0 (Max ((\<lambda>r. upper_limit d r (max_gap_length r)) ` set rs))
    \<and> fp_max_pulse p = max 0 (Max ((\<lambda>r. upper_limit d r (max_pulse_length r)) ` set rs))
    \<and> fp_max_space p = max 0 (Max ((\<lambda>r. upper_limit d r (max_space_length r)) ` set rs))"
  using assms
proof (induction rs rule: rev_induct)
  case Nil
  then show ?case by simp
next
  case (snoc r rs)
  let ?z = "\<lparr>fp_max_gap = 0, fp_min_pulse = 0, fp_min_space = 0, fp_max_pulse = 0, fp_max_space = 0\<rparr>"
  have s: "get_filter_parameters d (rs @ [r]) = filter_step d r (get_filter_parameters d rs)"
    by (simp add: get_filter_parameters_def)
  have f: "fp_max_gap (filter_step d r p) = max (upper_limit d r (max_gap_length r)) (fp_max_gap p)"
    "fp_max_pulse (filter_step d r p) = max (upper_limit d r (max_pulse_length r)) (fp_max_pulse p)"
    "fp_max_space (filter_step d r p) = max (upper_limit d r (max_space_length r)) (fp_max_space p)"
    "fp_min_pulse (filter_step d r p) = (if fp_min_pulse p = 0 then lower_limit d r (min_pulse_length r)
       else min (lower_limit d r (min_pulse_length r)) (fp_min_pulse p))"
    "fp_min_space (filter_step d r p) = (if fp_min_space p = 0 then lower_limit d r (min_space_length r)
       else max (lower_limit d r (min_space_length r)) (fp_min_space p))" for p
    by (auto simp: filter_step_def Let_def)
  show ?case
  proof (cases "rs = []")
    case True
    then show ?thesis by (simp only: s f Let_def) (simp add: f get_filter_parameters_def max.commute)
  next
    case False
    let ?p = "get_filter_parameters d rs"
    have "1 \<le> Min ((\<lambda>r. lower_limit d r (min_pulse_length r)) ` set rs)" "1 \<le> Max ((\<lambda>r. lower_limit d r (min_space_length r)) ` set rs)"
      using False lower_limit_pos by (auto simp: Max_ge_iff neq_Nil_conv)
    then have "fp_min_pulse ?p \<noteq> 0" "fp_min_space ?p \<noteq> 0" using snoc.IH [OF False] by (auto simp: Let_def)
    then show ?thesis using snoc.IH [OF False]
      by (simp only: s f Let_def Min_snoc [OF False] Max_snoc [OF False]) (simp add: max.left_commute)
  qed
qed

theorem filter_covers_remotes_witness:
  "let p = get_filter_parameters sample_driver
      [sample_remote\<lparr>min_space_length := 500\<rparr>, sample_remote\<lparr>min_space_length := 900\<rparr>]
   in fp_min_space p = 630 \<and> fp_min_pulse p = 1"
proof -
  have l: "lower_limit sample_driver (sample_remote\<lparr>min_space_length := n\<rparr>) 500 = 350"
    "lower_limit sample_driver (sample_remote\<lparr>min_space_length := n\<rparr>) 900 = 630"
    "lower_limit sample_driver (sample_remote\<lparr>min_space_length := n\<rparr>) 0 = 1" for n
    by (simp_all add: lower_limit_def sample_remote_def zero_remote_def sample_driver_def cur_aeps_def c_arith Let_def)
  have z: "min_pulse_length (sample_remote\<lparr>min_space_length := n\<rparr>) = 0" for n
    by (simp add: sample_remote_def zero_remote_def)
  show ?thesis
    using filter_covers_remotes [of "[sample_remote\<lparr>min_space_length := 500\<rparr>,
      sample_remote\<lparr>min_space_length := 900\<rparr>]" sample_driver]
    by (simp add: l z Let_def)
qed

lemma Min_pair: "finite S \<Longrightarrow> Min (insert a (insert b S)) = Min (insert (min a b) S)"
  and Max_pair: "finite S \<Longrightarrow> Max (insert a (insert b S)) = Max (insert (max a b) S)"
  for a b :: "'a :: linorder"
  by (cases "S = {}"; simp add: min.assoc max.assoc)+

lemma freq_scan_range:
  "mn \<le> mx \<Longrightarrow> freq_scan rs mn mx = (Min (insert mn (freq ` {r \<in> set rs. freq r \<noteq> 0})),
     Max (insert mx (freq ` {r \<in> set rs. freq r \<noteq> 0})))"
proof (induction rs arbitrary: mn mx)
  case Nil
  then show ?case by simp
next
  case (Cons r rs)
  let ?S = "freq ` {r \<in> set rs. freq r \<noteq> 0}"
  have e: "freq r \<noteq> 0 \<Longrightarrow> freq ` {x \<in> set (r # rs). freq x \<noteq> 0} = insert (freq r) ?S"
    "freq r = 0 \<Longrightarrow> freq ` {x \<in> set (r # rs). freq x \<noteq> 0} = ?S" by auto
  have i: "Min (insert a (insert b ?S)) = Min (insert (min a b) ?S)"
    "Max (insert a (insert b ?S)) = Max (insert (max a b) ?S)" for a b
    using Min_pair [of ?S] Max_pair [of ?S] by simp_all
  show ?case
  proof (cases "freq r = 0")
    case True
    with Cons show ?thesis unfolding e(2) [OF True] by simp
  next
    case False
    consider "freq r > mx" | "freq r < mn" | "mn \<le> freq r" "freq r \<le> mx" by linarith
    then show ?thesis unfolding e(1) [OF False] i
      using False Cons.prems by cases (simp_all add: Cons.IH min_absorb1 min_absorb2 max_absorb1 max_absorb2)
  qed
qed

text \<open>The range of carrier frequencies spans the frequencies of all remotes that have one,
  when the first remote has one.\<close>

theorem frequency_range_spans_remotes:
  assumes "rs \<noteq> []" "freq (hd rs) \<noteq> 0"
  shows "get_frequency_range rs = (Min (freq ` {r \<in> set rs. freq r \<noteq> 0}), Max (freq ` {r \<in> set rs. freq r \<noteq> 0}))"
proof -
  obtain r qs where rs: "rs = r # qs" using assms(1) by (cases rs) auto
  have "freq ` {x \<in> set rs. freq x \<noteq> 0} = insert (freq r) (freq ` {x \<in> set qs. freq x \<noteq> 0})"
    using assms(2) by (auto simp: rs)
  then show ?thesis by (simp add: rs freq_scan_range)
qed

theorem frequency_range_spans_remotes_witness:
  "get_frequency_range [sample_remote\<lparr>freq := 38000\<rparr>, sample_remote\<lparr>freq := 0\<rparr>, sample_remote\<lparr>freq := 36000\<rparr>]
    = (36000, 38000)"
proof -
  let ?rs = "[sample_remote\<lparr>freq := 38000\<rparr>, sample_remote\<lparr>freq := 0\<rparr>, sample_remote\<lparr>freq := 36000\<rparr>]"
  have "freq ` {r \<in> set ?rs. freq r \<noteq> 0} = {38000, 36000}" by force
  then show ?thesis using frequency_range_spans_remotes [of ?rs] by simp
qed

end
