(* ===== verification/Sample_Config.thy ===== *)
theory Sample_Config
  imports Config_Facts Sample
begin

text \<open>
  A small configuration file and what the reader makes of its lines, for the examples that go
  with the properties of \<open>lib/config_file.c\<close>.
\<close>

definition sample_lines :: "string list" where
  "sample_lines = map (\<lambda>l. l @ [newline])
     [''begin remote'', ''name tv'', ''begin codes'', ''UP 5'', ''end codes'', ''end remote'']"

lemma sample_fgets: "fgets_all 4095 (concat sample_lines) = sample_lines"
  by code_simp

lemma read_line_tokens:
  assumes "strtok_all is_ws (chop_eol ln) = key # val # rest" "hd (chop_eol ln) \<noteq> CHR ''#''"
    "\<not> strcaseeq ''include'' key"
  shows "read_line dyn ln r = LStep (if strcaseeq ''begin'' key then begin_line key val rest r
    else if strcaseeq ''end'' key then end_line dyn key val rest r else other_line dyn key val rest r)"
  using assms by (simp add: read_line_def Let_def)

lemma sample_read_line:
  "read_line dyn (''begin remote'' @ [newline]) r = LStep (begin_line ''begin'' ''remote'' [] r)"
  "read_line dyn (''name tv'' @ [newline]) r = LStep (other_line dyn ''name'' ''tv'' [] r)"
  "read_line dyn (''begin codes'' @ [newline]) r = LStep (begin_line ''begin'' ''codes'' [] r)"
  "read_line dyn (''UP 5'' @ [newline]) r = LStep (other_line dyn ''UP'' ''5'' [] r)"
  "read_line dyn (''end codes'' @ [newline]) r = LStep (end_line dyn ''end'' ''codes'' [] r)"
  "read_line dyn (''end remote'' @ [newline]) r = LStep (end_line dyn ''end'' ''remote'' [] r)"
proof -
  have k: "strcaseeq ''begin'' ''begin''" "\<not> strcaseeq ''begin'' ''name''" "\<not> strcaseeq ''end'' ''name''"
    "\<not> strcaseeq ''begin'' ''UP''" "\<not> strcaseeq ''end'' ''UP''" "\<not> strcaseeq ''begin'' ''end''"
    "strcaseeq ''end'' ''end''" by code_simp+
  note r = read_line_tokens [where dyn = dyn and r = r]
  show "read_line dyn (''begin remote'' @ [newline]) r = LStep (begin_line ''begin'' ''remote'' [] r)"
    by (rule trans [OF r [of _ "''begin''" "''remote''" "[]"]]) (code_simp, code_simp, code_simp, simp only: k if_True)
  show "read_line dyn (''name tv'' @ [newline]) r = LStep (other_line dyn ''name'' ''tv'' [] r)"
    by (rule trans [OF r [of _ "''name''" "''tv''" "[]"]]) (code_simp, code_simp, code_simp, simp only: k if_False)
  show "read_line dyn (''begin codes'' @ [newline]) r = LStep (begin_line ''begin'' ''codes'' [] r)"
    by (rule trans [OF r [of _ "''begin''" "''codes''" "[]"]]) (code_simp, code_simp, code_simp, simp only: k if_True)
  show "read_line dyn (''UP 5'' @ [newline]) r = LStep (other_line dyn ''UP'' ''5'' [] r)"
    by (rule trans [OF r [of _ "''UP''" "''5''" "[]"]]) (code_simp, code_simp, code_simp, simp only: k if_False)
  show "read_line dyn (''end codes'' @ [newline]) r = LStep (end_line dyn ''end'' ''codes'' [] r)"
    by (rule trans [OF r [of _ "''end''" "''codes''" "[]"]])
      (code_simp, code_simp, code_simp, simp only: k if_False if_True)
  show "read_line dyn (''end remote'' @ [newline]) r = LStep (end_line dyn ''end'' ''remote'' [] r)"
    by (rule trans [OF r [of _ "''end''" "''remote''" "[]"]])
      (code_simp, code_simp, code_simp, simp only: k if_False if_True)
qed

lemma sample_sections:
  "strcaseeq ''codes'' ''codes''" "\<not> strcaseeq ''codes'' ''remote''" "\<not> strcaseeq ''raw_codes'' ''remote''"
  "strcaseeq ''remote'' ''remote''" "strcaseeq ''name'' ''name''"
  by code_simp+

lemma sample_code_line: "define_code_line ''UP'' ''5'' [] = Some (sample_button ''UP'' 5)"
proof -
  have "strtoul ''5'' = (5, [], False)"
    by (simp add: strtoul_def read_integer_def isspace_def read_magnitude_def is_digit_of_def digit_val_def u64_id)
  then have "s_strtocode ''5'' = Some 5" by (simp add: s_strtocode_def)
  then show ?thesis by (simp add: define_code_line_def defineCode_def sample_button_def zero_ncode_def)
qed

lemma sample_run: "\<exists>r. read_lines fs globf sub False name sample_lines reader_start t = Some (Inr r, t)
    \<and> rd_mode r = ID_none \<and> rd_rem r = RIn 0 \<and> (\<exists>rm. rd_top r = [rm] \<and> rname rm = Some ''tv'' \<and> codes rm \<noteq> None)"
proof -
  have l: "length l < 4096" if "l \<in> set sample_lines" for l
    using that by (auto simp: sample_lines_def)
  show ?thesis
    using l
    by (simp add: sample_lines_def sample_read_line [simplified] begin_line_def end_line_def other_line_def
       sample_sections begin_remote_def defineRemote_def begin_codes_def code_line_def sample_code_line end_codes_def
       end_remote_def checkMode_def reader_start_def cur_rem_def put_rem_def sanityChecks_def new_remote_def
       zero_remote_def is_raw_def cut_list_def name_dyncodes_def Let_def)
qed

lemma good_sub_depth:
  "good_sub None" "good_sub (Some (read_config_recursive fs globf dyn k))"
  by (simp_all add: good_sub_def good_read)

text \<open>The file is read at every depth.\<close>

lemma sample_read:
  "\<exists>rm t'. read_config_recursive fs globf False k name (concat sample_lines) t = Some (Inr [rm], t')
    \<and> rname rm = Some ''tv''"
proof -
  let ?sub = "case k of 0 \<Rightarrow> None | Suc j \<Rightarrow> Some (read_config_recursive fs globf False j)"
  obtain r rm where r: "read_lines fs globf ?sub False name sample_lines reader_start t = Some (Inr r, t)"
      "rd_mode r = ID_none" "rd_top r = [rm]" "rname rm = Some ''tv''" "codes rm \<noteq> None"
    using sample_run by metis
  obtain rm' t' where f: "fixup_remote rm t = Some (rm', t')" "rname rm' = Some ''tv''"
    using fixup_remote_result [of rm t] r(4,5) by force
  have "read_config_recursive fs globf False k name (concat sample_lines) t
      = finish_file (read_lines fs globf ?sub False name sample_lines reader_start t)"
    by (cases k) (simp_all add: sample_fgets)
  then show ?thesis using r(1-3) f by (simp add: finish_file_def)
qed

end
