(* ===== verification/Config_Props.thy ===== *)
theory Config_Props
  imports Sample_Config Code_Facts
begin

text \<open>
  The properties of \<open>lib/config_file.c\<close>: the state machine of the reader, the reading of a file in parts, what a
  configuration that was read has, the checks, the flags, and the order of the remotes.
\<close>

section \<open>The reader\<close>

text \<open>The loop over the lines of a file is a run of the state machine.\<close>

lemma run_read_lines:
  assumes "good_sub sub"
  shows "read_lines fs globf sub dyn name ls r t = Some (Inr r', t') \<Longrightarrow> (reader_step dyn)\<^sup>*\<^sup>* r r'"
proof (induction ls arbitrary: r t)
  case Nil
  then show ?case by simp
next
  case (Cons l ls)
  show ?case
  proof (cases "read_line dyn l r")
    case (LInclude val)
    obtain c t1 where c: "read_all_included fs globf sub name val (rd_top r) t = Some (c, t1)"
      and rest: "read_lines fs globf sub dyn name ls (after_include c r) t1 = Some (Inr r', t')"
      using Cons.prems LInclude by (auto split: if_splits option.splits)
    have "reader_step dyn r (after_include c r)"
      using ok_read_all_included [OF assms c]
      by (auto simp: incl_ok_def split: if_splits intro: reader_step.incl reader_step.drop)
    then show ?thesis using Cons.IH [OF rest] by (rule converse_rtranclp_into_rtranclp)
  next
    case (LStep q)
    then obtain r1 where q: "q = Some r1" "read_lines fs globf sub dyn name ls r1 t = Some (Inr r', t')"
      using Cons.prems by (auto split: if_splits option.splits)
    then have "reader_step dyn r r1" using LStep by (auto intro: reader_step.line)
    then show ?thesis using Cons.IH [OF q(2)] by (rule converse_rtranclp_into_rtranclp)
  qed
qed

lemma run_ok: "(reader_step dyn)\<^sup>*\<^sup>* r r' \<Longrightarrow> reader_ok r \<Longrightarrow> reader_ok r'"
  by (induction rule: rtranclp_induct) (auto intro: reader_step_ok)

text \<open>C30. Whatever lines and includes the reader goes through, the pointer to the open remote
  points into the list of remotes, and between two remotes every remote of the list has a name.\<close>

theorem reader_invariant:
  assumes "(reader_step dyn)\<^sup>*\<^sup>* reader_start r"
  shows "(case rd_rem r of RIn i \<Rightarrow> i < length (rd_top r) | _ \<Rightarrow> True)
    \<and> (rd_mode r = ID_none \<longrightarrow> list_all (\<lambda>rm. rname rm \<noteq> None) (rd_top r))"
  using run_ok [OF assms reader_ok_start]
  by (auto simp: reader_ok_def named_def list_all_length split: rem_ref.splits)

theorem reader_invariant_witness:
  "\<exists>r rm. (reader_step False)\<^sup>*\<^sup>* reader_start r \<and> rd_rem r = RIn 0 \<and> rd_top r = [rm] \<and> rname rm = Some ''tv''
    \<and> list_all (\<lambda>rm. rname rm \<noteq> None) (rd_top r)"
proof -
  obtain r rm where r: "read_lines (\<lambda>_. None) (\<lambda>_. []) None False [] sample_lines reader_start sample_tx
      = Some (Inr r, sample_tx)" "rd_mode r = ID_none" "rd_top r = [rm]" "rname rm = Some ''tv''"
      "rd_rem r = RIn 0"
    using sample_run by metis
  then have "(reader_step False)\<^sup>*\<^sup>* reader_start r" using run_read_lines good_sub_depth(1) by blast
  from reader_invariant [OF this] this r show ?thesis by auto
qed

section \<open>Parts of a file\<close>

text \<open>The reader that has remotes \<open>pre\<close> in its list already goes on like one that starts anew: what is left
  over from them in its variables is not used. \<open>resumes\<close> relates the two.\<close>

definition shift_ref :: "nat \<Rightarrow> rem_ref \<Rightarrow> rem_ref" where
  "shift_ref n x = (case x of RIn i \<Rightarrow> RIn (n + i) | y \<Rightarrow> y)"

text \<open>A raw code but for what a \<open>name\<close> line and the end of the code set.\<close>

definition raw_rest :: "ir_ncode \<Rightarrow> ir_code list \<times> nat option \<times> nat option" where
  "raw_rest nc = (nexts nc, current nc, transmit_state nc)"

definition resumes :: "ir_remote list \<Rightarrow> reader \<Rightarrow> reader \<Rightarrow> bool" where
  "resumes pre r q \<longleftrightarrow> rd_mode r = rd_mode q \<and> rd_top r = pre @ rd_top q
     \<and> raw_rest (rd_raw_code r) = raw_rest (rd_raw_code q)
     \<and> (rd_mode q \<noteq> ID_none \<longrightarrow> rd_rem r = shift_ref (length pre) (rd_rem q))
     \<and> (rd_mode q = ID_codes \<longrightarrow> rd_codes_list r = rd_codes_list q)
     \<and> (rd_mode q \<in> {ID_raw_codes, ID_raw_name} \<longrightarrow>
          rd_raw_codes r = rd_raw_codes q \<and> code (rd_raw_code r) = code (rd_raw_code q))
     \<and> (rd_mode q = ID_raw_name \<longrightarrow> nname (rd_raw_code r) = nname (rd_raw_code q) \<and> rd_signals r = rd_signals q)"

lemma shift_ref_simps [simp]: "shift_ref n RNone = RNone" "shift_ref n (RIn i) = RIn (n + i)" "shift_ref n (RLost x) = RLost x"
  by (simp_all add: shift_ref_def)

lemma resumes_cur: "resumes pre r q \<Longrightarrow> rd_mode q \<noteq> ID_none \<Longrightarrow> cur_rem r = cur_rem q"
  by (cases "rd_rem q") (auto simp: resumes_def cur_rem_def nth_append)

lemma resumes_put: "resumes pre r q \<Longrightarrow> rd_mode q \<noteq> ID_none \<Longrightarrow> resumes pre (put_rem rm r) (put_rem rm q)"
  by (cases "rd_rem q") (auto simp: resumes_def put_rem_def list_update_append)

lemma resumes_cut: "resumes pre r q \<Longrightarrow> rd_mode q \<noteq> ID_none \<Longrightarrow> resumes pre (cut_list r) (cut_list q)"
  by (cases "rd_rem q") (auto simp: resumes_def cut_list_def)

lemma cut_mode [simp]: "rd_mode (cut_list r) = rd_mode r"
  by (simp add: cut_list_def split: rem_ref.split)

lemma resumes_leave:
  "resumes pre r q \<Longrightarrow> rd_mode q \<noteq> ID_none \<Longrightarrow> m \<in> {ID_none, ID_remote} \<Longrightarrow>
    resumes pre (r\<lparr>rd_mode := m\<rparr>) (q\<lparr>rd_mode := m\<rparr>)"
  by (auto simp: resumes_def)

lemma resumes_mode: "resumes pre r q \<Longrightarrow> rd_mode r = rd_mode q"
  by (simp add: resumes_def)

lemma check_resumes:
  "resumes pre r q \<Longrightarrow> (a = b \<Longrightarrow> rel_option (resumes pre) (f r) (f q)) \<Longrightarrow>
    rel_option (resumes pre) (case checkMode a b r of None \<Rightarrow> None | Some r \<Rightarrow> f r)
      (case checkMode a b q of None \<Rightarrow> None | Some q \<Rightarrow> f q)"
  by (simp add: checkMode_def)

lemma resumes_begin:
  assumes "resumes pre r q"
  shows "rel_option (resumes pre) (begin_codes r) (begin_codes q)"
    "rel_option (resumes pre) (begin_raw_codes r) (begin_raw_codes q)"
    "rel_option (resumes pre) (begin_remote r) (begin_remote q)"
proof -
  note m = resumes_mode [OF assms]
  show "rel_option (resumes pre) (begin_codes r) (begin_codes q)"
    unfolding begin_codes_def m
    using assms resumes_cur [OF assms] by (intro check_resumes) (auto simp: resumes_def)
  show "rel_option (resumes pre) (begin_raw_codes r) (begin_raw_codes q)"
    unfolding begin_raw_codes_def m
  proof (rule check_resumes [OF assms])
    assume i: "rd_mode q = ID_remote"
    have "resumes pre (put_rem (set_protocol (cur_rem q) RAW_CODES) r) (put_rem (set_protocol (cur_rem q) RAW_CODES) q)"
      using i by (intro resumes_put [OF assms]) simp
    then show "rel_option (resumes pre)
        (if codes (cur_rem r) \<noteq> None then None
         else let r = put_rem (set_protocol (cur_rem r) RAW_CODES) r
              in Some (r\<lparr>rd_raw_code := (rd_raw_code r)\<lparr>code := 0\<rparr>, rd_raw_codes := [], rd_mode := ID_raw_codes\<rparr>))
        (if codes (cur_rem q) \<noteq> None then None
         else let q = put_rem (set_protocol (cur_rem q) RAW_CODES) q
              in Some (q\<lparr>rd_raw_code := (rd_raw_code q)\<lparr>code := 0\<rparr>, rd_raw_codes := [], rd_mode := ID_raw_codes\<rparr>))"
      using i resumes_cur [OF assms] by (auto simp: Let_def resumes_def raw_rest_def)
  qed
  show "rel_option (resumes pre) (begin_remote r) (begin_remote q)"
    unfolding begin_remote_def m using assms by (intro check_resumes) (auto simp: resumes_def)
qed

lemma resumes_raw:
  assumes "resumes pre r q" "rd_mode q = ID_raw_name"
  shows "rel_option (resumes pre) (finish_raw_code r) (finish_raw_code q)"
proof -
  have "(rd_raw_code r)\<lparr>signals := x, nlength := n\<rparr> = (rd_raw_code q)\<lparr>signals := x, nlength := n\<rparr>" for x n
    using assms by (intro ir_ncode.equality) (simp_all add: resumes_def raw_rest_def)
  then show ?thesis using assms by (simp add: finish_raw_code_def Let_def resumes_def raw_rest_def)
qed

lemma finish_raw_mode: "finish_raw_code r = Some r' \<Longrightarrow> rd_mode r' = rd_mode r"
  by (auto simp: finish_raw_code_def Let_def split: if_splits)

lemma resumes_end:
  assumes "resumes pre r q"
  shows "rel_option (resumes pre) (end_codes r) (end_codes q)"
    "rel_option (resumes pre) (end_raw_codes r) (end_raw_codes q)"
    "rel_option (resumes pre) (end_remote dyn r) (end_remote dyn q)"
proof -
  note m = resumes_mode [OF assms]
  show "rel_option (resumes pre) (end_codes r) (end_codes q)"
    unfolding end_codes_def m
  proof (rule check_resumes [OF assms])
    assume i: "rd_mode q = ID_codes"
    then have "rd_codes_list r = rd_codes_list q" "cur_rem r = cur_rem q"
      using assms resumes_cur [OF assms] by (simp_all add: resumes_def)
    then show "rel_option (resumes pre) (Some ((put_rem ((cur_rem r)\<lparr>codes := Some (rd_codes_list r)\<rparr>) r)\<lparr>rd_mode := ID_remote\<rparr>))
        (Some ((put_rem ((cur_rem q)\<lparr>codes := Some (rd_codes_list q)\<rparr>) q)\<lparr>rd_mode := ID_remote\<rparr>))"
      using i by (simp add: resumes_leave [OF resumes_put [OF assms]])
  qed
  have e: "rel_option (resumes pre)
      (case checkMode (rd_mode a) ID_raw_codes a of None \<Rightarrow> None
        | Some r \<Rightarrow> Some ((put_rem ((cur_rem r)\<lparr>codes := Some (rd_raw_codes r)\<rparr>) r)\<lparr>rd_mode := ID_remote\<rparr>))
      (case checkMode (rd_mode b) ID_raw_codes b of None \<Rightarrow> None
        | Some r \<Rightarrow> Some ((put_rem ((cur_rem r)\<lparr>codes := Some (rd_raw_codes r)\<rparr>) r)\<lparr>rd_mode := ID_remote\<rparr>))"
    if ab: "resumes pre a b" for a b
    unfolding resumes_mode [OF ab]
  proof (rule check_resumes [OF ab])
    assume i: "rd_mode b = ID_raw_codes"
    then have "rd_raw_codes a = rd_raw_codes b" "cur_rem a = cur_rem b"
      using ab resumes_cur [OF ab] by (simp_all add: resumes_def)
    then show "rel_option (resumes pre) (Some ((put_rem ((cur_rem a)\<lparr>codes := Some (rd_raw_codes a)\<rparr>) a)\<lparr>rd_mode := ID_remote\<rparr>))
        (Some ((put_rem ((cur_rem b)\<lparr>codes := Some (rd_raw_codes b)\<rparr>) b)\<lparr>rd_mode := ID_remote\<rparr>))"
      using i by (simp add: resumes_leave [OF resumes_put [OF ab]])
  qed
  show "rel_option (resumes pre) (end_raw_codes r) (end_raw_codes q)"
  proof (cases "rd_mode q = ID_raw_name")
    case False
    then show ?thesis using e [OF assms] m by (simp add: end_raw_codes_def)
  next
    case True
    have "resumes pre (a\<lparr>rd_mode := ID_raw_codes\<rparr>) (b\<lparr>rd_mode := ID_raw_codes\<rparr>)" if "resumes pre a b" "rd_mode b = ID_raw_name" for a b
      using that by (auto simp: resumes_def)
    then have f: "resumes pre (a\<lparr>rd_mode := ID_raw_codes\<rparr>) (b\<lparr>rd_mode := ID_raw_codes\<rparr>)"
      if "finish_raw_code r = Some a" "finish_raw_code q = Some b" for a b
      using resumes_raw [OF assms True] True that by (auto dest: finish_raw_mode)
    show ?thesis using resumes_raw [OF assms True] True m e [OF f]
      by (cases "finish_raw_code r"; cases "finish_raw_code q") (simp_all add: end_raw_codes_def)
  qed
  show "rel_option (resumes pre) (end_remote dyn r) (end_remote dyn q)"
    unfolding end_remote_def m
  proof (rule check_resumes [OF assms])
    assume i: "rd_mode q = ID_remote"
    then have c: "cur_rem r = cur_rem q" using resumes_cur [OF assms] by simp
    have "resumes pre (cut_list (put_rem x r)) (cut_list (put_rem x q))" for x
      using i by (intro resumes_cut resumes_put assms) simp_all
    then have "resumes pre ((cut_list (put_rem x r))\<lparr>rd_mode := ID_none\<rparr>) ((cut_list (put_rem x q))\<lparr>rd_mode := ID_none\<rparr>)" for x
      using i by (intro resumes_leave) simp_all
    then show "rel_option (resumes pre)
        (case sanityChecks (cur_rem r) of None \<Rightarrow> None
         | Some rm \<Rightarrow> let r = cut_list (put_rem ((name_dyncodes dyn rm)\<lparr>last_code := None\<rparr>) r) in Some (r\<lparr>rd_mode := ID_none\<rparr>))
        (case sanityChecks (cur_rem q) of None \<Rightarrow> None
         | Some rm \<Rightarrow> let r = cut_list (put_rem ((name_dyncodes dyn rm)\<lparr>last_code := None\<rparr>) q) in Some (r\<lparr>rd_mode := ID_none\<rparr>))"
      unfolding c by (simp add: Let_def split: option.split)
  qed
qed

lemma resumes_signals:
  assumes "resumes pre r q" "rd_mode q = ID_raw_name"
  shows "rel_option (resumes pre) (map_option (\<lambda>sg. r\<lparr>rd_signals := sg\<rparr>) (add_signals (rd_signals r) ws))
    (map_option (\<lambda>sg. q\<lparr>rd_signals := sg\<rparr>) (add_signals (rd_signals q) ws))"
proof -
  have "rd_signals r = rd_signals q" using assms by (simp add: resumes_def)
  then show ?thesis using assms by (cases "add_signals (rd_signals q) ws") (simp_all add: resumes_def)
qed

lemma resumes_other:
  assumes "resumes pre r q"
  shows "rel_option (resumes pre) (other_line dyn key val rest r) (other_line dyn key val rest q)"
    "rd_mode q = ID_codes \<Longrightarrow> rel_option (resumes pre) (code_line key val rest r) (code_line key val rest q)"
proof -
  note m = resumes_mode [OF assms]
  have c: "rel_option (resumes pre) (code_line key val rest r) (code_line key val rest q)" if "rd_mode q = ID_codes"
    using assms that by (cases "define_code_line key val rest") (auto simp: code_line_def resumes_def)
  have n: "rel_option (resumes pre)
      (map_option (\<lambda>r. r\<lparr>rd_raw_code := (rd_raw_code r)\<lparr>nname := val, code := code (rd_raw_code r) + 1\<rparr>,
         rd_signals := [], rd_mode := ID_raw_name\<rparr>) x)
      (map_option (\<lambda>r. r\<lparr>rd_raw_code := (rd_raw_code r)\<lparr>nname := val, code := code (rd_raw_code r) + 1\<rparr>,
         rd_signals := [], rd_mode := ID_raw_name\<rparr>) y)"
    if "rel_option (resumes pre) x y" "\<And>z. y = Some z \<Longrightarrow> rd_mode z \<in> {ID_raw_codes, ID_raw_name}" for x y
    using that by (cases x; cases y) (auto simp: resumes_def raw_rest_def)
  have w: "(case x of None \<Rightarrow> None | Some r \<Rightarrow> Some (f r)) = map_option f x" for x and f :: "reader \<Rightarrow> reader"
    by (cases x) simp_all
  have raw: "rel_option (resumes pre) (raw_line key val rest r) (raw_line key val rest q)"
    if "rd_mode q \<in> {ID_raw_codes, ID_raw_name}"
  proof (cases "strcaseeq ''name'' key")
    case True
    have "rel_option (resumes pre) (if rd_mode r = ID_raw_name then finish_raw_code r else Some r)
        (if rd_mode q = ID_raw_name then finish_raw_code q else Some q)"
      using assms m resumes_raw [OF assms] by simp
    then show ?thesis using True that
      unfolding raw_line_def w by (simp only: if_True) (rule n, assumption, auto split: if_splits dest: finish_raw_mode)
  next
    case False
    then show ?thesis using that m resumes_signals [OF assms, of "key # val # rest"] by (auto simp: raw_line_def)
  qed
  have rm: "rel_option (resumes pre) (other_line dyn key val rest r) (other_line dyn key val rest q)" if "rd_mode q = ID_remote"
    using that m resumes_cur [OF assms] resumes_put [OF assms]
    by (auto simp: other_line_def option.rel_map prod.case_eq_if split: option.split
        intro!: option.rel_refl_strong rel_funI)
  show "rel_option (resumes pre) (other_line dyn key val rest r) (other_line dyn key val rest q)"
    using m raw c rm assms by (cases "rd_mode q") (auto simp: other_line_def)
  show "rd_mode q = ID_codes \<Longrightarrow> rel_option (resumes pre) (code_line key val rest r) (code_line key val rest q)"
    by (rule c)
qed

text \<open>One line.\<close>

lemma resumes_line:
  assumes "resumes pre r q"
  shows "(\<exists>v. read_line dyn l r = LInclude v \<and> read_line dyn l q = LInclude v)
    \<or> (\<exists>x y. read_line dyn l r = LStep x \<and> read_line dyn l q = LStep y \<and> rel_option (resumes pre) x y)"
proof -
  note m = resumes_mode [OF assms]
  note t = resumes_begin [OF assms] resumes_end [OF assms] resumes_other [OF assms]
  have s: "rel_option (resumes pre)
      (if rd_mode r = ID_raw_name then map_option (\<lambda>sg. r\<lparr>rd_signals := sg\<rparr>) (add_signals (rd_signals r) ws) else None)
      (if rd_mode q = ID_raw_name then map_option (\<lambda>sg. q\<lparr>rd_signals := sg\<rparr>) (add_signals (rd_signals q) ws) else None)" for ws
    using m resumes_signals [OF assms, of ws] by simp
  show ?thesis
    using t m s assms
    by (auto simp: read_line_def begin_line_def end_line_def Let_def simp del: add_signals.simps split: list.split)
qed

section \<open>Includes of a part\<close>

text \<open>Every path that \<open>glob\<close> gives can be opened, and is short enough to be used.\<close>

definition globs_open :: "(string \<Rightarrow> string option) \<Rightarrow> (string \<Rightarrow> string list) \<Rightarrow> bool" where
  "globs_open fs globf \<longleftrightarrow> (\<forall>pat. \<forall>p \<in> set (globf pat). length p \<le> 253 \<and> fs p \<noteq> None)"

definition behind :: "ir_remote list \<Rightarrow> incl \<Rightarrow> incl" where
  "behind pre c = c\<lparr>in_top := pre @ in_top c\<rparr>"

lemma parse_quoted: "lirc_parse_include (''\"'' @ p @ ''\"'') = Some p"
proof -
  have "\<not> is_ws (CHR ''\"'')" by code_simp
  then show ?thesis by (simp add: lirc_parse_include_def)
qed

lemma included_behind:
  assumes "length p \<le> 253" "fs p \<noteq> None"
  shows "read_included fs sub (take 255 (''\"'' @ p @ ''\"'')) (behind pre c, t)
    = map_option (\<lambda>(c, t). (behind pre c, t)) (read_included fs sub (take 255 (''\"'' @ p @ ''\"'')) (c, t))"
    "read_included fs sub (take 255 (''\"'' @ p @ ''\"'')) (c, t) = Some (c', t') \<Longrightarrow> in_dropped c' = in_dropped c"
proof -
  have q: "take 255 (''\"'' @ p @ ''\"'') = ''\"'' @ p @ ''\"''" using assms(1) by simp
  show "read_included fs sub (take 255 (''\"'' @ p @ ''\"'')) (behind pre c, t)
    = map_option (\<lambda>(c, t). (behind pre c, t)) (read_included fs sub (take 255 (''\"'' @ p @ ''\"'')) (c, t))"
    unfolding q read_included_def parse_quoted using assms(2)
    by (auto simp: behind_def Let_def split: option.split sum.split)
  show "read_included fs sub (take 255 (''\"'' @ p @ ''\"'')) (c, t) = Some (c', t') \<Longrightarrow> in_dropped c' = in_dropped c"
    unfolding q read_included_def parse_quoted using assms(2)
    by (auto simp: Let_def split: option.splits sum.splits)
qed

lemma paths_behind:
  assumes "\<forall>p \<in> set ps. length p \<le> 253 \<and> fs p \<noteq> None"
  shows "read_paths fs sub ps (behind pre c, t) = map_option (\<lambda>(c, t). (behind pre c, t)) (read_paths fs sub ps (c, t))
    \<and> (\<forall>c' t'. read_paths fs sub ps (c, t) = Some (c', t') \<longrightarrow> in_dropped c' = in_dropped c)"
  using assms
proof (induction ps arbitrary: c t)
  case Nil
  then show ?case by simp
next
  case (Cons p ps)
  have p: "length p \<le> 253" "fs p \<noteq> None" using Cons.prems by auto
  note i = included_behind [where p = p and fs = fs and sub = sub, OF p]
  show ?case
  proof (cases "read_included fs sub (take 255 (''\"'' @ p @ ''\"'')) (c, t)")
    case None
    then show ?thesis using i(1) [of pre c t] by (simp del: take_append append.simps)
  next
    case (Some x)
    obtain c1 t1 where x: "x = (c1, t1)" by force
    have d: "in_dropped c1 = in_dropped c" using i(2) Some x by blast
    show ?thesis using i(1) [of pre c t] Some x d Cons.IH [of c1 t1] Cons.prems by (simp del: take_append append.simps)
  qed
qed

lemma all_included_behind:
  assumes "globs_open fs globf"
  shows "read_all_included fs globf sub name val (pre @ tops) t
      = map_option (\<lambda>(c, t). (behind pre c, t)) (read_all_included fs globf sub name val tops t)"
    "read_all_included fs globf sub name val tops t = Some (c, t') \<Longrightarrow> \<not> in_dropped c"
proof -
  let ?ps = "globf (lirc_parse_relative 256 (butlast (tl val)) name)"
  let ?c = "\<lparr>in_top = tops, in_dropped = False, in_error = False\<rparr>"
  have b: "\<lparr>in_top = pre @ tops, in_dropped = False, in_error = False\<rparr> = behind pre ?c" by (simp add: behind_def)
  have "\<forall>p \<in> set ?ps. length p \<le> 253 \<and> fs p \<noteq> None" using assms by (simp add: globs_open_def)
  from paths_behind [OF this, of sub pre ?c t] show "read_all_included fs globf sub name val (pre @ tops) t
      = map_option (\<lambda>(c, t). (behind pre c, t)) (read_all_included fs globf sub name val tops t)"
    "read_all_included fs globf sub name val tops t = Some (c, t') \<Longrightarrow> \<not> in_dropped c"
    unfolding read_all_included_def b by auto
qed

lemma resumes_include: "resumes pre r q \<Longrightarrow> \<not> in_dropped c \<Longrightarrow> resumes pre (after_include (behind pre c) r) (after_include c q)"
  by (auto simp: resumes_def after_include_def behind_def)

lemma resumes_lines:
  assumes "globs_open fs globf" "resumes pre r q"
  shows "(case read_lines fs globf sub dyn name ls q t of
      None \<Rightarrow> read_lines fs globf sub dyn name ls r t = None
    | Some (Inl u, t') \<Rightarrow> read_lines fs globf sub dyn name ls r t = Some (Inl (), t')
    | Some (Inr q', t') \<Rightarrow> \<exists>r'. read_lines fs globf sub dyn name ls r t = Some (Inr r', t') \<and> resumes pre r' q')"
  using assms(2)
proof (induction ls arbitrary: r q t)
  case Nil
  then show ?case by simp
next
  case (Cons l ls)
  show ?case
  proof (cases "length l = LINE_LEN \<and> last l \<noteq> newline")
    case True
    then show ?thesis by simp
  next
    case ne: False
    have f: "(length l = LINE_LEN \<and> last l \<noteq> newline) = False" using ne by simp
    from resumes_line [OF Cons.prems, of dyn l] show ?thesis
    proof (elim disjE exE conjE)
      fix v assume v: "read_line dyn l r = LInclude v" "read_line dyn l q = LInclude v"
      have "rd_top r = pre @ rd_top q" using Cons.prems by (simp add: resumes_def)
      then have b: "read_all_included fs globf sub name v (rd_top r) t
          = map_option (\<lambda>(c, t). (behind pre c, t)) (read_all_included fs globf sub name v (rd_top q) t)"
        using all_included_behind(1) [OF assms(1)] by metis
      show ?thesis
      proof (cases "read_all_included fs globf sub name v (rd_top q) t")
        case None
        then show ?thesis using v b unfolding read_lines.simps f if_False by simp
      next
        case (Some x)
        obtain c t1 where x: "x = (c, t1)" by force
        have "\<not> in_dropped c" using all_included_behind(2) [OF assms(1)] Some x by blast
        note i = Cons.IH [OF resumes_include [OF Cons.prems this], of t1]
        have e: "read_lines fs globf sub dyn name (l # ls) q t
            = (if in_error c then Some (Inl (), t1) else read_lines fs globf sub dyn name ls (after_include c q) t1)"
          "read_lines fs globf sub dyn name (l # ls) r t
            = (if in_error c then Some (Inl (), t1) else read_lines fs globf sub dyn name ls (after_include (behind pre c) r) t1)"
          unfolding read_lines.simps f if_False v line_kind.case b Some x by (simp_all add: behind_def)
        show ?thesis unfolding e using i by simp
      qed
    next
      fix x y assume s: "read_line dyn l r = LStep x" "read_line dyn l q = LStep y" "rel_option (resumes pre) x y"
      show ?thesis
      proof (cases y)
        case None
        then have x: "x = None" using s(3) by simp
        show ?thesis unfolding read_lines.simps f if_False s(1,2) line_kind.case None x by simp
      next
        case (Some q1)
        then obtain r1 where x: "x = Some r1" "resumes pre r1 q1" using s(3) by (cases x) simp_all
        show ?thesis unfolding read_lines.simps f if_False s(1,2) line_kind.case Some x(1) option.case
          by (rule Cons.IH [OF x(2)])
      qed
    qed
  qed
qed

section \<open>A file in two parts\<close>

lemma fgets_line_end:
  "fgets n c = (l, r) \<Longrightarrow> c \<noteq> [] \<Longrightarrow> last c = newline \<Longrightarrow> fgets n (c @ c2) = (l, r @ c2) \<and> (r = [] \<or> last r = newline)"
  by (induction n c arbitrary: l r rule: fgets.induct) (auto split: if_splits prod.splits)

lemma fgets_all_parts:
  "n \<noteq> 0 \<Longrightarrow> c = [] \<or> last c = newline \<Longrightarrow> fgets_all n (c @ c2) = fgets_all n c @ fgets_all n c2"
proof (induction n c rule: fgets_all.induct)
  case (1 n c)
  show ?case
  proof (cases "c = []")
    case True
    then show ?thesis by (simp add: fgets_all.simps [of n "[]"])
  next
    case False
    obtain l r where lr: "fgets n c = (l, r)" by force
    have e: "fgets n (c @ c2) = (l, r @ c2)" "r = [] \<or> last r = newline"
      using fgets_line_end [OF lr False, of c2] 1(3) False by simp_all
    have "fgets_all n (r @ c2) = fgets_all n r @ fgets_all n c2"
      using 1(1) [OF _ lr [symmetric] refl 1(2) e(2)] False 1(2) by simp
    then show ?thesis using False 1(2) lr e(1) by (simp add: fgets_all.simps [of n c] fgets_all.simps [of n "c @ c2"])
  qed
qed

lemma read_lines_parts:
  "read_lines fs globf sub dyn name (ls @ ls2) r t = (case read_lines fs globf sub dyn name ls r t of
     Some (Inr r1, t1) \<Rightarrow> read_lines fs globf sub dyn name ls2 r1 t1
   | Some (Inl u, t1) \<Rightarrow> Some (Inl (), t1)
   | None \<Rightarrow> None)"
  by (induction ls arbitrary: r t) (auto split: option.split line_kind.split)

text \<open>What is left over of the raw code of earlier remotes.\<close>

lemma raw_rest_read:
  assumes "read_lines fs globf sub dyn name ls reader_start t = Some (Inr r, t')"
  shows "raw_rest (rd_raw_code r) = raw_rest zero_ncode"
proof -
  have p: "rd_raw_code (put_rem rm r) = rd_raw_code r" "rd_raw_code (cut_list r) = rd_raw_code r" for rm r
    by (simp_all add: put_rem_def cut_list_def split: rem_ref.split)
  have f: "finish_raw_code r = Some r' \<Longrightarrow> raw_rest (rd_raw_code r') = raw_rest (rd_raw_code r)" for r r'
    by (auto simp: finish_raw_code_def Let_def raw_rest_def split: if_splits)
  have b: "begin_line key val rest r = Some r' \<Longrightarrow> raw_rest (rd_raw_code r') = raw_rest (rd_raw_code r)" for key val rest r r'
    by (auto simp: begin_line_def begin_codes_def begin_raw_codes_def begin_remote_def code_line_def p Let_def raw_rest_def
        split: if_splits option.splits)
  have e: "end_line dyn key val rest r = Some r' \<Longrightarrow> raw_rest (rd_raw_code r') = raw_rest (rd_raw_code r)" for key val rest r r'
    by (auto simp: end_line_def end_codes_def end_raw_codes_def end_remote_def code_line_def p Let_def dest: f
        split: if_splits option.splits)
  have w: "raw_line key val rest r = Some r' \<Longrightarrow> raw_rest (rd_raw_code r') = raw_rest (rd_raw_code r)" for key val rest r r'
    by (auto simp: raw_line_def raw_rest_def split: if_splits option.splits dest: f [unfolded raw_rest_def])
  have o: "other_line dyn key val rest r = Some r' \<Longrightarrow> raw_rest (rd_raw_code r') = raw_rest (rd_raw_code r)" for key val rest r r'
    by (cases "rd_mode r") (auto simp: other_line_def code_line_def p dest: w)
  have l: "read_line dyn l r = LStep (Some r') \<Longrightarrow> raw_rest (rd_raw_code r') = raw_rest (rd_raw_code r)" for l r r'
    by (auto simp: read_line_def Let_def split: if_splits list.splits dest: b e o)
  have "rd_raw_code (after_include c r) = rd_raw_code r" for c r by (simp add: after_include_def)
  then have "read_lines fs globf sub dyn name ls q t = Some (Inr r, t') \<Longrightarrow>
      raw_rest (rd_raw_code r) = raw_rest (rd_raw_code q)" for q
    by (induction ls arbitrary: q t) (fastforce split: if_splits option.splits line_kind.splits dest: l)+
  from this [OF assms] show ?thesis by (simp add: reader_start_def)
qed

text \<open>The loop of \<open>read_config_recursive\<close> over the lines of a text, where \<open>k\<close> levels of includes are left.\<close>

definition read_part :: "(string \<Rightarrow> string option) \<Rightarrow> (string \<Rightarrow> string list) \<Rightarrow> bool \<Rightarrow> nat
    \<Rightarrow> string \<Rightarrow> string \<Rightarrow> sbuf \<Rightarrow> ((unit + reader) \<times> sbuf) option" where
  "read_part fs globf dyn k name text t =
     read_lines fs globf (case k of 0 \<Rightarrow> None | Suc j \<Rightarrow> Some (read_config_recursive fs globf dyn j)) dyn name
       (fgets_all (LINE_LEN - 1) text) reader_start t"

lemma read_file_part: "read_config_recursive fs globf dyn k name text t = finish_file (read_part fs globf dyn k name text t)"
  by (cases k) (simp_all add: read_part_def)

text \<open>C12. A file is read remote by remote. When the text is cut between two remotes, after which the reader has
  read the first part without an error and is outside of a remote, the result for the whole file is determined by
  reading the two parts each by itself: the remotes of the first part, then those of the second part, all of them
  repaired; an error or a crash of the second part is one of the file. Nothing of one remote gets into the next,
  whatever the remotes, raw codes and includes are, as long as the files found for includes can be opened.\<close>

theorem file_is_read_in_parts:
  assumes "globs_open fs globf" "text1 = [] \<or> last text1 = newline"
    "read_part fs globf dyn k name text1 t = Some (Inr r1, t1)" "rd_mode r1 = ID_none"
  shows "read_config_recursive fs globf dyn k name (text1 @ text2) t =
    (case read_part fs globf dyn k name text2 t1 of
       None \<Rightarrow> None
     | Some (Inl _, t2) \<Rightarrow> Some (Inl (), t2)
     | Some (Inr r2, t2) \<Rightarrow>
         (if rd_mode r2 \<noteq> ID_none then Some (Inl (), t2)
          else map_option (\<lambda>(rs, t3). (Inr rs, t3)) (fixup_remotes (rd_top r1 @ rd_top r2) t2)))"
proof -
  let ?sub = "case k of 0 \<Rightarrow> None | Suc j \<Rightarrow> Some (read_config_recursive fs globf dyn j)"
  let ?ls = "fgets_all (LINE_LEN - 1) text2"
  have p: "fgets_all (LINE_LEN - 1) (text1 @ text2) = fgets_all (LINE_LEN - 1) text1 @ ?ls"
    by (rule fgets_all_parts [OF _ assms(2)]) simp
  have w: "read_part fs globf dyn k name (text1 @ text2) t = read_lines fs globf ?sub dyn name ?ls r1 t1"
    using assms(3) unfolding read_part_def p read_lines_parts by simp
  have "resumes (rd_top r1) r1 reader_start"
    using assms(4) raw_rest_read [OF assms(3) [unfolded read_part_def]] by (simp add: resumes_def reader_start_def)
  note s = resumes_lines [OF assms(1) this, of ?sub dyn name ?ls t1, folded read_part_def w]
  have m: "rd_mode r = rd_mode q \<and> rd_top r = rd_top r1 @ rd_top q" if "resumes (rd_top r1) r q" for r q
    using that by (simp add: resumes_def)
  show ?thesis unfolding read_file_part
    using s m by (auto simp: finish_file_def split: option.splits sum.splits)
qed

theorem file_is_read_in_parts_witness:
  "\<exists>rs t'. read_config_recursive (\<lambda>_. None) (\<lambda>_. []) False 0 ''lircd.conf''
      (concat sample_lines @ concat sample_lines) sample_tx = Some (Inr rs, t')
    \<and> map rname rs = [Some ''tv'', Some ''tv'']"
proof -
  obtain r rm where r: "read_part (\<lambda>_. None) (\<lambda>_. []) False 0 ''lircd.conf'' (concat sample_lines) sample_tx = Some (Inr r, sample_tx)"
    "rd_mode r = ID_none" "rd_top r = [rm]" "rname rm = Some ''tv''" "codes rm \<noteq> None"
    using sample_run [of "\<lambda>_. None" "\<lambda>_. []" None "''lircd.conf''" sample_tx] by (auto simp: read_part_def sample_fgets)
  have g: "globs_open (\<lambda>_. None) (\<lambda>_. [])" by (simp add: globs_open_def)
  have l: "concat sample_lines = [] \<or> last (concat sample_lines) = newline" by code_simp
  obtain rs t' where f: "fixup_remotes [rm, rm] sample_tx = Some (rs, t')"
    using fixup_remotes_some [of "[rm, rm]" sample_tx] r(5) by force
  then have "map rname rs = [Some ''tv'', Some ''tv'']"
    using fixup_remotes_result [OF f] r(4) by (auto simp: list_all2_Cons1)
  then show ?thesis using file_is_read_in_parts [OF g l r(1,2), of "concat sample_lines"] r f by auto
qed

text \<open>C14. Every remote of a configuration that was read has a name and a list of codes, however
  deep the includes are nested.\<close>

theorem configured_remotes_complete:
  assumes "read_config fs globf dyn name contents t = Some (rs, t')"
  shows "\<forall>r \<in> set rs. rname r \<noteq> None \<and> codes r \<noteq> None"
proof -
  obtain res where res: "read_config_recursive fs globf dyn (MAX_INCLUDES + 1) name contents t = Some (res, t')"
    and rs: "rs = sort_by_bit_count res"
    using assms by (auto simp: read_config_def)
  show ?thesis
  proof (cases res)
    case (Inl u)
    then show ?thesis using rs by (simp add: sort_by_bit_count_def)
  next
    case (Inr qs)
    have "list_all (\<lambda>r. named r \<and> codes r \<noteq> None) qs"
      using good_read [of fs globf dyn "MAX_INCLUDES + 1" name contents t] res Inr by (simp add: good_file_def)
    moreover have "set rs = set qs" using sort_set [of qs rs] rs Inr by (metis set_mset_mset)
    ultimately show ?thesis by (simp add: list_all_iff named_def)
  qed
qed

theorem configured_remotes_complete_witness:
  "\<exists>rs t'. read_config (\<lambda>_. None) (\<lambda>_. []) False ''lircd.conf'' (concat sample_lines) sample_tx = Some (rs, t')
    \<and> length rs = 1 \<and> (\<forall>r \<in> set rs. rname r \<noteq> None \<and> codes r \<noteq> None)"
proof -
  obtain rs t' where r: "read_config (\<lambda>_. None) (\<lambda>_. []) False ''lircd.conf'' (concat sample_lines) sample_tx
      = Some (rs, t')" "length rs = 1"
    using sample_read [of "\<lambda>_. None" "\<lambda>_. []" "MAX_INCLUDES + 1" "''lircd.conf''" sample_tx]
    by (auto simp: read_config_def sort_by_bit_count_def)
  from configured_remotes_complete [OF r(1)] r show ?thesis by blast
qed

text \<open>An include whose file cannot be opened is not an error, but it loses every remote read
  before it: the reader goes on with an empty list.\<close>

theorem missing_include_drops_remotes:
  assumes "read_line dyn l r = LInclude val" "length l < LINE_LEN"
    "globf (lirc_parse_relative 256 (butlast (tl val)) name) = [p]" "length p \<le> 253" "fs p = None"
  shows "\<exists>r'. read_lines fs globf (Some rd) dyn name (l # ls) r t = read_lines fs globf (Some rd) dyn name ls r' t
    \<and> rd_top r' = [] \<and> rd_mode r' = rd_mode r"
proof -
  have q: "take 255 (''\"'' @ p @ ''\"'') = ''\"'' @ p @ ''\"''" using assms(4) by simp
  have i: "read_included fs (Some rd) (''\"'' @ p @ ''\"'') (c, t) = Some (c\<lparr>in_top := [], in_dropped := True\<rparr>, t)"
    for c unfolding read_included_def parse_quoted by (simp add: assms(5))
  have "read_all_included fs globf (Some rd) name val (rd_top r) t
      = Some (\<lparr>in_top = [], in_dropped = True, in_error = False\<rparr>, t)"
    unfolding read_all_included_def assms(3) read_paths.simps q i by simp
  then have "read_lines fs globf (Some rd) dyn name (l # ls) r t = read_lines fs globf (Some rd) dyn name ls
      (after_include \<lparr>in_top = [], in_dropped = True, in_error = False\<rparr> r) t"
    using assms(1,2) by simp
  moreover have "rd_top (after_include \<lparr>in_top = [], in_dropped = True, in_error = False\<rparr> r) = []"
    "rd_mode (after_include \<lparr>in_top = [], in_dropped = True, in_error = False\<rparr> r) = rd_mode r"
    by (simp_all add: after_include_def)
  ultimately show ?thesis by blast
qed

theorem missing_include_drops_remotes_witness:
  "\<exists>r'. read_lines (\<lambda>_. None) (\<lambda>p. [p]) (Some (\<lambda>_ _ _. None)) False ''lircd.conf''
      [''include \"x.conf\"'' @ [newline]] (reader_start\<lparr>rd_top := [sample_remote]\<rparr>) sample_tx
    = read_lines (\<lambda>_. None) (\<lambda>p. [p]) (Some (\<lambda>_ _ _. None)) False ''lircd.conf'' [] r' sample_tx
    \<and> rd_top r' = []"
proof -
  let ?l = "''include \"x.conf\"'' @ [newline]"
  have "strtok_all is_ws (chop_eol ?l) = [''include'', ''\"x.conf\"'']" "hd (chop_eol ?l) \<noteq> CHR ''#''"
    by code_simp+
  then have l: "read_line False ?l r = LInclude ''\"x.conf\"''" for r by (simp add: read_line_def Let_def)
  have "lirc_parse_relative 256 (butlast (tl ''\"x.conf\"'')) ''lircd.conf'' = ''./x.conf''" by code_simp
  then show ?thesis
    using missing_include_drops_remotes [where globf = "\<lambda>p. [p]" and p = "''./x.conf''" and fs = "\<lambda>_. None", OF l]
    by fastforce
qed

section \<open>Checks and flags\<close>

lemma fixup_remote_None:
  assumes "codes r = None"
  shows "fixup_remote r t = None"
proof (cases "kick_reverse r")
  case None
  then show ?thesis by (simp add: fixup_remote_def)
next
  case (Some r1)
  then have "codes (fix_min_code_repeat (fix_serial (fix_toggle_bit r1))) = None"
    using kick_reverse_frame [OF Some] assms by (simp only: fix_frame)
  then show ?thesis using Some calculate_signal_lengths_None by (simp add: fixup_remote_def)
qed

text \<open>The repairs after reading dereference a NULL pointer exactly when a remote has no list
  of codes, which the checks let through for remotes with the \<open>RAW_CODES\<close> flag; otherwise they
  return.\<close>

theorem repairs_crash_without_codes: "fixup_remotes rs t = None \<longleftrightarrow> (\<exists>r \<in> set rs. codes r = None)"
proof
  assume "fixup_remotes rs t = None"
  then show "\<exists>r \<in> set rs. codes r = None" using fixup_remotes_some [of rs t] by fastforce
next
  assume "\<exists>r \<in> set rs. codes r = None"
  then show "fixup_remotes rs t = None"
  proof (induction rs arbitrary: t)
    case Nil
    then show ?case by simp
  next
    case (Cons r rs)
    show ?case
    proof (cases "codes r = None")
      case True
      then have "fixup_remote r t = None" by (rule fixup_remote_None)
      then show ?thesis by simp
    next
      case False
      then have "\<exists>r \<in> set rs. codes r = None" using Cons.prems by auto
      then show ?thesis using Cons.IH by (auto split: option.split)
    qed
  qed
qed

text \<open>A remote that passes the checks has a name and, unless it has raw codes, codes; its
  pre and post data, its codes and the further codes of its buttons fit their widths.\<close>

theorem checked_remote_fits:
  assumes "sanityChecks rm = Some rm'" "\<not> is_raw rm"
  shows "rname rm' \<noteq> None \<and> pre_data rm' AND gen_mask (pre_data_bits rm') = pre_data rm'
    \<and> post_data rm' AND gen_mask (post_data_bits rm') = post_data rm'
    \<and> (\<exists>cs. codes rm' = Some cs \<and> (\<forall>nc \<in> set cs. \<forall>c \<in> set (code nc # nexts nc).
        c AND gen_mask (bits rm') = c))"
  using assms by (auto simp: sanityChecks_def Let_def and.assoc split: option.splits if_splits)

theorem checked_remote_fits_witness:
  "\<exists>rm'. sanityChecks (sample_remote\<lparr>pre_data := 0xEE\<rparr>) = Some rm' \<and> pre_data rm' = 14
    \<and> pre_data rm' AND gen_mask (pre_data_bits rm') = pre_data rm'"
proof -
  let ?rm = "sample_remote\<lparr>pre_data := 0xEE\<rparr>"
  have r: "\<not> is_raw ?rm" "rname ?rm = Some ''tv''" "codes ?rm \<noteq> None"
    by (simp_all add: is_raw_def sample_remote_def zero_remote_def)
  obtain rm' where s: "sanityChecks ?rm = Some rm'" "pre_data rm' = 0xEE AND gen_mask (pre_data_bits ?rm)"
    using r by (auto simp: sanityChecks_def Let_def)
  have "0xEE AND gen_mask (pre_data_bits ?rm) = (14 :: ir_code)"
    by (simp add: sample_remote_def gen_mask_eq_mask mask_eq_exp_minus_1)
  then show ?thesis using checked_remote_fits [OF s(1) r(1)] s by simp
qed

text \<open>A list of flags that parses names at most one protocol.\<close>

theorem flags_name_one_protocol:
  assumes "parseFlags val = Some fl"
  shows "fl AND IR_PROTOCOL_MASK \<in> {0, RAW_CODES, RC5, RC6, RCMM, SPACE_ENC, SPACE_FIRST, GRUNDIG, BO, SERIAL, XMP}"
  using parse_flag_list_protocol [OF assms [unfolded parseFlags_def]] by (auto simp: protocols_def)

theorem flags_name_one_protocol_witness:
  "parseFlags ''space_enc|CONST_LENGTH'' = Some 0x4010 \<and> (0x4010 :: int) AND IR_PROTOCOL_MASK = SPACE_ENC"
proof -
  have p: "parseFlags ''space_enc|CONST_LENGTH'' = Some 0x4010" by code_simp
  from flags_name_one_protocol [OF p] p show ?thesis by simp
qed

section \<open>The order of the remotes\<close>

text \<open>C28. Without manual sorting the remotes are put in the order of their number of bits, those
  with raw codes behind by their number of codes, and remotes that compare equal keep their
  order; no remote is lost or doubled. With \<open>manual_sort\<close> in any remote the order is kept.\<close>

theorem remotes_are_sorted:
  "let out = sort_by_bit_count (Inr rs)
   in mset out = mset rs
     \<and> (if \<exists>r \<in> set rs. manual_sort r \<noteq> 0 then out = rs
        else sorted_wrt (\<lambda>a b. remote_bits_cmp a b \<le> 0) out
          \<and> (\<forall>k q. filter (\<lambda>r. is_raw r = q \<and> sort_size r = k) out
                   = filter (\<lambda>r. is_raw r = q \<and> sort_size r = k) rs))"
proof -
  have s: "filter (\<lambda>r. is_raw r = q \<and> sort_size r = k) (fold insert_remote rs [])
      = filter (\<lambda>r. is_raw r = q \<and> sort_size r = k) rs" for k q
    using by_bits.fold_stable [of "\<lambda>r. is_raw r = q \<and> sort_size r = k" "[]" rs]
    by (auto simp: remote_bits_cmp_le)
  have f: "\<not> (\<exists>r \<in> set rs. manual_sort r \<noteq> 0) \<Longrightarrow> sort_by_bit_count (Inr rs) = fold insert_remote rs []"
    by (simp add: sort_by_bit_count_def list_ex_iff)
  have m: "mset (sort_by_bit_count (Inr rs)) = mset rs" using sort_set by blast
  show ?thesis
    using m s f sort_set [OF refl, of rs] by (cases "\<exists>r \<in> set rs. manual_sort r \<noteq> 0") (auto simp: list_all_iff)
qed

text \<open>The lines the reader gets from a file are the file cut into pieces, and none of them
  is long enough for the test for lines that do not fit the buffer, which is never true.\<close>

theorem line_too_long_never_found:
  "concat (fgets_all (LINE_LEN - 1) contents) = contents
    \<and> list_all (\<lambda>l. length l \<noteq> LINE_LEN) (fgets_all (LINE_LEN - 1) contents)"
proof -
  have "length l \<noteq> LINE_LEN" if "l \<in> set (fgets_all (LINE_LEN - 1) contents)" for l
    using fgets_all_lengths [OF that] by simp
  then show ?thesis by (simp add: concat_fgets_all list_all_iff)
qed

text \<open>Numbers are not checked for their size: a value of a 32 bit field is the number in the
  file modulo 2 to the power of 32, so 4294967297 is read as 1 without an error.\<close>

theorem large_number_wraps:
  "s_strtou32 (''0x'' @ fmt_hex w n) = (if n < 2 ^ 64 then Some (int n mod 2 ^ 32) else Some (2 ^ 32 - 1))"
proof -
  have "u32 (2 ^ 64 - 1) = 2 ^ 32 - 1" by (simp add: u32_def take_bit_eq_mod)
  then show ?thesis by (simp add: s_strtou32_def hex_reads u32_def take_bit_eq_mod del: append_Cons)
qed

end
