(* ===== verification/Dump_Config.thy ===== *)
theory Dump_Config
  imports Decode_All Config_Define "HOL-Library.Signed_Division"
begin

text \<open>
  \<open>lib/dump_config.c\<close>: writing remotes in the format of \<open>lircd.conf\<close>. A function that prints
  to a file is the text it prints. Of \<open>fprint_comment\<close> the parts that come from outside (the
  version, the name of the driver, the time, the command line and the kernel) are arguments.
\<close>

section \<open>Formats\<close>

fun to_dec :: "nat \<Rightarrow> string" where
  "to_dec n = (if n < 10 then [char_of (48 + n)] else to_dec (n div 10) @ [char_of (48 + n mod 10)])"

declare to_dec.simps [simp del]

definition pad_left :: "nat \<Rightarrow> string \<Rightarrow> string" where
  "pad_left w s = replicate (w - length s) (CHR '' '') @ s"

definition pad_right :: "nat \<Rightarrow> string \<Rightarrow> string" where
  "pad_right w s = s @ replicate (w - length s) (CHR '' '')"

text \<open>\<open>%wd\<close> of an \<open>int\<close>, and \<open>%wu\<close> of a \<open>uint32_t\<close>.\<close>

definition fmt_d :: "nat \<Rightarrow> int \<Rightarrow> string" where
  "fmt_d w x = pad_left w (if x < 0 then CHR ''-'' # to_dec (nat (- x)) else to_dec (nat x))"

definition fmt_u :: "nat \<Rightarrow> int \<Rightarrow> string" where
  "fmt_u w x = pad_left w (to_dec (nat (u32 x)))"

text \<open>\<open>%llX\<close>, and \<open>%0wllX\<close> with a width that may be negative: then \<open>-\<close> is read as a flag.\<close>

definition to_HEX :: "nat \<Rightarrow> string" where
  "to_HEX n = map toupper (to_hex n)"

definition fmt_X :: "ir_code \<Rightarrow> string" where
  "fmt_X c = ''0x'' @ to_HEX (unat c)"

definition fmt_0X :: "int \<Rightarrow> ir_code \<Rightarrow> string" where
  "fmt_0X w c = (let s = to_HEX (unat c)
     in ''0x'' @ (if w < 0 then pad_right (nat (- w)) s
                  else replicate (nat w - length s) (CHR ''0'') @ s))"

abbreviation (input) nl :: string where "nl \<equiv> [newline]"

text \<open>Text that is printed under a condition.\<close>

definition print_if :: "bool \<Rightarrow> string \<Rightarrow> string" where
  "print_if b s = (if b then s else [])"

section \<open>Comment and flags\<close>

definition fprint_comment :: "string \<Rightarrow> string \<Rightarrow> string \<Rightarrow> string \<Rightarrow> string \<Rightarrow> ir_remote \<Rightarrow> string" where
  "fprint_comment version drv time cmd krel rm = concat
     [''#'' @ nl,
      ''# This config file was automatically generated'' @ nl,
      ''# using lirc-'', version, ''('', drv, '') on '', time,
      ''# Command line used: '', cmd, nl,
      ''# Kernel version (uname -r): '', krel,
      ''#'' @ nl,
      ''# Remote name (as of config file): '', (case rname rm of Some n \<Rightarrow> n | None \<Rightarrow> ''(null)''), nl,
      ''# Brand of remote device, the thing you hold in your hand:'' @ nl,
      ''# Remote device model nr:'' @ nl,
      ''# Remote device info url:'' @ nl,
      ''# Does remote device has a bundled capture device e. g., a'' @ nl,
      ''#     usb dongle? :'' @ nl,
      ''# For bundled USB devices: usb vendor id, product id'' @ nl,
      ''#     and device string (use dmesg or lsusb):'' @ nl,
      ''# Type of device controlled'' @ nl,
      ''#     (TV, VCR, Audio, DVD, Satellite, Cable, HTPC, ...) :'' @ nl,
      ''# Device(s) controlled by this remote:'' @ nl @ nl]"

text \<open>The loop over \<open>all_flags\<close>; \<open>begin\<close> tells whether a flag has been printed.\<close>

fun print_flags :: "(string \<times> int) list \<Rightarrow> int \<Rightarrow> bool \<Rightarrow> string" where
  "print_flags [] fl begun = print_if begun nl"
| "print_flags ((n, v) # fs) fl begun =
     (if fl AND v \<noteq> 0 then (if begun then ''|'' else ''  flags '') @ n @ print_flags fs (fl AND NOT v) True
      else print_flags fs fl begun)"

definition fprint_flags :: "int \<Rightarrow> string" where
  "fprint_flags fl = print_flags all_flags fl False"

section \<open>The fields of a remote\<close>

text \<open>A key with two durations.\<close>

definition pair_line :: "string \<Rightarrow> lirc_t \<Rightarrow> lirc_t \<Rightarrow> string" where
  "pair_line key p s = key @ fmt_u 5 p @ '' '' @ fmt_u 5 s @ nl"

definition fprint_remote_gap :: "ir_remote \<Rightarrow> string" where
  "fprint_remote_gap rm =
     (if gap2 rm \<noteq> 0 then ''  gap          '' @ fmt_u 0 (gap rm) @ '' '' @ fmt_u 0 (gap2 rm) @ nl
      else ''  gap          '' @ fmt_u 0 (gap rm) @ nl)"

definition print_name :: "ir_remote \<Rightarrow> string" where
  "print_name rm = concat
     [''begin remote'' @ nl @ nl,
      ''  name  '' @ (case rname rm of Some n \<Rightarrow> n | None \<Rightarrow> ''(null)'') @ nl,
      print_if (manual_sort rm \<noteq> 0) (''  manual_sort  '' @ fmt_d 0 (manual_sort rm) @ nl),
      (case rdriver rm of Some d \<Rightarrow> ''  driver '' @ d @ nl | None \<Rightarrow> []),
      print_if (\<not> is_raw rm) (''  bits        '' @ fmt_d 5 (bits rm) @ nl),
      fprint_flags (flags rm),
      ''  eps         '' @ fmt_d 5 (eps rm) @ nl,
      ''  aeps        '' @ fmt_d 5 (i32 (aeps rm)) @ nl @ nl]"

definition print_timing :: "ir_remote \<Rightarrow> string" where
  "print_timing rm = concat
     [print_if (\<not> is_raw rm) (concat
        [print_if (has_header rm) (pair_line ''  header      '' (phead rm) (shead rm)),
         print_if (pthree rm \<noteq> 0 \<or> sthree rm \<noteq> 0) (pair_line ''  three       '' (pthree rm) (sthree rm)),
         print_if (ptwo rm \<noteq> 0 \<or> stwo rm \<noteq> 0) (pair_line ''  two         '' (ptwo rm) (stwo rm)),
         pair_line ''  one         '' (pone rm) (sone rm),
         pair_line ''  zero        '' (pzero rm) (szero rm)]),
      print_if (ptrail rm \<noteq> 0) (''  ptrail      '' @ fmt_u 5 (ptrail rm) @ nl),
      print_if (\<not> is_raw rm) (concat
        [print_if (plead rm \<noteq> 0) (''  plead       '' @ fmt_u 5 (plead rm) @ nl),
         print_if (has_foot rm) (pair_line ''  foot        '' (pfoot rm) (sfoot rm))]),
      print_if (has_repeat rm) (pair_line ''  repeat      '' (prepeat rm) (srepeat rm))]"

definition print_data :: "ir_remote \<Rightarrow> string" where
  "print_data rm = print_if (\<not> is_raw rm) (concat
     [print_if (pre_data_bits rm > 0)
        (''  pre_data_bits   '' @ fmt_d 0 (pre_data_bits rm) @ nl @ ''  pre_data       '' @ fmt_X (pre_data rm) @ nl),
      print_if (post_data_bits rm > 0)
        (''  post_data_bits  '' @ fmt_d 0 (post_data_bits rm) @ nl @ ''  post_data      '' @ fmt_X (post_data rm) @ nl),
      print_if (pre_p rm \<noteq> 0 \<and> pre_s rm \<noteq> 0) (pair_line ''  pre         '' (pre_p rm) (pre_s rm)),
      print_if (post_p rm \<noteq> 0 \<and> post_s rm \<noteq> 0) (pair_line ''  post        '' (post_p rm) (post_s rm))])"

definition print_repeats :: "ir_remote \<Rightarrow> string" where
  "print_repeats rm = concat
     [fprint_remote_gap rm,
      print_if (has_repeat_gap rm) (''  repeat_gap   '' @ fmt_u 0 (repeat_gap rm) @ nl),
      print_if (suppress_repeat rm > 0) (''  suppress_repeat '' @ fmt_d 0 (suppress_repeat rm) @ nl),
      print_if (min_repeat rm > 0) (concat
        [''  min_repeat      '' @ fmt_d 0 (min_repeat rm) @ nl,
         print_if (suppress_repeat rm = 0)
           (''#  suppress_repeat '' @ fmt_d 0 (min_repeat rm) @ nl
            @ ''#  uncomment to suppress unwanted repeats'' @ nl)])]"

definition print_masks :: "ir_remote \<Rightarrow> string" where
  "print_masks rm = print_if (\<not> is_raw rm) (concat
     [print_if (min_code_repeat rm > 0) (''  min_code_repeat '' @ fmt_d 0 (i32 (min_code_repeat rm)) @ nl),
      ''  toggle_bit_mask '' @ fmt_X (toggle_bit_mask rm) @ nl,
      print_if (has_toggle_mask rm) (''  toggle_mask    '' @ fmt_X (toggle_mask rm) @ nl),
      print_if (repeat_mask rm \<noteq> 0) (''  repeat_mask    '' @ fmt_X (repeat_mask rm) @ nl),
      print_if (rc6_mask rm \<noteq> 0) (''  rc6_mask    '' @ fmt_X (rc6_mask rm) @ nl),
      print_if (has_ignore_mask rm) (''  ignore_mask '' @ fmt_X (ignore_mask rm) @ nl),
      print_if (is_serial rm) (concat
        [''  baud            '' @ fmt_d 0 (i32 (baud rm)) @ nl,
         ''  serial_mode     '' @ fmt_d 0 (i32 (bits_in_byte rm)) @ ''N'' @ fmt_d 0 (i32 (stop_bits rm div 2))
           @ print_if (stop_bits rm mod 2 \<noteq> 0) ''.5'' @ nl])])"

definition print_carrier :: "ir_remote \<Rightarrow> string" where
  "print_carrier rm = concat
     [print_if (freq rm \<noteq> 0) (''  frequency    '' @ fmt_u 0 (freq rm) @ nl),
      print_if (duty_cycle rm \<noteq> 0) (''  duty_cycle   '' @ fmt_u 0 (duty_cycle rm) @ nl),
      nl]"

definition fprint_remote_head :: "ir_remote \<Rightarrow> string" where
  "fprint_remote_head rm = print_name rm @ print_timing rm @ print_data rm @ print_repeats rm
     @ print_masks rm @ print_carrier rm"

definition fprint_remote_foot :: "ir_remote \<Rightarrow> string" where
  "fprint_remote_foot rm = ''end remote'' @ nl"

section \<open>Codes\<close>

definition fprint_remote_signal_head :: "ir_remote \<Rightarrow> string" where
  "fprint_remote_signal_head rm =
     (if \<not> is_raw rm then ''      begin codes'' @ nl else ''      begin raw_codes'' @ nl @ nl)"

definition fprint_remote_signal_foot :: "ir_remote \<Rightarrow> string" where
  "fprint_remote_signal_foot rm =
     (if \<not> is_raw rm then ''      end codes'' @ nl @ nl else ''      end raw_codes'' @ nl @ nl)"

text \<open>The loop over the durations of a raw code, six in a line; \<open>j\<close> counts those of the line.\<close>

fun print_durations :: "nat \<Rightarrow> lirc_t list \<Rightarrow> string" where
  "print_durations j [] = (if j = 0 then nl else nl @ nl)"
| "print_durations j (x # xs) =
     (if j = 0 then ''          '' @ fmt_u 7 x @ print_durations 1 xs
      else if j < 5 then '' '' @ fmt_u 7 x @ print_durations (j + 1) xs
      else '' '' @ fmt_u 7 x @ nl @ print_durations 0 xs)"

text \<open>The number of hexadecimal digits of a code; the division of C truncates.\<close>

definition code_digits :: "ir_remote \<Rightarrow> int" where
  "code_digits rm = i32 (bits rm + 3) sdiv 4"

definition fprint_remote_signal :: "ir_remote \<Rightarrow> ir_ncode \<Rightarrow> string" where
  "fprint_remote_signal rm nc =
     (if \<not> is_raw rm then
        ''          '' @ pad_right 24 (nname nc) @ '' '' @ fmt_0X (code_digits rm) (code nc)
        @ concat (map (\<lambda>c. '' '' @ fmt_0X (code_digits rm) c) (nexts nc)) @ nl
      else
        ''          name '' @ nname nc @ nl
        @ print_durations 0 (take (nlength nc) (case signals nc of Some sg \<Rightarrow> sg | None \<Rightarrow> [])))"

text \<open>\<open>None\<close>: the pointer \<open>codes\<close> is NULL and is dereferenced.\<close>

definition fprint_remote_signals :: "ir_remote \<Rightarrow> string option" where
  "fprint_remote_signals rm = map_option (\<lambda>cs. fprint_remote_signal_head rm
     @ concat (map (fprint_remote_signal rm) cs) @ fprint_remote_signal_foot rm) (codes rm)"

section \<open>Whole files\<close>

definition fprint_remote :: "(ir_remote \<Rightarrow> string) \<Rightarrow> ir_remote \<Rightarrow> string option" where
  "fprint_remote comment rm = map_option (\<lambda>s. comment rm @ fprint_remote_head rm @ s @ fprint_remote_foot rm)
     (fprint_remote_signals rm)"

fun fprint_remotes :: "(ir_remote \<Rightarrow> string) \<Rightarrow> ir_remote list \<Rightarrow> string option" where
  "fprint_remotes comment [] = Some []"
| "fprint_remotes comment (rm # rms) = (case fprint_remote comment rm of
     None \<Rightarrow> None
   | Some s \<Rightarrow> map_option (\<lambda>s'. s @ nl @ nl @ s') (fprint_remotes comment rms))"

end
