(* ===== verification/Dump_Lines.thy ===== *)
theory Dump_Lines
  imports Dump_Config Sample_Config Code_Facts
begin

text \<open>
  Reading what was written: the numbers \<open>lib/dump_config.c\<close> prints are read back, a line of a
  key and its values is one step of the reader, and the text of a remote takes the reader
  through the sections of that remote.
\<close>

section \<open>Numbers\<close>

lemma dec_digit: "n < 10 \<Longrightarrow> digit_val (char_of (48 + n)) = Some n \<and> is_digit_of 10 (char_of (48 + n))"
proof -
  have "list_all (\<lambda>k. digit_val (char_of (48 + k)) = Some k \<and> is_digit_of 10 (char_of (48 + k))) [0..<10]"
    by code_simp
  then show "n < 10 \<Longrightarrow> ?thesis" by (auto simp: list_all_iff)
qed

lemma to_dec_digits: "list_all (is_digit_of 10) (to_dec n)"
proof (induction n rule: to_dec.induct)
  case (1 n)
  then show ?case using dec_digit [of n] dec_digit [of "n mod 10"] by (subst to_dec.simps) simp
qed

lemma read_to_dec: "read_digits 10 0 (to_dec n) = (n, [])"
proof (induction n rule: to_dec.induct)
  case (1 n)
  show ?case
  proof (cases "n < 10")
    case True
    then show ?thesis using dec_digit [of n] by (subst to_dec.simps) simp
  next
    case False
    with 1 have "read_digits 10 0 (to_dec (n div 10)) = (n div 10, [])" by blast
    then show ?thesis using False dec_digit [of "n mod 10"]
      by (subst to_dec.simps) (simp add: read_digits_append [OF to_dec_digits])
  qed
qed

text \<open>A number does not begin with the digit 0 unless it is 0.\<close>

lemma to_dec_head: "0 < n \<Longrightarrow> \<exists>c cs. to_dec n = c # cs \<and> c \<noteq> CHR ''0'' \<and> is_digit_of 10 c"
proof (induction n rule: to_dec.induct)
  case (1 n)
  show ?case
  proof (cases "n < 10")
    case True
    have "CHR ''0'' = char_of (48 + n)" if "char_of (48 + n) = CHR ''0''" using that by simp
    moreover have "digit_val (CHR ''0'') = Some 0" by (simp add: digit_val_def)
    ultimately have "char_of (48 + n) \<noteq> CHR ''0''" using dec_digit [OF True] "1.prems" by force
    then show ?thesis using True dec_digit [OF True] by (subst to_dec.simps) simp
  next
    case False
    then have "0 < n div 10" by (simp add: div_greater_zero_iff)
    then obtain c cs where "to_dec (n div 10) = c # cs" "c \<noteq> CHR ''0''" "is_digit_of 10 c"
      using "1.IH" [OF False] by blast
    then show ?thesis using False by (subst to_dec.simps) simp
  qed
qed

lemma to_dec_0: "to_dec 0 = ''0''"
  by code_simp

lemma read_magnitude_dec: "read_magnitude (to_dec n) = Some (n, [])"
proof (cases "n = 0")
  case True
  then show ?thesis by (simp add: to_dec_0 read_magnitude_def is_digit_of_def digit_val_def)
next
  case False
  then obtain c cs where "to_dec n = c # cs" "c \<noteq> CHR ''0''" "is_digit_of 10 c" using to_dec_head by blast
  then show ?thesis using read_to_dec [of n] by (simp add: read_magnitude_def)
qed

text \<open>A digit is neither a blank nor a sign.\<close>

lemma digit_plain: "is_digit_of b c \<Longrightarrow> \<not> isspace c \<and> c \<noteq> CHR ''-'' \<and> c \<noteq> CHR ''+''"
  by (auto simp: is_digit_of_def digit_val_def isspace_def Let_def split: if_splits)

lemma to_dec_nonempty [simp]: "to_dec n \<noteq> []"
  by (subst to_dec.simps) simp

lemma read_integer_dec:
  "read_integer (to_dec n) = Some (False, n, [])" "read_integer (CHR ''-'' # to_dec n) = Some (True, n, [])"
proof -
  obtain c cs where c: "to_dec n = c # cs" by (cases "to_dec n") auto
  then have d: "is_digit_of 10 c" using to_dec_digits [of n] by simp
  show "read_integer (to_dec n) = Some (False, n, [])"
    using c digit_plain [OF d] read_magnitude_dec [of n] by (simp add: read_integer_def)
  show "read_integer (CHR ''-'' # to_dec n) = Some (True, n, [])"
    using read_magnitude_dec [of n] by (simp add: read_integer_def isspace_def)
qed

text \<open>The digits of a number without the padding.\<close>

definition num_d :: "int \<Rightarrow> string" where
  "num_d x = (if x < 0 then CHR ''-'' # to_dec (nat (- x)) else to_dec (nat x))"

definition num_u :: "int \<Rightarrow> string" where
  "num_u x = to_dec (nat (u32 x))"

lemma fmt_num: "fmt_d w x = pad_left w (num_d x)" "fmt_u w x = pad_left w (num_u x)"
  by (simp_all add: fmt_d_def fmt_u_def num_d_def num_u_def)

lemma num_nonempty [simp]: "num_d x \<noteq> []" "num_u x \<noteq> []"
  by (simp_all add: num_d_def num_u_def)

lemma i32_u32 [simp]: "i32 (u32 x) = i32 x"
  by (simp add: i32_def u32_def signed_take_bit_take_bit)

lemma u32_i32 [simp]: "u32 (i32 x) = u32 x"
  by (simp add: i32_def u32_def take_bit_signed_take_bit)

lemma strtoul_num_u: "strtoul (num_u x) = (u32 x, [], False)"
  using u32_range [of x] by (simp add: strtoul_def num_u_def read_integer_dec u64_id le_nat_iff)

lemma strtol_num_d:
  assumes "- 2147483648 \<le> x" "x < 4294967296"
  shows "strtol (num_d x) = (x, [], False)"
  using assms by (auto simp: strtol_def num_d_def read_integer_dec)

text \<open>Hexadecimal numbers, with capital digits.\<close>

lemma HEX_digit: "is_digit_of 16 c \<Longrightarrow> c \<in> set (to_hex n) \<Longrightarrow> digit_val (toupper c) = digit_val c"
proof -
  define ds where "ds = ''0123456789abcdef''"
  have l: "length ds = 16" by (simp add: ds_def)
  have "map digit_val (map toupper ds) = map digit_val ds" unfolding ds_def by code_simp
  then have "map digit_val (map toupper ds) ! i = map digit_val ds ! i" for i by (simp only:)
  then have "digit_val (toupper (ds ! i)) = digit_val (ds ! i)" if "i < 16" for i
    using that l by (metis length_map nth_map)
  then have h: "digit_val (toupper (hex_digit m)) = digit_val (hex_digit m)" for m
    unfolding hex_digit_def ds_def [symmetric] by simp
  show "c \<in> set (to_hex n) \<Longrightarrow> ?thesis"
  proof (induction n rule: to_hex.induct)
    case (1 n)
    then show ?case using h by (auto simp: to_hex.simps [of n] split: if_splits)
  qed
qed

lemma read_toupper:
  "\<forall>c \<in> set s. is_digit_of 16 c \<and> digit_val (toupper c) = digit_val c \<Longrightarrow>
    read_digits 16 a (map toupper s) = read_digits 16 a s \<and> list_all (is_digit_of 16) (map toupper s)"
  by (induction s arbitrary: a) (simp_all add: is_digit_of_def)

lemma read_to_HEX: "read_digits 16 0 (to_HEX n) = (n, [])" "list_all (is_digit_of 16) (to_HEX n)" "to_HEX n \<noteq> []"
proof -
  have "\<forall>c \<in> set (to_hex n). is_digit_of 16 c \<and> digit_val (toupper c) = digit_val c"
    using to_hex_digits [of n] HEX_digit by (auto simp: list_all_iff)
  from read_toupper [OF this, of 0] show "read_digits 16 0 (to_HEX n) = (n, [])" "list_all (is_digit_of 16) (to_HEX n)"
    by (simp_all add: to_HEX_def read_to_hex)
  show "to_HEX n \<noteq> []" by (simp add: to_HEX_def) (subst to_hex.simps, simp)
qed

lemma strtoul_hex_digits:
  assumes "read_digits 16 0 s = (n, [])" "list_all (is_digit_of 16) s" "s \<noteq> []" "n < 2 ^ 64"
  shows "strtoul (''0x'' @ s) = (int n, [], False)"
proof -
  obtain h r where h: "s = h # r" "is_digit_of 16 h" using assms(2,3) by (cases s) auto
  have "read_magnitude (''0x'' @ s) = Some (n, [])" using h assms(1) by (simp add: read_magnitude_def)
  then have "read_integer (''0x'' @ s) = Some (False, n, [])" by (simp add: read_integer_def isspace_def)
  then show ?thesis using assms(4) by (simp add: strtoul_def u64_id)
qed

lemma unat_64: "unat (c :: ir_code) < 2 ^ 64"
  using unsigned_less [of c] by simp

definition num_0X :: "int \<Rightarrow> ir_code \<Rightarrow> string" where
  "num_0X w c = ''0x'' @ replicate (nat w - length (to_HEX (unat c))) (CHR ''0'') @ to_HEX (unat c)"

lemma fmt_num_X: "fmt_X c = num_0X 0 c" "0 \<le> w \<Longrightarrow> fmt_0X w c = num_0X w c"
  by (simp_all add: fmt_X_def fmt_0X_def num_0X_def Let_def)

lemma code_num_X: "s_strtocode (num_0X w c) = Some c"
proof -
  let ?s = "replicate (nat w - length (to_HEX (unat c))) (CHR ''0'') @ to_HEX (unat c)"
  have z: "is_digit_of 16 (CHR ''0'')" by (simp add: is_digit_of_def digit_val_def)
  have d: "list_all (is_digit_of 16) ?s" unfolding list_all_append
    using list_all_replicate [of "is_digit_of 16", OF z] read_to_HEX(2) by blast
  have r: "read_digits 16 0 ?s = (unat c, [])" by (simp only: read_zeros read_to_HEX(1))
  have "?s \<noteq> []" using read_to_HEX(3) by simp
  then have "strtoul (''0x'' @ ?s) = (int (unat c), [], False)" by (rule strtoul_hex_digits [OF r d _ unat_64])
  then show ?thesis unfolding s_strtocode_def num_0X_def by simp
qed

section \<open>The value parsers\<close>

definition is_int :: "int \<Rightarrow> bool" where
  "is_int x \<longleftrightarrow> - 2147483648 \<le> x \<and> x < 2147483648"

definition is_unsigned :: "int \<Rightarrow> bool" where
  "is_unsigned x \<longleftrightarrow> 0 \<le> x \<and> x < 4294967296"

lemma u32_u32 [simp]: "u32 (u32 x) = u32 x"
  by (simp add: u32_def)

lemma parse_num_u:
  "s_strtou32 (num_u x) = Some (u32 x)" "s_strtoui (num_u x) = Some (u32 x)" "s_strtolirc_t (num_u x) = Some (i32 x)"
  by (simp_all add: s_strtou32_def s_strtoui_def s_strtolirc_t_def strtoul_num_u)

lemma parse_num_d: "is_int x \<Longrightarrow> s_strtoi (num_d x) = Some x"
  by (simp add: s_strtoi_def strtol_num_d is_int_def i32_id)

lemma strtoul_num_d: "is_int x \<Longrightarrow> strtoul (num_d x) = (u64 x, [], False)"
  by (auto simp: strtoul_def num_d_def read_integer_dec is_int_def le_nat_iff)

lemma u32_u64 [simp]: "u32 (u64 x) = u32 x"
  by (simp add: u32_def u64_def)

lemma parse_num_d_u: "is_int x \<Longrightarrow> s_strtoui (num_d x) = Some (u32 x)"
  by (simp add: s_strtoui_def strtoul_num_d)

section \<open>Lines\<close>

definition plain_char :: "char \<Rightarrow> bool" where
  "plain_char c \<longleftrightarrow> c \<noteq> newline \<and> c \<noteq> carriage_return"

definition word :: "string \<Rightarrow> bool" where
  "word w \<longleftrightarrow> w \<noteq> [] \<and> list_all (\<lambda>c. \<not> is_ws c \<and> plain_char c) w"

definition text_line :: "string \<Rightarrow> bool" where
  "text_line s \<longleftrightarrow> list_all plain_char s \<and> length s < 4095"

lemma blank_char: "is_ws (CHR '' '')" "plain_char (CHR '' '')"
  by code_simp+

lemma digit_char: "is_digit_of b c \<Longrightarrow> \<not> is_ws c \<and> plain_char c"
  by (auto simp: is_digit_of_def digit_val_def is_ws_def plain_char_def Let_def split: if_splits)

lemma sign_char: "\<not> is_ws (CHR ''-'') \<and> plain_char (CHR ''-'')" "\<not> is_ws (CHR ''x'') \<and> plain_char (CHR ''x'')"
    "\<not> is_ws (CHR ''0'') \<and> plain_char (CHR ''0'')"
  by code_simp+

lemma word_digits: "list_all (is_digit_of b) s \<Longrightarrow> list_all (\<lambda>c. \<not> is_ws c \<and> plain_char c) s"
  using digit_char by (auto simp: list_all_iff)

lemma word_num [simp]: "word (num_u x)" "word (num_d x)" "word (num_0X w c)"
proof -
  show "word (num_u x)" "word (num_d x)"
    using word_digits [OF to_dec_digits] sign_char by (auto simp: word_def num_u_def num_d_def)
  have "list_all (\<lambda>c. \<not> is_ws c \<and> plain_char c) (replicate k (CHR ''0''))" for k
    by (rule list_all_replicate) (rule sign_char(3))
  then show "word (num_0X w c)"
    using word_digits [OF read_to_HEX(2)] sign_char by (simp add: word_def num_0X_def)
qed

lemma word_plain: "word w \<Longrightarrow> list_all plain_char w"
  by (auto simp: word_def list_all_iff)

lemma chop_line: "list_all plain_char s \<Longrightarrow> chop_eol (s @ [newline]) = s"
proof -
  assume s: "list_all plain_char s"
  have "s ! (length s - 1) \<noteq> carriage_return" if "s \<noteq> []"
    using s that by (auto simp: list_all_length plain_char_def)
  then show ?thesis by (cases "s = []") (auto simp: chop_eol_def nth_append Let_def)
qed

lemma fgets_line: "list_all plain_char s \<Longrightarrow> length s < n \<Longrightarrow> fgets n (s @ newline # f) = (s @ [newline], f)"
proof (induction s arbitrary: n)
  case Nil
  then show ?case by (cases n) simp_all
next
  case (Cons c s)
  then show ?case by (cases n) (simp_all add: plain_char_def)
qed

lemma fgets_all_lines:
  "list_all text_line ls \<Longrightarrow> fgets_all 4095 (concat (map (\<lambda>l. l @ [newline]) ls)) = map (\<lambda>l. l @ [newline]) ls"
proof (induction ls)
  case Nil
  then show ?case by (simp add: fgets_all.simps)
next
  case (Cons l ls)
  then show ?case
    by (subst fgets_all.simps) (simp add: text_line_def fgets_line)
qed

text \<open>Tokens.\<close>

lemma tokens_split: "a \<noteq> [] \<Longrightarrow> d (last a) \<Longrightarrow> tokens_acc d cur (a @ b) = tokens_acc d cur a @ tokens_acc d [] b"
proof (induction a arbitrary: cur)
  case Nil
  then show ?case by simp
next
  case (Cons c a)
  show ?case
  proof (cases "a = []")
    case True
    then show ?thesis using Cons.prems by simp
  next
    case False
    then show ?thesis using Cons by simp
  qed
qed

lemma tokens_blanks: "tokens_acc is_ws [] (replicate k (CHR '' '') @ s) = tokens_acc is_ws [] s"
  by (induction k) (simp_all add: blank_char)

lemma tokens_word_end: "word w \<Longrightarrow> tokens_acc is_ws [] w = [w]"
  using tokens_last [of is_ws w "[]"] by (auto simp: word_def list_all_iff)

lemma tokens_word_blank: "word w \<Longrightarrow> tokens_acc is_ws [] (w @ CHR '' '' # s) = w # tokens_acc is_ws [] s"
  using tokens_word [of is_ws w "CHR '' ''" "[]" s] by (auto simp: word_def list_all_iff blank_char)

text \<open>The text before the value of a field.\<close>

definition key_lead :: "string \<Rightarrow> string \<Rightarrow> bool" where
  "key_lead lead key \<longleftrightarrow> lead \<noteq> [] \<and> is_ws (last lead) \<and> strtok_all is_ws lead = [key] \<and> hd lead \<noteq> CHR ''#''
     \<and> list_all plain_char lead \<and> length lead < 100
     \<and> \<not> strcaseeq ''include'' key \<and> \<not> strcaseeq ''begin'' key \<and> \<not> strcaseeq ''end'' key"

lemma read_field:
  assumes "key_lead lead key" "word v"
  shows "read_line dyn (lead @ pad_left w v @ [newline]) r = LStep (other_line dyn key v [] r)"
    and "word v' \<Longrightarrow> read_line dyn (lead @ pad_left w v @ '' '' @ pad_left w' v' @ [newline]) r
      = LStep (other_line dyn key v [v'] r)"
proof -
  have k: "strtok_all is_ws lead = [key]" "lead \<noteq> []" "is_ws (last lead)" "hd lead \<noteq> CHR ''#''"
    "list_all plain_char lead" "\<not> strcaseeq ''include'' key" "\<not> strcaseeq ''begin'' key" "\<not> strcaseeq ''end'' key"
    using assms(1) by (auto simp: key_lead_def)
  have p: "list_all plain_char (pad_left n u)" if "word u" for n u
    using list_all_replicate [of plain_char, OF blank_char(2)] word_plain [OF that] by (simp add: pad_left_def)
  have "strtok_all is_ws (lead @ pad_left w v) = key # [v]"
    using k(1) tokens_split [of lead is_ws "[]", OF k(2,3)] tokens_word_end [OF assms(2)]
    by (simp add: strtok_all_def pad_left_def tokens_blanks)
  moreover have "chop_eol (lead @ pad_left w v @ [newline]) = lead @ pad_left w v"
    using chop_line [of "lead @ pad_left w v"] k(5) p [OF assms(2)] by simp
  ultimately show "read_line dyn (lead @ pad_left w v @ [newline]) r = LStep (other_line dyn key v [] r)"
    using k read_line_tokens [of "lead @ pad_left w v @ [newline]" key v "[]"] by simp
  assume v': "word v'"
  have "strtok_all is_ws (lead @ pad_left w v @ '' '' @ pad_left w' v') = key # v # [v']"
    using k(1) tokens_split [of lead is_ws "[]", OF k(2,3)] tokens_word_end [OF v'] tokens_word_blank [OF assms(2)]
    by (simp add: strtok_all_def pad_left_def tokens_blanks)
  moreover have "chop_eol (lead @ pad_left w v @ '' '' @ pad_left w' v' @ [newline]) = lead @ pad_left w v @ '' '' @ pad_left w' v'"
    using chop_line [of "lead @ pad_left w v @ '' '' @ pad_left w' v'"] k(5) p [OF assms(2)] p [OF v'] blank_char by simp
  ultimately show "read_line dyn (lead @ pad_left w v @ '' '' @ pad_left w' v' @ [newline]) r
      = LStep (other_line dyn key v [v'] r)"
    using k read_line_tokens [of "lead @ pad_left w v @ '' '' @ pad_left w' v' @ [newline]" key v "[v']"] by simp
qed

section \<open>Text that takes the reader from one state to another\<close>

definition reads :: "string \<Rightarrow> reader \<Rightarrow> reader \<Rightarrow> bool" where
  "reads txt r r' \<longleftrightarrow> (\<exists>ls. txt = concat (map (\<lambda>l. l @ [newline]) ls) \<and> list_all text_line ls
     \<and> (\<forall>fs globf sub name rest t. read_lines fs globf sub False name (map (\<lambda>l. l @ [newline]) ls @ rest) r t
         = read_lines fs globf sub False name rest r' t))"

lemma reads_Nil [simp]: "reads [] r r"
  unfolding reads_def by (rule exI [of _ "[]"]) simp

lemma reads_append:
  assumes "reads a r r1" "reads b r1 r'"
  shows "reads (a @ b) r r'"
proof -
  obtain ls ls' where l: "a = concat (map (\<lambda>l. l @ [newline]) ls)" "list_all text_line ls"
      "\<forall>fs globf sub name rest t. read_lines fs globf sub False name (map (\<lambda>l. l @ [newline]) ls @ rest) r t
         = read_lines fs globf sub False name rest r1 t"
    and l': "b = concat (map (\<lambda>l. l @ [newline]) ls')" "list_all text_line ls'"
      "\<forall>fs globf sub name rest t. read_lines fs globf sub False name (map (\<lambda>l. l @ [newline]) ls' @ rest) r1 t
         = read_lines fs globf sub False name rest r' t"
    using assms unfolding reads_def by blast
  show ?thesis unfolding reads_def
    by (rule exI [of _ "ls @ ls'"]) (simp add: l(1,2) l'(1,2), simp add: l(3) l'(3))
qed

lemma reads_if: "(b \<Longrightarrow> reads s r r') \<Longrightarrow> reads (print_if b s) r (if b then r' else r)"
  by (simp add: print_if_def)

lemma reads_line:
  assumes "text_line l" "read_line False (l @ [newline]) r = LStep (Some r')"
  shows "reads (l @ [newline]) r r'"
  unfolding reads_def
  by (rule exI [of _ "[l]"]) (use assms in \<open>simp add: text_line_def\<close>)

lemma reads_blank: "reads [newline] r r"
proof -
  have "strtok_all is_ws (chop_eol [newline]) = []" by code_simp
  moreover have "chop_eol [newline] = []" by code_simp
  ultimately have "read_line False ([] @ [newline]) r = LStep (Some r)" by (simp add: read_line_def)
  then show ?thesis using reads_line [of "[]"] by (simp add: text_line_def)
qed

lemma reads_comment:
  assumes "text_line l" "l \<noteq> []" "hd l = CHR ''#''"
  shows "reads (l @ [newline]) r r"
proof -
  have "chop_eol (l @ [newline]) = l" using assms(1) by (simp add: chop_line text_line_def)
  then have "read_line False (l @ [newline]) r = LStep (Some r)" using assms(2,3) by (simp add: read_line_def)
  then show ?thesis using assms(1) by (rule reads_line [rotated])
qed

text \<open>The reader with the remote \<open>rm\<close> open behind the remotes \<open>tops\<close>.\<close>

definition opened :: "ir_remote list \<Rightarrow> ir_remote \<Rightarrow> reader \<Rightarrow> reader" where
  "opened tops rm x = x\<lparr>rd_mode := ID_remote, rd_top := tops @ [rm], rd_rem := RIn (length tops)\<rparr>"

lemma opened_simps [simp]:
  "cur_rem (opened tops rm x) = rm" "put_rem rm' (opened tops rm x) = opened tops rm' x"
  "rd_mode (opened tops rm x) = ID_remote"
  by (simp_all add: opened_def cur_rem_def put_rem_def)

lemma opened_line:
  "other_line False key v rest (opened tops rm x)
    = map_option (\<lambda>(rm, a). opened tops rm x) (defineRemote False key v (case rest of [] \<Rightarrow> None | w # _ \<Rightarrow> Some w) rm)"
  by (simp add: other_line_def)

text \<open>Words of bounded length, so that the lines fit.\<close>

definition short_word :: "string \<Rightarrow> bool" where
  "short_word w \<longleftrightarrow> word w \<and> length w < 1000"

lemma pad_plain: "word v \<Longrightarrow> list_all plain_char (pad_left w v)"
  using list_all_replicate [of plain_char, OF blank_char(2)] word_plain by (simp add: pad_left_def)

lemma pad_length: "length (pad_left w v) = max w (length v)"
  by (simp add: pad_left_def)

lemma reads_field:
  assumes "key_lead lead key" "short_word v" "w < 1000"
    and "defineRemote False key v None rm = Some (rm', a)"
  shows "reads (lead @ pad_left w v @ [newline]) (opened tops rm x) (opened tops rm' x)"
proof -
  have v: "word v" "length v < 1000" using assms(2) by (simp_all add: short_word_def)
  have t: "text_line (lead @ pad_left w v)"
    using assms(1,3) v pad_plain [OF v(1)] by (auto simp: text_line_def key_lead_def pad_length max_def)
  have "read_line False ((lead @ pad_left w v) @ [newline]) (opened tops rm x) = LStep (Some (opened tops rm' x))"
    using read_field(1) [OF assms(1) v(1)] assms(4) by (simp add: opened_line)
  from reads_line [OF t this] show ?thesis by simp
qed

lemma reads_field2:
  assumes "key_lead lead key" "short_word v" "short_word v'" "w < 1000" "w' < 1000"
    and "defineRemote False key v (Some v') rm = Some (rm', a)"
  shows "reads (lead @ pad_left w v @ '' '' @ pad_left w' v' @ [newline]) (opened tops rm x) (opened tops rm' x)"
proof -
  have v: "word v" "length v < 1000" "word v'" "length v' < 1000" using assms(2,3) by (simp_all add: short_word_def)
  have t: "text_line (lead @ pad_left w v @ '' '' @ pad_left w' v')"
    using assms(1,4,5) v pad_plain [OF v(1)] pad_plain [OF v(3)] blank_char
    by (auto simp: text_line_def key_lead_def pad_length max_def)
  have "read_line False ((lead @ pad_left w v @ '' '' @ pad_left w' v') @ [newline]) (opened tops rm x)
      = LStep (Some (opened tops rm' x))"
    using read_field(2) [OF assms(1) v(1,3)] assms(6) by (simp add: opened_line)
  from reads_line [OF t this] show ?thesis by simp
qed

section \<open>The keys\<close>

text \<open>The text that begins a line and its key.\<close>

definition leads :: "(string \<times> string) list" where
  "leads =
    [(''  name  '', ''name''), (''  manual_sort  '', ''manual_sort''), (''  driver '', ''driver''),
     (''  bits        '', ''bits''), (''  flags '', ''flags''), (''  eps         '', ''eps''),
     (''  aeps        '', ''aeps''), (''  header      '', ''header''), (''  three       '', ''three''),
     (''  two         '', ''two''), (''  one         '', ''one''), (''  zero        '', ''zero''),
     (''  ptrail      '', ''ptrail''), (''  plead       '', ''plead''), (''  foot        '', ''foot''),
     (''  repeat      '', ''repeat''), (''  pre_data_bits   '', ''pre_data_bits''), (''  pre_data       '', ''pre_data''),
     (''  post_data_bits  '', ''post_data_bits''), (''  post_data      '', ''post_data''), (''  pre         '', ''pre''),
     (''  post        '', ''post''), (''  gap          '', ''gap''), (''  repeat_gap   '', ''repeat_gap''),
     (''  suppress_repeat '', ''suppress_repeat''), (''  min_repeat      '', ''min_repeat''), (''  min_code_repeat '', ''min_code_repeat''),
     (''  toggle_bit_mask '', ''toggle_bit_mask''), (''  toggle_mask    '', ''toggle_mask''), (''  repeat_mask    '', ''repeat_mask''),
     (''  rc6_mask    '', ''rc6_mask''), (''  ignore_mask '', ''ignore_mask''), (''  baud            '', ''baud''),
     (''  serial_mode     '', ''serial_mode''), (''  frequency    '', ''frequency''), (''  duty_cycle   '', ''duty_cycle'')]"

lemma char_literals: "char_of (9::nat) = CHR 0x09" "newline = CHR 0x0A" "carriage_return = CHR 0x0D"
  by code_simp+

lemma leads_ok: "list_all (\<lambda>(l, k). key_lead l k) leads"
  by (simp add: leads_def key_lead_def strtok_all_def is_ws_def plain_char_def char_literals
      strcaseeq_def tolower_def del: char_of_eq_iff)

lemma key_lead_table: "(l, k) \<in> set leads \<Longrightarrow> key_lead l k"
  using leads_ok by (auto simp: list_all_iff)

lemma define_key:
  "defineRemote False ''name'' v w rm = Some (rm\<lparr>rname := Some v\<rparr>, 1)"
  "defineRemote False ''manual_sort'' v w rm = store (s_strtoi v) (\<lambda>n. rm\<lparr>manual_sort := n\<rparr>) 1"
  "defineRemote False ''driver'' v w rm = Some (rm\<lparr>rdriver := Some v\<rparr>, 1)"
  "defineRemote False ''bits'' v w rm = store (s_strtoi v) (\<lambda>n. rm\<lparr>bits := n\<rparr>) 1"
  "defineRemote False ''flags'' v w rm = store (parseFlags v) (\<lambda>n. rm\<lparr>flags := flags rm OR n\<rparr>) 1"
  "defineRemote False ''eps'' v w rm = store (s_strtoi v) (\<lambda>n. rm\<lparr>eps := n\<rparr>) 1"
  "defineRemote False ''aeps'' v w rm = store (s_strtoi v) (\<lambda>n. rm\<lparr>aeps := u32 n\<rparr>) 1"
  "defineRemote False ''header'' v (Some v') rm = store2 (s_strtolirc_t v) (s_strtolirc_t v') (\<lambda>p q. rm\<lparr>phead := p, shead := q\<rparr>)"
  "defineRemote False ''three'' v (Some v') rm = store2 (s_strtolirc_t v) (s_strtolirc_t v') (\<lambda>p q. rm\<lparr>pthree := p, sthree := q\<rparr>)"
  "defineRemote False ''two'' v (Some v') rm = store2 (s_strtolirc_t v) (s_strtolirc_t v') (\<lambda>p q. rm\<lparr>ptwo := p, stwo := q\<rparr>)"
  "defineRemote False ''one'' v (Some v') rm = store2 (s_strtolirc_t v) (s_strtolirc_t v') (\<lambda>p q. rm\<lparr>pone := p, sone := q\<rparr>)"
  "defineRemote False ''zero'' v (Some v') rm = store2 (s_strtolirc_t v) (s_strtolirc_t v') (\<lambda>p q. rm\<lparr>pzero := p, szero := q\<rparr>)"
  "defineRemote False ''ptrail'' v w rm = store (s_strtolirc_t v) (\<lambda>n. rm\<lparr>ptrail := n\<rparr>) 1"
  "defineRemote False ''plead'' v w rm = store (s_strtolirc_t v) (\<lambda>n. rm\<lparr>plead := n\<rparr>) 1"
  "defineRemote False ''foot'' v (Some v') rm = store2 (s_strtolirc_t v) (s_strtolirc_t v') (\<lambda>p q. rm\<lparr>pfoot := p, sfoot := q\<rparr>)"
  "defineRemote False ''repeat'' v (Some v') rm = store2 (s_strtolirc_t v) (s_strtolirc_t v') (\<lambda>p q. rm\<lparr>prepeat := p, srepeat := q\<rparr>)"
  "defineRemote False ''pre_data_bits'' v w rm = store (s_strtoi v) (\<lambda>n. rm\<lparr>pre_data_bits := n\<rparr>) 1"
  "defineRemote False ''pre_data'' v w rm = store (s_strtocode v) (\<lambda>n. rm\<lparr>pre_data := n\<rparr>) 1"
  "defineRemote False ''post_data_bits'' v w rm = store (s_strtoi v) (\<lambda>n. rm\<lparr>post_data_bits := n\<rparr>) 1"
  "defineRemote False ''post_data'' v w rm = store (s_strtocode v) (\<lambda>n. rm\<lparr>post_data := n\<rparr>) 1"
  "defineRemote False ''pre'' v (Some v') rm = store2 (s_strtolirc_t v) (s_strtolirc_t v') (\<lambda>p q. rm\<lparr>pre_p := p, pre_s := q\<rparr>)"
  "defineRemote False ''post'' v (Some v') rm = store2 (s_strtolirc_t v) (s_strtolirc_t v') (\<lambda>p q. rm\<lparr>post_p := p, post_s := q\<rparr>)"
  "defineRemote False ''gap'' v None rm = store (s_strtou32 v) (\<lambda>n. rm\<lparr>gap := n\<rparr>) 1"
  "defineRemote False ''gap'' v (Some v') rm = store2 (s_strtou32 v) (s_strtou32 v') (\<lambda>n m. rm\<lparr>gap2 := m, gap := n\<rparr>)"
  "defineRemote False ''repeat_gap'' v w rm = store (s_strtou32 v) (\<lambda>n. rm\<lparr>repeat_gap := n\<rparr>) 1"
  "defineRemote False ''suppress_repeat'' v w rm = store (s_strtoi v) (\<lambda>n. rm\<lparr>suppress_repeat := n\<rparr>) 1"
  "defineRemote False ''min_repeat'' v w rm = store (s_strtoi v) (\<lambda>n. rm\<lparr>min_repeat := n\<rparr>) 1"
  "defineRemote False ''min_code_repeat'' v w rm = store (s_strtoi v) (\<lambda>n. rm\<lparr>min_code_repeat := u32 n\<rparr>) 1"
  "defineRemote False ''toggle_bit_mask'' v w rm = store (s_strtocode v) (\<lambda>n. rm\<lparr>toggle_bit_mask := n\<rparr>) 1"
  "defineRemote False ''toggle_mask'' v w rm = store (s_strtocode v) (\<lambda>n. rm\<lparr>toggle_mask := n\<rparr>) 1"
  "defineRemote False ''repeat_mask'' v w rm = store (s_strtocode v) (\<lambda>n. rm\<lparr>repeat_mask := n\<rparr>) 1"
  "defineRemote False ''rc6_mask'' v w rm = store (s_strtocode v) (\<lambda>n. rm\<lparr>rc6_mask := n\<rparr>) 1"
  "defineRemote False ''ignore_mask'' v w rm = store (s_strtocode v) (\<lambda>n. rm\<lparr>ignore_mask := n\<rparr>) 1"
  "defineRemote False ''baud'' v w rm = store (s_strtoui v) (\<lambda>n. rm\<lparr>baud := n\<rparr>) 1"
  "defineRemote False ''serial_mode'' v w rm = define_serial_mode v rm"
  "defineRemote False ''frequency'' v w rm = store (s_strtoui v) (\<lambda>n. rm\<lparr>freq := n\<rparr>) 1"
  "defineRemote False ''duty_cycle'' v w rm = store (s_strtoui v) (\<lambda>n. rm\<lparr>duty_cycle := n\<rparr>) 1"
  by (simp_all add: defineRemote_def define_pair_def strcaseeq_def tolower_def)

end
