(* ===== verification/Dump_Facts.thy ===== *)
theory Dump_Facts
  imports Dump_Lines
begin

text \<open>
  Reading what \<open>lib/dump_config.c\<close> has written: every group of fields of a remote is read back
  as an update of the open remote, then the codes, then the whole remote and the whole file.
\<close>

section \<open>Updates of the open remote\<close>

definition sets :: "string \<Rightarrow> (ir_remote \<Rightarrow> ir_remote) \<Rightarrow> bool" where
  "sets s f \<longleftrightarrow> (\<forall>tops q x. reads s (opened tops q x) (opened tops (f q) x))"

definition on :: "bool \<Rightarrow> (ir_remote \<Rightarrow> ir_remote) \<Rightarrow> ir_remote \<Rightarrow> ir_remote" where
  "on b f = (if b then f else (\<lambda>q. q))"

definition in_turn :: "(ir_remote \<Rightarrow> ir_remote) list \<Rightarrow> ir_remote \<Rightarrow> ir_remote" where
  "in_turn fs = fold (\<lambda>f. f) fs"

lemma sets_append: "sets a f \<Longrightarrow> sets b g \<Longrightarrow> sets (a @ b) (\<lambda>q. g (f q))"
  unfolding sets_def using reads_append by blast

lemma sets_concat: "list_all2 sets ss fs \<Longrightarrow> sets (concat ss) (in_turn fs)"
proof (induction ss arbitrary: fs)
  case Nil
  then show ?case by (simp add: sets_def in_turn_def)
next
  case (Cons s ss)
  then obtain f gs where "fs = f # gs" "sets s f" "list_all2 sets ss gs" by (auto simp: list_all2_Cons1)
  then show ?case using sets_append [of s f "concat ss" "in_turn gs"] Cons.IH
    by (simp add: in_turn_def)
qed

lemma sets_if: "(b \<Longrightarrow> sets s f) \<Longrightarrow> sets (print_if b s) (on b f)"
  by (simp add: sets_def print_if_def on_def)

lemma sets_blank: "sets [newline] (\<lambda>q. q)"
  by (simp add: sets_def reads_blank)

lemma to_dec_length: "0 < w \<Longrightarrow> n < 10 ^ w \<Longrightarrow> length (to_dec n) \<le> w"
proof (induction w arbitrary: n)
  case 0
  then show ?case by simp
next
  case (Suc w)
  show ?case
  proof (cases "n < 10")
    case True
    then show ?thesis by (subst to_dec.simps) simp
  next
    case False
    have "n div 10 < 10 ^ w" using Suc.prems(2) by (simp add: less_mult_imp_div_less mult.commute)
    moreover have "0 < w" using False Suc.prems(2) by (cases w) auto
    ultimately have "length (to_dec (n div 10)) \<le> w" by (rule Suc.IH [rotated])
    then show ?thesis using False by (subst to_dec.simps) simp
  qed
qed

lemma short_num_u [simp]: "short_word (num_u x)"
proof -
  have "nat (u32 x) < 10 ^ 10" using u32_range [of x] by (simp add: nat_less_iff)
  then show ?thesis using to_dec_length [of 10 "nat (u32 x)"] by (simp add: short_word_def) (simp add: num_u_def)
qed

lemma short_num_d [simp]: "is_int x \<Longrightarrow> short_word (num_d x)"
proof -
  assume x: "is_int x"
  have "nat x < 10 ^ 10" "nat (- x) < 10 ^ 10" using x by (auto simp: is_int_def nat_less_iff)
  then show ?thesis using to_dec_length [of 10 "nat x"] to_dec_length [of 10 "nat (- x)"]
    by (auto simp: short_word_def num_d_def word_num(2) [unfolded num_d_def, simplified])
qed

lemma to_HEX_length: "length (to_HEX (unat (c :: ir_code))) \<le> 16"
proof -
  have "unat c < 16 ^ 16" using unat_64 [of c] by simp
  then show ?thesis using to_hex_length [of 16 "unat c"] by (simp add: to_HEX_def)
qed

lemma short_num_X [simp]: "w \<le> 16 \<Longrightarrow> short_word (num_0X w c)"
  using to_HEX_length [of c] by (simp add: short_word_def) (simp add: num_0X_def)

text \<open>A line with one value and with two.\<close>

lemma sets_value:
  assumes "(lead, key) \<in> set leads" "short_word v" "w < 1000"
    and "\<And>q. defineRemote False key v None q = Some (f q, a)"
  shows "sets (lead @ pad_left w v @ [newline]) f"
  unfolding sets_def using reads_field [OF key_lead_table [OF assms(1)] assms(2,3,4)] by blast

lemma sets_values:
  assumes "(lead, key) \<in> set leads" "short_word v" "short_word v'" "w < 1000" "w' < 1000"
    and "\<And>q. defineRemote False key v (Some v') q = Some (f q, a)"
  shows "sets (lead @ pad_left w v @ '' '' @ pad_left w' v' @ [newline]) f"
  unfolding sets_def using reads_field2 [OF key_lead_table [OF assms(1)] assms(2-6)] by blast

lemmas i32_unsigned = is_unsigned_def u32_id

lemma is_int_i32 [simp]: "is_int (i32 x)"
  using i32_range [of x] by (simp add: is_int_def)

lemma sets_pair:
  assumes "(lead, key) \<in> set leads" "is_int p" "is_int s"
    and "\<And>q v v'. defineRemote False key v (Some v') q
      = store2 (s_strtolirc_t v) (s_strtolirc_t v') (\<lambda>a b. f a b q)"
  shows "sets (pair_line lead p s) (f p s)"
proof -
  have i: "i32 p = p" "i32 s = s" using assms(2,3) by (simp_all add: is_int_def i32_id)
  show ?thesis unfolding pair_line_def fmt_num
    by (rule sets_values [OF assms(1)]) (simp_all add: assms(4) parse_num_u i store2_def)
qed

lemma sets_u:
  assumes "(lead, key) \<in> set leads" "is_int n" "w < 1000"
    and "\<And>q v. defineRemote False key v None q = store (s_strtolirc_t v) (\<lambda>a. f a q) 1"
  shows "sets (lead @ fmt_u w n @ [newline]) (f n)"
proof -
  have i: "i32 n = n" using assms(2) by (simp add: is_int_def i32_id)
  show ?thesis unfolding fmt_num
    by (rule sets_value [OF assms(1)]) (simp_all add: assms(3,4) parse_num_u i store_def)
qed

lemma sets_u32:
  assumes "(lead, key) \<in> set leads" "is_unsigned n" "w < 1000"
    and "(\<forall>q v. defineRemote False key v None q = store (s_strtou32 v) (\<lambda>a. f a q) 1)
      \<or> (\<forall>q v. defineRemote False key v None q = store (s_strtoui v) (\<lambda>a. f a q) 1)"
  shows "sets (lead @ fmt_u w n @ [newline]) (f n)"
proof -
  have i: "u32 n = n" using assms(2) by (simp add: i32_unsigned)
  have "defineRemote False key (num_u n) None q = Some (f n q, 1)" for q
    using assms(4) by (auto simp: parse_num_u i store_def)
  then show ?thesis unfolding fmt_num
    by (intro sets_value [OF assms(1)]) (simp_all add: assms(3))
qed

lemma sets_d:
  assumes "(lead, key) \<in> set leads" "is_int n" "w < 1000"
    and "\<And>q v. defineRemote False key v None q = store (s_strtoi v) (\<lambda>a. f a q) 1"
  shows "sets (lead @ fmt_d w n @ [newline]) (f n)"
  unfolding fmt_num
  by (rule sets_value [OF assms(1)]) (simp_all add: assms(2-4) parse_num_d store_def)

lemma sets_ui:
  assumes "(lead, key) \<in> set leads" "is_unsigned n" "w < 1000"
    and "\<And>q v. defineRemote False key v None q = store (s_strtoui v) (\<lambda>a. f a q) 1"
  shows "sets (lead @ fmt_d w (i32 n) @ [newline]) (f n)"
proof -
  have i: "u32 n = n" using assms(2) by (simp add: i32_unsigned)
  show ?thesis unfolding fmt_num
    by (rule sets_value [OF assms(1)]) (simp_all add: assms(3,4) parse_num_d_u i store_def)
qed

lemma sets_d_unsigned:
  assumes "(lead, key) \<in> set leads" "is_unsigned n" "w < 1000"
    and "\<And>q v. defineRemote False key v None q = store (s_strtoi v) (\<lambda>a. f (u32 a) q) 1"
  shows "sets (lead @ fmt_d w (i32 n) @ [newline]) (f n)"
proof -
  have i: "u32 n = n" using assms(2) by (simp add: i32_unsigned)
  show ?thesis unfolding fmt_num
    by (rule sets_value [OF assms(1)]) (simp_all add: assms(3,4) parse_num_d i store_def)
qed

lemma sets_X:
  assumes "(lead, key) \<in> set leads"
    and "\<And>q v. defineRemote False key v None q = store (s_strtocode v) (\<lambda>a. f a q) 1"
  shows "sets (lead @ fmt_X c @ [newline]) (f c)"
proof -
  have "sets (lead @ pad_left 0 (num_0X 0 c) @ [newline]) (f c)"
    by (rule sets_value [OF assms(1)]) (simp_all add: assms(2) code_num_X store_def)
  then show ?thesis by (simp add: fmt_num_X pad_left_def)
qed

lemma sets_word:
  assumes "(lead, key) \<in> set leads" "short_word v"
    and "\<And>q. defineRemote False key v None q = Some (f q, a)"
  shows "sets (lead @ v @ [newline]) f"
  using sets_value [where w = 0, OF assms(1,2) _ assms(3)] by (simp add: pad_left_def)

section \<open>Timing\<close>

definition dump_timing :: "ir_remote \<Rightarrow> bool" where
  "dump_timing rm \<longleftrightarrow> list_all is_int [phead rm, shead rm, pthree rm, sthree rm, ptwo rm, stwo rm, pone rm,
       sone rm, pzero rm, szero rm, ptrail rm, plead rm, pfoot rm, sfoot rm, prepeat rm, srepeat rm]"

definition timing_of :: "ir_remote \<Rightarrow> ir_remote \<Rightarrow> ir_remote" where
  "timing_of rm = in_turn
     [on (\<not> is_raw rm) (in_turn
        [on (has_header rm) (\<lambda>q. q\<lparr>phead := phead rm, shead := shead rm\<rparr>),
         on (pthree rm \<noteq> 0 \<or> sthree rm \<noteq> 0) (\<lambda>q. q\<lparr>pthree := pthree rm, sthree := sthree rm\<rparr>),
         on (ptwo rm \<noteq> 0 \<or> stwo rm \<noteq> 0) (\<lambda>q. q\<lparr>ptwo := ptwo rm, stwo := stwo rm\<rparr>),
         \<lambda>q. q\<lparr>pone := pone rm, sone := sone rm\<rparr>,
         \<lambda>q. q\<lparr>pzero := pzero rm, szero := szero rm\<rparr>]),
      on (ptrail rm \<noteq> 0) (\<lambda>q. q\<lparr>ptrail := ptrail rm\<rparr>),
      on (\<not> is_raw rm) (in_turn
        [on (plead rm \<noteq> 0) (\<lambda>q. q\<lparr>plead := plead rm\<rparr>),
         on (has_foot rm) (\<lambda>q. q\<lparr>pfoot := pfoot rm, sfoot := sfoot rm\<rparr>)]),
      on (has_repeat rm) (\<lambda>q. q\<lparr>prepeat := prepeat rm, srepeat := srepeat rm\<rparr>)]"

lemma sets_timing:
  assumes "dump_timing rm"
  shows "sets (print_timing rm) (timing_of rm)"
proof -
  note i = assms [unfolded dump_timing_def, simplified]
  have l0:
    "sets (pair_line ''  header      '' (phead rm) (shead rm)) (\<lambda>q. q\<lparr>phead := phead rm, shead := shead rm\<rparr>)"
    by (rule sets_pair [where f = "\<lambda>a b q. q\<lparr>phead := a, shead := b\<rparr>" and key = "''header''"]; simp add: i leads_def define_key)
  have l1:
    "sets (pair_line ''  three       '' (pthree rm) (sthree rm)) (\<lambda>q. q\<lparr>pthree := pthree rm, sthree := sthree rm\<rparr>)"
    by (rule sets_pair [where f = "\<lambda>a b q. q\<lparr>pthree := a, sthree := b\<rparr>" and key = "''three''"]; simp add: i leads_def define_key)
  have l2:
    "sets (pair_line ''  two         '' (ptwo rm) (stwo rm)) (\<lambda>q. q\<lparr>ptwo := ptwo rm, stwo := stwo rm\<rparr>)"
    by (rule sets_pair [where f = "\<lambda>a b q. q\<lparr>ptwo := a, stwo := b\<rparr>" and key = "''two''"]; simp add: i leads_def define_key)
  have l3:
    "sets (pair_line ''  one         '' (pone rm) (sone rm)) (\<lambda>q. q\<lparr>pone := pone rm, sone := sone rm\<rparr>)"
    by (rule sets_pair [where f = "\<lambda>a b q. q\<lparr>pone := a, sone := b\<rparr>" and key = "''one''"]; simp add: i leads_def define_key)
  have l4:
    "sets (pair_line ''  zero        '' (pzero rm) (szero rm)) (\<lambda>q. q\<lparr>pzero := pzero rm, szero := szero rm\<rparr>)"
    by (rule sets_pair [where f = "\<lambda>a b q. q\<lparr>pzero := a, szero := b\<rparr>" and key = "''zero''"]; simp add: i leads_def define_key)
  have l5:
    "sets (pair_line ''  foot        '' (pfoot rm) (sfoot rm)) (\<lambda>q. q\<lparr>pfoot := pfoot rm, sfoot := sfoot rm\<rparr>)"
    by (rule sets_pair [where f = "\<lambda>a b q. q\<lparr>pfoot := a, sfoot := b\<rparr>" and key = "''foot''"]; simp add: i leads_def define_key)
  have l6:
    "sets (pair_line ''  repeat      '' (prepeat rm) (srepeat rm)) (\<lambda>q. q\<lparr>prepeat := prepeat rm, srepeat := srepeat rm\<rparr>)"
    by (rule sets_pair [where f = "\<lambda>a b q. q\<lparr>prepeat := a, srepeat := b\<rparr>" and key = "''repeat''"]; simp add: i leads_def define_key)
  have l7:
    "sets (''  ptrail      '' @ fmt_u 5 (ptrail rm) @ [newline]) (\<lambda>q. q\<lparr>ptrail := ptrail rm\<rparr>)"
    by (rule sets_u [where f = "\<lambda>a q. q\<lparr>ptrail := a\<rparr>" and key = "''ptrail''"]; simp add: i leads_def define_key)
  have l8:
    "sets (''  plead       '' @ fmt_u 5 (plead rm) @ [newline]) (\<lambda>q. q\<lparr>plead := plead rm\<rparr>)"
    by (rule sets_u [where f = "\<lambda>a q. q\<lparr>plead := a\<rparr>" and key = "''plead''"]; simp add: i leads_def define_key)
  show ?thesis
    unfolding print_timing_def timing_of_def
    by (intro sets_concat list_all2_Nil [THEN iffD2] list_all2_Cons [THEN iffD2] conjI sets_if l0 l1 l2 l3 l4 l5 l6 l7 l8) simp_all
qed

section \<open>Data, repeats, masks\<close>

definition dump_data :: "ir_remote \<Rightarrow> bool" where
  "dump_data rm \<longleftrightarrow> list_all is_int [pre_data_bits rm, post_data_bits rm, pre_p rm, pre_s rm, post_p rm, post_s rm]"

definition data_of :: "ir_remote \<Rightarrow> ir_remote \<Rightarrow> ir_remote" where
  "data_of rm = on (\<not> is_raw rm) (in_turn
     [on (pre_data_bits rm > 0) (\<lambda>q. q\<lparr>pre_data_bits := pre_data_bits rm, pre_data := pre_data rm\<rparr>),
      on (post_data_bits rm > 0) (\<lambda>q. q\<lparr>post_data_bits := post_data_bits rm, post_data := post_data rm\<rparr>),
      on (pre_p rm \<noteq> 0 \<and> pre_s rm \<noteq> 0) (\<lambda>q. q\<lparr>pre_p := pre_p rm, pre_s := pre_s rm\<rparr>),
      on (post_p rm \<noteq> 0 \<and> post_s rm \<noteq> 0) (\<lambda>q. q\<lparr>post_p := post_p rm, post_s := post_s rm\<rparr>)])"

lemma sets_data:
  assumes "dump_data rm"
  shows "sets (print_data rm) (data_of rm)"
proof -
  note i = assms [unfolded dump_data_def, simplified]
  have l0:
    "sets (''  pre_data_bits   '' @ fmt_d 0 (pre_data_bits rm) @ [newline]) (\<lambda>q. q\<lparr>pre_data_bits := pre_data_bits rm\<rparr>)"
    by (rule sets_d [where f = "\<lambda>a q. q\<lparr>pre_data_bits := a\<rparr>" and key = "''pre_data_bits''"]; simp add: i leads_def define_key)
  have l1:
    "sets (''  pre_data       '' @ fmt_X (pre_data rm) @ [newline]) (\<lambda>q. q\<lparr>pre_data := pre_data rm\<rparr>)"
    by (rule sets_X [where f = "\<lambda>a q. q\<lparr>pre_data := a\<rparr>" and key = "''pre_data''"]; simp add: i leads_def define_key)
  have l2:
    "sets (''  post_data_bits  '' @ fmt_d 0 (post_data_bits rm) @ [newline]) (\<lambda>q. q\<lparr>post_data_bits := post_data_bits rm\<rparr>)"
    by (rule sets_d [where f = "\<lambda>a q. q\<lparr>post_data_bits := a\<rparr>" and key = "''post_data_bits''"]; simp add: i leads_def define_key)
  have l3:
    "sets (''  post_data      '' @ fmt_X (post_data rm) @ [newline]) (\<lambda>q. q\<lparr>post_data := post_data rm\<rparr>)"
    by (rule sets_X [where f = "\<lambda>a q. q\<lparr>post_data := a\<rparr>" and key = "''post_data''"]; simp add: i leads_def define_key)
  have l4:
    "sets (pair_line ''  pre         '' (pre_p rm) (pre_s rm)) (\<lambda>q. q\<lparr>pre_p := pre_p rm, pre_s := pre_s rm\<rparr>)"
    by (rule sets_pair [where f = "\<lambda>a b q. q\<lparr>pre_p := a, pre_s := b\<rparr>" and key = "''pre''"]; simp add: i leads_def define_key)
  have l5:
    "sets (pair_line ''  post        '' (post_p rm) (post_s rm)) (\<lambda>q. q\<lparr>post_p := post_p rm, post_s := post_s rm\<rparr>)"
    by (rule sets_pair [where f = "\<lambda>a b q. q\<lparr>post_p := a, post_s := b\<rparr>" and key = "''post''"]; simp add: i leads_def define_key)
  have two: "sets (''  pre_data_bits   '' @ fmt_d 0 (pre_data_bits rm) @ [newline]
      @ ''  pre_data       '' @ fmt_X (pre_data rm) @ [newline])
      (\<lambda>q. q\<lparr>pre_data_bits := pre_data_bits rm, pre_data := pre_data rm\<rparr>)"
    "sets (''  post_data_bits  '' @ fmt_d 0 (post_data_bits rm) @ [newline]
      @ ''  post_data      '' @ fmt_X (post_data rm) @ [newline])
      (\<lambda>q. q\<lparr>post_data_bits := post_data_bits rm, post_data := post_data rm\<rparr>)"
    using sets_append [OF l0 l1] sets_append [OF l2 l3] by simp_all
  show ?thesis
    unfolding print_data_def data_of_def
    by (intro sets_concat list_all2_Nil [THEN iffD2] list_all2_Cons [THEN iffD2] conjI sets_if two l4 l5) simp_all
qed

definition dump_masks :: "ir_remote \<Rightarrow> bool" where
  "dump_masks rm \<longleftrightarrow> is_unsigned (min_code_repeat rm) \<and> is_unsigned (baud rm)
     \<and> (is_serial rm \<longrightarrow> 5 \<le> bits_in_byte rm \<and> bits_in_byte rm \<le> 9 \<and> is_unsigned (stop_bits rm)
         \<and> (even (stop_bits rm) \<or> stop_bits rm = 3))"

definition masks_of :: "ir_remote \<Rightarrow> ir_remote \<Rightarrow> ir_remote" where
  "masks_of rm = on (\<not> is_raw rm) (in_turn
     [on (min_code_repeat rm > 0) (\<lambda>q. q\<lparr>min_code_repeat := min_code_repeat rm\<rparr>),
      \<lambda>q. q\<lparr>toggle_bit_mask := toggle_bit_mask rm\<rparr>,
      on (has_toggle_mask rm) (\<lambda>q. q\<lparr>toggle_mask := toggle_mask rm\<rparr>),
      on (repeat_mask rm \<noteq> 0) (\<lambda>q. q\<lparr>repeat_mask := repeat_mask rm\<rparr>),
      on (rc6_mask rm \<noteq> 0) (\<lambda>q. q\<lparr>rc6_mask := rc6_mask rm\<rparr>),
      on (has_ignore_mask rm) (\<lambda>q. q\<lparr>ignore_mask := ignore_mask rm\<rparr>),
      on (is_serial rm) (in_turn
        [\<lambda>q. q\<lparr>baud := baud rm\<rparr>,
         \<lambda>q. q\<lparr>bits_in_byte := bits_in_byte rm, parity := IR_PARITY_NONE, stop_bits := stop_bits rm\<rparr>])])"


text \<open>The mode of a serial port: five to nine bits, no parity, stop bits in halves.\<close>

definition mode_text :: "ir_remote \<Rightarrow> string" where
  "mode_text rm = fmt_d 0 (i32 (bits_in_byte rm)) @ ''N'' @ fmt_d 0 (i32 (stop_bits rm div 2))
     @ print_if (stop_bits rm mod 2 \<noteq> 0) ''.5''"

lemma mode_reads:
  assumes "dump_masks rm" "is_serial rm"
  shows "short_word (mode_text rm) \<and> define_serial_mode (mode_text rm) q
    = Some (q\<lparr>bits_in_byte := bits_in_byte rm, parity := IR_PARITY_NONE, stop_bits := stop_bits rm\<rparr>, 1)"
proof -
  have b: "5 \<le> bits_in_byte rm" "bits_in_byte rm \<le> 9" "is_unsigned (stop_bits rm)"
    "even (stop_bits rm) \<or> stop_bits rm = 3" using assms by (auto simp: dump_masks_def)
  obtain n where n: "bits_in_byte rm = int n" "5 \<le> n" "n \<le> 9"
    using b(1,2) that [of "nat (bits_in_byte rm)"] by (simp add: nat_le_iff le_nat_iff)
  let ?h = "stop_bits rm div 2"
  have h: "is_int ?h" "i32 ?h = ?h" using b(3) by (auto simp: is_int_def is_unsigned_def i32_id)
  have bit: "num_d (int n) = [char_of (48 + n)]" "(of_char (char_of (48 + n)) :: nat) = 48 + n"
    using n by (simp_all add: num_d_def to_dec.simps [of n])
  have "i32 (int n) = int n" using n by (simp add: i32_id)
  then have m: "mode_text rm = char_of (48 + n) # CHR ''N'' # num_d ?h @ print_if (stop_bits rm mod 2 \<noteq> 0) ''.5''"
    by (simp only: mode_text_def n(1) fmt_num pad_left_def h(2) bit(1)) simp
  have N: "toupper (CHR ''N'') = CHR ''N''" "\<not> is_ws (CHR ''N'') \<and> plain_char (CHR ''N'')"
    "\<not> is_ws (CHR ''.'') \<and> plain_char (CHR ''.'')" "\<not> is_ws (CHR ''5'') \<and> plain_char (CHR ''5'')" by code_simp+
  have "list_all (\<lambda>k. \<not> is_ws (char_of (48 + k)) \<and> plain_char (char_of (48 + k))) [0..<10::nat]" by code_simp
  then have c: "\<not> is_ws (char_of (48 + n)) \<and> plain_char (char_of (48 + n))" using n(3) by (auto simp: list_all_iff)
  have hw: "word (num_d ?h)" "length (num_d ?h) < 900"
  proof -
    have "0 \<le> ?h" "nat ?h < 10 ^ 10" using b(3) by (auto simp: is_unsigned_def nat_less_iff)
    then show "length (num_d ?h) < 900" using to_dec_length [of 10 "nat ?h"] by (simp add: num_d_def)
  qed simp
  have sw: "short_word (mode_text rm)"
    using hw c N by (simp add: m short_word_def word_def print_if_def)
  have v: "\<not> (48 + n < 53) \<and> 48 + n \<le> 57" using n(2,3) by simp
  show ?thesis
  proof (cases "stop_bits rm = 3")
    case True
    have "num_d 1 = ''1''" by code_simp
    then have "mode_text rm = char_of (48 + n) # CHR ''N'' # ''1.5''" using True by (simp add: m print_if_def)
    then show ?thesis using sw v bit(2) N(1) True n(1) by (simp add: define_serial_mode_def Let_def)
  next
    case False
    then have ev: "even (stop_bits rm)" using b(4) by blast
    have nd: "num_d ?h \<noteq> ''1.5''"
    proof
      assume a: "num_d ?h = ''1.5''"
      have "0 \<le> ?h" using b(3) by (simp add: is_unsigned_def)
      then have "list_all (is_digit_of 10) (num_d ?h)" using to_dec_digits by (simp add: num_d_def)
      then show False by (simp add: a is_digit_of_def digit_val_def)
    qed
    have "s_strtoui (num_d ?h) = Some (u32 ?h)" using h(1) by (rule parse_num_d_u)
    moreover have "u32 (u32 ?h * 2) = stop_bits rm"
      using ev b(3) by (auto simp: is_unsigned_def u32_id elim!: evenE)
    moreover have "mode_text rm = char_of (48 + n) # CHR ''N'' # num_d ?h"
      using ev by (simp add: m print_if_def even_iff_mod_2_eq_zero)
    ultimately show ?thesis using sw v bit(2) N(1) nd n(1) by (simp add: define_serial_mode_def store_def Let_def)
  qed
qed

lemma sets_masks:
  assumes "dump_masks rm"
  shows "sets (print_masks rm) (masks_of rm)"
proof -
  note i = assms [unfolded dump_masks_def, simplified]
  have l0:
    "sets (''  min_code_repeat '' @ fmt_d 0 (i32 (min_code_repeat rm)) @ [newline]) (\<lambda>q. q\<lparr>min_code_repeat := min_code_repeat rm\<rparr>)"
    by (rule sets_d_unsigned [where f = "\<lambda>a q. q\<lparr>min_code_repeat := a\<rparr>" and key = "''min_code_repeat''"]; simp add: i leads_def define_key)
  have l1:
    "sets (''  toggle_bit_mask '' @ fmt_X (toggle_bit_mask rm) @ [newline]) (\<lambda>q. q\<lparr>toggle_bit_mask := toggle_bit_mask rm\<rparr>)"
    by (rule sets_X [where f = "\<lambda>a q. q\<lparr>toggle_bit_mask := a\<rparr>" and key = "''toggle_bit_mask''"]; simp add: i leads_def define_key)
  have l2:
    "sets (''  toggle_mask    '' @ fmt_X (toggle_mask rm) @ [newline]) (\<lambda>q. q\<lparr>toggle_mask := toggle_mask rm\<rparr>)"
    by (rule sets_X [where f = "\<lambda>a q. q\<lparr>toggle_mask := a\<rparr>" and key = "''toggle_mask''"]; simp add: i leads_def define_key)
  have l3:
    "sets (''  repeat_mask    '' @ fmt_X (repeat_mask rm) @ [newline]) (\<lambda>q. q\<lparr>repeat_mask := repeat_mask rm\<rparr>)"
    by (rule sets_X [where f = "\<lambda>a q. q\<lparr>repeat_mask := a\<rparr>" and key = "''repeat_mask''"]; simp add: i leads_def define_key)
  have l4:
    "sets (''  rc6_mask    '' @ fmt_X (rc6_mask rm) @ [newline]) (\<lambda>q. q\<lparr>rc6_mask := rc6_mask rm\<rparr>)"
    by (rule sets_X [where f = "\<lambda>a q. q\<lparr>rc6_mask := a\<rparr>" and key = "''rc6_mask''"]; simp add: i leads_def define_key)
  have l5:
    "sets (''  ignore_mask '' @ fmt_X (ignore_mask rm) @ [newline]) (\<lambda>q. q\<lparr>ignore_mask := ignore_mask rm\<rparr>)"
    by (rule sets_X [where f = "\<lambda>a q. q\<lparr>ignore_mask := a\<rparr>" and key = "''ignore_mask''"]; simp add: i leads_def define_key)
  have l6:
    "sets (''  baud            '' @ fmt_d 0 (i32 (baud rm)) @ [newline]) (\<lambda>q. q\<lparr>baud := baud rm\<rparr>)"
    by (rule sets_ui [where f = "\<lambda>a q. q\<lparr>baud := a\<rparr>" and key = "''baud''"]; simp add: i leads_def define_key)
  have ser: "is_serial rm \<Longrightarrow> sets (''  serial_mode     '' @ mode_text rm @ [newline])
      (\<lambda>q. q\<lparr>bits_in_byte := bits_in_byte rm, parity := IR_PARITY_NONE, stop_bits := stop_bits rm\<rparr>)"
    by (rule sets_word [where key = "''serial_mode''"]; simp add: leads_def define_key mode_reads [OF assms])
  have mt: "''  serial_mode     '' @ fmt_d 0 (i32 (bits_in_byte rm)) @ ''N'' @ fmt_d 0 (i32 (stop_bits rm div 2))
      @ print_if (stop_bits rm mod 2 \<noteq> 0) ''.5'' @ [newline] = ''  serial_mode     '' @ mode_text rm @ [newline]"
    by (simp add: mode_text_def)
  show ?thesis
    unfolding print_masks_def masks_of_def mt
    by (intro sets_concat list_all2_Nil [THEN iffD2] list_all2_Cons [THEN iffD2] conjI sets_if l0 l1 l2 l3 l4 l5 l6 ser) simp_all
qed


section \<open>Flags\<close>

text \<open>The flags \<open>print_flags\<close> finds, and what it leaves.\<close>

fun found_flags :: "(string \<times> int) list \<Rightarrow> int \<Rightarrow> (string \<times> int) list" where
  "found_flags [] fl = []"
| "found_flags ((n, v) # fs) fl = (if fl AND v \<noteq> 0 then (n, v) # found_flags fs (fl AND NOT v) else found_flags fs fl)"

fun rest_flags :: "(string \<times> int) list \<Rightarrow> int \<Rightarrow> int" where
  "rest_flags [] fl = fl"
| "rest_flags ((n, v) # fs) fl = rest_flags fs (if fl AND v \<noteq> 0 then fl AND NOT v else fl)"

definition barred :: "string list \<Rightarrow> string" where
  "barred ns = concat (map (\<lambda>n. ''|'' @ n) ns)"

lemma print_flags_begun: "print_flags fs fl True = barred (map fst (found_flags fs fl)) @ nl"
  by (induction fs fl rule: found_flags.induct) (simp_all add: barred_def print_if_def)

lemma print_flags_first: "print_flags fs fl False = (case map fst (found_flags fs fl) of
    [] \<Rightarrow> [] | n # ns \<Rightarrow> ''  flags '' @ n @ barred ns @ nl)"
  by (induction fs fl rule: found_flags.induct) (simp_all add: print_flags_begun print_if_def)

lemma split_bar_word: "list_all (\<lambda>c. c \<noteq> CHR ''|'') w \<Longrightarrow> split_bar cur (w @ s) =
    (case s of [] \<Rightarrow> [rev cur @ w] | c # cs \<Rightarrow> if c = CHR ''|'' then (rev cur @ w) # split_bar [] cs
       else split_bar (rev w @ cur) s)"
  by (induction w arbitrary: cur) (auto split: list.split)

lemma split_bar_end: "list_all (\<lambda>c. c \<noteq> CHR ''|'') w \<Longrightarrow> split_bar cur w = [rev cur @ w]"
  by (induction w arbitrary: cur) auto

lemma split_barred: "\<forall>w \<in> set (n # ns). list_all (\<lambda>c. c \<noteq> CHR ''|'') w \<Longrightarrow> split_bar [] (n @ barred ns) = n # ns"
proof (induction ns arbitrary: n)
  case Nil
  then show ?case by (simp add: barred_def split_bar_end)
next
  case (Cons m ns)
  then show ?case by (simp add: barred_def split_bar_word)
qed

text \<open>A set of flags that can be written: known ones, and at most one protocol.\<close>

definition dump_flags :: "int \<Rightarrow> bool" where
  "dump_flags fl \<longleftrightarrow> rest_flags all_flags fl = 0 \<and> (fl AND IR_PROTOCOL_MASK = 0 \<or> fl AND IR_PROTOCOL_MASK \<in> set protocols)"

lemma single_bit:
  assumes "v = 2 ^ k" "(fl :: int) AND v \<noteq> 0"
  shows "fl AND v = v"
proof -
  have "bit fl k" using assms by (simp add: and_exp_eq_0_iff_not_bit)
  then show ?thesis unfolding assms(1) by (intro bit_eqI) (auto simp: bit_and_iff bit_exp_iff)
qed

lemma and_not_disjoint: "v AND m = 0 \<Longrightarrow> (f AND m) AND NOT v = (f AND m :: int)"
proof (rule bit_eqI)
  fix k assume "v AND m = 0"
  then have "\<not> (bit v k \<and> bit m k)" using bit_and_iff [of v m k] by simp
  then show "bit ((f AND m) AND NOT v) k = bit (f AND m) k" by (auto simp: bit_and_iff bit_not_iff)
qed

lemma flags_single: "(n, v) \<in> set all_flags \<Longrightarrow> \<exists>k. v = 2 ^ k"
proof -
  have "map snd all_flags = map (\<lambda>k. 2 ^ k) [0, 1, 1, 2, 3, 4, 5, 7, 8, 9, 10, 11, 12, 13, 14, 15]"
    by (simp add: all_flags_def)
  then have "snd ` set all_flags = (\<lambda>k. 2 ^ k) ` set [0, 1, 1, 2, 3, 4, 5, 7, 8, 9, 10, 11, 12, 13, 14, 15]"
    by (metis list.set_map)
  moreover assume "(n, v) \<in> set all_flags"
  then have "v \<in> snd ` set all_flags" by force
  ultimately show ?thesis by blast
qed

lemma flags_protocol:
  "(n, v) \<in> set all_flags \<Longrightarrow> p \<in> set protocols \<Longrightarrow> v AND IR_PROTOCOL_MASK \<noteq> 0 \<Longrightarrow> p AND v \<noteq> 0 \<Longrightarrow> v = p"
proof -
  have "list_all (\<lambda>p. list_all (\<lambda>v. v AND IR_PROTOCOL_MASK \<noteq> 0 \<and> p AND v \<noteq> 0 \<longrightarrow> v = p) (map snd all_flags)) protocols"
    by code_simp
  moreover assume "(n, v) \<in> set all_flags"
  then have "v \<in> set (map snd all_flags)" by force
  ultimately show "p \<in> set protocols \<Longrightarrow> v AND IR_PROTOCOL_MASK \<noteq> 0 \<Longrightarrow> p AND v \<noteq> 0 \<Longrightarrow> v = p"
    unfolding list_all_iff by blast
qed

lemma flags_lookup: "(n, v) \<in> set all_flags \<Longrightarrow> flag_value n = Some v \<and> list_all (\<lambda>c. c \<noteq> CHR ''|'') n \<and> word n \<and> length n \<le> 20"
proof -
  have "list_all (\<lambda>(n, v). flag_value n = Some v) all_flags"
    by (simp add: all_flags_def flag_value_def strcaseeq_def tolower_def)
  moreover have "list_all (\<lambda>(n, v). list_all (\<lambda>c. c \<noteq> CHR ''|'') n \<and> word n \<and> length n \<le> 20) all_flags"
    by (simp add: all_flags_def word_def is_ws_def plain_char_def char_literals del: char_of_eq_iff)
  ultimately show "(n, v) \<in> set all_flags \<Longrightarrow> ?thesis" by (auto simp: list_all_iff)
qed

lemma rest_found:
  "\<forall>(n, v) \<in> set fs. \<exists>k. v = 2 ^ k \<Longrightarrow> fold (\<lambda>(n, v) a. a OR v) (found_flags fs fl) acc OR rest_flags fs fl = acc OR fl"
proof (induction fs fl arbitrary: acc rule: found_flags.induct)
  case (1 fl)
  then show ?case by simp
next
  case (2 n v fs fl)
  show ?case
  proof (cases "fl AND v = 0")
    case True
    with 2 show ?thesis by auto
  next
    case False
    then have "fl AND v = v" using 2(3) single_bit by auto
    then have "v OR (fl AND NOT v) = fl"
      by (metis and.commute bit.conj_disj_distrib bit.conj_one_right bit.disj_cancel_right or.commute)
    then have "acc OR v OR (fl AND NOT v) = acc OR fl" by (simp add: or.assoc)
    moreover have "fold (\<lambda>(n, v) a. a OR v) (found_flags fs (fl AND NOT v)) (acc OR v) OR rest_flags fs (fl AND NOT v)
        = acc OR v OR (fl AND NOT v)"
      using 2(1) [OF False] 2(3) by (simp add: or.assoc)
    ultimately show ?thesis using False by simp
  qed
qed

lemma found_subset: "x \<in> set (found_flags fs fl) \<Longrightarrow> x \<in> set fs"
  by (induction fs fl rule: found_flags.induct) (auto split: if_splits)

text \<open>Reading the names back gives the flags; only one of them is the protocol.\<close>

lemma parse_found:
  "set fs \<subseteq> set all_flags \<Longrightarrow> p = 0 \<or> p \<in> set protocols \<Longrightarrow>
    fl AND IR_PROTOCOL_MASK = 0 \<or> (fl AND IR_PROTOCOL_MASK = p \<and> acc AND IR_PROTOCOL_MASK = 0) \<Longrightarrow>
    parse_flag_list (map fst (found_flags fs fl)) acc = Some (fold (\<lambda>(n, v) a. a OR v) (found_flags fs fl) acc)"
proof (induction fs fl arbitrary: acc rule: found_flags.induct)
  case (1 fl)
  then show ?case by simp
next
  case (2 n v fs fl)
  have nv: "(n, v) \<in> set all_flags" and fs: "set fs \<subseteq> set all_flags" using 2(3) by auto
  show ?case
  proof (cases "fl AND v = 0")
    case True
    with 2(2) [OF _ fs 2(4,5)] show ?thesis by simp
  next
    case False
    let ?fl = "fl AND NOT v" and ?acc = "acc OR v"
    have fv: "fl AND v = v" using flags_single [OF nv] False single_bit by auto
    have m: "?fl AND IR_PROTOCOL_MASK = (fl AND IR_PROTOCOL_MASK) AND NOT v" by (simp add: ac_simps)
    have c: "?acc AND IR_PROTOCOL_MASK = (acc AND IR_PROTOCOL_MASK) OR (v AND IR_PROTOCOL_MASK)"
      by (rule bit.conj_disj_distrib2)
    have "\<not> (v AND IR_PROTOCOL_MASK \<noteq> 0 \<and> acc AND IR_PROTOCOL_MASK \<noteq> 0)
      \<and> (?fl AND IR_PROTOCOL_MASK = 0 \<or> (?fl AND IR_PROTOCOL_MASK = p \<and> ?acc AND IR_PROTOCOL_MASK = 0))"
    proof (cases "v AND IR_PROTOCOL_MASK = 0")
      case True
      then have "(fl AND IR_PROTOCOL_MASK) AND NOT v = fl AND IR_PROTOCOL_MASK"
        by (rule and_not_disjoint)
      with True show ?thesis using 2(5) unfolding m c by simp
    next
      case pr: False
      have n0: "fl AND IR_PROTOCOL_MASK \<noteq> 0"
        using pr fv by (metis and.assoc and.commute bit.conj_zero_right)
      then have q: "fl AND IR_PROTOCOL_MASK = p" "acc AND IR_PROTOCOL_MASK = 0" "p \<in> set protocols"
        using 2(4,5) by auto
      have "p AND v \<noteq> 0" using q(1) pr fv by (metis and.assoc and.commute)
      then have "v = p" using flags_protocol [OF nv q(3) pr] by simp
      then show ?thesis using q unfolding m by simp
    qed
    then show ?thesis
      using 2(1) [OF False fs 2(4), of ?acc] flags_lookup [OF nv] False by simp
  qed
qed

lemma parse_printed:
  assumes "dump_flags fl" "map fst (found_flags all_flags fl) = n # ns"
  shows "parseFlags (n @ barred ns) = Some fl"
proof -
  have w: "\<forall>w \<in> set (n # ns). list_all (\<lambda>c. c \<noteq> CHR ''|'') w"
  proof
    fix w assume "w \<in> set (n # ns)"
    then obtain v where "(w, v) \<in> set (found_flags all_flags fl)" unfolding assms(2) [symmetric] by auto
    then show "list_all (\<lambda>c. c \<noteq> CHR ''|'') w" using found_subset flags_lookup by blast
  qed
  have "parse_flag_list (n # ns) 0 = Some (fold (\<lambda>(n, v) a. a OR v) (found_flags all_flags fl) 0)"
    unfolding assms(2) [symmetric]
    using assms(1) by (intro parse_found [where p = "fl AND IR_PROTOCOL_MASK"]) (auto simp: dump_flags_def)
  moreover have "fold (\<lambda>(n, v) a. a OR v) (found_flags all_flags fl) 0 OR rest_flags all_flags fl = fl"
    using rest_found [of all_flags fl 0] flags_single by auto
  ultimately show ?thesis using assms(1) by (simp add: parseFlags_def split_barred [OF w] dump_flags_def)
qed

lemma word_append: "word a \<Longrightarrow> list_all (\<lambda>c. \<not> is_ws c \<and> plain_char c) b \<Longrightarrow> word (a @ b)"
  by (simp add: word_def)

lemma barred_word:
  "\<forall>w \<in> set ns. word w \<and> length w \<le> 20 \<Longrightarrow>
    list_all (\<lambda>c. \<not> is_ws c \<and> plain_char c) (barred ns) \<and> length (barred ns) \<le> 21 * length ns"
proof (induction ns)
  case Nil
  then show ?case by (simp add: barred_def)
next
  case (Cons n ns)
  have "\<not> is_ws (CHR ''|'') \<and> plain_char (CHR ''|'')" by code_simp
  then show ?case using Cons by (simp add: barred_def word_def)
qed

lemma found_length: "length (found_flags fs fl) \<le> length fs"
  by (induction fs fl rule: found_flags.induct) auto

lemma sets_flags:
  assumes "dump_flags fl"
  shows "sets (fprint_flags fl) (\<lambda>q. q\<lparr>flags := flags q OR fl\<rparr>)"
proof (cases "map fst (found_flags all_flags fl)")
  case Nil
  then have "fl = 0" using rest_found [of all_flags fl 0] flags_single assms by (auto simp: dump_flags_def)
  then show ?thesis using Nil by (simp add: fprint_flags_def print_flags_first sets_def)
next
  case (Cons n ns)
  have w: "word w \<and> length w \<le> 20" if m: "w \<in> set (n # ns)" for w
  proof -
    obtain v where "(w, v) \<in> set (found_flags all_flags fl)" using m unfolding Cons [symmetric] by auto
    then show ?thesis using found_subset flags_lookup by blast
  qed
  have "length (n # ns) \<le> length all_flags" unfolding Cons [symmetric] using found_length by simp
  then have "length ns < 16" by (simp add: all_flags_def)
  moreover have "word (n @ barred ns)" "length (barred ns) \<le> 21 * length ns" "length n \<le> 20"
    using w barred_word [of ns] by (auto intro: word_append)
  ultimately have sw: "short_word (n @ barred ns)" by (simp add: short_word_def)
  have "fprint_flags fl = ''  flags '' @ (n @ barred ns) @ [newline]"
    by (simp add: fprint_flags_def print_flags_first Cons)
  moreover have "sets (''  flags '' @ (n @ barred ns) @ [newline]) (\<lambda>q. q\<lparr>flags := flags q OR fl\<rparr>)"
    by (rule sets_word [where key = "''flags''", OF _ sw])
      (simp_all add: leads_def define_key parse_printed [OF assms Cons] store_def)
  ultimately show ?thesis by simp
qed


section \<open>Repeats and carrier\<close>

definition dump_repeats :: "ir_remote \<Rightarrow> bool" where
  "dump_repeats rm \<longleftrightarrow> list_all is_unsigned [gap rm, gap2 rm, repeat_gap rm]
     \<and> list_all is_int [suppress_repeat rm, min_repeat rm]"

definition repeats_of :: "ir_remote \<Rightarrow> ir_remote \<Rightarrow> ir_remote" where
  "repeats_of rm = in_turn
     [\<lambda>q. if gap2 rm \<noteq> 0 then q\<lparr>gap2 := gap2 rm, gap := gap rm\<rparr> else q\<lparr>gap := gap rm\<rparr>,
      on (has_repeat_gap rm) (\<lambda>q. q\<lparr>repeat_gap := repeat_gap rm\<rparr>),
      on (suppress_repeat rm > 0) (\<lambda>q. q\<lparr>suppress_repeat := suppress_repeat rm\<rparr>),
      on (min_repeat rm > 0) (in_turn
        [\<lambda>q. q\<lparr>min_repeat := min_repeat rm\<rparr>, on (suppress_repeat rm = 0) (\<lambda>q. q)])]"

lemma sets_comment: "text_line l \<Longrightarrow> l \<noteq> [] \<Longrightarrow> hd l = CHR ''#'' \<Longrightarrow> sets (l @ [newline]) (\<lambda>q. q)"
  by (simp add: sets_def reads_comment)

lemma sets_gap:
  assumes "dump_repeats rm"
  shows "sets (fprint_remote_gap rm)
    (\<lambda>q. if gap2 rm \<noteq> 0 then q\<lparr>gap2 := gap2 rm, gap := gap rm\<rparr> else q\<lparr>gap := gap rm\<rparr>)"
proof -
  have u: "u32 (gap rm) = gap rm" "u32 (gap2 rm) = gap2 rm"
    using assms by (simp_all add: dump_repeats_def is_unsigned_def u32_id)
  have "sets (''  gap          '' @ fmt_u 0 (gap rm) @ [newline]) (\<lambda>q. q\<lparr>gap := gap rm\<rparr>)"
    unfolding fmt_num
    by (rule sets_value [where key = "''gap''"]) (simp_all add: leads_def define_key parse_num_u u store_def)
  moreover have "sets (''  gap          '' @ fmt_u 0 (gap rm) @ '' '' @ fmt_u 0 (gap2 rm) @ [newline])
      (\<lambda>q. q\<lparr>gap2 := gap2 rm, gap := gap rm\<rparr>)"
    unfolding fmt_num
    by (rule sets_values [where key = "''gap''"]) (simp_all add: leads_def define_key parse_num_u u store2_def)
  ultimately show ?thesis by (simp add: fprint_remote_gap_def)
qed

lemma sets_repeats:
  assumes "dump_repeats rm"
  shows "sets (print_repeats rm) (repeats_of rm)"
proof -
  note i = assms [unfolded dump_repeats_def, simplified]
  have l0:
    "sets (''  repeat_gap   '' @ fmt_u 0 (repeat_gap rm) @ [newline]) (\<lambda>q. q\<lparr>repeat_gap := repeat_gap rm\<rparr>)"
    by (rule sets_u32 [where f = "\<lambda>a q. q\<lparr>repeat_gap := a\<rparr>" and key = "''repeat_gap''"]; simp add: i leads_def define_key)
  have l1:
    "sets (''  suppress_repeat '' @ fmt_d 0 (suppress_repeat rm) @ [newline]) (\<lambda>q. q\<lparr>suppress_repeat := suppress_repeat rm\<rparr>)"
    by (rule sets_d [where f = "\<lambda>a q. q\<lparr>suppress_repeat := a\<rparr>" and key = "''suppress_repeat''"]; simp add: i leads_def define_key)
  have l2:
    "sets (''  min_repeat      '' @ fmt_d 0 (min_repeat rm) @ [newline]) (\<lambda>q. q\<lparr>min_repeat := min_repeat rm\<rparr>)"
    by (rule sets_d [where f = "\<lambda>a q. q\<lparr>min_repeat := a\<rparr>" and key = "''min_repeat''"]; simp add: i leads_def define_key)
  have c: "sets (''#  suppress_repeat '' @ fmt_d 0 (min_repeat rm) @ [newline]
      @ ''#  uncomment to suppress unwanted repeats'' @ [newline]) (\<lambda>q. q)"
  proof -
    have n: "word (num_d (min_repeat rm))" "length (num_d (min_repeat rm)) < 1000"
      using short_num_d [of "min_repeat rm"] i by (simp_all add: short_word_def)
    have "text_line (''#  suppress_repeat '' @ fmt_d 0 (min_repeat rm))"
      "text_line ''#  uncomment to suppress unwanted repeats''"
      using pad_plain [OF n(1)] n(2)
      by (simp_all add: text_line_def plain_char_def char_literals fmt_num pad_length del: char_of_eq_iff)
    from sets_comment [OF this(1)] sets_comment [OF this(2)] show ?thesis
      using sets_append [of "(''#  suppress_repeat '' @ fmt_d 0 (min_repeat rm)) @ [newline]" "\<lambda>q. q"
        "''#  uncomment to suppress unwanted repeats'' @ [newline]" "\<lambda>q. q"] by simp
  qed
  show ?thesis
    unfolding print_repeats_def repeats_of_def
    by (intro sets_concat list_all2_Nil [THEN iffD2] list_all2_Cons [THEN iffD2] conjI sets_if sets_gap [OF assms] l0 l1 l2 c) simp_all
qed

definition carrier_of :: "ir_remote \<Rightarrow> ir_remote \<Rightarrow> ir_remote" where
  "carrier_of rm = in_turn
     [on (freq rm \<noteq> 0) (\<lambda>q. q\<lparr>freq := freq rm\<rparr>),
      on (duty_cycle rm \<noteq> 0) (\<lambda>q. q\<lparr>duty_cycle := duty_cycle rm\<rparr>), \<lambda>q. q]"

definition dump_carrier :: "ir_remote \<Rightarrow> bool" where
  "dump_carrier rm \<longleftrightarrow> is_unsigned (freq rm) \<and> is_unsigned (duty_cycle rm)"

lemma sets_carrier:
  assumes "dump_carrier rm"
  shows "sets (print_carrier rm) (carrier_of rm)"
proof -
  note i = assms [unfolded dump_carrier_def, simplified]
  have l0:
    "sets (''  frequency    '' @ fmt_u 0 (freq rm) @ [newline]) (\<lambda>q. q\<lparr>freq := freq rm\<rparr>)"
    by (rule sets_u32 [where f = "\<lambda>a q. q\<lparr>freq := a\<rparr>" and key = "''frequency''"]; simp add: i leads_def define_key)
  have l1:
    "sets (''  duty_cycle   '' @ fmt_u 0 (duty_cycle rm) @ [newline]) (\<lambda>q. q\<lparr>duty_cycle := duty_cycle rm\<rparr>)"
    by (rule sets_u32 [where f = "\<lambda>a q. q\<lparr>duty_cycle := a\<rparr>" and key = "''duty_cycle''"]; simp add: i leads_def define_key)
  show ?thesis
    unfolding print_carrier_def carrier_of_def
    by (intro sets_concat list_all2_Nil [THEN iffD2] list_all2_Cons [THEN iffD2] conjI sets_if sets_blank l0 l1) simp_all
qed

section \<open>The name and what goes with it\<close>

definition dump_name :: "ir_remote \<Rightarrow> bool" where
  "dump_name rm \<longleftrightarrow> (\<exists>nm. rname rm = Some nm \<and> short_word nm)
     \<and> (case rdriver rm of None \<Rightarrow> True | Some d \<Rightarrow> short_word d)
     \<and> list_all is_int [manual_sort rm, bits rm, eps rm] \<and> is_unsigned (aeps rm) \<and> dump_flags (flags rm)"

definition name_of :: "ir_remote \<Rightarrow> ir_remote \<Rightarrow> ir_remote" where
  "name_of rm = in_turn
     [\<lambda>q. q\<lparr>rname := rname rm\<rparr>,
      on (manual_sort rm \<noteq> 0) (\<lambda>q. q\<lparr>manual_sort := manual_sort rm\<rparr>),
      on (rdriver rm \<noteq> None) (\<lambda>q. q\<lparr>rdriver := rdriver rm\<rparr>),
      on (\<not> is_raw rm) (\<lambda>q. q\<lparr>bits := bits rm\<rparr>),
      \<lambda>q. q\<lparr>flags := flags q OR flags rm\<rparr>,
      \<lambda>q. q\<lparr>eps := eps rm\<rparr>,
      \<lambda>q. q\<lparr>aeps := aeps rm\<rparr>]"

text \<open>The reader between two remotes, behind the remotes \<open>tops\<close>.\<close>

definition closed :: "ir_remote list \<Rightarrow> reader \<Rightarrow> reader" where
  "closed tops x = x\<lparr>rd_mode := ID_none, rd_top := tops\<rparr>"

lemma reads_begin: "reads (''begin remote'' @ [newline]) (closed tops x) (opened tops new_remote x)"
proof -
  have "text_line ''begin remote''"
    by (simp add: text_line_def plain_char_def char_literals del: char_of_eq_iff)
  moreover have "read_line False (''begin remote'' @ [newline]) (closed tops x) = LStep (Some (opened tops new_remote x))"
    unfolding sample_read_line
    by (simp add: begin_line_def sample_sections begin_remote_def checkMode_def closed_def opened_def)
  ultimately show ?thesis by (rule reads_line)
qed

lemma reads_name:
  assumes "dump_name rm"
  shows "reads (print_name rm) (closed tops x) (opened tops (name_of rm new_remote) x)"
proof -
  note i = assms [unfolded dump_name_def, simplified]
  have l0:
    "sets (''  manual_sort  '' @ fmt_d 0 (manual_sort rm) @ [newline]) (\<lambda>q. q\<lparr>manual_sort := manual_sort rm\<rparr>)"
    by (rule sets_d [where f = "\<lambda>a q. q\<lparr>manual_sort := a\<rparr>" and key = "''manual_sort''"]; simp add: i leads_def define_key)
  have l1:
    "sets (''  bits        '' @ fmt_d 5 (bits rm) @ [newline]) (\<lambda>q. q\<lparr>bits := bits rm\<rparr>)"
    by (rule sets_d [where f = "\<lambda>a q. q\<lparr>bits := a\<rparr>" and key = "''bits''"]; simp add: i leads_def define_key)
  have l2:
    "sets (''  eps         '' @ fmt_d 5 (eps rm) @ [newline]) (\<lambda>q. q\<lparr>eps := eps rm\<rparr>)"
    by (rule sets_d [where f = "\<lambda>a q. q\<lparr>eps := a\<rparr>" and key = "''eps''"]; simp add: i leads_def define_key)
  have l3:
    "sets (''  aeps        '' @ fmt_d 5 (i32 (aeps rm)) @ [newline]) (\<lambda>q. q\<lparr>aeps := aeps rm\<rparr>)"
    by (rule sets_d_unsigned [where f = "\<lambda>a q. q\<lparr>aeps := a\<rparr>" and key = "''aeps''"]; simp add: i leads_def define_key)
  obtain nm where nm: "rname rm = Some nm" "short_word nm" using i by blast
  have n: "sets (''  name  '' @ nm @ [newline]) (\<lambda>q. q\<lparr>rname := rname rm\<rparr>)"
    by (rule sets_word [where key = "''name''", OF _ nm(2)]) (simp_all add: leads_def define_key nm(1))
  have d: "sets (case rdriver rm of Some d \<Rightarrow> ''  driver '' @ d @ [newline] | None \<Rightarrow> [])
      (on (rdriver rm \<noteq> None) (\<lambda>q. q\<lparr>rdriver := rdriver rm\<rparr>))"
  proof (cases "rdriver rm")
    case None
    then show ?thesis by (simp add: on_def sets_def)
  next
    case (Some dr)
    then have "short_word dr" using i by simp
    then have "sets (''  driver '' @ dr @ [newline]) (\<lambda>q. q\<lparr>rdriver := rdriver rm\<rparr>)"
      by (intro sets_word [where key = "''driver''"]) (simp_all add: leads_def define_key Some)
    then show ?thesis using Some by (simp add: on_def)
  qed
  have fl: "sets (fprint_flags (flags rm)) (\<lambda>q. q\<lparr>flags := flags q OR flags rm\<rparr>)"
    using i by (intro sets_flags) blast
  have ae: "sets (''  aeps        '' @ fmt_d 5 (i32 (aeps rm)) @ [newline] @ [newline]) (\<lambda>q. q\<lparr>aeps := aeps rm\<rparr>)"
    using sets_append [OF l3 sets_blank] by simp
  have "sets (concat
     [''  name  '' @ nm @ [newline],
      print_if (manual_sort rm \<noteq> 0) (''  manual_sort  '' @ fmt_d 0 (manual_sort rm) @ [newline]),
      (case rdriver rm of Some d \<Rightarrow> ''  driver '' @ d @ [newline] | None \<Rightarrow> []),
      print_if (\<not> is_raw rm) (''  bits        '' @ fmt_d 5 (bits rm) @ [newline]),
      fprint_flags (flags rm),
      ''  eps         '' @ fmt_d 5 (eps rm) @ [newline],
      ''  aeps        '' @ fmt_d 5 (i32 (aeps rm)) @ [newline] @ [newline]]) (name_of rm)"
    (is "sets ?t _")
    unfolding name_of_def
    by (intro sets_concat list_all2_Nil [THEN iffD2] list_all2_Cons [THEN iffD2] conjI sets_if n d fl ae l0 l1 l2) simp_all
  then have t: "reads ?t (opened tops new_remote x) (opened tops (name_of rm new_remote) x)" by (simp add: sets_def)
  have "print_name rm = (''begin remote'' @ [newline]) @ [newline] @ ?t" by (simp add: print_name_def nm(1))
  then show ?thesis using reads_append [OF reads_begin reads_append [OF reads_blank t]] by simp
qed

section \<open>The head of a remote\<close>

definition dump_head :: "ir_remote \<Rightarrow> bool" where
  "dump_head rm \<longleftrightarrow> dump_name rm \<and> dump_timing rm \<and> dump_data rm \<and> dump_repeats rm \<and> dump_masks rm \<and> dump_carrier rm"

definition head_of :: "ir_remote \<Rightarrow> ir_remote" where
  "head_of rm = carrier_of rm (masks_of rm (repeats_of rm (data_of rm (timing_of rm (name_of rm new_remote)))))"

lemma reads_head:
  assumes "dump_head rm"
  shows "reads (fprint_remote_head rm) (closed tops x) (opened tops (head_of rm) x)"
proof -
  have "dump_name rm" "dump_timing rm" "dump_data rm" "dump_repeats rm" "dump_masks rm" "dump_carrier rm"
    using assms by (simp_all add: dump_head_def)
  note h = reads_name [OF this(1)] sets_append [OF sets_timing [OF this(2)] sets_append [OF sets_data [OF this(3)]
    sets_append [OF sets_repeats [OF this(4)] sets_append [OF sets_masks [OF this(5)] sets_carrier [OF this(6)]]]]]
  show ?thesis unfolding fprint_remote_head_def head_of_def
    using reads_append [OF h(1)] h(2) by (simp add: sets_def)
qed


end
