(* ===== verification/Dump_Whole.thy ===== *)
theory Dump_Whole
  imports Dump_Facts
begin

text \<open>
  A remote that the text of \<open>lib/dump_config.c\<close> describes completely: its head sets every field,
  its codes are read back one by one, and a file of such remotes is read back as it was written.
\<close>

section \<open>Remotes that are written completely\<close>

text \<open>The fields the text does not mention have the values they have in a new remote.\<close>

definition unwritten_zero :: "ir_remote \<Rightarrow> bool" where
  "unwritten_zero rm \<longleftrightarrow> (has_header rm \<or> phead rm = 0 \<and> shead rm = 0) \<and> (has_foot rm \<or> pfoot rm = 0 \<and> sfoot rm = 0)
     \<and> (has_repeat rm \<or> prepeat rm = 0 \<and> srepeat rm = 0)
     \<and> (pre_data_bits rm > 0 \<or> pre_data_bits rm = 0 \<and> pre_data rm = 0)
     \<and> (post_data_bits rm > 0 \<or> post_data_bits rm = 0 \<and> post_data rm = 0)
     \<and> (pre_p rm \<noteq> 0 \<and> pre_s rm \<noteq> 0 \<or> pre_p rm = 0 \<and> pre_s rm = 0)
     \<and> (post_p rm \<noteq> 0 \<and> post_s rm \<noteq> 0 \<or> post_p rm = 0 \<and> post_s rm = 0)
     \<and> 0 \<le> suppress_repeat rm \<and> 0 \<le> min_repeat rm \<and> freq rm \<noteq> 0"

definition serial_written :: "ir_remote \<Rightarrow> bool" where
  "serial_written rm \<longleftrightarrow> (if is_serial rm then parity rm = IR_PARITY_NONE
        else baud rm = 0 \<and> bits_in_byte rm = 0 \<and> parity rm = 0 \<and> stop_bits rm = 0)"

lemma on_id: "on b (\<lambda>q. q) = (\<lambda>q. q)"
  by (simp add: on_def)

lemma on_write: "b \<Longrightarrow> on b f q = f q"
  by (simp add: on_def)

lemma on_keep: "(\<not> b \<Longrightarrow> z) \<Longrightarrow> (z \<Longrightarrow> f q = q) \<Longrightarrow> on b f q = f q"
  by (auto simp: on_def)

lemma timing_of_eq:
  assumes "\<not> is_raw rm" "unwritten_zero rm" "phead q = 0 \<and> shead q = 0 \<and> pthree q = 0 \<and> sthree q = 0 \<and> ptwo q = 0 \<and> stwo
    q = 0 \<and> ptrail q = 0 \<and> plead q = 0 \<and> pfoot q = 0 \<and> sfoot q = 0 \<and> prepeat q
    = 0 \<and> srepeat q = 0"
  shows "timing_of rm q = q\<lparr>phead := phead rm, shead := shead rm, pthree := pthree rm, sthree := sthree rm, ptwo := ptwo rm,
    stwo := stwo rm, pone := pone rm, sone := sone rm, pzero := pzero rm, szero := szero rm, ptrail :=
    ptrail rm, plead := plead rm, pfoot := pfoot rm, sfoot := sfoot rm, prepeat := prepeat rm, srepeat
    := srepeat rm\<rparr>"
proof -
  note w = assms(2) [unfolded unwritten_zero_def]
  have z: "\<not> (has_header rm) \<Longrightarrow> phead rm = 0 \<and> shead rm = 0"
    using w by blast
  have e0: "on (has_header rm) (\<lambda>q. q\<lparr>phead := phead rm, shead := shead rm\<rparr>) q
      = q\<lparr>phead := phead rm, shead := shead rm\<rparr>"
    if "phead q = 0" "shead q = 0" for q
    by (rule on_keep [OF z]) (simp_all add: that)
  have z: "\<not> (pthree rm = 0 \<longrightarrow> sthree rm \<noteq> 0) \<Longrightarrow> pthree rm = 0 \<and> sthree rm = 0"
    using w by blast
  have e1: "on (pthree rm = 0 \<longrightarrow> sthree rm \<noteq> 0) (\<lambda>q. q\<lparr>pthree := pthree rm, sthree := sthree rm\<rparr>) q
      = q\<lparr>pthree := pthree rm, sthree := sthree rm\<rparr>"
    if "pthree q = 0" "sthree q = 0" for q
    by (rule on_keep [OF z]) (simp_all add: that)
  have z: "\<not> (ptwo rm = 0 \<longrightarrow> stwo rm \<noteq> 0) \<Longrightarrow> ptwo rm = 0 \<and> stwo rm = 0"
    using w by blast
  have e2: "on (ptwo rm = 0 \<longrightarrow> stwo rm \<noteq> 0) (\<lambda>q. q\<lparr>ptwo := ptwo rm, stwo := stwo rm\<rparr>) q
      = q\<lparr>ptwo := ptwo rm, stwo := stwo rm\<rparr>"
    if "ptwo q = 0" "stwo q = 0" for q
    by (rule on_keep [OF z]) (simp_all add: that)
  have z: "\<not> (ptrail rm \<noteq> 0) \<Longrightarrow> ptrail rm = 0"
    using w by blast
  have e3: "on (ptrail rm \<noteq> 0) (\<lambda>q. q\<lparr>ptrail := ptrail rm\<rparr>) q
      = q\<lparr>ptrail := ptrail rm\<rparr>"
    if "ptrail q = 0" for q
    by (rule on_keep [OF z]) (simp_all add: that)
  have z: "\<not> (plead rm \<noteq> 0) \<Longrightarrow> plead rm = 0"
    using w by blast
  have e4: "on (plead rm \<noteq> 0) (\<lambda>q. q\<lparr>plead := plead rm\<rparr>) q
      = q\<lparr>plead := plead rm\<rparr>"
    if "plead q = 0" for q
    by (rule on_keep [OF z]) (simp_all add: that)
  have z: "\<not> (has_foot rm) \<Longrightarrow> pfoot rm = 0 \<and> sfoot rm = 0"
    using w by blast
  have e5: "on (has_foot rm) (\<lambda>q. q\<lparr>pfoot := pfoot rm, sfoot := sfoot rm\<rparr>) q
      = q\<lparr>pfoot := pfoot rm, sfoot := sfoot rm\<rparr>"
    if "pfoot q = 0" "sfoot q = 0" for q
    by (rule on_keep [OF z]) (simp_all add: that)
  have z: "\<not> (has_repeat rm) \<Longrightarrow> prepeat rm = 0 \<and> srepeat rm = 0"
    using w by blast
  have e6: "on (has_repeat rm) (\<lambda>q. q\<lparr>prepeat := prepeat rm, srepeat := srepeat rm\<rparr>) q
      = q\<lparr>prepeat := prepeat rm, srepeat := srepeat rm\<rparr>"
    if "prepeat q = 0" "srepeat q = 0" for q
    by (rule on_keep [OF z]) (simp_all add: that)
  show ?thesis using assms(1) assms(3)
    by (simp add: timing_of_def in_turn_def on_write e0 e1 e2 e3 e4 e5 e6)
qed

lemma data_of_eq:
  assumes "\<not> is_raw rm" "unwritten_zero rm" "pre_data_bits q = 0 \<and> pre_data q = 0 \<and> post_data_bits q = 0 \<and> post_data q = 0 \<and>
    pre_p q = 0 \<and> pre_s q = 0 \<and> post_p q = 0 \<and> post_s q = 0"
  shows "data_of rm q = q\<lparr>pre_data_bits := pre_data_bits rm, pre_data := pre_data rm, post_data_bits := post_data_bits rm,
    post_data := post_data rm, pre_p := pre_p rm, pre_s := pre_s rm, post_p := post_p rm, post_s :=
    post_s rm\<rparr>"
proof -
  note w = assms(2) [unfolded unwritten_zero_def]
  have z: "\<not> (pre_data_bits rm > 0) \<Longrightarrow> pre_data_bits rm = 0 \<and> pre_data rm = 0"
    using w by blast
  have e0: "on (pre_data_bits rm > 0) (\<lambda>q. q\<lparr>pre_data_bits := pre_data_bits rm, pre_data := pre_data rm\<rparr>) q
      = q\<lparr>pre_data_bits := pre_data_bits rm, pre_data := pre_data rm\<rparr>"
    if "pre_data_bits q = 0" "pre_data q = 0" for q
    by (rule on_keep [OF z]) (simp_all add: that)
  have z: "\<not> (post_data_bits rm > 0) \<Longrightarrow> post_data_bits rm = 0 \<and> post_data rm = 0"
    using w by blast
  have e1: "on (post_data_bits rm > 0) (\<lambda>q. q\<lparr>post_data_bits := post_data_bits rm, post_data := post_data rm\<rparr>) q
      = q\<lparr>post_data_bits := post_data_bits rm, post_data := post_data rm\<rparr>"
    if "post_data_bits q = 0" "post_data q = 0" for q
    by (rule on_keep [OF z]) (simp_all add: that)
  have z: "\<not> (pre_p rm \<noteq> 0 \<and> pre_s rm \<noteq> 0) \<Longrightarrow> pre_p rm = 0 \<and> pre_s rm = 0"
    using w by blast
  have e2: "on (pre_p rm \<noteq> 0 \<and> pre_s rm \<noteq> 0) (\<lambda>q. q\<lparr>pre_p := pre_p rm, pre_s := pre_s rm\<rparr>) q
      = q\<lparr>pre_p := pre_p rm, pre_s := pre_s rm\<rparr>"
    if "pre_p q = 0" "pre_s q = 0" for q
    by (rule on_keep [OF z]) (simp_all add: that)
  have z: "\<not> (post_p rm \<noteq> 0 \<and> post_s rm \<noteq> 0) \<Longrightarrow> post_p rm = 0 \<and> post_s rm = 0"
    using w by blast
  have e3: "on (post_p rm \<noteq> 0 \<and> post_s rm \<noteq> 0) (\<lambda>q. q\<lparr>post_p := post_p rm, post_s := post_s rm\<rparr>) q
      = q\<lparr>post_p := post_p rm, post_s := post_s rm\<rparr>"
    if "post_p q = 0" "post_s q = 0" for q
    by (rule on_keep [OF z]) (simp_all add: that)
  show ?thesis using assms(1) assms(3)
    by (simp add: data_of_def in_turn_def on_write e0 e1 e2 e3)
qed

lemma repeats_of_eq:
  assumes "\<not> is_raw rm" "unwritten_zero rm" "dump_repeats rm" "gap2 q = 0 \<and> repeat_gap q = 0 \<and> suppress_repeat q = 0 \<and> min_repeat q = 0"
  shows "repeats_of rm q = q\<lparr>gap2 := gap2 rm, gap := gap rm, repeat_gap := repeat_gap rm, suppress_repeat := suppress_repeat rm,
    min_repeat := min_repeat rm\<rparr>"
proof -
  have w: "0 \<le> repeat_gap rm" "0 \<le> suppress_repeat rm" "0 \<le> min_repeat rm"
    using assms(2,3) by (simp_all add: unwritten_zero_def dump_repeats_def is_unsigned_def)
  have z: "\<not> (has_repeat_gap rm) \<Longrightarrow> repeat_gap rm = 0"
    using w by (simp add: has_repeat_gap_def)
  have e0: "on (has_repeat_gap rm) (\<lambda>q. q\<lparr>repeat_gap := repeat_gap rm\<rparr>) q
      = q\<lparr>repeat_gap := repeat_gap rm\<rparr>"
    if "repeat_gap q = 0" for q
    by (rule on_keep [OF z]) (simp_all add: that)
  have z: "\<not> (0 < suppress_repeat rm) \<Longrightarrow> suppress_repeat rm = 0"
    using w by (simp add: has_repeat_gap_def)
  have e1: "on (0 < suppress_repeat rm) (\<lambda>q. q\<lparr>suppress_repeat := suppress_repeat rm\<rparr>) q
      = q\<lparr>suppress_repeat := suppress_repeat rm\<rparr>"
    if "suppress_repeat q = 0" for q
    by (rule on_keep [OF z]) (simp_all add: that)
  have z: "\<not> (0 < min_repeat rm) \<Longrightarrow> min_repeat rm = 0"
    using w by (simp add: has_repeat_gap_def)
  have e2: "on (0 < min_repeat rm) (\<lambda>q. q\<lparr>min_repeat := min_repeat rm\<rparr>) q
      = q\<lparr>min_repeat := min_repeat rm\<rparr>"
    if "min_repeat q = 0" for q
    by (rule on_keep [OF z]) (simp_all add: that)
  have g: "(if gap2 rm \<noteq> 0 then q\<lparr>gap2 := gap2 rm, gap := gap rm\<rparr> else q\<lparr>gap := gap rm\<rparr>) = q\<lparr>gap2 := gap2 rm, gap := gap rm\<rparr>"
    using assms(4) by (cases "gap2 rm = 0") simp_all
  show ?thesis using assms(4)
    by (simp only: repeats_of_def in_turn_def on_id fold.simps comp_def g) (simp add: e0 e1 e2)
qed

lemma masks_of_eq:
  assumes "\<not> is_raw rm" "serial_written rm" "dump_masks rm" "min_code_repeat q = 0 \<and> toggle_mask q = 0 \<and> repeat_mask q = 0 \<and> rc6_mask q = 0 \<and>
    ignore_mask q = 0 \<and> baud q = 0 \<and> bits_in_byte q = 0 \<and> parity q = 0 \<and> stop_bits q
    = 0"
  shows "masks_of rm q = q\<lparr>min_code_repeat := min_code_repeat rm, toggle_bit_mask := toggle_bit_mask rm, toggle_mask :=
    toggle_mask rm, repeat_mask := repeat_mask rm, rc6_mask := rc6_mask rm, ignore_mask := ignore_mask
    rm, baud := baud rm, bits_in_byte := bits_in_byte rm, parity := parity rm, stop_bits := stop_bits rm\<rparr>"
proof -
  have w: "0 \<le> min_code_repeat rm" using assms(3) by (simp add: dump_masks_def is_unsigned_def)
  have z: "\<not> (0 < min_code_repeat rm) \<Longrightarrow> min_code_repeat rm = 0"
    using w by (simp add: has_toggle_mask_def has_ignore_mask_def word_gt_0)
  have e0: "on (0 < min_code_repeat rm) (\<lambda>q. q\<lparr>min_code_repeat := min_code_repeat rm\<rparr>) q
      = q\<lparr>min_code_repeat := min_code_repeat rm\<rparr>"
    if "min_code_repeat q = 0" for q
    by (rule on_keep [OF z]) (simp_all add: that)
  have z: "\<not> (has_toggle_mask rm) \<Longrightarrow> toggle_mask rm = 0"
    using w by (simp add: has_toggle_mask_def has_ignore_mask_def word_gt_0)
  have e1: "on (has_toggle_mask rm) (\<lambda>q. q\<lparr>toggle_mask := toggle_mask rm\<rparr>) q
      = q\<lparr>toggle_mask := toggle_mask rm\<rparr>"
    if "toggle_mask q = 0" for q
    by (rule on_keep [OF z]) (simp_all add: that)
  have z: "\<not> (repeat_mask rm \<noteq> 0) \<Longrightarrow> repeat_mask rm = 0"
    using w by (simp add: has_toggle_mask_def has_ignore_mask_def word_gt_0)
  have e2: "on (repeat_mask rm \<noteq> 0) (\<lambda>q. q\<lparr>repeat_mask := repeat_mask rm\<rparr>) q
      = q\<lparr>repeat_mask := repeat_mask rm\<rparr>"
    if "repeat_mask q = 0" for q
    by (rule on_keep [OF z]) (simp_all add: that)
  have z: "\<not> (rc6_mask rm \<noteq> 0) \<Longrightarrow> rc6_mask rm = 0"
    using w by (simp add: has_toggle_mask_def has_ignore_mask_def word_gt_0)
  have e3: "on (rc6_mask rm \<noteq> 0) (\<lambda>q. q\<lparr>rc6_mask := rc6_mask rm\<rparr>) q
      = q\<lparr>rc6_mask := rc6_mask rm\<rparr>"
    if "rc6_mask q = 0" for q
    by (rule on_keep [OF z]) (simp_all add: that)
  have z: "\<not> (has_ignore_mask rm) \<Longrightarrow> ignore_mask rm = 0"
    using w by (simp add: has_toggle_mask_def has_ignore_mask_def word_gt_0)
  have e4: "on (has_ignore_mask rm) (\<lambda>q. q\<lparr>ignore_mask := ignore_mask rm\<rparr>) q
      = q\<lparr>ignore_mask := ignore_mask rm\<rparr>"
    if "ignore_mask q = 0" for q
    by (rule on_keep [OF z]) (simp_all add: that)
  have e5: "on (is_serial rm) (in_turn [\<lambda>q. q\<lparr>baud := baud rm\<rparr>,
         \<lambda>q. q\<lparr>bits_in_byte := bits_in_byte rm, parity := IR_PARITY_NONE, stop_bits := stop_bits rm\<rparr>]) q
      = q\<lparr>baud := baud rm, bits_in_byte := bits_in_byte rm, parity := parity rm, stop_bits := stop_bits rm\<rparr>"
    if "baud q = 0" "bits_in_byte q = 0" "parity q = 0" "stop_bits q = 0" for q
    using assms(2) that by (cases "is_serial rm") (simp_all add: on_def in_turn_def serial_written_def)
  have r: "in_turn (f # fs) q = in_turn fs (f q)" "in_turn [] q = q" for f fs q
    by (simp_all add: in_turn_def)
  have n: "on (\<not> is_raw rm) f q = f q" for f q using assms(1) by (rule on_write)
  show ?thesis using assms(4)
    by (simp add: masks_of_def n r e0 e1 e2 e3 e4 e5)
qed

lemma carrier_of_eq:
  assumes "unwritten_zero rm" "duty_cycle q = 0"
  shows "carrier_of rm q = q\<lparr>freq := freq rm, duty_cycle := duty_cycle rm\<rparr>"
proof -
  have f: "freq rm \<noteq> 0" using assms(1) by (simp add: unwritten_zero_def)
  show ?thesis using assms(2) f by (cases "duty_cycle rm = 0") (simp_all add: carrier_of_def in_turn_def on_def)
qed

lemma name_of_eq:
  assumes "\<not> is_raw rm" "manual_sort q = 0" "rdriver q = None" "flags q = 0"
  shows "name_of rm q = q\<lparr>rname := rname rm, manual_sort := manual_sort rm, rdriver := rdriver rm, bits := bits rm,
    flags := flags rm, eps := eps rm, aeps := aeps rm\<rparr>"
proof -
  have d: "on (rdriver rm \<noteq> None) (\<lambda>q. q\<lparr>rdriver := rdriver rm\<rparr>) q = q\<lparr>rdriver := rdriver rm\<rparr>"
    if "rdriver q = None" for q
    by (cases "rdriver rm") (use that in \<open>simp_all add: on_def\<close>)
  have m: "on (manual_sort rm \<noteq> 0) (\<lambda>q. q\<lparr>manual_sort := manual_sort rm\<rparr>) q = q\<lparr>manual_sort := manual_sort rm\<rparr>"
    if "manual_sort q = 0" for q
    by (cases "manual_sort rm = 0") (use that in \<open>simp_all add: on_def\<close>)
  show ?thesis using assms
    by (simp add: name_of_def in_turn_def on_write m d del: not_None_eq)
qed

section \<open>What is read back\<close>

text \<open>A button and a remote as the reader has made them: what the daemon keeps in them while
  it runs is as in a new remote.\<close>

definition fresh_code :: "ir_ncode \<Rightarrow> ir_ncode" where
  "fresh_code nc = zero_ncode\<lparr>nname := nname nc, code := code nc, nexts := nexts nc\<rparr>"

definition fresh :: "ir_remote \<Rightarrow> ir_remote" where
  "fresh rm = rm\<lparr>codes := map_option (map fresh_code) (codes rm), dyncode := 0, dyncodes := [zero_ncode, zero_ncode],
     toggle_bit_mask_state := 0, toggle_mask_state := 0, repeat_countdown := 0, last_code := None, toggle_code := None,
     reps := 0, last_send := zero_timeval, min_remaining_gap := 0, max_remaining_gap := 0,
     min_total_signal_length := 0, max_total_signal_length := 0, min_gap_length := 0, max_gap_length := 0,
     min_pulse_length := 0, max_pulse_length := 0, min_space_length := 0, max_space_length := 0,
     release_detected := False\<rparr>"

definition dumpable_head :: "ir_remote \<Rightarrow> bool" where
  "dumpable_head rm \<longleftrightarrow> \<not> is_raw rm \<and> dump_head rm \<and> unwritten_zero rm \<and> serial_written rm
     \<and> toggle_bit rm = 0 \<and> dyncodes_name rm = None"

lemma new_remote_zero:
  "codes new_remote = None" "phead new_remote = 0" "manual_sort new_remote = 0"
  by (simp_all add: new_remote_def zero_remote_def)

lemma head_of_fresh:
  assumes "dumpable_head rm"
  shows "head_of rm = (fresh rm)\<lparr>codes := None\<rparr>"
proof -
  have d: "\<not> is_raw rm" "unwritten_zero rm" "serial_written rm" "dump_repeats rm" "dump_masks rm"
    "toggle_bit rm = 0" "dyncodes_name rm = None"
    using assms by (simp_all add: dumpable_head_def dump_head_def)
  have n: "name_of rm new_remote = new_remote\<lparr>rname := rname rm, manual_sort := manual_sort rm, rdriver := rdriver rm,
      bits := bits rm, flags := flags rm, eps := eps rm, aeps := aeps rm\<rparr>"
    by (rule name_of_eq [OF d(1)]) (simp_all add: new_remote_def zero_remote_def)
  note eqs = timing_of_eq [OF d(1,2)] data_of_eq [OF d(1,2)] repeats_of_eq [OF d(1,2,4)] masks_of_eq [OF d(1,3,5)]
    carrier_of_eq [OF d(2)]
  show ?thesis
    unfolding head_of_def n
    by (simp add: eqs new_remote_def zero_remote_def, cases rm) (use d(6,7) in \<open>simp add: fresh_def\<close>)
qed

section \<open>Codes\<close>

text \<open>The reader inside the codes of the remote \<open>rm\<close>, after the codes \<open>cs\<close>.\<close>

definition in_codes :: "ir_remote list \<Rightarrow> ir_remote \<Rightarrow> ir_ncode list \<Rightarrow> reader \<Rightarrow> reader" where
  "in_codes tops rm cs x = (opened tops rm x)\<lparr>rd_mode := ID_codes, rd_codes_list := cs\<rparr>"

text \<open>A button that fits in a line.\<close>

definition dump_code :: "ir_ncode \<Rightarrow> bool" where
  "dump_code nc \<longleftrightarrow> short_word (nname nc) \<and> \<not> strcaseeq ''include'' (nname nc) \<and> length (nexts nc) \<le> 100"

definition digits_ok :: "ir_remote \<Rightarrow> bool" where
  "digits_ok rm \<longleftrightarrow> 0 \<le> code_digits rm \<and> code_digits rm \<le> 16"

lemma section_line:
  "strtok_all is_ws ''      begin codes'' = [''begin'', ''codes'']"
  "strtok_all is_ws ''      end codes'' = [''end'', ''codes'']"
  "text_line ''      begin codes''" "text_line ''      end codes''" "text_line ''end remote''"
  by (simp_all add: strtok_all_def is_ws_def text_line_def plain_char_def char_literals del: char_of_eq_iff)

lemma section_keys:
  "\<not> strcaseeq ''include'' ''begin''" "\<not> strcaseeq ''include'' ''end''" "strcaseeq ''begin'' ''begin''"
  "\<not> strcaseeq ''begin'' ''end''" "strcaseeq ''end'' ''end''"
  by (simp_all add: strcaseeq_def tolower_def)

lemma text_chop: "text_line l \<Longrightarrow> chop_eol (l @ [newline]) = l"
  by (simp add: chop_line text_line_def)

lemma reads_begin_codes:
  assumes "codes rm = None"
  shows "reads (''      begin codes'' @ [newline]) (opened tops rm x) (in_codes tops rm [] x)"
proof (rule reads_line [OF section_line(3)])
  show "read_line False (''      begin codes'' @ [newline]) (opened tops rm x) = LStep (Some (in_codes tops rm [] x))"
    using read_line_tokens [of "''      begin codes'' @ [newline]" "''begin''" "''codes''" "[]"] assms
    unfolding text_chop [OF section_line(3)]
    by (simp add: section_line section_keys begin_line_def sample_sections begin_codes_def checkMode_def in_codes_def)
qed

lemma reads_end_codes:
  "reads (''      end codes'' @ [newline]) (in_codes tops rm cs x)
    (opened tops (rm\<lparr>codes := Some cs\<rparr>) (x\<lparr>rd_codes_list := cs\<rparr>))"
proof (rule reads_line [OF section_line(4)])
  show "read_line False (''      end codes'' @ [newline]) (in_codes tops rm cs x)
      = LStep (Some (opened tops (rm\<lparr>codes := Some cs\<rparr>) (x\<lparr>rd_codes_list := cs\<rparr>)))"
    using read_line_tokens [of "''      end codes'' @ [newline]" "''end''" "''codes''" "[]"]
    unfolding text_chop [OF section_line(4)]
    by (simp add: section_line section_keys end_line_def sample_sections end_codes_def checkMode_def in_codes_def
      cur_rem_def put_rem_def opened_def)
qed

text \<open>The words of a code line.\<close>

definition code_words :: "int \<Rightarrow> ir_code list \<Rightarrow> string" where
  "code_words w cs = concat (map (\<lambda>c. '' '' @ num_0X w c) cs)"

lemma code_words_tokens: "tokens_acc is_ws [] (code_words w cs) = map (num_0X w) cs"
proof (induction cs)
  case Nil
  then show ?case by (simp add: code_words_def)
next
  case (Cons c cs)
  have b: "tokens_acc is_ws [] (CHR '' '' # s) = tokens_acc is_ws [] s" for s
    using tokens_blanks [of 1 s] by simp
  have e: "code_words w (c # cs) = CHR '' '' # num_0X w c @ code_words w cs" by (simp add: code_words_def)
  show ?case
  proof (cases cs)
    case Nil
    then show ?thesis using tokens_word_end [OF word_num(3), of w c]
      by (simp only: e b) (simp add: code_words_def blank_char)
  next
    case (Cons c' cs')
    then obtain s where s: "code_words w cs = CHR '' '' # s" by (simp add: code_words_def)
    have "tokens_acc is_ws [] s = map (num_0X w) cs" using Cons.IH unfolding s b .
    then show ?thesis unfolding e b s by (simp add: tokens_word_blank)
  qed
qed

lemma num_X_length: "0 \<le> w \<Longrightarrow> w \<le> 16 \<Longrightarrow> length (num_0X w c) \<le> 18"
  using to_HEX_length [of c] by (simp add: num_0X_def)

lemma code_words_line:
  assumes "0 \<le> w" "w \<le> 16"
  shows "list_all plain_char (code_words w cs) \<and> length (code_words w cs) \<le> 19 * length cs"
proof (induction cs)
  case Nil
  then show ?case by (simp add: code_words_def)
next
  case (Cons c cs)
  then show ?case using num_X_length [OF assms, of c] word_plain [OF word_num(3), of w c] blank_char
    by (simp add: code_words_def)
qed

lemma num_X_head: "num_0X w c \<noteq> [] \<and> hd (num_0X w c) \<noteq> CHR ''#''"
  by (simp add: num_0X_def)

lemma define_nodes_words:
  "\<exists>k. define_nodes nc (map (num_0X w) cs) = Some (nc\<lparr>nexts := nexts nc @ cs, current := k\<rparr>)"
proof (induction cs arbitrary: nc)
  case Nil
  then show ?case by (intro exI [of _ "current nc"]) simp
next
  case (Cons c cs)
  let ?nc = "nc\<lparr>nexts := nexts nc @ [c], current := Some (length (nexts nc))\<rparr>"
  obtain k where "define_nodes ?nc (map (num_0X w) cs) = Some (?nc\<lparr>nexts := nexts ?nc @ cs, current := k\<rparr>)"
    using Cons.IH by blast
  then show ?case using num_X_head [of w c] by (intro exI [of _ k]) (simp add: defineNode_def code_num_X)
qed

lemma define_code_words:
  "define_code_line nm (num_0X w c) (map (num_0X w) cs) = Some (zero_ncode\<lparr>nname := nm, code := c, nexts := cs\<rparr>)"
proof -
  let ?nc = "zero_ncode\<lparr>nname := nm, code := c\<rparr>"
  obtain k where "define_nodes ?nc (map (num_0X w) cs) = Some (?nc\<lparr>nexts := nexts ?nc @ cs, current := k\<rparr>)"
    using define_nodes_words by blast
  then show ?thesis by (simp add: define_code_line_def defineCode_def code_num_X zero_ncode_def)
qed

text \<open>A line inside the codes whose second word is a number is a code, whatever its name.\<close>

lemma not_section:
  "\<not> strcaseeq ''codes'' (num_0X w c)" "\<not> strcaseeq ''raw_codes'' (num_0X w c)" "\<not> strcaseeq ''remote'' (num_0X w c)"
  by (simp_all add: num_0X_def strcaseeq_def tolower_def)

lemma reads_code:
  assumes "\<not> is_raw rm" "digits_ok rm" "dump_code nc"
  shows "reads (fprint_remote_signal rm nc) (in_codes tops rm' cs x) (in_codes tops rm' (cs @ [fresh_code nc]) x)"
proof -
  let ?w = "code_digits rm"
  have w: "0 \<le> ?w" "?w \<le> 16" using assms(2) by (simp_all add: digits_ok_def)
  have n: "word (nname nc)" "length (nname nc) < 1000" "\<not> strcaseeq ''include'' (nname nc)" "length (nexts nc) \<le> 100"
    using assms(3) by (simp_all add: dump_code_def short_word_def)
  let ?l = "''          '' @ pad_right 24 (nname nc) @ code_words ?w (code nc # nexts nc)"
  have cw: "code_words ?w (code nc # nexts nc) = CHR '' '' # num_0X ?w (code nc) @ code_words ?w (nexts nc)"
    by (simp add: code_words_def)
  have l: "fprint_remote_signal rm nc = ?l @ [newline]"
    using assms(1) w by (simp add: fprint_remote_signal_def fmt_num_X code_words_def)
  have tl: "text_line ?l"
    using code_words_line [OF w, of "code nc # nexts nc"] word_plain [OF n(1)] n(2,4) blank_char
      list_all_replicate [of plain_char "CHR '' ''" "24 - length (nname nc)", OF blank_char(2)]
    by (auto simp: text_line_def pad_right_def)
  have "tokens_acc is_ws [] ?l = tokens_acc is_ws [] (replicate 10 (CHR '' '') @ pad_right 24 (nname nc) @ code_words ?w (code nc # nexts nc))"
    by (simp add: eval_nat_numeral)
  also have "\<dots> = tokens_acc is_ws [] (nname nc @ CHR '' '' # replicate (24 - length (nname nc)) (CHR '' '')
      @ num_0X ?w (code nc) @ code_words ?w (nexts nc))"
    unfolding tokens_blanks cw pad_right_def by (simp add: replicate_app_Cons_same)
  also have "\<dots> = nname nc # tokens_acc is_ws [] (CHR '' '' # num_0X ?w (code nc) @ code_words ?w (nexts nc))"
    using tokens_blanks [of 1 "num_0X ?w (code nc) @ code_words ?w (nexts nc)"]
    by (simp add: tokens_word_blank [OF n(1)] tokens_blanks)
  also have "\<dots> = nname nc # num_0X ?w (code nc) # map (num_0X ?w) (nexts nc)"
    using code_words_tokens [of ?w "code nc # nexts nc"] unfolding cw by simp
  finally have t: "strtok_all is_ws ?l = nname nc # num_0X ?w (code nc) # map (num_0X ?w) (nexts nc)"
    by (simp add: strtok_all_def)
  have h: "hd ?l \<noteq> CHR ''#''" by simp
  have step: "read_line False (?l @ [newline]) (in_codes tops rm' cs x)
      = LStep (code_line (nname nc) (num_0X ?w (code nc)) (map (num_0X ?w) (nexts nc)) (in_codes tops rm' cs x))"
    unfolding read_line_tokens [of "?l @ [newline]" "nname nc", unfolded text_chop [OF tl], OF t h n(3)]
    by (simp add: begin_line_def end_line_def other_line_def not_section in_codes_def)
  show ?thesis unfolding l
    by (rule reads_line [OF tl]) (simp only: step code_line_def define_code_words,
      simp add: in_codes_def fresh_code_def)
qed

section \<open>Whole remotes\<close>

text \<open>A remote whose text describes it: its fields have values the text can carry, its codes fit
  in lines, and the check at the end of a remote accepts it as it is.\<close>

definition dumpable :: "ir_remote \<Rightarrow> bool" where
  "dumpable rm \<longleftrightarrow> dumpable_head rm \<and> digits_ok rm \<and> list_all dump_code (the (codes rm)) \<and> sanityChecks rm = Some rm"

lemma reads_codes:
  assumes "\<not> is_raw rm" "digits_ok rm" "list_all dump_code cs"
  shows "reads (concat (map (fprint_remote_signal rm) cs)) (in_codes tops rm' ds x)
    (in_codes tops rm' (ds @ map fresh_code cs) x)"
  using assms(3)
proof (induction cs arbitrary: ds)
  case Nil
  then show ?case by simp
next
  case (Cons nc cs)
  then show ?case
    using reads_append [OF reads_code [OF assms(1,2), where nc = nc and cs = ds] Cons.IH [of "ds @ [fresh_code nc]"]]
    by simp
qed

lemma reads_signals:
  assumes "\<not> is_raw rm" "digits_ok rm" "list_all dump_code cs" "codes rm = Some cs" "codes rm' = None"
  shows "\<exists>s. fprint_remote_signals rm = Some s \<and> reads s (opened tops rm' x)
    (opened tops (rm'\<lparr>codes := Some (map fresh_code cs)\<rparr>) (x\<lparr>rd_codes_list := map fresh_code cs\<rparr>))"
proof -
  have t: "fprint_remote_signals rm = Some ((''      begin codes'' @ [newline]) @ concat (map (fprint_remote_signal rm) cs)
      @ (''      end codes'' @ [newline]) @ [newline])" (is "_ = Some ?s")
    using assms(1,4) by (simp add: fprint_remote_signals_def fprint_remote_signal_head_def fprint_remote_signal_foot_def)
  have c: "reads (concat (map (fprint_remote_signal rm) cs)) (in_codes tops rm' [] x) (in_codes tops rm' (map fresh_code cs) x)"
    using reads_codes [OF assms(1-3), where ds = "[]"] by simp
  show ?thesis using t
      reads_append [OF reads_begin_codes [OF assms(5)] reads_append [OF c reads_append [OF reads_end_codes reads_blank]]]
    by blast
qed

text \<open>The checks look at fields that \<open>fresh\<close> keeps.\<close>

lemma checked_fresh:
  assumes "sanityChecks rm = Some rm" "\<not> is_raw rm"
  shows "sanityChecks (fresh rm) = Some (fresh rm)"
proof -
  obtain cs where cs: "codes rm = Some cs" "rname rm \<noteq> None" using assms by (auto simp: sanityChecks_def Let_def split: if_splits option.splits)
  let ?m = "\<lambda>nc. nc\<lparr>code := code nc AND gen_mask (bits rm), nexts := map (\<lambda>c. c AND gen_mask (bits rm)) (nexts nc)\<rparr>"
  let ?r = "rm\<lparr>pre_data := pre_data rm AND gen_mask (pre_data_bits rm), post_data := post_data rm AND gen_mask (post_data_bits rm),
    codes := Some (map ?m cs)\<rparr>"
  have r: "?r = rm" using assms cs by (simp add: sanityChecks_def Let_def)
  have p: "pre_data rm AND gen_mask (pre_data_bits rm) = pre_data rm"
    "post_data rm AND gen_mask (post_data_bits rm) = post_data rm" "map ?m cs = cs"
    using arg_cong [OF r, of pre_data] arg_cong [OF r, of post_data] arg_cong [OF r, of codes] cs(1) by simp_all
  have "map (\<lambda>nc. ?m (fresh_code nc)) cs = map (\<lambda>nc. fresh_code (?m nc)) cs"
    by (simp add: fresh_code_def)
  also have "\<dots> = map fresh_code (map ?m cs)" by simp
  finally have f: "map ?m (map fresh_code cs) = map fresh_code cs" using p(3) by simp
  have raw: "\<not> is_raw (fresh rm)" "rname (fresh rm) \<noteq> None" "codes (fresh rm) = Some (map fresh_code cs)"
    "bits (fresh rm) = bits rm"
    "pre_data (fresh rm) AND gen_mask (pre_data_bits (fresh rm)) = pre_data (fresh rm)"
    "post_data (fresh rm) AND gen_mask (post_data_bits (fresh rm)) = post_data (fresh rm)"
    using assms(2) cs p(1,2) by (simp_all add: fresh_def is_raw_def del: not_None_eq)
  show ?thesis
    using f by (simp add: sanityChecks_def raw Let_def comp_def del: not_None_eq)
qed

lemma end_remote_line:
  "read_line False (''end remote'' @ [newline]) (opened tops rm x) = LStep (end_remote False (opened tops rm x))"
  unfolding sample_read_line by (simp add: end_line_def sample_sections)

lemma reads_remote:
  assumes "dumpable rm"
  shows "\<exists>s x'. fprint_remote_signals rm = Some s \<and> reads (fprint_remote_head rm @ s @ fprint_remote_foot rm)
    (closed tops x) (closed (tops @ [fresh rm]) x')"
proof -
  have d: "dumpable_head rm" "digits_ok rm" "list_all dump_code (the (codes rm))" "sanityChecks rm = Some rm"
    using assms by (simp_all add: dumpable_def)
  have h: "\<not> is_raw rm" "dump_head rm" using d(1) by (simp_all add: dumpable_head_def)
  obtain cs where cs: "codes rm = Some cs" using d(4) h(1) by (auto simp: sanityChecks_def Let_def split: if_splits option.splits)
  then have dc: "list_all dump_code cs" using d(3) by simp
  have hc: "codes (head_of rm) = None" using head_of_fresh [OF d(1)] by simp
  let ?x = "x\<lparr>rd_codes_list := map fresh_code cs\<rparr>" and ?rm = "(head_of rm)\<lparr>codes := Some (map fresh_code cs)\<rparr>"
  have fr: "?rm = fresh rm" using head_of_fresh [OF d(1)] cs by (simp add: fresh_def)
  have "end_remote False (opened tops (fresh rm) ?x) = Some (closed (tops @ [fresh rm]) (opened tops (fresh rm) ?x))"
    using checked_fresh [OF d(4) h(1)]
    by (simp add: end_remote_def checkMode_def opened_def cur_rem_def put_rem_def name_dyncodes_def cut_list_def closed_def)
      (simp add: fresh_def)
  then have e: "reads (''end remote'' @ [newline]) (opened tops (fresh rm) ?x)
      (closed (tops @ [fresh rm]) (opened tops (fresh rm) ?x))"
    by (intro reads_line [OF section_line(5)]) (simp add: end_remote_line del: append.simps)
  obtain s where "fprint_remote_signals rm = Some s" "reads s (opened tops (head_of rm) x) (opened tops (fresh rm) ?x)"
    using reads_signals [OF h(1) d(2) dc cs hc, of tops x] unfolding fr by blast
  then show ?thesis
    using reads_append [OF reads_head [OF h(2)] reads_append [OF _ e]] by (auto simp: fprint_remote_foot_def)
qed

section \<open>Files\<close>

text \<open>What the comment quotes: the time and the kernel release end their lines themselves.\<close>

definition quotable :: "string \<Rightarrow> bool" where
  "quotable s \<longleftrightarrow> list_all plain_char s \<and> length s < 1000"

lemma reads_hash: "list_all plain_char s \<Longrightarrow> length s < 4000 \<Longrightarrow> reads (CHR ''#'' # s @ [newline]) r r"
  using reads_comment [of "CHR ''#'' # s" r]
  by (simp add: text_line_def plain_char_def char_literals del: char_of_eq_iff)

lemma reads_fprint_comment:
  assumes "quotable version" "quotable drv" "quotable time" "quotable cmd" "quotable krel"
    and "rname rm = Some nm" "quotable nm"
  shows "reads (fprint_comment version drv (time @ [newline]) cmd (krel @ [newline]) rm) r r"
proof -
  let ?c = "\<lambda>s. CHR ''#'' # s @ [newline]"
  let ?ls = "[[], '' This config file was automatically generated'',
    '' using lirc-'' @ version @ ''('' @ drv @ '') on '' @ time, '' Command line used: '' @ cmd,
    '' Kernel version (uname -r): '' @ krel, [], '' Remote name (as of config file): '' @ nm,
    '' Brand of remote device, the thing you hold in your hand:'', '' Remote device model nr:'', '' Remote device info url:'',
    '' Does remote device has a bundled capture device e. g., a'', ''     usb dongle? :'',
    '' For bundled USB devices: usb vendor id, product id'', ''     and device string (use dmesg or lsusb):'',
    '' Type of device controlled'', ''     (TV, VCR, Audio, DVD, Satellite, Cable, HTPC, ...) :'',
    '' Device(s) controlled by this remote:'']"
  have whole: "fprint_comment version drv (time @ [newline]) cmd (krel @ [newline]) rm = concat (map ?c ?ls) @ [newline]"
    using assms(6) by (simp add: fprint_comment_def)
  have plain: "list_all (\<lambda>s. list_all plain_char s \<and> length s < 4000) ?ls"
    using assms(1-5,7) by (simp add: quotable_def plain_char_def char_literals del: char_of_eq_iff)
  have body: "reads (concat (map ?c ls)) r r" if "list_all (\<lambda>s. list_all plain_char s \<and> length s < 4000) ls" for ls
    using that
  proof (induction ls)
    case Nil
    then show ?case by simp
  next
    case (Cons s ls)
    then show ?case using reads_append [OF reads_hash [of s r]] by simp
  qed
  show ?thesis unfolding whole by (rule reads_append [OF body [OF plain] reads_blank])
qed

lemma reads_remotes:
  assumes "list_all dumpable rms" "\<And>rm r. dumpable rm \<Longrightarrow> reads (comment rm) r r"
  shows "\<exists>s x'. fprint_remotes comment rms = Some s \<and> reads s (closed tops x) (closed (tops @ map fresh rms) x')"
  using assms(1)
proof (induction rms arbitrary: tops x)
  case Nil
  then show ?case by (intro exI [of _ "[]"] exI [of _ x]) simp
next
  case (Cons rm rms)
  then have d: "dumpable rm" by simp
  obtain s x1 where x1: "fprint_remote_signals rm = Some s" "reads (fprint_remote_head rm @ s @ fprint_remote_foot rm)
      (closed tops x) (closed (tops @ [fresh rm]) x1)"
    using reads_remote [OF d] by blast
  obtain s' x' where s': "fprint_remotes comment rms = Some s'"
    "reads s' (closed (tops @ [fresh rm]) x1) (closed ((tops @ [fresh rm]) @ map fresh rms) x')"
    using Cons.IH [of "tops @ [fresh rm]" x1] Cons.prems by auto
  then have "reads (comment rm @ (fprint_remote_head rm @ s @ fprint_remote_foot rm) @ [newline] @ [newline] @ s')
      (closed tops x) (closed ((tops @ [fresh rm]) @ map fresh rms) x')"
    by (intro reads_append [OF assms(2) [OF d]] reads_append [OF x1(2)] reads_append [OF reads_blank] reads_append [OF reads_blank])
  moreover have "fprint_remotes comment (rm # rms)
      = Some ((comment rm @ (fprint_remote_head rm @ s @ fprint_remote_foot rm)) @ [newline] @ [newline] @ s')"
    using x1(1) s'(1) by (simp add: fprint_remote_def)
  ultimately show ?case unfolding append_assoc list.map by fastforce
qed

lemma reads_whole_file:
  assumes "reads content reader_start (closed tops x)"
  shows "read_config_recursive fs globf False k name content t
    = (case fixup_remotes tops t of None \<Rightarrow> None | Some (rs, t) \<Rightarrow> Some (Inr rs, t))"
proof -
  obtain ls where l: "content = concat (map (\<lambda>l. l @ [newline]) ls)" "list_all text_line ls"
    "\<And>fs globf sub name rest t. read_lines fs globf sub False name (map (\<lambda>l. l @ [newline]) ls @ rest) reader_start t
      = read_lines fs globf sub False name rest (closed tops x) t"
    using assms unfolding reads_def by blast
  have f: "fgets_all 4095 content = map (\<lambda>l. l @ [newline]) ls" unfolding l(1) by (rule fgets_all_lines [OF l(2)])
  have "read_lines fs globf sub False name (fgets_all 4095 content) reader_start t = Some (Inr (closed tops x), t)" for sub t
    using l(3) [where rest = "[]"] by (simp add: f)
  then show ?thesis by (cases k) (simp_all add: finish_file_def closed_def)
qed

end
