(* ===== verification/Dump_Props.thy ===== *)
theory Dump_Props
  imports Dump_Whole
begin

text \<open>
  The properties of \<open>lib/dump_config.c\<close>: a configuration that is written is read back, and what
  the text cannot carry.
\<close>

section \<open>A remote to write\<close>

definition written_sample :: ir_remote where
  "written_sample = sample_remote\<lparr>freq := 38000\<rparr>"

lemma sample_flags: "dump_flags SPACE_ENC"
  unfolding dump_flags_def by code_simp

lemma sample_words: "short_word ''tv''" "short_word ''UP''" "short_word ''DOWN''"
  "\<not> strcaseeq ''include'' ''UP''" "\<not> strcaseeq ''include'' ''DOWN''"
  by (simp_all add: short_word_def word_def is_ws_def plain_char_def char_literals strcaseeq_def tolower_def
      del: char_of_eq_iff)

lemma sample_dumpable: "dumpable written_sample"
proof -
  have h: "dumpable_head written_sample"
    using sample_flags sample_words(1)
    by (simp add: dumpable_head_def dump_head_def dump_name_def dump_timing_def dump_data_def dump_repeats_def
        dump_masks_def dump_carrier_def unwritten_zero_def serial_written_def written_sample_def sample_remote_def
        zero_remote_def is_int_def is_unsigned_def c_defs)
  have d: "digits_ok written_sample"
    by (simp add: digits_ok_def code_digits_def written_sample_def sample_remote_def zero_remote_def c_arith)
  have c: "list_all dump_code (the (codes written_sample))"
    using sample_words by (simp add: dump_code_def written_sample_def sample_remote_def zero_remote_def sample_button_plain)
  have m: "(5 :: ir_code) AND gen_mask 4 = 5" "(10 :: ir_code) AND gen_mask 4 = 10" "(14 :: ir_code) AND gen_mask 4 = 14"
    by code_simp+
  have "sanityChecks written_sample = Some written_sample"
    by (simp add: sanityChecks_def written_sample_def sample_remote_def zero_remote_def sample_button_def zero_ncode_def c_defs m)
  with h d c show ?thesis by (simp add: dumpable_def)
qed

text \<open>C13. A file of configurations that \<open>fprint_remotes\<close> has written is read back: the reader finds
  the remotes as they were, with what the daemon keeps in them while it runs set to its start values,
  and then repairs them as it does with every file. The remotes are those that are not raw, that the
  check at the end of a remote accepts, and whose fields have values the text mentions.\<close>

lemma written_remotes_are_read:
  assumes "list_all dumpable rms"
    and "list_all quotable [version, drv, time, cmd, krel]"
  shows "\<exists>text. fprint_remotes (fprint_comment version drv (time @ [newline]) cmd (krel @ [newline])) rms = Some text
    \<and> read_config_recursive fs globf False k name text t
      = (case fixup_remotes (map fresh rms) t of None \<Rightarrow> None | Some (rs, t') \<Rightarrow> Some (Inr rs, t'))"
proof -
  let ?c = "fprint_comment version drv (time @ [newline]) cmd (krel @ [newline])"
  have c: "reads (?c rm) r r" if "dumpable rm" for rm r
  proof -
    obtain nm where "rname rm = Some nm" "short_word nm"
      using \<open>dumpable rm\<close> by (auto simp: dumpable_def dumpable_head_def dump_head_def dump_name_def)
    then show ?thesis using assms(2)
      by (intro reads_fprint_comment [where nm = nm]) (simp_all add: quotable_def short_word_def word_plain)
  qed
  obtain s x where "fprint_remotes ?c rms = Some s" "reads s (closed [] reader_start) (closed (map fresh rms) x)"
    using reads_remotes [OF assms(1), where tops = "[]" and x = reader_start and comment = ?c] c by auto
  moreover have "closed [] reader_start = reader_start" by (simp add: closed_def reader_start_def)
  ultimately show ?thesis using reads_whole_file by auto
qed

lemma written_remotes_are_read_witness:
  "\<exists>text rm t'. fprint_remotes (fprint_comment ''0.10'' ''default'' (''now'' @ [newline]) ''irrecord'' (''5.4'' @ [newline]))
      [written_sample] = Some text
    \<and> read_config_recursive (\<lambda>f. None) (\<lambda>p. []) False 0 ''lircd.conf'' text sample_tx = Some (Inr [rm], t')
    \<and> rname rm = Some ''tv''"
proof -
  have q: "list_all quotable [''0.10'', ''default'', ''now'', ''irrecord'', ''5.4'']"
    by (simp add: quotable_def plain_char_def char_literals del: char_of_eq_iff)
  have d: "list_all dumpable [written_sample]" using sample_dumpable by simp
  have n: "codes (fresh written_sample) \<noteq> None" "rname (fresh written_sample) = Some ''tv''"
    by (simp_all add: fresh_def written_sample_def sample_remote_def zero_remote_def)
  obtain rm t' where "fixup_remote (fresh written_sample) sample_tx = Some (rm, t')" "rname rm = Some ''tv''"
    using fixup_remote_result [of "fresh written_sample" sample_tx] n by force
  then show ?thesis
    using written_remotes_are_read [OF d q, where fs = "\<lambda>f. None" and globf = "\<lambda>p. []" and k = 0
        and name = "''lircd.conf''" and t = sample_tx]
    by (simp del: read_config_recursive.simps) blast
qed

section \<open>What is lost\<close>

text \<open>The parity of a serial remote does not show in the text.\<close>

lemma parity_is_lost: "fprint_remote_head (rm\<lparr>parity := p\<rparr>) = fprint_remote_head rm"
  "fprint_remote_signals (rm\<lparr>parity := p\<rparr>) = fprint_remote_signals rm"
proof -
  have "print_name (rm\<lparr>parity := p\<rparr>) = print_name rm" "print_timing (rm\<lparr>parity := p\<rparr>) = print_timing rm"
    "print_data (rm\<lparr>parity := p\<rparr>) = print_data rm" "print_repeats (rm\<lparr>parity := p\<rparr>) = print_repeats rm"
    "print_masks (rm\<lparr>parity := p\<rparr>) = print_masks rm" "print_carrier (rm\<lparr>parity := p\<rparr>) = print_carrier rm"
    by (simp_all add: print_name_def print_timing_def print_data_def print_repeats_def fprint_remote_gap_def print_masks_def
        print_carrier_def c_defs)
  moreover have "fprint_remote_signal (rm\<lparr>parity := p\<rparr>) = fprint_remote_signal rm"
    by (simp add: fun_eq_iff fprint_remote_signal_def code_digits_def c_defs)
  ultimately show "fprint_remote_head (rm\<lparr>parity := p\<rparr>) = fprint_remote_head rm"
    "fprint_remote_signals (rm\<lparr>parity := p\<rparr>) = fprint_remote_signals rm"
    by (simp_all add: fprint_remote_head_def fprint_remote_signals_def fprint_remote_signal_head_def
        fprint_remote_signal_foot_def c_defs)
qed

end
