(* ===== verification/Client_Types.thy ===== *)
theory Client_Types
  imports CStdlib
begin

text \<open>
  The data model of \<open>lib/lirc_client.h\<close>: the entries of a \<open>lircrc\<close> file and the configuration of
  a client. A list linked by \<open>next\<close> is a list; a pointer into it (\<open>next_code\<close>, \<open>next_config\<close> of an
  entry, \<open>next\<close> of the configuration) is an index, \<open>None\<close> for NULL. The constant \<open>LIRC_ALL\<close>, the
  address \<open>-1\<close> that stands for any remote or button, is \<open>None\<close> as well: no field that can be
  \<open>LIRC_ALL\<close> is ever NULL.
\<close>

section \<open>Flags\<close>

text \<open>\<open>enum lirc_flags\<close>.\<close>

abbreviation (input) f_once :: int where "f_once \<equiv> 0x01"
abbreviation (input) f_quit :: int where "f_quit \<equiv> 0x02"
abbreviation (input) f_mode :: int where "f_mode \<equiv> 0x04"
abbreviation (input) f_ecno :: int where "f_ecno \<equiv> 0x08"
abbreviation (input) f_startup_mode :: int where "f_startup_mode \<equiv> 0x10"
abbreviation (input) f_toggle_reset :: int where "f_toggle_reset \<equiv> 0x20"

section \<open>Structures\<close>

record lirc_code =
  lc_remote :: "string option"
  lc_button :: "string option"

record lirc_entry =
  le_prog :: "string option"
  le_code :: "lirc_code list"
  le_rep_delay :: int
  le_ign_first_events :: int
  le_rep :: int
  le_config :: "string list"
  le_change_mode :: "string option"
  le_flags :: int
  le_mode :: "string option"
  le_next_config :: "nat option"
  le_next_code :: "nat option"

record lirc_config =
  cf_lircrc_class :: "string option"
  cf_current_mode :: "string option"
  cf_next :: "nat option"
  cf_first :: "lirc_entry list"

text \<open>The head of a list, and the \<open>next\<close> pointer of an element.\<close>

definition list_head :: "'a list \<Rightarrow> nat option" where
  "list_head xs = (if xs = [] then None else Some 0)"

definition list_next :: "'a list \<Rightarrow> nat \<Rightarrow> nat option" where
  "list_next xs i = (if i + 1 < length xs then Some (i + 1) else None)"

definition empty_entry :: lirc_entry where
  "empty_entry = \<lparr>le_prog = None, le_code = [], le_rep_delay = 0, le_ign_first_events = 0, le_rep = 0,
     le_config = [], le_change_mode = None, le_flags = 0, le_mode = None, le_next_config = None,
     le_next_code = None\<rparr>"

text \<open>A test of a flag; setting and clearing one.\<close>

definition has_flag :: "lirc_entry \<Rightarrow> int \<Rightarrow> bool" where
  "has_flag e f \<longleftrightarrow> le_flags e AND f \<noteq> 0"

definition set_ecno :: "lirc_entry \<Rightarrow> lirc_entry" where
  "set_ecno e = e\<lparr>le_flags := le_flags e OR f_ecno\<rparr>"

definition clear_ecno :: "lirc_entry \<Rightarrow> lirc_entry" where
  "clear_ecno e = e\<lparr>le_flags := le_flags e AND NOT f_ecno\<rparr>"

text \<open>\<open>strcasecmp\<close> of two strings of which neither is NULL.\<close>

definition opt_caseeq :: "string option \<Rightarrow> string option \<Rightarrow> bool" where
  "opt_caseeq a b \<longleftrightarrow> (case (a, b) of (Some x, Some y) \<Rightarrow> strcaseeq x y | _ \<Rightarrow> False)"

lemma list_head_next_valid:
  "list_head xs = Some i \<Longrightarrow> i < length xs" "list_next xs i = Some j \<Longrightarrow> j < length xs \<and> j = i + 1"
  by (auto simp: list_head_def list_next_def split: if_splits)

end
