(* ===== verification/Client_Lines.thy ===== *)
theory Client_Lines
  imports Client_Types Config_Read
begin

text \<open>
  \<open>lib/lirc_client.c\<close>, the handling of the lines of a \<open>lircrc\<close> file: reading a line, trimming,
  escape sequences, the names of included files, flags; and the functions of the C library that
  take a line or a code apart. The warnings these functions print are left out.
\<close>

section \<open>The C library\<close>

text \<open>One call of \<open>strtok\<close>: the token, and what later calls continue with.\<close>

definition strtok_step :: "(char \<Rightarrow> bool) \<Rightarrow> string \<Rightarrow> string option \<times> string" where
  "strtok_step delim s =
     (let t = dropWhile delim s;
          u = dropWhile (\<lambda>c. \<not> delim c) t
      in (if t = [] then None else Some (takeWhile (\<lambda>c. \<not> delim c) t), drop 1 u))"

text \<open>The conversion \<open>%x\<close> of \<open>sscanf\<close>: the number, as the \<open>unsigned\<close> it is stored in, and the rest.\<close>

definition hex_prefix :: "string \<Rightarrow> (nat \<times> string) option" where
  "hex_prefix s = (case s of
     z # x # cs \<Rightarrow>
       if z = CHR ''0'' \<and> (x = CHR ''x'' \<or> x = CHR ''X'')
       then (if cs \<noteq> [] \<and> is_digit_of 16 (hd cs) then Some (read_digits 16 0 cs) else None)
       else if is_digit_of 16 z then Some (read_digits 16 0 s) else None
   | [z] \<Rightarrow> if is_digit_of 16 z then Some (read_digits 16 0 s) else None
   | [] \<Rightarrow> None)"

definition scan_hex :: "string \<Rightarrow> (int \<times> string) option" where
  "scan_hex s =
     (let s = dropWhile isspace s;
          neg = (s \<noteq> [] \<and> hd s = CHR ''-'');
          s = (if s \<noteq> [] \<and> (hd s = CHR ''-'' \<or> hd s = CHR ''+'') then tl s else s)
      in map_option (\<lambda>(m, r). (u32 (if m \<ge> 2 ^ 64 then 2 ^ 64 - 1 else if neg then - int m else int m), r))
           (hex_prefix s))"

section \<open>Lines\<close>

abbreviation (input) LIRC_READ :: nat where "LIRC_READ \<equiv> 255"

text \<open>The loop of \<open>lirc_readline\<close>: \<open>acc\<close> is what has been read of the line. The result is the line,
  None at the end of the file, and the rest of the file.\<close>

function readline_loop :: "string \<Rightarrow> string \<Rightarrow> string option \<times> string" where
  "readline_loop acc f =
     (if f = [] then (if acc \<noteq> [] then Some acc else None, [])
      else (let (l, r) = fgets LIRC_READ f; s = acc @ l
            in if last s = newline then (Some (butlast s), r) else readline_loop s r))"
  by pat_completeness auto
termination
proof (relation "measure (\<lambda>(acc, f). length f)")
  fix acc f x l r s
  assume a: "f \<noteq> []" "x = fgets LIRC_READ f" "(l, r) = x"
  then obtain c cs where "f = c # cs" by (cases f) auto
  with a show "((s, r), (acc, f)) \<in> measure (\<lambda>(acc, f). length f)"
    using fgets_progress [of 254 c cs l r] by (simp add: eval_nat_numeral)
qed simp

declare readline_loop.simps [simp del]

definition lirc_readline :: "string \<Rightarrow> string option \<times> string" where
  "lirc_readline f = readline_loop [] f"

definition lirc_trim :: "string \<Rightarrow> string" where
  "lirc_trim s = rev (dropWhile is_ws (rev (dropWhile is_ws s)))"

section \<open>Escape sequences\<close>

abbreviation (input) nul :: char where "nul \<equiv> char_of (0::nat)"

text \<open>Up to \<open>n\<close> further octal digits.\<close>

fun read_octal :: "nat \<Rightarrow> nat \<Rightarrow> string \<Rightarrow> nat \<times> string" where
  "read_octal (Suc n) i (c # cs) =
     (if is_digit_of 8 c then read_octal n (i * 8 + the (digit_val c)) cs else (i, c # cs))"
| "read_octal n i s = (i, s)"

text \<open>The letters with an escape sequence of their own.\<close>

definition escape_letters :: "(char \<times> char) list" where
  "escape_letters = [(CHR ''a'', char_of (7::nat)), (CHR ''b'', char_of (8::nat)), (CHR ''e'', char_of (27::nat)),
     (CHR ''f'', char_of (12::nat)), (CHR ''n'', newline), (CHR ''r'', carriage_return),
     (CHR ''t'', char_of (9::nat)), (CHR ''v'', char_of (11::nat)), (newline, nul)]"

text \<open>\<open>lirc_parse_escape\<close> on the string behind the backslash. Of a hexadecimal number of any length
  the low eight bits are kept, which the wrap-around of the \<open>unsigned int\<close> does not touch.\<close>

definition lirc_parse_escape :: "string \<Rightarrow> char \<times> string" where
  "lirc_parse_escape s = (case s of
     [] \<Rightarrow> (nul, [])
   | c # cs \<Rightarrow>
       (case map_of escape_letters c of
          Some d \<Rightarrow> (d, cs)
        | None \<Rightarrow>
            (if is_digit_of 8 c then
               (let (i, r) = read_octal 2 (the (digit_val c)) cs in (char_of (i mod 256), r))
             else if c = CHR ''x'' then
               (let (i, r) = read_digits 16 0 cs in (char_of (i mod 256), r))
             else if 64 \<le> (of_char c :: nat) \<and> (of_char c :: nat) \<le> 90 then (char_of (of_char c - 64 :: nat), cs)
             else (c, cs))))"

lemma read_octal_length: "read_octal n i s = (j, r) \<Longrightarrow> length r \<le> length s"
  by (induction n i s arbitrary: j r rule: read_octal.induct) (auto split: if_splits dest: le_SucI)

lemma read_digits_length: "read_digits b i s = (j, r) \<Longrightarrow> length r \<le> length s"
  by (induction s arbitrary: i j r) (auto split: if_splits dest: le_SucI)

lemma escape_length: "lirc_parse_escape s = (c, r) \<Longrightarrow> length r \<le> length s"
  by (cases s) (auto simp: lirc_parse_escape_def Let_def split: option.splits if_splits prod.splits
      dest!: read_octal_length read_digits_length)

text \<open>The characters \<open>lirc_parse_string\<close> writes; the string they make ends at the first NUL.\<close>

function unescape :: "string \<Rightarrow> string" where
  "unescape s = (case s of
     [] \<Rightarrow> []
   | c # cs \<Rightarrow>
       (if c = CHR 0x5C then (let (d, r) = lirc_parse_escape cs in d # unescape r) else c # unescape cs))"
  by pat_completeness auto
termination
  by (relation "measure length") (auto dest!: escape_length [OF sym])

declare unescape.simps [simp del]

definition lirc_parse_string :: "string \<Rightarrow> string" where
  "lirc_parse_string s = takeWhile (\<lambda>c. c \<noteq> nul) (unescape s)"

section \<open>Include, flags\<close>

definition client_parse_include :: "string \<Rightarrow> string" where
  "client_parse_include s =
     (if length s < 2 then s
      else if hd s = CHR 0x22 \<and> last s = CHR 0x22 \<or> hd s = CHR ''<'' \<and> last s = CHR ''>''
      then butlast (tl s) else s)"

text \<open>The first token ends at a blank or a bar, the others at a blank.\<close>

definition flag_words :: "string \<Rightarrow> string list" where
  "flag_words s = (case strtok_step (\<lambda>c. is_ws c \<or> c = CHR ''|'') s of
     (None, _) \<Rightarrow> []
   | (Some w, r) \<Rightarrow> w # strtok_all is_ws r)"

definition client_flag :: "string \<Rightarrow> int" where
  "client_flag w =
     (if strcaseeq w ''once'' then f_once
      else if strcaseeq w ''quit'' then f_quit
      else if strcaseeq w ''mode'' then f_mode
      else if strcaseeq w ''startup_mode'' then f_startup_mode
      else if strcaseeq w ''toggle_reset'' then f_toggle_reset
      else 0)"

definition lirc_flags :: "string \<Rightarrow> int" where
  "lirc_flags s = fold (\<lambda>w fl. fl OR client_flag w) (flag_words s) 0"

end
