(* ===== verification/Client_Code.thy ===== *)
theory Client_Code
  imports Client_Lines
begin

text \<open>
  \<open>lib/lirc_client.c\<close>, the translation of a received code to the strings of a \<open>lircrc\<close> file:
  \<open>rep_filter\<close>, \<open>lirc_iscode\<close>, \<open>lirc_clearmode\<close>, \<open>lirc_execute\<close> and \<open>lirc_code2char_internal\<close>. \<open>None\<close>: a pointer that
  is NULL or \<open>LIRC_ALL\<close> is dereferenced. The global \<open>lirc_prog\<close> is the argument \<open>prog\<close>.
\<close>

section \<open>Repetitions\<close>

definition rep_filter :: "lirc_entry \<Rightarrow> int \<Rightarrow> bool" where
  "rep_filter scan rep =
     (let rep_delay = (if le_ign_first_events scan \<noteq> 0 then i32 (le_ign_first_events scan) else i32 (le_rep_delay scan));
          delay_start = (if le_ign_first_events scan \<noteq> 0 then 0 else 1)
      in if rep < delay_start then True
         else if le_rep scan = 0 \<and> rep_delay > 0 \<and> rep = i32 (rep_delay + delay_start) then True
         else if le_rep scan > 0 \<and> rep \<ge> i32 (rep_delay + delay_start)
              then u32 (rep - i32 (rep_delay + delay_start)) mod le_rep scan = 0
         else False)"

section \<open>Sequences of buttons\<close>

text \<open>The code \<open>c\<close> of an entry against a remote and a button.\<close>

definition code_match :: "lirc_code \<Rightarrow> string \<Rightarrow> string \<Rightarrow> bool" where
  "code_match c remote button \<longleftrightarrow>
     (case lc_remote c of None \<Rightarrow> True | Some r \<Rightarrow> strcaseeq r remote)
     \<and> (case lc_button c of None \<Rightarrow> True | Some b \<Rightarrow> strcaseeq b button)"

text \<open>The comparison of two fields of codes of the entry: \<open>strcasecmp\<close> of a name with \<open>LIRC_ALL\<close>
  reads from the address \<open>-1\<close>.\<close>

definition field_match :: "string option \<Rightarrow> string option \<Rightarrow> bool option" where
  "field_match p n = (case p of None \<Rightarrow> Some True | Some s \<Rightarrow> map_option (strcaseeq s) n)"

definition codes_agree :: "lirc_code \<Rightarrow> lirc_code \<Rightarrow> bool option" where
  "codes_agree p n = (case field_match (lc_remote p) (lc_remote n) of
     None \<Rightarrow> None
   | Some False \<Rightarrow> Some False
   | Some True \<Rightarrow> field_match (lc_button p) (lc_button n))"

text \<open>The inner loop of the rebasing: the codes at \<open>p\<close>, \<open>p + 1\<close> \<open>\<dots>\<close> against those at \<open>n\<close>, \<open>n + 1\<close>
  \<open>\<dots>\<close> up to the one expected next, at \<open>e\<close>.\<close>

function rebase_compare :: "lirc_code list \<Rightarrow> nat \<Rightarrow> nat \<Rightarrow> nat \<Rightarrow> bool option" where
  "rebase_compare cs e p n =
     (if e \<le> n then Some True
      else (case codes_agree (cs ! p) (cs ! n) of
          None \<Rightarrow> None
        | Some False \<Rightarrow> Some False
        | Some True \<Rightarrow> rebase_compare cs e (p + 1) (n + 1)))"
  by pat_completeness auto
termination by (relation "measure (\<lambda>(cs, e, p, n). e - n)") auto

declare rebase_compare.simps [simp del]

text \<open>The outer loop: the first start \<open>j\<close> from which the codes pressed so far begin the sequence
  again and the new button continues it.\<close>

function rebase :: "lirc_code list \<Rightarrow> string \<Rightarrow> string \<Rightarrow> nat \<Rightarrow> nat \<Rightarrow> nat option option" where
  "rebase cs remote button e j =
     (if e < j then Some None
      else (case rebase_compare cs e 0 j of
          None \<Rightarrow> None
        | Some flag \<Rightarrow>
            (if flag \<and> code_match (cs ! (e - j)) remote button then Some (Some (e - j + 1))
             else rebase cs remote button e (j + 1))))"
  by pat_completeness auto
termination by (relation "measure (\<lambda>(cs, remote, button, e, j). e + 1 - j)") auto

declare rebase.simps [simp del]

definition lirc_iscode :: "lirc_entry \<Rightarrow> string \<Rightarrow> string \<Rightarrow> int \<Rightarrow> (nat \<times> lirc_entry) option" where
  "lirc_iscode scan remote button rep =
     (let cs = le_code scan
      in if cs = [] then Some (if rep_filter scan rep then 1 else 0, scan)
         else (case le_next_code scan of
             None \<Rightarrow> None
           | Some n \<Rightarrow>
               (if code_match (cs ! n) remote button then
                  (let next = (if length cs = 1 \<or> rep = 0 then list_next cs n else Some n);
                       iscode = (if (length cs = 1 \<or> rep = 0) \<and> length cs > 1 then 1 else 0)
                   in if next = None
                      then Some (if length cs > 1 \<or> rep_filter scan rep then 2 else iscode,
                                 scan\<lparr>le_next_code := Some 0\<rparr>)
                      else Some (iscode, scan\<lparr>le_next_code := next\<rparr>))
                else if rep \<noteq> 0 then Some (0, scan)
                else
                  (let scan = (if has_flag scan f_toggle_reset
                               then scan\<lparr>le_next_config := list_head (le_config scan)\<rparr> else scan)
                   in if n = 0 then Some (0, scan)
                      else (case rebase cs remote button n 1 of
                          None \<Rightarrow> None
                        | Some None \<Rightarrow> Some (0, scan\<lparr>le_next_code := Some 0\<rparr>)
                        | Some (Some m) \<Rightarrow>
                            Some (0, scan\<lparr>le_next_code := (if m < length cs then Some m else None)\<rparr>))))))"

section \<open>Modes and strings\<close>

text \<open>Updating the entry at an index.\<close>

definition upd_entry :: "nat \<Rightarrow> (lirc_entry \<Rightarrow> lirc_entry) \<Rightarrow> lirc_config \<Rightarrow> lirc_config" where
  "upd_entry i f c = c\<lparr>cf_first := (cf_first c)[i := f (cf_first c ! i)]\<rparr>"

definition lirc_clearmode :: "lirc_config \<Rightarrow> lirc_config" where
  "lirc_clearmode c = (case cf_current_mode c of
     None \<Rightarrow> c
   | Some m \<Rightarrow> c\<lparr>cf_first := map (\<lambda>e. case le_change_mode e of
          Some x \<Rightarrow> if strcaseeq x m then clear_ecno e else e
        | None \<Rightarrow> e) (cf_first c), cf_current_mode := None\<rparr>)"

text \<open>The mode an entry changes to, and whether it may act: an entry with the flag \<open>once\<close> acts only
  the first time after its mode has been left.\<close>

definition enter_mode :: "nat \<Rightarrow> lirc_config \<Rightarrow> bool \<times> lirc_config" where
  "enter_mode i c =
     (let scan = cf_first c ! i
      in case le_change_mode scan of
           None \<Rightarrow> (True, c)
         | Some m \<Rightarrow>
             (let c = c\<lparr>cf_current_mode := Some m\<rparr>
              in if has_flag scan f_once
                 then (if has_flag scan f_ecno then (False, c) else (True, upd_entry i set_ecno c))
                 else (True, c)))"

text \<open>The string at \<open>next_config\<close>, which moves on and starts again at the end.\<close>

definition next_string :: "nat \<Rightarrow> lirc_config \<Rightarrow> string option \<times> lirc_config" where
  "next_string i c =
     (let scan = cf_first c ! i
      in case le_next_config scan of
           None \<Rightarrow> (None, c)
         | Some k \<Rightarrow> (Some (le_config scan ! k),
             upd_entry i (\<lambda>e. e\<lparr>le_next_config := (case list_next (le_config e) k of
                None \<Rightarrow> list_head (le_config e) | Some l \<Rightarrow> Some l)\<rparr>) c))"

definition lirc_execute :: "string option \<Rightarrow> lirc_config \<Rightarrow> nat \<Rightarrow> string option \<times> lirc_config" where
  "lirc_execute prog c i =
     (let c = (if has_flag (cf_first c ! i) f_mode then lirc_clearmode c else c);
          (do_once, c) = enter_mode i c;
          scan = cf_first c ! i
      in if le_next_config scan \<noteq> None \<and> le_prog scan \<noteq> None
            \<and> (prog = None \<or> opt_caseeq (le_prog scan) prog) \<and> do_once
         then next_string i c else (None, c))"

section \<open>The scan over the entries\<close>

text \<open>The mode an entry asks for is the current one.\<close>

definition in_mode :: "lirc_config \<Rightarrow> lirc_entry \<Rightarrow> bool" where
  "in_mode c e \<longleftrightarrow> le_mode e = None \<or> opt_caseeq (le_mode e) (cf_current_mode c)"

text \<open>The loop, over the entries at the indices \<open>is\<close>. The result is the string, its program and
  the configuration.\<close>

fun code_scan :: "string option \<Rightarrow> string \<Rightarrow> string \<Rightarrow> int \<Rightarrow> nat list \<Rightarrow> bool
    \<Rightarrow> (string option \<times> string option) \<times> lirc_config
    \<Rightarrow> ((string option \<times> string option) \<times> lirc_config) option" where
  "code_scan prog remote button rep [] quit (s, c) = Some (s, c)"
| "code_scan prog remote button rep (i # is) quit (s, c) =
     (case lirc_iscode (cf_first c ! i) remote button rep of
        None \<Rightarrow> None
      | Some (exec_level, scan) \<Rightarrow>
          (let c = upd_entry i (\<lambda>_. scan) c
           in if exec_level > 0 \<and> in_mode c scan \<and> \<not> quit then
                (let (t, c) = (if exec_level > 1 then lirc_execute prog c i else (None, c));
                     s = (t, if t \<noteq> None then le_prog scan else snd s)
                 in if has_flag (cf_first c ! i) f_quit
                    then code_scan prog remote button rep is True (s, c\<lparr>cf_next := None\<rparr>)
                    else if t \<noteq> None then Some (s, c\<lparr>cf_next := list_next (cf_first c) i\<rparr>)
                    else code_scan prog remote button rep is quit (s, c))
              else code_scan prog remote button rep is quit (s, c)))"

text \<open>The code a client gets from \<open>lircd\<close>, taken apart: the repeat count, the button and the remote.
  The line counts as a code when two hexadecimal numbers begin it.\<close>

definition code_rep :: "string \<Rightarrow> int option" where
  "code_rep s = (case scan_hex s of
     None \<Rightarrow> None
   | Some (_, r) \<Rightarrow> map_option (\<lambda>(n, _). i32 n) (scan_hex r))"

definition code_fields :: "string \<Rightarrow> string option \<times> string option" where
  "code_fields s =
     (let blank = (\<lambda>c. c = CHR '' '');
          (_, s) = strtok_step blank s;
          (_, s) = strtok_step blank s;
          (button, s) = strtok_step blank s;
          (remote, _) = strtok_step (\<lambda>c. c = newline) s
      in (button, remote))"

text \<open>\<open>lirc_code2char_internal\<close> gives the string and its program; when it is called again with the same code
  it goes on behind the entry that gave the string.\<close>

definition lirc_code2char_internal :: "string option \<Rightarrow> lirc_config \<Rightarrow> string
    \<Rightarrow> ((string option \<times> string option) \<times> lirc_config) option" where
  "lirc_code2char_internal prog c s =
     (case code_rep s of
        None \<Rightarrow> Some ((None, None), c\<lparr>cf_next := list_head (cf_first c)\<rparr>)
      | Some rep \<Rightarrow>
          (case code_fields s of
             (Some button, Some remote) \<Rightarrow>
               (case code_scan prog remote button rep
                   (case cf_next c of None \<Rightarrow> [] | Some i \<Rightarrow> [i..<length (cf_first c)]) False ((None, None), c) of
                  None \<Rightarrow> None
                | Some ((t, p), c) \<Rightarrow>
                    Some ((t, p), if t \<noteq> None then c else c\<lparr>cf_next := list_head (cf_first c)\<rparr>))
           | _ \<Rightarrow> Some ((None, None), c)))"

text \<open>\<open>lirc_code2charprog\<close>: the entries of every program act.\<close>

definition lirc_code2charprog :: "lirc_config \<Rightarrow> string \<Rightarrow> ((string option \<times> string option) \<times> lirc_config) option" where
  "lirc_code2charprog c s = lirc_code2char_internal None c s"

end
