(* ===== verification/Client_Sequence.thy ===== *)
theory Client_Sequence
  imports Client_Code
begin

text \<open>
  Sequences of buttons. The entry keeps how much of its sequence has been pressed; on a button that
  does not go on it looks for the longest beginning of the sequence the last buttons make. The
  reference is the history of buttons: the longest beginning of the sequence that the history ends with.
\<close>

type_synonym press = "string \<times> string"

definition pressed :: "lirc_code \<Rightarrow> press \<Rightarrow> bool" where
  "pressed c p \<longleftrightarrow> code_match c (fst p) (snd p)"

text \<open>The last \<open>i\<close> buttons of the history are the first \<open>i\<close> of the sequence.\<close>

definition ends_with :: "lirc_code list \<Rightarrow> press list \<Rightarrow> nat \<Rightarrow> bool" where
  "ends_with cs ps i \<longleftrightarrow> i \<le> length ps \<and> i \<le> length cs
     \<and> (\<forall>k < i. pressed (cs ! k) (ps ! (length ps - i + k)))"

text \<open>How far the sequence has got: the longest proper beginning.\<close>

definition progress :: "lirc_code list \<Rightarrow> press list \<Rightarrow> nat" where
  "progress cs ps = Max {i. i < length cs \<and> ends_with cs ps i}"

definition named :: "lirc_code list \<Rightarrow> bool" where
  "named cs \<longleftrightarrow> list_all (\<lambda>c. lc_remote c \<noteq> None \<and> lc_button c \<noteq> None) cs"

section \<open>The longest beginning\<close>

lemma ends_with_0 [simp]: "ends_with cs ps 0"
  by (simp add: ends_with_def)

lemma progress_set: "finite {i. i < length cs \<and> ends_with cs ps i}"
  by simp

lemma progress_is:
  assumes "cs \<noteq> []"
  shows "progress cs ps < length cs" "ends_with cs ps (progress cs ps)"
    and "\<And>i. i < length cs \<Longrightarrow> ends_with cs ps i \<Longrightarrow> i \<le> progress cs ps"
proof -
  have "0 \<in> {i. i < length cs \<and> ends_with cs ps i}" using assms by simp
  then have "progress cs ps \<in> {i. i < length cs \<and> ends_with cs ps i}"
    unfolding progress_def using progress_set Max_in by blast
  then show "progress cs ps < length cs" "ends_with cs ps (progress cs ps)" by auto
  show "i \<le> progress cs ps" if "i < length cs" "ends_with cs ps i" for i
    unfolding progress_def by (rule Max_ge [OF progress_set]) (use that in simp)
qed

lemma progressI:
  assumes "n < length cs" "ends_with cs ps n" "\<And>i. n < i \<Longrightarrow> i < length cs \<Longrightarrow> \<not> ends_with cs ps i"
  shows "progress cs ps = n"
proof -
  have "cs \<noteq> []" using assms(1) by auto
  from progress_is [OF this, where ps = ps] assms show ?thesis by (meson linorder_neqE_nat leD)
qed

lemma ends_with_snoc:
  "ends_with cs (ps @ [p]) (Suc i) \<longleftrightarrow> Suc i \<le> length cs \<and> ends_with cs ps i \<and> pressed (cs ! i) p"
proof -
  have "(ps @ [p]) ! (length ps - i + k) = (if k < i then ps ! (length ps - i + k) else p)"
    if "k < Suc i" "i \<le> length ps" for k
    using that by (auto simp: nth_append)
  then show ?thesis by (auto simp: ends_with_def less_Suc_eq)
qed

text \<open>What the comparison of the entry's own codes tells of the history: where the history ends with
  the first \<open>n\<close> codes it also ends with the first \<open>m\<close> exactly if these agree with the last \<open>m\<close> of
  the \<open>n\<close>.\<close>

definition agree_shifted :: "lirc_code list \<Rightarrow> nat \<Rightarrow> nat \<Rightarrow> bool" where
  "agree_shifted cs n j \<longleftrightarrow> (\<forall>k < n - j. codes_agree (cs ! k) (cs ! (j + k)) = Some True)"

lemma pressed_same:
  assumes "lc_remote c \<noteq> None" "lc_button c \<noteq> None" "pressed d p"
    "lc_remote d \<noteq> None" "lc_button d \<noteq> None"
  shows "codes_agree c d = Some (pressed c p)"
proof -
  obtain r b s t where "lc_remote c = Some r" "lc_button c = Some b" "lc_remote d = Some s" "lc_button d = Some t"
    using assms by blast
  then show ?thesis using assms(3)
    by (auto simp: codes_agree_def field_match_def pressed_def code_match_def strcaseeq_def split: bool.splits)
qed

lemma ends_with_shorter:
  assumes "named cs" "ends_with cs ps n" "j \<le> n"
  shows "ends_with cs ps (n - j) \<longleftrightarrow> agree_shifted cs n j"
proof -
  have n: "n \<le> length ps" "n \<le> length cs" "\<And>k. k < n \<Longrightarrow> pressed (cs ! k) (ps ! (length ps - n + k))"
    using assms(2) by (auto simp: ends_with_def)
  have nm: "lc_remote (cs ! k) \<noteq> None" "lc_button (cs ! k) \<noteq> None" if "k < n" for k
    using assms(1) n(2) that by (auto simp: named_def list_all_length)
  have "codes_agree (cs ! k) (cs ! (j + k)) = Some (pressed (cs ! k) (ps ! (length ps - (n - j) + k)))"
    if k: "k < n - j" for k
  proof -
    have eq: "length ps - n + (j + k) = length ps - (n - j) + k" using k n(1) assms(3) by simp
    have "pressed (cs ! (j + k)) (ps ! (length ps - (n - j) + k))"
      using n(3) [of "j + k"] k unfolding eq by linarith
    then show ?thesis using nm [of k] nm [of "j + k"] k by (intro pressed_same) auto
  qed
  then show ?thesis using n(1,2) by (auto simp: ends_with_def agree_shifted_def)
qed

section \<open>The search of the entry\<close>

lemma codes_agree_named:
  "named cs \<Longrightarrow> p < length cs \<Longrightarrow> n < length cs \<Longrightarrow> \<exists>b. codes_agree (cs ! p) (cs ! n) = Some b"
  by (auto simp: named_def list_all_length codes_agree_def field_match_def split: option.splits bool.splits)

lemma rebase_compare_named:
  assumes "named cs" "e < length cs" "p \<le> n" "n \<le> e"
  shows "rebase_compare cs e p n = Some (\<forall>k < e - n. codes_agree (cs ! (p + k)) (cs ! (n + k)) = Some True)"
  using assms
proof (induction cs e p n rule: rebase_compare.induct)
  case (1 cs e p n)
  show ?case
  proof (cases "n = e")
    case True
    then show ?thesis by (subst rebase_compare.simps) simp
  next
    case False
    then have lt: "n < e" using 1 by simp
    then obtain b where b: "codes_agree (cs ! p) (cs ! n) = Some b"
      using codes_agree_named [of cs p n] 1 by fastforce
    have split: "(\<forall>k < e - n. P k) \<longleftrightarrow> P 0 \<and> (\<forall>k < e - (n + 1). P (Suc k))" for P :: "nat \<Rightarrow> bool"
    proof -
      have "e - n = Suc (e - (n + 1))" using lt by simp
      then show ?thesis by (simp add: All_less_Suc2)
    qed
    show ?thesis
    proof (cases b)
      case True
      then have "rebase_compare cs e p n = rebase_compare cs e (p + 1) (n + 1)"
        using lt b by (simp add: rebase_compare.simps [of cs e p n])
      also have "\<dots> = Some (\<forall>k < e - (n + 1). codes_agree (cs ! (p + 1 + k)) (cs ! (n + 1 + k)) = Some True)"
        using 1 lt b True by simp
      finally show ?thesis using b True by (subst split) simp
    next
      case False
      then show ?thesis using lt b by (subst split) (simp add: rebase_compare.simps [of cs e p n])
    qed
  qed
qed

lemma rebase_compare_start:
  "named cs \<Longrightarrow> e < length cs \<Longrightarrow> j \<le> e \<Longrightarrow> rebase_compare cs e 0 j = Some (agree_shifted cs e j)"
  using rebase_compare_named [of cs e 0 j] by (simp add: agree_shifted_def)

text \<open>The starts the loop looks for; it finds the first one.\<close>

definition fits :: "lirc_code list \<Rightarrow> nat \<Rightarrow> press \<Rightarrow> nat \<Rightarrow> bool" where
  "fits cs n p j \<longleftrightarrow> agree_shifted cs n j \<and> pressed (cs ! (n - j)) p"

lemma rebase_named:
  assumes "named cs" "n < length cs"
  shows "\<exists>m. rebase cs (fst p) (snd p) n j = Some m \<and> (case m of
     None \<Rightarrow> \<forall>i. j \<le> i \<and> i \<le> n \<longrightarrow> \<not> fits cs n p i
   | Some x \<Rightarrow> \<exists>i. j \<le> i \<and> i \<le> n \<and> fits cs n p i \<and> x = n - i + 1 \<and> (\<forall>k. j \<le> k \<and> k < i \<longrightarrow> \<not> fits cs n p k))"
proof (induction "n + 1 - j" arbitrary: j)
  case 0
  then show ?case by (subst rebase.simps) auto
next
  case (Suc d)
  then have j: "j \<le> n" by simp
  have c: "rebase_compare cs n 0 j = Some (agree_shifted cs n j)"
    using rebase_compare_start [OF assms j] .
  show ?case
  proof (cases "fits cs n p j")
    case True
    then have "rebase cs (fst p) (snd p) n j = Some (Some (n - j + 1))"
      using j c by (subst rebase.simps) (simp add: fits_def pressed_def)
    then show ?thesis using True j by auto
  next
    case False
    then have r: "rebase cs (fst p) (snd p) n j = rebase cs (fst p) (snd p) n (j + 1)"
      using j c by (subst rebase.simps) (auto simp: fits_def pressed_def)
    have le: "j \<le> k \<longleftrightarrow> k = j \<or> j + 1 \<le> k" for k by auto
    obtain m where m: "rebase cs (fst p) (snd p) n (j + 1) = Some m" "case m of
       None \<Rightarrow> \<forall>i. j + 1 \<le> i \<and> i \<le> n \<longrightarrow> \<not> fits cs n p i
     | Some x \<Rightarrow> \<exists>i. j + 1 \<le> i \<and> i \<le> n \<and> fits cs n p i \<and> x = n - i + 1 \<and> (\<forall>k. j + 1 \<le> k \<and> k < i \<longrightarrow> \<not> fits cs n p k)"
      using Suc.hyps(1) [of "j + 1"] Suc.hyps(2) by fastforce
    show ?thesis
    proof (cases m)
      case None
      then show ?thesis using m False unfolding r by (intro exI [of _ m]) (auto simp: le)
    next
      case (Some x)
      then obtain i where "j + 1 \<le> i" "i \<le> n" "fits cs n p i" "x = n - i + 1"
        "\<forall>k. j + 1 \<le> k \<and> k < i \<longrightarrow> \<not> fits cs n p k" using m(2) by auto
      then show ?thesis using m(1) False Some unfolding r
        by (intro exI [of _ m]) (auto simp: le intro!: exI [of _ i])
    qed
  qed
qed

text \<open>A button that does not go on: the new progress is what the first fitting start gives.\<close>

lemma progress_rebased:
  assumes "named cs" "n < length cs" "ends_with cs ps n" "\<forall>i. i < length cs \<and> ends_with cs ps i \<longrightarrow> i \<le> n"
    and "\<not> pressed (cs ! n) p"
  shows "\<not> ends_with cs (ps @ [p]) (length cs)"
    and "(\<forall>i. 1 \<le> i \<and> i \<le> n \<longrightarrow> \<not> fits cs n p i) \<Longrightarrow> progress cs (ps @ [p]) = 0"
    and "1 \<le> j \<Longrightarrow> j \<le> n \<Longrightarrow> fits cs n p j \<Longrightarrow> (\<forall>k. 1 \<le> k \<and> k < j \<longrightarrow> \<not> fits cs n p k)
      \<Longrightarrow> progress cs (ps @ [p]) = n - j + 1"
proof -
  have fit: "ends_with cs (ps @ [p]) (Suc i) \<longleftrightarrow> i < n \<and> fits cs n p (n - i)" if i: "Suc i \<le> length cs" for i
  proof (cases "i \<le> n \<and> i \<noteq> n")
    case True
    then have "n - (n - i) = i" by simp
    then show ?thesis using ends_with_shorter [OF assms(1,3), of "n - i"] i True
      by (auto simp: ends_with_snoc fits_def)
  next
    case False
    then show ?thesis using assms(4) [THEN spec, of i] assms(5) i by (auto simp: ends_with_snoc)
  qed
  obtain l where l: "length cs = Suc l" using assms(2) by (cases "length cs") auto
  show "\<not> ends_with cs (ps @ [p]) (length cs)" using fit [of l] l assms(2) by auto
  show "progress cs (ps @ [p]) = 0" if none: "\<forall>i. 1 \<le> i \<and> i \<le> n \<longrightarrow> \<not> fits cs n p i"
  proof (rule progressI)
    fix i assume "0 < i" "i < length cs"
    then show "\<not> ends_with cs (ps @ [p]) i" using none fit [of "i - 1"] by (cases i) auto
  qed (use assms(2) in auto)
  show "progress cs (ps @ [p]) = n - j + 1"
    if j: "1 \<le> j" "j \<le> n" "fits cs n p j" "\<forall>k. 1 \<le> k \<and> k < j \<longrightarrow> \<not> fits cs n p k"
  proof (rule progressI)
    show "n - j + 1 < length cs" using j assms(2) by simp
    show "ends_with cs (ps @ [p]) (n - j + 1)" using fit [of "n - j"] j assms(2) by auto
    fix i assume i: "n - j + 1 < i" "i < length cs"
    then obtain k where "i = Suc k" by (cases i) auto
    then show "\<not> ends_with cs (ps @ [p]) i" using fit [of k] i j(1,2) j(4) [THEN spec, of "n - k"] by auto
  qed
qed

section \<open>The entry follows the history\<close>

text \<open>One button, not repeated.\<close>

lemma iscode_follows:
  assumes "named cs" "2 \<le> length cs" "le_code e = cs" "le_next_code e = Some (progress cs ps)"
  shows "\<exists>l e'. lirc_iscode e (fst p) (snd p) 0 = Some (l, e') \<and> le_code e' = cs
    \<and> (l = 2 \<longleftrightarrow> ends_with cs (ps @ [p]) (length cs))
    \<and> le_next_code e' = Some (if l = 2 then 0 else progress cs (ps @ [p]))
    \<and> (0 < l \<longleftrightarrow> pressed (cs ! progress cs ps) p)"
proof -
  let ?n = "progress cs ps"
  have ne: "cs \<noteq> []" using assms(2) by auto
  note n = progress_is [OF ne, where ps = ps]
  show ?thesis
  proof (cases "pressed (cs ! ?n) p")
    case True
    have up: "ends_with cs (ps @ [p]) (Suc ?n)" using True n(1,2) by (simp add: ends_with_snoc)
    have no: "\<not> ends_with cs (ps @ [p]) i" if "Suc ?n < i" "i \<le> length cs" for i
      using that n(3) [of "i - 1"] by (cases i) (auto simp: ends_with_snoc)
    show ?thesis
    proof (cases "Suc ?n = length cs")
      case True
      then show ?thesis using up \<open>pressed (cs ! ?n) p\<close> assms ne
        by (auto simp: lirc_iscode_def list_next_def pressed_def Let_def)
    next
      case False
      then have "progress cs (ps @ [p]) = Suc ?n" using n(1) up no by (intro progressI) auto
      moreover have "\<not> ends_with cs (ps @ [p]) (length cs)" using no [of "length cs"] False n(1) by simp
      ultimately show ?thesis using False \<open>pressed (cs ! ?n) p\<close> n(1) assms ne
        by (auto simp: lirc_iscode_def list_next_def pressed_def Let_def)
    qed
  next
    case False
    have "\<forall>i. i < length cs \<and> ends_with cs ps i \<longrightarrow> i \<le> ?n" using n(3) by blast
    note rb = progress_rebased [OF assms(1) n(1,2) this False]
    show ?thesis
    proof (cases "?n = 0")
      case True
      then show ?thesis using rb(1) rb(2) False assms ne
        by (auto simp: lirc_iscode_def pressed_def Let_def)
    next
      case n0: False
      obtain m where m: "rebase cs (fst p) (snd p) ?n 1 = Some m" "case m of
         None \<Rightarrow> \<forall>i. 1 \<le> i \<and> i \<le> ?n \<longrightarrow> \<not> fits cs ?n p i
       | Some x \<Rightarrow> \<exists>i. 1 \<le> i \<and> i \<le> ?n \<and> fits cs ?n p i \<and> x = ?n - i + 1 \<and> (\<forall>k. 1 \<le> k \<and> k < i \<longrightarrow> \<not> fits cs ?n p k)"
        using rebase_named [OF assms(1) n(1), of p 1] by blast
      show ?thesis
      proof (cases m)
        case None
        then show ?thesis using m rb(1,2) False n0 assms ne
          by (auto simp: lirc_iscode_def pressed_def Let_def)
      next
        case (Some x)
        then obtain i where i: "1 \<le> i" "i \<le> ?n" "fits cs ?n p i" "x = ?n - i + 1"
          "\<forall>k. 1 \<le> k \<and> k < i \<longrightarrow> \<not> fits cs ?n p k" using m(2) by auto
        have "x < length cs" "progress cs (ps @ [p]) = x" using rb(3) [OF i(1-3,5)] i n(1) by auto
        then show ?thesis using m(1) Some rb(1) False n0 assms ne
          by (auto simp: lirc_iscode_def pressed_def Let_def)
      qed
    qed
  qed
qed

text \<open>The buttons that complete the sequence: by the entry, and by the history since the last
  completion.\<close>

fun completions :: "lirc_entry \<Rightarrow> press list \<Rightarrow> bool list option" where
  "completions e [] = Some []"
| "completions e (p # ps) = (case lirc_iscode e (fst p) (snd p) 0 of
     None \<Rightarrow> None
   | Some (l, e) \<Rightarrow> map_option (\<lambda>bs. (l = 2) # bs) (completions e ps))"

fun completed :: "lirc_code list \<Rightarrow> press list \<Rightarrow> press list \<Rightarrow> bool list" where
  "completed cs h [] = []"
| "completed cs h (p # ps) = (if ends_with cs (h @ [p]) (length cs) then True # completed cs [] ps
     else False # completed cs (h @ [p]) ps)"

lemma progress_Nil: "cs \<noteq> [] \<Longrightarrow> progress cs [] = 0"
  by (rule progressI) (auto simp: ends_with_def)

lemma completions_history:
  assumes "named cs" "2 \<le> length cs"
  shows "le_code e = cs \<Longrightarrow> le_next_code e = Some (progress cs h) \<Longrightarrow> completions e ps = Some (completed cs h ps)"
proof (induction ps arbitrary: e h)
  case Nil
  then show ?case by simp
next
  case (Cons p ps)
  obtain l e' where s: "lirc_iscode e (fst p) (snd p) 0 = Some (l, e')" "le_code e' = cs"
    "l = 2 \<longleftrightarrow> ends_with cs (h @ [p]) (length cs)"
    "le_next_code e' = Some (if l = 2 then 0 else progress cs (h @ [p]))"
    using iscode_follows [OF assms Cons.prems] by blast
  have "cs \<noteq> []" using assms(2) by auto
  then have "le_next_code e' = Some (progress cs (if l = 2 then [] else h @ [p]))"
    using s(4) by (simp add: progress_Nil)
  from Cons.IH [OF s(2) this] s(1,3) show ?case by simp
qed

end
