(* ===== verification/Client_Read.thy ===== *)
theory Client_Read
  imports Client_Lines
begin

text \<open>
  \<open>lib/lirc_client.c\<close>, reading a \<open>lircrc\<close> file: the names of the files, the blocks and modes
  (\<open>lirc_mode\<close>), the fields of an entry, includes, and \<open>lirc_readconfig_only_internal\<close>. What the
  functions take from the system is the record \<open>client_env\<close>. The callback \<open>check\<close> is a predicate
  that holds of the strings it refuses, None for NULL.
\<close>

section \<open>Outcomes\<close>

text \<open>\<open>Crash\<close>: NULL is dereferenced, or an access leaves a buffer. \<open>Fail\<close>: the result is \<open>-1\<close>.\<close>

datatype 'a outcome = Crash | Fail | Done 'a

fun and_then :: "'a outcome \<Rightarrow> ('a \<Rightarrow> 'b outcome) \<Rightarrow> 'b outcome" where
  "and_then Crash f = Crash"
| "and_then Fail f = Fail"
| "and_then (Done x) f = f x"

definition of_pointer :: "'a option \<Rightarrow> 'a outcome" where
  "of_pointer p = (case p of None \<Rightarrow> Crash | Some x \<Rightarrow> Done x)"

section \<open>File names\<close>

text \<open>The environment variables, \<open>access(R_OK)\<close>, \<open>fopen\<close> (the content of a file, or whether \<open>errno\<close>
  is \<open>ENOENT\<close>) and the two system wide files, whose names the build chooses.\<close>

record client_env =
  env_home :: "string option"
  env_xdg_config_home :: "string option"
  env_readable :: "string \<Rightarrow> bool"
  env_fopen :: "string \<Rightarrow> bool + string"
  env_root_file :: string
  env_old_root_file :: string

abbreviation (input) MAXPATHLEN :: nat where "MAXPATHLEN \<equiv> 4096"

text \<open>A path in a buffer of \<open>MAXPATHLEN\<close> bytes.\<close>

definition in_path :: "string \<Rightarrow> string outcome" where
  "in_path s = (if length s < MAXPATHLEN then Done s else Crash)"

definition get_homepath :: "client_env \<Rightarrow> string outcome" where
  "get_homepath env =
     (let home = (case env_home env of None \<Rightarrow> ''/'' | Some h \<Rightarrow> h)
      in if home = [] then Crash
         else and_then (in_path home) (\<lambda>h. Done (if last h = CHR ''/'' then butlast h else h)))"

definition get_freedesktop_path :: "client_env \<Rightarrow> string outcome" where
  "get_freedesktop_path env =
     and_then (case env_xdg_config_home env of
         Some x \<Rightarrow> in_path (x @ ''/lircrc'')
       | None \<Rightarrow> and_then (get_homepath env) (\<lambda>h. Done (take (MAXPATHLEN - 1) (h @ ''/.config/lircrc''))))
       (\<lambda>p. Done (if env_readable env p then p else []))"

definition lirc_getfilename :: "client_env \<Rightarrow> string option \<Rightarrow> string option \<Rightarrow> string outcome" where
  "lirc_getfilename env file current_file = (case file of
     None \<Rightarrow> and_then (get_freedesktop_path env) (\<lambda>p.
         if p = [] then and_then (get_homepath env) (\<lambda>h. in_path (h @ ''/.lircrc'')) else Done p)
   | Some f \<Rightarrow>
       (if take 2 f = ''~/'' then and_then (get_homepath env) (\<lambda>h. in_path (h @ tl f))
        else (case current_file of
            None \<Rightarrow> Done f
          | Some cur \<Rightarrow>
              (if f \<noteq> [] \<and> hd f = CHR ''/'' then Done f
               else Done (rev (dropWhile (\<lambda>c. c \<noteq> CHR ''/'') (rev cur)) @ f)))))"

text \<open>The name and the content of the file that was opened.\<close>

definition lirc_open :: "client_env \<Rightarrow> string option \<Rightarrow> string option \<Rightarrow> (string \<times> string) outcome" where
  "lirc_open env file current_file =
     and_then (lirc_getfilename env file current_file) (\<lambda>name.
       case env_fopen env name of
         Inr content \<Rightarrow> Done (name, content)
       | Inl enoent \<Rightarrow>
           (if file \<noteq> None \<or> \<not> enoent then Fail
            else (case env_fopen env (env_root_file env) of
                Inr content \<Rightarrow> Done (env_root_file env, content)
              | Inl enoent \<Rightarrow>
                  (if \<not> enoent then Fail
                   else (case env_fopen env (env_old_root_file env) of
                       Inr content \<Rightarrow> Done (env_old_root_file env, content)
                     | Inl _ \<Rightarrow> Fail)))))"

section \<open>Blocks and modes\<close>

text \<open>The variables of the reader: the open entry, the entries so far, the mode, the remote the next
  buttons belong to (None is \<open>LIRC_ALL\<close>), the class and whether the first line is still to come.\<close>

record lircrc_reader =
  lr_new :: "lirc_entry option"
  lr_first :: "lirc_entry list"
  lr_mode :: "string option"
  lr_remote :: "string option"
  lr_class :: string
  lr_firstline :: bool

definition lircrc_start :: lircrc_reader where
  "lircrc_start = \<lparr>lr_new = None, lr_first = [], lr_mode = None, lr_remote = None, lr_class = [],
     lr_firstline = True\<rparr>"

text \<open>An entry that is complete.\<close>

definition end_entry :: "string option \<Rightarrow> lirc_entry \<Rightarrow> lirc_entry" where
  "end_entry mode e =
     e\<lparr>le_next_code := list_head (le_code e), le_next_config := list_head (le_config e),
       le_mode := (case mode of None \<Rightarrow> le_mode e | Some m \<Rightarrow> Some m),
       le_rep_delay := (if le_rep_delay e = 0 \<and> le_rep e > 0 then le_rep e - 1 else le_rep_delay e)\<rparr>"

text \<open>The callback is asked about the strings of the entries of this program.\<close>

definition check_entry :: "string option \<Rightarrow> (string \<Rightarrow> bool) option \<Rightarrow> lirc_entry \<Rightarrow> unit outcome" where
  "check_entry prog check e = (case (check, le_prog e) of
     (Some refuses, Some p) \<Rightarrow>
       (case prog of
          None \<Rightarrow> Crash
        | Some q \<Rightarrow> if strcaseeq p q \<and> list_ex refuses (le_config e) then Fail else Done ())
   | _ \<Rightarrow> Done ())"

definition lirc_mode :: "string option \<Rightarrow> (string \<Rightarrow> bool) option \<Rightarrow> string \<Rightarrow> string option
    \<Rightarrow> lircrc_reader \<Rightarrow> lircrc_reader outcome" where
  "lirc_mode prog check token token2 r =
     (if strcaseeq token ''begin'' then
        (case token2 of
           None \<Rightarrow> (if lr_new r = None then Done (r\<lparr>lr_new := Some empty_entry\<rparr>) else Fail)
         | Some m \<Rightarrow> (if lr_new r = None \<and> lr_mode r = None then Done (r\<lparr>lr_mode := Some m\<rparr>) else Fail))
      else if strcaseeq token ''end'' then
        (case token2 of
           None \<Rightarrow>
             (case lr_new r of
                None \<Rightarrow> Fail
              | Some e \<Rightarrow>
                  and_then (check_entry prog check e) (\<lambda>_.
                    Done (r\<lparr>lr_first := lr_first r @ [end_entry (lr_mode r) e], lr_new := None\<rparr>)))
         | Some m \<Rightarrow>
             (case lr_mode r of
                None \<Rightarrow> Fail
              | Some k \<Rightarrow>
                  (if lr_new r = None \<and> strcaseeq k m then Done (r\<lparr>lr_mode := None\<rparr>) else Fail)))
      else Done r)"

section \<open>Fields\<close>

definition add_code :: "string option \<Rightarrow> string option \<Rightarrow> lirc_entry \<Rightarrow> lirc_entry" where
  "add_code remote button e =
     e\<lparr>le_code := le_code e @ [\<lparr>lc_remote = remote, lc_button = button\<rparr>],
       le_next_code := Some (length (le_code e))\<rparr>"

definition add_config :: "string \<Rightarrow> lirc_entry \<Rightarrow> lirc_entry" where
  "add_config s e =
     e\<lparr>le_config := le_config e @ [s], le_next_config := Some (length (le_config e))\<rparr>"

text \<open>\<open>*\<close> stands for any remote or button.\<close>

definition star :: "string \<Rightarrow> string option" where
  "star s = (if strcaseeq ''*'' s then None else Some s)"

text \<open>A line \<open>token = token2\<close> inside the entry \<open>e\<close>. A number that is not valid only gives a warning.\<close>

definition set_field :: "string \<Rightarrow> string \<Rightarrow> lirc_entry \<Rightarrow> lircrc_reader \<Rightarrow> lircrc_reader" where
  "set_field token token2 e r =
     (let new = (\<lambda>e. r\<lparr>lr_new := Some e\<rparr>); number = u32 (fst (strtoul token2))
      in if strcaseeq token ''prog'' then new (e\<lparr>le_prog := Some token2\<rparr>)
         else if strcaseeq token ''remote'' then r\<lparr>lr_remote := star token2\<rparr>
         else if strcaseeq token ''button'' then new (add_code (lr_remote r) (star token2) e)
         else if strcaseeq token ''delay'' then new (e\<lparr>le_rep_delay := number\<rparr>)
         else if strcaseeq token ''ignore_first_events'' then new (e\<lparr>le_ign_first_events := number\<rparr>)
         else if strcaseeq token ''repeat'' then new (e\<lparr>le_rep := number\<rparr>)
         else if strcaseeq token ''config'' then new (add_config (lirc_parse_string token2) e)
         else if strcaseeq token ''mode'' then new (e\<lparr>le_change_mode := Some token2\<rparr>)
         else if strcaseeq token ''flags'' then new (e\<lparr>le_flags := lirc_flags token2\<rparr>)
         else r)"

definition field_line :: "string \<Rightarrow> string \<Rightarrow> lircrc_reader \<Rightarrow> lircrc_reader outcome" where
  "field_line token token2 r =
     (if token \<noteq> [] \<and> hd token = CHR ''#'' then Done r
      else (case lr_new r of None \<Rightarrow> Fail | Some e \<Rightarrow> Done (set_field token token2 e r)))"

section \<open>Lines\<close>

text \<open>\<open>strtok(NULL, "")\<close>: all that is left, NULL when nothing is.\<close>

definition strtok_rest :: "string \<Rightarrow> string option" where
  "strtok_rest s = (if s = [] then None else Some s)"

definition class_line :: "bool \<Rightarrow> string option \<Rightarrow> lircrc_reader \<Rightarrow> lircrc_reader outcome" where
  "class_line root rest r =
     and_then (of_pointer rest) (\<lambda>s.
       Done (if lirc_trim s \<noteq> [] \<and> root then r\<lparr>lr_class := take 127 (lirc_trim s)\<rparr> else r))"

text \<open>A line without \<open>=\<close>; \<open>root\<close> holds in the file that is not included. \<open>incl\<close> reads an included
  file; it is None when ten files are open.\<close>

definition word_line :: "(string \<Rightarrow> lircrc_reader \<Rightarrow> lircrc_reader outcome) option \<Rightarrow> string option
    \<Rightarrow> (string \<Rightarrow> bool) option \<Rightarrow> bool \<Rightarrow> string \<Rightarrow> lircrc_reader \<Rightarrow> lircrc_reader outcome" where
  "word_line incl prog check root s r =
     (case strtok_step is_ws s of
        (None, _) \<Rightarrow> Done r
      | (Some token, s) \<Rightarrow>
          (if hd token = CHR ''#'' then Done r
           else if strcaseeq token ''lircrc_class'' then class_line root (strtok_rest s) r
           else if strcaseeq token ''include'' then
             (case incl of
                None \<Rightarrow> Fail
              | Some rd \<Rightarrow> and_then (of_pointer (strtok_rest s)) (\<lambda>s. rd (client_parse_include (lirc_trim s)) r))
           else
             (let (token2, s) = strtok_step is_ws s; (token3, _) = strtok_step is_ws s
              in if token2 \<noteq> None \<and> token3 \<noteq> None then Done r
                 else and_then (lirc_mode prog check token token2 r) (\<lambda>r. Done (r\<lparr>lr_remote := None\<rparr>)))))"

text \<open>\<open>basename\<close> of the C library, and \<open>parse_shebang\<close> on the first line; \<open>path\<close> is the argument
  of the reader, NULL for the default file.\<close>

definition c_basename :: "string \<Rightarrow> string" where
  "c_basename p =
     (let b = rev (dropWhile (\<lambda>c. c = CHR ''/'') (rev p))
      in if p = [] then ''.'' else if b = [] then ''/'' else rev (takeWhile (\<lambda>c. c \<noteq> CHR ''/'') (rev b)))"

definition parse_shebang :: "string \<Rightarrow> string option \<Rightarrow> lircrc_reader \<Rightarrow> lircrc_reader outcome" where
  "parse_shebang s path r =
     and_then (of_pointer (fst (strtok_step (\<lambda>c. c = CHR ''#'' \<or> c = CHR ''!'' \<or> c = CHR '' '') s))) (\<lambda>token.
       if token = ''lircrc''
       then and_then (of_pointer path) (\<lambda>p. Done (r\<lparr>lr_class := c_basename (take 127 p)\<rparr>))
       else Done (r\<lparr>lr_class := []\<rparr>))"

text \<open>A line. What \<open>parse_shebang\<close> leaves of the line begins with \<open>#\<close>, a comment.\<close>

definition lircrc_line :: "(string \<Rightarrow> lircrc_reader \<Rightarrow> lircrc_reader outcome) option \<Rightarrow> string option
    \<Rightarrow> (string \<Rightarrow> bool) option \<Rightarrow> string option \<Rightarrow> bool \<Rightarrow> string \<Rightarrow> lircrc_reader \<Rightarrow> lircrc_reader outcome" where
  "lircrc_line incl prog check path root s r =
     (if lr_firstline r \<and> take 2 s = ''#!'' then parse_shebang s path (r\<lparr>lr_firstline := False\<rparr>)
      else
        (let r = r\<lparr>lr_firstline := False\<rparr>;
             left = takeWhile (\<lambda>c. c \<noteq> CHR ''='') s;
             right = dropWhile (\<lambda>c. c \<noteq> CHR ''='') s
         in if right = [] then word_line incl prog check root s r
            else field_line (lirc_trim left) (lirc_trim (tl right)) r))"

section \<open>Files\<close>

text \<open>The lines \<open>lirc_readline\<close> gives until the end of a file.\<close>

lemma readline_progress: "readline_loop acc f = (Some l, r) \<Longrightarrow> f \<noteq> [] \<Longrightarrow> length r < length f"
proof (induction acc f rule: readline_loop.induct)
  case (1 acc f)
  obtain l1 r1 where f: "fgets LIRC_READ f = (l1, r1)" by force
  obtain c cs where c: "f = c # cs" using 1(3) by (cases f) auto
  have p: "length r1 < length f" using fgets_progress [of 254 c cs l1 r1] f c by (simp add: eval_nat_numeral)
  show ?case
  proof (cases "last (acc @ l1) = newline \<or> r1 = []")
    case True
    then show ?thesis using 1(2,3) f p
      by (auto simp: Let_def readline_loop.simps [of acc f] readline_loop.simps [of "acc @ l1" "[]"] split: if_splits)
  next
    case False
    then have "readline_loop (acc @ l1) r1 = (Some l, r)" using 1(2,3) f by (simp add: readline_loop.simps [of acc f])
    then show ?thesis using 1(1) [OF 1(3) refl f [symmetric] refl] False p by simp
  qed
qed

function file_lines :: "string \<Rightarrow> string list" where
  "file_lines f = (if f = [] then [] else (case lirc_readline f of
     (None, _) \<Rightarrow> []
   | (Some l, r) \<Rightarrow> l # file_lines r))"
  by pat_completeness auto
termination
  by (relation "measure length") (auto simp: lirc_readline_def dest!: readline_progress [OF sym])

declare file_lines.simps [simp del]

fun read_lines_of :: "(string \<Rightarrow> lircrc_reader \<Rightarrow> lircrc_reader outcome) option \<Rightarrow> string option
    \<Rightarrow> (string \<Rightarrow> bool) option \<Rightarrow> string option \<Rightarrow> bool \<Rightarrow> string list \<Rightarrow> lircrc_reader
    \<Rightarrow> lircrc_reader outcome" where
  "read_lines_of incl prog check path root [] r = Done r"
| "read_lines_of incl prog check path root (l # ls) r =
     and_then (lircrc_line incl prog check path root l r) (read_lines_of incl prog check path root ls)"

text \<open>The loop over the stack of files: an included file is read to its end before the reader goes on
  in the file that includes it. \<open>k\<close> is how many more files may be opened.\<close>

primrec read_file :: "client_env \<Rightarrow> string option \<Rightarrow> (string \<Rightarrow> bool) option \<Rightarrow> string option \<Rightarrow> nat \<Rightarrow> bool
    \<Rightarrow> string \<Rightarrow> string \<Rightarrow> lircrc_reader \<Rightarrow> lircrc_reader outcome" where
  "read_file env prog check path 0 root name content r =
     read_lines_of None prog check path root (file_lines content) r"
| "read_file env prog check path (Suc k) root name content r =
     read_lines_of (Some (\<lambda>f r. and_then (lirc_open env (Some f) (Some name)) (\<lambda>(name, content).
         read_file env prog check path k False name content r)))
       prog check path root (file_lines content) r"

section \<open>The configuration\<close>

text \<open>\<open>lirc_startupmode\<close>: the first entry with the flag gives its mode away.\<close>

fun take_startup :: "lirc_entry list \<Rightarrow> string option \<times> lirc_entry list" where
  "take_startup [] = (None, [])"
| "take_startup (e # es) =
     (if has_flag e f_startup_mode \<and> le_change_mode e \<noteq> None
      then (le_change_mode e, e\<lparr>le_change_mode := None\<rparr> # es)
      else (let (m, es) = take_startup es in (m, e # es)))"

definition lirc_startupmode :: "string option \<Rightarrow> lirc_entry list \<Rightarrow> string option \<times> lirc_entry list" where
  "lirc_startupmode prog es =
     (let (m, es) = take_startup es;
          m = (if m = None \<and> list_ex (\<lambda>e. opt_caseeq prog (le_mode e)) es then prog else m)
      in case m of
           None \<Rightarrow> (None, es)
         | Some s \<Rightarrow> (Some s, map (\<lambda>e. if opt_caseeq (Some s) (le_change_mode e) \<and> has_flag e f_once
             then set_ecno e else e) es))"

definition make_config :: "string option \<Rightarrow> lircrc_reader \<Rightarrow> lirc_config" where
  "make_config prog r =
     (let (m, es) = lirc_startupmode prog (lr_first r)
      in \<lparr>cf_lircrc_class = (if lr_class r = [] then None else Some (lr_class r)), cf_current_mode = m,
          cf_next = list_head es, cf_first = es\<rparr>)"

abbreviation (input) CLIENT_MAX_INCLUDES :: nat where "CLIENT_MAX_INCLUDES \<equiv> 10"

definition lirc_readconfig_only :: "client_env \<Rightarrow> string option \<Rightarrow> (string \<Rightarrow> bool) option \<Rightarrow> string option
    \<Rightarrow> (lirc_config \<times> string) outcome" where
  "lirc_readconfig_only env prog check file =
     and_then (lirc_open env file None) (\<lambda>(name, content).
     and_then (read_file env prog check file (CLIENT_MAX_INCLUDES - 1) True name content lircrc_start) (\<lambda>r.
     and_then (if lr_new r = None then Done r else lirc_mode prog check ''end'' None r) (\<lambda>r.
       Done (make_config prog r, name))))"

end
