(* ===== verification/Client_Facts.thy ===== *)
theory Client_Facts
  imports Client_Sequence Client_Read
begin

text \<open>
  Facts on the client: the invariant of the entries and of the configuration under every step of the
  translation, the loop that asks for all strings of a code, strings by turns, repetitions; lines,
  escape sequences and the configuration a \<open>lircrc\<close> file gives.
\<close>

section \<open>The invariant\<close>

text \<open>The pointers of an entry point into its lists.\<close>

definition entry_ok :: "lirc_entry \<Rightarrow> bool" where
  "entry_ok e \<longleftrightarrow> (le_code e \<noteq> [] \<longrightarrow> (\<exists>n. le_next_code e = Some n \<and> n < length (le_code e)))
     \<and> (\<forall>k. le_next_config e = Some k \<longrightarrow> k < length (le_config e))"

text \<open>No code between the first and the last of a sequence stands for any remote or button.\<close>

definition calm :: "lirc_entry \<Rightarrow> bool" where
  "calm e \<longleftrightarrow> (\<forall>i. 0 < i \<and> i + 1 < length (le_code e) \<longrightarrow>
     lc_remote (le_code e ! i) \<noteq> None \<and> lc_button (le_code e ! i) \<noteq> None)"

definition config_ok :: "lirc_config \<Rightarrow> bool" where
  "config_ok c \<longleftrightarrow> list_all entry_ok (cf_first c) \<and> list_all calm (cf_first c)
     \<and> (\<forall>i. cf_next c = Some i \<longrightarrow> i < length (cf_first c))"

text \<open>What no step changes of an entry.\<close>

definition fixed :: "lirc_entry \<Rightarrow> lirc_entry" where
  "fixed e = e\<lparr>le_next_code := None, le_next_config := None, le_flags := 0\<rparr>"

lemma fixed_sel:
  "le_code (fixed e) = le_code e" "le_config (fixed e) = le_config e" "le_prog (fixed e) = le_prog e"
  "le_mode (fixed e) = le_mode e" "le_change_mode (fixed e) = le_change_mode e"
  by (simp_all add: fixed_def)

lemma fixed_fields:
  "fixed e = fixed f \<Longrightarrow> le_code e = le_code f" "fixed e = fixed f \<Longrightarrow> le_config e = le_config f"
  "fixed e = fixed f \<Longrightarrow> le_prog e = le_prog f" "fixed e = fixed f \<Longrightarrow> le_mode e = le_mode f"
  "fixed e = fixed f \<Longrightarrow> le_change_mode e = le_change_mode f"
  by (metis fixed_sel)+

lemma fixed_calm: "fixed e = fixed f \<Longrightarrow> calm e = calm f"
  by (drule fixed_fields(1)) (simp add: calm_def)

lemma fixed_update [simp]:
  "fixed (e\<lparr>le_next_code := x\<rparr>) = fixed e" "fixed (e\<lparr>le_next_config := y\<rparr>) = fixed e"
  "fixed (e\<lparr>le_flags := z\<rparr>) = fixed e" "fixed (set_ecno e) = fixed e" "fixed (clear_ecno e) = fixed e"
  by (simp_all add: fixed_def set_ecno_def clear_ecno_def)

lemma entry_ok_flags [simp]:
  "entry_ok (set_ecno e) = entry_ok e" "entry_ok (clear_ecno e) = entry_ok e"
  by (simp_all add: entry_ok_def set_ecno_def clear_ecno_def)

section \<open>Matching a code\<close>

lemma codes_agree_calm:
  "lc_remote d \<noteq> None \<Longrightarrow> lc_button d \<noteq> None \<Longrightarrow> codes_agree c d \<noteq> None"
  by (auto simp: codes_agree_def field_match_def split: option.splits bool.splits)

lemma rebase_compare_calm:
  "\<forall>i. 0 < i \<and> i + 1 < length cs \<longrightarrow> lc_remote (cs ! i) \<noteq> None \<and> lc_button (cs ! i) \<noteq> None \<Longrightarrow>
    0 < n \<Longrightarrow> e < length cs \<Longrightarrow> rebase_compare cs e p n \<noteq> None"
proof (induction cs e p n rule: rebase_compare.induct)
  case (1 cs e p n)
  show ?case
  proof (cases "e \<le> n")
    case True
    then show ?thesis by (subst rebase_compare.simps) simp
  next
    case False
    then have "codes_agree (cs ! p) (cs ! n) \<noteq> None" using 1 by (intro codes_agree_calm) auto
    then obtain b where b: "codes_agree (cs ! p) (cs ! n) = Some b" by blast
    have "rebase_compare cs e (p + 1) (n + 1) \<noteq> None" if "b" using 1 False b that by simp
    then show ?thesis using b False by (subst rebase_compare.simps) (auto split: bool.split)
  qed
qed

lemma rebase_calm:
  "\<forall>i. 0 < i \<and> i + 1 < length cs \<longrightarrow> lc_remote (cs ! i) \<noteq> None \<and> lc_button (cs ! i) \<noteq> None \<Longrightarrow>
    0 < j \<Longrightarrow> e < length cs \<Longrightarrow> \<exists>m. rebase cs r b e j = Some m \<and> (\<forall>x. m = Some x \<longrightarrow> x < length cs)"
proof (induction cs r b e j rule: rebase.induct)
  case (1 cs r b e j)
  show ?case
  proof (cases "e < j")
    case True
    then show ?thesis by (subst rebase.simps) simp
  next
    case False
    obtain fl where fl: "rebase_compare cs e 0 j = Some fl"
      using rebase_compare_calm [OF 1(2-4)] by blast
    show ?thesis
    proof (cases "fl \<and> code_match (cs ! (e - j)) r b")
      case True
      then show ?thesis using False fl 1(3,4) by (subst rebase.simps) auto
    next
      case no: False
      then have "\<exists>m. rebase cs r b e (j + 1) = Some m \<and> (\<forall>x. m = Some x \<longrightarrow> x < length cs)"
        using 1 False fl by simp
      then show ?thesis using no False fl by (subst rebase.simps) auto
    qed
  qed
qed

lemma list_head_ok: "list_head xs = Some k \<Longrightarrow> k < length xs"
  by (auto simp: list_head_def split: if_splits)

lemma iscode_ok:
  assumes "entry_ok e" "calm e"
  shows "\<exists>l e'. lirc_iscode e remote button rep = Some (l, e') \<and> entry_ok e' \<and> fixed e' = fixed e"
proof (cases "le_code e = []")
  case True
  then show ?thesis using assms by (simp add: lirc_iscode_def)
next
  case False
  then obtain n where n: "le_next_code e = Some n" "n < length (le_code e)" using assms(1) by (auto simp: entry_ok_def)
  let ?t = "if has_flag e f_toggle_reset then e\<lparr>le_next_config := list_head (le_config e)\<rparr> else e"
  have t: "fixed ?t = fixed e" "\<forall>k. le_next_config ?t = Some k \<longrightarrow> k < length (le_config e)"
    "le_code ?t = le_code e" "le_config ?t = le_config e" "le_next_code ?t = Some n"
    using assms(1) n(1) list_head_ok by (auto simp: entry_ok_def)
  obtain m where m: "rebase (le_code e) remote button n 1 = Some m" "\<forall>x. m = Some x \<longrightarrow> x < length (le_code e)"
    using rebase_calm [of "le_code e" 1 n remote button] assms(2) n(2) unfolding calm_def by auto
  have ok: "entry_ok (?t\<lparr>le_next_code := Some k\<rparr>)" if "k < length (le_code e)" for k
    using t that by (simp add: entry_ok_def)
  have okt: "entry_ok ?t" using t n by (simp add: entry_ok_def)
  have "0 < length (le_code e)" using False by simp
  note ok0 = ok [OF this]
  show ?thesis
  proof (cases "code_match (le_code e ! n) remote button")
    case True
    then show ?thesis using False n assms(1)
      by (auto simp: lirc_iscode_def Let_def entry_ok_def dest: list_head_next_valid)
  next
    case no: False
    show ?thesis
    proof (cases "rep \<noteq> 0 \<or> n = 0")
      case True
      then show ?thesis using no False n assms(1) okt t(1) by (auto simp: lirc_iscode_def Let_def)
    next
      case rb: False
      show ?thesis
      proof (cases m)
        case None
        then have "lirc_iscode e remote button rep = Some (0, ?t\<lparr>le_next_code := Some 0\<rparr>)"
          using no False n rb m(1) by (simp add: lirc_iscode_def Let_def)
        then show ?thesis using ok0 t(1) by simp
      next
        case (Some x)
        then have x: "x < length (le_code e)" using m(2) by simp
        then have "lirc_iscode e remote button rep = Some (0, ?t\<lparr>le_next_code := Some x\<rparr>)"
          using no False n rb m(1) Some by (simp add: lirc_iscode_def Let_def)
        then show ?thesis using ok [OF x] t(1) by simp
      qed
    qed
  qed
qed

section \<open>Steps on the configuration\<close>

definition keeps :: "lirc_config \<Rightarrow> lirc_config \<Rightarrow> bool" where
  "keeps c c' \<longleftrightarrow> map fixed (cf_first c') = map fixed (cf_first c)
     \<and> (list_all entry_ok (cf_first c) \<longrightarrow> list_all entry_ok (cf_first c'))"

lemma keeps_refl [simp]: "keeps c c"
  by (simp add: keeps_def)

lemma keeps_trans: "keeps a b \<Longrightarrow> keeps b c \<Longrightarrow> keeps a c"
  by (simp add: keeps_def)

lemma keeps_fields [simp]:
  "keeps c (c'\<lparr>cf_next := x\<rparr>) = keeps c c'" "keeps c (c'\<lparr>cf_current_mode := y\<rparr>) = keeps c c'"
  by (simp_all add: keeps_def)

lemma keeps_length: "keeps c c' \<Longrightarrow> length (cf_first c') = length (cf_first c)"
  unfolding keeps_def by (metis length_map)

lemma keeps_nth: "keeps c c' \<Longrightarrow> i < length (cf_first c) \<Longrightarrow> fixed (cf_first c' ! i) = fixed (cf_first c ! i)"
  unfolding keeps_def by (metis nth_map length_map)

lemma keeps_calm: "keeps c c' \<Longrightarrow> list_all calm (cf_first c) \<Longrightarrow> list_all calm (cf_first c')"
  using keeps_length [of c c'] keeps_nth [of c c'] by (auto simp: list_all_length dest: fixed_calm)

lemma keeps_upd:
  assumes "i < length (cf_first c)" "fixed (f (cf_first c ! i)) = fixed (cf_first c ! i)"
    "entry_ok (cf_first c ! i) \<Longrightarrow> entry_ok (f (cf_first c ! i))"
  shows "keeps c (upd_entry i f c)"
proof -
  have "map fixed (cf_first (upd_entry i f c)) = map fixed (cf_first c)"
    using assms(1,2) by (simp add: upd_entry_def map_update) (metis list_update_id nth_map)
  moreover have "list_all entry_ok (cf_first (upd_entry i f c))" if "list_all entry_ok (cf_first c)"
    using that assms(1,3) by (auto simp: upd_entry_def list_all_length nth_list_update)
  ultimately show ?thesis by (simp add: keeps_def)
qed

lemma upd_nth [simp]: "i < length (cf_first c) \<Longrightarrow> cf_first (upd_entry i f c) ! i = f (cf_first c ! i)"
  by (simp add: upd_entry_def)

lemma upd_others [simp]: "cf_next (upd_entry i f c) = cf_next c" "cf_current_mode (upd_entry i f c) = cf_current_mode c"
  "length (cf_first (upd_entry i f c)) = length (cf_first c)"
  by (simp_all add: upd_entry_def)

lemma upd_mode: "upd_entry i f (c\<lparr>cf_current_mode := m\<rparr>) = (upd_entry i f c)\<lparr>cf_current_mode := m\<rparr>"
  by (simp add: upd_entry_def)

lemma clearmode_keeps: "keeps c (lirc_clearmode c)" "cf_next (lirc_clearmode c) = cf_next c"
  by (auto simp: keeps_def lirc_clearmode_def list_all_iff split: option.split)

lemma enter_mode_keeps:
  "i < length (cf_first c) \<Longrightarrow> keeps c (snd (enter_mode i c)) \<and> cf_next (snd (enter_mode i c)) = cf_next c"
  by (auto simp: enter_mode_def Let_def upd_mode split: option.split intro!: keeps_upd)

lemma next_string_keeps:
  assumes "i < length (cf_first c)"
  shows "keeps c (snd (next_string i c))" "cf_next (snd (next_string i c)) = cf_next c"
    and "fst (next_string i c) = Some s \<Longrightarrow> entry_ok (cf_first c ! i) \<Longrightarrow> s \<in> set (le_config (cf_first c ! i))"
proof -
  show "keeps c (snd (next_string i c))"
    using assms by (auto simp: next_string_def Let_def entry_ok_def split: option.splits
        intro!: keeps_upd dest: list_head_next_valid)
  show "cf_next (snd (next_string i c)) = cf_next c"
    by (auto simp: next_string_def Let_def split: option.split)
  show "fst (next_string i c) = Some s \<Longrightarrow> entry_ok (cf_first c ! i) \<Longrightarrow> s \<in> set (le_config (cf_first c ! i))"
    by (auto simp: next_string_def Let_def entry_ok_def split: option.splits)
qed

text \<open>The string an entry gives is one of its own, and the entry is for this program.\<close>

lemma execute_ok:
  assumes "i < length (cf_first c)" "list_all entry_ok (cf_first c)"
  shows "keeps c (snd (lirc_execute prog c i))" "cf_next (snd (lirc_execute prog c i)) = cf_next c"
    and "fst (lirc_execute prog c i) = Some s \<Longrightarrow> s \<in> set (le_config (cf_first c ! i))
      \<and> le_prog (cf_first c ! i) \<noteq> None \<and> (prog = None \<or> opt_caseeq (le_prog (cf_first c ! i)) prog)"
proof -
  let ?c1 = "if has_flag (cf_first c ! i) f_mode then lirc_clearmode c else c"
  have c1: "keeps c ?c1" "cf_next ?c1 = cf_next c" using clearmode_keeps by auto
  then have i1: "i < length (cf_first ?c1)" using keeps_length [OF c1(1)] assms(1) by simp
  obtain o1 c2 where c2: "enter_mode i ?c1 = (o1, c2)" by force
  have "keeps ?c1 c2" "cf_next c2 = cf_next ?c1" using enter_mode_keeps [OF i1] unfolding c2 by simp_all
  then have k2: "keeps c c2" "cf_next c2 = cf_next c" using keeps_trans [OF c1(1)] c1(2) by simp_all
  then have i2: "i < length (cf_first c2)" using keeps_length [OF k2(1)] assms(1) by simp
  have ok2: "entry_ok (cf_first c2 ! i)" using k2(1) assms(2) i2 by (simp add: keeps_def list_all_length)
  note n = next_string_keeps [OF i2]
  let ?b = "le_next_config (cf_first c2 ! i) \<noteq> None \<and> le_prog (cf_first c2 ! i) \<noteq> None
    \<and> (prog = None \<or> opt_caseeq (le_prog (cf_first c2 ! i)) prog) \<and> o1"
  have e: "lirc_execute prog c i = (if ?b then next_string i c2 else (None, c2))"
    by (simp add: lirc_execute_def c2 Let_def)
  show "keeps c (snd (lirc_execute prog c i))" unfolding e using k2(1) n(1) keeps_trans by auto
  show "cf_next (snd (lirc_execute prog c i)) = cf_next c" unfolding e using k2(2) n(2) by auto
  have f: "fixed (cf_first c2 ! i) = fixed (cf_first c ! i)" by (rule keeps_nth [OF k2(1) assms(1)])
  show "fst (lirc_execute prog c i) = Some s \<Longrightarrow> s \<in> set (le_config (cf_first c ! i))
      \<and> le_prog (cf_first c ! i) \<noteq> None \<and> (prog = None \<or> opt_caseeq (le_prog (cf_first c ! i)) prog)"
    unfolding e using n(3) [OF _ ok2] fixed_fields(2,3) [OF f] by (cases "?b") auto
qed

section \<open>The scan\<close>

definition ours :: "string option \<Rightarrow> lirc_config \<Rightarrow> string \<Rightarrow> bool" where
  "ours prog c s \<longleftrightarrow> (\<exists>e \<in> set (cf_first c). s \<in> set (le_config e) \<and> le_prog e \<noteq> None
     \<and> (prog = None \<or> opt_caseeq (le_prog e) prog))"

lemma oursI:
  "i < length (cf_first c) \<Longrightarrow> s \<in> set (le_config (cf_first c ! i)) \<and> le_prog (cf_first c ! i) \<noteq> None
     \<and> (prog = None \<or> opt_caseeq (le_prog (cf_first c ! i)) prog) \<Longrightarrow> ours prog c s"
  unfolding ours_def by (rule bexI [of _ "cf_first c ! i"]) simp_all

lemma keeps_ours:
  assumes "keeps c c'" "ours prog c' s"
  shows "ours prog c s"
proof -
  obtain e where "e \<in> set (cf_first c')" "s \<in> set (le_config e)" "le_prog e \<noteq> None"
    "prog = None \<or> opt_caseeq (le_prog e) prog" using assms(2) unfolding ours_def by blast
  then obtain i where i: "i < length (cf_first c')" "s \<in> set (le_config (cf_first c' ! i))" "le_prog (cf_first c' ! i) \<noteq> None"
    "prog = None \<or> opt_caseeq (le_prog (cf_first c' ! i)) prog"
    by (metis in_set_conv_nth)
  then have "i < length (cf_first c)" using keeps_length [OF assms(1)] by simp
  moreover from fixed_fields(2,3) [OF keeps_nth [OF assms(1) this]] i
  have "s \<in> set (le_config (cf_first c ! i))" "le_prog (cf_first c ! i) \<noteq> None"
    "prog = None \<or> opt_caseeq (le_prog (cf_first c ! i)) prog" by simp_all
  ultimately show ?thesis by (auto simp: ours_def)
qed

text \<open>Where the scan goes on after a string: nowhere, or behind one of the entries it looked at.\<close>

definition goes_on :: "nat list \<Rightarrow> lirc_config \<Rightarrow> bool" where
  "goes_on is c \<longleftrightarrow> (\<forall>j. cf_next c = Some j \<longrightarrow> (\<exists>i \<in> set is. j = i + 1) \<and> j < length (cf_first c))"

lemma scan_ok:
  assumes "\<forall>i \<in> set is. i < length (cf_first c)" "list_all entry_ok (cf_first c)" "list_all calm (cf_first c)"
  shows "\<exists>t p c'. code_scan prog remote button rep is quit (s, c) = Some ((t, p), c') \<and> keeps c c'
    \<and> (quit \<longrightarrow> t = fst s \<and> cf_next c' = cf_next c)
    \<and> (\<not> quit \<and> fst s = None \<and> t \<noteq> None \<longrightarrow> goes_on is c')
    \<and> (\<forall>x. t = Some x \<longrightarrow> fst s = Some x \<or> ours prog c x)"
  using assms
proof (induction "is" arbitrary: s c quit)
  case Nil
  then show ?case by (cases s) (auto simp: goes_on_def)
next
  case (Cons i "is")
  have i: "i < length (cf_first c)" using Cons.prems by simp
  obtain l e where e: "lirc_iscode (cf_first c ! i) remote button rep = Some (l, e)" "entry_ok e"
    "fixed e = fixed (cf_first c ! i)"
    using iscode_ok [of "cf_first c ! i" remote button rep] Cons.prems i by (auto simp: list_all_length)
  let ?c1 = "upd_entry i (\<lambda>_. e) c"
  have k1: "keeps c ?c1" using e i by (intro keeps_upd) auto
  have rest: "\<exists>t p c'. code_scan prog remote button rep is q (s', c2) = Some ((t, p), c') \<and> keeps c c'
    \<and> (q \<longrightarrow> t = fst s' \<and> cf_next c' = cf_next c2)
    \<and> (\<not> q \<and> fst s' = None \<and> t \<noteq> None \<longrightarrow> goes_on is c')
    \<and> (\<forall>x. t = Some x \<longrightarrow> fst s' = Some x \<or> ours prog c x)" if "keeps c c2" for q s' c2
  proof -
    have "\<forall>i \<in> set is. i < length (cf_first c2)" "list_all entry_ok (cf_first c2)" "list_all calm (cf_first c2)"
      using Cons.prems that keeps_length [OF that] keeps_calm [OF that] by (auto simp: keeps_def)
    from Cons.IH [OF this, of q s'] obtain t p c' where
      "code_scan prog remote button rep is q (s', c2) = Some ((t, p), c')" "keeps c2 c'"
      "q \<longrightarrow> t = fst s' \<and> cf_next c' = cf_next c2" "\<not> q \<and> fst s' = None \<and> t \<noteq> None \<longrightarrow> goes_on is c'"
      "\<forall>x. t = Some x \<longrightarrow> fst s' = Some x \<or> ours prog c2 x" by auto
    then show ?thesis using keeps_trans [OF that] keeps_ours [OF that] by (intro exI conjI) auto
  qed
  have more: "goes_on is c' \<Longrightarrow> goes_on (i # is) c'" for c' by (auto simp: goes_on_def)
  show ?case
  proof (cases "l > 0 \<and> in_mode ?c1 e \<and> \<not> quit")
    case False
    then have "code_scan prog remote button rep (i # is) quit (s, c) = code_scan prog remote button rep is quit (s, ?c1)"
      using e(1) by (simp only: code_scan.simps) (auto simp: Let_def)
    then show ?thesis using rest [OF k1, of quit s] more by auto
  next
    case True
    define x where "x = (if l > 1 then lirc_execute prog ?c1 i else (None, ?c1))"
    obtain t2 c2 where x: "x = (t2, c2)" by force
    have ok1: "list_all entry_ok (cf_first ?c1)" using k1 Cons.prems by (simp add: keeps_def)
    have i1: "i < length (cf_first ?c1)" using i by simp
    have x2: "keeps c c2" "cf_next c2 = cf_next c" "\<forall>y. t2 = Some y \<longrightarrow> ours prog c y"
    proof -
      note ex = execute_ok [OF i1 ok1, of prog]
      show "keeps c c2" "cf_next c2 = cf_next c" using x ex(1,2) keeps_trans [OF k1] k1 by (auto simp: x_def split: if_splits)
      have "ours prog ?c1 y" if "t2 = Some y" for y
        using that x oursI [OF i1 ex(3) [of y]] by (auto simp: x_def split: if_splits)
      then show "\<forall>y. t2 = Some y \<longrightarrow> ours prog c y" using keeps_ours [OF k1] by blast
    qed
    let ?s = "(t2, if t2 \<noteq> None then le_prog e else snd s)"
    have step: "code_scan prog remote button rep (i # is) quit (s, c) =
       (if has_flag (cf_first c2 ! i) f_quit then code_scan prog remote button rep is True (?s, c2\<lparr>cf_next := None\<rparr>)
        else if t2 \<noteq> None then Some (?s, c2\<lparr>cf_next := list_next (cf_first c2) i\<rparr>)
        else code_scan prog remote button rep is quit (?s, c2))"
      using e(1) True x by (simp only: code_scan.simps x_def) (auto simp: Let_def)
    show ?thesis
    proof (cases "has_flag (cf_first c2 ! i) f_quit")
      case q: True
      then have "code_scan prog remote button rep (i # is) quit (s, c) = code_scan prog remote button rep is True (?s, c2\<lparr>cf_next := None\<rparr>)"
        using step by simp
      then show ?thesis using rest [of "c2\<lparr>cf_next := None\<rparr>" True ?s] x2 True by (auto simp: goes_on_def)
    next
      case nq: False
      show ?thesis
      proof (cases t2)
        case None
        then have "code_scan prog remote button rep (i # is) quit (s, c) = code_scan prog remote button rep is quit (?s, c2)"
          using step nq by simp
        then show ?thesis using rest [OF x2(1), of quit ?s] True None more by auto
      next
        case (Some y)
        then show ?thesis using step nq x2 True
          by (auto simp: goes_on_def dest: list_head_next_valid(2))
      qed
    qed
  qed
qed

section \<open>A code\<close>

lemma code2char_ok:
  assumes "config_ok c"
  shows "\<exists>t p c'. lirc_code2char_internal prog c s = Some ((t, p), c') \<and> config_ok c' \<and> keeps c c'
    \<and> (\<forall>x. t = Some x \<longrightarrow> ours prog c x)
    \<and> (t \<noteq> None \<longrightarrow> (\<exists>i. cf_next c = Some i \<and> (\<forall>j. cf_next c' = Some j \<longrightarrow> i < j)))
    \<and> (t = None \<longrightarrow> cf_next c' = list_head (cf_first c') \<or> c' = c)"
proof -
  let ?is = "case cf_next c of None \<Rightarrow> [] | Some i \<Rightarrow> [i..<length (cf_first c)]"
  have c: "list_all entry_ok (cf_first c)" "list_all calm (cf_first c)" using assms by (simp_all add: config_ok_def)
  have "i < length (cf_first c)" if "i \<in> set ?is" for i using that by (auto split: option.splits)
  then have scan: "\<exists>t p c'. code_scan prog r b rep ?is False ((None, None), c) = Some ((t, p), c') \<and> keeps c c'
    \<and> (t \<noteq> None \<longrightarrow> goes_on ?is c') \<and> (\<forall>x. t = Some x \<longrightarrow> ours prog c x)" for r b rep
    using scan_ok [OF _ c, of ?is prog r b rep False "(None, None)"] by auto
  have ok: "config_ok (c'\<lparr>cf_next := x\<rparr>)" if "keeps c c'" "\<forall>i. x = Some i \<longrightarrow> i < length (cf_first c')" for c' x
    using that c keeps_calm [OF that(1)] by (simp add: config_ok_def keeps_def)
  have head: "config_ok (c'\<lparr>cf_next := list_head (cf_first c')\<rparr>)" if "keeps c c'" for c'
    using ok [OF that] list_head_ok by blast
  show ?thesis
  proof (cases "\<exists>rep b r. code_rep s = Some rep \<and> code_fields s = (Some b, Some r)")
    case True
    then obtain rep b r where f: "code_rep s = Some rep" "code_fields s = (Some b, Some r)" by blast
    obtain t p c' where sc: "code_scan prog r b rep ?is False ((None, None), c) = Some ((t, p), c')" "keeps c c'"
      "t \<noteq> None \<longrightarrow> goes_on ?is c'" "\<forall>x. t = Some x \<longrightarrow> ours prog c x" using scan by blast
    show ?thesis
    proof (cases t)
      case None
      then show ?thesis using f sc head [OF sc(2)] by (simp add: lirc_code2char_internal_def)
    next
      case (Some x)
      then have g: "goes_on ?is c'" using sc(3) by simp
      have "?is \<noteq> []" using Some sc(1) by (cases ?is) auto
      then obtain i where i: "cf_next c = Some i" by (auto split: option.splits)
      have "config_ok c'" using ok [OF sc(2), of "cf_next c'"] g by (simp add: goes_on_def)
      moreover have "\<forall>j. cf_next c' = Some j \<longrightarrow> i < j" using g i by (auto simp: goes_on_def)
      ultimately show ?thesis using f sc Some i by (simp add: lirc_code2char_internal_def)
    qed
  next
    case False
    have "lirc_code2char_internal prog c s = Some ((None, None), c)
      \<or> lirc_code2char_internal prog c s = Some ((None, None), c\<lparr>cf_next := list_head (cf_first c)\<rparr>)"
      using False by (auto simp: lirc_code2char_internal_def split: option.splits prod.splits)
    then show ?thesis using assms head [of c] by auto
  qed
qed

text \<open>The loop of a client: it asks for strings with the same code until there are no more. None when \<open>n\<close>
  calls are not enough, or a call crashes.\<close>

fun all_strings :: "string option \<Rightarrow> string \<Rightarrow> nat \<Rightarrow> lirc_config \<Rightarrow> (string list \<times> lirc_config) option" where
  "all_strings prog s 0 c = None"
| "all_strings prog s (Suc n) c = (case lirc_code2char_internal prog c s of
     None \<Rightarrow> None
   | Some ((None, _), c) \<Rightarrow> Some ([], c)
   | Some ((Some t, _), c) \<Rightarrow> map_option (\<lambda>(ts, c). (t # ts, c)) (all_strings prog s n c))"

definition entries_left :: "lirc_config \<Rightarrow> nat" where
  "entries_left c = (case cf_next c of None \<Rightarrow> 0 | Some i \<Rightarrow> length (cf_first c) - i)"

lemma all_strings_end:
  "config_ok c \<Longrightarrow> entries_left c < n \<Longrightarrow> \<exists>ts c'. all_strings prog s n c = Some (ts, c')
    \<and> length ts \<le> entries_left c \<and> config_ok c' \<and> keeps c c' \<and> (\<forall>t \<in> set ts. ours prog c t)"
proof (induction n arbitrary: c)
  case 0
  then show ?case by simp
next
  case (Suc n)
  obtain t p c1 where r: "lirc_code2char_internal prog c s = Some ((t, p), c1)" "config_ok c1" "keeps c c1"
    "\<forall>x. t = Some x \<longrightarrow> ours prog c x"
    "t \<noteq> None \<longrightarrow> (\<exists>i. cf_next c = Some i \<and> (\<forall>j. cf_next c1 = Some j \<longrightarrow> i < j))"
    using code2char_ok [OF Suc.prems(1)] by blast
  show ?case
  proof (cases t)
    case None
    then show ?thesis using r by auto
  next
    case (Some x)
    then obtain i where i: "cf_next c = Some i" "\<forall>j. cf_next c1 = Some j \<longrightarrow> i < j" using r(5) by auto
    have "i < length (cf_first c)" using Suc.prems(1) i(1) by (simp add: config_ok_def)
    then have "entries_left c1 < entries_left c"
      using i keeps_length [OF r(3)] by (auto simp: entries_left_def split: option.splits)
    then obtain ts c' where "all_strings prog s n c1 = Some (ts, c')" "length ts \<le> entries_left c1" "config_ok c'"
      "keeps c1 c'" "\<forall>t \<in> set ts. ours prog c1 t"
      using Suc.IH [OF r(2)] Suc.prems(2) by fastforce
    then show ?thesis using r Some \<open>entries_left c1 < entries_left c\<close> keeps_trans [OF r(3)] keeps_ours [OF r(3)] by auto
  qed
qed

end
