(* ===== verification/Client_Read_Facts.thy ===== *)
theory Client_Read_Facts
  imports Client_Facts
begin

text \<open>
  Facts on the reader of \<open>lircrc\<close> files: lines of any length, escape sequences, flags, and the entries
  it makes; and on what an entry does with repetitions and with its strings.
\<close>

section \<open>Lines\<close>

lemma fgets_line_or_block:
  "fgets n f = (l, r) \<Longrightarrow> (\<exists>w. l = w @ [newline] \<and> newline \<notin> set w) \<or> newline \<notin> set l"
proof (induction n f arbitrary: l r rule: fgets.induct)
  case (3 n c cs)
  show ?case
  proof (cases "c = newline")
    case True
    then show ?thesis using 3 by auto
  next
    case False
    then obtain l' where "fgets n cs = (l', r)" "l = c # l'" using 3 by (auto split: prod.splits)
    then show ?thesis using 3(1) [OF False] False by (auto simp: Cons_eq_append_conv)
  qed
qed auto

lemma takeWhile_line: "newline \<notin> set w \<Longrightarrow> takeWhile (\<lambda>c. c \<noteq> newline) (w @ newline # r) = w"
  by (induction w) auto

lemma dropWhile_line: "newline \<notin> set w \<Longrightarrow> dropWhile (\<lambda>c. c \<noteq> newline) (w @ newline # r) = newline # r"
  by (induction w) auto

lemma readline_loop_line:
  "newline \<notin> set acc \<Longrightarrow> f \<noteq> [] \<Longrightarrow> readline_loop acc f
    = (Some (acc @ takeWhile (\<lambda>c. c \<noteq> newline) f), drop 1 (dropWhile (\<lambda>c. c \<noteq> newline) f))"
proof (induction acc f rule: readline_loop.induct)
  case (1 acc f)
  obtain l r where lr: "fgets LIRC_READ f = (l, r)" by force
  have f: "f = l @ r" using fgets_append [OF lr] by simp
  obtain c cs where "f = c # cs" using 1(3) by (cases f) auto
  then have "l \<noteq> []" using fgets_progress [of 254 c cs l r] lr f by (auto simp: eval_nat_numeral)
  have step: "readline_loop acc f = (if last (acc @ l) = newline then (Some (butlast (acc @ l)), r) else readline_loop (acc @ l) r)"
    using 1(3) lr by (simp add: readline_loop.simps [of acc f] Let_def)
  consider (line) w where "l = w @ [newline]" "newline \<notin> set w" | (block) "newline \<notin> set l"
    using fgets_line_or_block [OF lr] by blast
  then show ?case
  proof cases
    case line
    then have "takeWhile (\<lambda>c. c \<noteq> newline) f = w" "dropWhile (\<lambda>c. c \<noteq> newline) f = newline # r"
      using takeWhile_line [of w r] dropWhile_line [of w r] f by simp_all
    then show ?thesis using line by (simp add: step butlast_append)
  next
    case block
    then have "last (acc @ l) \<noteq> newline" using \<open>l \<noteq> []\<close> by (metis last_appendR last_in_set)
    then have s: "readline_loop acc f = readline_loop (acc @ l) r" by (simp add: step)
    have t: "takeWhile (\<lambda>c. c \<noteq> newline) f = l @ takeWhile (\<lambda>c. c \<noteq> newline) r"
      "dropWhile (\<lambda>c. c \<noteq> newline) f = dropWhile (\<lambda>c. c \<noteq> newline) r"
      using block unfolding f by (auto simp: takeWhile_append dropWhile_append)
    show ?thesis
    proof (cases "r = []")
      case True
      then show ?thesis unfolding s t using \<open>l \<noteq> []\<close> by (simp add: readline_loop.simps [of "acc @ l" "[]"])
    next
      case False
      have "newline \<notin> set (acc @ l)" using 1(2) block by simp
      from 1(1) [OF 1(3) lr [symmetric] refl refl \<open>last (acc @ l) \<noteq> newline\<close> this False]
      show ?thesis unfolding s t by simp
    qed
  qed
qed

section \<open>Escape sequences\<close>

text \<open>Any character as an octal escape sequence of three digits.\<close>

definition octal_digit :: "nat \<Rightarrow> char" where
  "octal_digit n = ''01234567'' ! n"

definition octal_escape :: "char \<Rightarrow> string" where
  "octal_escape c = (let n = of_char c :: nat
     in [CHR 0x5C, octal_digit (n div 64), octal_digit (n div 8 mod 8), octal_digit (n mod 8)])"

lemma octal_digit_value: "n < 8 \<Longrightarrow> is_digit_of 8 (octal_digit n) \<and> digit_val (octal_digit n) = Some n
    \<and> map_of escape_letters (octal_digit n) = None"
proof -
  have nl: "newline = CHR 0x0A" by code_simp
  have "list_all (\<lambda>k. is_digit_of 8 (octal_digit k) \<and> digit_val (octal_digit k) = Some k
    \<and> map_of escape_letters (octal_digit k) = None) [0..<8]"
    by (simp add: octal_digit_def upt_rec is_digit_of_def digit_val_def escape_letters_def nl del: char_of_eq_iff)
  then show "n < 8 \<Longrightarrow> ?thesis" by (auto simp: list_all_iff)
qed

lemma escape_octal: "lirc_parse_escape (tl (octal_escape c) @ s) = (c, s)"
proof -
  let ?n = "of_char c :: nat"
  have n: "?n < 256" by simp
  have d: "?n div 64 < 8" "?n div 8 mod 8 < 8" "?n mod 8 < 8"
    by (rule less_mult_imp_div_less, use n in linarith) simp_all
  have v: "(?n div 64 * 8 + ?n div 8 mod 8) * 8 + ?n mod 8 = ?n"
  proof -
    have "?n div 64 = ?n div 8 div 8" by (simp add: div_mult2_eq [symmetric])
    then show ?thesis by (simp only: div_mult_mod_eq)
  qed
  have "read_octal 2 (?n div 64) (octal_digit (?n div 8 mod 8) # octal_digit (?n mod 8) # s) = (?n, s)"
    using octal_digit_value [OF d(2)] octal_digit_value [OF d(3)] v by (simp add: numeral_2_eq_2)
  then show ?thesis using octal_digit_value [OF d(1)] n
    by (simp add: octal_escape_def lirc_parse_escape_def Let_def)
qed

lemma unescape_octal: "unescape (concat (map octal_escape s)) = s"
proof (induction s)
  case Nil
  then show ?case by (simp add: unescape.simps)
next
  case (Cons c s)
  have "octal_escape c = CHR 0x5C # tl (octal_escape c)" by (simp add: octal_escape_def Let_def)
  then have e: "concat (map octal_escape (c # s)) = CHR 0x5C # tl (octal_escape c) @ concat (map octal_escape s)" by simp
  show ?case unfolding e using Cons escape_octal [of c "concat (map octal_escape s)"]
    by (subst unescape.simps) simp
qed

section \<open>Flags\<close>

definition flag_word :: "string \<Rightarrow> bool" where
  "flag_word w \<longleftrightarrow> w \<noteq> [] \<and> list_all (\<lambda>c. \<not> is_ws c \<and> c \<noteq> CHR ''|'') w"

lemma strtok_step_word:
  assumes "w \<noteq> []" "list_all (\<lambda>c. \<not> d c) w" "d x"
  shows "strtok_step d (w @ x # s) = (Some w, s)"
proof -
  have "dropWhile d (w @ x # s) = w @ x # s" using assms by (cases w) auto
  moreover have "takeWhile (\<lambda>c. \<not> d c) (w @ x # s) = w" "dropWhile (\<lambda>c. \<not> d c) (w @ x # s) = x # s"
    using assms(2,3) by (induction w) auto
  ultimately show ?thesis using assms(1) by (simp add: strtok_step_def)
qed

lemma tokens_only: "list_all (\<lambda>c. \<not> d c) w \<Longrightarrow> tokens_acc d cur w = (if cur = [] \<and> w = [] then [] else [rev cur @ w])"
  by (induction w arbitrary: cur) auto

text \<open>No flag has a bar in its name.\<close>

lemma bar_is_no_flag: "client_flag (x @ ''|'' @ y) = 0"
proof -
  have t: "tolower (CHR ''|'') = CHR ''|''" by code_simp
  have no: "\<not> strcaseeq (x @ ''|'' @ y) n" if "list_all (\<lambda>c. tolower c \<noteq> CHR ''|'') n" for n
  proof
    assume "strcaseeq (x @ ''|'' @ y) n"
    then have "set (map tolower n) = set (map tolower (x @ ''|'' @ y))" by (simp add: strcaseeq_def)
    then have "CHR ''|'' \<in> tolower ` set n" using t by auto
    then show False using that by (auto simp: list_all_iff)
  qed
  have "\<not> strcaseeq (x @ ''|'' @ y) ''once''" "\<not> strcaseeq (x @ ''|'' @ y) ''quit''"
    "\<not> strcaseeq (x @ ''|'' @ y) ''mode''" "\<not> strcaseeq (x @ ''|'' @ y) ''startup_mode''"
    "\<not> strcaseeq (x @ ''|'' @ y) ''toggle_reset''"
    by (rule no, code_simp)+
  then show ?thesis by (simp only: client_flag_def if_False)
qed

lemma barred_flags:
  assumes "flag_word a" "flag_word b" "flag_word c"
  shows "lirc_flags (a @ ''|'' @ b) = client_flag a OR client_flag b"
    and "lirc_flags (a @ ''|'' @ b @ ''|'' @ c) = client_flag a"
proof -
  have step: "strtok_step (\<lambda>c. is_ws c \<or> c = CHR ''|'') (a @ ''|'' @ s) = (Some a, s)" for s
    using assms(1) strtok_step_word [of a "\<lambda>c. is_ws c \<or> c = CHR ''|''" "CHR ''|''" s]
    by (simp add: flag_word_def)
  have bar: "\<not> is_ws (CHR ''|'')" by code_simp
  have "strtok_all is_ws b = [b]" using assms(2) tokens_only [of is_ws b "[]"]
    by (auto simp: strtok_all_def flag_word_def list_all_iff)
  then show "lirc_flags (a @ ''|'' @ b) = client_flag a OR client_flag b"
    using step [of b] by (simp add: lirc_flags_def flag_words_def)
  have "list_all (\<lambda>c. \<not> is_ws c) (b @ ''|'' @ c)" using assms(2,3) bar by (auto simp: flag_word_def list_all_iff)
  then have "strtok_all is_ws (b @ ''|'' @ c) = [b @ ''|'' @ c]"
    using tokens_only [of is_ws "b @ ''|'' @ c" "[]"] by (simp add: strtok_all_def)
  then show "lirc_flags (a @ ''|'' @ b @ ''|'' @ c) = client_flag a"
    using step [of "b @ ''|'' @ c"] bar_is_no_flag [of b c] by (simp add: lirc_flags_def flag_words_def)
qed

section \<open>The entries of a file\<close>

lemma end_entry_ok: "entry_ok (end_entry m e)"
  by (auto simp: entry_ok_def end_entry_def list_head_def)

definition reader_ok :: "lircrc_reader \<Rightarrow> bool" where
  "reader_ok r \<longleftrightarrow> list_all entry_ok (lr_first r)"

text \<open>A step that does not fail gives a reader whose entries are complete.\<close>

definition good_step :: "(lircrc_reader \<Rightarrow> lircrc_reader outcome) \<Rightarrow> bool" where
  "good_step f \<longleftrightarrow> (\<forall>r r'. reader_ok r \<longrightarrow> f r = Done r' \<longrightarrow> reader_ok r')"

lemma good_stepD: "good_step f \<Longrightarrow> reader_ok r \<Longrightarrow> f r = Done r' \<Longrightarrow> reader_ok r'"
  unfolding good_step_def by blast

lemma good_stepI: "(\<And>r r'. reader_ok r \<Longrightarrow> f r = Done r' \<Longrightarrow> reader_ok r') \<Longrightarrow> good_step f"
  unfolding good_step_def by blast

lemma and_then_Done: "and_then x f = Done y \<longleftrightarrow> (\<exists>z. x = Done z \<and> f z = Done y)"
  by (cases x) auto

lemma good_mode: "good_step (lirc_mode prog check t t2)"
  by (rule good_stepI, unfold lirc_mode_def reader_ok_def)
    (auto simp: and_then_Done end_entry_ok split: if_split_asm option.split_asm)

lemma good_shebang: "good_step (parse_shebang s p)"
  by (rule good_stepI) (auto simp: parse_shebang_def and_then_Done reader_ok_def split: if_splits)

lemma set_field_first: "lr_first (set_field t t2 e r) = lr_first r"
  unfolding set_field_def Let_def by (simp add: if_distrib [of lr_first] cong: if_cong)

lemma good_field: "good_step (field_line t t2)"
  by (rule good_stepI) (auto simp: field_line_def reader_ok_def set_field_first split: if_splits option.splits)

lemma good_class: "good_step (class_line root rest)"
  by (auto simp: good_step_def class_line_def and_then_Done reader_ok_def)

text \<open>The contract of including a file, and the reader under it.\<close>

definition good_incl :: "(string \<Rightarrow> lircrc_reader \<Rightarrow> lircrc_reader outcome) option \<Rightarrow> bool" where
  "good_incl incl \<longleftrightarrow> (\<forall>rd f. incl = Some rd \<longrightarrow> good_step (rd f))"

lemma good_and_then:
  "good_step f \<Longrightarrow> good_step g \<Longrightarrow> good_step (\<lambda>r. and_then (f r) g)"
  by (rule good_stepI) (auto simp: and_then_Done dest: good_stepD)

lemma good_const: "(\<And>s. good_step (f s)) \<Longrightarrow> good_step (\<lambda>r. and_then x (\<lambda>s. f s r))"
  by (rule good_stepI) (auto simp: and_then_Done dest: good_stepD)

lemma good_simple: "good_step Done" "good_step (\<lambda>r. Fail)" "good_step (\<lambda>r. Crash)"
  "good_step (\<lambda>r. Done (r\<lparr>lr_remote := None\<rparr>))"
  by (simp_all add: good_step_def reader_ok_def)

lemma good_word:
  assumes "good_incl incl"
  shows "good_step (word_line incl prog check root s)"
proof -
  obtain t s1 where t: "strtok_step is_ws s = (t, s1)" by force
  obtain t2 s2 where t2: "strtok_step is_ws s1 = (t2, s2)" by force
  obtain t3 s3 where t3: "strtok_step is_ws s2 = (t3, s3)" by force
  have i: "good_step (case incl of None \<Rightarrow> (\<lambda>r. Fail) | Some rd \<Rightarrow>
      (\<lambda>r. and_then (of_pointer (strtok_rest s1)) (\<lambda>s. rd (client_parse_include (lirc_trim s)) r)))"
    using assms by (auto simp: good_incl_def good_simple intro!: good_const split: option.split)
  show ?thesis
  proof (cases t)
    case None
    then have "word_line incl prog check root s = Done" by (simp add: fun_eq_iff word_line_def t)
    then show ?thesis by (simp add: good_simple)
  next
    case (Some w)
    have "word_line incl prog check root s =
       (if hd w = CHR ''#'' then Done
        else if strcaseeq w ''lircrc_class'' then class_line root (strtok_rest s1)
        else if strcaseeq w ''include'' then (case incl of None \<Rightarrow> (\<lambda>r. Fail) | Some rd \<Rightarrow>
          (\<lambda>r. and_then (of_pointer (strtok_rest s1)) (\<lambda>s. rd (client_parse_include (lirc_trim s)) r)))
        else if t2 \<noteq> None \<and> t3 \<noteq> None then Done
        else (\<lambda>r. and_then (lirc_mode prog check w t2 r) (\<lambda>r. Done (r\<lparr>lr_remote := None\<rparr>))))"
      using Some t t2 t3 by (simp add: fun_eq_iff word_line_def split: option.split)
    then show ?thesis using good_class i good_and_then [OF good_mode good_simple(4)] good_simple(1) by simp
  qed
qed

lemma good_line:
  assumes "good_incl incl"
  shows "good_step (lircrc_line incl prog check path root s)"
proof -
  have "reader_ok r'" if r: "reader_ok r" "lircrc_line incl prog check path root s r = Done r'" for r r'
  proof -
    let ?r = "r\<lparr>lr_firstline := False\<rparr>"
    have ok: "reader_ok ?r" using r(1) by (simp add: reader_ok_def)
    have "parse_shebang s path ?r = Done r' \<or> word_line incl prog check root s ?r = Done r'
      \<or> (\<exists>x y. field_line x y ?r = Done r')"
      using r(2) unfolding lircrc_line_def Let_def by (metis (no_types))
    then show ?thesis
      using good_stepD [OF good_word [OF assms] ok] good_stepD [OF good_shebang ok] good_stepD [OF good_field ok] by blast
  qed
  then show ?thesis by (rule good_stepI)
qed

lemma good_lines: "good_incl incl \<Longrightarrow> good_step (read_lines_of incl prog check path root ls)"
proof (induction ls)
  case Nil
  then show ?case by (intro good_stepI) simp
next
  case (Cons l ls)
  have "read_lines_of incl prog check path root (l # ls)
    = (\<lambda>r. and_then (lircrc_line incl prog check path root l r) (read_lines_of incl prog check path root ls))"
    by (simp add: fun_eq_iff)
  then show ?case using good_and_then [OF good_line [OF Cons.prems] Cons.IH [OF Cons.prems]] by simp
qed

lemma good_file: "good_step (read_file env prog check path k root name content)"
proof (induction k arbitrary: root name content)
  case 0
  have "read_file env prog check path 0 root name content = read_lines_of None prog check path root (file_lines content)"
    by (simp add: fun_eq_iff)
  then show ?case using good_lines [of None] by (simp add: good_incl_def)
next
  case (Suc k)
  let ?incl = "Some (\<lambda>f r. and_then (lirc_open env (Some f) (Some name)) (\<lambda>(name, content).
         read_file env prog check path k False name content r))"
  have "good_step (\<lambda>r. and_then x (\<lambda>(name, content). read_file env prog check path k False name content r))" for x
    using good_const [of "\<lambda>(name, content). read_file env prog check path k False name content" x] Suc
    by (simp add: case_prod_beta')
  then have "good_incl ?incl" by (auto simp: good_incl_def)
  moreover have "read_file env prog check path (Suc k) root name content
      = read_lines_of ?incl prog check path root (file_lines content)" by (simp add: fun_eq_iff)
  ultimately show ?case using good_lines by simp
qed

lemma take_startup_ok: "list_all entry_ok es \<Longrightarrow> take_startup es = (m, es') \<Longrightarrow> list_all entry_ok es'"
  by (induction es arbitrary: es' m) (auto simp: entry_ok_def split: if_splits prod.splits)

lemma startupmode_ok: "list_all entry_ok es \<Longrightarrow> lirc_startupmode prog es = (m, es') \<Longrightarrow> list_all entry_ok es'"
  using take_startup_ok [of es]
  by (auto simp: lirc_startupmode_def Let_def list_all_iff split: prod.splits option.splits if_splits)

text \<open>The pointers of every configuration that was read point into its lists, and it starts at its
  first entry.\<close>

lemma readconfig_ok:
  assumes "lirc_readconfig_only env prog check file = Done (c, name)"
  shows "list_all entry_ok (cf_first c) \<and> cf_next c = list_head (cf_first c)"
proof -
  obtain name content r r' where r: "read_file env prog check file (CLIENT_MAX_INCLUDES - 1) True name content lircrc_start = Done r"
      "(if lr_new r = None then Done r else lirc_mode prog check ''end'' None r) = Done r'" "c = make_config prog r'"
    using assms by (auto simp: lirc_readconfig_only_def and_then_Done)
  have "reader_ok lircrc_start" by (simp add: reader_ok_def lircrc_start_def)
  then have "reader_ok r" using r(1) good_stepD [OF good_file] by blast
  then have "reader_ok r'" using r(2) good_stepD [OF good_mode] by (auto split: if_splits)
  then show ?thesis using startupmode_ok [of "lr_first r'" prog] unfolding r(3)
    by (auto simp: make_config_def reader_ok_def split: prod.splits)
qed

end
