(* ===== verification/Client_Socket.thy ===== *)
theory Client_Socket
  imports Client_Types
begin

text \<open>
  \<open>lib/lirc_client.c\<close>, the sockets of a client: \<open>lirc_nextcode\<close> cuts the stream \<open>lircd\<close> sends into codes,
  \<open>lirc_command_run\<close> sends a command and follows the protocol of the reply. What \<open>read\<close> gives is a
  list of events: bytes that have arrived, nothing yet (\<open>EAGAIN\<close>), or an error; at the end of the list
  the other side has closed the connection.
\<close>

section \<open>Reading from a socket\<close>

datatype sock_event = SData string | SAgain | SError

text \<open>\<open>read\<close> of at most \<open>n\<close> bytes: what does not fit stays for the next call.\<close>

fun sock_read :: "nat \<Rightarrow> sock_event list \<Rightarrow> sock_event \<times> sock_event list" where
  "sock_read n [] = (SData [], [])"
| "sock_read n (SData d # ev) = (if length d \<le> n then (SData d, ev) else (SData (take n d), SData (drop n d) # ev))"
| "sock_read n (SAgain # ev) = (SAgain, ev)"
| "sock_read n (SError # ev) = (SError, ev)"

section \<open>Codes\<close>

abbreviation (input) CLIENT_PACKET_SIZE :: nat where "CLIENT_PACKET_SIZE \<equiv> 256"
abbreviation (input) nul_char :: char where "nul_char \<equiv> char_of (0::nat)"

text \<open>The static variables: the string in \<open>lirc_buffer\<close> (None is NULL), \<open>end_len\<close> and \<open>packet_size\<close>.\<close>

record code_buffer =
  cb_buffer :: "string option"
  cb_end_len :: nat
  cb_packet_size :: nat

definition code_buffer_start :: code_buffer where
  "code_buffer_start = \<lparr>cb_buffer = None, cb_end_len = 0, cb_packet_size = CLIENT_PACKET_SIZE\<rparr>"

text \<open>The first line of the buffer is the code; the rest moves to the front.\<close>

definition take_code :: "code_buffer \<Rightarrow> string \<Rightarrow> string \<times> code_buffer" where
  "take_code b s =
     (let line = takeWhile (\<lambda>c. c \<noteq> newline) s @ [newline]; rest = drop (length line) s
      in (line, b\<lparr>cb_buffer := Some rest, cb_end_len := length rest\<rparr>))"

text \<open>The string in the buffer after \<open>d\<close> has been stored at \<open>end_len\<close>: it grows if it ended there, else
  the new bytes lie behind its final NUL.\<close>

definition store_data :: "code_buffer \<Rightarrow> string \<Rightarrow> string \<Rightarrow> string" where
  "store_data b s d = (if cb_end_len b = length s then s @ takeWhile (\<lambda>c. c \<noteq> nul_char) d else s)"

text \<open>A full buffer is enlarged; new data may complete a code.\<close>

definition grow_buffer :: "code_buffer \<Rightarrow> code_buffer" where
  "grow_buffer b = (if cb_end_len b \<ge> cb_packet_size b
     then b\<lparr>cb_packet_size := cb_packet_size b + CLIENT_PACKET_SIZE\<rparr> else b)"

definition first_code :: "code_buffer \<Rightarrow> string \<Rightarrow> string option \<times> code_buffer" where
  "first_code b s = (if newline \<in> set s then (let (code, b) = take_code b s in (Some code, b))
     else (None, b\<lparr>cb_buffer := Some s\<rparr>))"

text \<open>The result is the return value, the code and the new state.\<close>

definition lirc_nextcode :: "code_buffer \<Rightarrow> sock_event list
    \<Rightarrow> (int \<times> string option) \<times> code_buffer \<times> sock_event list" where
  "lirc_nextcode b ev =
     (let s = (case cb_buffer b of None \<Rightarrow> [] | Some s \<Rightarrow> s);
          (code, b) = first_code b s
      in if code \<noteq> None then ((0, code), b, ev)
         else
           (let b = grow_buffer b;
                (got, ev) = sock_read (cb_packet_size b - cb_end_len b) ev
            in case got of
                 SAgain \<Rightarrow> ((0, None), b, ev)
               | SError \<Rightarrow> ((-1, None), b, ev)
               | SData d \<Rightarrow>
                   (if d = [] then ((-1, None), b, ev)
                    else (let (code, b) = first_code (b\<lparr>cb_end_len := cb_end_len b + length d\<rparr>) (store_data b s d)
                          in ((0, code), b, ev)))))"

text \<open>\<open>lirc_deinit\<close>, as far as it concerns the buffer.\<close>

definition deinit_buffer :: "code_buffer \<Rightarrow> code_buffer" where
  "deinit_buffer b = b\<lparr>cb_buffer := None\<rparr>"

section \<open>Commands\<close>

text \<open>\<open>lirc_cmd_ctx\<close>: the packet to send, the bytes of the buffer, the reply, the output, \<open>head\<close>
  (the first free byte) and \<open>next\<close> (the index of the next line, None is NULL).\<close>

record cmd_ctx =
  cc_packet :: string
  cc_buffer :: string
  cc_reply :: string
  cc_head :: nat
  cc_reply_to_stdout :: bool
  cc_next :: "nat option"
  cc_stdout :: string

text \<open>\<open>lirc_command_init\<close> with the formatted command; \<open>EMSGSIZE\<close> is None.\<close>

definition lirc_command_init :: "string \<Rightarrow> cmd_ctx option" where
  "lirc_command_init packet =
     (if length packet \<ge> CLIENT_PACKET_SIZE then None
      else Some \<lparr>cc_packet = packet, cc_buffer = replicate (CLIENT_PACKET_SIZE + 1) nul_char, cc_reply = [],
        cc_head = 0, cc_reply_to_stdout = False, cc_next = None, cc_stdout = []\<rparr>)"

definition lirc_command_reply_to_stdout :: "cmd_ctx \<Rightarrow> cmd_ctx" where
  "lirc_command_reply_to_stdout ctx = ctx\<lparr>cc_reply_to_stdout := True\<rparr>"

text \<open>Bytes written into an array, and the string that begins at an index of it.\<close>

definition overwrite :: "nat \<Rightarrow> string \<Rightarrow> string \<Rightarrow> string" where
  "overwrite i d xs = take i xs @ d @ drop (i + length d) xs"

definition string_at :: "nat \<Rightarrow> string \<Rightarrow> string" where
  "string_at i xs = takeWhile (\<lambda>c. c \<noteq> nul_char) (drop i xs)"

datatype read_status = ROk | RAgain | RErr

definition fill_string :: "cmd_ctx \<Rightarrow> sock_event list \<Rightarrow> read_status \<times> cmd_ctx \<times> sock_event list" where
  "fill_string ctx ev =
     (let (got, ev) = sock_read (CLIENT_PACKET_SIZE - cc_head ctx) ev
      in case got of
           SAgain \<Rightarrow> (RAgain, ctx, ev)
         | SError \<Rightarrow> (RErr, ctx\<lparr>cc_head := 0\<rparr>, ev)
         | SData d \<Rightarrow> (ROk, ctx\<lparr>cc_buffer := overwrite (cc_head ctx) d (cc_buffer ctx),
                               cc_head := cc_head ctx + length d\<rparr>, ev))"

text \<open>What has not been read yet moves to the front. None: \<open>memmove\<close> with a negative length, when the
  next line lies behind \<open>head\<close>.\<close>

definition move_rest :: "cmd_ctx \<Rightarrow> cmd_ctx option" where
  "move_rest ctx = (case cc_next ctx of
     None \<Rightarrow> Some ctx
   | Some skip \<Rightarrow>
       (if skip = 0 then Some ctx
        else if cc_head ctx < skip then None
        else
          (let n = cc_head ctx - skip;
               buf = overwrite 0 (take n (drop skip (cc_buffer ctx))) (cc_buffer ctx)
           in Some (ctx\<lparr>cc_head := n, cc_next := Some 0, cc_buffer := overwrite n [nul_char] buf\<rparr>))))"

text \<open>The line at the front, cut off at its newline.\<close>

definition front_line :: "cmd_ctx \<Rightarrow> string \<times> cmd_ctx" where
  "front_line ctx =
     (let s = string_at 0 (cc_buffer ctx); line = takeWhile (\<lambda>c. c \<noteq> newline) s
      in if newline \<in> set s
         then (line, ctx\<lparr>cc_buffer := overwrite (length line) [nul_char] (cc_buffer ctx), cc_next := Some (length line + 1)\<rparr>)
         else (s, ctx\<lparr>cc_next := None\<rparr>))"

text \<open>\<open>read_string\<close> gives the string None when it leaves the pointer of its caller alone.\<close>

definition read_string :: "cmd_ctx \<Rightarrow> sock_event list
    \<Rightarrow> (read_status \<times> string option \<times> cmd_ctx \<times> sock_event list) option" where
  "read_string ctx ev = (case move_rest ctx of
     None \<Rightarrow> None
   | Some ctx \<Rightarrow>
       (if cc_next ctx = None \<or> newline \<notin> set (string_at 0 (cc_buffer ctx)) then
          (case fill_string ctx ev of
             (ROk, ctx, ev) \<Rightarrow> (let (s, ctx) = front_line ctx in Some (ROk, Some s, ctx, ev))
           | (r, ctx, ev) \<Rightarrow> Some (r, None, ctx, ev))
        else (let (s, ctx) = front_line ctx in Some (ROk, Some s, ctx, ev))))"

text \<open>The states of the protocol.\<close>

datatype packet_state = P_BEGIN | P_MESSAGE | P_STATUS | P_DATA | P_N | P_DATA_N | P_END

text \<open>The results: 0, \<open>EIO\<close>, \<open>EPROTO\<close>, and the negative value of a \<open>write\<close> that failed.\<close>

datatype command_result = CSuccess | CError | CBadPacket | CWriteError

record cmd_state =
  cs_state :: packet_state
  cs_status :: command_result
  cs_n :: nat
  cs_data_n :: nat
  cs_ctx :: cmd_ctx

text \<open>\<open>strncpy\<close> into the reply: the reply is overwritten from its beginning.\<close>

definition copy_reply :: "string \<Rightarrow> string \<Rightarrow> string" where
  "copy_reply reply s =
     (let room = CLIENT_PACKET_SIZE - length reply
      in if length s < room then s else take room s @ drop room reply)"

definition store_reply :: "nat \<Rightarrow> string \<Rightarrow> cmd_ctx \<Rightarrow> cmd_ctx" where
  "store_reply n s ctx =
     (if cc_reply_to_stdout ctx
      then ctx\<lparr>cc_stdout := cc_stdout ctx @ (if n = 0 then [newline] else []) @ s @ [newline]\<rparr>
      else ctx\<lparr>cc_reply := copy_reply (if n = 0 then [] else cc_reply ctx) s\<rparr>)"

text \<open>The line of the reply that repeats the command.\<close>

definition echoes :: "string \<Rightarrow> string \<Rightarrow> bool" where
  "echoes s packet \<longleftrightarrow> strcaseeq s (take (length s) packet)
     \<and> length (takeWhile (\<lambda>c. c \<noteq> newline) s) = length (takeWhile (\<lambda>c. c \<noteq> newline) packet)"

text \<open>A line of the reply: the new state, or the result.\<close>

definition command_step :: "cmd_state \<Rightarrow> string \<Rightarrow> command_result + cmd_state" where
  "command_step c s = (case cs_state c of
     P_BEGIN \<Rightarrow> Inr (if strcaseeq s ''BEGIN'' then c\<lparr>cs_state := P_MESSAGE\<rparr> else c)
   | P_MESSAGE \<Rightarrow> Inr (c\<lparr>cs_state := (if echoes s (cc_packet (cs_ctx c)) then P_STATUS else P_BEGIN)\<rparr>)
   | P_STATUS \<Rightarrow>
       (if strcaseeq s ''SUCCESS'' then Inr (c\<lparr>cs_status := CSuccess, cs_state := P_DATA\<rparr>)
        else if strcaseeq s ''END'' then Inl CSuccess
        else if strcaseeq s ''ERROR'' then Inr (c\<lparr>cs_status := CError, cs_state := P_DATA\<rparr>)
        else Inl CBadPacket)
   | P_DATA \<Rightarrow>
       (if strcaseeq s ''END'' then Inl (cs_status c)
        else if strcaseeq s ''DATA'' then Inr (c\<lparr>cs_state := P_N\<rparr>)
        else Inl CBadPacket)
   | P_N \<Rightarrow>
       (let (v, r, _) = strtoul s; n = nat (u32 v)
        in if r \<noteq> [] then Inl CBadPacket
           else Inr (c\<lparr>cs_data_n := n, cs_state := (if n = 0 then P_END else P_DATA_N)\<rparr>))
   | P_DATA_N \<Rightarrow>
       Inr (c\<lparr>cs_ctx := store_reply (cs_n c) s (cs_ctx c), cs_n := cs_n c + 1,
              cs_state := (if cs_n c + 1 = cs_data_n c then P_END else P_DATA_N)\<rparr>)
   | P_END \<Rightarrow> Inl (if strcaseeq s ''END'' then cs_status c else CBadPacket))"

text \<open>The loop over the lines. When a read fails with another error than \<open>EAGAIN\<close> the pointer \<open>string\<close> keeps
  its value: NULL before the first line (\<open>seen\<close> is false), then the beginning of the buffer. The result
  \<open>Inr ()\<close> is a crash; the loop need not end.\<close>

partial_function (option) command_loop :: "cmd_state \<Rightarrow> bool \<Rightarrow> sock_event list
    \<Rightarrow> ((command_result \<times> cmd_ctx \<times> sock_event list) + unit) option" where
  "command_loop c seen ev = (case read_string (cs_ctx c) ev of
     None \<Rightarrow> Some (Inr ())
   | Some (r, s, ctx, ev) \<Rightarrow>
       (let c = c\<lparr>cs_ctx := ctx\<rparr>;
            line = (case s of Some l \<Rightarrow> l | None \<Rightarrow> if seen then string_at 0 (cc_buffer ctx) else [])
        in if r = RAgain then command_loop c seen ev
           else if line = [] then Some (Inl (CBadPacket, ctx, ev))
           else (case command_step c line of
               Inl res \<Rightarrow> Some (Inl (res, ctx, ev))
             | Inr c \<Rightarrow> command_loop c True ev)))"

definition command_start :: "cmd_ctx \<Rightarrow> cmd_state" where
  "command_start ctx = \<lparr>cs_state = P_BEGIN, cs_status = CSuccess, cs_n = 0, cs_data_n = 0, cs_ctx = ctx\<rparr>"

text \<open>Sending the packet: \<open>write\<close> takes a part of what is left, or fails (None).\<close>

fun send_packet :: "string \<Rightarrow> nat option list \<Rightarrow> string option" where
  "send_packet todo [] = (if todo = [] then Some [] else None)"
| "send_packet todo (w # ws) =
     (if todo = [] then Some []
      else (case w of None \<Rightarrow> None | Some k \<Rightarrow> map_option (\<lambda>s. take k todo @ s) (send_packet (drop k todo) ws)))"

definition lirc_command_run :: "cmd_ctx \<Rightarrow> nat option list \<Rightarrow> sock_event list
    \<Rightarrow> ((command_result \<times> cmd_ctx \<times> sock_event list) + unit) option" where
  "lirc_command_run ctx ws ev = (case send_packet (cc_packet ctx) ws of
     None \<Rightarrow> Some (Inl (CWriteError, ctx, ev))
   | Some _ \<Rightarrow> command_loop (command_start ctx) False ev)"

end
