(* ===== verification/Client_Socket_Facts.thy ===== *)
theory Client_Socket_Facts
  imports Client_Socket
begin

text \<open>
  Facts on the sockets of a client: the codes \<open>lirc_nextcode\<close> delivers, put together, are the stream, in
  whatever pieces it arrives; a reply that arrives in one piece is read line by line.
\<close>

section \<open>The stream\<close>

text \<open>The bytes the events still hold.\<close>

definition pending :: "sock_event list \<Rightarrow> string" where
  "pending ev = concat (map (\<lambda>e. case e of SData d \<Rightarrow> d | _ \<Rightarrow> []) ev)"

text \<open>Events without errors, empty reads and NUL bytes.\<close>

fun live :: "sock_event \<Rightarrow> bool" where
  "live (SData d) \<longleftrightarrow> d \<noteq> [] \<and> nul_char \<notin> set d"
| "live SAgain \<longleftrightarrow> True"
| "live SError \<longleftrightarrow> False"

text \<open>\<open>end_len\<close> is the length of the string in the buffer.\<close>

definition held :: "code_buffer \<Rightarrow> string" where
  "held b = (case cb_buffer b of None \<Rightarrow> [] | Some s \<Rightarrow> s)"

definition buffer_ok :: "code_buffer \<Rightarrow> bool" where
  "buffer_ok b \<longleftrightarrow> cb_end_len b = length (held b) \<and> cb_end_len b \<le> cb_packet_size b"

definition one_line :: "string \<Rightarrow> bool" where
  "one_line s \<longleftrightarrow> s \<noteq> [] \<and> last s = newline \<and> newline \<notin> set (butlast s)"

lemma sock_read_ok:
  assumes "sock_read n ev = (got, ev')" "list_all live ev" "0 < n"
  shows "(got = SData [] \<and> ev = [] \<or> live got) \<and> list_all live ev'
    \<and> pending ev = (case got of SData d \<Rightarrow> d | _ \<Rightarrow> []) @ pending ev'
    \<and> (\<forall>d. got = SData d \<longrightarrow> length d \<le> n)
    \<and> (ev \<noteq> [] \<longrightarrow> length (pending ev') + length ev' < length (pending ev) + length ev)"
proof (cases ev)
  case Nil
  then show ?thesis using assms by (auto simp: pending_def)
next
  case (Cons e es)
  show ?thesis
  proof (cases e)
    case (SData d)
    have d: "d \<noteq> []" "nul_char \<notin> set d" using assms(2) Cons SData by auto
    show ?thesis
    proof (cases "length d \<le> n")
      case True
      then show ?thesis using assms Cons SData d by (auto simp: pending_def)
    next
      case False
      then have "set (take n d) \<subseteq> set d" "set (drop n d) \<subseteq> set d" by (auto dest: in_set_takeD in_set_dropD)
      then have "live (SData (take n d))" "live (SData (drop n d))" using False d assms(3) by auto
      moreover have "got = SData (take n d)" "ev' = SData (drop n d) # es" using assms(1) Cons SData False by auto
      ultimately show ?thesis using assms(2,3) Cons SData False by (auto simp: pending_def simp del: live.simps)
    qed
  qed (use assms Cons in \<open>auto simp: pending_def\<close>)
qed

lemma take_code_ok:
  assumes "newline \<in> set s" "take_code b s = (code, b')"
  shows "one_line code" "code @ held b' = s" "cb_end_len b' = length (held b')" "cb_packet_size b' = cb_packet_size b"
    "length (held b') < length s"
proof -
  obtain w r where s: "s = w @ newline # r" "newline \<notin> set w" using split_list_first [OF assms(1)] by blast
  have "takeWhile (\<lambda>c. c \<noteq> newline) s = w" using s by (induction w arbitrary: s) auto
  then have "code = w @ [newline]" "held b' = r" "cb_end_len b' = length r" "cb_packet_size b' = cb_packet_size b"
    using assms(2) s(1) by (auto simp: take_code_def Let_def held_def)
  then show "one_line code" "code @ held b' = s" "cb_end_len b' = length (held b')" "cb_packet_size b' = cb_packet_size b"
    "length (held b') < length s"
    using s by (auto simp: one_line_def)
qed

lemma first_code_ok:
  assumes "first_code b s = (code, b')" "cb_end_len b = length s"
  shows "(case code of None \<Rightarrow> [] | Some c \<Rightarrow> c) @ held b' = s" "cb_end_len b' = length (held b')"
    "cb_packet_size b' = cb_packet_size b" "\<And>c. code = Some c \<Longrightarrow> one_line c \<and> length (held b') < length s"
    "code = None \<longleftrightarrow> newline \<notin> set s" "code = None \<Longrightarrow> held b' = s"
proof -
  show "code = None \<longleftrightarrow> newline \<notin> set s" using assms(1) by (auto simp: first_code_def split: if_splits prod.splits)
  show "code = None \<Longrightarrow> held b' = s" using assms(1) by (auto simp: first_code_def held_def split: if_splits prod.splits)
  have "(case code of None \<Rightarrow> [] | Some c \<Rightarrow> c) @ held b' = s \<and> cb_end_len b' = length (held b')
    \<and> cb_packet_size b' = cb_packet_size b \<and> (\<forall>c. code = Some c \<longrightarrow> one_line c \<and> length (held b') < length s)"
  proof (cases "newline \<in> set s")
    case True
    obtain c b1 where t: "take_code b s = (c, b1)" by force
    then have "code = Some c" "b' = b1" using assms(1) True by (auto simp: first_code_def)
    then show ?thesis using take_code_ok [OF True t] by simp
  next
    case False
    then show ?thesis using assms by (auto simp: first_code_def held_def)
  qed
  then show "(case code of None \<Rightarrow> [] | Some c \<Rightarrow> c) @ held b' = s" "cb_end_len b' = length (held b')"
    "cb_packet_size b' = cb_packet_size b" "\<And>c. code = Some c \<Longrightarrow> one_line c \<and> length (held b') < length s" by auto
qed

lemma grow_ok: "held (grow_buffer b) = held b" "cb_end_len (grow_buffer b) = cb_end_len b"
  "cb_end_len b \<le> cb_packet_size b \<Longrightarrow> cb_end_len b < cb_packet_size (grow_buffer b)"
  by (auto simp: grow_buffer_def held_def)

text \<open>How much a call leaves to do.\<close>

definition to_do :: "code_buffer \<Rightarrow> sock_event list \<Rightarrow> nat" where
  "to_do b ev = length (held b) + 2 * length (pending ev) + length ev"

lemma sock_read_events: "sock_read n ev = (got, ev') \<Longrightarrow> length ev' \<le> length ev"
  by (induction n ev rule: sock_read.induct) (auto split: if_splits)

text \<open>One call delivers one line or none, and loses nothing.\<close>

lemma nextcode_ok:
  assumes "buffer_ok b" "list_all live ev" "lirc_nextcode b ev = ((ret, code), b', ev')"
  shows "buffer_ok b' \<and> list_all live ev'
    \<and> (case code of None \<Rightarrow> [] | Some c \<Rightarrow> c) @ held b' @ pending ev' = held b @ pending ev
    \<and> (\<forall>c. code = Some c \<longrightarrow> one_line c)
    \<and> (if ev = [] \<and> newline \<notin> set (held b) then ret = -1 \<and> code = None \<and> held b' = held b \<and> ev' = []
       else ret = 0 \<and> to_do b' ev' < to_do b ev)"
proof -
  have len: "cb_end_len b = length (held b)" "cb_end_len b \<le> cb_packet_size b" using assms(1) by (simp_all add: buffer_ok_def)
  obtain code1 b1 where f: "first_code b (held b) = (code1, b1)" by force
  note f1 = first_code_ok [OF f len(1)]
  show ?thesis
  proof (cases code1)
    case (Some c)
    then have "ret = 0" "code = Some c" "b' = b1" "ev' = ev"
      using assms(3) f by (auto simp: lirc_nextcode_def held_def [symmetric] Let_def)
    moreover have "newline \<in> set (held b)" using f1(5) Some by simp
    ultimately show ?thesis using f1(1-3) f1(4) [OF Some] Some assms(2) len by (auto simp: buffer_ok_def to_do_def)
  next
    case None
    let ?g = "grow_buffer b1"
    have g: "held ?g = held b" "cb_end_len ?g = length (held b)" "cb_end_len ?g < cb_packet_size ?g"
      using f1(2,3,6) None len grow_ok [of b1] by auto
    have nn: "newline \<notin> set (held b)" using f1(5) None by simp
    obtain got ev1 where s: "sock_read (cb_packet_size ?g - cb_end_len ?g) ev = (got, ev1)" by force
    note r = sock_read_ok [OF s assms(2)] sock_read_events [OF s]
    have e: "lirc_nextcode b ev = (case got of
        SAgain \<Rightarrow> ((0, None), ?g, ev1) | SError \<Rightarrow> ((-1, None), ?g, ev1)
      | SData d \<Rightarrow> (if d = [] then ((-1, None), ?g, ev1)
          else (let (code, b) = first_code (?g\<lparr>cb_end_len := cb_end_len ?g + length d\<rparr>) (store_data ?g (held b) d)
                in ((0, code), b, ev1))))"
      using None f s by (simp add: lirc_nextcode_def held_def [symmetric] Let_def)
    show ?thesis
    proof (cases got)
      case SAgain
      then have "ret = 0" "code = None" "b' = ?g" "ev' = ev1" "ev \<noteq> []" using assms(3) s unfolding e by auto
      then show ?thesis using r g SAgain by (auto simp: to_do_def buffer_ok_def)
    next
      case SError
      then show ?thesis using r(1) g(3) by auto
    next
      case (SData d)
      show ?thesis
      proof (cases "d = []")
        case True
        then have "ev = []" using r(1) g(3) SData by auto
        then have "ret = -1" "code = None" "b' = ?g" "ev' = ev1" using assms(3) SData True unfolding e by auto
        then show ?thesis using r g nn SData True \<open>ev = []\<close> s by (auto simp: buffer_ok_def)
      next
        case False
        then have l: "live (SData d)" "pending ev = d @ pending ev1" "list_all live ev1" "length d \<le> cb_packet_size ?g - cb_end_len ?g"
          "ev \<noteq> []" using r(1) g(3) SData s by auto
        then have "takeWhile (\<lambda>c. c \<noteq> nul_char) d = d" by (auto simp: takeWhile_eq_all_conv)
        then have st: "store_data ?g (held b) d = held b @ d" using g(2) by (simp add: store_data_def)
        let ?h = "?g\<lparr>cb_end_len := cb_end_len ?g + length d\<rparr>"
        obtain code2 b2 where f2: "first_code ?h (held b @ d) = (code2, b2)" by force
        have "cb_end_len ?h = length (held b @ d)" using g(2) by simp
        note fc = first_code_ok [OF f2 this]
        have "lirc_nextcode b ev = ((0, code2), b2, ev1)" using SData False f2 by (simp add: e st)
        then have v: "ret = 0" "code = code2" "b' = b2" "ev' = ev1" using assms(3) by simp_all
        have hl: "length (held b2) \<le> length (held b) + length d" using arg_cong [OF fc(1), of length] g(2) by auto
        have "0 < length d" using False by simp
        with hl have t: "to_do b' ev' < to_do b ev" using r(2) by (simp add: to_do_def l(2) v del: length_greater_0_conv)
        have "length (held b2) \<le> cb_packet_size ?g" using hl l(4) g(2,3) by linarith
        then have "buffer_ok b'" using v fc(2,3) by (simp add: buffer_ok_def)
        then show ?thesis using v fc(1) fc(4) l(2,3,5) t by auto
      qed
    qed
  qed
qed

text \<open>A number of calls, as long as they do not fail.\<close>

fun next_codes :: "nat \<Rightarrow> code_buffer \<Rightarrow> sock_event list \<Rightarrow> string list \<times> code_buffer \<times> sock_event list" where
  "next_codes 0 b ev = ([], b, ev)"
| "next_codes (Suc n) b ev =
     (let ((ret, code), b', ev') = lirc_nextcode b ev
      in if ret = 0 then (let (cs, r) = next_codes n b' ev' in ((case code of None \<Rightarrow> [] | Some c \<Rightarrow> [c]) @ cs, r))
         else ([], b', ev'))"

lemma next_codes_ok:
  "buffer_ok b \<Longrightarrow> list_all live ev \<Longrightarrow> next_codes n b ev = (cs, b', ev') \<Longrightarrow>
    concat cs @ held b' @ pending ev' = held b @ pending ev \<and> list_all one_line cs
    \<and> (to_do b ev < n \<longrightarrow> ev' = [] \<and> newline \<notin> set (held b'))"
proof (induction n arbitrary: b ev cs)
  case 0
  then show ?case by simp
next
  case (Suc n)
  obtain ret code b1 ev1 where c: "lirc_nextcode b ev = ((ret, code), b1, ev1)" by (metis surj_pair)
  note k = nextcode_ok [OF Suc.prems(1,2) c]
  show ?case
  proof (cases "ev = [] \<and> newline \<notin> set (held b)")
    case True
    then have "ret = -1" "code = None" "held b1 = held b" "ev1 = []" using k by simp_all
    then show ?thesis using Suc.prems(3) c True by (auto simp: pending_def)
  next
    case False
    then have r: "ret = 0" "to_do b1 ev1 < to_do b ev" using k by (simp_all split: if_splits)
    obtain cs1 where n: "next_codes n b1 ev1 = (cs1, b', ev')" "cs = (case code of None \<Rightarrow> [] | Some c \<Rightarrow> [c]) @ cs1"
      using Suc.prems(3) c r(1) by (auto split: prod.splits)
    have "concat cs1 @ held b' @ pending ev' = held b1 @ pending ev1 \<and> list_all one_line cs1
      \<and> (to_do b1 ev1 < n \<longrightarrow> ev' = [] \<and> newline \<notin> set (held b'))"
      using k by (intro Suc.IH [OF _ _ n(1)]) simp_all
    then show ?thesis using n(2) k r(2) by (cases code) auto
  qed
qed

end
