(* ===== verification/Client_Reply.thy ===== *)
theory Client_Reply
  imports Client_Socket_Facts
begin

text \<open>
  The reply to a command. The reference \<open>follow\<close> takes the reply line by line; \<open>lirc_command_run\<close> gives its
  result when every piece of the reply that arrives ends a line. A connection that is closed in the
  middle of a line makes it loop for ever.
\<close>

section \<open>Reference\<close>

fun follow :: "cmd_state \<Rightarrow> string list \<Rightarrow> command_result \<times> cmd_state" where
  "follow c [] = (CBadPacket, c)"
| "follow c (l # ls) = (case command_step c l of Inl r \<Rightarrow> (r, c) | Inr c \<Rightarrow> follow c ls)"

definition unlines :: "string list \<Rightarrow> string" where
  "unlines ls = concat (map (\<lambda>l. l @ [newline]) ls)"

definition reply_line :: "string \<Rightarrow> bool" where
  "reply_line l \<longleftrightarrow> l \<noteq> [] \<and> newline \<notin> set l \<and> nul_char \<notin> set l"

text \<open>A piece ends a line; two of them fit into the buffer.\<close>

fun piece_ok :: "sock_event \<Rightarrow> bool" where
  "piece_ok (SData d) \<longleftrightarrow> newline \<in> set d \<and> length d \<le> 128"
| "piece_ok SAgain \<longleftrightarrow> True"
| "piece_ok SError \<longleftrightarrow> False"

lemma unlines_simps [simp]: "unlines [] = []" "unlines (l # ls) = l @ newline # unlines ls"
  by (simp_all add: unlines_def)

lemma nul_unlines: "list_all reply_line ls \<Longrightarrow> nul_char \<notin> set (unlines ls)"
proof -
  have "newline \<noteq> nul_char" by code_simp
  then show "list_all reply_line ls \<Longrightarrow> nul_char \<notin> set (unlines ls)"
    by (induction ls) (auto simp: reply_line_def)
qed

section \<open>The buffer\<close>

text \<open>What the steps of the protocol see of the context.\<close>

definition forget :: "cmd_ctx \<Rightarrow> cmd_ctx" where
  "forget ctx = ctx\<lparr>cc_buffer := [], cc_head := 0, cc_next := None\<rparr>"

definition forget_state :: "cmd_state \<Rightarrow> cmd_state" where
  "forget_state c = c\<lparr>cs_ctx := forget (cs_ctx c)\<rparr>"

lemma forget_update [simp]:
  "forget (ctx\<lparr>cc_buffer := b\<rparr>) = forget ctx" "forget (ctx\<lparr>cc_head := h\<rparr>) = forget ctx"
  "forget (ctx\<lparr>cc_next := n\<rparr>) = forget ctx"
  by (simp_all add: forget_def)

lemma forget_store [simp]: "forget (store_reply n s ctx) = store_reply n s (forget ctx)"
  by (simp add: store_reply_def forget_def)

lemma forget_packet: "cc_packet (forget ctx) = cc_packet ctx"
  by (simp add: forget_def)

lemma forget_step:
  "command_step (forget_state c) s = (case command_step c s of Inl r \<Rightarrow> Inl r | Inr c \<Rightarrow> Inr (forget_state c))"
  by (cases "cs_state c") (auto simp: command_step_def forget_state_def forget_packet Let_def split: prod.splits)

lemma follow_forget: "follow (forget_state c) ls = map_prod id forget_state (follow c ls)"
  by (induction c ls rule: follow.induct) (auto simp: forget_step split: sum.split)

text \<open>The buffer holds \<open>text\<close> behind what has been read.\<close>

definition buffer_holds :: "cmd_ctx \<Rightarrow> string \<Rightarrow> bool" where
  "buffer_holds ctx t \<longleftrightarrow> length (cc_buffer ctx) = CLIENT_PACKET_SIZE + 1
     \<and> (\<forall>u v. t = u @ v \<and> newline \<notin> set v \<longrightarrow> length v \<le> 128)
     \<and> (\<exists>pre post. cc_buffer ctx = pre @ t @ post \<and> cc_head ctx = length pre + length t
          \<and> cc_head ctx \<le> CLIENT_PACKET_SIZE
          \<and> (cc_next ctx = Some (length pre) \<and> pre \<noteq> []
             \<or> pre = [] \<and> newline \<notin> set t \<and> hd post = nul_char
               \<and> (cc_next ctx = Some 0 \<or> cc_next ctx = None \<and> t = [])))"

lemma string_at_cut: "nul_char \<notin> set xs \<Longrightarrow> string_at 0 (xs @ nul_char # ys) = xs"
  by (simp add: string_at_def takeWhile_append)

text \<open>The unread text moves to the front.\<close>

lemma move_rest_ok:
  assumes "buffer_holds ctx t"
  shows "\<exists>ctx' ys. move_rest ctx = Some ctx' \<and> forget ctx' = forget ctx \<and> cc_buffer ctx' = t @ nul_char # ys
    \<and> length (cc_buffer ctx') = CLIENT_PACKET_SIZE + 1 \<and> cc_head ctx' = length t
    \<and> (cc_next ctx' = Some 0 \<or> cc_next ctx' = None \<and> t = [])"
proof -
  obtain pre post where b: "length (cc_buffer ctx) = CLIENT_PACKET_SIZE + 1" "cc_buffer ctx = pre @ t @ post"
    "cc_head ctx = length pre + length t" "cc_head ctx \<le> CLIENT_PACKET_SIZE"
    "cc_next ctx = Some (length pre) \<and> pre \<noteq> [] \<or> pre = [] \<and> newline \<notin> set t \<and> hd post = nul_char
       \<and> (cc_next ctx = Some 0 \<or> cc_next ctx = None \<and> t = [])"
    using assms unfolding buffer_holds_def by blast
  have "post \<noteq> []" using b(1-4) by auto
  show ?thesis
  proof (cases "pre = []")
    case True
    then have "post = nul_char # tl post" using b(5) \<open>post \<noteq> []\<close> by (cases post) auto
    then show ?thesis using b True
      by (intro exI [of _ ctx] exI [of _ "tl post"]) (auto simp: move_rest_def)
  next
    case False
    then have n: "cc_next ctx = Some (length pre)" using b(5) by simp
    define ys where "ys = tl (drop (length t) (cc_buffer ctx))"
    have "drop (length t) (cc_buffer ctx) \<noteq> []" using b(1,3,4) by simp
    then have d: "drop (length t) (cc_buffer ctx) = hd (drop (length t) (cc_buffer ctx)) # ys" by (simp add: ys_def)
    let ?c = "ctx\<lparr>cc_head := length t, cc_next := Some 0, cc_buffer := t @ nul_char # ys\<rparr>"
    have tt: "take (length t) (drop (length pre) (cc_buffer ctx)) = t" using b(2) by simp
    have "overwrite (length t) [nul_char] (t @ drop (length t) (cc_buffer ctx)) = t @ nul_char # ys"
      by (subst d) (simp add: overwrite_def)
    then have "move_rest ctx = Some ?c"
      using n b(3) tt False by (simp add: move_rest_def Let_def) (simp add: overwrite_def)
    moreover have "length (t @ nul_char # ys) = CLIENT_PACKET_SIZE + 1"
      using arg_cong [OF d, of length] b(1,3,4) by simp
    ultimately show ?thesis by (intro exI [of _ ?c] exI [of _ ys]) auto
  qed
qed

text \<open>A line at the front is cut off.\<close>

lemma front_line_ok:
  assumes "cc_buffer ctx = l @ newline # t @ ys" "newline \<notin> set l" "nul_char \<notin> set l"
    "length (cc_buffer ctx) = CLIENT_PACKET_SIZE + 1" "cc_head ctx = length l + 1 + length t"
    "cc_head ctx \<le> CLIENT_PACKET_SIZE" "\<forall>u v. t = u @ v \<and> newline \<notin> set v \<longrightarrow> length v \<le> 128"
  shows "\<exists>ctx'. front_line ctx = (l, ctx') \<and> forget ctx' = forget ctx \<and> buffer_holds ctx' t"
proof -
  have nn: "newline \<noteq> nul_char" by code_simp
  have s: "string_at 0 (cc_buffer ctx) = l @ newline # takeWhile (\<lambda>c. c \<noteq> nul_char) (t @ ys)"
    using assms(1,3) nn by (simp add: string_at_def takeWhile_append)
  have w: "takeWhile (\<lambda>c. c \<noteq> newline) (string_at 0 (cc_buffer ctx)) = l"
    using assms(2) by (simp add: s takeWhile_append)
  have o: "overwrite (length l) [nul_char] (cc_buffer ctx) = (l @ [nul_char]) @ t @ ys"
    using assms(1) by (simp add: overwrite_def)
  let ?c = "ctx\<lparr>cc_buffer := (l @ [nul_char]) @ t @ ys, cc_next := Some (length l + 1)\<rparr>"
  have "front_line ctx = (l, ?c)" using w o by (simp add: front_line_def Let_def s)
  moreover have "length ((l @ [nul_char]) @ t @ ys) = CLIENT_PACKET_SIZE + 1" using assms(1,4) by simp
  moreover have "buffer_holds ?c t"
    unfolding buffer_holds_def using assms(4-7) calculation(2)
    by (intro conjI exI [of _ "l @ [nul_char]"] exI [of _ ys]) auto
  ultimately show ?thesis by auto
qed

section \<open>Reading a line\<close>

lemma first_line_cases:
  assumes "newline \<in> set t" obtains l r where "t = l @ newline # r" "newline \<notin> set l"
  using split_list_first [OF assms] by blast

lemma rest_short:
  "t = l @ newline # r \<Longrightarrow> \<forall>u v. t = u @ v \<and> newline \<notin> set v \<longrightarrow> length v \<le> 128
    \<Longrightarrow> \<forall>u v. r = u @ v \<and> newline \<notin> set v \<longrightarrow> length v \<le> 128"
  by (metis append_Cons append_assoc)

lemma read_line_held:
  assumes "buffer_holds ctx (l @ newline # r)" "newline \<notin> set l" "nul_char \<notin> set (l @ newline # r)"
  shows "\<exists>ctx'. read_string ctx ev = Some (ROk, Some l, ctx', ev) \<and> forget ctx' = forget ctx \<and> buffer_holds ctx' r"
proof -
  obtain c1 ys where m: "move_rest ctx = Some c1" "forget c1 = forget ctx" "cc_buffer c1 = (l @ newline # r) @ nul_char # ys"
    "length (cc_buffer c1) = CLIENT_PACKET_SIZE + 1" "cc_head c1 = length (l @ newline # r)" "cc_next c1 = Some 0"
    using move_rest_ok [OF assms(1)] by auto
  have "cc_head c1 \<le> CLIENT_PACKET_SIZE" using m(3,4,5) by simp
  moreover have "\<forall>u v. r = u @ v \<and> newline \<notin> set v \<longrightarrow> length v \<le> 128"
    using assms(1) by (intro rest_short [OF refl]) (auto simp: buffer_holds_def)
  ultimately obtain c2 where f: "front_line c1 = (l, c2)" "forget c2 = forget c1" "buffer_holds c2 r"
    using front_line_ok [of c1 l r "nul_char # ys"] m(3-5) assms(2,3) by auto
  have "string_at 0 (cc_buffer c1) = l @ newline # r" unfolding m(3) by (rule string_at_cut [OF assms(3)])
  then show ?thesis using m(1,2,6) f by (auto simp: read_string_def)
qed

text \<open>Nothing but the beginning of a line is held: more is read.\<close>

lemma buffer_emptied:
  assumes "move_rest ctx = Some ctx'" "cc_buffer ctx' = t @ nul_char # ys" "length (cc_buffer ctx') = CLIENT_PACKET_SIZE + 1"
    "cc_head ctx' = length t" "cc_next ctx' = Some 0 \<or> cc_next ctx' = None \<and> t = []" "newline \<notin> set t" "length t \<le> 128"
  shows "buffer_holds ctx' t"
  unfolding buffer_holds_def using assms by (intro conjI exI [of _ "[]"] exI [of _ "nul_char # ys"]) auto

lemma read_line_part:
  assumes "buffer_holds ctx t" "newline \<notin> set t" "nul_char \<notin> set t"
  shows "\<exists>ctx'. read_string ctx (SAgain # ev) = Some (RAgain, None, ctx', ev) \<and> forget ctx' = forget ctx \<and> buffer_holds ctx' t"
    and "t = [] \<Longrightarrow> \<exists>ctx'. read_string ctx [] = Some (ROk, Some [], ctx', []) \<and> forget ctx' = forget ctx"
    and "d = l @ newline # r \<Longrightarrow> newline \<notin> set l \<Longrightarrow> nul_char \<notin> set d \<Longrightarrow> length d \<le> 128 \<Longrightarrow>
      \<exists>ctx'. read_string ctx (SData d # ev) = Some (ROk, Some (t @ l), ctx', ev) \<and> forget ctx' = forget ctx \<and> buffer_holds ctx' r"
proof -
  obtain c1 ys where m: "move_rest ctx = Some c1" "forget c1 = forget ctx" "cc_buffer c1 = t @ nul_char # ys"
    "length (cc_buffer c1) = CLIENT_PACKET_SIZE + 1" "cc_head c1 = length t" "cc_next c1 = Some 0 \<or> cc_next c1 = None \<and> t = []"
    using move_rest_ok [OF assms(1)] by auto
  have short: "length t \<le> 128" using assms(1,2) unfolding buffer_holds_def by (metis append_Nil)
  have st: "string_at 0 (cc_buffer c1) = t" unfolding m(3) by (rule string_at_cut [OF assms(3)])
  show "\<exists>ctx'. read_string ctx (SAgain # ev) = Some (RAgain, None, ctx', ev) \<and> forget ctx' = forget ctx \<and> buffer_holds ctx' t"
    using m(1,2) st assms(2) buffer_emptied [OF m(1) m(3-6) assms(2) short]
    by (simp add: read_string_def fill_string_def)
  show "\<exists>ctx'. read_string ctx [] = Some (ROk, Some [], ctx', []) \<and> forget ctx' = forget ctx" if "t = []"
  proof -
    let ?f = "c1\<lparr>cc_buffer := overwrite (cc_head c1) [] (cc_buffer c1), cc_head := cc_head c1 + 0\<rparr>"
    have b: "overwrite (cc_head c1) [] (cc_buffer c1) = cc_buffer c1" by (simp add: overwrite_def)
    have "front_line ?f = ([], ?f\<lparr>cc_next := None\<rparr>)"
      using st that by (simp add: front_line_def b)
    then show ?thesis using m(1,2) st that b by (simp add: read_string_def fill_string_def)
  qed
  show "\<exists>ctx'. read_string ctx (SData d # ev) = Some (ROk, Some (t @ l), ctx', ev) \<and> forget ctx' = forget ctx \<and> buffer_holds ctx' r"
    if d: "d = l @ newline # r" "newline \<notin> set l" "nul_char \<notin> set d" "length d \<le> 128"
  proof -
    let ?f = "c1\<lparr>cc_buffer := overwrite (cc_head c1) d (cc_buffer c1), cc_head := cc_head c1 + length d\<rparr>"
    define zs where "zs = drop (length d) (nul_char # ys)"
    have o: "overwrite (cc_head c1) d (cc_buffer c1) = (t @ l) @ newline # r @ zs"
      using d(1) by (simp add: overwrite_def m(3,5) zs_def)
    have len: "length ((t @ l) @ newline # r @ zs) = CLIENT_PACKET_SIZE + 1"
      using m(3,4) d(1,4) short by (simp add: zs_def)
    have sh: "\<forall>u v. r = u @ v \<and> newline \<notin> set v \<longrightarrow> length v \<le> 128" using d(1,4) by auto
    obtain c2 where f: "front_line ?f = (t @ l, c2)" "forget c2 = forget ?f" "buffer_holds c2 r"
      using front_line_ok [of ?f "t @ l" r zs] o len sh m(5) d assms(2,3) short by auto
    have "fill_string c1 (SData d # ev) = (ROk, ?f, ev)"
      using d(4) short m(5) by (simp add: fill_string_def)
    then have "read_string ctx (SData d # ev) = Some (ROk, Some (t @ l), c2, ev)"
      using m(1) st assms(2) f(1) by (simp add: read_string_def)
    then show ?thesis using f m(2) by auto
  qed
qed

section \<open>Following the reply\<close>

lemma unlines_first:
  assumes "l @ newline # r = unlines ls" "newline \<notin> set l" "list_all reply_line ls"
  obtains ls' where "ls = l # ls'" "r = unlines ls'"
proof -
  obtain k ks where k: "ls = k # ks" using assms(1) by (cases ls) auto
  then have e: "l @ newline # r = k @ newline # unlines ks" "newline \<notin> set k"
    using assms by (auto simp: reply_line_def)
  have "l = k" using arg_cong [OF e(1), of "takeWhile (\<lambda>c. c \<noteq> newline)"] e(2) assms(2)
    by (auto simp: takeWhile_append split: if_splits)
  then have "l = k" "r = unlines ks" using e(1) by simp_all
  then show ?thesis using k that by blast
qed

lemma unlines_ends: "t = unlines ls \<Longrightarrow> newline \<notin> set t \<Longrightarrow> ls = [] \<and> t = []"
  by (cases ls) auto

text \<open>The loop has read a line.\<close>

lemma command_loop_line:
  assumes "read_string (cs_ctx c) ev = Some (ROk, Some l, ctx', ev')" "l \<noteq> []"
  shows "command_loop c seen ev = (case command_step (c\<lparr>cs_ctx := ctx'\<rparr>) l of
    Inl r \<Rightarrow> Some (Inl (r, ctx', ev')) | Inr c \<Rightarrow> command_loop c True ev')"
  using assms by (subst command_loop.simps) simp

lemma step_keeps_buffer:
  assumes "command_step c l = Inr c'" "buffer_holds (cs_ctx c) t"
  shows "buffer_holds (cs_ctx c') t"
proof -
  have "buffer_holds (store_reply n s ctx) t = buffer_holds ctx t" for n s ctx
    by (simp add: store_reply_def buffer_holds_def)
  then show ?thesis using assms
    by (cases "cs_state c") (auto simp: command_step_def Let_def split: if_splits prod.splits)
qed

lemma follow_line:
  assumes "buffer_holds (cs_ctx c) t" "read_string (cs_ctx c) ev = Some (ROk, Some l, ctx', ev')" "l \<noteq> []"
    "forget ctx' = forget (cs_ctx c)" "buffer_holds ctx' r"
    and "\<And>c'. buffer_holds (cs_ctx c') r \<Longrightarrow> \<exists>ctx2 ev2. command_loop c' True ev'
      = Some (Inl (fst (follow (forget_state c') ls), ctx2, ev2)) \<and> forget ctx2 = cs_ctx (snd (follow (forget_state c') ls))"
  shows "\<exists>ctx2 ev2. command_loop c seen ev = Some (Inl (fst (follow (forget_state c) (l # ls)), ctx2, ev2))
    \<and> forget ctx2 = cs_ctx (snd (follow (forget_state c) (l # ls)))"
proof -
  let ?c = "c\<lparr>cs_ctx := ctx'\<rparr>"
  have f: "forget_state ?c = forget_state c" using assms(4) by (simp add: forget_state_def)
  note s = forget_step [of ?c l, unfolded f]
  show ?thesis
  proof (cases "command_step ?c l")
    case (Inl res)
    then show ?thesis using command_loop_line [OF assms(2,3), of seen] s assms(4) by (simp add: forget_state_def)
  next
    case (Inr c')
    then have "buffer_holds (cs_ctx c') r" using step_keeps_buffer [of ?c l c' r] assms(5) by simp
    then show ?thesis using assms(6) [of c'] command_loop_line [OF assms(2,3), of seen] s Inr by simp
  qed
qed

lemma reply_loop:
  "buffer_holds (cs_ctx c) t \<Longrightarrow> t @ pending ev = unlines ls \<Longrightarrow> list_all reply_line ls \<Longrightarrow> list_all piece_ok ev \<Longrightarrow>
    \<exists>ctx' ev'. command_loop c seen ev = Some (Inl (fst (follow (forget_state c) ls), ctx', ev'))
      \<and> forget ctx' = cs_ctx (snd (follow (forget_state c) ls))"
proof (induction "length ls + length ev" arbitrary: c t ev ls seen rule: less_induct)
  case less
  note h = less.prems
  have nul: "nul_char \<notin> set (t @ pending ev)" using nul_unlines [OF h(3)] h(2) by simp
  show ?case
  proof (cases "newline \<in> set t")
    case True
    then obtain l r where t: "t = l @ newline # r" "newline \<notin> set l" by (rule first_line_cases)
    obtain ls' where ls: "ls = l # ls'" "r @ pending ev = unlines ls'"
      using unlines_first [of l "r @ pending ev" ls] t h(2,3) by auto
    obtain ctx' where r: "read_string (cs_ctx c) ev = Some (ROk, Some l, ctx', ev)" "forget ctx' = forget (cs_ctx c)"
      "buffer_holds ctx' r" using read_line_held [of "cs_ctx c" l r ev] h(1) t nul by auto
    have "l \<noteq> []" "list_all reply_line ls'" using h(3) ls(1) by (auto simp: reply_line_def)
    then show ?thesis unfolding ls(1)
      using follow_line [OF h(1) r(1) _ r(2,3)] less.hyps [of ls' ev _ r] ls h(4) by simp
  next
    case False
    have nt: "nul_char \<notin> set t" using nul by simp
    note part = read_line_part [OF h(1) False nt]
    show ?thesis
    proof (cases ev)
      case Nil
      then have "ls = []" "t = []" using unlines_ends [of t ls] h(2) False by (simp_all add: pending_def)
      then obtain ctx' where "read_string (cs_ctx c) ev = Some (ROk, Some [], ctx', [])" "forget ctx' = forget (cs_ctx c)"
        using part(2) Nil by auto
      then show ?thesis using \<open>ls = []\<close> by (subst command_loop.simps) (simp add: forget_state_def)
    next
      case (Cons e ev')
      show ?thesis
      proof (cases e)
        case SAgain
        obtain ctx' where r: "read_string (cs_ctx c) ev = Some (RAgain, None, ctx', ev')" "forget ctx' = forget (cs_ctx c)"
          "buffer_holds ctx' t" using part(1) [of ev'] Cons SAgain by auto
        have "forget_state (c\<lparr>cs_ctx := ctx'\<rparr>) = forget_state c" using r(2) by (simp add: forget_state_def)
        moreover have "command_loop c seen ev = command_loop (c\<lparr>cs_ctx := ctx'\<rparr>) seen ev'"
          using r(1) by (subst command_loop.simps) simp
        ultimately show ?thesis
          using less.hyps [of ls ev' "c\<lparr>cs_ctx := ctx'\<rparr>" t seen] h r(3) Cons SAgain by (simp add: pending_def)
      next
        case SError
        then show ?thesis using h(4) Cons by simp
      next
        case (SData d)
        then have "newline \<in> set d" using h(4) Cons by simp
        then obtain l r where d: "d = l @ newline # r" "newline \<notin> set l" by (rule first_line_cases)
        have p: "pending ev = d @ pending ev'" using Cons SData by (simp add: pending_def)
        then obtain ls' where ls: "ls = (t @ l) # ls'" "r @ pending ev' = unlines ls'"
          using unlines_first [of "t @ l" "r @ pending ev'" ls] d h(2,3) False by auto
        obtain ctx' where r: "read_string (cs_ctx c) ev = Some (ROk, Some (t @ l), ctx', ev')" "forget ctx' = forget (cs_ctx c)"
          "buffer_holds ctx' r" using part(3) [OF d] Cons SData nul p h(4) by auto
        have "t @ l \<noteq> []" "list_all reply_line ls'" "list_all piece_ok ev'"
          using h(3,4) ls(1) Cons by (auto simp: reply_line_def)
        then show ?thesis unfolding ls(1)
          using follow_line [OF h(1) r(1) _ r(2,3)] less.hyps [of ls' ev' _ r] ls Cons by simp
      qed
    qed
  qed
qed

lemma command_init_holds: "lirc_command_init packet = Some ctx \<Longrightarrow> buffer_holds ctx []"
  by (auto simp: lirc_command_init_def buffer_holds_def split: if_splits)

section \<open>A connection that is closed in a line\<close>

text \<open>A read of 0 bytes is not taken for the end: before the reply begins the same piece of a line is read
  again and again.\<close>

definition stuck :: "string \<Rightarrow> cmd_state \<Rightarrow> bool" where
  "stuck d c \<longleftrightarrow> cs_state c = P_BEGIN \<and> cc_next (cs_ctx c) = None \<and> (\<exists>ys. cc_buffer (cs_ctx c) = d @ nul_char # ys)"

lemma stuck_read:
  assumes "stuck d c" "newline \<notin> set d" "nul_char \<notin> set d"
  shows "read_string (cs_ctx c) [] = Some (ROk, Some d, cs_ctx c, [])"
proof -
  obtain ys where b: "cc_next (cs_ctx c) = None" "cc_buffer (cs_ctx c) = d @ nul_char # ys"
    using assms(1) by (auto simp: stuck_def)
  have o: "overwrite (cc_head (cs_ctx c)) [] (cc_buffer (cs_ctx c)) = cc_buffer (cs_ctx c)" by (simp add: overwrite_def)
  have "string_at 0 (cc_buffer (cs_ctx c)) = d" unfolding b(2) by (rule string_at_cut [OF assms(3)])
  then have "front_line (cs_ctx c) = (d, cs_ctx c)" using b(1) assms(2) by (simp add: front_line_def)
  moreover have "fill_string (cs_ctx c) [] = (ROk, cs_ctx c, [])" by (simp add: fill_string_def o)
  ultimately show ?thesis using b(1) by (simp add: read_string_def move_rest_def)
qed

lemma stuck_for_ever:
  assumes d: "d \<noteq> []" "newline \<notin> set d" "nul_char \<notin> set d" "\<not> strcaseeq d ''BEGIN''"
  shows "stuck d c \<Longrightarrow> command_loop c seen [] = None"
proof -
  have "command_loop c seen ev = Some r \<Longrightarrow> \<not> (stuck d c \<and> ev = [])" for c seen ev r
  proof (rule command_loop.raw_induct [where P = "\<lambda>c seen ev r. \<not> (stuck d c \<and> ev = [])"])
    fix f c seen ev r
    assume ih: "\<And>c seen ev r. f c seen ev = Some r \<Longrightarrow> \<not> (stuck d c \<and> ev = [])"
      and s: "(case read_string (cs_ctx c) ev of None \<Rightarrow> Some (Inr ())
        | Some (r, s, ctx, ev) \<Rightarrow>
            (let c = c\<lparr>cs_ctx := ctx\<rparr>;
                 line = (case s of Some l \<Rightarrow> l | None \<Rightarrow> if seen then string_at 0 (cc_buffer ctx) else [])
             in if r = RAgain then f c seen ev
                else if line = [] then Some (Inl (CBadPacket, ctx, ev))
                else (case command_step c line of
                    Inl res \<Rightarrow> Some (Inl (res, ctx, ev))
                  | Inr c \<Rightarrow> f c True ev))) = Some r"
    show "\<not> (stuck d c \<and> ev = [])"
    proof
      assume a: "stuck d c \<and> ev = []"
      then have r: "read_string (cs_ctx c) ev = Some (ROk, Some d, cs_ctx c, [])" using stuck_read d by simp
      have "command_step c d = Inr c" using a d(4) by (simp add: command_step_def stuck_def)
      then have "f c True [] = Some r" using s d(1) by (simp add: r)
      then show False using ih a by blast
    qed
  qed
  then show "stuck d c \<Longrightarrow> command_loop c seen [] = None" by (cases "command_loop c seen []") blast+
qed

lemma stuck_start:
  assumes "lirc_command_init packet = Some ctx" "d \<noteq> []" "newline \<notin> set d" "nul_char \<notin> set d"
    "length d \<le> CLIENT_PACKET_SIZE"
  shows "\<exists>ctx'. read_string ctx [SData d] = Some (ROk, Some d, ctx', []) \<and> stuck d ((command_start ctx)\<lparr>cs_ctx := ctx'\<rparr>)"
proof -
  have c: "cc_head ctx = 0" "cc_next ctx = None" "cc_buffer ctx = replicate (CLIENT_PACKET_SIZE + 1) nul_char"
    using assms(1) by (auto simp: lirc_command_init_def split: if_splits)
  obtain k where k: "CLIENT_PACKET_SIZE + 1 - length d = Suc k" using assms(5) by (metis Suc_diff_le Suc_eq_plus1)
  let ?f = "ctx\<lparr>cc_buffer := d @ nul_char # replicate k nul_char, cc_head := length d\<rparr>"
  have "overwrite 0 d (cc_buffer ctx) = d @ nul_char # replicate k nul_char"
    using k by (simp add: c overwrite_def)
  then have f: "fill_string ctx [SData d] = (ROk, ?f, [])" using assms(5) c(1) by (simp add: fill_string_def)
  have s: "string_at 0 (cc_buffer ?f) = d" using string_at_cut [OF assms(4), of "replicate k nul_char"] by simp
  then have "front_line ?f = (d, ?f\<lparr>cc_next := None\<rparr>)" using assms(3) by (simp add: front_line_def)
  then have "read_string ctx [SData d] = Some (ROk, Some d, ?f\<lparr>cc_next := None\<rparr>, [])"
    using f c(2) by (simp add: read_string_def move_rest_def)
  moreover have "stuck d ((command_start ctx)\<lparr>cs_ctx := ?f\<lparr>cc_next := None\<rparr>\<rparr>)" by (auto simp: stuck_def command_start_def)
  ultimately show ?thesis by blast
qed

section \<open>The whole reply\<close>

lemma run_follows_lines:
  assumes "lirc_command_init packet = Some ctx" "send_packet packet ws = Some sent"
    "list_all reply_line ls" "list_all piece_ok ev" "pending ev = unlines ls"
  shows "\<exists>ctx' ev'. lirc_command_run ctx ws ev = Some (Inl (fst (follow (command_start ctx) ls), ctx', ev'))
    \<and> cc_reply ctx' = cc_reply (cs_ctx (snd (follow (command_start ctx) ls)))"
proof -
  have p: "cc_packet ctx = packet" using assms(1) by (auto simp: lirc_command_init_def split: if_splits)
  have h: "buffer_holds (cs_ctx (command_start ctx)) []" using command_init_holds [OF assms(1)] by (simp add: command_start_def)
  obtain ctx' ev' where r: "command_loop (command_start ctx) False ev
      = Some (Inl (fst (follow (forget_state (command_start ctx)) ls), ctx', ev'))"
    "forget ctx' = cs_ctx (snd (follow (forget_state (command_start ctx)) ls))"
    using reply_loop [OF h _ assms(3,4), of False] assms(5) by auto
  have "forget ctx' = forget (cs_ctx (snd (follow (command_start ctx) ls)))"
    using r(2) unfolding follow_forget by (simp add: forget_state_def)
  then have "cc_reply ctx' = cc_reply (cs_ctx (snd (follow (command_start ctx) ls)))"
    by (auto simp: forget_def dest: arg_cong [of _ _ cc_reply])
  then show ?thesis using r(1) assms(2) p by (auto simp: lirc_command_run_def follow_forget)
qed

end
