(* ===== verification/Client_Props.thy ===== *)
theory Client_Props
  imports Client_Read_Facts Client_Reply
begin

text \<open>
  The properties of the client library: sequences of buttons, repetitions, strings and modes; the
  stream of codes and the replies to commands; the text of a \<open>lircrc\<close> file.
\<close>

section \<open>Sequences\<close>

text \<open>C15. Sequences of buttons. An entry of two or more codes without wildcards is completed by a button
  exactly when the buttons pressed since it was last completed end with its sequence, whatever was
  pressed before: the rebasing of \<open>lirc_iscode\<close> keeps the longest beginning of the sequence.\<close>

theorem sequence_is_recognised:
  assumes "named cs" "2 \<le> length cs" "le_code e = cs" "le_next_code e = Some 0"
  shows "completions e ps = Some (completed cs [] ps)"
proof -
  have "cs \<noteq> []" using assms(2) by auto
  then show ?thesis using assms(3,4) by (intro completions_history [OF assms(1,2)]) (simp_all add: progress_Nil)
qed

definition button_a :: lirc_code where "button_a = \<lparr>lc_remote = Some ''r'', lc_button = Some ''A''\<rparr>"
definition button_b :: lirc_code where "button_b = \<lparr>lc_remote = Some ''r'', lc_button = Some ''B''\<rparr>"

definition entry_aab :: lirc_entry where
  "entry_aab = empty_entry\<lparr>le_code := [button_a, button_a, button_b], le_next_code := Some 0,
     le_prog := Some ''tv'', le_config := [''up'', ''down''], le_next_config := Some 0\<rparr>"

theorem sequence_is_recognised_witness:
  "completed (le_code entry_aab) [] [(''r'', ''A''), (''r'', ''A''), (''r'', ''A''), (''r'', ''B'')] = [False, False, False, True]"
proof -
  have c: "named (le_code entry_aab)" "2 \<le> length (le_code entry_aab)" "le_next_code entry_aab = Some 0" by code_simp+
  have "completions entry_aab [(''r'', ''A''), (''r'', ''A''), (''r'', ''A''), (''r'', ''B'')] = Some [False, False, False, True]"
    by code_simp
  then show ?thesis using sequence_is_recognised [OF c(1,2) refl c(3)] by (metis option.inject)
qed

section \<open>Strings\<close>

text \<open>C16. A client gets all strings of a code. After a \<open>lircrc\<close> file was read, asking for strings
  with the same code ends after at most one call per entry and one more, without a crash, and every
  string belongs to an entry of the program, provided that no code inside a sequence is a wildcard.\<close>

theorem all_strings_of_a_code:
  assumes "lirc_readconfig_only env prog check file = Done (c, name)" "list_all calm (cf_first c)"
  shows "\<exists>ts c'. all_strings prog s (Suc (length (cf_first c))) c = Some (ts, c')
    \<and> length ts \<le> length (cf_first c) \<and> config_ok c' \<and> (\<forall>t \<in> set ts. ours prog c t)"
proof -
  have r: "list_all entry_ok (cf_first c)" "cf_next c = list_head (cf_first c)" using readconfig_ok [OF assms(1)] by auto
  have "config_ok c" using r assms(2) list_head_next_valid(1) [of "cf_first c"] by (simp add: config_ok_def)
  moreover have "entries_left c \<le> length (cf_first c)" by (auto simp: entries_left_def split: option.split)
  ultimately show ?thesis using all_strings_end [of c "Suc (length (cf_first c))" prog s] by fastforce
qed

definition example_env :: client_env where
  "example_env = \<lparr>env_home = Some ''/h'', env_xdg_config_home = None, env_readable = (\<lambda>_. False),
     env_fopen = (\<lambda>_. Inr (''begin'' @ newline # ''prog=p'' @ newline # ''button=A'' @ newline # ''config=x'' @ newline # ''end'')),
     env_root_file = ''/etc/lircrc'', env_old_root_file = ''/etc/lirc/lircrc''\<rparr>"

theorem all_strings_of_a_code_witness:
  "\<exists>c ts c'. lirc_readconfig_only example_env None None (Some ''f'') = Done (c, ''f'') \<and> length (cf_first c) = 1
    \<and> all_strings None ''1 0 A r'' 2 c = Some (ts, c')"
proof -
  define e where "e = empty_entry\<lparr>le_prog := Some ''p'', le_code := [\<lparr>lc_remote = None, lc_button = Some ''A''\<rparr>],
     le_config := [''x''], le_next_config := Some 0, le_next_code := Some 0\<rparr>"
  define c where "c = \<lparr>cf_lircrc_class = None, cf_current_mode = None, cf_next = Some 0, cf_first = [e]\<rparr>"
  have r: "lirc_readconfig_only example_env None None (Some ''f'') = Done (c, ''f'')" unfolding c_def e_def by code_simp
  have "calm e" by (simp add: calm_def e_def empty_entry_def)
  then have "list_all calm (cf_first c)" by (simp add: c_def)
  from all_strings_of_a_code [where prog = None and s = "''1 0 A r''", OF r this] r show ?thesis by (auto simp: c_def numeral_2_eq_2)
qed

text \<open>Repeated execution of an entry.\<close>

fun executions :: "string option \<Rightarrow> lirc_config \<Rightarrow> nat \<Rightarrow> nat \<Rightarrow> string option list" where
  "executions prog c i 0 = []"
| "executions prog c i (Suc k) = (let (s, c) = lirc_execute prog c i in s # executions prog c i k)"

definition acts_for :: "string option \<Rightarrow> lirc_entry \<Rightarrow> bool" where
  "acts_for prog e \<longleftrightarrow> le_prog e \<noteq> None \<and> (prog = None \<or> opt_caseeq (le_prog e) prog)"

lemma execute_plain:
  assumes "i < length (cf_first c)" "cf_first c ! i = e" "le_change_mode e = None" "acts_for prog e"
    "le_next_config e = Some j" "j < length (le_config e)"
  shows "\<exists>c'. lirc_execute prog c i = (Some (le_config e ! j), c') \<and> length (cf_first c') = length (cf_first c)
    \<and> cf_first c' ! i = e\<lparr>le_next_config := Some ((j + 1) mod length (le_config e))\<rparr>"
proof -
  define c1 where "c1 = (if has_flag e f_mode then lirc_clearmode c else c)"
  have c1: "length (cf_first c1) = length (cf_first c)" "cf_first c1 ! i = e"
    using assms(1-3) by (auto simp: c1_def lirc_clearmode_def split: option.split)
  have "j + 1 < length (le_config e) \<or> j + 1 = length (le_config e)" using assms(6) by auto
  then have n: "(case list_next (le_config e) j of None \<Rightarrow> list_head (le_config e) | Some l \<Rightarrow> Some l)
      = Some ((j + 1) mod length (le_config e))"
    using assms(6) by (auto simp: list_next_def list_head_def)
  have "lirc_execute prog c i = next_string i c1"
    using assms c1 by (simp add: lirc_execute_def c1_def [symmetric] enter_mode_def acts_for_def)
  also have "\<dots> = (Some (le_config e ! j), upd_entry i (\<lambda>e. e\<lparr>le_next_config := (case list_next (le_config e) j of
      None \<Rightarrow> list_head (le_config e) | Some l \<Rightarrow> Some l)\<rparr>) c1)"
    using c1 assms(5) by (simp add: next_string_def)
  finally show ?thesis using c1 n assms(1) by (simp add: upd_entry_def cong: option.case_cong)
qed

text \<open>The strings of an entry take turns: the k-th time the entry acts it gives the k-th of its
  strings, counted from the one it has got to, and starts again behind the last.\<close>

theorem strings_take_turns:
  assumes "i < length (cf_first c)" "cf_first c ! i = e" "le_change_mode e = None" "acts_for prog e"
    "le_next_config e = Some j" "j < length (le_config e)"
  shows "executions prog c i k = map (\<lambda>m. Some (le_config e ! ((j + m) mod length (le_config e)))) [0..<k]"
  using assms
proof (induction k arbitrary: c e j)
  case 0
  then show ?case by simp
next
  case (Suc k)
  let ?n = "length (le_config e)"
  obtain c' where c': "lirc_execute prog c i = (Some (le_config e ! j), c')" "length (cf_first c') = length (cf_first c)"
    "cf_first c' ! i = e\<lparr>le_next_config := Some ((j + 1) mod ?n)\<rparr>"
    using execute_plain [OF Suc.prems] by blast
  have "executions prog c' i k = map (\<lambda>m. Some (le_config e ! (((j + 1) mod ?n + m) mod ?n))) [0..<k]"
    using Suc.prems c'(2,3)
    by (subst Suc.IH [of c' "e\<lparr>le_next_config := Some ((j + 1) mod ?n)\<rparr>" "(j + 1) mod ?n"])
      (auto simp: acts_for_def intro: mod_less_divisor)
  also have "\<dots> = map (\<lambda>m. Some (le_config e ! ((j + Suc m) mod ?n))) [0..<k]"
    by (simp add: mod_add_left_eq)
  finally show ?case using c'(1) Suc.prems(6)
    by (simp add: map_upt_Suc del: upt_Suc)
qed

theorem strings_take_turns_witness:
  "executions (Some ''tv'') \<lparr>cf_lircrc_class = None, cf_current_mode = None, cf_next = Some 0, cf_first = [entry_aab]\<rparr> 0 3
    = [Some ''up'', Some ''down'', Some ''up'']"
proof -
  have c: "le_change_mode entry_aab = None" "acts_for (Some ''tv'') entry_aab" "le_next_config entry_aab = Some 0"
    "0 < length (le_config entry_aab)" by code_simp+
  show ?thesis
    by (subst strings_take_turns [OF _ _ c, of 0]) (simp_all add: upt_rec entry_aab_def empty_entry_def numeral_2_eq_2)
qed

section \<open>Modes\<close>

lemma once_flags:
  "has_flag (set_ecno e) f_ecno" "has_flag (set_ecno e) f_once = has_flag e f_once" "has_flag (set_ecno e) f_mode = has_flag e f_mode"
  "\<not> has_flag (clear_ecno e) f_ecno" "has_flag (clear_ecno e) f_once = has_flag e f_once"
  "has_flag (clear_ecno e) f_mode = has_flag e f_mode"
  by (simp_all add: has_flag_def set_ecno_def clear_ecno_def bit.conj_disj_distrib2 and.assoc or_eq_0_iff)

lemma execute_mode:
  assumes "i < length (cf_first c)" "cf_first c ! i = e" "le_change_mode e = Some m" "\<not> has_flag e f_mode"
  shows "lirc_execute prog c i =
    (let c = c\<lparr>cf_current_mode := Some m\<rparr>;
         c' = (if has_flag e f_once \<and> \<not> has_flag e f_ecno then upd_entry i set_ecno c else c)
     in if (has_flag e f_once \<longrightarrow> \<not> has_flag e f_ecno) \<and> le_next_config e \<noteq> None \<and> acts_for prog e
        then next_string i c' else (None, c'))"
  using assms by (auto simp: lirc_execute_def enter_mode_def acts_for_def Let_def upd_entry_def set_ecno_def)

text \<open>An entry with the flag \<open>once\<close> acts when its mode is entered, not again while the mode is
  kept, and again after the mode has been left.\<close>

theorem once_until_mode_is_left:
  assumes "i < length (cf_first c)" "cf_first c ! i = e" "le_change_mode e = Some m" "\<not> has_flag e f_mode"
    "has_flag e f_once" "\<not> has_flag e f_ecno" "acts_for prog e" "le_next_config e = Some j" "entry_ok e"
  shows "\<exists>c'. lirc_execute prog c i = (Some (le_config e ! j), c') \<and> cf_current_mode c' = Some m
    \<and> fst (lirc_execute prog c' i) = None
    \<and> fst (lirc_execute prog (lirc_clearmode c') i) \<noteq> None"
proof -
  define k where "k = (case list_next (le_config e) j of None \<Rightarrow> list_head (le_config e) | Some l \<Rightarrow> Some l)"
  have j: "j < length (le_config e)" using assms(8,9) by (simp add: entry_ok_def)
  then have k: "k \<noteq> None" by (auto simp: k_def list_head_def split: option.split)
  define e' where "e' = (set_ecno e)\<lparr>le_next_config := k\<rparr>"
  define c' where "c' = c\<lparr>cf_current_mode := Some m, cf_first := (cf_first c)[i := e']\<rparr>"
  have run: "lirc_execute prog c i = (Some (le_config e ! j), c')"
    using assms by (simp add: execute_mode [OF assms(1-4)] next_string_def upd_entry_def c'_def e'_def k_def set_ecno_def
        Let_def cong: option.case_cong)
  have e': "le_change_mode e' = Some m" "has_flag e' f_once" "has_flag e' f_ecno" "\<not> has_flag e' f_mode"
    "acts_for prog e'" "le_next_config e' = k"
    using once_flags [of e] assms(3-7) by (simp_all add: e'_def has_flag_def set_ecno_def acts_for_def)
  have i: "i < length (cf_first c')" "cf_first c' ! i = e'" using assms(1) by (simp_all add: c'_def)
  have again: "fst (lirc_execute prog c' i) = None"
    using e' by (simp add: execute_mode [OF i e'(1,4)] Let_def)
  define d where "d = lirc_clearmode c'"
  have d: "i < length (cf_first d)" "cf_first d ! i = clear_ecno e'"
    using i e'(1) by (simp_all add: d_def lirc_clearmode_def c'_def strcaseeq_def)
  have f: "le_change_mode (clear_ecno e') = Some m" "has_flag (clear_ecno e') f_once" "\<not> has_flag (clear_ecno e') f_ecno"
    "\<not> has_flag (clear_ecno e') f_mode" "acts_for prog (clear_ecno e')" "le_next_config (clear_ecno e') = k"
    using once_flags [of e'] e' by (simp_all add: has_flag_def clear_ecno_def acts_for_def)
  obtain l where l: "k = Some l" using k by auto
  have "fst (lirc_execute prog d i) \<noteq> None"
    using f l d by (simp add: execute_mode [OF d f(1,4)] Let_def next_string_def upd_entry_def set_ecno_def)
  then show ?thesis using run again by (intro exI [of _ c']) (simp add: d_def c'_def)
qed

definition entry_once :: lirc_entry where
  "entry_once = empty_entry\<lparr>le_flags := 0x01, le_change_mode := Some ''tv'', le_prog := Some ''tv'',
     le_config := [''on''], le_next_config := Some 0\<rparr>"

theorem once_until_mode_is_left_witness:
  "\<exists>c'. lirc_execute None \<lparr>cf_lircrc_class = None, cf_current_mode = None, cf_next = None, cf_first = [entry_once]\<rparr> 0
    = (Some ''on'', c') \<and> fst (lirc_execute None c' 0) = None"
proof -
  have c: "le_change_mode entry_once = Some ''tv''" "\<not> has_flag entry_once f_mode" "has_flag entry_once f_once"
    "\<not> has_flag entry_once f_ecno" "acts_for None entry_once" "le_next_config entry_once = Some 0"
    "le_config entry_once ! 0 = ''on''" by code_simp+
  have "entry_ok entry_once" by (simp add: entry_ok_def entry_once_def empty_entry_def)
  from once_until_mode_is_left [OF _ _ c(1-6) this, of 0 "\<lparr>cf_lircrc_class = None, cf_current_mode = None, cf_next = None,
      cf_first = [entry_once]\<rparr>"] show ?thesis unfolding c(7) by auto
qed

section \<open>Repetitions\<close>

text \<open>An entry with \<open>repeat = n\<close> and no delay acts on the first signal of a button and on every
  n-th repetition.\<close>

theorem every_nth_repetition:
  assumes "0 < n" "n < 2 ^ 31" "0 \<le> rep" "rep < 2 ^ 31" "le_rep e = n" "le_rep_delay e = 0" "le_ign_first_events e = 0"
  shows "rep_filter (end_entry m e) rep \<longleftrightarrow> n dvd rep"
proof -
  have i: "i32 (n - 1) = n - 1" "i32 n = n" using assms(1,2) by (simp_all add: i32_id)
  have f: "le_rep (end_entry m e) = n" "le_rep_delay (end_entry m e) = n - 1" "le_ign_first_events (end_entry m e) = 0"
    using assms by (simp_all add: end_entry_def)
  have u: "u32 (rep - n) = rep - n" if "n \<le> rep" using that assms by (simp add: u32_id)
  consider "rep = 0" | "0 < rep" "rep < n" | "n \<le> rep" using assms(3) by linarith
  then show ?thesis
  proof cases
    case 1
    then show ?thesis by (simp add: rep_filter_def f)
  next
    case 2
    then have "\<not> n dvd rep" by (simp add: zdvd_not_zless)
    then show ?thesis using 2 assms(1) i by (simp add: rep_filter_def f)
  next
    case 3
    have "(rep - n) mod n = 0 \<longleftrightarrow> n dvd rep" by (simp add: mod_eq_0_iff_dvd dvd_diff_right_iff)
    then show ?thesis using 3 assms(1) i u by (simp add: rep_filter_def f)
  qed
qed

theorem every_nth_repetition_witness:
  "rep_filter (end_entry None (empty_entry\<lparr>le_rep := 4\<rparr>)) 8 \<and> \<not> rep_filter (end_entry None (empty_entry\<lparr>le_rep := 4\<rparr>)) 6"
  by (subst (1 2) every_nth_repetition [of 4]) (simp_all add: empty_entry_def)

section \<open>Codes from the socket\<close>

text \<open>C18. The stream of codes. Whatever the pieces and pauses the stream of \<open>lircd\<close> arrives in, each
  string \<open>lirc_nextcode\<close> gives is one line, put together with what is still held and pending they
  are the stream, and after enough calls all complete lines have been given.\<close>

theorem codes_are_the_lines:
  assumes "list_all live ev" "next_codes n code_buffer_start ev = (cs, b', ev')"
  shows "list_all one_line cs \<and> concat cs @ held b' @ pending ev' = pending ev
    \<and> (2 * length (pending ev) + length ev < n \<longrightarrow> pending ev' = [] \<and> newline \<notin> set (held b'))"
proof -
  have "buffer_ok code_buffer_start" "held code_buffer_start = []" by (simp_all add: buffer_ok_def held_def code_buffer_start_def)
  note k = next_codes_ok [OF this(1) assms] this(2)
  then show ?thesis by (auto simp: to_do_def pending_def)
qed

definition two_codes :: "sock_event list" where
  "two_codes = [SData ''1 0'', SAgain, SData (newline # ''2''), SData (''3'' @ [newline])]"

theorem codes_are_the_lines_witness:
  "\<exists>cs b' ev'. next_codes 20 code_buffer_start two_codes = (cs, b', ev') \<and> concat cs = pending two_codes"
proof -
  have l: "list_all live two_codes" by code_simp
  obtain cs b' ev' where n: "next_codes 20 code_buffer_start two_codes = (cs, b', ev')" by (metis surj_pair)
  have p: "pending two_codes = ''1 0'' @ newline # ''23'' @ [newline]" by (simp add: two_codes_def pending_def)
  have e: "pending ev' = []" "newline \<notin> set (held b')" using codes_are_the_lines [OF l n] p by (simp_all add: two_codes_def)
  have c: "concat cs @ held b' = pending two_codes" using codes_are_the_lines [OF l n] e(1) by simp
  have "held b' = []"
  proof (rule ccontr)
    assume h: "held b' \<noteq> []"
    then have "last (held b') = newline" using arg_cong [OF c, of last] p by simp
    then show False using e(2) last_in_set [OF h] by simp
  qed
  then show ?thesis using n c by auto
qed

section \<open>Replies\<close>

text \<open>C17. The reply to a command. When every piece of a reply that arrives ends a line and is no
  longer than 128 bytes, \<open>lirc_command_run\<close> returns, with the result and the data that come of reading
  the reply line by line; a reply that ends too early is a bad packet.\<close>

theorem reply_is_read_by_lines:
  assumes "lirc_command_init packet = Some ctx" "send_packet packet ws = Some sent"
    "list_all reply_line ls" "list_all piece_ok ev" "pending ev = unlines ls"
  shows "\<exists>ctx' ev'. lirc_command_run ctx ws ev = Some (Inl (fst (follow (command_start ctx) ls), ctx', ev'))
    \<and> cc_reply ctx' = cc_reply (cs_ctx (snd (follow (command_start ctx) ls)))"
  by (rule run_follows_lines [OF assms])

definition version_packet :: string where "version_packet = ''VERSION'' @ [newline]"

definition version_reply :: "string list" where
  "version_reply = [''BEGIN'', ''VERSION'', ''ERROR'', ''END'']"

theorem reply_is_read_by_lines_witness:
  "\<exists>ctx ctx' ev'. lirc_command_init version_packet = Some ctx
    \<and> lirc_command_run ctx [Some 8] [SData (unlines version_reply)] = Some (Inl (CError, ctx', ev')) \<and> cc_reply ctx' = []"
proof -
  obtain ctx where c: "lirc_command_init version_packet = Some ctx" by (simp add: lirc_command_init_def version_packet_def)
  have s: "send_packet version_packet [Some 8] = Some version_packet" by (simp add: version_packet_def)
  have l: "list_all reply_line version_reply" by code_simp
  have e: "list_all piece_ok [SData (unlines version_reply)]" by code_simp
  have f: "forget_state (command_start ctx) = command_start \<lparr>cc_packet = version_packet, cc_buffer = [], cc_reply = [],
    cc_head = 0, cc_reply_to_stdout = False, cc_next = None, cc_stdout = []\<rparr>"
    using c by (auto simp: lirc_command_init_def forget_state_def forget_def command_start_def split: if_splits)
  have "(\<lambda>(r, c). (r, cc_reply (cs_ctx c))) (follow (forget_state (command_start ctx)) version_reply) = (CError, [])"
    unfolding f by code_simp
  then have "fst (follow (command_start ctx) version_reply) = CError"
    "cc_reply (cs_ctx (snd (follow (command_start ctx) version_reply))) = []"
    unfolding follow_forget by (simp_all add: forget_state_def forget_def case_prod_beta)
  then show ?thesis using reply_is_read_by_lines [OF c s l e] c by (auto simp: pending_def)
qed

text \<open>A connection that is closed in a line. When a first line that is not \<open>BEGIN\<close> is cut off by the
  end of the connection, \<open>lirc_command_run\<close> never returns.\<close>

theorem closed_in_a_line_never_returns:
  assumes "lirc_command_init packet = Some ctx" "send_packet packet ws = Some sent" "d \<noteq> []" "newline \<notin> set d"
    "nul_char \<notin> set d" "length d \<le> CLIENT_PACKET_SIZE" "\<not> strcaseeq d ''BEGIN''"
  shows "lirc_command_run ctx ws [SData d] = None"
proof -
  have p: "cc_packet ctx = packet" using assms(1) by (auto simp: lirc_command_init_def split: if_splits)
  obtain ctx' where r: "read_string ctx [SData d] = Some (ROk, Some d, ctx', [])"
    "stuck d ((command_start ctx)\<lparr>cs_ctx := ctx'\<rparr>)" using stuck_start [OF assms(1,3-6)] by blast
  have "command_step ((command_start ctx)\<lparr>cs_ctx := ctx'\<rparr>) d = Inr ((command_start ctx)\<lparr>cs_ctx := ctx'\<rparr>)"
    using assms(7) by (simp add: command_step_def command_start_def)
  then have "command_loop (command_start ctx) False [SData d] = command_loop ((command_start ctx)\<lparr>cs_ctx := ctx'\<rparr>) True []"
    using command_loop_line [of "command_start ctx" "[SData d]" d ctx' "[]" False] r(1) assms(3) by (simp add: command_start_def)
  then show ?thesis using stuck_for_ever [OF assms(3-5,7) r(2)] assms(2) p by (simp add: lirc_command_run_def)
qed

theorem closed_in_a_line_never_returns_witness:
  "\<exists>ctx. lirc_command_init version_packet = Some ctx \<and> lirc_command_run ctx [Some 8] [SData ''oops''] = None"
proof -
  obtain ctx where c: "lirc_command_init version_packet = Some ctx" by (simp add: lirc_command_init_def version_packet_def)
  have s: "send_packet version_packet [Some 8] = Some version_packet" by (simp add: version_packet_def)
  have d: "newline \<notin> set ''oops''" "nul_char \<notin> set ''oops''" "\<not> strcaseeq ''oops'' ''BEGIN''" by code_simp+
  show ?thesis using c closed_in_a_line_never_returns [OF c s, of "''oops''"] d by simp
qed

section \<open>Text\<close>

text \<open>Escape sequences. Every string without NUL can be written in a \<open>lircrc\<close> file: an octal escape
  sequence for each of its characters is read back as the string.\<close>

theorem octal_escapes_are_read:
  "nul \<notin> set s \<Longrightarrow> lirc_parse_string (concat (map octal_escape s)) = s"
  unfolding lirc_parse_string_def unescape_octal by (auto simp: takeWhile_eq_all_conv)

theorem octal_escapes_are_read_witness: "lirc_parse_string (concat (map octal_escape ''a b'')) = ''a b''"
  by (rule octal_escapes_are_read) code_simp

text \<open>Flags. The flags of an entry may be separated by bars, but of three flags only the first
  is set: the second call of \<open>strtok\<close> no longer has the bar among its separators.\<close>

theorem third_flag_is_lost:
  assumes "flag_word a" "flag_word b" "flag_word c"
  shows "lirc_flags (a @ ''|'' @ b) = client_flag a OR client_flag b
    \<and> lirc_flags (a @ ''|'' @ b @ ''|'' @ c) = client_flag a"
  using barred_flags [OF assms] by blast

theorem third_flag_is_lost_witness: "lirc_flags ''once|quit|mode'' = f_once"
proof -
  have "flag_word ''once''" "flag_word ''quit''" "flag_word ''mode''" "client_flag ''once'' = f_once" by code_simp+
  then show ?thesis using third_flag_is_lost [of "''once''" "''quit''" "''mode''"] by simp
qed

section \<open>Wildcards in sequences\<close>

text \<open>A wildcard behind the first code of a sequence. When the first two codes have been pressed and
  another button than the third is, \<open>lirc_iscode\<close> compares the remote of the first code with the address
  \<open>LIRC_ALL\<close>: it crashes.\<close>

theorem wildcard_in_sequence_crashes:
  assumes "le_code e = first # second # third # cs" "le_next_code e = Some 2" "lc_remote first \<noteq> None" "lc_remote second = None"
    "\<not> code_match third remote button"
  shows "lirc_iscode e remote button 0 = None"
proof -
  have "codes_agree first second = None" using assms(3,4) by (auto simp: codes_agree_def field_match_def)
  then have "rebase_compare (le_code e) 2 0 1 = None" using assms(1) by (simp add: rebase_compare.simps)
  then have "rebase (le_code e) remote button 2 1 = None" by (subst rebase.simps) simp
  then show ?thesis using assms by (simp add: lirc_iscode_def Let_def)
qed

theorem wildcard_in_sequence_crashes_witness:
  "lirc_iscode (empty_entry\<lparr>le_code := [button_a, \<lparr>lc_remote = None, lc_button = None\<rparr>, button_a], le_next_code := Some 2\<rparr>)
     ''r'' ''B'' 0 = None"
proof -
  have "\<not> code_match button_a ''r'' ''B''" by code_simp
  moreover have "lc_remote button_a \<noteq> None" by (simp add: button_a_def)
  ultimately show ?thesis by (intro wildcard_in_sequence_crashes [where first = button_a and second = "\<lparr>lc_remote = None, lc_button = None\<rparr>" and third = button_a and cs = "[]"]) simp_all
qed

end
