(* ===== verification/Client_Commands.thy ===== *)
theory Client_Commands
  imports Client_Code Client_Socket Decode_All
begin

text \<open>
  \<open>lib/lirc_client.c\<close>, the functions that send a command to \<open>lircd\<close> or \<open>lircrcd\<close>. The connection is
  what \<open>write\<close> and \<open>read\<close> will give; where the configuration may have one, None stands for
  \<open>sockfd == -1\<close>.
\<close>

text \<open>A call that does not return, one that crashes, and one that returns.\<close>

datatype 'a answer = Never | Crashed | Answer 'a

type_synonym connection = "nat option list \<times> sock_event list"

text \<open>One call of \<open>lirc_command_run\<close>: the result, the reply and what is left to read. The loops around
  it repeat the call for \<open>EAGAIN\<close> and \<open>EWOULDBLOCK\<close>, which it never gives.\<close>

definition run_command :: "cmd_ctx \<Rightarrow> connection \<Rightarrow> (command_result \<times> string) answer" where
  "run_command ctx conn = (case lirc_command_run ctx (fst conn) (snd conn) of
     None \<Rightarrow> Never
   | Some (Inr _) \<Rightarrow> Crashed
   | Some (Inl (r, ctx, _)) \<Rightarrow> Answer (r, cc_reply ctx))"

fun map_answer :: "('a \<Rightarrow> 'b) \<Rightarrow> 'a answer \<Rightarrow> 'b answer" where
  "map_answer f Never = Never"
| "map_answer f Crashed = Crashed"
| "map_answer f (Answer x) = Answer (f x)"

text \<open>The reply is copied to a static buffer.\<close>

definition reply_of :: "command_result \<times> string \<Rightarrow> string option" where
  "reply_of r = (if fst r = CSuccess then Some (snd r) else None)"

text \<open>The command up to the last newline of the code.\<close>

definition code_command :: "string \<Rightarrow> string" where
  "code_command c =
     (let front = rev (tl (dropWhile (\<lambda>x. x \<noteq> newline) (rev c)))
      in ''CODE '' @ (if newline \<in> set c then front else c) @ [newline])"

text \<open>\<open>lirc_code2char\<close>: the return value, the string (None: NULL, or left alone) and the configuration.\<close>

definition lirc_code2char :: "string option \<Rightarrow> connection option \<Rightarrow> lirc_config \<Rightarrow> string
    \<Rightarrow> (int \<times> string option \<times> lirc_config) answer" where
  "lirc_code2char prog sock c line = (case lirc_command_init (code_command line) of
     None \<Rightarrow> Answer (-1, None, c)
   | Some ctx \<Rightarrow>
       (case sock of
          Some conn \<Rightarrow> map_answer (\<lambda>r. (if fst r = CSuccess then 0 else -1, reply_of r, c)) (run_command ctx conn)
        | None \<Rightarrow>
            (case lirc_code2char_internal prog c line of
               None \<Rightarrow> Crashed
             | Some ((s, _), c) \<Rightarrow> Answer (0, s, c))))"

definition lirc_ir2char :: "string option \<Rightarrow> connection option \<Rightarrow> lirc_config \<Rightarrow> string
    \<Rightarrow> (string option \<times> lirc_config) answer" where
  "lirc_ir2char prog sock c line =
     map_answer (\<lambda>(ret, s, c). (if ret = -1 then None else s, c)) (lirc_code2char prog sock c line)"

definition lirc_nextir :: "code_buffer \<Rightarrow> sock_event list \<Rightarrow> string option \<times> code_buffer \<times> sock_event list" where
  "lirc_nextir b ev = (let ((ret, line), r) = lirc_nextcode b ev in (if ret = -1 then None else line, r))"

text \<open>Modes.\<close>

definition lirc_getmode :: "connection option \<Rightarrow> lirc_config \<Rightarrow> string option answer" where
  "lirc_getmode sock c = (case sock of
     None \<Rightarrow> Answer (cf_current_mode c)
   | Some conn \<Rightarrow>
       (case lirc_command_init (''GETMODE'' @ [newline]) of
          None \<Rightarrow> Crashed
        | Some ctx \<Rightarrow> map_answer reply_of (run_command ctx conn)))"

definition setmode_command :: "string option \<Rightarrow> string" where
  "setmode_command m = (case m of
     None \<Rightarrow> ''SETMODE'' @ [newline]
   | Some s \<Rightarrow> ''SETMODE '' @ s @ [newline])"

definition lirc_setmode :: "connection option \<Rightarrow> lirc_config \<Rightarrow> string option \<Rightarrow> (string option \<times> lirc_config) answer" where
  "lirc_setmode sock c m = (case sock of
     None \<Rightarrow> Answer (m, c\<lparr>cf_current_mode := m\<rparr>)
   | Some conn \<Rightarrow>
       (case lirc_command_init (setmode_command m) of
          None \<Rightarrow> Answer (None, c)
        | Some ctx \<Rightarrow> map_answer (\<lambda>r. (reply_of r, c)) (run_command ctx conn)))"

text \<open>Sending and simulating; \<open>EMSGSIZE\<close> is None.\<close>

definition lirc_send_one :: "connection \<Rightarrow> string \<Rightarrow> string \<Rightarrow> command_result option answer" where
  "lirc_send_one conn remote keysym =
     (case lirc_command_init (''SEND_ONCE '' @ remote @ '' '' @ keysym @ [newline]) of
        None \<Rightarrow> Answer None
      | Some ctx \<Rightarrow> map_answer (\<lambda>r. Some (fst r)) (run_command ctx conn))"

definition simulate_command :: "string \<Rightarrow> string \<Rightarrow> int \<Rightarrow> int \<Rightarrow> string" where
  "simulate_command remote keysym scancode repeat =
     ''SIMULATE '' @ fmt_hex 16 (nat (u32 scancode)) @ '' '' @ fmt_hex 2 (nat (u32 repeat)) @ '' '' @ keysym
       @ '' '' @ remote @ [newline]"

definition lirc_simulate :: "connection \<Rightarrow> string \<Rightarrow> string \<Rightarrow> int \<Rightarrow> int \<Rightarrow> command_result option answer" where
  "lirc_simulate conn remote keysym scancode repeat =
     (case lirc_command_init (simulate_command remote keysym scancode repeat) of
        None \<Rightarrow> Answer None
      | Some ctx \<Rightarrow> map_answer (\<lambda>r. Some (fst r)) (run_command ctx conn))"

definition lirc_identify :: "string \<Rightarrow> connection \<Rightarrow> command_result option answer" where
  "lirc_identify prog conn =
     (case lirc_command_init (''IDENT '' @ prog @ [newline]) of
        None \<Rightarrow> Answer None
      | Some ctx \<Rightarrow> map_answer (\<lambda>r. Some (fst r)) (run_command ctx conn))"

end
