(* ===== verification/Client_Message.thy ===== *)
theory Client_Message
  imports Client_Commands Code_Facts
begin

text \<open>
  The message \<open>lircd\<close> sends for a button, and the line \<open>lirc_simulate\<close> sends, as a client takes them
  apart: the repeat count, the button and the remote come back.
\<close>

lemma fmt_hex_digits: "list_all (is_digit_of 16) (fmt_hex w n)" "fmt_hex w n \<noteq> []"
proof -
  have "is_digit_of 16 (CHR ''0'')" by (simp add: is_digit_of_def digit_val_def)
  then show "list_all (is_digit_of 16) (fmt_hex w n)" using to_hex_digits [of n] by (rule fmt_hex_all)
  show "fmt_hex w n \<noteq> []" using hex_no_blank by (simp add: no_blank_def)
qed

lemma no_hex_digit: "\<not> is_digit_of 16 (CHR '' '')" "\<not> is_digit_of 16 (CHR ''x'')" "\<not> is_digit_of 16 (CHR ''X'')"
  "\<not> is_digit_of 16 (CHR ''-'')" "\<not> is_digit_of 16 (CHR ''+'')"
  by (simp_all add: is_digit_of_def digit_val_def)

lemma digit_no_space: "is_digit_of 16 c \<Longrightarrow> \<not> isspace c"
  by (auto simp: isspace_def is_digit_of_def digit_val_def Let_def split: if_splits)

lemma hex_prefix_digits:
  assumes "list_all (is_digit_of 16) h" "h \<noteq> []"
  shows "hex_prefix (h @ CHR '' '' # r) = Some (fst (read_digits 16 0 h), CHR '' '' # r)"
proof -
  obtain z s where z: "h = z # s" "is_digit_of 16 z" using assms by (cases h) auto
  have n: "\<not> (s @ CHR '' '' # r = x # cs \<and> (x = CHR ''x'' \<or> x = CHR ''X''))" for x cs
    using assms(1) no_hex_digit z by (cases s) auto
  have "read_digits 16 0 (h @ CHR '' '' # r) = (fst (read_digits 16 0 h), CHR '' '' # r)"
    using no_hex_digit(1) by (subst read_digits_append [OF assms(1)]) simp
  then show ?thesis using z n by (auto simp: hex_prefix_def split: list.split)
qed

lemma scan_hex_digits:
  assumes "list_all (is_digit_of 16) h" "h \<noteq> []" "fst (read_digits 16 0 h) < 2 ^ 64"
  shows "scan_hex (h @ CHR '' '' # r) = Some (u32 (int (fst (read_digits 16 0 h))), CHR '' '' # r)"
proof -
  obtain z s where z: "h = z # s" "is_digit_of 16 z" using assms by (cases h) auto
  have d: "dropWhile isspace (h @ CHR '' '' # r) = h @ CHR '' '' # r" "hd (h @ CHR '' '' # r) = z"
    using z digit_no_space by simp_all
  have "z \<noteq> CHR ''-''" "z \<noteq> CHR ''+''" using z(2) no_hex_digit by auto
  then show ?thesis using hex_prefix_digits [OF assms(1,2), of r] assms(3)
    unfolding scan_hex_def Let_def d by simp
qed

lemma scan_blank: "scan_hex (CHR '' '' # s) = scan_hex s"
  by (simp add: scan_hex_def isspace_def)

lemma i32_of_u32: "i32 (u32 x) = i32 x"
  unfolding i32_def u32_def by (simp add: signed_take_bit_take_bit)

text \<open>Two numbers, a name without blanks, and the rest of the line.\<close>

definition button_line :: "nat \<Rightarrow> nat \<Rightarrow> string \<Rightarrow> string \<Rightarrow> string" where
  "button_line c rp button remote = fmt_hex 16 c @ '' '' @ fmt_hex 2 rp @ '' '' @ button @ '' '' @ remote @ [newline]"

lemma code_rep_of_line:
  assumes "c < 2 ^ 64" "rp < 2 ^ 64"
  shows "code_rep (button_line c rp button remote) = Some (i32 (u32 (int rp)))"
proof -
  have "scan_hex (fmt_hex 16 c @ CHR '' '' # s) = Some (u32 (int c), CHR '' '' # s)"
    "scan_hex (fmt_hex 2 rp @ CHR '' '' # s) = Some (u32 (int rp), CHR '' '' # s)" for s
    using scan_hex_digits [OF fmt_hex_digits] assms by (simp_all add: read_fmt_hex)
  then show ?thesis by (simp add: code_rep_def button_line_def scan_blank)
qed

lemma blank_token:
  assumes "no_blank w"
  shows "strtok_step (\<lambda>c. c = CHR '' '') (w @ CHR '' '' # s) = (Some w, s)"
proof -
  have "list_all (\<lambda>c. \<not> c = CHR '' '') w" "w \<noteq> []" using assms by (auto simp: no_blank_def list_all_iff)
  then obtain z v where z: "w = z # v" "z \<noteq> CHR '' ''" by (cases w) auto
  have "takeWhile (\<lambda>c. c \<noteq> CHR '' '') (w @ CHR '' '' # s) = w" "dropWhile (\<lambda>c. c \<noteq> CHR '' '') (w @ CHR '' '' # s) = CHR '' '' # s"
    using \<open>list_all _ w\<close> by (induction w) auto
  then show ?thesis using z by (simp add: strtok_step_def)
qed

lemma code_fields_of_line:
  assumes "no_blank button" "remote \<noteq> []" "newline \<notin> set remote"
  shows "code_fields (button_line c rp button remote) = (Some button, Some remote)"
proof -
  obtain z v where z: "remote = z # v" "z \<noteq> newline" using assms(2,3) by (cases remote) auto
  have "takeWhile (\<lambda>c. c \<noteq> newline) (remote @ [newline]) = remote" using assms(3) by (induction remote) auto
  then have "fst (strtok_step (\<lambda>c. c = newline) (remote @ [newline])) = Some remote"
    using z by (simp add: strtok_step_def)
  then obtain r where r: "strtok_step (\<lambda>c. c = newline) (remote @ [newline]) = (Some remote, r)" by (cases "strtok_step (\<lambda>c. c = newline) (remote @ [newline])") simp
  show ?thesis
    using blank_token [OF hex_no_blank] blank_token [OF assms(1)] r by (simp add: code_fields_def button_line_def)
qed

text \<open>The messages of \<open>lircd\<close> and the lines of \<open>lirc_simulate\<close> are such lines.\<close>

lemma message_is_line: "message_text remote button (Some []) cd rp = button_line (unat cd) (nat (u32 rp)) button remote"
  by (simp add: message_text_def button_line_def)

lemma simulate_is_line: "simulate_command remote keysym scancode rp
    = ''SIMULATE '' @ button_line (nat (u32 scancode)) (nat (u32 rp)) keysym remote"
  by (simp add: simulate_command_def button_line_def)

lemma line_understood:
  assumes "c < 2 ^ 64" "no_blank button" "remote \<noteq> []" "newline \<notin> set remote"
  shows "code_rep (button_line c (nat (u32 rp)) button remote) = Some (i32 rp)"
    and "code_fields (button_line c (nat (u32 rp)) button remote) = (Some button, Some remote)"
proof -
  have "nat (u32 rp) < 2 ^ 64" "0 \<le> u32 rp" using u32_range [of rp] by (simp_all add: nat_less_iff)
  then show "code_rep (button_line c (nat (u32 rp)) button remote) = Some (i32 rp)"
    using assms(1) by (simp add: code_rep_of_line i32_of_u32)
  show "code_fields (button_line c (nat (u32 rp)) button remote) = (Some button, Some remote)"
    by (rule code_fields_of_line [OF assms(2-4)])
qed

end
