(* ===== verification/Record_Data.thy ===== *)
theory Record_Data
  imports IR_Ops
begin

text \<open>
  \<open>lib/irrecord.c\<close>, the functions that arrange the data of a recorded remote: pre and post data that all
  codes share are split off or joined again, data are inverted, toggle bits and the trail pulse are
  moved. \<open>None\<close>: \<open>codes\<close> is NULL where the function dereferences it.
\<close>

section \<open>All codes of a remote\<close>

text \<open>The loops over the buttons and the further codes of each.\<close>

definition map_ncode :: "(ir_code \<Rightarrow> ir_code) \<Rightarrow> ir_ncode \<Rightarrow> ir_ncode" where
  "map_ncode f nc = nc\<lparr>code := f (code nc), nexts := map f (nexts nc)\<rparr>"

definition map_codes :: "(ir_code \<Rightarrow> ir_code) \<Rightarrow> ir_remote \<Rightarrow> ir_remote" where
  "map_codes f rm = rm\<lparr>codes := map_option (map (map_ncode f)) (codes rm)\<rparr>"

section \<open>Toggle bits\<close>

text \<open>\<open>xor\<close> is a single bit among the lowest \<open>n\<close>.\<close>

definition is_single_bit :: "int \<Rightarrow> ir_code \<Rightarrow> bool" where
  "is_single_bit n x \<longleftrightarrow> list_ex (\<lambda>i. x = shl 1 (int i)) [0..<nat n]"

definition set_toggle_bit_mask :: "ir_remote \<Rightarrow> ir_code \<Rightarrow> ir_remote" where
  "set_toggle_bit_mask rm x = (case codes rm of
     None \<Rightarrow> rm
   | Some cs \<Rightarrow>
       (if is_single_bit (bit_count rm) x
        then rm\<lparr>toggle_bit_mask := x, codes := Some (map (\<lambda>nc. nc\<lparr>code := code nc AND NOT x\<rparr>) cs)\<rparr>
        else if bit_count rm = 15 \<and> x = 0x3ff then rm\<lparr>toggle_mask := x\<rparr>
        else rm\<lparr>toggle_bit_mask := x\<rparr>))"

section \<open>Data all codes share\<close>

text \<open>The bits in which each code agrees with the one before. The further codes of the first button are
  not looked at.\<close>

fun mask_nodes :: "ir_code \<Rightarrow> ir_code \<Rightarrow> ir_code list \<Rightarrow> ir_code \<times> ir_code" where
  "mask_nodes m lst [] = (m, lst)"
| "mask_nodes m lst (c # cs) = mask_nodes (m AND NOT (lst XOR c)) c cs"

fun mask_codes :: "ir_code \<Rightarrow> ir_code \<Rightarrow> ir_ncode list \<Rightarrow> ir_code \<times> ir_code" where
  "mask_codes m lst [] = (m, lst)"
| "mask_codes m lst (nc # cs) =
     (let (m, lst) = mask_nodes m lst (code nc # nexts nc) in mask_codes m lst cs)"

text \<open>The loops that count the ones at the top and at the bottom; 64 steps empty the word.\<close>

fun count_high :: "nat \<Rightarrow> ir_code \<Rightarrow> int" where
  "count_high 0 m = 0"
| "count_high (Suc n) m = (if m AND 0x8000000000000000 \<noteq> 0 then 1 + count_high n (shl m 1) else 0)"

fun count_low :: "nat \<Rightarrow> ir_code \<Rightarrow> int" where
  "count_low 0 m = 0"
| "count_low (Suc n) m = (if m AND 1 \<noteq> 0 then 1 + count_low n (shr m 1) else 0)"

text \<open>Only even numbers of bits go to pre or post data, unless the rest is a number of bytes.\<close>

definition even_count :: "int \<Rightarrow> int \<Rightarrow> int" where
  "even_count cnt n = (if cnt smod 8 \<noteq> 0 \<and> (n - cnt) smod 8 \<noteq> 0 then cnt - cnt smod 8 else cnt)"

definition get_pre_data :: "ir_remote \<Rightarrow> ir_remote option" where
  "get_pre_data rm =
     (if bits rm = 0 then Some rm
      else (case codes rm of
          None \<Rightarrow> None
        | Some [] \<Rightarrow> Some rm
        | Some [nc] \<Rightarrow> Some rm
        | Some (nc # cs) \<Rightarrow>
            (let (m, lst) = mask_codes (NOT 0) (code nc) cs;
                 cnt = even_count (count_high 64 m - (64 - bits rm)) (bits rm)
             in if cnt > 0 then
                  (let n = bits rm - cnt; m = shl (gen_mask cnt) n
                   in Some ((map_codes (\<lambda>c. c AND NOT m) rm)
                        \<lparr>bits := n, pre_data_bits := cnt, pre_data := shr (lst AND m) n\<rparr>))
                else Some rm)))"

definition get_post_data :: "ir_remote \<Rightarrow> ir_remote option" where
  "get_post_data rm =
     (if bits rm = 0 then Some rm
      else (case codes rm of
          None \<Rightarrow> None
        | Some [] \<Rightarrow> Some rm
        | Some [nc] \<Rightarrow> Some rm
        | Some (nc # cs) \<Rightarrow>
            (let (m, lst) = mask_codes (NOT 0) (code nc) cs;
                 cnt = even_count (count_low 64 m) (bits rm)
             in if cnt > 0 then
                  Some ((map_codes (\<lambda>c. shr c cnt) rm)
                    \<lparr>bits := bits rm - cnt, post_data_bits := cnt, post_data := lst AND gen_mask cnt\<rparr>)
                else Some rm)))"

definition remove_pre_data :: "ir_remote \<Rightarrow> ir_remote option" where
  "remove_pre_data rm =
     (if pre_data_bits rm = 0 \<or> pre_p rm \<noteq> 0 \<or> pre_s rm \<noteq> 0 then Some rm
      else if codes rm = None then None
      else Some ((map_codes (\<lambda>c. c OR shl (pre_data rm) (bits rm)) rm)
             \<lparr>bits := bits rm + pre_data_bits rm, pre_data := 0, pre_data_bits := 0\<rparr>))"

definition remove_post_data :: "ir_remote \<Rightarrow> ir_remote option" where
  "remove_post_data rm =
     (if post_data_bits rm = 0 then Some rm
      else if codes rm = None then None
      else Some ((map_codes (\<lambda>c. shl c (post_data_bits rm) OR post_data rm) rm)
             \<lparr>bits := bits rm + post_data_bits rm, post_data := 0, post_data_bits := 0\<rparr>))"

section \<open>Inversion, trail\<close>

definition invert_data :: "ir_remote \<Rightarrow> ir_remote option" where
  "invert_data rm =
     (let p = pone rm; s = sone rm;
          rm = rm\<lparr>pone := pzero rm, sone := szero rm, pzero := p, szero := s\<rparr>;
          rm = (if has_pre rm then rm\<lparr>pre_data := pre_data rm XOR gen_mask (pre_data_bits rm)\<rparr> else rm);
          rm = (if has_post rm then rm\<lparr>post_data := post_data rm XOR gen_mask (post_data_bits rm)\<rparr> else rm)
      in if bits rm = 0 then Some rm
         else if codes rm = None then None
         else Some (map_codes (\<lambda>c. c XOR gen_mask (bits rm)) rm))"

text \<open>A trail that is the pulse of a bit is a last bit of the data. \<open>d\<close> is the current driver.\<close>

definition remove_trail :: "driver \<Rightarrow> ir_remote \<Rightarrow> ir_remote" where
  "remove_trail d rm =
     (if \<not> is_space_enc rm \<or> ptrail rm = 0 then rm
      else if expect d rm (pone rm) (pzero rm) \<or> expect d rm (pzero rm) (pone rm) then rm
      else if \<not> (expect d rm (sone rm) (szero rm) \<and> expect d rm (szero rm) (sone rm)) then rm
      else
        (let add = (\<lambda>x. rm\<lparr>post_data_bits := post_data_bits rm + 1, post_data := shl (post_data rm) 1 OR x, ptrail := 0\<rparr>)
         in if expect d rm (ptrail rm) (pone rm) then add 1
            else if expect d rm (ptrail rm) (pzero rm) then add 0
            else rm))"

definition for_each_remote :: "(ir_remote \<Rightarrow> ir_remote) \<Rightarrow> ir_remote list \<Rightarrow> ir_remote list" where
  "for_each_remote f rs = map f rs"

text \<open>Whether the toggle mask of a remote has to be found.\<close>

definition needs_toggle_mask :: "ir_remote \<Rightarrow> bool" where
  "needs_toggle_mask rm \<longleftrightarrow> is_rc6 rm \<and> (case codes rm of None \<Rightarrow> True | Some cs \<Rightarrow> list_all (\<lambda>nc. nexts nc = []) cs)"

end
