(* ===== verification/Record_Data_Facts.thy ===== *)
theory Record_Data_Facts
  imports Record_Data
begin

text \<open>
  Splitting off the data all codes share loses nothing: joined again they give the remote that was
  there before.
\<close>

section \<open>Counting ones\<close>

lemma bit_63: "(w AND 0x8000000000000000 \<noteq> 0) = bit (w :: ir_code) 63"
  using and_exp_eq_0_iff_not_bit [of w 63] by simp

lemma bit_0: "(w AND 1 \<noteq> 0) = bit (w :: ir_code) 0"
  using and_exp_eq_0_iff_not_bit [of w 0] by simp

lemma count_high_bits:
  "n \<le> 64 \<Longrightarrow> (\<forall>i. i < nat (count_high n w) \<longrightarrow> bit w (63 - i)) \<and> 0 \<le> count_high n w \<and> count_high n w \<le> int n"
proof (induction n arbitrary: w)
  case 0
  then show ?case by simp
next
  case (Suc n)
  show ?case
  proof (cases "bit w 63")
    case True
    have c: "count_high (Suc n) w = 1 + count_high n (shl w 1)" using True bit_63 [of w] by simp
    have ih: "\<forall>i. i < nat (count_high n (shl w 1)) \<longrightarrow> bit (shl w 1) (63 - i)" "0 \<le> count_high n (shl w 1)"
      "count_high n (shl w 1) \<le> int n" using Suc.IH [of "shl w 1"] Suc.prems by auto
    have "bit w (63 - i)" if "i < nat (1 + count_high n (shl w 1))" for i
    proof (cases i)
      case 0
      then show ?thesis using True by simp
    next
      case (Suc k)
      then have "bit (shl w 1) (63 - k)" using ih that by auto
      then have "bit w (63 - k - 1)" by (simp add: bit_shl)
      then show ?thesis using Suc by (simp add: algebra_simps)
    qed
    then show ?thesis using c ih by simp
  next
    case False
    then show ?thesis using bit_63 [of w] by simp
  qed
qed

lemma count_low_bits:
  "(\<forall>i. i < nat (count_low n w) \<longrightarrow> bit w i) \<and> 0 \<le> count_low n w \<and> count_low n w \<le> int n"
proof (induction n arbitrary: w)
  case 0
  then show ?case by simp
next
  case (Suc n)
  show ?case
  proof (cases "bit w 0")
    case True
    have c: "count_low (Suc n) w = 1 + count_low n (shr w 1)" using True bit_0 [of w] by simp
    have ih: "\<forall>i. i < nat (count_low n (shr w 1)) \<longrightarrow> bit (shr w 1) i" "0 \<le> count_low n (shr w 1)"
      "count_low n (shr w 1) \<le> int n" using Suc.IH [of "shr w 1"] by auto
    have "bit w i" if "i < nat (1 + count_low n (shr w 1))" for i
    proof (cases i)
      case 0
      then show ?thesis using True by simp
    next
      case (Suc k)
      then have "bit (shr w 1) k" using ih that by auto
      then show ?thesis using Suc by (simp add: shr_def bit_simps)
    qed
    then show ?thesis using c ih by simp
  next
    case False
    then show ?thesis using bit_0 [of w] by simp
  qed
qed

lemma even_count_le: "0 < even_count cnt n \<Longrightarrow> even_count cnt n \<le> cnt \<and> 0 < cnt"
proof -
  have "0 \<le> cnt smod 8" if "0 < cnt" using that by (simp add: signed_modulo_int_def)
  moreover have "cnt \<le> cnt smod 8" if "cnt \<le> 0"
  proof -
    have "\<bar>cnt\<bar> mod 8 \<le> \<bar>cnt\<bar>" by (rule zmod_le_nonneg_dividend) simp
    then show ?thesis using that by (cases "cnt = 0") (simp_all add: signed_modulo_int_def)
  qed
  ultimately show "0 < even_count cnt n \<Longrightarrow> even_count cnt n \<le> cnt \<and> 0 < cnt"
    by (cases "0 < cnt") (auto simp: even_count_def split: if_splits)
qed

section \<open>Bits all codes share\<close>

definition codes_of :: "ir_ncode \<Rightarrow> ir_code list" where
  "codes_of nc = code nc # nexts nc"

lemma mask_nodes_agree:
  "mask_nodes m l cs = (m', l') \<Longrightarrow> k < 64 \<Longrightarrow> bit m' k \<Longrightarrow>
    bit m k \<and> (\<forall>c \<in> set cs. bit c k = bit l k) \<and> bit l' k = bit l k"
proof (induction m l cs rule: mask_nodes.induct)
  case (1 m l)
  then show ?case by simp
next
  case (2 m l c cs)
  then have "bit (m AND NOT (l XOR c)) k" "\<forall>d \<in> set cs. bit d k = bit c k" "bit l' k = bit c k" by simp_all
  moreover from this(1) have "bit m k" "bit c k = bit l k" using 2(3) by (auto simp: bit_simps)
  ultimately show ?case by simp
qed

lemma mask_codes_agree:
  "mask_codes m l cs = (m', l') \<Longrightarrow> k < 64 \<Longrightarrow> bit m' k \<Longrightarrow>
    bit m k \<and> (\<forall>nc \<in> set cs. \<forall>c \<in> set (codes_of nc). bit c k = bit l k) \<and> bit l' k = bit l k"
proof (induction m l cs rule: mask_codes.induct)
  case (1 m l)
  then show ?case by simp
next
  case (2 m l nc cs)
  obtain m1 l1 where n: "mask_nodes m l (code nc # nexts nc) = (m1, l1)" by force
  then have "bit m1 k \<and> (\<forall>nc \<in> set cs. \<forall>c \<in> set (codes_of nc). bit c k = bit l1 k) \<and> bit l' k = bit l1 k"
    using 2 by (simp only: mask_codes.simps) auto
  then show ?case using mask_nodes_agree [OF n 2(3)] by (simp add: codes_of_def)
qed

lemma map_codes_id:
  assumes "codes rm = Some cs" "\<And>nc c. nc \<in> set cs \<Longrightarrow> c \<in> set (codes_of nc) \<Longrightarrow> f c = c"
  shows "map_codes f rm = rm"
proof -
  have "map_ncode f nc = nc" if "nc \<in> set cs" for nc
    using assms(2) [OF that] by (simp add: map_ncode_def codes_of_def map_idI)
  then show ?thesis using assms(1) by (simp add: map_codes_def map_idI)
qed

lemma map_ncode_twice: "map_ncode f (map_ncode g nc) = map_ncode (\<lambda>c. f (g c)) nc"
  by (simp add: map_ncode_def)

lemma map_codes_twice: "map_codes f (map_codes g rm) = map_codes (\<lambda>c. f (g c)) rm"
  by (simp add: map_codes_def map_ncode_twice option.map_comp comp_def)

lemma map_codes_frame:
  "bits (map_codes f rm) = bits rm" "pre_data_bits (map_codes f rm) = pre_data_bits rm" "pre_data (map_codes f rm) = pre_data rm"
  "post_data_bits (map_codes f rm) = post_data_bits rm" "post_data (map_codes f rm) = post_data rm"
  "pre_p (map_codes f rm) = pre_p rm" "pre_s (map_codes f rm) = pre_s rm" "codes (map_codes f rm) = None \<longleftrightarrow> codes rm = None"
  by (simp_all add: map_codes_def)

text \<open>The condition under which no code is overlooked: the first button is a single code.\<close>

definition single_start :: "ir_remote \<Rightarrow> bool" where
  "single_start rm \<longleftrightarrow> (case codes rm of Some (nc # cs) \<Rightarrow> nexts nc = [] | Some [] \<Rightarrow> True | None \<Rightarrow> False)"

lemma shared_bits:
  assumes "mask_codes (NOT 0) (code nc) cs = (m, l)" "nexts nc = []" "k < 64" "bit m k"
    "b \<in> set (nc # cs)" "c \<in> set (codes_of b)"
  shows "bit c k = bit l k"
  using mask_codes_agree [OF assms(1,3,4)] assms(2,5,6) by (auto simp: codes_of_def)

lemma map_codes_update:
  "map_codes f (rm\<lparr>bits := a, pre_data_bits := b, pre_data := c\<rparr>) = (map_codes f rm)\<lparr>bits := a, pre_data_bits := b, pre_data := c\<rparr>"
  "map_codes f (rm\<lparr>bits := a, post_data_bits := b, post_data := c\<rparr>) = (map_codes f rm)\<lparr>bits := a, post_data_bits := b, post_data := c\<rparr>"
  by (simp_all add: map_codes_def)

section \<open>Pre data\<close>

lemma pre_code_joins:
  assumes "0 \<le> n" "0 < cnt" "\<And>k. nat n \<le> k \<Longrightarrow> k < 64 \<Longrightarrow> bit c k = bit (l :: ir_code) k"
  shows "(c AND NOT (shl (gen_mask cnt) n)) OR shl (shr (l AND shl (gen_mask cnt) n) n) n = c"
proof (rule bit_word_eqI)
  fix k
  assume "k < LENGTH(64)"
  then show "bit ((c AND NOT (shl (gen_mask cnt) n)) OR shl (shr (l AND shl (gen_mask cnt) n) n) n) k = bit c k"
    using assms(3) [of k] by (auto simp: bit_or_iff bit_and_iff bit_not_iff bit_shl bit_shr)
qed

lemma pre_data_joins:
  assumes "get_pre_data rm = Some rm'" "single_start rm" "bits rm \<le> 64"
    "pre_data_bits rm = 0" "pre_data rm = 0" "pre_p rm = 0" "pre_s rm = 0"
  shows "remove_pre_data rm' = Some rm \<and> single_start rm'"
proof (cases "rm' = rm")
  case True
  then show ?thesis using assms by (simp add: remove_pre_data_def)
next
  case False
  then obtain nc cs where c: "codes rm = Some (nc # cs)" "cs \<noteq> []"
    using assms(1) by (auto simp: get_pre_data_def split: if_splits option.splits list.splits)
  obtain m l where m: "mask_codes (NOT 0) (code nc) cs = (m, l)" by force
  define cnt where "cnt = even_count (count_high 64 m - (64 - bits rm)) (bits rm)"
  define n where "n = bits rm - cnt"
  define f where "f = (\<lambda>c. c AND NOT (shl (gen_mask cnt) n))"
  have r: "0 < cnt" "rm' = (map_codes f rm)\<lparr>bits := n, pre_data_bits := cnt, pre_data := shr (l AND shl (gen_mask cnt) n) n\<rparr>"
    using assms(1) False c m by (auto simp: get_pre_data_def Let_def cnt_def n_def f_def split: if_splits list.splits)
  have le: "cnt \<le> count_high 64 m - (64 - bits rm)" using even_count_le r(1) unfolding cnt_def by blast
  note ch = count_high_bits [of 64 m]
  have n0: "0 \<le> n" using le ch by (simp add: n_def)
  have ones: "bit m k" if "nat n \<le> k" "k < 64" for k
  proof -
    have "63 - k < nat (count_high 64 m)" using that le n0 by (simp add: n_def)
    then have "bit m (63 - (63 - k))" using ch by blast
    then show ?thesis using that(2) by simp
  qed
  have single: "nexts nc = []" using assms(2) c(1) by (simp add: single_start_def)
  let ?g = "\<lambda>c. c OR shl (shr (l AND shl (gen_mask cnt) n) n) n"
  have "?g (f x) = x" if "b \<in> set (nc # cs)" "x \<in> set (codes_of b)" for b x
    unfolding f_def using shared_bits [OF m single _ ones that] by (intro pre_code_joins [OF n0 r(1)]) auto
  then have id: "map_codes ?g (map_codes f rm) = rm"
    unfolding map_codes_twice by (rule map_codes_id [OF c(1)])
  have "remove_pre_data rm' = Some ((map_codes ?g rm')\<lparr>bits := n + cnt, pre_data := 0, pre_data_bits := 0\<rparr>)"
    using r c(1) assms(6,7) by (simp add: remove_pre_data_def map_codes_frame)
  also have "\<dots> = Some rm" unfolding r(2) map_codes_update id using assms(4,5) by (simp add: n_def)
  finally show ?thesis using single c(1) by (simp add: r(2) single_start_def map_codes_def map_ncode_def)
qed

section \<open>Post data\<close>

lemma post_code_joins:
  assumes "0 < cnt" "\<And>k. k < nat cnt \<Longrightarrow> k < 64 \<Longrightarrow> bit c k = bit (l :: ir_code) k"
  shows "shl (shr c cnt) cnt OR (l AND gen_mask cnt) = c"
proof (rule bit_word_eqI)
  fix k
  assume "k < LENGTH(64)"
  then show "bit (shl (shr c cnt) cnt OR (l AND gen_mask cnt)) k = bit c k"
    using assms(2) [of k] by (cases "k < nat cnt") (auto simp: bit_or_iff bit_and_iff bit_shl bit_shr)
qed

lemma post_data_joins:
  assumes "get_post_data rm = Some rm'" "single_start rm" "post_data_bits rm = 0" "post_data rm = 0"
  shows "remove_post_data rm' = Some rm"
proof (cases "rm' = rm")
  case True
  then show ?thesis using assms by (simp add: remove_post_data_def)
next
  case False
  then obtain nc cs where c: "codes rm = Some (nc # cs)" "cs \<noteq> []"
    using assms(1) by (auto simp: get_post_data_def split: if_splits option.splits list.splits)
  obtain m l where m: "mask_codes (NOT 0) (code nc) cs = (m, l)" by force
  define cnt where "cnt = even_count (count_low 64 m) (bits rm)"
  have r: "0 < cnt" "rm' = (map_codes (\<lambda>c. shr c cnt) rm)\<lparr>bits := bits rm - cnt, post_data_bits := cnt, post_data := l AND gen_mask cnt\<rparr>"
    using assms(1) False c m by (auto simp: get_post_data_def Let_def cnt_def split: if_splits list.splits)
  have le: "cnt \<le> count_low 64 m" using even_count_le r(1) unfolding cnt_def by blast
  have ones: "bit m k" if "k < nat cnt" for k using that le count_low_bits [of 64 m] by simp
  have single: "nexts nc = []" using assms(2) c(1) by (simp add: single_start_def)
  let ?g = "\<lambda>c. shl c cnt OR (l AND gen_mask cnt)"
  have "?g (shr x cnt) = x" if "b \<in> set (nc # cs)" "x \<in> set (codes_of b)" for b x
    using shared_bits [OF m single _ ones that] by (intro post_code_joins [OF r(1)]) auto
  then have id: "map_codes ?g (map_codes (\<lambda>c. shr c cnt) rm) = rm"
    unfolding map_codes_twice by (rule map_codes_id [OF c(1)])
  have "remove_post_data rm' = Some ((map_codes ?g rm')\<lparr>bits := bits rm - cnt + cnt, post_data := 0, post_data_bits := 0\<rparr>)"
    using r c(1) by (simp add: remove_post_data_def map_codes_frame)
  also have "\<dots> = Some rm" unfolding r(2) map_codes_update id using assms(3,4) by simp
  finally show ?thesis .
qed

lemma get_pre_data_post: "get_pre_data rm = Some rm' \<Longrightarrow> post_data_bits rm' = post_data_bits rm \<and> post_data rm' = post_data rm"
  by (auto simp: get_pre_data_def Let_def map_codes_def split: if_splits option.splits list.splits prod.splits)

section \<open>Inversion\<close>

definition invert_head :: "ir_remote \<Rightarrow> ir_remote" where
  "invert_head rm = rm\<lparr>pone := pzero rm, sone := szero rm, pzero := pone rm, szero := sone rm,
     pre_data := (if has_pre rm then pre_data rm XOR gen_mask (pre_data_bits rm) else pre_data rm),
     post_data := (if has_post rm then post_data rm XOR gen_mask (post_data_bits rm) else post_data rm)\<rparr>"

lemma xor_twice: "(w XOR v) XOR v = (w :: ir_code)"
  by (simp add: xor.assoc)

lemma invert_head_frame: "bits (invert_head rm) = bits rm" "codes (invert_head rm) = codes rm"
  by (simp_all add: invert_head_def)

lemma invert_head_twice: "invert_head (invert_head rm) = rm"
  by (simp add: invert_head_def has_pre_def has_post_def xor_twice)

lemma invert_head_codes: "invert_head (map_codes f rm) = map_codes f (invert_head rm)"
  by (simp add: invert_head_def map_codes_def has_pre_def has_post_def)

lemma invert_data_head: "invert_data rm = (if bits rm = 0 then Some (invert_head rm) else if codes rm = None then None
    else Some (map_codes (\<lambda>c. c XOR gen_mask (bits rm)) (invert_head rm)))"
  by (simp add: invert_data_def invert_head_def Let_def has_pre_def has_post_def)

lemma invert_twice:
  assumes "invert_data rm = Some rm'"
  shows "invert_data rm' = Some rm"
proof -
  have id: "map_codes (\<lambda>c. c) r = r" for r by (cases "codes r") (auto simp: map_codes_def map_ncode_def map_idI)
  show ?thesis using assms unfolding invert_data_head
    by (auto simp: invert_head_frame map_codes_frame invert_head_codes invert_head_twice map_codes_twice xor_twice id split: if_splits)
qed

end
