(* ===== verification/Record_Lengths.thy ===== *)
theory Record_Lengths
  imports IR_Ops
begin

text \<open>
  \<open>lib/irrecord.c\<close>, the histograms of durations: a linked list of \<open>struct lengths\<close> is a list. A pointer
  into a list is the index of its element. The globals \<open>eps\<close> and \<open>aeps\<close> are arguments.
\<close>

text \<open>\<open>count\<close> is unsigned, the other fields are \<open>lirc_t\<close>.\<close>

record lengths_item =
  ln_count :: int
  ln_sum :: lirc_t
  ln_upper :: lirc_t
  ln_lower :: lirc_t
  ln_min :: lirc_t
  ln_max :: lirc_t

definition new_length :: "lirc_t \<Rightarrow> lengths_item" where
  "new_length d = \<lparr>ln_count = 1, ln_sum = d, ln_upper = d sdiv 100 * 100 + 99, ln_lower = d sdiv 100 * 100,
     ln_min = d, ln_max = d\<rparr>"

text \<open>The \<open>lirc_t\<close> is converted to unsigned by the division.\<close>

definition calc_signal :: "lengths_item \<Rightarrow> lirc_t" where
  "calc_signal l = (if ln_count l = 0 then 0 else i32 (u32 (ln_sum l) div ln_count l))"

definition unlink_length :: "nat \<Rightarrow> lengths_item list \<Rightarrow> lengths_item list" where
  "unlink_length i ls = take i ls @ drop (i + 1) ls"

text \<open>A duration is counted in the first item whose bounds it is in.\<close>

definition count_length :: "lirc_t \<Rightarrow> lengths_item \<Rightarrow> lengths_item" where
  "count_length d l = l\<lparr>ln_count := u32 (ln_count l + 1), ln_sum := i32 (ln_sum l + d),
     ln_min := min (ln_min l) d, ln_max := max (ln_max l) d\<rparr>"

fun add_length :: "lirc_t \<Rightarrow> lengths_item list \<Rightarrow> lengths_item list" where
  "add_length d [] = [new_length d]"
| "add_length d (l # ls) =
     (if ln_lower l \<le> d \<and> d \<le> ln_upper l then count_length d l # ls else l # add_length d ls)"

text \<open>Two items are merged when the averages of both together is within the tolerance of their bounds.
  All comparisons are unsigned.\<close>

definition mergeable :: "int \<Rightarrow> int \<Rightarrow> lengths_item \<Rightarrow> lengths_item \<Rightarrow> bool" where
  "mergeable ep ae l i =
     (let new_sum = u32 (i32 (ln_sum l + ln_sum i)); new_count = u32 (ln_count l + ln_count i);
          avg = new_sum div new_count;
          above = u32 (avg * u32 (100 + ep)); below = u32 (avg * u32 (100 - ep))
      in u32 (ln_max l) \<le> u32 (avg + u32 ae) \<and> u32 (i32 (ln_min l + ae)) \<ge> avg
           \<and> u32 (ln_max i) \<le> u32 (avg + u32 ae) \<and> u32 (i32 (ln_min i + ae)) \<ge> avg
         \<or> u32 (ln_max l) \<le> above \<and> u32 (ln_min l) \<ge> below \<and> u32 (ln_max i) \<le> above \<and> u32 (ln_min i) \<ge> below)"

definition merge_items :: "lengths_item \<Rightarrow> lengths_item \<Rightarrow> lengths_item" where
  "merge_items l i = \<lparr>ln_count = u32 (ln_count l + ln_count i), ln_sum = i32 (ln_sum l + ln_sum i),
     ln_upper = max (ln_upper l) (ln_upper i), ln_lower = min (ln_lower l) (ln_lower i),
     ln_min = min (ln_min l) (ln_min i), ln_max = max (ln_max l) (ln_max i)\<rparr>"

text \<open>The inner loop, and the outer one.\<close>

fun merge_into :: "int \<Rightarrow> int \<Rightarrow> lengths_item \<Rightarrow> lengths_item list \<Rightarrow> lengths_item \<times> lengths_item list" where
  "merge_into ep ae l [] = (l, [])"
| "merge_into ep ae l (i # is) =
     (if mergeable ep ae l i then merge_into ep ae (merge_items l i) is
      else (let (l, is) = merge_into ep ae l is in (l, i # is)))"

lemma merge_into_length: "merge_into ep ae l is = (l', r) \<Longrightarrow> length r \<le> length is"
  by (induction "is" arbitrary: l l' r) (auto split: if_splits prod.splits dest: le_SucI)

function merge_lengths :: "int \<Rightarrow> int \<Rightarrow> lengths_item list \<Rightarrow> lengths_item list" where
  "merge_lengths ep ae [] = []"
| "merge_lengths ep ae (l # ls) = (let (l, ls) = merge_into ep ae l ls in l # merge_lengths ep ae ls)"
  by pat_completeness auto
termination
  by (relation "measure (\<lambda>(ep, ae, ls). length ls)") (auto dest!: merge_into_length [OF sym])

text \<open>The first item with the highest count, and the sum of all counts.\<close>

fun max_index :: "nat \<Rightarrow> nat \<Rightarrow> int \<Rightarrow> lengths_item list \<Rightarrow> nat" where
  "max_index i best m [] = best"
| "max_index i best m (l # ls) =
     (if ln_count l > m then max_index (i + 1) i (ln_count l) ls else max_index (i + 1) best m ls)"

definition get_max_length :: "lengths_item list \<Rightarrow> (nat \<times> int) option" where
  "get_max_length ls = (case ls of
     [] \<Rightarrow> None
   | l # r \<Rightarrow> Some (max_index 1 0 (ln_count l) r, fold (\<lambda>x s. u32 (s + ln_count x)) r (ln_count l)))"

text \<open>The two calls that follow each other everywhere.\<close>

definition count_duration :: "int \<Rightarrow> int \<Rightarrow> lirc_t \<Rightarrow> lengths_item list \<Rightarrow> lengths_item list" where
  "count_duration ep ae d ls = merge_lengths ep ae (add_length d ls)"

end
