(* ===== verification/Record_State.thy ===== *)
theory Record_State
  imports Record_Lengths
begin

text \<open>
  \<open>lib/irrecord.c\<close>, the static data of the analysis, the counting of complete signals, and the search for
  the gap. The arrays \<open>signals\<close> and \<open>lengths\<close> are lists of \<open>MAX_SIGNALS\<close> elements; \<open>g_fault\<close> is set by an
  access outside of them.
\<close>

abbreviation (input) MAX_SIGNALS :: nat where "MAX_SIGNALS \<equiv> 200"
abbreviation (input) SAMPLES :: int where "SAMPLES \<equiv> 80"
abbreviation (input) MIN_GAP :: int where "MIN_GAP \<equiv> 20000"

section \<open>The state\<close>

record recorder =
  g_space :: "lengths_item list"
  g_pulse :: "lengths_item list"
  g_sum :: "lengths_item list"
  g_gap :: "lengths_item list"
  g_repeat_gap :: "lengths_item list"
  g_signal_length :: "lengths_item list"
  g_headerp :: "lengths_item list"
  g_headers :: "lengths_item list"
  g_1lead :: "lengths_item list"
  g_3lead :: "lengths_item list"
  g_trail :: "lengths_item list"
  g_repeatp :: "lengths_item list"
  g_repeats :: "lengths_item list"
  g_signals :: "lirc_t list"
  g_lengths :: "int list"
  g_first_length :: int
  g_first_lengths :: int
  g_second_lengths :: int
  g_count_spaces :: int
  g_count_signals :: int
  g_count_3repeats :: int
  g_count_5repeats :: int
  g_lastmaxcount :: int
  g_eps :: int
  g_aeps :: int
  g_pulse_cycle :: bool
  g_fault :: bool

text \<open>\<open>struct lengths_state\<close>; \<open>ls_have_gap\<close> is the mode \<open>MODE_HAVE_GAP\<close>.\<close>

record lengths_state =
  ls_keypresses :: int
  ls_retval :: int
  ls_count :: int
  ls_data :: lirc_t
  ls_average :: lirc_t
  ls_maxspace :: lirc_t
  ls_sum :: lirc_t
  ls_remaining_gap :: lirc_t
  ls_header :: lirc_t
  ls_first_signal :: int
  ls_have_gap :: bool

definition recorder_start :: "int \<Rightarrow> int \<Rightarrow> recorder" where
  "recorder_start ep ae = \<lparr>g_space = [], g_pulse = [], g_sum = [], g_gap = [], g_repeat_gap = [], g_signal_length = [],
     g_headerp = [], g_headers = [], g_1lead = [], g_3lead = [], g_trail = [], g_repeatp = [], g_repeats = [],
     g_signals = replicate MAX_SIGNALS 0, g_lengths = replicate MAX_SIGNALS 0, g_first_length = 0,
     g_first_lengths = 0, g_second_lengths = 0, g_count_spaces = 0, g_count_signals = 0, g_count_3repeats = 0,
     g_count_5repeats = 0, g_lastmaxcount = 0, g_eps = ep, g_aeps = ae, g_pulse_cycle = False, g_fault = False\<rparr>"

definition lengths_state_init :: "recorder \<Rightarrow> lengths_state \<times> recorder" where
  "lengths_state_init c =
     (\<lparr>ls_keypresses = 0, ls_retval = 1, ls_count = 0, ls_data = 0, ls_average = 0, ls_maxspace = 0, ls_sum = 0,
       ls_remaining_gap = 0, ls_header = 0, ls_first_signal = -1, ls_have_gap = False\<rparr>,
      c\<lparr>g_first_length := 0, g_first_lengths := 0, g_second_lengths := 0, g_count_spaces := 0, g_count_signals := 0,
        g_count_3repeats := 0, g_count_5repeats := 0\<rparr>)"

definition free_all_lengths :: "recorder \<Rightarrow> recorder" where
  "free_all_lengths c = c\<lparr>g_space := [], g_pulse := [], g_sum := [], g_gap := [], g_repeat_gap := [],
     g_signal_length := [], g_headerp := [], g_headers := [], g_1lead := [], g_3lead := [], g_trail := [],
     g_repeatp := [], g_repeats := []\<rparr>"

section \<open>Counting a signal\<close>

text \<open>\<open>add_length\<close> and \<open>merge_lengths\<close> with the tolerances in force; an element of \<open>signals\<close> read and
  written; an element of \<open>lengths\<close> counted up or down. Each of these accesses sets \<open>g_fault\<close> if its index is
  outside of the array.\<close>

definition tally :: "recorder \<Rightarrow> lirc_t \<Rightarrow> lengths_item list \<Rightarrow> lengths_item list" where
  "tally c d ls = count_duration (g_eps c) (g_aeps c) d ls"

definition read_signal :: "int \<Rightarrow> recorder \<Rightarrow> lirc_t \<times> recorder" where
  "read_signal i c =
     (if 0 \<le> i \<and> nat i < length (g_signals c) then (g_signals c ! nat i, c) else (0, c\<lparr>g_fault := True\<rparr>))"

definition write_signal :: "int \<Rightarrow> lirc_t \<Rightarrow> recorder \<Rightarrow> recorder" where
  "write_signal i v c =
     (if 0 \<le> i \<and> nat i < length (g_signals c) then c\<lparr>g_signals := (g_signals c)[nat i := v]\<rparr>
      else c\<lparr>g_fault := True\<rparr>)"

definition bump_length :: "int \<Rightarrow> int \<Rightarrow> recorder \<Rightarrow> recorder" where
  "bump_length i d c =
     (if 0 \<le> i \<and> nat i < length (g_lengths c)
      then c\<lparr>g_lengths := (g_lengths c)[nat i := u32 (g_lengths c ! nat i + d)]\<rparr>
      else c\<lparr>g_fault := True\<rparr>)"

definition compute_lengths_4_signals :: "recorder \<Rightarrow> recorder" where
  "compute_lengths_4_signals c =
     (let (v, c) = read_signal 0 c; c = c\<lparr>g_repeatp := tally c v (g_repeatp c)\<rparr>;
          (v, c) = read_signal 1 c; c = c\<lparr>g_repeats := tally c v (g_repeats c)\<rparr>;
          (v, c) = read_signal 2 c; c = c\<lparr>g_trail := tally c v (g_trail c)\<rparr>;
          (v, c) = read_signal 3 c
      in c\<lparr>g_repeat_gap := tally c v (g_repeat_gap c)\<rparr>)"

definition compute_lengths_6_signals :: "recorder \<Rightarrow> recorder" where
  "compute_lengths_6_signals c =
     (let (v, c) = read_signal 0 c; c = c\<lparr>g_headerp := tally c v (g_headerp c)\<rparr>;
          (v, c) = read_signal 1 c; c = c\<lparr>g_headers := tally c v (g_headers c)\<rparr>;
          (v, c) = read_signal 2 c; c = c\<lparr>g_repeatp := tally c v (g_repeatp c)\<rparr>;
          (v, c) = read_signal 3 c; c = c\<lparr>g_repeats := tally c v (g_repeats c)\<rparr>;
          (v, c) = read_signal 4 c; c = c\<lparr>g_trail := tally c v (g_trail c)\<rparr>;
          (v, c) = read_signal 5 c
      in c\<lparr>g_repeat_gap := tally c v (g_repeat_gap c)\<rparr>)"

text \<open>The pulses and spaces from the third on.\<close>

definition tally_bit :: "nat \<Rightarrow> recorder \<Rightarrow> recorder" where
  "tally_bit i c =
     (let (v, c) = read_signal (int i) c
      in if i mod 2 \<noteq> 0 then c\<lparr>g_space := tally c v (g_space c)\<rparr> else c\<lparr>g_pulse := tally c v (g_pulse c)\<rparr>)"

definition tally_header :: "recorder \<Rightarrow> recorder" where
  "tally_header c =
     (let (v, c) = read_signal 2 c; c = c\<lparr>g_3lead := tally c v (g_3lead c)\<rparr>;
          (v, c) = read_signal 0 c; c = c\<lparr>g_headerp := tally c v (g_headerp c)\<rparr>;
          (v, c) = read_signal 1 c
      in c\<lparr>g_headers := tally c v (g_headers c)\<rparr>)"

definition compute_lengths_many_signals :: "lengths_state \<Rightarrow> recorder \<Rightarrow> lengths_state \<times> recorder" where
  "compute_lengths_many_signals s c =
     (let n = ls_count s;
          (v, c) = read_signal 0 c; c = c\<lparr>g_1lead := tally c v (g_1lead c)\<rparr>;
          c = fold tally_bit [2..<nat (n - 2)] c;
          (v, c) = read_signal (n - 2) c; c = c\<lparr>g_trail := tally c v (g_trail c)\<rparr>;
          c = bump_length (n - 2) 1 c;
          c = c\<lparr>g_signal_length := tally c (i32 (ls_sum s - ls_data s)) (g_signal_length c)\<rparr>;
          c = (if ls_first_signal s = 1 \<or> g_first_length c > 2 \<and> u32 (g_first_length c - 2) \<noteq> u32 (n - 2)
               then tally_header c else c)
      in if ls_first_signal s = 1
         then (let c = c\<lparr>g_first_lengths := u32 (g_first_lengths c + 1), g_first_length := u32 (n - 2)\<rparr>;
                   (p, c) = read_signal 0 c; (v, c) = read_signal 1 c
               in (s\<lparr>ls_header := i32 (p + v)\<rparr>, c))
         else if ls_first_signal s = 0 \<and> u32 (g_first_length c - 2) = u32 (n - 2)
         then (s, (bump_length n 1 (bump_length (n - 2) (-1) c))\<lparr>g_second_lengths := u32 (g_second_lengths c + 1)\<rparr>)
         else (s, c))"

section \<open>The gap\<close>

datatype lengths_status = STS_LEN_OK | STS_LEN_FAIL | STS_LEN_RAW_OK | STS_LEN_TIMEOUT | STS_LEN_AGAIN
  | STS_LEN_AGAIN_INFO | STS_LEN_NO_GAP_FOUND | STS_LEN_TOO_LONG

text \<open>The first item with more than \<open>SAMPLES\<close> durations, and the highest count met on the way.\<close>

fun scan_items :: "int \<Rightarrow> lengths_item list \<Rightarrow> int \<times> lengths_item option" where
  "scan_items m [] = (m, None)"
| "scan_items m (l # ls) =
     (let m = max m (ln_count l) in if ln_count l > SAMPLES then (m, Some l) else scan_items m ls)"

text \<open>\<open>scan_gap1\<close> and \<open>scan_gap2\<close>: the sums first, which mean signals of constant length, then the gaps.\<close>

definition scan_gap1 :: "recorder \<Rightarrow> ir_remote \<Rightarrow> int \<times> ir_remote option" where
  "scan_gap1 c rm = (let (m, l) = scan_items 0 (g_sum c)
     in (m, map_option (\<lambda>l. rm\<lparr>gap := u32 (calc_signal l), flags := flags rm OR CONST_LENGTH\<rparr>) l))"

definition scan_gap2 :: "int \<Rightarrow> recorder \<Rightarrow> ir_remote \<Rightarrow> int \<times> ir_remote option" where
  "scan_gap2 m c rm = (let (m, l) = scan_items m (g_gap c)
     in (m, map_option (\<lambda>l. rm\<lparr>gap := u32 (calc_signal l)\<rparr>) l))"

text \<open>The space is a gap.\<close>

definition is_gap :: "lengths_state \<Rightarrow> recorder \<Rightarrow> bool" where
  "is_gap s c \<longleftrightarrow> ls_data s > MIN_GAP \<or> ls_data s > i32 (100 * ls_average s)
     \<or> ls_data s \<ge> 5000 \<and> g_count_spaces c > 10 \<and> ls_data s > i32 (5 * ls_average s)
     \<or> ls_data s < 5000 \<and> g_count_spaces c > 10 \<and> ls_data s > i32 (5 * ls_maxspace s) sdiv 2"

definition remaining_after :: "ir_remote \<Rightarrow> lirc_t \<Rightarrow> lirc_t" where
  "remaining_after rm d = (if gap rm > u32 d then i32 (gap rm - u32 d) else 0)"

definition gap_seen :: "bool \<Rightarrow> lengths_state \<Rightarrow> ir_remote \<Rightarrow> recorder
    \<Rightarrow> lengths_status \<times> lengths_state \<times> ir_remote \<times> recorder" where
  "gap_seen force s rm c =
     (let c = c\<lparr>g_sum := tally c (ls_sum s) (g_sum c), g_gap := tally c (ls_data s) (g_gap c), g_count_spaces := 0\<rparr>;
          s = s\<lparr>ls_sum := 0, ls_average := 0, ls_maxspace := 0\<rparr>;
          (m, found) = scan_gap1 c rm;
          (m, found) = (if found = None then scan_gap2 m c rm else (m, found))
      in case found of
           Some rm \<Rightarrow>
             (let s = s\<lparr>ls_have_gap := True, ls_count := 0,
                    ls_remaining_gap := (if is_const rm then remaining_after rm (ls_data s)
                      else if has_repeat_gap rm then i32 (repeat_gap rm) else i32 (gap rm))\<rparr>
              in if force then (STS_LEN_RAW_OK, s\<lparr>ls_retval := 0\<rparr>, rm, c) else (STS_LEN_AGAIN_INFO, s, rm, c))
         | None \<Rightarrow> (STS_LEN_AGAIN, s\<lparr>ls_keypresses := m\<rparr>, rm, c\<lparr>g_lastmaxcount := m\<rparr>))"

text \<open>A sample while the gap is searched for.\<close>

definition search_gap :: "bool \<Rightarrow> lengths_state \<Rightarrow> ir_remote \<Rightarrow> recorder
    \<Rightarrow> lengths_status \<times> lengths_state \<times> ir_remote \<times> recorder" where
  "search_gap force s rm c =
     (let d = ls_data s;
          rest = (\<lambda>s c. if ls_count s > SAMPLES * 200 * 2 then (STS_LEN_NO_GAP_FOUND, s\<lparr>ls_retval := 0\<rparr>, rm, c)
                        else (STS_LEN_AGAIN, s\<lparr>ls_keypresses := g_lastmaxcount c\<rparr>, rm, c))
      in if \<not> (ls_sum s \<noteq> 0 \<or> is_pulse d) then (STS_LEN_AGAIN, s, rm, c)
         else
           (let s = s\<lparr>ls_sum := i32 (ls_sum s + (d AND PULSE_MASK))\<rparr>
            in if ls_average s = 0 \<and> is_space d then
                 (if d > 100000 then (STS_LEN_AGAIN, s\<lparr>ls_sum := 0\<rparr>, rm, c)
                  else rest (s\<lparr>ls_average := d, ls_maxspace := d\<rparr>) c)
               else if is_space d then
                 (if is_gap s c then gap_seen force s rm c
                  else rest (s\<lparr>ls_average := i32 (u32 (u32 (ls_average s * g_count_spaces c) + d) div u32 (g_count_spaces c + 1)),
                               ls_maxspace := max d (ls_maxspace s)\<rparr>)
                         (c\<lparr>g_count_spaces := u32 (g_count_spaces c + 1)\<rparr>))
               else rest s c))"

end
