(* ===== verification/Record_Analyse.thy ===== *)
theory Record_Analyse
  imports Record_State
begin

text \<open>
  \<open>lib/irrecord.c\<close>, what the histograms say about a remote: the encoding, header, trail, lead and repeat
  pulses, the lengths and the number of the data bits; and \<open>get_lengths\<close>, which reads a sample at a time
  until enough signals have been counted. The driver \<open>d\<close> is \<open>curr_driver\<close>.
\<close>

section \<open>Effects\<close>

text \<open>\<open>NullPtr\<close>: NULL is dereferenced; \<open>DivZero\<close>: a number is divided by zero; \<open>Hangs\<close>: a loop does not end.\<close>

datatype 'a effect = NullPtr | DivZero | Hangs | Gives 'a

fun eff_bind :: "'a effect \<Rightarrow> ('a \<Rightarrow> 'b effect) \<Rightarrow> 'b effect" where
  "eff_bind NullPtr f = NullPtr"
| "eff_bind DivZero f = DivZero"
| "eff_bind Hangs f = Hangs"
| "eff_bind (Gives x) f = f x"

text \<open>The item with the highest count, its index and the sum of the counts; an empty list gives NULL,
  which every caller but one dereferences.\<close>

definition max_item :: "lengths_item list \<Rightarrow> (lengths_item \<times> nat \<times> int) effect" where
  "max_item ls = (case get_max_length ls of None \<Rightarrow> NullPtr | Some (i, tot) \<Rightarrow> Gives (ls ! i, i, tot))"

text \<open>The item makes up \<open>th\<close> per cent of all.\<close>

definition prevails :: "int \<Rightarrow> lengths_item \<Rightarrow> int \<Rightarrow> bool" where
  "prevails th l tot \<longleftrightarrow> ln_count l \<ge> u32 (tot * th) div 100"

section \<open>Trail, lead, header, repeat\<close>

definition get_trail_length :: "ir_remote \<Rightarrow> recorder \<Rightarrow> ir_remote effect" where
  "get_trail_length rm c =
     (if is_biphase rm then Gives rm
      else eff_bind (max_item (g_trail c)) (\<lambda>(l, _, tot).
        Gives (if prevails 90 l tot then rm\<lparr>ptrail := calc_signal l\<rparr> else rm)))"

text \<open>The second pulse is twice the first, within the tolerance.\<close>

definition hidden_lead :: "recorder \<Rightarrow> lirc_t \<Rightarrow> lirc_t \<Rightarrow> bool" where
  "hidden_lead c a b \<longleftrightarrow> (let diff = \<bar>i32 (i32 (2 * a) - b)\<bar>
     in u32 diff < u32 (b * g_eps c) div 100 \<or> diff < g_aeps c)"

definition get_lead_length :: "ir_remote \<Rightarrow> recorder \<Rightarrow> (ir_remote \<times> recorder) effect" where
  "get_lead_length rm c =
     (if \<not> is_biphase rm \<or> has_header rm \<or> is_rc6 rm then Gives (rm, c)
      else eff_bind (max_item (g_1lead c)) (\<lambda>(l, i, tot).
        if prevails 90 l tot then Gives (rm\<lparr>plead := calc_signal l\<rparr>, c)
        else eff_bind (max_item (unlink_length i (g_1lead c))) (\<lambda>(l2, _, _).
          let a = min (calc_signal l) (calc_signal l2); b = max (calc_signal l) (calc_signal l2);
              c' = (if i = 0 then c else c\<lparr>g_1lead := unlink_length i (g_1lead c)\<rparr>)
          in Gives (if hidden_lead c a b then rm\<lparr>plead := a\<rparr> else rm, c'))))"

definition get_header_length :: "ir_remote \<Rightarrow> recorder \<Rightarrow> ir_remote effect" where
  "get_header_length rm c =
     (if g_headerp c = [] then Gives rm
      else eff_bind (max_item (g_headerp c)) (\<lambda>(p, _, tot).
        if prevails 90 p tot then
          eff_bind (max_item (g_headers c)) (\<lambda>(s, _, tot).
            Gives (if prevails 90 s tot then
                     rm\<lparr>phead := calc_signal p, shead := calc_signal s,
                        flags := (if g_first_lengths c < g_second_lengths c then flags rm OR NO_HEAD_REP else flags rm)\<rparr>
                   else rm))
        else Gives rm))"

text \<open>The result is False when the repeat codes are inconsistent.\<close>

definition get_repeat_length :: "ir_remote \<Rightarrow> recorder \<Rightarrow> (bool \<times> ir_remote) effect" where
  "get_repeat_length rm c =
     (let three = g_count_3repeats c > SAMPLES div 2; five = g_count_5repeats c > SAMPLES div 2
      in if three = five then Gives (\<not> three, rm)
         else eff_bind (max_item (g_repeatp c)) (\<lambda>(p, _, tot).
           if \<not> prevails 90 p tot then Gives (True, rm)
           else eff_bind (max_item (g_repeats c)) (\<lambda>(s, _, tot).
             if \<not> prevails 90 s tot then Gives (True, rm)
             else if g_count_5repeats c > g_count_3repeats c \<and> \<not> has_header rm then Gives (False, rm)
             else
               (let rm = (if g_count_5repeats c > g_count_3repeats c then rm\<lparr>flags := flags rm OR REPEAT_HEADER\<rparr> else rm);
                    rm = rm\<lparr>prepeat := calc_signal p, srepeat := calc_signal s\<rparr>
                in if is_const rm then Gives (True, rm)
                   else eff_bind (max_item (g_repeat_gap c)) (\<lambda>(g, _, _).
                     Gives (True, rm\<lparr>repeat_gap := u32 (calc_signal g)\<rparr>))))))"

section \<open>The encoding\<close>

text \<open>The signal length that was counted most often: the first maximum of \<open>lengths\<close>; and the sum of all
  but the first element.\<close>

definition longest_count :: "int list \<Rightarrow> nat \<times> int" where
  "longest_count ls = fold (\<lambda>i (len, tot). (if ls ! i > ls ! len then i else len, u32 (tot + ls ! i))) [1..<MAX_SIGNALS] (0, 0)"

text \<open>\<open>get_scheme\<close> takes the most frequent pulse out of its list and puts it in front again; when it is
  the only one it becomes its own successor. The same is done with the spaces, with a test for the
  case that there is only one.\<close>

definition get_scheme :: "ir_remote \<Rightarrow> recorder \<Rightarrow> (ir_remote \<times> recorder) effect" where
  "get_scheme rm c =
     (let (len, tot) = longest_count (g_lengths c);
          space_enc = (\<lambda>c. Gives (set_protocol (rm\<lparr>bits := int len + 1\<rparr>) SPACE_ENC, c))
      in if g_lengths c ! len \<ge> u32 (80 * tot) div 100 then space_enc c
         else eff_bind (max_item (g_pulse c)) (\<lambda>(p, i, _).
           let rest = unlink_length i (g_pulse c);
               c = (if rest = [] then c\<lparr>g_pulse_cycle := True\<rparr> else c\<lparr>g_pulse := p # rest\<rparr>)
           in eff_bind (max_item (if rest = [] then [p] else rest)) (\<lambda>(p2, _, _).
             eff_bind (max_item (g_space c)) (\<lambda>(s, j, _).
               let srest = unlink_length j (g_space c)
               in if srest = [] then space_enc c
                  else eff_bind (max_item srest) (\<lambda>(s2, _, _).
                    let c = c\<lparr>g_space := s # srest\<rparr>
                    in eff_bind (max_item (g_space c)) (\<lambda>(s, _, _).
                      Gives (set_protocol rm
                        (if len > 20 \<and> (calc_signal p < 550 \<or> calc_signal p2 < 550)
                              \<and> (calc_signal s < 550 \<or> calc_signal s2 < 550) then RC6 else RC5), c)))))))"

section \<open>The data\<close>

text \<open>A second item counts if it is at least a tenth of the first.\<close>

definition second_item :: "lengths_item \<Rightarrow> lengths_item list \<Rightarrow> lengths_item option" where
  "second_item l rest = (case get_max_length rest of
     None \<Rightarrow> None
   | Some (i, _) \<Rightarrow> if ln_count (rest ! i) < u32 (ln_count l * 10) div 100 then None else Some (rest ! i))"

text \<open>The lengths of one and zero, from one or two lengths of pulses and of spaces. None: the encoding
  is not known.\<close>

definition biphase_bits :: "lirc_t \<Rightarrow> lirc_t \<Rightarrow> lirc_t" where
  "biphase_bits a b = i32 (min a b + max a b sdiv 2) sdiv 2"

definition set_bits :: "driver \<Rightarrow> ir_remote \<Rightarrow> lirc_t \<Rightarrow> lirc_t option \<Rightarrow> lirc_t \<Rightarrow> lirc_t option \<Rightarrow> ir_remote option" where
  "set_bits d rm p1 p2 s1 s2 =
     (if is_biphase rm then
        (case (p2, s2) of
           (Some p2, Some s2) \<Rightarrow>
             (let p = biphase_bits p1 p2; s = biphase_bits s1 s2
              in Some (rm\<lparr>pone := p, sone := s, pzero := p, szero := s\<rparr>))
         | _ \<Rightarrow> None)
      else
        (case (p2, s2) of
           (Some p2, None) \<Rightarrow>
             (let rm = rm\<lparr>pone := max p1 p2, sone := s1, pzero := min p1 p2, szero := s1\<rparr>
              in Some (if expect d rm (ptrail rm) p1 \<or> expect d rm (ptrail rm) p2 then rm\<lparr>ptrail := 0\<rparr> else rm))
         | (None, Some s2) \<Rightarrow> Some (rm\<lparr>pone := p1, sone := max s1 s2, pzero := p1, szero := min s1 s2\<rparr>)
         | _ \<Rightarrow> None))"

text \<open>A header that looks like a bit is none.\<close>

definition drop_header :: "driver \<Rightarrow> ir_remote \<Rightarrow> ir_remote" where
  "drop_header d rm =
     (if has_header rm \<and> (\<not> has_repeat rm \<or> flags rm AND NO_HEAD_REP \<noteq> 0) then
        (let rm = (if \<not> is_biphase rm
                     \<and> (expect d rm (phead rm) (pone rm) \<and> expect d rm (shead rm) (sone rm)
                        \<or> expect d rm (phead rm) (pzero rm) \<and> expect d rm (shead rm) (szero rm))
                   then rm\<lparr>phead := 0, shead := 0, flags := flags rm AND NOT NO_HEAD_REP\<rparr> else rm)
         in if is_biphase rm \<and> expect d rm (shead rm) (sone rm)
            then rm\<lparr>plead := phead rm, phead := 0, shead := 0, flags := flags rm AND NOT NO_HEAD_REP\<rparr> else rm)
      else rm)"

text \<open>The number of bits.\<close>

definition count_bits :: "ir_remote \<Rightarrow> recorder \<Rightarrow> ir_remote effect" where
  "count_bits rm c =
     (if is_biphase rm then
        eff_bind (max_item (g_signal_length c)) (\<lambda>(l, _, _).
          let len = i32 (calc_signal l - plead rm - phead rm - shead rm + i32 (pone rm + sone rm) sdiv 2);
              bit = i32 (pone rm + sone rm);
              n = len sdiv bit
          in if bit = 0 then DivZero else Gives (rm\<lparr>bits := (if is_rc6 rm then n - 1 else n)\<rparr>))
      else Gives (rm\<lparr>bits := (bits rm - (if has_header rm then 2 else 0) + 1 - (if ptrail rm > 0 then 2 else 0)) sdiv 2\<rparr>))"

definition get_data_length :: "driver \<Rightarrow> ir_remote \<Rightarrow> recorder \<Rightarrow> (bool \<times> ir_remote \<times> recorder) effect" where
  "get_data_length d rm c =
     (if g_pulse_cycle c then Hangs
      else eff_bind (max_item (g_pulse c)) (\<lambda>(p, i, tot).
        if \<not> prevails 10 p tot then Gives (False, rm, c)
        else
          (let p2 = second_item p (unlink_length i (g_pulse c));
               c = c\<lparr>g_pulse := unlink_length i (g_pulse c)\<rparr>
           in eff_bind (max_item (g_space c)) (\<lambda>(s, j, tot).
             if \<not> prevails 10 s tot then Gives (False, rm, c)
             else
               (let s2 = second_item s (unlink_length j (g_space c));
                    c = c\<lparr>g_space := unlink_length j (g_space c)\<rparr>;
                    rm = rm\<lparr>eps := g_eps c, aeps := g_aeps c\<rparr>
                in case set_bits d rm (calc_signal p) (map_option calc_signal p2) (calc_signal s) (map_option calc_signal s2) of
                     None \<Rightarrow> Gives (False, rm, c)
                   | Some rm \<Rightarrow> eff_bind (count_bits (drop_header d rm) c) (\<lambda>rm. Gives (True, rm, c)))))))"

text \<open>The chain of calls at the end of \<open>get_lengths\<close>, each of which may end it.\<close>

definition analyse_lengths :: "driver \<Rightarrow> ir_remote \<Rightarrow> recorder \<Rightarrow> (bool \<times> ir_remote \<times> recorder) effect" where
  "analyse_lengths d rm c =
     eff_bind (get_scheme rm c) (\<lambda>(rm, c).
     eff_bind (get_header_length rm c) (\<lambda>rm.
     eff_bind (get_trail_length rm c) (\<lambda>rm.
     eff_bind (get_lead_length rm c) (\<lambda>(rm, c).
     eff_bind (get_repeat_length rm c) (\<lambda>(ok, rm).
     if ok then get_data_length d rm c else Gives (False, rm, c))))))"

section \<open>A sample\<close>

text \<open>A complete signal, by its number of pulses and spaces.\<close>

definition count_signal :: "lengths_state \<Rightarrow> recorder \<Rightarrow> lengths_state \<times> recorder" where
  "count_signal s c =
     (let s = s\<lparr>ls_keypresses := ls_keypresses s + 1\<rparr>;
          (s, c) = (if ls_count s = 4 then (s, compute_lengths_4_signals (c\<lparr>g_count_3repeats := u32 (g_count_3repeats c + 1)\<rparr>))
             else if ls_count s = 6 then (s, compute_lengths_6_signals (c\<lparr>g_count_5repeats := u32 (g_count_5repeats c + 1)\<rparr>))
             else if ls_count s > 6 then compute_lengths_many_signals s (c\<lparr>g_count_signals := u32 (g_count_signals c + 1)\<rparr>)
             else (s, c))
      in (s\<lparr>ls_count := 0, ls_sum := 0\<rparr>, c))"

text \<open>The gap that is left, and whether the duration \<open>v\<close> reaches it; whether it is no longer than the gap
  and the header.\<close>

definition gap_rest :: "ir_remote \<Rightarrow> lirc_t \<Rightarrow> lirc_t" where
  "gap_rest rm tot = (if is_const rm then remaining_after rm tot else i32 (gap rm))"

definition reaches_gap :: "recorder \<Rightarrow> lirc_t \<Rightarrow> lirc_t \<Rightarrow> bool" where
  "reaches_gap c v g \<longleftrightarrow> v \<ge> u32 (u32 g * u32 (100 - g_eps c)) div 100 \<or> v \<ge> i32 (g - g_aeps c)"

definition within_gap :: "recorder \<Rightarrow> lirc_t \<Rightarrow> lirc_t \<Rightarrow> bool" where
  "within_gap c v g \<longleftrightarrow> v \<le> u32 (u32 g * u32 (100 + g_eps c)) div 100 \<or> v \<le> i32 (g + g_aeps c)"

definition measure_signal :: "driver \<Rightarrow> lengths_state \<Rightarrow> ir_remote \<Rightarrow> recorder
    \<Rightarrow> (lengths_status \<times> lengths_state \<times> ir_remote \<times> recorder) effect" where
  "measure_signal d s rm c =
     (let v = ls_data s AND PULSE_MASK
      in if ls_count s = 1 \<and> is_space (ls_data s) then Gives (STS_LEN_AGAIN, s\<lparr>ls_count := 0\<rparr>, rm, c)
         else if ls_count s > 200 then Gives (STS_LEN_TOO_LONG, s\<lparr>ls_retval := 0\<rparr>, rm, c)
         else
           (let c = write_signal (ls_count s - 1) v c;
                s = s\<lparr>ls_remaining_gap := gap_rest rm (ls_sum s), ls_sum := i32 (ls_sum s + v)\<rparr>
            in if \<not> (ls_count s > 2 \<and> reaches_gap c v (ls_remaining_gap s)) then Gives (STS_LEN_AGAIN, s, rm, c)
               else if is_pulse (ls_data s) then Gives (STS_LEN_NO_GAP_FOUND, s, rm\<lparr>gap := 0\<rparr>, c)
               else
                 (let (s, c) = (if is_space (ls_data s) then count_signal s c else (s, c))
                  in if g_count_signals c \<ge> SAMPLES then
                       eff_bind (analyse_lengths d rm c) (\<lambda>(ok, rm, c).
                         let s = (if ok then s else s\<lparr>ls_retval := 0\<rparr>)
                         in Gives (if ls_retval s = 0 then STS_LEN_FAIL else STS_LEN_OK, s, rm, c))
                     else if within_gap c v (i32 (ls_remaining_gap s + ls_header s))
                     then Gives (STS_LEN_AGAIN, s\<lparr>ls_first_signal := 0, ls_header := 0\<rparr>, rm, c)
                     else Gives (STS_LEN_AGAIN, s\<lparr>ls_first_signal := 1\<rparr>, rm, c))))"

text \<open>\<open>get_lengths\<close> with the sample the driver gives, 0 for a timeout.\<close>

definition get_lengths :: "driver \<Rightarrow> bool \<Rightarrow> lirc_t \<Rightarrow> lengths_state \<Rightarrow> ir_remote \<Rightarrow> recorder
    \<Rightarrow> (lengths_status \<times> lengths_state \<times> ir_remote \<times> recorder) effect" where
  "get_lengths d force x s rm c =
     (let s = s\<lparr>ls_data := x\<rparr>
      in if x = 0 then Gives (STS_LEN_TIMEOUT, s\<lparr>ls_retval := 0\<rparr>, rm, c)
         else if is_timeout x \<or> is_overflow x then Gives (STS_LEN_AGAIN, s, rm, c)
         else
           (let s = s\<lparr>ls_count := ls_count s + 1\<rparr>
            in if ls_have_gap s then measure_signal d s rm c else Gives (search_gap force s rm c)))"

end
