(* ===== verification/Record_Lengths_Facts.thy ===== *)
theory Record_Lengths_Facts
  imports Record_Lengths
begin

text \<open>
  Facts on the histograms: counting and merging keep the number and the sum of the durations, the
  bounds of every item hold its durations, the item that is found has the highest count; the
  relative tolerance never merges anything.
\<close>

section \<open>The invariant\<close>

text \<open>An item stands for some durations between its bounds.\<close>

definition item_ok :: "lengths_item \<Rightarrow> bool" where
  "item_ok l \<longleftrightarrow> 0 < ln_count l \<and> 0 \<le> ln_min l \<and> ln_lower l \<le> ln_min l \<and> ln_min l \<le> ln_max l \<and> ln_max l \<le> ln_upper l
     \<and> ln_count l * ln_min l \<le> ln_sum l \<and> ln_sum l \<le> ln_count l * ln_max l"

definition total_count :: "lengths_item list \<Rightarrow> int" where
  "total_count ls = sum_list (map ln_count ls)"

definition total_sum :: "lengths_item list \<Rightarrow> int" where
  "total_sum ls = sum_list (map ln_sum ls)"

text \<open>Nothing wraps round.\<close>

definition hist_ok :: "lengths_item list \<Rightarrow> bool" where
  "hist_ok ls \<longleftrightarrow> list_all item_ok ls \<and> total_sum ls < 2 ^ 31 \<and> total_count ls < 2 ^ 31"

lemma item_sum: "item_ok l \<Longrightarrow> 0 \<le> ln_sum l"
  unfolding item_ok_def by (meson mult_nonneg_nonneg order_trans less_imp_le)

lemma item_count: "item_ok l \<Longrightarrow> 0 < ln_count l"
  by (simp add: item_ok_def)

lemma totals_Cons [simp]:
  "total_count (l # ls) = ln_count l + total_count ls" "total_sum (l # ls) = ln_sum l + total_sum ls"
  "total_count [] = 0" "total_sum [] = 0"
  by (simp_all add: total_count_def total_sum_def)

lemma totals_nonneg: "list_all item_ok ls \<Longrightarrow> 0 \<le> total_sum ls \<and> 0 \<le> total_count ls"
  by (induction ls) (fastforce dest: item_sum item_count)+

section \<open>Counting\<close>

lemma new_length_ok: "0 \<le> d \<Longrightarrow> item_ok (new_length d)"
proof -
  assume d: "0 \<le> d"
  have "d sdiv 100 = d div 100" using d by (simp add: sdiv_nonneg)
  moreover have "d div 100 * 100 \<le> d" "d \<le> d div 100 * 100 + 99"
    using pos_mod_sign [of 100 d] pos_mod_bound [of 100 d] div_mult_mod_eq [of d 100] by linarith+
  ultimately show ?thesis using d by (simp add: item_ok_def new_length_def)
qed

lemma count_length_ok:
  assumes "item_ok l" "0 \<le> d" "ln_lower l \<le> d" "d \<le> ln_upper l" "ln_sum l + d < 2 ^ 31" "ln_count l + 1 < 2 ^ 31"
  shows "item_ok (count_length d l) \<and> ln_count (count_length d l) = ln_count l + 1 \<and> ln_sum (count_length d l) = ln_sum l + d"
proof -
  have c: "ln_count (count_length d l) = ln_count l + 1" "ln_sum (count_length d l) = ln_sum l + d"
    using assms item_sum [OF assms(1)] by (simp_all add: count_length_def u32_id i32_id item_ok_def)
  have "(ln_count l + 1) * min (ln_min l) d \<le> ln_count l * ln_min l + d"
  proof -
    have "ln_count l * min (ln_min l) d \<le> ln_count l * ln_min l" using assms(1) by (intro mult_left_mono) (auto simp: item_ok_def)
    then show ?thesis by (simp add: algebra_simps)
  qed
  moreover have "ln_count l * ln_max l + d \<le> (ln_count l + 1) * max (ln_max l) d"
  proof -
    have "ln_count l * ln_max l \<le> ln_count l * max (ln_max l) d" using assms(1) by (intro mult_left_mono) (auto simp: item_ok_def)
    then show ?thesis by (simp add: algebra_simps)
  qed
  ultimately show ?thesis using assms(1-4) c unfolding item_ok_def by (auto simp: count_length_def)
qed

lemma add_length_ok:
  assumes "0 \<le> d"
  shows "list_all item_ok ls \<Longrightarrow> total_sum ls + d < 2 ^ 31 \<Longrightarrow> total_count ls + 1 < 2 ^ 31 \<Longrightarrow>
    list_all item_ok (add_length d ls) \<and> total_sum (add_length d ls) = total_sum ls + d
      \<and> total_count (add_length d ls) = total_count ls + 1"
proof (induction ls)
  case Nil
  then show ?case using new_length_ok [OF assms] by (simp add: new_length_def)
next
  case (Cons l ls)
  have t: "0 \<le> total_sum ls" "0 \<le> total_count ls" "0 \<le> ln_sum l" "0 < ln_count l"
    using Cons.prems(1) totals_nonneg [of ls] item_sum [of l] item_count [of l] by simp_all
  show ?case
  proof (cases "ln_lower l \<le> d \<and> d \<le> ln_upper l")
    case True
    then have "item_ok (count_length d l) \<and> ln_count (count_length d l) = ln_count l + 1 \<and> ln_sum (count_length d l) = ln_sum l + d"
      using Cons.prems t assms by (intro count_length_ok) auto
    then show ?thesis using True Cons.prems(1) by simp
  next
    case False
    then show ?thesis using Cons.IH Cons.prems t by auto
  qed
qed

section \<open>Merging\<close>

lemma merge_items_ok:
  assumes "item_ok l" "item_ok i" "ln_sum l + ln_sum i < 2 ^ 31" "ln_count l + ln_count i < 2 ^ 31"
  shows "item_ok (merge_items l i) \<and> ln_count (merge_items l i) = ln_count l + ln_count i
    \<and> ln_sum (merge_items l i) = ln_sum l + ln_sum i"
proof -
  have c: "ln_count (merge_items l i) = ln_count l + ln_count i" "ln_sum (merge_items l i) = ln_sum l + ln_sum i"
    using assms item_sum [OF assms(1)] item_sum [OF assms(2)] by (simp_all add: merge_items_def u32_id i32_id item_ok_def)
  have "(ln_count l + ln_count i) * min (ln_min l) (ln_min i) \<le> ln_count l * ln_min l + ln_count i * ln_min i"
    unfolding distrib_right using assms(1,2) by (intro add_mono mult_left_mono) (auto simp: item_ok_def)
  moreover have "ln_count l * ln_max l + ln_count i * ln_max i \<le> (ln_count l + ln_count i) * max (ln_max l) (ln_max i)"
    unfolding distrib_right using assms(1,2) by (intro add_mono mult_left_mono) (auto simp: item_ok_def)
  ultimately show ?thesis using assms(1,2) c unfolding item_ok_def by (auto simp: merge_items_def)
qed

lemma merge_into_ok:
  "item_ok l \<Longrightarrow> list_all item_ok is \<Longrightarrow> ln_sum l + total_sum is < 2 ^ 31 \<Longrightarrow> ln_count l + total_count is < 2 ^ 31 \<Longrightarrow>
    merge_into ep ae l is = (l', r) \<Longrightarrow> item_ok l' \<and> list_all item_ok r
      \<and> ln_sum l' + total_sum r = ln_sum l + total_sum is \<and> ln_count l' + total_count r = ln_count l + total_count is"
proof (induction "is" arbitrary: l l' r)
  case Nil
  then show ?case by simp
next
  case (Cons i "is")
  have t: "0 \<le> total_sum is" "0 \<le> total_count is" "0 \<le> ln_sum l" "0 < ln_count l" "0 \<le> ln_sum i" "0 < ln_count i"
    using Cons.prems(1,2) totals_nonneg [of "is"] item_sum [of l] item_sum [of i] item_count [of l] item_count [of i] by simp_all
  show ?case
  proof (cases "mergeable ep ae l i")
    case True
    have m: "item_ok (merge_items l i) \<and> ln_count (merge_items l i) = ln_count l + ln_count i
      \<and> ln_sum (merge_items l i) = ln_sum l + ln_sum i" using Cons.prems t by (intro merge_items_ok) auto
    then show ?thesis using Cons.IH [of "merge_items l i" l' r] Cons.prems True by auto
  next
    case False
    then obtain r' where "merge_into ep ae l is = (l', r')" "r = i # r'" using Cons.prems(5) by (auto split: prod.splits)
    then show ?thesis using Cons.IH [of l l' r'] Cons.prems t by auto
  qed
qed

lemma merge_lengths_ok:
  "hist_ok ls \<Longrightarrow> hist_ok (merge_lengths ep ae ls) \<and> total_sum (merge_lengths ep ae ls) = total_sum ls
    \<and> total_count (merge_lengths ep ae ls) = total_count ls"
proof (induction ep ae ls rule: merge_lengths.induct)
  case (1 ep ae)
  then show ?case by simp
next
  case (2 ep ae l ls)
  obtain l' r where m: "merge_into ep ae l ls = (l', r)" by force
  have h: "item_ok l" "list_all item_ok ls" "ln_sum l + total_sum ls < 2 ^ 31" "ln_count l + total_count ls < 2 ^ 31"
    using 2(2) by (simp_all add: hist_ok_def)
  note k = merge_into_ok [OF h m]
  have t: "0 \<le> ln_sum l'" "0 < ln_count l'" using k item_sum [of l'] by (simp_all add: item_ok_def)
  have "hist_ok r" using k h t by (simp add: hist_ok_def)
  from 2(1) [OF m [symmetric] refl this] show ?case using k h m by (simp add: hist_ok_def)
qed

lemma count_duration_ok:
  assumes "hist_ok ls" "0 \<le> d" "total_sum ls + d < 2 ^ 31" "total_count ls + 1 < 2 ^ 31"
  shows "hist_ok (count_duration ep ae d ls) \<and> total_sum (count_duration ep ae d ls) = total_sum ls + d
    \<and> total_count (count_duration ep ae d ls) = total_count ls + 1"
proof -
  have a: "list_all item_ok (add_length d ls) \<and> total_sum (add_length d ls) = total_sum ls + d
      \<and> total_count (add_length d ls) = total_count ls + 1"
    using assms by (intro add_length_ok) (simp_all add: hist_ok_def)
  then have "hist_ok (add_length d ls)" using assms(3,4) by (simp add: hist_ok_def)
  from merge_lengths_ok [OF this] show ?thesis using a by (simp add: count_duration_def)
qed

section \<open>The highest count\<close>

lemma max_index_max:
  "best < length pre \<Longrightarrow> m = ln_count (pre ! best) \<Longrightarrow> \<forall>j < length pre. ln_count (pre ! j) \<le> m \<Longrightarrow> i = length pre \<Longrightarrow>
    (let b = max_index i best m ls in b < length (pre @ ls)
      \<and> (\<forall>j < length (pre @ ls). ln_count ((pre @ ls) ! j) \<le> ln_count ((pre @ ls) ! b)))"
proof (induction ls arbitrary: pre i best m)
  case Nil
  then show ?case by simp
next
  case (Cons l ls)
  show ?case
  proof (cases "ln_count l > m")
    case True
    have "ln_count x \<le> ln_count l" if "x \<in> set pre" for x
      using that Cons.prems(3) True by (auto simp: in_set_conv_nth intro: order_trans less_imp_le)
    then have "(let b = max_index (i + 1) i (ln_count l) ls in b < length ((pre @ [l]) @ ls)
      \<and> (\<forall>j < length ((pre @ [l]) @ ls). ln_count (((pre @ [l]) @ ls) ! j) \<le> ln_count (((pre @ [l]) @ ls) ! b)))"
      using Cons.prems True by (intro Cons.IH) (auto simp: nth_append less_Suc_eq)
    then show ?thesis using True by simp
  next
    case False
    have "(let b = max_index (i + 1) best m ls in b < length ((pre @ [l]) @ ls)
      \<and> (\<forall>j < length ((pre @ [l]) @ ls). ln_count (((pre @ [l]) @ ls) ! j) \<le> ln_count (((pre @ [l]) @ ls) ! b)))"
      using Cons.prems False by (intro Cons.IH) (auto simp: nth_append less_Suc_eq)
    then show ?thesis using False by simp
  qed
qed

lemma max_length_found:
  assumes "get_max_length ls = Some (i, s)"
  shows "i < length ls \<and> (\<forall>j < length ls. ln_count (ls ! j) \<le> ln_count (ls ! i))"
proof -
  obtain l r where ls: "ls = l # r" "i = max_index 1 0 (ln_count l) r"
    using assms by (auto simp: get_max_length_def split: list.splits)
  have "let b = max_index 1 0 (ln_count l) r in b < length ([l] @ r)
      \<and> (\<forall>j < length ([l] @ r). ln_count (([l] @ r) ! j) \<le> ln_count (([l] @ r) ! b))"
    by (rule max_index_max) simp_all
  then show ?thesis using ls by (simp add: Let_def)
qed

section \<open>The relative tolerance\<close>

text \<open>The second half of the test compares a duration with a hundred times the bound: for durations
  as they are measured it holds of no two items that the first half does not accept.\<close>

definition within_aeps :: "int \<Rightarrow> lengths_item \<Rightarrow> lengths_item \<Rightarrow> bool" where
  "within_aeps ae l i \<longleftrightarrow> (let avg = (ln_sum l + ln_sum i) div (ln_count l + ln_count i)
     in ln_max l \<le> avg + ae \<and> avg \<le> ln_min l + ae \<and> ln_max i \<le> avg + ae \<and> avg \<le> ln_min i + ae)"

lemma mergeable_absolute:
  assumes "item_ok l" "item_ok i" "ln_sum l + ln_sum i < 2 ^ 31" "ln_count l + ln_count i < 2 ^ 31"
    "0 \<le> ep" "ep < 99" "0 \<le> ae" "ae < 2 ^ 30" "ln_max l < 2 ^ 24" "ln_max i < 2 ^ 24"
    and pos: "0 < (ln_sum l + ln_sum i) div (ln_count l + ln_count i)"
  shows "mergeable ep ae l i \<longleftrightarrow> within_aeps ae l i"
proof -
  define avg where "avg = (ln_sum l + ln_sum i) div (ln_count l + ln_count i)"
  define m where "m = merge_items l i"
  have m: "item_ok m" "ln_count m = ln_count l + ln_count i" "ln_sum m = ln_sum l + ln_sum i"
    using merge_items_ok [OF assms(1-4)] by (simp_all add: m_def)
  have mm: "ln_min m = min (ln_min l) (ln_min i)" "ln_max m = max (ln_max l) (ln_max i)" by (simp_all add: m_def merge_items_def)
  have b: "0 \<le> ln_min l" "ln_min l \<le> ln_max l" "0 \<le> ln_min i" "ln_min i \<le> ln_max i" "0 < ln_count m"
    using assms(1,2) m(1) by (simp_all add: item_ok_def)
  have "ln_min m * ln_count m \<le> ln_sum m" "ln_sum m \<le> ln_max m * ln_count m" using m(1) by (simp_all add: item_ok_def mult.commute)
  then have a: "ln_min m \<le> avg" "avg \<le> ln_max m" unfolding avg_def m(2,3) [symmetric]
    using b(5) zdiv_mono1 [of "ln_min m * ln_count m" "ln_sum m" "ln_count m"] zdiv_mono1 [of "ln_sum m" "ln_max m * ln_count m" "ln_count m"]
    by simp_all
  have av: "0 < avg" "avg < 16777216" using pos a(2) mm(2) assms(9,10) by (simp_all add: avg_def)
  have s: "u32 (i32 (ln_sum l + ln_sum i)) div u32 (ln_count l + ln_count i) = avg"
    using assms(3,4) item_sum [OF m(1)] m b(5) by (simp add: avg_def u32_id i32_id)
  have "avg * (100 + ep) \<le> avg * 199" using av assms(6) by (intro mult_left_mono) auto
  moreover have "0 \<le> avg * (100 + ep)" using av assms(5) by simp
  ultimately have "u32 (avg * (100 + ep)) = avg * (100 + ep)" using av by (intro u32_id) linarith+
  moreover have "u32 (100 + ep) = 100 + ep" "u32 (100 - ep) = 100 - ep" using assms(5,6) by (simp_all add: u32_id)
  ultimately have ab: "u32 (avg * u32 (100 + ep)) = avg * (100 + ep)" by simp
  have "avg * (100 - ep) \<le> avg * 100" using av assms(5) by (intro mult_left_mono) auto
  moreover have "0 \<le> avg * (100 - ep)" using av assms(6) by simp
  ultimately have be: "u32 (avg * u32 (100 - ep)) = avg * (100 - ep)"
    unfolding \<open>u32 (100 - ep) = 100 - ep\<close> using av by (intro u32_id) linarith+
  have "avg * 2 \<le> avg * (100 - ep)" using av assms(6) by (intro mult_left_mono) auto
  then have no: "\<not> (avg * (100 - ep) \<le> ln_min l \<and> avg * (100 - ep) \<le> ln_min i)" using a(1) av(1) mm(1) by linarith
  have u: "u32 (ln_max l) = ln_max l" "u32 (ln_max i) = ln_max i" "u32 (ln_min l) = ln_min l" "u32 (ln_min i) = ln_min i"
    "u32 (avg + u32 ae) = avg + ae" "u32 (i32 (ln_min l + ae)) = ln_min l + ae" "u32 (i32 (ln_min i + ae)) = ln_min i + ae"
    using b av assms(7-10) by (simp_all add: u32_id i32_id)
  show ?thesis unfolding mergeable_def within_aeps_def s Let_def ab be u avg_def [symmetric] using no by auto
qed

end
