(* ===== verification/Record_Analyse_Facts.thy ===== *)
theory Record_Analyse_Facts
  imports Record_Analyse Record_Lengths_Facts
begin

text \<open>
  The invariant of the analysis: what the lists count is tied to the numbers of signals, so that no list
  is empty when its most frequent item is asked for, and no access leaves the arrays. And the case in
  which the analysis never ends.
\<close>

section \<open>Counts\<close>

text \<open>The counts of a list, whatever the sums: \<open>n\<close> durations have been counted.\<close>

definition counts :: "lengths_item list \<Rightarrow> int \<Rightarrow> bool" where
  "counts ls n \<longleftrightarrow> list_all (\<lambda>l. 0 < ln_count l) ls \<and> total_count ls = n"

lemma counts_nonneg: "list_all (\<lambda>l. 0 < ln_count l) ls \<Longrightarrow> 0 \<le> total_count ls"
  by (induction ls) auto

lemma counts_empty: "counts ls n \<Longrightarrow> ls = [] \<longleftrightarrow> n = 0"
  by (cases ls) (auto simp: counts_def dest: counts_nonneg)

lemma counts_add:
  "counts ls n \<Longrightarrow> n + 1 < 2 ^ 32 \<Longrightarrow> counts (add_length d ls) (n + 1)"
proof (induction ls arbitrary: n)
  case Nil
  then show ?case by (simp add: counts_def new_length_def)
next
  case (Cons l ls)
  have t: "counts ls (n - ln_count l)" "0 < ln_count l" "0 \<le> total_count ls" using Cons.prems(1) counts_nonneg [of ls]
    by (auto simp: counts_def)
  have n: "n = ln_count l + total_count ls" using Cons.prems(1) by (simp add: counts_def)
  show ?case
  proof (cases "ln_lower l \<le> d \<and> d \<le> ln_upper l")
    case True
    have "ln_count (count_length d l) = ln_count l + 1" using t n Cons.prems(2) by (simp add: count_length_def u32_id)
    then show ?thesis using True Cons.prems(1) n by (simp add: counts_def)
  next
    case False
    have "counts (add_length d ls) (n - ln_count l + 1)" using t n Cons.prems(2) by (intro Cons.IH) simp_all
    then show ?thesis using False t n by (auto simp: counts_def)
  qed
qed

lemma counts_merge_into:
  "merge_into ep ae l is = (l', r) \<Longrightarrow> counts (l # is) n \<Longrightarrow> n < 2 ^ 32 \<Longrightarrow> counts (l' # r) n"
proof (induction "is" arbitrary: l l' r n)
  case Nil
  then show ?case by simp
next
  case (Cons i "is")
  have t: "0 < ln_count l" "0 < ln_count i" "0 \<le> total_count is" using Cons.prems(2) counts_nonneg [of "is"]
    by (auto simp: counts_def)
  have n: "n = ln_count l + ln_count i + total_count is" using Cons.prems(2) by (simp add: counts_def)
  show ?case
  proof (cases "mergeable ep ae l i")
    case True
    have "ln_count (merge_items l i) = ln_count l + ln_count i" using t n Cons.prems(3) by (simp add: merge_items_def u32_id)
    then have "counts (merge_items l i # is) n" using Cons.prems(2) t n by (simp add: counts_def)
    then show ?thesis using Cons.IH [of "merge_items l i" l' r n] Cons.prems True by simp
  next
    case False
    then obtain r' where r: "merge_into ep ae l is = (l', r')" "r = i # r'" using Cons.prems(1) by (auto split: prod.splits)
    have "counts (l # is) (n - ln_count i)" using Cons.prems(2) by (auto simp: counts_def)
    then have "counts (l' # r') (n - ln_count i)" using Cons.IH [OF r(1)] t Cons.prems(3) by simp
    then show ?thesis using r(2) t by (auto simp: counts_def)
  qed
qed

lemma counts_merge: "counts ls n \<Longrightarrow> n < 2 ^ 32 \<Longrightarrow> counts (merge_lengths ep ae ls) n"
proof (induction ep ae ls arbitrary: n rule: merge_lengths.induct)
  case (1 ep ae)
  then show ?case by simp
next
  case (2 ep ae l ls)
  obtain l' r where m: "merge_into ep ae l ls = (l', r)" by force
  have c: "counts (l' # r) n" by (rule counts_merge_into [OF m 2(2,3)])
  then have "counts r (n - ln_count l')" "0 < ln_count l'" by (auto simp: counts_def)
  then have "counts (merge_lengths ep ae r) (n - ln_count l')" using 2(1) [OF m [symmetric] refl] 2(3) by simp
  then show ?case using m \<open>0 < ln_count l'\<close> by (auto simp: counts_def)
qed

lemma counts_tally: "counts ls n \<Longrightarrow> n + 1 < 2 ^ 32 \<Longrightarrow> counts (tally c d ls) (n + 1)"
  unfolding tally_def count_duration_def by (intro counts_merge counts_add)

section \<open>The array of signals\<close>

text \<open>As long as the index is inside of the array, reading and writing a signal sets no fault.\<close>

definition sig :: "recorder \<Rightarrow> nat \<Rightarrow> lirc_t" where
  "sig c i = g_signals c ! i"

lemma read_inside:
  "length (g_signals c) = MAX_SIGNALS \<Longrightarrow> 0 \<le> i \<Longrightarrow> i < 200 \<Longrightarrow> read_signal i c = (sig c (nat i), c)"
  by (auto simp: read_signal_def sig_def nat_less_iff)

lemma write_inside:
  "length (g_signals c) = MAX_SIGNALS \<Longrightarrow> 0 \<le> i \<Longrightarrow> i < 200 \<Longrightarrow>
    write_signal i v c = c\<lparr>g_signals := (g_signals c)[nat i := v]\<rparr>"
  by (auto simp: write_signal_def nat_less_iff)

lemma four_signals_eq:
  "length (g_signals c) = MAX_SIGNALS \<Longrightarrow> compute_lengths_4_signals c =
     c\<lparr>g_repeatp := tally c (sig c 0) (g_repeatp c), g_repeats := tally c (sig c 1) (g_repeats c),
       g_trail := tally c (sig c 2) (g_trail c), g_repeat_gap := tally c (sig c 3) (g_repeat_gap c)\<rparr>"
  by (simp add: compute_lengths_4_signals_def Let_def read_inside tally_def sig_def)

lemma six_signals_eq:
  "length (g_signals c) = MAX_SIGNALS \<Longrightarrow> compute_lengths_6_signals c =
     c\<lparr>g_headerp := tally c (sig c 0) (g_headerp c), g_headers := tally c (sig c 1) (g_headers c),
       g_repeatp := tally c (sig c 2) (g_repeatp c), g_repeats := tally c (sig c 3) (g_repeats c),
       g_trail := tally c (sig c 4) (g_trail c), g_repeat_gap := tally c (sig c 5) (g_repeat_gap c)\<rparr>"
  by (simp add: compute_lengths_6_signals_def Let_def read_inside tally_def sig_def)

lemma tally_bit_eq:
  "length (g_signals c) = MAX_SIGNALS \<Longrightarrow> i < 200 \<Longrightarrow> tally_bit i c =
     (if i mod 2 \<noteq> 0 then c\<lparr>g_space := tally c (sig c i) (g_space c)\<rparr>
      else c\<lparr>g_pulse := tally c (sig c i) (g_pulse c)\<rparr>)"
  by (simp add: tally_bit_def read_inside)

lemma tally_header_eq:
  "length (g_signals c) = MAX_SIGNALS \<Longrightarrow> tally_header c =
     c\<lparr>g_3lead := tally c (sig c 2) (g_3lead c), g_headerp := tally c (sig c 0) (g_headerp c),
       g_headers := tally c (sig c 1) (g_headers c)\<rparr>"
  by (simp add: tally_header_def Let_def read_inside tally_def sig_def)

section \<open>The invariant\<close>

text \<open>\<open>s\<close> signals and \<open>r\<close> repeat codes have been counted, \<open>b\<close> is a bound for both.\<close>

definition lists_ok :: "int \<Rightarrow> recorder \<Rightarrow> bool" where
  "lists_ok b c \<longleftrightarrow> (let s = g_count_signals c; r = g_count_3repeats c + g_count_5repeats c
     in 0 \<le> s \<and> 0 \<le> g_count_3repeats c \<and> 0 \<le> g_count_5repeats c \<and> s + r \<le> b
      \<and> counts (g_trail c) (s + r) \<and> counts (g_1lead c) s \<and> counts (g_signal_length c) s
      \<and> counts (g_repeatp c) r \<and> counts (g_repeats c) r \<and> counts (g_repeat_gap c) r
      \<and> (\<exists>h. counts (g_headerp c) h \<and> counts (g_headers c) h \<and> h \<le> s + r)
      \<and> (\<exists>p. counts (g_pulse c) p \<and> s \<le> p \<and> p \<le> 200 * s) \<and> (\<exists>p. counts (g_space c) p \<and> s \<le> p \<and> p \<le> 200 * s)
      \<and> (\<exists>p. counts (g_3lead c) p \<and> p \<le> s))"

definition arrays_ok :: "recorder \<Rightarrow> bool" where
  "arrays_ok c \<longleftrightarrow> length (g_signals c) = MAX_SIGNALS \<and> length (g_lengths c) = MAX_SIGNALS \<and> \<not> g_fault c
     \<and> 0 \<le> g_first_length c \<and> g_first_length c \<le> 198"

lemma counts_tallyI: "counts ls n \<Longrightarrow> n < 2 ^ 31 \<Longrightarrow> m = n + 1 \<Longrightarrow> counts (tally c d ls) m"
  using counts_tally by simp

lemma lists_repeat:
  assumes "lists_ok b c" "b < 10 ^ 7" "length (g_signals c) = MAX_SIGNALS"
  shows "lists_ok (b + 1) (compute_lengths_4_signals (c\<lparr>g_count_3repeats := u32 (g_count_3repeats c + 1)\<rparr>))"
    and "lists_ok (b + 1) (compute_lengths_6_signals (c\<lparr>g_count_5repeats := u32 (g_count_5repeats c + 1)\<rparr>))"
proof -
  let ?s = "g_count_signals c" and ?r = "g_count_3repeats c + g_count_5repeats c"
  have h: "0 \<le> ?s" "0 \<le> g_count_3repeats c" "0 \<le> g_count_5repeats c" "?s + ?r \<le> b"
      "counts (g_trail c) (?s + ?r)" "counts (g_1lead c) ?s" "counts (g_signal_length c) ?s"
      "counts (g_repeatp c) ?r" "counts (g_repeats c) ?r" "counts (g_repeat_gap c) ?r"
      "\<exists>h. counts (g_headerp c) h \<and> counts (g_headers c) h \<and> h \<le> ?s + ?r"
      "\<exists>p. counts (g_pulse c) p \<and> ?s \<le> p \<and> p \<le> 200 * ?s" "\<exists>p. counts (g_space c) p \<and> ?s \<le> p \<and> p \<le> 200 * ?s"
      "\<exists>p. counts (g_3lead c) p \<and> p \<le> ?s"
    using assms(1) unfolding lists_ok_def Let_def by blast+
  obtain hh where hh: "counts (g_headerp c) hh" "counts (g_headers c) hh" "hh \<le> ?s + ?r" using h(11) by blast
  have u: "u32 (g_count_3repeats c + 1) = g_count_3repeats c + 1" "u32 (g_count_5repeats c + 1) = g_count_5repeats c + 1"
    using h(1-4) assms(2) by (simp_all add: u32_id)
  have r: "?r + 1 < 2 ^ 31" "?s + ?r + 1 < 2 ^ 31" "hh + 1 < 2 ^ 31" using h(1-4) hh(3) assms(2) by simp_all
  have g: "length (g_signals (c\<lparr>g_count_3repeats := x\<rparr>)) = MAX_SIGNALS"
    "length (g_signals (c\<lparr>g_count_5repeats := x\<rparr>)) = MAX_SIGNALS" for x using assms(3) by simp_all
  show "lists_ok (b + 1) (compute_lengths_4_signals (c\<lparr>g_count_3repeats := u32 (g_count_3repeats c + 1)\<rparr>))"
    using h(1-7) h(12-14) hh r unfolding lists_ok_def Let_def four_signals_eq [OF g(1)] u
    by (auto intro!: counts_tallyI [OF h(5)] counts_tallyI [OF h(8)] counts_tallyI [OF h(9)] counts_tallyI [OF h(10)] exI [of _ hh])
  show "lists_ok (b + 1) (compute_lengths_6_signals (c\<lparr>g_count_5repeats := u32 (g_count_5repeats c + 1)\<rparr>))"
    using h(1-7) h(12-14) hh r unfolding lists_ok_def Let_def six_signals_eq [OF g(2)] u
    by (auto intro!: counts_tallyI [OF h(5)] counts_tallyI [OF h(8)] counts_tallyI [OF h(9)] counts_tallyI [OF h(10)]
        counts_tallyI [OF hh(1)] counts_tallyI [OF hh(2)] exI [of _ "hh + 1"])
qed

text \<open>The loop over the bits.\<close>

lemma fold_bits:
  "length (g_signals c) = MAX_SIGNALS \<Longrightarrow> \<forall>i \<in> set is. i < 200 \<Longrightarrow>
    counts (g_pulse c) p \<Longrightarrow> counts (g_space c) q \<Longrightarrow> p + int (length is) < 2 ^ 31 \<Longrightarrow> q + int (length is) < 2 ^ 31 \<Longrightarrow>
    \<exists>ps ss p' q'. fold tally_bit is c = c\<lparr>g_pulse := ps, g_space := ss\<rparr> \<and> counts ps p' \<and> counts ss q'
      \<and> p \<le> p' \<and> p' \<le> p + int (length is) \<and> q \<le> q' \<and> q' \<le> q + int (length is)
      \<and> (2 \<in> set is \<longrightarrow> p < p') \<and> (3 \<in> set is \<longrightarrow> q < q')"
proof (induction "is" arbitrary: c p q)
  case Nil
  then show ?case by (intro exI [of _ "g_pulse c"] exI [of _ "g_space c"] exI [of _ p] exI [of _ q]) simp
next
  case (Cons i "is")
  show ?case
  proof (cases "i mod 2 \<noteq> 0")
    case True
    let ?c = "c\<lparr>g_space := tally c (sig c i) (g_space c)\<rparr>"
    have "counts (g_space ?c) (q + 1)" using Cons.prems by (auto intro: counts_tallyI)
    then obtain ps ss p' q' where "fold tally_bit is ?c = ?c\<lparr>g_pulse := ps, g_space := ss\<rparr>" "counts ps p'" "counts ss q'"
      "p \<le> p'" "p' \<le> p + int (length is)" "q + 1 \<le> q'" "q' \<le> q + 1 + int (length is)" "2 \<in> set is \<longrightarrow> p < p'"
      using Cons.IH [of ?c p "q + 1"] Cons.prems by auto
    moreover have "tally_bit i c = ?c" using True Cons.prems(1,2) by (simp add: tally_bit_eq)
    moreover have "i \<noteq> 2" using True by auto
    ultimately show ?thesis by (intro exI [of _ ps] exI [of _ ss] exI [of _ p'] exI [of _ q']) auto
  next
    case False
    let ?c = "c\<lparr>g_pulse := tally c (sig c i) (g_pulse c)\<rparr>"
    have "counts (g_pulse ?c) (p + 1)" using Cons.prems by (auto intro: counts_tallyI)
    then obtain ps ss p' q' where "fold tally_bit is ?c = ?c\<lparr>g_pulse := ps, g_space := ss\<rparr>" "counts ps p'" "counts ss q'"
      "p + 1 \<le> p'" "p' \<le> p + 1 + int (length is)" "q \<le> q'" "q' \<le> q + int (length is)" "3 \<in> set is \<longrightarrow> q < q'"
      using Cons.IH [of ?c "p + 1" q] Cons.prems by auto
    moreover have "tally_bit i c = ?c" using False Cons.prems(1,2) by (simp add: tally_bit_eq)
    moreover have "i \<noteq> 3" using False by auto
    ultimately show ?thesis by (intro exI [of _ ps] exI [of _ ss] exI [of _ p'] exI [of _ q']) auto
  qed
qed

lemma lists_okE:
  assumes "lists_ok b c"
  obtains hh p q l where "0 \<le> g_count_signals c" "0 \<le> g_count_3repeats c" "0 \<le> g_count_5repeats c"
    "g_count_signals c + (g_count_3repeats c + g_count_5repeats c) \<le> b"
    "counts (g_trail c) (g_count_signals c + (g_count_3repeats c + g_count_5repeats c))"
    "counts (g_1lead c) (g_count_signals c)" "counts (g_signal_length c) (g_count_signals c)"
    "counts (g_repeatp c) (g_count_3repeats c + g_count_5repeats c)" "counts (g_repeats c) (g_count_3repeats c + g_count_5repeats c)"
    "counts (g_repeat_gap c) (g_count_3repeats c + g_count_5repeats c)"
    "counts (g_headerp c) hh" "counts (g_headers c) hh" "hh \<le> g_count_signals c + (g_count_3repeats c + g_count_5repeats c)"
    "counts (g_pulse c) p" "g_count_signals c \<le> p" "p \<le> 200 * g_count_signals c"
    "counts (g_space c) q" "g_count_signals c \<le> q" "q \<le> 200 * g_count_signals c"
    "counts (g_3lead c) l" "l \<le> g_count_signals c"
  using assms unfolding lists_ok_def Let_def by blast

text \<open>What is counted of a long signal, but for the array \<open>lengths\<close> and the header.\<close>

definition signal_lists :: "lengths_state \<Rightarrow> recorder \<Rightarrow> recorder" where
  "signal_lists s c =
     (let n = ls_count s;
          c = c\<lparr>g_1lead := tally c (sig c 0) (g_1lead c)\<rparr>;
          c = fold tally_bit [2..<nat (n - 2)] c;
          c = c\<lparr>g_trail := tally c (sig c (nat (n - 2))) (g_trail c)\<rparr>
      in c\<lparr>g_signal_length := tally c (i32 (ls_sum s - ls_data s)) (g_signal_length c)\<rparr>)"

lemma tally_frame: "g_eps c = g_eps c' \<Longrightarrow> g_aeps c = g_aeps c' \<Longrightarrow> tally c d ls = tally c' d ls"
  by (simp add: tally_def)

lemma bits_counted:
  assumes "length (g_signals c) = MAX_SIGNALS" "\<forall>i \<in> set is. i < 200"
    "counts (g_pulse c) p" "counts (g_space c) q" "p + int (length is) < 2 ^ 31" "q + int (length is) < 2 ^ 31"
    "int (length is) \<le> 196" "2 \<in> set is" "3 \<in> set is"
  shows "\<exists>ps ss p' q'. fold tally_bit is c = c\<lparr>g_pulse := ps, g_space := ss\<rparr> \<and> counts ps p' \<and> counts ss q'
    \<and> p < p' \<and> p' \<le> p + 196 \<and> q < q' \<and> q' \<le> q + 196"
  using fold_bits [OF assms(1-6)] assms(7-9) by fastforce

lemma signal_lists_ok:
  assumes "lists_ok b c" "b < 10 ^ 7" "6 < ls_count s" "ls_count s \<le> 200" "arrays_ok c"
  shows "lists_ok (b + 1) (signal_lists s (c\<lparr>g_count_signals := u32 (g_count_signals c + 1)\<rparr>))
    \<and> lists_ok (b + 1) (tally_header (signal_lists s (c\<lparr>g_count_signals := u32 (g_count_signals c + 1)\<rparr>)))
    \<and> arrays_ok (signal_lists s (c\<lparr>g_count_signals := u32 (g_count_signals c + 1)\<rparr>))
    \<and> g_first_length (signal_lists s (c\<lparr>g_count_signals := u32 (g_count_signals c + 1)\<rparr>)) = g_first_length c"
  using assms(1)
proof (rule lists_okE)
  fix hh p q l
  let ?s = "g_count_signals c" and ?r = "g_count_3repeats c + g_count_5repeats c"
  assume h: "0 \<le> ?s" "0 \<le> g_count_3repeats c" "0 \<le> g_count_5repeats c" "?s + ?r \<le> b"
    "counts (g_trail c) (?s + ?r)" "counts (g_1lead c) ?s" "counts (g_signal_length c) ?s" "counts (g_repeatp c) ?r"
    "counts (g_repeats c) ?r" "counts (g_repeat_gap c) ?r" "counts (g_headerp c) hh" "counts (g_headers c) hh" "hh \<le> ?s + ?r"
    "counts (g_pulse c) p" "?s \<le> p" "p \<le> 200 * ?s" "counts (g_space c) q" "?s \<le> q" "q \<le> 200 * ?s"
    "counts (g_3lead c) l" "l \<le> ?s"
  have u: "u32 (?s + 1) = ?s + 1" using h(1-4) assms(2) by (simp add: u32_id)
  define c0 where "c0 = c\<lparr>g_count_signals := ?s + 1\<rparr>"
  define c1 where "c1 = c0\<lparr>g_1lead := tally c0 (sig c0 0) (g_1lead c0)\<rparr>"
  let ?is = "[2..<nat (ls_count s - 2)]"
  have len: "int (length ?is) \<le> 196" "2 \<in> set ?is" "3 \<in> set ?is" using assms(3,4) by auto
  have "b < 10000000" using assms(2) by simp
  then have "p + int (length ?is) < 2147483648" "q + int (length ?is) < 2147483648" using len(1) h by linarith+
  then have b: "p + int (length ?is) < 2 ^ 31" "q + int (length ?is) < 2 ^ 31" by simp_all
  have "g_pulse c1 = g_pulse c" "g_space c1 = g_space c" by (simp_all add: c1_def c0_def)
  moreover have "length (g_signals c1) = MAX_SIGNALS" using assms(5) by (simp add: c1_def c0_def arrays_ok_def)
  moreover have "\<forall>i \<in> set ?is. i < 200" using assms(4) by auto
  ultimately obtain ps ss p' q' where f: "fold tally_bit ?is c1 = c1\<lparr>g_pulse := ps, g_space := ss\<rparr>" "counts ps p'" "counts ss q'"
    "p < p'" "p' \<le> p + 196" "q < q'" "q' \<le> q + 196"
    using bits_counted [OF _ _ _ _ b, of c1] h(14,17) len by metis
  define c2 where "c2 = c1\<lparr>g_pulse := ps, g_space := ss\<rparr>"
  define d where "d = signal_lists s c0"
  have d: "d = c2\<lparr>g_trail := tally c2 (sig c2 (nat (ls_count s - 2))) (g_trail c2),
      g_signal_length := tally c2 (i32 (ls_sum s - ls_data s)) (g_signal_length c2)\<rparr>"
    unfolding d_def signal_lists_def Let_def c1_def [symmetric] f(1) c2_def [symmetric] by (simp add: tally_def sig_def)
  have t: "?s < 2 ^ 31" "?s + ?r < 2 ^ 31" "hh < 2 ^ 31" "l < 2 ^ 31" using h assms(2) by simp_all
  have e: "counts (g_trail d) (?s + 1 + ?r)" "counts (g_1lead d) (?s + 1)" "counts (g_signal_length d) (?s + 1)"
    using t by (auto simp: d c2_def c1_def c0_def intro!: counts_tallyI [OF h(5)] counts_tallyI [OF h(6)] counts_tallyI [OF h(7)])
  have g: "g_count_signals d = ?s + 1" "g_count_3repeats d = g_count_3repeats c" "g_count_5repeats d = g_count_5repeats c"
    "g_repeatp d = g_repeatp c" "g_repeats d = g_repeats c" "g_repeat_gap d = g_repeat_gap c" "g_headerp d = g_headerp c"
    "g_headers d = g_headers c" "g_3lead d = g_3lead c" "g_pulse d = ps" "g_space d = ss" "g_signals d = g_signals c"
    "g_lengths d = g_lengths c" "g_fault d = g_fault c" "g_first_length d = g_first_length c"
    by (simp_all add: d c2_def c1_def c0_def)
  have ps: "\<exists>p. counts ps p \<and> ?s + 1 \<le> p \<and> p \<le> 200 * (?s + 1)" "\<exists>p. counts ss p \<and> ?s + 1 \<le> p \<and> p \<le> 200 * (?s + 1)"
    using f h(15,16,18,19) by (intro exI [of _ p'] exI [of _ q'] conjI; simp)+
  have l0: "lists_ok (b + 1) d"
    unfolding lists_ok_def Let_def g using h(1-4,8-13,20,21) e ps
    by (auto intro: exI [of _ hh] exI [of _ l])
  have sg: "length (g_signals d) = MAX_SIGNALS" using assms(5) by (simp add: g arrays_ok_def)
  have l1: "lists_ok (b + 1) (tally_header d)"
  proof -
    have "counts (tally d x (g_3lead c)) (l + 1)" "counts (tally d x (g_headerp c)) (hh + 1)" "counts (tally d x (g_headers c)) (hh + 1)" for x
      using t by (auto intro!: counts_tallyI [OF h(20)] counts_tallyI [OF h(11)] counts_tallyI [OF h(12)])
    then show ?thesis
      unfolding lists_ok_def Let_def tally_header_eq [OF sg] using h(1-4,8-13,20,21) e ps
      by (auto simp: g intro: exI [of _ "hh + 1"] exI [of _ "l + 1"])
  qed
  have "arrays_ok d" using assms(5) by (simp add: arrays_ok_def g)
  then show ?thesis using l0 l1 g(15) by (simp add: u d_def c0_def)
qed

lemma bump_ok:
  "arrays_ok c \<Longrightarrow> 0 \<le> i \<Longrightarrow> i < 200 \<Longrightarrow> arrays_ok (bump_length i x c)"
  by (simp add: arrays_ok_def bump_length_def)

lemma bump_lists: "lists_ok b (bump_length i x c) = lists_ok b c" "g_first_length (bump_length i x c) = g_first_length c"
  by (simp_all add: lists_ok_def bump_length_def)

lemma bump_signals [simp]: "g_signals (bump_length i x c) = g_signals c"
  by (simp add: bump_length_def)

lemma header_signals: "length (g_signals c) = MAX_SIGNALS \<Longrightarrow> g_signals (tally_header c) = g_signals c"
  by (simp add: tally_header_eq)

lemma bits_signals:
  "length (g_signals c) = MAX_SIGNALS \<Longrightarrow> \<forall>i \<in> set is. i < 200 \<Longrightarrow> g_signals (fold tally_bit is c) = g_signals c"
  by (induction "is" arbitrary: c) (simp_all add: tally_bit_eq)

lemma many_signals_eq:
  assumes "length (g_signals c) = MAX_SIGNALS" "6 < ls_count s" "ls_count s \<le> 200"
  shows "compute_lengths_many_signals s c =
     (let n = ls_count s; e = bump_length (n - 2) 1 (signal_lists s c);
          g = (if ls_first_signal s = 1 \<or> g_first_length e > 2 \<and> u32 (g_first_length e - 2) \<noteq> u32 (n - 2)
               then tally_header e else e)
      in if ls_first_signal s = 1
         then (s\<lparr>ls_header := i32 (sig g 0 + sig g 1)\<rparr>,
               g\<lparr>g_first_lengths := u32 (g_first_lengths g + 1), g_first_length := u32 (n - 2)\<rparr>)
         else if ls_first_signal s = 0 \<and> u32 (g_first_length g - 2) = u32 (n - 2)
         then (s, (bump_length n 1 (bump_length (n - 2) (-1) g))\<lparr>g_second_lengths := u32 (g_second_lengths g + 1)\<rparr>)
         else (s, g))"
proof -
  have b: "bump_length i x k\<lparr>g_signal_length := tally (bump_length i x k) v (g_signal_length (bump_length i x k))\<rparr>
      = bump_length i x (k\<lparr>g_signal_length := tally k v (g_signal_length k)\<rparr>)" for i x k v
    by (simp add: bump_length_def tally_def)
  define c1 where "c1 = c\<lparr>g_1lead := tally c (sig c 0) (g_1lead c)\<rparr>"
  define c2 where "c2 = fold tally_bit [2..<nat (ls_count s - 2)] c1"
  have n: "length (g_signals c1) = MAX_SIGNALS" using assms(1) by (simp add: c1_def)
  have "g_signals c2 = g_signals c1" unfolding c2_def using assms(3) by (intro bits_signals n) auto
  then have n2: "length (g_signals c2) = MAX_SIGNALS" using n by simp
  have r: "read_signal 0 c = (sig c 0, c)" "read_signal (ls_count s - 2) c2 = (sig c2 (nat (ls_count s - 2)), c2)"
    using read_inside [OF assms(1), of 0] read_inside [OF n2, of "ls_count s - 2"] assms(2,3) by simp_all
  define e where "e = bump_length (ls_count s - 2) 1 (signal_lists s c)"
  have e: "signal_lists s c = c2\<lparr>g_trail := tally c2 (sig c2 (nat (ls_count s - 2))) (g_trail c2),
      g_signal_length := tally c2 (i32 (ls_sum s - ls_data s)) (g_signal_length c2)\<rparr>"
    unfolding signal_lists_def Let_def c1_def [symmetric] c2_def [symmetric] by (simp add: tally_def)
  have ne: "length (g_signals e) = MAX_SIGNALS" using n2 by (simp add: e_def e)
  define g where "g = (if ls_first_signal s = 1 \<or> g_first_length e > 2 \<and> u32 (g_first_length e - 2) \<noteq> u32 (ls_count s - 2)
    then tally_header e else e)"
  have ng: "length (g_signals g) = MAX_SIGNALS" using ne by (simp add: g_def header_signals)
  have "length (g_signals (g\<lparr>g_first_lengths := x, g_first_length := y\<rparr>)) = MAX_SIGNALS" for x y using ng by simp
  then have rg: "read_signal 0 (g\<lparr>g_first_lengths := x, g_first_length := y\<rparr>) = (sig g 0, g\<lparr>g_first_lengths := x, g_first_length := y\<rparr>)"
    "read_signal 1 (g\<lparr>g_first_lengths := x, g_first_length := y\<rparr>) = (sig g 1, g\<lparr>g_first_lengths := x, g_first_length := y\<rparr>)" for x y
    by (simp_all add: read_inside) (simp_all add: sig_def)
  have e': "bump_length (ls_count s - 2) 1 (c2\<lparr>g_trail := tally c2 (sig c2 (nat (ls_count s - 2))) (g_trail c2),
      g_signal_length := tally (c2\<lparr>g_trail := tally c2 (sig c2 (nat (ls_count s - 2))) (g_trail c2)\<rparr>)
        (i32 (ls_sum s - ls_data s)) (g_signal_length (c2\<lparr>g_trail := tally c2 (sig c2 (nat (ls_count s - 2))) (g_trail c2)\<rparr>))\<rparr>) = e"
    by (simp add: e_def e tally_def)
  show ?thesis
    unfolding compute_lengths_many_signals_def Let_def r prod.case c1_def [symmetric] c2_def [symmetric] b e' g_def [symmetric] rg
      e_def [symmetric]
    by (rule refl)
qed

lemma many_signals_ok:
  assumes "lists_ok b c" "b < 10 ^ 7" "6 < ls_count s" "ls_count s \<le> 200" "arrays_ok c"
    "compute_lengths_many_signals s (c\<lparr>g_count_signals := u32 (g_count_signals c + 1)\<rparr>) = (s', c')"
  shows "lists_ok (b + 1) c' \<and> arrays_ok c'"
proof -
  let ?c0 = "c\<lparr>g_count_signals := u32 (g_count_signals c + 1)\<rparr>"
  let ?n = "ls_count s"
  define d where "d = signal_lists s ?c0"
  have d: "lists_ok (b + 1) d" "lists_ok (b + 1) (tally_header d)" "arrays_ok d" "g_first_length d = g_first_length c"
    using signal_lists_ok [OF assms(1-5)] by (simp_all add: d_def)
  define e where "e = bump_length (?n - 2) 1 d"
  have "length (g_signals d) = MAX_SIGNALS" using d(3) by (simp add: arrays_ok_def)
  then have h: "bump_length i x (tally_header d) = tally_header (bump_length i x d)" for i x
    by (simp add: tally_header_eq) (simp add: bump_length_def tally_def sig_def)
  have "arrays_ok d \<Longrightarrow> arrays_ok (tally_header d)" by (simp add: arrays_ok_def tally_header_eq)
  then have e: "lists_ok (b + 1) e" "lists_ok (b + 1) (tally_header e)" "arrays_ok e" "arrays_ok (tally_header e)"
    using d bump_ok [of d "?n - 2" 1] bump_ok [of "tally_header d" "?n - 2" 1] assms(3,4)
    by (simp_all add: e_def bump_lists h [symmetric])
  define g where "g = (if ls_first_signal s = 1 \<or> g_first_length e > 2 \<and> u32 (g_first_length e - 2) \<noteq> u32 (?n - 2)
    then tally_header e else e)"
  have g: "lists_ok (b + 1) g" "arrays_ok g" using e by (simp_all add: g_def)
  have r: "compute_lengths_many_signals s ?c0 = (if ls_first_signal s = 1
         then (s\<lparr>ls_header := i32 (sig g 0 + sig g 1)\<rparr>,
               g\<lparr>g_first_lengths := u32 (g_first_lengths g + 1), g_first_length := u32 (?n - 2)\<rparr>)
         else if ls_first_signal s = 0 \<and> u32 (g_first_length g - 2) = u32 (?n - 2)
         then (s, (bump_length ?n 1 (bump_length (?n - 2) (-1) g))\<lparr>g_second_lengths := u32 (g_second_lengths g + 1)\<rparr>)
         else (s, g))"
    unfolding g_def e_def d_def by (rule many_signals_eq [unfolded Let_def]) (use assms(3-5) in \<open>simp_all add: arrays_ok_def\<close>)
  have u: "u32 (?n - 2) = ?n - 2" using assms(3,4) by (simp add: u32_id)
  have n: "?n < 200" if "u32 (g_first_length g - 2) = u32 (?n - 2)"
  proof -
    have f: "0 \<le> g_first_length g" "g_first_length g \<le> 198" using g(2) by (simp_all add: arrays_ok_def)
    show ?thesis
    proof (cases "g_first_length g < 2")
      case True
      then have "g_first_length g = 0 \<or> g_first_length g = 1" using f(1) by linarith
      then have "u32 (g_first_length g - 2) > 1000" by (auto simp: u32_def mask_eq_exp_minus_1)
      then show ?thesis using that u assms(4) by linarith
    next
      case False
      then have "u32 (g_first_length g - 2) = g_first_length g - 2" using f by (simp add: u32_id)
      then show ?thesis using that u f(2) by simp
    qed
  qed
  have "arrays_ok (bump_length ?n 1 (bump_length (?n - 2) (-1) g))" if "?n < 200"
    using that assms(3) g(2) by (intro bump_ok) auto
  then have a: "u32 (g_first_length g - 2) = u32 (?n - 2) \<Longrightarrow> arrays_ok (bump_length ?n 1 (bump_length (?n - 2) (-1) g))"
    using n by blast
  have x: "lists_ok b (c\<lparr>g_second_lengths := y\<rparr>) = lists_ok b c" "arrays_ok (c\<lparr>g_second_lengths := y\<rparr>) = arrays_ok c"
    "lists_ok b (c\<lparr>g_first_lengths := y, g_first_length := z\<rparr>) = lists_ok b c" for b c y z
    by (simp_all add: lists_ok_def arrays_ok_def)
  have w: "arrays_ok (g\<lparr>g_first_lengths := y, g_first_length := u32 (?n - 2)\<rparr>)" for y
    using g(2) u assms(3,4) by (simp add: arrays_ok_def)
  show ?thesis using assms(6) g(1,2) a w unfolding r
    by (simp add: bump_lists x split: if_splits) (auto simp: bump_lists x)
qed

section \<open>The analysis finds every list filled\<close>

text \<open>No NULL is dereferenced, and what is given satisfies \<open>P\<close>.\<close>

definition delivers :: "('a \<Rightarrow> bool) \<Rightarrow> 'a effect \<Rightarrow> bool" where
  "delivers P e \<longleftrightarrow> (case e of NullPtr \<Rightarrow> False | Gives x \<Rightarrow> P x | _ \<Rightarrow> True)"

lemma delivers_simps [simp]: "delivers P (Gives x) = P x" "delivers P Hangs" "delivers P DivZero"
  by (simp_all add: delivers_def)

lemma delivers_bind: "delivers Q e \<Longrightarrow> (\<And>x. Q x \<Longrightarrow> delivers P (f x)) \<Longrightarrow> delivers P (eff_bind e f)"
  by (cases e) (simp_all add: delivers_def)

lemma delivers_mono: "delivers Q e \<Longrightarrow> (\<And>x. Q x \<Longrightarrow> P x) \<Longrightarrow> delivers P e"
  by (cases e) (simp_all add: delivers_def)

lemma delivers_if: "(b \<Longrightarrow> delivers P x) \<Longrightarrow> (\<not> b \<Longrightarrow> delivers P y) \<Longrightarrow> delivers P (if b then x else y)"
  by simp

lemma delivers_max: "ls \<noteq> [] \<Longrightarrow> (\<And>l i tot. max_item ls = Gives (l, i, tot) \<Longrightarrow> i < length ls \<Longrightarrow> delivers P (f (l, i, tot)))
    \<Longrightarrow> delivers P (eff_bind (max_item ls) f)"
proof -
  assume a: "ls \<noteq> []" "\<And>l i tot. max_item ls = Gives (l, i, tot) \<Longrightarrow> i < length ls \<Longrightarrow> delivers P (f (l, i, tot))"
  obtain i tot where m: "get_max_length ls = Some (i, tot)" using a(1) by (cases ls) (simp_all add: get_max_length_def)
  then have "max_item ls = Gives (ls ! i, i, tot)" "i < length ls" using max_length_found [OF m] by (simp_all add: max_item_def)
  then show ?thesis using a(2) by simp
qed

definition lists_full :: "recorder \<Rightarrow> bool" where
  "lists_full c \<longleftrightarrow> g_pulse c \<noteq> [] \<and> g_space c \<noteq> [] \<and> g_trail c \<noteq> [] \<and> g_1lead c \<noteq> [] \<and> g_signal_length c \<noteq> []
     \<and> (g_headerp c \<noteq> [] \<longrightarrow> g_headers c \<noteq> [])
     \<and> (g_count_3repeats c > 40 \<or> g_count_5repeats c > 40 \<longrightarrow> g_repeatp c \<noteq> [] \<and> g_repeats c \<noteq> [] \<and> g_repeat_gap c \<noteq> [])
     \<and> (\<forall>l. g_1lead c = [l] \<longrightarrow> 0 < ln_count l \<and> ln_count l < 20000000)"

lemma lists_filled: "lists_ok b c \<Longrightarrow> b \<le> 10 ^ 7 \<Longrightarrow> 0 < g_count_signals c \<Longrightarrow> lists_full c"
proof (erule lists_okE)
  fix hh p q l
  assume b: "b \<le> 10 ^ 7" "0 < g_count_signals c"
  let ?s = "g_count_signals c" and ?r = "g_count_3repeats c + g_count_5repeats c"
  assume h: "0 \<le> ?s" "0 \<le> g_count_3repeats c" "0 \<le> g_count_5repeats c" "?s + ?r \<le> b"
    "counts (g_trail c) (?s + ?r)" "counts (g_1lead c) ?s" "counts (g_signal_length c) ?s" "counts (g_repeatp c) ?r"
    "counts (g_repeats c) ?r" "counts (g_repeat_gap c) ?r" "counts (g_headerp c) hh" "counts (g_headers c) hh" "hh \<le> ?s + ?r"
    "counts (g_pulse c) p" "?s \<le> p" "p \<le> 200 * ?s" "counts (g_space c) q" "?s \<le> q" "q \<le> 200 * ?s"
    "counts (g_3lead c) l" "l \<le> ?s"
  have "g_1lead c = [x] \<Longrightarrow> 0 < ln_count x \<and> ln_count x < 20000000" for x using h(1-4,6) b by (auto simp: counts_def)
  then show "lists_full c"
    unfolding lists_full_def using h b counts_empty [OF h(5)] counts_empty [OF h(6)] counts_empty [OF h(7)] counts_empty [OF h(8)]
      counts_empty [OF h(9)] counts_empty [OF h(10)] counts_empty [OF h(11)] counts_empty [OF h(12)] counts_empty [OF h(14)]
      counts_empty [OF h(17)]
    by auto
qed

lemma single_prevails: "max_item [l] = Gives (m, i, tot) \<Longrightarrow> 0 < ln_count l \<Longrightarrow> ln_count l < 20000000 \<Longrightarrow> prevails 90 m tot"
  by (auto simp: max_item_def get_max_length_def prevails_def u32_id)

lemma unlink_empty: "i < length ls \<Longrightarrow> unlink_length i ls = [] \<Longrightarrow> \<exists>l. ls = [l]"
  by (cases ls) (auto simp: unlink_length_def)

lemma lists_full_update:
  assumes "lists_full c"
  shows "lists_full (c\<lparr>g_pulse_cycle := x\<rparr>)" "lists_full (c\<lparr>g_pulse := p # r\<rparr>)" "lists_full (c\<lparr>g_space := q # t\<rparr>)"
  using assms by (simp_all add: lists_full_def)

lemma scheme_full:
  assumes "lists_full c"
  shows "delivers (\<lambda>(rm, c'). lists_full c' \<and> g_fault c' = g_fault c) (get_scheme rm c)"
proof -
  have n: "g_pulse c \<noteq> []" "g_space c \<noteq> []" using assms by (simp_all add: lists_full_def)
  show ?thesis
    unfolding get_scheme_def Let_def prod.case_eq_if
    using n by (auto intro!: delivers_max lists_full_update assms split: if_splits)
qed

lemma header_full: "lists_full c \<Longrightarrow> delivers (\<lambda>_. True) (get_header_length rm c)"
  unfolding get_header_length_def by (auto intro!: delivers_max simp: lists_full_def)

lemma trail_full: "lists_full c \<Longrightarrow> delivers (\<lambda>_. True) (get_trail_length rm c)"
  unfolding get_trail_length_def by (auto intro!: delivers_max simp: lists_full_def)

lemma lead_full:
  assumes "lists_full c"
  shows "delivers (\<lambda>(rm, c'). g_pulse c' \<noteq> [] \<and> g_space c' \<noteq> [] \<and> g_signal_length c' \<noteq> [] \<and> g_fault c' = g_fault c
    \<and> g_repeatp c' = g_repeatp c \<and> g_repeats c' = g_repeats c \<and> g_repeat_gap c' = g_repeat_gap c
    \<and> g_count_3repeats c' = g_count_3repeats c \<and> g_count_5repeats c' = g_count_5repeats c) (get_lead_length rm c)"
proof -
  have n: "g_1lead c \<noteq> []" "\<And>l. g_1lead c = [l] \<Longrightarrow> 0 < ln_count l \<and> ln_count l < 20000000" "g_pulse c \<noteq> []" "g_space c \<noteq> []"
    "g_signal_length c \<noteq> []"
    using assms by (simp_all add: lists_full_def)
  have u: "unlink_length i (g_1lead c) \<noteq> []"
    if "max_item (g_1lead c) = Gives (l, i, tot)" "i < length (g_1lead c)" "\<not> prevails 90 l tot" for l i tot
    using that n(2) by (auto dest!: unlink_empty dest: single_prevails)
  show ?thesis
    unfolding get_lead_length_def Let_def
    using n u by (auto intro!: delivers_max)
qed

lemma repeat_full:
  assumes "g_count_3repeats c > 40 \<or> g_count_5repeats c > 40 \<longrightarrow> g_repeatp c \<noteq> [] \<and> g_repeats c \<noteq> [] \<and> g_repeat_gap c \<noteq> []"
  shows "delivers (\<lambda>_. True) (get_repeat_length rm c)"
proof (cases "(g_count_3repeats c > SAMPLES div 2) = (g_count_5repeats c > SAMPLES div 2)")
  case True
  then show ?thesis by (simp add: get_repeat_length_def)
next
  case False
  then have n: "g_repeatp c \<noteq> []" "g_repeats c \<noteq> []" "g_repeat_gap c \<noteq> []" using assms by auto
  show ?thesis unfolding get_repeat_length_def Let_def prod.case
    by (intro delivers_if delivers_max n; simp only: prod.case delivers_simps; (intro delivers_if delivers_max n; auto intro!: delivers_max n))
qed

lemma count_bits_full: "g_signal_length c \<noteq> [] \<Longrightarrow> delivers (\<lambda>_. True) (count_bits rm c)"
  unfolding count_bits_def Let_def by (auto intro!: delivers_max)

lemma data_full:
  assumes "g_pulse c \<noteq> []" "g_space c \<noteq> []" "g_signal_length c \<noteq> []"
  shows "delivers (\<lambda>(ok, rm, c'). g_fault c' = g_fault c) (get_data_length d rm c)"
  unfolding get_data_length_def Let_def using assms
  by (auto intro!: delivers_max delivers_bind [OF count_bits_full] split: option.split)

lemma analyse_full:
  assumes "lists_full c"
  shows "delivers (\<lambda>(ok, rm, c'). g_fault c' = g_fault c) (analyse_lengths d rm c)"
  unfolding analyse_lengths_def
proof (rule delivers_bind [OF scheme_full [OF assms]], clarsimp)
  fix rm1 and c1 :: recorder
  assume c1: "lists_full c1" "g_fault c1 = g_fault c"
  have r: "g_count_3repeats c1 > 40 \<or> g_count_5repeats c1 > 40 \<longrightarrow> g_repeatp c1 \<noteq> [] \<and> g_repeats c1 \<noteq> [] \<and> g_repeat_gap c1 \<noteq> []"
    using c1(1) by (simp add: lists_full_def)
  have l: "delivers (\<lambda>(ok, rm, c'). g_fault c' = g_fault c)
      (eff_bind (get_lead_length rm c1) (\<lambda>(rm, c). eff_bind (get_repeat_length rm c) (\<lambda>(ok, rm). if ok then get_data_length d rm c else Gives (False, rm, c))))" for rm
  proof (rule delivers_bind [OF lead_full [OF c1(1)]], clarify)
    fix rm2 and c2 :: recorder
    assume c2: "g_pulse c2 \<noteq> []" "g_space c2 \<noteq> []" "g_signal_length c2 \<noteq> []" "g_fault c2 = g_fault c1"
      "g_repeatp c2 = g_repeatp c1" "g_repeats c2 = g_repeats c1" "g_repeat_gap c2 = g_repeat_gap c1"
      "g_count_3repeats c2 = g_count_3repeats c1" "g_count_5repeats c2 = g_count_5repeats c1"
    have "delivers (\<lambda>_. True) (get_repeat_length rm2 c2)" using r c2(5-9) by (intro repeat_full) simp
    then show "delivers (\<lambda>(ok, rm, c'). g_fault c' = g_fault c)
        (eff_bind (get_repeat_length rm2 c2) (\<lambda>(ok, rm). if ok then get_data_length d rm c2 else Gives (False, rm, c2)))"
      using data_full [OF c2(1-3)] c2(4) c1(2) by (auto elim!: delivers_bind)
  qed
  show "delivers (\<lambda>(ok, rm, c'). g_fault c' = g_fault c)
     (eff_bind (get_header_length rm1 c1) (\<lambda>rm. eff_bind (get_trail_length rm c1) (\<lambda>rm. eff_bind (get_lead_length rm c1) (\<lambda>(rm, c).
       eff_bind (get_repeat_length rm c) (\<lambda>(ok, rm). if ok then get_data_length d rm c else Gives (False, rm, c))))))"
    by (intro delivers_bind [OF header_full [OF c1(1)]] delivers_bind [OF trail_full [OF c1(1)]] l)
qed

section \<open>A sample\<close>

text \<open>Lists and arrays are in order, and the signal being read fits into its array.\<close>

definition record_ok :: "int \<Rightarrow> lengths_state \<Rightarrow> recorder \<Rightarrow> bool" where
  "record_ok b s c \<longleftrightarrow> lists_ok b c \<and> arrays_ok c \<and> (ls_have_gap s \<longrightarrow> 0 \<le> ls_count s \<and> ls_count s \<le> 200)"

lemma lists_later: "lists_ok b c \<Longrightarrow> lists_ok (b + 1) c"
  by (auto simp: lists_ok_def Let_def)

lemma signal_counted:
  assumes "lists_ok b c" "b < 10 ^ 7" "ls_count s \<le> 200" "arrays_ok c" "count_signal s c = (s', c')"
  shows "lists_ok (b + 1) c' \<and> arrays_ok c' \<and> ls_count s' = 0"
proof -
  let ?s = "s\<lparr>ls_keypresses := ls_keypresses s + 1\<rparr>"
  let ?c = "c\<lparr>g_count_signals := u32 (g_count_signals c + 1)\<rparr>"
  have a: "arrays_ok (compute_lengths_4_signals (c\<lparr>g_count_3repeats := x\<rparr>))"
    "arrays_ok (compute_lengths_6_signals (c\<lparr>g_count_5repeats := x\<rparr>))" for x
    using assms(4) by (simp_all add: arrays_ok_def four_signals_eq six_signals_eq)
  have len: "length (g_signals c) = MAX_SIGNALS" using assms(4) by (simp add: arrays_ok_def)
  obtain t d where m: "compute_lengths_many_signals ?s ?c = (t, d)" by force
  have "lists_ok (b + 1) d \<and> arrays_ok d" if "6 < ls_count s"
    using many_signals_ok [OF assms(1,2) _ _ assms(4) m] that assms(3) by simp
  then show ?thesis
    using assms(1,4,5) a lists_repeat [OF assms(1,2) len] lists_later [OF assms(1)] m
    by (auto simp: count_signal_def Let_def split: if_splits)
qed

definition sampled :: "int \<Rightarrow> lengths_status \<times> lengths_state \<times> ir_remote \<times> recorder \<Rightarrow> bool" where
  "sampled b = (\<lambda>(st, s, rm, c). \<not> g_fault c \<and> (st \<in> {STS_LEN_OK, STS_LEN_FAIL, STS_LEN_TOO_LONG} \<or> record_ok b s c))"

lemma measure_ok:
  assumes "lists_ok b c" "b < 10 ^ 7" "arrays_ok c" "1 \<le> ls_count s" "ls_count s \<le> 201" "ls_have_gap s"
  shows "delivers (sampled (b + 1)) (measure_signal d s rm c)"
proof (cases "ls_count s = 1 \<and> is_space (ls_data s) \<or> ls_count s > 200")
  case True
  have "\<not> g_fault c" using assms(3) by (simp add: arrays_ok_def)
  then show ?thesis using True lists_later [OF assms(1)] assms(3) by (auto simp: measure_signal_def sampled_def record_ok_def Let_def)
next
  case False
  let ?v = "ls_data s AND PULSE_MASK"
  define c1 where "c1 = write_signal (ls_count s - 1) ?v c"
  have w: "c1 = c\<lparr>g_signals := (g_signals c)[nat (ls_count s - 1) := ?v]\<rparr>"
    unfolding c1_def using False assms(3,4) by (intro write_inside) (auto simp: arrays_ok_def)
  define s1 where "s1 = s\<lparr>ls_remaining_gap := gap_rest rm (ls_sum s), ls_sum := i32 (ls_sum s + ?v)\<rparr>"
  obtain s2 c2 where cs: "(if is_space (ls_data s1) then count_signal s1 c1 else (s1, c1)) = (s2, c2)" by force
  have c1: "lists_ok b c1" "arrays_ok c1" using assms(1,3) by (simp_all add: w lists_ok_def arrays_ok_def)
  have n: "ls_count s1 \<le> 200" "0 \<le> ls_count s1" using False assms(4) by (auto simp: s1_def)
  have c2: "lists_ok (b + 1) c2" "arrays_ok c2" "0 \<le> ls_count s2" "ls_count s2 \<le> 200"
    using cs signal_counted [OF c1(1) assms(2) n(1) c1(2), of s2 c2] lists_later [OF c1(1)] c1(2) n by (auto split: if_splits)
  have f: "\<not> g_fault c1" "\<not> g_fault c2" using c1(2) c2(2) by (simp_all add: arrays_ok_def)
  have an: "delivers (\<lambda>(ok, rm, c). \<not> g_fault c) (analyse_lengths d rm c2)" if "g_count_signals c2 \<ge> SAMPLES"
    using analyse_full [OF lists_filled [OF c2(1)], of d rm] that assms(2) f by (auto elim!: delivers_mono)
  have nf: "(ls_count s = 1 \<and> is_space (ls_data s)) = False" "(ls_count s > 200) = False" using False by auto
  have m: "measure_signal d s rm c =
      (if \<not> (ls_count s1 > 2 \<and> reaches_gap c1 ?v (ls_remaining_gap s1)) then Gives (STS_LEN_AGAIN, s1, rm, c1)
       else if is_pulse (ls_data s1) then Gives (STS_LEN_NO_GAP_FOUND, s1, rm\<lparr>gap := 0\<rparr>, c1)
       else if g_count_signals c2 \<ge> SAMPLES then
         eff_bind (analyse_lengths d rm c2) (\<lambda>(ok, rm, c).
           let s = (if ok then s2 else s2\<lparr>ls_retval := 0\<rparr>)
           in Gives (if ls_retval s = 0 then STS_LEN_FAIL else STS_LEN_OK, s, rm, c))
       else if within_gap c2 ?v (i32 (ls_remaining_gap s2 + ls_header s2))
       then Gives (STS_LEN_AGAIN, s2\<lparr>ls_first_signal := 0, ls_header := 0\<rparr>, rm, c2)
       else Gives (STS_LEN_AGAIN, s2\<lparr>ls_first_signal := 1\<rparr>, rm, c2))"
    unfolding measure_signal_def Let_def c1_def [symmetric] s1_def [symmetric] cs prod.case nf if_False by (rule refl)
  show ?thesis unfolding m
    using c1 c2 n f lists_later [OF c1(1)]
    by (intro delivers_if delivers_bind [OF an]) (auto simp: sampled_def record_ok_def Let_def)
qed

text \<open>While the gap is searched for, only the lists of sums and gaps change.\<close>

lemma gap_seen_ok:
  assumes "lists_ok b c" "arrays_ok c" "\<not> ls_have_gap s"
  shows "sampled (b + 1) (gap_seen force s rm c)"
proof -
  have l: "lists_ok b (c\<lparr>g_sum := x, g_gap := y, g_count_spaces := z\<rparr>) = lists_ok b c" "lists_ok b (c\<lparr>g_lastmaxcount := z\<rparr>) = lists_ok b c"
    "arrays_ok (c\<lparr>g_sum := x, g_gap := y, g_count_spaces := z\<rparr>) = arrays_ok c" "arrays_ok (c\<lparr>g_lastmaxcount := z\<rparr>) = arrays_ok c" for b c x y z
    by (simp_all add: lists_ok_def arrays_ok_def)
  have "\<not> g_fault c" using assms(2) by (simp add: arrays_ok_def)
  then show ?thesis
    using assms lists_later [OF assms(1)] unfolding gap_seen_def Let_def
    by (auto simp: sampled_def record_ok_def l split: prod.split option.split)
qed

lemma search_ok:
  assumes "lists_ok b c" "arrays_ok c" "\<not> ls_have_gap s"
  shows "sampled (b + 1) (search_gap force s rm c)"
proof -
  have l: "lists_ok b (c\<lparr>g_count_spaces := z\<rparr>) = lists_ok b c" "arrays_ok (c\<lparr>g_count_spaces := z\<rparr>) = arrays_ok c" for b c z
    by (simp_all add: lists_ok_def arrays_ok_def)
  have f: "\<not> g_fault c" using assms(2) by (simp add: arrays_ok_def)
  then show ?thesis
    using assms lists_later [OF assms(1)] gap_seen_ok [OF assms(1,2)] unfolding search_gap_def Let_def
    by (simp add: sampled_def record_ok_def l)
qed

text \<open>The invariant is kept by every sample, and no sample dereferences NULL.\<close>

lemma get_lengths_ok:
  assumes "record_ok b s c" "b < 10 ^ 7"
  shows "delivers (sampled (b + 1)) (get_lengths d force x s rm c)"
proof -
  have i: "lists_ok b c" "arrays_ok c" "ls_have_gap s \<Longrightarrow> 0 \<le> ls_count s \<and> ls_count s \<le> 200" "\<not> g_fault c"
    using assms(1) by (auto simp: record_ok_def arrays_ok_def)
  have k: "sampled (b + 1) (st, s\<lparr>ls_data := x, ls_retval := y\<rparr>, rm, c)" "sampled (b + 1) (st, s\<lparr>ls_data := x\<rparr>, rm, c)" for st y
    using i lists_later [OF i(1)] by (auto simp: sampled_def record_ok_def)
  show ?thesis
    unfolding get_lengths_def Let_def
    using k measure_ok [OF i(1) assms(2) i(2), of "s\<lparr>ls_data := x, ls_count := ls_count s + 1\<rparr>" d rm] i(3)
      search_ok [OF i(1,2), of "s\<lparr>ls_data := x, ls_count := ls_count s + 1\<rparr>" force rm]
    by auto
qed

lemma record_start: "lengths_state_init (recorder_start ep ae) = (s, c) \<Longrightarrow> record_ok 0 s c"
  by (auto simp: lengths_state_init_def recorder_start_def record_ok_def lists_ok_def arrays_ok_def counts_def)

end
