(* ===== verification/Record_Emulate.thy ===== *)
theory Record_Emulate
  imports Record_Analyse
begin

text \<open>
  \<open>lib/irrecord.c\<close>: the samples of \<open>irrecord --analyse\<close>, which come from the codes of a raw remote instead of a
  driver, and the loop that feeds them to \<open>get_lengths\<close>.
\<close>

section \<open>The emulated driver\<close>

text \<open>The pointers \<open>next_code\<close> and \<open>current_code\<close> are indices into the codes of \<open>emulation_data\<close>.\<close>

record emulation =
  em_next :: "nat option"
  em_current :: "nat option"
  em_index :: nat
  em_rep :: int
  em_sum :: lirc_t

text \<open>The button at an index; behind the last one is the end mark, which has no signals.\<close>

definition emu_codes :: "ir_remote \<Rightarrow> ir_ncode list" where
  "emu_codes rd = (case codes rd of None \<Rightarrow> [] | Some cs \<Rightarrow> cs)"

definition emu_code :: "ir_remote \<Rightarrow> nat \<Rightarrow> ir_ncode" where
  "emu_code rd i = (if i < length (emu_codes rd) then emu_codes rd ! i else zero_ncode)"

definition emu_signal :: "ir_ncode \<Rightarrow> nat \<Rightarrow> lirc_t" where
  "emu_signal nc k = (case signals nc of Some xs \<Rightarrow> if k < length xs then xs ! k else 0 | None \<Rightarrow> 0)"

text \<open>Without a current code: a long space, and the first code or the one wanted.\<close>

definition emu_start :: "emulation \<Rightarrow> lirc_t \<times> emulation" where
  "emu_start e = (1000000, e\<lparr>em_current := Some (case em_next e of Some i \<Rightarrow> i | None \<Rightarrow> 0), em_rep := 0, em_sum := 0\<rparr>)"

text \<open>Behind the last signal of a code: the code wanted, the same again, or after three times the next one.
  The result is the new code, the count of repetitions and whether a long space comes first.\<close>

definition emu_advance :: "emulation \<Rightarrow> nat \<Rightarrow> nat \<times> int \<times> bool" where
  "emu_advance e i = (case em_next e of
     Some k \<Rightarrow> (k, em_rep e, False)
   | None \<Rightarrow> if em_rep e + 1 > 2 then (i + 1, 0, True) else (i, em_rep e + 1, False))"

definition emulation_readdata :: "ir_remote \<Rightarrow> emulation \<Rightarrow> lirc_t \<times> emulation" where
  "emulation_readdata rd e = (case em_current e of
     None \<Rightarrow> emu_start e
   | Some i \<Rightarrow>
       (let nc = emu_code rd i
        in if em_index e \<ge> nlength nc then
             (let (j, rep, jump) = emu_advance e i
              in if j \<ge> length (emu_codes rd)
                 then emu_start (e\<lparr>em_current := None, em_index := 0, em_rep := rep\<rparr>)
                 else (if jump then 1000000 else if is_const rd then i32 (gap rd - u32 (em_sum e)) else i32 (gap rd),
                       e\<lparr>em_current := Some j, em_index := 0, em_rep := rep, em_sum := 0\<rparr>))
           else
             (let x = emu_signal nc (em_index e);
                  x = (if em_index e mod 2 = 0 then x OR PULSE_BIT else x)
              in (x, e\<lparr>em_index := em_index e + 1, em_sum := i32 (em_sum e + (x AND PULSE_MASK))\<rparr>))))"

section \<open>The loop\<close>

text \<open>\<open>get_lengths\<close> is called while it asks for more. The loop may go on for ever: \<open>n\<close> is the number of calls
  that are followed, and the status \<open>STS_LEN_AGAIN\<close> says that the loop was still running.\<close>

definition wants_more :: "lengths_status \<Rightarrow> bool" where
  "wants_more st \<longleftrightarrow> st \<in> {STS_LEN_AGAIN, STS_LEN_AGAIN_INFO}"

fun analyse_get_lengths :: "nat \<Rightarrow> driver \<Rightarrow> ir_remote \<Rightarrow> emulation \<Rightarrow> lengths_state \<Rightarrow> ir_remote \<Rightarrow> recorder
    \<Rightarrow> (lengths_status \<times> ir_remote \<times> recorder) effect" where
  "analyse_get_lengths 0 d rd e s rm c = Gives (STS_LEN_AGAIN, rm, c)"
| "analyse_get_lengths (Suc n) d rd e s rm c =
     (let (x, e) = emulation_readdata rd e
      in eff_bind (get_lengths d False x s rm c) (\<lambda>(st, s, rm, c).
           if wants_more st then analyse_get_lengths n d rd e s rm c else Gives (st, rm, c)))"

text \<open>The beginning of \<open>analyse_remote\<close>: the tolerances are those of the raw remote, the histograms and \<open>lengths\<close>
  are what an earlier analysis left. The result is False when the remote is not raw or the analysis fails.\<close>

definition analyse_start :: "emulation" where
  "analyse_start = \<lparr>em_next = None, em_current = None, em_index = 0, em_rep = 0, em_sum = 0\<rparr>"

definition analyse_remote_lengths :: "nat \<Rightarrow> driver \<Rightarrow> ir_remote \<Rightarrow> recorder \<Rightarrow> (bool \<times> ir_remote \<times> recorder) effect" where
  "analyse_remote_lengths n d rd c =
     (if \<not> is_raw rd then Gives (False, zero_remote, c)
      else (let c = c\<lparr>g_eps := eps rd, g_aeps := aeps rd\<rparr>;
                (s, c) = lengths_state_init c
            in eff_bind (analyse_get_lengths n d rd analyse_start s zero_remote c) (\<lambda>(st, rm, c).
                 if st = STS_LEN_OK then
                   Gives (True, (if is_rc6 rm \<and> bits rm \<ge> 5 then rm\<lparr>rc6_mask := shl 1 (bits rm - 5)\<rparr> else rm)
                     \<lparr>rname := rname rd, freq := freq rd\<rparr>, c)
                 else Gives (False, rm, c))))"

end
