(* ===== verification/Record_Histogram.thy ===== *)
theory Record_Histogram
  imports Record_Lengths_Facts
begin

text \<open>
  The histogram of ideal samples. When the durations of a remote are further apart than the tolerance, every
  duration has an item of its own, with the exact number of its samples.
\<close>

text \<open>The values of a list, in the order in which they come first.\<close>

definition firsts :: "'a list \<Rightarrow> 'a list" where
  "firsts xs = rev (remdups (rev xs))"

lemma firsts_simps [simp]: "firsts [] = []" "firsts (xs @ [x]) = (if x \<in> set xs then firsts xs else firsts xs @ [x])"
  by (simp_all add: firsts_def)

lemma set_firsts [simp]: "set (firsts xs) = set xs"
  by (simp add: firsts_def)

lemma distinct_firsts: "distinct (firsts xs)"
  by (simp add: firsts_def)

text \<open>\<open>n\<close> samples of the duration \<open>v\<close>.\<close>

definition exact_item :: "nat \<Rightarrow> lirc_t \<Rightarrow> lengths_item" where
  "exact_item n v = \<lparr>ln_count = int n, ln_sum = int n * v, ln_upper = v div 100 * 100 + 99, ln_lower = v div 100 * 100,
     ln_min = v, ln_max = v\<rparr>"

text \<open>Different durations are not taken for the same.\<close>

definition apart :: "int \<Rightarrow> lirc_t list \<Rightarrow> bool" where
  "apart ae xs \<longleftrightarrow> (\<forall>v \<in> set xs. \<forall>w \<in> set xs. v < w \<longrightarrow> v + 100 \<le> w \<and> v + 2 * ae < w)"

definition durations :: "lirc_t list \<Rightarrow> bool" where
  "durations xs \<longleftrightarrow> list_all (\<lambda>v. 0 < v \<and> v < 2 ^ 24) xs \<and> sum_list xs < 2 ^ 31 \<and> int (length xs) < 2 ^ 31"

definition histogram :: "lirc_t list \<Rightarrow> lengths_item list" where
  "histogram xs = map (\<lambda>v. exact_item (count_list xs v) v) (firsts xs)"

lemma exact_ok: "0 \<le> v \<Longrightarrow> 0 < n \<Longrightarrow> item_ok (exact_item n v)"
proof -
  assume "0 \<le> v" "0 < n"
  moreover have "v div 100 * 100 \<le> v" "v \<le> v div 100 * 100 + 99"
    using pos_mod_sign [of 100 v] pos_mod_bound [of 100 v] div_mult_mod_eq [of v 100] by linarith+
  ultimately show ?thesis by (simp add: item_ok_def exact_item_def)
qed

lemma calc_exact: "0 \<le> v \<Longrightarrow> 0 < n \<Longrightarrow> int n * v < 2 ^ 31 \<Longrightarrow> calc_signal (exact_item n v) = v"
proof -
  assume a: "0 \<le> v" "0 < n" "int n * v < 2 ^ 31"
  have "1 * v \<le> int n * v" using a(1,2) by (intro mult_right_mono) auto
  then have v: "v < 2 ^ 31" using a(3) by linarith
  have "0 \<le> int n * v" using a(1) by simp
  then have "u32 (int n * v) = int n * v" using a(3) by (intro u32_id) auto
  then show ?thesis using a v by (simp add: calc_signal_def exact_item_def i32_id)
qed

lemma exact_sums: "ln_sum (exact_item n v) = int n * v" "ln_count (exact_item n v) = int n"
  by (simp_all add: exact_item_def)

section \<open>Nothing is merged\<close>

lemma merge_into_none: "\<forall>i \<in> set is. \<not> mergeable ep ae l i \<Longrightarrow> merge_into ep ae l is = (l, is)"
  by (induction "is") auto

lemma merge_lengths_none: "sorted_wrt (\<lambda>l i. \<not> mergeable ep ae l i) ls \<Longrightarrow> merge_lengths ep ae ls = ls"
  by (induction ls) (simp_all add: merge_into_none)

lemma exact_apart:
  assumes "0 < v" "0 < w" "v < 2 ^ 24" "w < 2 ^ 24" "0 < m" "0 < n" "int m * v + int n * w < 2 ^ 31" "int m + int n < 2 ^ 31"
    "0 \<le> ep" "ep < 99" "0 \<le> ae" "ae < 2 ^ 30" "v + 2 * ae < w \<or> w + 2 * ae < v"
  shows "\<not> mergeable ep ae (exact_item m v) (exact_item n w)"
proof -
  let ?avg = "(int m * v + int n * w) div (int m + int n)"
  have "1 * (int m + int n) \<le> int m * v + int n * w"
    using assms(1,2) mult_left_mono [of 1 v "int m"] mult_left_mono [of 1 w "int n"] by simp
  then have pos: "0 < ?avg" using assms(5,6) by (simp add: pos_imp_zdiv_pos_iff)
  have "mergeable ep ae (exact_item m v) (exact_item n w) = within_aeps ae (exact_item m v) (exact_item n w)"
    using assms pos by (intro mergeable_absolute exact_ok) (simp_all add: exact_item_def)
  then show ?thesis using assms(13) by (auto simp: within_aeps_def exact_item_def Let_def)
qed

lemma item_le_total: "list_all item_ok ls \<Longrightarrow> l \<in> set ls \<Longrightarrow> ln_sum l \<le> total_sum ls \<and> ln_count l \<le> total_count ls"
proof (induction ls)
  case Nil
  then show ?case by simp
next
  case (Cons a ls)
  then show ?case using totals_nonneg [of ls] item_sum [of a] item_count [of a] by auto
qed

text \<open>A list of items for different durations.\<close>

lemma exact_merge:
  assumes "distinct vs" "\<And>v. v \<in> set vs \<Longrightarrow> 0 < v \<and> v < 2 ^ 24 \<and> 0 < c v" "apart ae vs"
    "total_sum (map (\<lambda>v. exact_item (c v) v) vs) < 2 ^ 31" "total_count (map (\<lambda>v. exact_item (c v) v) vs) < 2 ^ 31"
    "0 \<le> ep" "ep < 99" "0 \<le> ae" "ae < 2 ^ 30"
  shows "merge_lengths ep ae (map (\<lambda>v. exact_item (c v) v) vs) = map (\<lambda>v. exact_item (c v) v) vs"
  using assms(1-5)
proof (induction vs)
  case Nil
  then show ?case by simp
next
  case (Cons v vs)
  let ?f = "\<lambda>v. exact_item (c v) v"
  have all: "list_all item_ok (map ?f vs)" using Cons.prems(2) by (auto simp: list_all_iff intro!: exact_ok less_imp_le)
  have l: "0 \<le> total_sum (map ?f vs)" "0 \<le> total_count (map ?f vs)" using totals_nonneg [OF all] by auto
  have h: "0 \<le> int (c v) * v" "0 < v" "v < 2 ^ 24" "0 < c v" using Cons.prems(2) [of v] by auto
  have "\<not> mergeable ep ae (?f v) (?f w)" if w: "w \<in> set vs" for w
  proof -
    have "ln_sum (?f w) \<le> total_sum (map ?f vs)" "ln_count (?f w) \<le> total_count (map ?f vs)"
      using item_le_total [OF all, of "?f w"] w by auto
    then have "int (c v) * v + int (c w) * w < 2 ^ 31" "int (c v) + int (c w) < 2 ^ 31"
      using Cons.prems(4,5) by (auto simp: exact_item_def)
    moreover have "v \<noteq> w" using Cons.prems(1) w by auto
    then have "v + 2 * ae < w \<or> w + 2 * ae < v" using Cons.prems(3) w by (cases "v < w") (auto simp: apart_def)
    ultimately show ?thesis using Cons.prems(2) [of w] w h assms(6-9) by (intro exact_apart) auto
  qed
  then have "merge_into ep ae (?f v) (map ?f vs) = (?f v, map ?f vs)" by (intro merge_into_none) auto
  moreover have "merge_lengths ep ae (map ?f vs) = map ?f vs"
  proof (rule Cons.IH)
    show "apart ae vs" using Cons.prems(3) by (simp add: apart_def)
    show "total_sum (map ?f vs) < 2 ^ 31" using Cons.prems(4) h(1) by (simp add: exact_sums)
    show "total_count (map ?f vs) < 2 ^ 31" using Cons.prems(5) by (simp add: exact_sums)
  qed (use Cons.prems(1,2) in auto)
  ultimately show ?case by simp
qed

section \<open>A sample is counted\<close>

lemma bucket: "0 < v \<Longrightarrow> 0 < w \<Longrightarrow> v + 100 \<le> w \<or> w + 100 \<le> v \<Longrightarrow> \<not> (v div 100 * 100 \<le> w \<and> w \<le> v div 100 * 100 + (99 :: int))"
  using pos_mod_sign [of 100 v] pos_mod_bound [of 100 v] div_mult_mod_eq [of v 100] by linarith

lemma own_bucket: "v div 100 * 100 \<le> v \<and> v \<le> v div 100 * 100 + (99 :: int)"
  using pos_mod_sign [of 100 v] pos_mod_bound [of 100 v] div_mult_mod_eq [of v 100] by linarith

lemma new_exact: "0 < v \<Longrightarrow> new_length v = exact_item 1 v"
  by (simp add: new_length_def exact_item_def sdiv_nonneg)

lemma count_exact: "0 < v \<Longrightarrow> int n + 1 < 2 ^ 31 \<Longrightarrow> int n * v + v < 2 ^ 31 \<Longrightarrow> count_length v (exact_item n v) = exact_item (n + 1) v"
proof -
  assume a: "0 < v" "int n + 1 < 2 ^ 31" "int n * v + v < 2 ^ 31"
  have "0 \<le> int n * v" using a(1) by simp
  then have "0 \<le> int n * v + v" using a(1) by linarith
  then have "i32 (int n * v + v) = int n * v + v" using a(3) by (intro i32_id) simp_all
  moreover have "u32 (int n + 1) = int n + 1" using a(2) by (simp add: u32_id)
  ultimately show ?thesis by (simp add: count_length_def exact_item_def algebra_simps)
qed

lemma add_exact:
  assumes "0 < x" "distinct vs" "\<And>v. v \<in> set vs \<Longrightarrow> 0 < v" "apart ae (x # vs)" "int (c x) + 1 < 2 ^ 31" "int (c x) * x + x < 2 ^ 31"
  shows "add_length x (map (\<lambda>v. exact_item (c v) v) vs) =
    (if x \<in> set vs then map (\<lambda>v. exact_item ((c(x := c x + 1)) v) v) vs
     else map (\<lambda>v. exact_item (c v) v) vs @ [exact_item 1 x])"
  using assms(2-4)
proof (induction vs)
  case Nil
  then show ?case using assms(1) by (simp add: new_exact)
next
  case (Cons v vs)
  show ?case
  proof (cases "v = x")
    case True
    have "map (\<lambda>v. exact_item ((c(x := c x + 1)) v) v) vs = map (\<lambda>v. exact_item (c v) v) vs"
      using Cons.prems(1) True by auto
    then show ?thesis using True own_bucket [of x] count_exact [OF assms(1,5,6)] by (simp add: exact_item_def)
  next
    case False
    have "0 < v" using Cons.prems(2) by simp
    moreover have "v + 100 \<le> x \<or> x + 100 \<le> v" using Cons.prems(3) False by (cases "v < x") (auto simp: apart_def)
    ultimately have "\<not> (ln_lower (exact_item (c v) v) \<le> x \<and> x \<le> ln_upper (exact_item (c v) v))"
      using bucket [of v x] assms(1) by (simp add: exact_item_def)
    moreover have "apart ae (x # vs)" using Cons.prems(3) by (simp add: apart_def)
    ultimately show ?thesis using Cons.IH Cons.prems(1,2) False by auto
  qed
qed

section \<open>The histogram\<close>

lemma totals_append: "total_sum (xs @ ys) = total_sum xs + total_sum ys" "total_count (xs @ ys) = total_count xs + total_count ys"
  by (simp_all add: total_sum_def total_count_def)

lemma histogram_counted:
  assumes "durations xs" "apart ae xs" "0 \<le> ep" "ep < 99" "0 \<le> ae" "ae < 2 ^ 30"
  shows "fold (count_duration ep ae) xs [] = histogram xs \<and> total_sum (histogram xs) = sum_list xs
    \<and> total_count (histogram xs) = int (length xs)"
  using assms(1,2)
proof (induction xs rule: rev_induct)
  case Nil
  then show ?case by (simp add: histogram_def)
next
  case (snoc x xs)
  have nn: "0 \<le> sum_list xs" using snoc.prems(1) by (auto simp: durations_def list_all_iff intro!: sum_list_nonneg)
  have d: "durations xs" "apart ae xs" "0 < x" "x < 2 ^ 24" "\<And>v. v \<in> set xs \<Longrightarrow> 0 < v \<and> v < 2 ^ 24"
    using snoc.prems by (auto simp: durations_def apart_def list_all_iff)
  have ih: "fold (count_duration ep ae) xs [] = histogram xs" "total_sum (histogram xs) = sum_list xs"
    "total_count (histogram xs) = int (length xs)" using snoc.IH [OF d(1,2)] by auto
  let ?c = "count_list xs"
  let ?f = "\<lambda>v. exact_item (?c v) v"
  have pos: "0 < ?c v" if "v \<in> set xs" for v using that count_list_0_iff [of xs v] by auto
  have all: "list_all item_ok (histogram xs)" using d(5) pos by (auto simp: histogram_def list_all_iff intro!: exact_ok less_imp_le)
  have le: "int (?c v) \<le> int (length xs) \<and> int (?c v) * v \<le> sum_list xs" if "v \<in> set xs" for v
  proof -
    have "ln_sum (?f v) \<le> total_sum (histogram xs)" "ln_count (?f v) \<le> total_count (histogram xs)"
      using item_le_total [OF all, of "?f v"] that by (auto simp: histogram_def)
    then show ?thesis by (simp add: ih exact_item_def)
  qed
  have cx: "int (?c x) + 1 < 2 ^ 31" "int (?c x) * x + x < 2 ^ 31"
    using snoc.prems(1) le [of x] nn by (cases "x \<in> set xs"; simp add: durations_def count_notin)+
  have hok: "hist_ok (histogram xs)" using all ih(2,3) d(1) by (simp add: hist_ok_def durations_def)
  have ad: "add_length x (histogram xs) = histogram (xs @ [x])"
  proof -
    have "apart ae (x # firsts xs)" using snoc.prems(2) by (simp add: apart_def)
    then have a: "add_length x (histogram xs) = (if x \<in> set xs then map (\<lambda>v. exact_item ((?c(x := ?c x + 1)) v) v) (firsts xs)
       else map ?f (firsts xs) @ [exact_item 1 x])"
      unfolding histogram_def using add_exact [of x "firsts xs" ae ?c] d cx by (simp add: distinct_firsts)
    show ?thesis unfolding a by (cases "x \<in> set xs") (auto simp: histogram_def count_notin)
  qed
  have t: "total_sum (histogram (xs @ [x])) = sum_list (xs @ [x])" "total_count (histogram (xs @ [x])) = int (length (xs @ [x]))"
    using add_length_ok [of x "histogram xs"] all ih d(3) snoc.prems(1) by (simp_all add: ad durations_def)
  have h: "histogram (xs @ [x]) = map (\<lambda>v. exact_item (count_list (xs @ [x]) v) v) (firsts (xs @ [x]))"
    by (rule histogram_def)
  have "merge_lengths ep ae (histogram (xs @ [x])) = histogram (xs @ [x])"
    unfolding h
  proof (rule exact_merge)
    show "distinct (firsts (xs @ [x]))" by (rule distinct_firsts)
    show "apart ae (firsts (xs @ [x]))" using snoc.prems(2) by (simp add: apart_def)
    show "0 < v \<and> v < 2 ^ 24 \<and> 0 < count_list (xs @ [x]) v" if "v \<in> set (firsts (xs @ [x]))" for v
      using that d(3-5) pos by (cases "v \<in> set xs") (auto simp del: firsts_simps)
    show "total_sum (map (\<lambda>v. exact_item (count_list (xs @ [x]) v) v) (firsts (xs @ [x]))) < 2 ^ 31"
      using t(1) snoc.prems(1) unfolding h [symmetric] durations_def by (simp only:)
    show "total_count (map (\<lambda>v. exact_item (count_list (xs @ [x]) v) v) (firsts (xs @ [x]))) < 2 ^ 31"
      using t(2) snoc.prems(1) unfolding h [symmetric] durations_def by (simp only:)
  qed (rule assms)+
  moreover have "fold (count_duration ep ae) (xs @ [x]) [] = count_duration ep ae x (histogram xs)" by (simp add: ih(1))
  ultimately show ?case using t ad by (simp add: count_duration_def [of ep ae x])
qed

end
