(* ===== verification/Record_Buttons.thy ===== *)
theory Record_Buttons
  imports Record_Data Record_State
begin

text \<open>
  \<open>lib/irrecord.c\<close>, the interactive part: the gap of a remote, its toggle bit and its buttons are found one key
  press at a time. What the hardware and the user do is an argument of the functions.
\<close>

section \<open>The gap\<close>

datatype gap_status = STS_GAP_INIT | STS_GAP_TIMEOUT | STS_GAP_FOUND | STS_GAP_GOT_ONE_PRESS | STS_GAP_AGAIN

record gap_state =
  gs_gaps :: "lengths_item list"
  gs_last :: timeval
  gs_flag :: bool
  gs_maxcount :: int
  gs_lastmaxcount :: int
  gs_gap :: lirc_t

definition gap_state_init :: gap_state where
  "gap_state_init = \<lparr>gs_gaps = [], gs_last = zero_timeval, gs_flag = False, gs_maxcount = 0, gs_lastmaxcount = 0, gs_gap = 0\<rparr>"

text \<open>The start and the end of a signal, or None when none came within ten seconds.\<close>

definition get_gap_length :: "recorder \<Rightarrow> (timeval \<times> timeval) option \<Rightarrow> gap_state \<Rightarrow> ir_remote
    \<Rightarrow> gap_status \<times> gap_state \<times> ir_remote" where
  "get_gap_length c inp s rm = (case inp of
     None \<Rightarrow> (STS_GAP_TIMEOUT, s\<lparr>gs_gaps := []\<rparr>, rm)
   | Some (start, fin) \<Rightarrow>
       (if gs_flag s then
          (let g = i32 (time_elapsed (gs_last s) start);
               ls = tally c g (gs_gaps s);
               (m, found) = scan_items 0 ls;
               s = s\<lparr>gs_gap := g, gs_gaps := ls, gs_maxcount := m\<rparr>
           in case found of
                Some l \<Rightarrow> (STS_GAP_FOUND, s\<lparr>gs_gaps := []\<rparr>, rm\<lparr>gap := u32 (calc_signal l)\<rparr>)
              | None \<Rightarrow>
                  (if m > gs_lastmaxcount s then (STS_GAP_GOT_ONE_PRESS, s\<lparr>gs_lastmaxcount := m\<rparr>, rm)
                   else (STS_GAP_AGAIN, s\<lparr>gs_last := fin\<rparr>, rm)))
        else (STS_GAP_AGAIN, s\<lparr>gs_flag := True, gs_last := fin\<rparr>, rm)))"

section \<open>The toggle bit\<close>

datatype toggle_status = STS_TGL_TIMEOUT | STS_TGL_GOT_ONE_PRESS | STS_TGL_NOT_FOUND | STS_TGL_FOUND | STS_TGL_AGAIN

record toggle_state =
  tg_retries :: int
  tg_flag :: bool
  tg_success :: bool
  tg_first :: ir_code
  tg_last :: ir_code
  tg_seq :: int
  tg_repeats :: int
  tg_found :: bool

definition toggle_state_init :: toggle_state where
  "toggle_state_init = \<lparr>tg_retries = 30, tg_flag = False, tg_success = False, tg_first = 0, tg_last = 0, tg_seq = 0,
     tg_repeats = 0, tg_found = False\<rparr>"

text \<open>The driver's \<open>decode_func\<close> on the signal just received; it may change the remote.\<close>

type_synonym try_decode = "ir_remote \<Rightarrow> decode_ctx \<Rightarrow> bool \<times> decode_ctx \<times> ir_remote"

text \<open>The masks of RC-6 are tried from the lowest bit up.\<close>

fun try_rc6 :: "nat \<Rightarrow> try_decode \<Rightarrow> ir_code \<Rightarrow> ir_remote \<Rightarrow> decode_ctx \<Rightarrow> bool \<times> decode_ctx \<times> ir_remote" where
  "try_rc6 0 dec m rm ctx = (False, ctx, rm)"
| "try_rc6 (Suc n) dec m rm ctx =
     (let (ok, ctx, rm) = dec (rm\<lparr>rc6_mask := m\<rparr>) ctx
      in if ok then (True, ctx, rm) else try_rc6 n dec (shl m 1) rm ctx)"

text \<open>With a bit count of 0 the loop does not run and \<open>success\<close> is that of the call before.\<close>

definition decode_toggle :: "try_decode \<Rightarrow> bool \<Rightarrow> ir_remote \<Rightarrow> bool \<times> decode_ctx \<times> ir_remote" where
  "decode_toggle dec before rm =
     (let gaps = (\<lambda>(ok, ctx, rm). (ok, ctx,
            rm\<lparr>min_remaining_gap := ctx_min_remaining_gap ctx, max_remaining_gap := ctx_max_remaining_gap ctx\<rparr>))
      in if is_rc6 rm \<and> rc6_mask rm = 0 then
           (let (ok, ctx, rm') = try_rc6 (nat (bits rm)) dec 1 rm zero_ctx
            in if ok then gaps (ok, ctx, rm')
               else if bits rm \<le> 0 \<and> before then (True, ctx, rm')
               else (False, ctx, rm'\<lparr>rc6_mask := 0\<rparr>))
         else (let (ok, ctx, rm') = dec rm zero_ctx in if ok then gaps (ok, ctx, rm') else (False, ctx, rm')))"

definition get_toggle_bit_mask :: "bool \<Rightarrow> try_decode \<Rightarrow> toggle_state \<Rightarrow> ir_remote
    \<Rightarrow> toggle_status \<times> toggle_state \<times> ir_remote" where
  "get_toggle_bit_mask ready dec s rm =
     (if tg_retries s \<le> 0 then
        (if \<not> tg_found s then (STS_TGL_NOT_FOUND, s, rm)
         else (STS_TGL_FOUND, s, if tg_seq s > 0 then rm\<lparr>min_repeat := tg_repeats s sdiv tg_seq s\<rparr> else rm))
      else if \<not> ready then (STS_TGL_TIMEOUT, s, rm)
      else
        (let (ok, ctx, rm) = decode_toggle dec (tg_success s) rm;
             s = s\<lparr>tg_success := ok\<rparr>
         in if ok then
              (if tg_flag s \<and> (\<not> ctx_repeat_flag ctx \<or> ctx_code ctx \<noteq> tg_last s) then
                 (let s = s\<lparr>tg_seq := tg_seq s + 1\<rparr>;
                      m = tg_first s XOR ctx_code ctx;
                      (s, rm) = (if \<not> tg_found s \<and> m \<noteq> 0
                        then (s\<lparr>tg_found := True\<rparr>,
                              let rm = set_toggle_bit_mask rm m
                              in if tg_seq s > 0 then rm\<lparr>min_repeat := tg_repeats s sdiv tg_seq s\<rparr> else rm)
                        else (s, rm))
                  in (STS_TGL_GOT_ONE_PRESS, s\<lparr>tg_retries := tg_retries s - 1, tg_last := ctx_code ctx\<rparr>, rm))
               else
                 (let s = (if tg_flag s then s else s\<lparr>tg_flag := True, tg_first := ctx_code ctx\<rparr>)
                  in (STS_TGL_AGAIN, s\<lparr>tg_repeats := tg_repeats s + 1, tg_last := ctx_code ctx\<rparr>, rm)))
            else (STS_TGL_AGAIN, s\<lparr>tg_retries := tg_retries s - 1\<rparr>, rm)))"

section \<open>Buttons\<close>

datatype button_status = STS_BTN_INIT | STS_BTN_GET_NAME | STS_BTN_INIT_DATA | STS_BTN_GET_RAW_DATA | STS_BTN_GET_DATA
  | STS_BTN_GET_TOGGLE_BITS | STS_BTN_RECORD_DONE | STS_BTN_BUTTON_DONE | STS_BTN_BUTTONS_DONE | STS_BTN_ALL_DONE
  | STS_BTN_SOFT_ERROR | STS_BTN_HARD_ERROR | STS_BTN_TIMEOUT

text \<open>The messages, with their arguments.\<close>

datatype button_message = MsgNone | MsgWhitespace | MsgNotAllowed string | MsgNoName string | MsgReset | MsgDecode
  | MsgWrong | MsgBadLength int | MsgTooLong | MsgReopen | MsgNoRemote | MsgReadFailed | MsgBadState button_status

record button_state =
  bs_ncode :: ir_ncode
  bs_message :: button_message
  bs_buffer :: string
  bs_data :: lirc_t
  bs_sum :: lirc_t
  bs_count :: nat
  bs_no_data :: bool

definition button_state_init :: button_state where
  "button_state_init = \<lparr>bs_ncode = zero_ncode, bs_message = MsgNone, bs_buffer = [], bs_data = 0, bs_sum = 0,
     bs_count = 0, bs_no_data = False\<rparr>"

abbreviation (input) soft_error :: "button_message \<Rightarrow> button_state \<Rightarrow> button_status \<times> button_state" where
  "soft_error m s \<equiv> (STS_BTN_SOFT_ERROR, s\<lparr>bs_message := m\<rparr>)"

abbreviation (input) hard_error :: "button_message \<Rightarrow> button_state \<Rightarrow> button_status \<times> button_state" where
  "hard_error m s \<equiv> (STS_BTN_HARD_ERROR, s\<lparr>bs_message := m\<rparr>)"

text \<open>The input map is a table of names and codes that the build generates.\<close>

definition get_input_code :: "(string \<times> int) list \<Rightarrow> string \<Rightarrow> (nat \<times> int) option" where
  "get_input_code tab n = map_option (\<lambda>i. (i, snd (tab ! i))) (find_index (\<lambda>(m, _). strcaseeq n m) tab)"

definition is_in_namespace :: "(string \<times> int) list \<Rightarrow> string \<Rightarrow> bool" where
  "is_in_namespace tab n \<longleftrightarrow> get_input_code tab n \<noteq> None"

definition check_name :: "(string \<times> int) list \<Rightarrow> bool \<Rightarrow> button_state \<Rightarrow> button_status \<times> button_state" where
  "check_name tab disable s =
     (let n = bs_buffer s
      in if CHR '' '' \<in> set n \<or> CHR 0x09 \<in> set n then soft_error MsgWhitespace s
         else if strcaseeq n ''begin'' \<or> strcaseeq n ''end'' then soft_error (MsgNotAllowed n) s
         else if n = [] then (STS_BTN_RECORD_DONE, s)
         else if \<not> disable \<and> \<not> is_in_namespace tab n then soft_error (MsgNoName n) s
         else (STS_BTN_INIT_DATA, s))"

section \<open>A button that is decoded\<close>

text \<open>\<open>tries\<close> are the signals that come, until one is decoded.\<close>

fun first_decoded :: "try_decode list \<Rightarrow> ir_remote \<Rightarrow> decode_ctx \<Rightarrow> bool \<times> decode_ctx \<times> ir_remote" where
  "first_decoded [] rm ctx = (False, ctx, rm)"
| "first_decoded (dec # ds) rm ctx =
     (let (ok, ctx, rm) = dec rm ctx in if ok then (True, ctx, rm) else first_decoded ds rm ctx)"

text \<open>A second signal is looked at for a further code of the button; that is done when it could not be
  decoded. \<open>reset\<close> is the result of \<open>resethw\<close>.\<close>

definition record_decoded :: "bool \<Rightarrow> try_decode list \<Rightarrow> try_decode \<Rightarrow> bool \<Rightarrow> button_state \<Rightarrow> decode_ctx \<Rightarrow> ir_remote
    \<Rightarrow> (button_status \<times> button_state) \<times> decode_ctx \<times> ir_remote" where
  "record_decoded ready tries again reset s ctx rm =
     (if \<not> ready then ((STS_BTN_TIMEOUT, s\<lparr>bs_no_data := True\<rparr>), ctx, rm)
      else
        (let (ok, ctx, rm) = first_decoded tries rm ctx
         in if \<not> ok then (if reset then soft_error MsgDecode s else hard_error MsgReset s, ctx, rm)
            else
              (let nc = (bs_ncode s)\<lparr>nname := bs_buffer s, code := ctx_code ctx\<rparr>;
                   (ok, ctx, rm) = again rm ctx;
                   c2 = ctx_code ctx;
                   (nc, ctx) = (if \<not> ok
                     then (if code nc \<noteq> c2 then nc\<lparr>nexts := [c2]\<rparr> else nc, ctx\<lparr>ctx_code := code nc\<rparr>)
                     else (nc, ctx))
               in ((STS_BTN_BUTTON_DONE, s\<lparr>bs_ncode := nc\<rparr>), ctx, rm))))"

section \<open>A button in raw mode\<close>

definition raw_data_ok :: "ir_remote \<Rightarrow> lirc_t \<Rightarrow> lirc_t \<Rightarrow> bool" where
  "raw_data_ok rm v tot \<longleftrightarrow> is_space v \<and>
     (if is_const rm
      then v > (if gap rm > u32 tot
                then i32 (u32 (gap rm - u32 tot) * u32 (100 - eps rm)) sdiv 100 else 0)
      else u32 v > u32 (gap rm * u32 (100 - eps rm)) div 100)"

text \<open>\<open>smp i\<close> is the sample of the call number \<open>i\<close> of \<open>readdata\<close>, 0 for a timeout. \<open>sg\<close> is the array \<open>signals\<close>.\<close>

function record_raw :: "(nat \<Rightarrow> lirc_t) \<Rightarrow> ir_remote \<Rightarrow> lirc_t list \<Rightarrow> button_state
    \<Rightarrow> (button_status \<times> button_state) \<times> lirc_t list" where
  "record_raw smp rm sg s =
     (if \<not> bs_count s < MAX_SIGNALS then (soft_error MsgTooLong s, sg)
      else
        (let n = bs_count s; s = s\<lparr>bs_data := smp n\<rparr>
         in if n = 0 \<and> bs_data s = 0 then ((STS_BTN_TIMEOUT, s), sg)
            else
              (let s = (if bs_data s = 0 then s\<lparr>bs_data := i32 (gap rm)\<rparr> else s); v = bs_data s
               in if n = 0 then
                    (if is_pulse v \<or> u32 v < u32 (gap rm - u32 (gap rm * eps rm) div 100)
                     then (soft_error MsgWrong (s\<lparr>bs_count := 0\<rparr>), sg)
                     else record_raw smp rm sg (s\<lparr>bs_count := 1\<rparr>))
                  else if raw_data_ok rm v (bs_sum s) then
                    (if n mod 2 \<noteq> 0 then (soft_error (MsgBadLength (int n - 1)) (s\<lparr>bs_count := 0\<rparr>), sg)
                     else ((STS_BTN_BUTTON_DONE, s\<lparr>bs_ncode := (bs_ncode s)
                         \<lparr>nname := bs_buffer s, nlength := n - 1, signals := Some sg\<rparr>\<rparr>), sg))
                  else record_raw smp rm (sg[n - 1 := v AND PULSE_MASK])
                         (s\<lparr>bs_sum := i32 (bs_sum s + (v AND PULSE_MASK)), bs_count := n + 1\<rparr>))))"
  by pat_completeness auto
termination by (relation "measure (\<lambda>(smp, rm, sg, s). MAX_SIGNALS - bs_count s)") (auto simp: Let_def)

section \<open>The last step\<close>

text \<open>What reading the provisional file gives.\<close>

datatype reread = NoFile | NoRemotes | ReadFailed | Reread ir_remote

record record_opts =
  ro_force :: bool
  ro_disable_namespace :: bool
  ro_update :: bool
  ro_using_template :: bool

text \<open>\<open>devinput\<close>: the driver has that name. None: a remote without codes is dereferenced.\<close>

definition buttons_done :: "record_opts \<Rightarrow> bool \<Rightarrow> reread \<Rightarrow> button_state \<Rightarrow> ir_remote
    \<Rightarrow> ((button_status \<times> button_state) \<times> ir_remote) option" where
  "buttons_done opts devinput inp s rm = (case inp of
     NoFile \<Rightarrow> Some (hard_error MsgReopen s, rm)
   | NoRemotes \<Rightarrow> Some (hard_error MsgNoRemote s, rm)
   | ReadFailed \<Rightarrow> Some (hard_error MsgReadFailed s, rm)
   | Reread my \<Rightarrow>
       (if ro_force opts then Some ((STS_BTN_ALL_DONE, s), my)
        else
          (let (sts, my) = (if \<not> has_toggle_bit_mask my
                 then (if \<not> ro_using_template opts \<and> \<not> devinput then STS_BTN_GET_TOGGLE_BITS else STS_BTN_ALL_DONE, my)
                 else (STS_BTN_ALL_DONE, set_toggle_bit_mask my (toggle_bit_mask my)))
           in map_option (\<lambda>my. ((sts, s), my))
                (if ro_update opts then Some my else Option.bind (get_pre_data my) get_post_data))))"

section \<open>The machine\<close>

text \<open>What happens outside: the table of names; whether a signal comes, how it and the next one are decoded,
  whether the hardware can be reset; the samples; the file.\<close>

record button_input =
  bi_table :: "(string \<times> int) list"
  bi_ready :: bool
  bi_tries :: "try_decode list"
  bi_again :: try_decode
  bi_reset :: bool
  bi_samples :: "nat \<Rightarrow> lirc_t"
  bi_devinput :: bool
  bi_reread :: reread

record button_world =
  bw_state :: button_state
  bw_ctx :: decode_ctx
  bw_remote :: ir_remote
  bw_signals :: "lirc_t list"

definition record_buttons :: "record_opts \<Rightarrow> button_input \<Rightarrow> button_status \<Rightarrow> button_world
    \<Rightarrow> (button_status \<times> button_world) option" where
  "record_buttons opts i last_status w =
     (let s = bw_state w; rm = bw_remote w;
          done = (\<lambda>(st, s). Some (st, w\<lparr>bw_state := s\<rparr>))
      in if bs_no_data s then done (STS_BTN_TIMEOUT, s\<lparr>bs_no_data := False\<rparr>)
         else case last_status of
           STS_BTN_INIT \<Rightarrow> done (STS_BTN_GET_NAME, s)
         | STS_BTN_GET_NAME \<Rightarrow> done (check_name (bi_table i) (ro_disable_namespace opts) s)
         | STS_BTN_INIT_DATA \<Rightarrow> done (if ro_force opts then STS_BTN_GET_RAW_DATA else STS_BTN_GET_DATA, s)
         | STS_BTN_GET_DATA \<Rightarrow>
             (let ((st, s), ctx, rm) = record_decoded (bi_ready i) (bi_tries i) (bi_again i) (bi_reset i) s (bw_ctx w) rm
              in Some (st, w\<lparr>bw_state := s, bw_ctx := ctx, bw_remote := rm\<rparr>))
         | STS_BTN_GET_RAW_DATA \<Rightarrow>
             (let ((st, s), sg) = record_raw (bi_samples i) rm (bw_signals w) (s\<lparr>bs_count := 0, bs_sum := 0\<rparr>)
              in Some (st, w\<lparr>bw_state := s, bw_signals := sg\<rparr>))
         | STS_BTN_RECORD_DONE \<Rightarrow>
             done (if is_raw rm then (STS_BTN_ALL_DONE, s)
                   else if \<not> bi_reset i then hard_error MsgReset s else (STS_BTN_BUTTONS_DONE, s))
         | STS_BTN_BUTTONS_DONE \<Rightarrow>
             map_option (\<lambda>((st, s), rm). (st, w\<lparr>bw_state := s, bw_remote := rm\<rparr>))
               (buttons_done opts (bi_devinput i) (bi_reread i) s rm)
         | STS_BTN_BUTTON_DONE \<Rightarrow> done (STS_BTN_BUTTON_DONE, s)
         | STS_BTN_HARD_ERROR \<Rightarrow> done (STS_BTN_HARD_ERROR, s)
         | st \<Rightarrow> done (hard_error (MsgBadState st) s))"

end
