(* ===== verification/Record_Loop_Facts.thy ===== *)
theory Record_Loop_Facts
  imports Record_Analyse_Facts Record_Emulate Record_Histogram Record_Buttons
begin

text \<open>
  The analysis as a whole: it is safe for as long as it runs; the number of data bits is found whatever frames
  them; with a single length of pulses it does not end. A recorded raw button has a pulse at each end.
\<close>

section \<open>The loop is safe\<close>

lemma analyse_loop_safe:
  "record_ok b s c \<Longrightarrow> b + int n \<le> 10 ^ 7 \<Longrightarrow>
    delivers (\<lambda>(st, rm, c). \<not> g_fault c) (analyse_get_lengths n d rd e s rm c)"
proof (induction n arbitrary: b e s rm c)
  case 0
  then show ?case by (simp add: record_ok_def arrays_ok_def)
next
  case (Suc n)
  obtain x e' where x: "emulation_readdata rd e = (x, e')" by force
  have b: "b < 10 ^ 7" "b + 1 + int n \<le> 10 ^ 7" using Suc.prems(2) by simp_all
  show ?case
    unfolding analyse_get_lengths.simps x Let_def prod.case
  proof (rule delivers_bind [OF get_lengths_ok [OF Suc.prems(1) b(1)]])
    fix r assume r: "sampled (b + 1) r"
    obtain st s' rm' c' where p: "r = (st, s', rm', c')" by (metis prod_cases4)
    have "record_ok (b + 1) s' c'" if "wants_more st" using r that by (auto simp: p sampled_def wants_more_def)
    then have "delivers (\<lambda>(st, rm, c). \<not> g_fault c) (analyse_get_lengths n d rd e' s' rm' c')" if "wants_more st"
      using that Suc.IH b(2) by blast
    then show "delivers (\<lambda>(st, rm, c). \<not> g_fault c) (case r of (st, s, rm, c) \<Rightarrow>
        if wants_more st then analyse_get_lengths n d rd e' s rm c else Gives (st, rm, c))"
      using r by (auto simp: p sampled_def)
  qed
qed

section \<open>A single length of pulses\<close>

text \<open>Something is given, and it satisfies \<open>P\<close>.\<close>

definition settles :: "('a \<Rightarrow> bool) \<Rightarrow> 'a effect \<Rightarrow> bool" where
  "settles P e \<longleftrightarrow> (\<exists>x. e = Gives x \<and> P x)"

definition plain :: "'a effect \<Rightarrow> bool" where
  "plain e \<longleftrightarrow> e \<noteq> Hangs \<and> e \<noteq> DivZero"

lemma plain_simps [simp]: "plain (Gives x)" "plain (max_item ls)"
  by (auto simp: plain_def max_item_def split: option.splits)

lemma plain_bind: "plain e \<Longrightarrow> (\<And>x. plain (f x)) \<Longrightarrow> plain (eff_bind e f)"
  by (cases e) (auto simp: plain_def)

lemma settles_plain: "delivers P e \<Longrightarrow> plain e \<Longrightarrow> settles P e"
  by (cases e) (simp_all add: delivers_def plain_def settles_def)

lemma settles_bind: "settles P e \<Longrightarrow> (\<And>x. P x \<Longrightarrow> f x = y) \<Longrightarrow> eff_bind e f = y"
  by (auto simp: settles_def)

lemma bind_gives: "eff_bind x f = Gives y \<longleftrightarrow> (\<exists>z. x = Gives z \<and> f z = Gives y)"
  by (cases x) auto

lemma plain_get: "plain (get_scheme rm c)" "plain (get_header_length rm c)" "plain (get_trail_length rm c)" "plain (get_lead_length rm c)"
  unfolding get_scheme_def get_header_length_def get_trail_length_def get_lead_length_def Let_def prod.case_eq_if
  by (auto intro!: plain_bind)

text \<open>The lengths of the signals differ by more than a fifth.\<close>

definition mixed_lengths :: "recorder \<Rightarrow> bool" where
  "mixed_lengths c \<longleftrightarrow> (case longest_count (g_lengths c) of (len, tot) \<Rightarrow> g_lengths c ! len < u32 (80 * tot) div 100)"

lemma scheme_cycle:
  assumes "lists_full c" "mixed_lengths c" "g_pulse c = [p]"
  shows "settles (\<lambda>(rm', c'). lists_full c' \<and> g_pulse_cycle c' \<and> g_count_3repeats c' = g_count_3repeats c
    \<and> g_count_5repeats c' = g_count_5repeats c) (get_scheme rm c)"
proof -
  have "settles (\<lambda>(rm', c'). lists_full c' \<and> g_fault c' = g_fault c) (get_scheme rm c)"
    by (rule settles_plain [OF scheme_full [OF assms(1)] plain_get(1)])
  then obtain rm' c' where g: "get_scheme rm c = Gives (rm', c')" "lists_full c'" by (auto simp: settles_def)
  have m: "max_item [p] = Gives (p, 0, ln_count p)" by (simp add: max_item_def get_max_length_def)
  have "g_pulse_cycle c' \<and> g_count_3repeats c' = g_count_3repeats c \<and> g_count_5repeats c' = g_count_5repeats c"
    using g(1) assms(2) unfolding get_scheme_def mixed_lengths_def Let_def prod.case_eq_if assms(3) m
    by (auto simp: unlink_length_def bind_gives split: if_splits)
  then show ?thesis using g by (simp add: settles_def)
qed

lemma lead_cycle:
  assumes "lists_full c"
  shows "settles (\<lambda>(rm, c'). g_pulse_cycle c' = g_pulse_cycle c \<and> g_count_3repeats c' = g_count_3repeats c
    \<and> g_count_5repeats c' = g_count_5repeats c) (get_lead_length rm c)"
proof -
  obtain rm' c' where g: "get_lead_length rm c = Gives (rm', c')"
    using settles_plain [OF lead_full [OF assms] plain_get(4), of rm] by (auto simp: settles_def)
  then have "c' = c \<or> (\<exists>ls. c' = c\<lparr>g_1lead := ls\<rparr>)"
    unfolding get_lead_length_def Let_def prod.case_eq_if bind_gives by (simp add: bind_gives split: if_splits) metis+
  then have "g_pulse_cycle c' = g_pulse_cycle c \<and> g_count_3repeats c' = g_count_3repeats c \<and> g_count_5repeats c' = g_count_5repeats c"
    by auto
  then show ?thesis using g by (simp add: settles_def)
qed

lemma single_pulse_loops:
  assumes "lists_full c" "mixed_lengths c" "g_pulse c = [p]" "g_count_3repeats c \<le> 40" "g_count_5repeats c \<le> 40"
  shows "analyse_lengths d rm c = Hangs"
  unfolding analyse_lengths_def
proof (rule settles_bind [OF scheme_cycle [OF assms(1-3)]], clarify)
  fix rm1 and c1 :: recorder
  assume c1: "lists_full c1" "g_pulse_cycle c1" "g_count_3repeats c1 = g_count_3repeats c" "g_count_5repeats c1 = g_count_5repeats c"
  have l: "eff_bind (get_lead_length r c1) (\<lambda>(rm, c). eff_bind (get_repeat_length rm c) (\<lambda>(ok, rm).
      if ok then get_data_length d rm c else Gives (False, rm, c))) = Hangs" for r
  proof (rule settles_bind [OF lead_cycle [OF c1(1)]], clarify)
    fix rm2 and c2 :: recorder
    assume "g_pulse_cycle c2 = g_pulse_cycle c1" "g_count_3repeats c2 = g_count_3repeats c1" "g_count_5repeats c2 = g_count_5repeats c1"
    then show "eff_bind (get_repeat_length rm2 c2) (\<lambda>(ok, rm). if ok then get_data_length d rm c2 else Gives (False, rm, c2)) = Hangs"
      using c1 assms(4,5) by (simp add: get_repeat_length_def get_data_length_def)
  qed
  show "eff_bind (get_header_length rm1 c1) (\<lambda>rm. eff_bind (get_trail_length rm c1) (\<lambda>rm. eff_bind (get_lead_length rm c1) (\<lambda>(rm, c).
      eff_bind (get_repeat_length rm c) (\<lambda>(ok, rm). if ok then get_data_length d rm c else Gives (False, rm, c))))) = Hangs"
    by (rule settles_bind [OF settles_plain [OF header_full [OF c1(1)] plain_get(2)]],
        rule settles_bind [OF settles_plain [OF trail_full [OF c1(1)] plain_get(3)]], rule l)
qed

section \<open>Raw buttons\<close>

text \<open>The sample that is stored: the gap of the remote stands for a timeout.\<close>

definition raw_sample :: "(nat \<Rightarrow> lirc_t) \<Rightarrow> ir_remote \<Rightarrow> nat \<Rightarrow> lirc_t" where
  "raw_sample smp rm i = (if smp i = 0 then i32 (gap rm) else smp i)"

declare record_raw.simps [simp del]

lemma raw_first:
  assumes "record_raw smp rm sg s = ((STS_BTN_BUTTON_DONE, s'), sg')" "bs_count s = 0"
  shows "\<exists>v. record_raw smp rm sg (s\<lparr>bs_data := v, bs_count := 1\<rparr>) = ((STS_BTN_BUTTON_DONE, s'), sg')"
proof -
  have "record_raw smp rm sg (s\<lparr>bs_data := smp 0, bs_count := 1\<rparr>) = ((STS_BTN_BUTTON_DONE, s'), sg')"
    using assms(1) unfolding record_raw.simps [of smp rm sg s] using assms(2) by (simp add: Let_def split: if_splits)
  then show ?thesis by blast
qed

text \<open>Later samples: the signal ends there, with an odd number of durations, or the sample is stored.\<close>

lemma raw_next:
  assumes "record_raw smp rm sg s = ((STS_BTN_BUTTON_DONE, s'), sg')" "bs_count s = Suc k"
  defines "v \<equiv> raw_sample smp rm (Suc k)"
  shows "Suc k < MAX_SIGNALS \<and> (odd k \<and> raw_data_ok rm v (bs_sum s) \<and> sg' = sg \<and> s' = s\<lparr>bs_data := v, bs_ncode := (bs_ncode s)
        \<lparr>nname := bs_buffer s, nlength := k, signals := Some sg\<rparr>\<rparr>
    \<or> record_raw smp rm (sg[k := v AND PULSE_MASK])
        (s\<lparr>bs_data := v, bs_sum := i32 (bs_sum s + (v AND PULSE_MASK)), bs_count := Suc (Suc k)\<rparr>) = ((STS_BTN_BUTTON_DONE, s'), sg'))"
  using assms(1) unfolding record_raw.simps [of smp rm sg s] using assms(2)
  by (auto simp: Let_def v_def raw_sample_def split: if_splits)

lemma raw_collected:
  "record_raw smp rm sg s = ((STS_BTN_BUTTON_DONE, s'), sg') \<Longrightarrow> bs_count s = Suc k \<Longrightarrow> length sg = MAX_SIGNALS \<Longrightarrow>
    take k sg = map (\<lambda>i. raw_sample smp rm (Suc i) AND PULSE_MASK) [0..<k] \<Longrightarrow>
    \<exists>n. odd n \<and> n \<le> 198 \<and> nlength (bs_ncode s') = n \<and> signals (bs_ncode s') = Some sg' \<and> nname (bs_ncode s') = bs_buffer s
      \<and> take n sg' = map (\<lambda>i. raw_sample smp rm (Suc i) AND PULSE_MASK) [0..<n] \<and> is_space (raw_sample smp rm (Suc n))"
proof (induction "MAX_SIGNALS - k" arbitrary: k sg s rule: less_induct)
  case less
  note n = raw_next [OF less.prems(1,2)]
  let ?v = "raw_sample smp rm (Suc k) AND PULSE_MASK"
  show ?case
  proof (cases "record_raw smp rm (sg[k := ?v]) (s\<lparr>bs_data := raw_sample smp rm (Suc k), bs_sum := i32 (bs_sum s + ?v), bs_count := Suc (Suc k)\<rparr>)
      = ((STS_BTN_BUTTON_DONE, s'), sg')")
    case True
    have "take (Suc k) (sg[k := ?v]) = map (\<lambda>i. raw_sample smp rm (Suc i) AND PULSE_MASK) [0..<Suc k]"
      using less.prems(3,4) n by (simp add: take_Suc_conv_app_nth)
    moreover have "MAX_SIGNALS - Suc k < MAX_SIGNALS - k" using conjunct1 [OF n] by linarith
    moreover have "length (sg[k := ?v]) = MAX_SIGNALS" using less.prems(3) by simp
    ultimately have "\<exists>n. odd n \<and> n \<le> 198 \<and> nlength (bs_ncode s') = n \<and> signals (bs_ncode s') = Some sg'
      \<and> nname (bs_ncode s') = bs_buffer (s\<lparr>bs_data := raw_sample smp rm (Suc k), bs_sum := i32 (bs_sum s + ?v), bs_count := Suc (Suc k)\<rparr>)
      \<and> take n sg' = map (\<lambda>i. raw_sample smp rm (Suc i) AND PULSE_MASK) [0..<n] \<and> is_space (raw_sample smp rm (Suc n))"
      by (intro less.hyps [OF _ True]) (assumption | simp)+
    then show ?thesis by simp
  next
    case False
    then show ?thesis using n less.prems(4) by (auto simp: raw_data_ok_def)
  qed
qed

lemma raw_recorded:
  assumes "record_raw smp rm sg s = ((STS_BTN_BUTTON_DONE, s'), sg')" "bs_count s = 0" "length sg = MAX_SIGNALS"
  shows "\<exists>n. odd n \<and> n \<le> 198 \<and> nlength (bs_ncode s') = n \<and> signals (bs_ncode s') = Some sg' \<and> nname (bs_ncode s') = bs_buffer s
      \<and> take n sg' = map (\<lambda>i. raw_sample smp rm (Suc i) AND PULSE_MASK) [0..<n] \<and> is_space (raw_sample smp rm (Suc n))"
proof -
  obtain v where v: "record_raw smp rm sg (s\<lparr>bs_data := v, bs_count := 1\<rparr>) = ((STS_BTN_BUTTON_DONE, s'), sg')"
    using raw_first [OF assms(1,2)] by blast
  show ?thesis using raw_collected [OF v, of 0] assms(3) by simp
qed

end
