(* ===== verification/Record_Find_Facts.thy ===== *)
theory Record_Find_Facts
  imports Record_Analyse Record_Histogram
begin

text \<open>
  What the analysis finds in the histograms of an ideal space encoded remote: the lengths of its pulse and its
  two spaces, and the number of its bits.
\<close>

lemma count_le_sum: "list_all (\<lambda>v. 0 < v) xs \<Longrightarrow> int (count_list xs v) * v \<le> sum_list xs"
proof (induction xs)
  case Nil
  then show ?case by simp
next
  case (Cons x xs)
  then show ?case by (auto simp: algebra_simps)
qed

lemma duration_item:
  assumes "durations xs" "v \<in> set xs"
  shows "calc_signal (exact_item (count_list xs v) v) = v" "ln_count (exact_item (count_list xs v) v) = int (count_list xs v)"
    "0 < count_list xs v" "int (count_list xs v) < 2 ^ 31" "0 < v"
proof -
  show n: "0 < count_list xs v" using assms(2) count_list_0_iff [of xs v] by auto
  show "0 < v" using assms by (auto simp: durations_def list_all_iff)
  have "list_all (\<lambda>v. 0 < v) xs" using assms(1) by (auto simp: durations_def list_all_iff)
  then have "int (count_list xs v) * v < 2 ^ 31" using count_le_sum [of xs v] assms(1) by (simp add: durations_def)
  then show "calc_signal (exact_item (count_list xs v) v) = v" using n \<open>0 < v\<close> by (simp add: calc_exact)
  show "ln_count (exact_item (count_list xs v) v) = int (count_list xs v)" by (simp add: exact_item_def)
  show "int (count_list xs v) < 2 ^ 31" using assms(1) count_le_length [of xs v] by (simp add: durations_def)
qed

lemma firsts_one: "set xs = {p} \<Longrightarrow> firsts xs = [p]"
proof -
  assume "set xs = {p}"
  then have "set (firsts xs) = {p}" "distinct (firsts xs)" by (simp_all add: distinct_firsts)
  then show ?thesis by (cases "firsts xs"; cases "tl (firsts xs)") auto
qed

lemma firsts_two: "set xs = {a, b} \<Longrightarrow> a \<noteq> b \<Longrightarrow> firsts xs = [a, b] \<or> firsts xs = [b, a]"
proof -
  assume s: "set xs = {a, b}" "a \<noteq> b"
  have d: "distinct (firsts xs)" "set (firsts xs) = {a, b}" using s by (simp_all add: distinct_firsts)
  then have "length (firsts xs) = 2" using s(2) distinct_card [OF d(1)] by simp
  then obtain x y where "firsts xs = [x, y]" by (auto simp: length_Suc_conv numeral_2_eq_2)
  then show ?thesis using d by auto
qed

text \<open>Two items of which neither has ten times the count of the other.\<close>

lemma two_items:
  assumes "0 < ln_count x" "0 < ln_count y" "ln_count x < 2 ^ 24" "ln_count y < 2 ^ 24"
    "ln_count x \<le> 10 * ln_count y" "ln_count y \<le> 10 * ln_count x"
  shows "\<exists>u w j tot. max_item [x, y] = Gives (u, j, tot) \<and> prevails 10 u tot \<and> second_item u (unlink_length j [x, y]) = Some w
    \<and> (u = x \<and> w = y \<or> u = y \<and> w = x)"
proof (cases "ln_count y > ln_count x")
  case True
  then have "max_item [x, y] = Gives (y, 1, ln_count x + ln_count y)"
    using assms by (simp add: max_item_def get_max_length_def u32_id)
  moreover have "prevails 10 y (ln_count x + ln_count y)" using assms True by (simp add: prevails_def u32_id)
  moreover have "second_item y (unlink_length 1 [x, y]) = Some x"
    using assms by (simp add: second_item_def get_max_length_def unlink_length_def u32_id)
  ultimately show ?thesis by blast
next
  case False
  then have "max_item [x, y] = Gives (x, 0, ln_count x + ln_count y)"
    using assms by (simp add: max_item_def get_max_length_def u32_id)
  moreover have "prevails 10 x (ln_count x + ln_count y)" using assms False by (simp add: prevails_def u32_id)
  moreover have "second_item x (unlink_length 0 [x, y]) = Some y"
    using assms by (simp add: second_item_def get_max_length_def unlink_length_def u32_id)
  ultimately show ?thesis by blast
qed

lemma one_item:
  assumes "0 < ln_count x" "ln_count x < 2 ^ 24"
  shows "max_item [x] = Gives (x, 0, ln_count x) \<and> prevails 10 x (ln_count x) \<and> second_item x (unlink_length 0 [x]) = None"
  using assms by (simp add: max_item_def get_max_length_def prevails_def second_item_def unlink_length_def u32_id)

lemma space_data:
  assumes ps: "g_pulse c = histogram ps" "durations ps" "set ps = {p}" "length ps < 2 ^ 24"
    and ss: "g_space c = histogram ss" "durations ss" "set ss = {a, b}" "a < b" "length ss < 2 ^ 24"
      "count_list ss a \<le> 10 * count_list ss b" "count_list ss b \<le> 10 * count_list ss a"
    and rm: "\<not> g_pulse_cycle c" "\<not> is_biphase rm"
      "has_header rm \<Longrightarrow> \<not> expect d (rm\<lparr>eps := g_eps c, aeps := g_aeps c\<rparr>) (phead rm) p"
      "bits rm = 2 * int n - 1 + (if has_header rm then 2 else 0) + (if ptrail rm > 0 then 2 else 0)"
  shows "\<exists>rm' c'. get_data_length d rm c = Gives (True, rm', c') \<and> pone rm' = p \<and> pzero rm' = p \<and> sone rm' = b \<and> szero rm' = a
    \<and> phead rm' = phead rm \<and> shead rm' = shead rm \<and> ptrail rm' = ptrail rm \<and> bits rm' = int n"
proof -
  let ?p = "exact_item (count_list ps p) p" and ?a = "exact_item (count_list ss a) a" and ?b = "exact_item (count_list ss b) b"
  have gp: "g_pulse c = [?p]" using ps(1) firsts_one [OF ps(3)] by (simp add: histogram_def)
  have gs: "g_space c = [?a, ?b] \<or> g_space c = [?b, ?a]" using ss(1) firsts_two [OF ss(3)] ss(4) by (auto simp: histogram_def)
  have cp: "0 < ln_count ?p" "ln_count ?p < 2 ^ 24" "calc_signal ?p = p"
    using duration_item [OF ps(2), of p] ps(3,4) count_le_length [of ps p] by auto
  have ca: "0 < ln_count ?a" "ln_count ?a < 2 ^ 24" "calc_signal ?a = a" "ln_count ?a \<le> 10 * ln_count ?b"
    using duration_item [OF ss(2), of a] ss(3-6) duration_item(2) [OF ss(2), of b] count_le_length [of ss a] by auto
  have cb: "0 < ln_count ?b" "ln_count ?b < 2 ^ 24" "calc_signal ?b = b" "ln_count ?b \<le> 10 * ln_count ?a"
    using duration_item [OF ss(2), of b] ss(3-7) duration_item(2) [OF ss(2), of a] count_le_length [of ss b] by auto
  have "\<exists>u w j tot. max_item (g_space c) = Gives (u, j, tot) \<and> prevails 10 u tot \<and> second_item u (unlink_length j (g_space c)) = Some w
    \<and> (u = ?a \<and> w = ?b \<or> u = ?b \<and> w = ?a)"
    using gs
  proof
    assume g: "g_space c = [?a, ?b]"
    show ?thesis unfolding g by (rule two_items [OF ca(1) cb(1) ca(2) cb(2) ca(4) cb(4)])
  next
    assume g: "g_space c = [?b, ?a]"
    show ?thesis unfolding g using two_items [OF cb(1) ca(1) cb(2) ca(2) cb(4) ca(4)] by blast
  qed
  then obtain u w j tot where two: "max_item (g_space c) = Gives (u, j, tot)" "prevails 10 u tot"
    "second_item u (unlink_length j (g_space c)) = Some w" "u = ?a \<and> w = ?b \<or> u = ?b \<and> w = ?a" by blast
  note one = one_item [OF cp(1,2), folded gp]
  note bi = rm(2)
  define rm1 where "rm1 = rm\<lparr>eps := g_eps c, aeps := g_aeps c\<rparr>"
  define rm2 where "rm2 = rm1\<lparr>pone := p, sone := b, pzero := p, szero := a\<rparr>"
  have set: "set_bits d rm1 (calc_signal ?p) None (calc_signal u) (Some (calc_signal w)) = Some rm2"
    using two(4) ca(3) cb(3) cp(3) ss(4) bi by (auto simp: set_bits_def rm1_def rm2_def c_defs)
  have e: "expect d rm2 x y = expect d rm1 x y" for x y by (simp add: expect_def cur_aeps_def rm2_def)
  have drop: "drop_header d rm2 = rm2"
  proof (cases "has_header rm")
    case False
    then have "\<not> has_header rm2" by (simp add: rm2_def rm1_def c_defs)
    then show ?thesis by (simp add: drop_header_def)
  next
    case True
    then have "\<not> expect d rm2 (phead rm2) (pone rm2)" "\<not> expect d rm2 (phead rm2) (pzero rm2)"
      using rm(3) e by (simp_all add: rm2_def rm1_def)
    moreover have "\<not> is_biphase rm2" using bi by (simp add: rm2_def rm1_def c_defs)
    ultimately show ?thesis by (simp add: drop_header_def Let_def)
  qed
  have cnt: "count_bits rm2 c' = Gives (rm2\<lparr>bits := int n\<rparr>)" for c'
  proof -
    have "bits rm2 - (if has_header rm2 then 2 else 0) + 1 - (if ptrail rm2 > 0 then 2 else 0) = 2 * int n"
      using rm(4) by (simp add: rm2_def rm1_def c_defs)
    moreover have "\<not> is_biphase rm2" using bi by (simp add: rm2_def rm1_def c_defs)
    ultimately show ?thesis by (simp add: count_bits_def sdiv_nonneg)
  qed
  have "get_data_length d rm c = Gives (True, rm2\<lparr>bits := int n\<rparr>, c\<lparr>g_pulse := unlink_length 0 (g_pulse c), g_space := unlink_length j (g_space c)\<rparr>)"
    using rm(1) one two set drop cnt by (simp add: get_data_length_def Let_def rm1_def)
  then show ?thesis by (simp add: rm2_def rm1_def)
qed

end
