(* ===== verification/Record_Props.thy ===== *)
theory Record_Props
  imports Record_Data_Facts Record_Loop_Facts Record_Find_Facts Sample
begin

text \<open>
  The properties of the recording of remotes (\<open>lib/irrecord.c\<close>), each with an example.
\<close>

text \<open>C40. Splitting off the leading and trailing data that all codes of a remote share, and joining them again, gives
  the remote back: nothing is lost when pre and post data are taken out, as long as the first button is a
  single code and the remote had no pre and post data before.\<close>

theorem split_data_joins:
  assumes "Option.bind (get_pre_data rm) get_post_data = Some rm'" "single_start rm" "bits rm \<le> 64"
    "pre_data_bits rm = 0" "pre_data rm = 0" "pre_p rm = 0" "pre_s rm = 0" "post_data_bits rm = 0" "post_data rm = 0"
  shows "Option.bind (remove_post_data rm') remove_pre_data = Some rm"
proof -
  obtain rm1 where r: "get_pre_data rm = Some rm1" "get_post_data rm1 = Some rm'" using assms(1) by (cases "get_pre_data rm") auto
  have p: "remove_pre_data rm1 = Some rm" "single_start rm1" using pre_data_joins [OF r(1) assms(2-7)] by auto
  have "remove_post_data rm' = Some rm1" using post_data_joins [OF r(2) p(2)] get_pre_data_post [OF r(1)] assms(8,9) by simp
  then show ?thesis using p(1) by simp
qed

definition sample_recorded :: ir_remote where
  "sample_recorded = zero_remote\<lparr>bits := 24, flags := SPACE_ENC,
     codes := Some [zero_ncode\<lparr>nname := ''A'', code := 0x11AA22\<rparr>, zero_ncode\<lparr>nname := ''B'', code := 0x11BB22\<rparr>]\<rparr>"

lemma split_data_joins_witness:
  "map_option bits (Option.bind (get_pre_data sample_recorded) get_post_data) = Some 8
    \<and> Option.bind (Option.bind (Option.bind (get_pre_data sample_recorded) get_post_data) remove_post_data) remove_pre_data
      = Some sample_recorded"
proof -
  have b: "map_option bits (Option.bind (get_pre_data sample_recorded) get_post_data) = Some 8" by code_simp
  then obtain rm' where r: "Option.bind (get_pre_data sample_recorded) get_post_data = Some rm'" by auto
  have "Option.bind (remove_post_data rm') remove_pre_data = Some sample_recorded"
    by (rule split_data_joins [OF r]) (simp_all add: sample_recorded_def single_start_def zero_remote_def zero_ncode_def)
  then show ?thesis using b r by simp
qed

text \<open>C39. A histogram keeps different durations apart: counting samples whose durations differ by at least 100 and by
  more than twice the tolerance gives one item for each duration, in the order of their first appearance, with the
  exact number of its samples.\<close>

theorem histogram_is_exact:
  assumes "durations xs" "apart ae xs" "0 \<le> ep" "ep < 99" "0 \<le> ae" "ae < 2 ^ 30"
  shows "fold (count_duration ep ae) xs [] = map (\<lambda>v. exact_item (count_list xs v) v) (firsts xs)"
  using histogram_counted [OF assms] by (simp add: histogram_def)

lemma histogram_is_exact_witness:
  "fold (count_duration 30 100) [560, 1690, 560] [] = [exact_item 2 560, exact_item 1 1690]"
  using histogram_is_exact [of "[560, 1690, 560]" 100 30] by (simp add: durations_def apart_def firsts_def numeral_2_eq_2)

text \<open>The tolerance in per cent never merges two items of a histogram: as the comparison is with a hundred times
  the bound, two items are merged exactly when they are within the absolute tolerance.\<close>

theorem relative_tolerance_unused:
  assumes "item_ok l" "item_ok i" "ln_sum l + ln_sum i < 2 ^ 31" "ln_count l + ln_count i < 2 ^ 31"
    "0 \<le> ep" "ep < 99" "0 \<le> ae" "ae < 2 ^ 30" "ln_max l < 2 ^ 24" "ln_max i < 2 ^ 24"
    "0 < (ln_sum l + ln_sum i) div (ln_count l + ln_count i)"
  shows "mergeable ep ae l i \<longleftrightarrow> within_aeps ae l i"
  by (rule mergeable_absolute [OF assms])

lemma relative_tolerance_unused_witness:
  "\<not> mergeable 30 100 (new_length 1000) (new_length 1250)"
proof -
  have "mergeable 30 100 (new_length 1000) (new_length 1250) \<longleftrightarrow> within_aeps 100 (new_length 1000) (new_length 1250)"
    by (rule relative_tolerance_unused) (simp_all add: item_ok_def new_length_def signed_divide_int_def)
  then show ?thesis by (simp add: within_aeps_def new_length_def Let_def signed_divide_int_def)
qed

text \<open>C37. The analysis of a raw remote is safe: within ten million samples no NULL pointer is dereferenced, in
  particular no list is empty when its most frequent item is looked up, and no access leaves the arrays \<open>signals\<close>
  and \<open>lengths\<close>.\<close>

theorem analysis_is_safe:
  assumes "n \<le> 10 ^ 7"
  shows "analyse_remote_lengths n d rd (recorder_start ep ae) \<noteq> NullPtr
    \<and> (\<forall>ok rm c. analyse_remote_lengths n d rd (recorder_start ep ae) = Gives (ok, rm, c) \<longrightarrow> \<not> g_fault c)"
proof -
  obtain s c where i: "lengths_state_init ((recorder_start ep ae)\<lparr>g_eps := eps rd, g_aeps := aeps rd\<rparr>) = (s, c)" by force
  moreover have "(recorder_start ep ae)\<lparr>g_eps := eps rd, g_aeps := aeps rd\<rparr> = recorder_start (eps rd) (aeps rd)"
    by (simp add: recorder_start_def)
  ultimately have "record_ok 0 s c" by (intro record_start) simp
  then have "delivers (\<lambda>(st, rm, c). \<not> g_fault c) (analyse_get_lengths n d rd analyse_start s zero_remote c)"
    by (rule analyse_loop_safe) (use assms in simp)
  then have "delivers (\<lambda>(ok, rm, c). \<not> g_fault c) (analyse_remote_lengths n d rd (recorder_start ep ae))"
    unfolding analyse_remote_lengths_def i Let_def prod.case
    by (auto intro!: delivers_if elim!: delivers_bind simp: recorder_start_def)
  then show ?thesis by (auto simp: delivers_def)
qed

lemma analysis_is_safe_witness: "analyse_remote_lengths 1000 sample_driver sample_recorded (recorder_start 30 100) \<noteq> NullPtr"
  using analysis_is_safe [of 1000 sample_driver sample_recorded 30 100] by simp

text \<open>The analysis of a remote whose pulses all have the same length while its signals have different lengths
  does not end: the only item of the list of pulses becomes its own successor.\<close>

theorem single_pulse_never_ends:
  assumes "lists_full c" "mixed_lengths c" "g_pulse c = [p]" "g_count_3repeats c \<le> 40" "g_count_5repeats c \<le> 40"
  shows "analyse_lengths d rm c = Hangs"
  by (rule single_pulse_loops [OF assms])

definition sample_counted :: recorder where
  "sample_counted = (recorder_start 30 100)\<lparr>g_pulse := [exact_item 800 560], g_space := [exact_item 400 560, exact_item 400 1690],
     g_trail := [exact_item 80 560], g_1lead := [exact_item 80 560], g_signal_length := [exact_item 80 30000],
     g_lengths := (replicate MAX_SIGNALS 0)[20 := 40, 22 := 40]\<rparr>"

lemma single_pulse_never_ends_witness: "analyse_lengths sample_driver zero_remote sample_counted = Hangs"
proof (rule single_pulse_never_ends)
  show "mixed_lengths sample_counted" by code_simp
qed (simp_all add: sample_counted_def recorder_start_def lists_full_def exact_item_def)

text \<open>C38. From the histograms of an ideal space encoded remote, one length of pulses and two of spaces of which
  neither is ten times as frequent as the other, the analysis finds the lengths of one and zero; and it finds the
  number of data bits, with and without header and trail. The header is kept if its pulse is not that of a bit.\<close>

theorem space_remote_found:
  assumes "g_pulse c = histogram ps" "durations ps" "set ps = {p}" "length ps < 2 ^ 24"
    "g_space c = histogram ss" "durations ss" "set ss = {a, b}" "a < b" "length ss < 2 ^ 24"
    "count_list ss a \<le> 10 * count_list ss b" "count_list ss b \<le> 10 * count_list ss a"
    "\<not> g_pulse_cycle c" "\<not> is_biphase rm"
    "has_header rm \<Longrightarrow> \<not> expect d (rm\<lparr>eps := g_eps c, aeps := g_aeps c\<rparr>) (phead rm) p"
    "bits rm = 2 * int n - 1 + (if has_header rm then 2 else 0) + (if ptrail rm > 0 then 2 else 0)"
  shows "\<exists>rm' c'. get_data_length d rm c = Gives (True, rm', c') \<and> pone rm' = p \<and> pzero rm' = p \<and> sone rm' = b \<and> szero rm' = a
    \<and> phead rm' = phead rm \<and> shead rm' = shead rm \<and> ptrail rm' = ptrail rm \<and> bits rm' = int n"
  by (rule space_data [OF assms])

definition sample_found :: recorder where
  "sample_found = (recorder_start 30 100)\<lparr>g_pulse := histogram [560, 560, 560], g_space := histogram [560, 1690, 560]\<rparr>"

definition sample_framed :: ir_remote where
  "sample_framed = zero_remote\<lparr>flags := SPACE_ENC, phead := 9000, shead := 4500, ptrail := 560, bits := 35\<rparr>"

lemma space_remote_found_witness:
  "\<exists>rm' c'. get_data_length sample_driver sample_framed sample_found = Gives (True, rm', c') \<and> pone rm' = 560 \<and> pzero rm' = 560
    \<and> sone rm' = 1690 \<and> szero rm' = 560 \<and> phead rm' = phead sample_framed \<and> shead rm' = shead sample_framed
    \<and> ptrail rm' = ptrail sample_framed \<and> bits rm' = int 16"
proof (rule space_remote_found)
  show "g_pulse sample_found = histogram [560, 560, 560]" "g_space sample_found = histogram [560, 1690, 560]"
    by (simp_all add: sample_found_def)
  show "\<not> is_biphase sample_framed" by code_simp
  show "\<not> expect sample_driver (sample_framed\<lparr>eps := g_eps sample_found, aeps := g_aeps sample_found\<rparr>) (phead sample_framed) 560"
    by code_simp
  show "bits sample_framed = 2 * int 16 - 1 + (if has_header sample_framed then 2 else 0) + (if ptrail sample_framed > 0 then 2 else 0)"
    by code_simp
qed (simp_all add: durations_def sample_found_def recorder_start_def insert_commute)

text \<open>A button recorded in raw mode begins and ends with a pulse: it has an odd number of at most 198 durations,
  which are the samples from the second on, and the sample behind them is a space.\<close>

theorem raw_button_recorded:
  assumes "record_buttons opts i STS_BTN_GET_RAW_DATA w = Some (STS_BTN_BUTTON_DONE, w')" "\<not> bs_no_data (bw_state w)"
    "length (bw_signals w) = MAX_SIGNALS"
  shows "\<exists>n. odd n \<and> n \<le> 198 \<and> nlength (bs_ncode (bw_state w')) = n \<and> nname (bs_ncode (bw_state w')) = bs_buffer (bw_state w)
    \<and> signals (bs_ncode (bw_state w')) = Some (bw_signals w')
    \<and> take n (bw_signals w') = map (\<lambda>k. raw_sample (bi_samples i) (bw_remote w) (Suc k) AND PULSE_MASK) [0..<n]
    \<and> is_space (raw_sample (bi_samples i) (bw_remote w) (Suc n))"
proof -
  obtain s' sg' where r: "record_raw (bi_samples i) (bw_remote w) (bw_signals w) ((bw_state w)\<lparr>bs_count := 0, bs_sum := 0\<rparr>)
      = ((STS_BTN_BUTTON_DONE, s'), sg')" "w' = w\<lparr>bw_state := s', bw_signals := sg'\<rparr>"
    using assms(1,2) by (auto simp: record_buttons_def Let_def split: prod.splits)
  from raw_recorded [OF r(1) _ assms(3)] show ?thesis by (simp add: r(2))
qed

definition sample_world :: button_world where
  "sample_world = \<lparr>bw_state = button_state_init\<lparr>bs_buffer := ''KEY_1''\<rparr>, bw_ctx = zero_ctx,
     bw_remote = zero_remote\<lparr>gap := 20000, flags := RAW_CODES\<rparr>, bw_signals = replicate MAX_SIGNALS 0\<rparr>"

definition sample_input :: button_input where
  "sample_input = \<lparr>bi_table = [], bi_ready = True, bi_tries = [], bi_again = (\<lambda>rm ctx. (False, ctx, rm)), bi_reset = True,
     bi_samples = (\<lambda>k. if k = 0 then 50000 else if k = 1 then 0x01000000 + 500 else 30000), bi_devinput = False, bi_reread = NoFile\<rparr>"

definition sample_opts :: record_opts where
  "sample_opts = \<lparr>ro_force = True, ro_disable_namespace = True, ro_update = False, ro_using_template = False\<rparr>"

lemma raw_button_recorded_witness:
  "\<exists>w' n. record_buttons sample_opts sample_input STS_BTN_GET_RAW_DATA sample_world = Some (STS_BTN_BUTTON_DONE, w')
    \<and> odd n \<and> nlength (bs_ncode (bw_state w')) = n \<and> nname (bs_ncode (bw_state w')) = ''KEY_1''"
proof -
  have "map_option fst (record_buttons sample_opts sample_input STS_BTN_GET_RAW_DATA sample_world) = Some STS_BTN_BUTTON_DONE"
    by code_simp
  then obtain w' where w: "record_buttons sample_opts sample_input STS_BTN_GET_RAW_DATA sample_world = Some (STS_BTN_BUTTON_DONE, w')"
    by auto
  from raw_button_recorded [OF w] w show ?thesis by (auto simp: sample_world_def button_state_init_def)
qed

end
