(* ===== verification/Daemon_Types.thy ===== *)
theory Daemon_Types
  imports Dump_Config Transmit
begin

text \<open>
  \<open>daemons/lircd.cpp\<close>: the state of the daemon, and writing to and reading from its clients.

  The static variables are the record \<open>lircd\<close>. A client is the number of its descriptor. What the
  system gives (the clients' sockets, the clocks, whether the hardware can be initialised) is part of the
  state, as a list of what is still to come; what is constant (the driver, the options) is the record
  \<open>lircd_env\<close>.
\<close>

section \<open>Outside\<close>

text \<open>A call of \<open>write\<close> takes some of the bytes (at least one), finds the socket busy, or fails. A socket
  with no more events takes everything.\<close>

datatype write_event = WTake nat | WBusy | WFail

text \<open>A call of \<open>read\<close> gives data, none at the end of the stream, or fails. Without an event there is nothing
  to read yet.\<close>

datatype read_event = RData string | RFail

text \<open>The commands of \<open>drvctl_func\<close> that set something.\<close>

datatype drv_cmd = DrvTransmitters int | DrvOption string string | DrvCarrier int | DrvCarrierRange int
  | DrvTimeout int | DrvTimeoutReports

text \<open>The driver, the options and the version. \<open>de_send\<close> is \<open>send_func\<close>: from \<open>repeat_remote != NULL\<close>, the remote,
  the button and the send buffer. \<open>de_timeouts\<close> are the smallest and the largest timeout, None when the driver
  does not know them. \<open>de_rec\<close> is \<open>rec_func\<close> with the remotes in use: None when a NULL pointer is read. \<open>de_errno\<close> is the error of a driver that refuses an option, \<open>de_open_log\<close> that of a log file
  that cannot be opened.\<close>

record lircd_env =
  de_driver :: driver
  de_send_mode :: int
  de_features :: int
  de_drvctl :: "(drv_cmd \<Rightarrow> int) option"
  de_timeouts :: "(int \<times> int) option"
  de_send :: "bool \<Rightarrow> ir_remote \<Rightarrow> ncode_ref \<Rightarrow> sbuf \<Rightarrow> bool \<times> ir_remote \<times> sbuf"
  de_has_init :: bool
  de_has_deinit :: bool
  de_version :: string
  de_allow_simulate :: bool
  de_repeat_max :: int
  de_rec :: "(lirc_state \<Rightarrow> (string option \<times> lirc_state) option) option"
  de_errno :: int
  de_open_log :: "string \<Rightarrow> int option"
  de_glob :: "string \<Rightarrow> string list"
  de_cfgfile :: string
  de_oldcfgfile :: string

abbreviation (input) MAX_CLIENTS :: nat where "MAX_CLIENTS \<equiv> 256"
abbreviation (input) MAX_PEERS :: nat where "MAX_PEERS \<equiv> 256"
abbreviation (input) CT_LOCAL :: int where "CT_LOCAL \<equiv> 1"
abbreviation (input) CT_REMOTE :: int where "CT_REMOTE \<equiv> 2"

section \<open>The state\<close>

text \<open>A pointer to a remote of the configuration in use or of the one before (\<open>free_remotes\<close>).\<close>

datatype remote_ptr = Here nat | Gone nat

text \<open>Where \<open>last_remote\<close> points to when it does not point into the configuration in use: nowhere, into the one
  before, or to memory that has been freed.\<close>

datatype old_ptr = NotOld | OldAt nat | OldFreed

record timespec =
  ts_sec :: int
  ts_nsec :: int

record peer =
  pr_host :: string
  pr_port :: int
  pr_reconnect :: timeval
  pr_failures :: int
  pr_socket :: "int option"

text \<open>\<open>dl_clis\<close> are the \<open>clin\<close> entries of the array \<open>clis\<close>, \<open>dl_stale\<close> the entries behind them. \<open>dl_g\<close> holds the variables of \<open>ir_remote.c\<close>, among them \<open>remotes\<close> and \<open>last_remote\<close>; \<open>dl_old\<close> is \<open>free_remotes\<close>.
  \<open>dl_repeat\<close> is the pair of \<open>repeat_remote\<close> and \<open>repeat_code\<close>, which are set and cleared together. \<open>dl_timer\<close> is the
  time the repeat timer was set to, \<open>dl_alrm\<close> the flag its signal sets. \<open>dl_hw\<close> says that the driver has an open
  descriptor, \<open>dl_drv\<close> what it has been told, \<open>dl_exit\<close> that the daemon has ended. \<open>dl_sent\<close> is what each client has
  been sent. \<open>dl_fault\<close> is set by an access to memory that is not there.\<close>

record lircd =
  dl_g :: lirc_state
  dl_old :: "ir_remote list option"
  dl_last_old :: old_ptr
  dl_repeat :: "(remote_ptr \<times> ncode_ref) option"
  dl_repeat_fd :: "int option"
  dl_repeat_message :: "string option"
  dl_timer :: "int option"
  dl_alrm :: bool
  dl_clis :: "int list"
  dl_stale :: "int list"
  dl_types :: "int list"
  dl_peers :: "peer list"
  dl_hw :: bool
  dl_tx :: sbuf
  dl_min_freq :: int
  dl_max_freq :: int
  dl_filter :: filter_params
  dl_drv :: "drv_cmd list"
  dl_configfile :: "string option"
  dl_logfile :: "string option"
  dl_exit :: bool
  dl_fault :: bool
  dl_out :: "int \<Rightarrow> write_event list"
  dl_sent :: "int \<Rightarrow> string"
  dl_in :: "int \<Rightarrow> read_event list"
  dl_mono :: "timespec list"
  dl_tod :: "timeval list"
  dl_plugs :: "bool list"
  dl_connects :: "int option list"

definition use_hw :: "lircd \<Rightarrow> bool" where
  "use_hw d \<longleftrightarrow> dl_clis d \<noteq> [] \<or> dl_repeat d \<noteq> None"

text \<open>\<open>clock_gettime\<close> and \<open>gettimeofday\<close>: the next time; \<open>init_func\<close>: whether it succeeds.\<close>

definition monotonic :: "lircd \<Rightarrow> timespec \<times> lircd" where
  "monotonic d = (case dl_mono d of [] \<Rightarrow> (\<lparr>ts_sec = 0, ts_nsec = 0\<rparr>, d) | t # ts \<Rightarrow> (t, d\<lparr>dl_mono := ts\<rparr>))"

definition time_of_day :: "lircd \<Rightarrow> timeval \<times> lircd" where
  "time_of_day d = (case dl_tod d of [] \<Rightarrow> (zero_timeval, d) | t # ts \<Rightarrow> (t, d\<lparr>dl_tod := ts\<rparr>))"

definition init_hw :: "lircd \<Rightarrow> bool \<times> lircd" where
  "init_hw d = (case dl_plugs d of [] \<Rightarrow> (False, d) | p # ps \<Rightarrow> (p, d\<lparr>dl_plugs := ps, dl_hw := p\<rparr>))"

definition deinit_hw :: "lircd_env \<Rightarrow> lircd \<Rightarrow> lircd" where
  "deinit_hw e d = (if \<not> use_hw d \<and> de_has_deinit e then d\<lparr>dl_hw := False\<rparr> else d)"

text \<open>The remote a pointer points to, and an update of it.\<close>

definition remote_at :: "lircd \<Rightarrow> remote_ptr \<Rightarrow> ir_remote" where
  "remote_at d p = (case p of
     Here i \<Rightarrow> (if i < length (remotes (dl_g d)) then remotes (dl_g d) ! i else zero_remote)
   | Gone i \<Rightarrow> (case dl_old d of Some rs \<Rightarrow> if i < length rs then rs ! i else zero_remote | None \<Rightarrow> zero_remote))"

definition set_remote :: "remote_ptr \<Rightarrow> ir_remote \<Rightarrow> lircd \<Rightarrow> lircd" where
  "set_remote p rm d = (case p of
     Here i \<Rightarrow> d\<lparr>dl_g := (dl_g d)\<lparr>remotes := (remotes (dl_g d))[i := rm]\<rparr>\<rparr>
   | Gone i \<Rightarrow> d\<lparr>dl_old := map_option (\<lambda>rs. rs[i := rm]) (dl_old d)\<rparr>)"

section \<open>Writing\<close>

abbreviation (input) WRITE_RETRIES :: nat where "WRITE_RETRIES \<equiv> 50"

text \<open>The loop of \<open>write_socket\<close>: whether all was written, the events that are left, what was written. \<open>n\<close> is the
  number of retries left.\<close>

fun write_loop :: "nat \<Rightarrow> write_event list \<Rightarrow> string \<Rightarrow> string \<Rightarrow> bool \<times> write_event list \<times> string" where
  "write_loop n es [] w = (True, es, w)"
| "write_loop n [] (c # cs) w = (True, [], w @ c # cs)"
| "write_loop n (WTake k # es) (c # cs) w = write_loop n es (drop k cs) (w @ c # take k cs)"
| "write_loop n (WBusy # es) (c # cs) w = (if n \<le> 1 then (False, es, w) else write_loop (n - 1) es (c # cs) w)"
| "write_loop n (WFail # es) (c # cs) w = (False, es, w)"

text \<open>The descriptor of a client that has been removed is closed: writing to it fails.\<close>

definition write_socket :: "int \<Rightarrow> string \<Rightarrow> lircd \<Rightarrow> bool \<times> lircd" where
  "write_socket fd buf d =
     (if fd \<notin> set (dl_clis d) then (buf = [], d)
      else
        (let (ok, es, w) = write_loop WRITE_RETRIES (dl_out d fd) buf []
         in (ok, d\<lparr>dl_out := (dl_out d)(fd := es), dl_sent := (dl_sent d)(fd := dl_sent d fd @ w)\<rparr>)))"

text \<open>A conjunction of calls of \<open>write_socket_len\<close>.\<close>

fun write_all :: "int \<Rightarrow> string list \<Rightarrow> lircd \<Rightarrow> bool \<times> lircd" where
  "write_all fd [] d = (True, d)"
| "write_all fd (s # ss) d = (let (ok, d) = write_socket fd s d in if ok then write_all fd ss d else (False, d))"

section \<open>Reading\<close>

text \<open>\<open>read_timeout\<close> for at most \<open>n\<close> bytes. With \<open>wait\<close> it waits without a limit: None when nothing comes. Without,
  it gives the empty string when there is nothing. The result \<open>Inl\<close> is -1.\<close>

definition read_timeout :: "int \<Rightarrow> nat \<Rightarrow> bool \<Rightarrow> lircd \<Rightarrow> ((unit + string) \<times> lircd) option" where
  "read_timeout fd n wait d = (case dl_in d fd of
     [] \<Rightarrow> (if wait then None else Some (Inr [], d))
   | RFail # es \<Rightarrow> Some (Inl (), d\<lparr>dl_in := (dl_in d)(fd := es)\<rparr>)
   | RData s # es \<Rightarrow> Some (Inr (take n s),
       d\<lparr>dl_in := (dl_in d)(fd := if length s \<le> n then es else RData (drop n s) # es)\<rparr>))"

section \<open>Clients\<close>

text \<open>The types of the clients are not moved when a client is taken out of the array.\<close>

definition remove_client :: "lircd_env \<Rightarrow> int \<Rightarrow> lircd \<Rightarrow> lircd" where
  "remove_client e fd d = (case find_index (\<lambda>x. x = fd) (dl_clis d) of
     None \<Rightarrow> d
   | Some i \<Rightarrow> deinit_hw e (d\<lparr>dl_clis := take i (dl_clis d) @ drop (i + 1) (dl_clis d),
                              dl_stale := last (dl_clis d) # dl_stale d\<rparr>))"

lemma write_socket_clis: "write_socket fd s d = (ok, d') \<Longrightarrow> dl_clis d' = dl_clis d"
  by (auto simp: write_socket_def split: prod.splits if_splits)

lemma write_all_clis: "write_all fd ss d = (ok, d') \<Longrightarrow> dl_clis d' = dl_clis d"
  by (induction fd ss d rule: write_all.induct) (auto split: prod.splits if_splits dest: write_socket_clis)

lemma remove_client_length: "fd \<in> set (dl_clis d) \<Longrightarrow> length (dl_clis (remove_client e fd d)) < length (dl_clis d)"
proof -
  assume "fd \<in> set (dl_clis d)"
  then obtain i where i: "find_index (\<lambda>x. x = fd) (dl_clis d) = Some i"
    using find_index_None [of "\<lambda>x. x = fd" "dl_clis d"] by (cases "find_index (\<lambda>x. x = fd) (dl_clis d)") auto
  then show ?thesis using find_index_Some [OF i] by (auto simp: remove_client_def deinit_hw_def use_hw_def)
qed

text \<open>A text, in several writes, for every client from index \<open>i\<close> on that is not skipped; a client that cannot be
  written to is removed, and the next one has moved to its place.\<close>

function tell_clients :: "lircd_env \<Rightarrow> bool \<Rightarrow> string list \<Rightarrow> nat \<Rightarrow> lircd \<Rightarrow> lircd" where
  "tell_clients e loc ss i d =
     (if i \<ge> length (dl_clis d) then d
      else if loc \<and> dl_types d ! i = CT_REMOTE then tell_clients e loc ss (i + 1) d
      else
        (let fd = dl_clis d ! i; (ok, d) = write_all fd ss d
         in if ok then tell_clients e loc ss (i + 1) d else tell_clients e loc ss i (remove_client e fd d)))"
  by pat_completeness auto
termination
proof (relation "measure (\<lambda>(e, loc, ss, i, d). length (dl_clis d) - i)")
  fix e loc ss i d fd w ok d'
  assume a: "\<not> i \<ge> length (dl_clis d)" "fd = dl_clis d ! i" "w = write_all fd ss d" "(ok, d') = w" "\<not> ok"
  have c: "dl_clis d' = dl_clis d" using a(3,4) write_all_clis [of fd ss d ok d'] by simp
  then have "fd \<in> set (dl_clis d')" using a(1,2) by simp
  from remove_client_length [OF this, of e]
  show "((e, loc, ss, i, remove_client e fd d'), e, loc, ss, i, d) \<in> measure (\<lambda>(e, loc, ss, i, d). length (dl_clis d) - i)"
    using a(1) c by simp
qed (auto dest!: write_all_clis [OF sym])

declare tell_clients.simps [simp del]

lemma tell_end: "length (dl_clis d) \<le> i \<Longrightarrow> tell_clients e loc ss i d = d"
  by (subst tell_clients.simps) simp

lemma tell_skip: "i < length (dl_clis d) \<Longrightarrow> loc \<Longrightarrow> dl_types d ! i = CT_REMOTE
    \<Longrightarrow> tell_clients e loc ss i d = tell_clients e loc ss (i + 1) d"
  by (subst tell_clients.simps) simp

lemma tell_ok: "i < length (dl_clis d) \<Longrightarrow> \<not> (loc \<and> dl_types d ! i = CT_REMOTE)
    \<Longrightarrow> write_all (dl_clis d ! i) ss d = (True, d1) \<Longrightarrow> tell_clients e loc ss i d = tell_clients e loc ss (i + 1) d1"
  by (subst tell_clients.simps) (auto simp del: write_all.simps)

lemma tell_drop: "i < length (dl_clis d) \<Longrightarrow> \<not> (loc \<and> dl_types d ! i = CT_REMOTE)
    \<Longrightarrow> write_all (dl_clis d ! i) ss d = (False, d1)
    \<Longrightarrow> tell_clients e loc ss i d = tell_clients e loc ss i (remove_client e (dl_clis d ! i) d1)"
  by (subst tell_clients.simps) (auto simp del: write_all.simps)

lemma tell_induct [case_names stop skip ok gone]:
  assumes "\<And>i d. length (dl_clis d) \<le> i \<Longrightarrow> P i d"
    and "\<And>i d. i < length (dl_clis d) \<Longrightarrow> loc \<and> dl_types d ! i = CT_REMOTE \<Longrightarrow> P (i + 1) d \<Longrightarrow> P i d"
    and "\<And>i d d1. i < length (dl_clis d) \<Longrightarrow> \<not> (loc \<and> dl_types d ! i = CT_REMOTE)
      \<Longrightarrow> write_all (dl_clis d ! i) ss d = (True, d1) \<Longrightarrow> P (i + 1) d1 \<Longrightarrow> P i d"
    and "\<And>i d d1. i < length (dl_clis d) \<Longrightarrow> \<not> (loc \<and> dl_types d ! i = CT_REMOTE)
      \<Longrightarrow> write_all (dl_clis d ! i) ss d = (False, d1) \<Longrightarrow> P i (remove_client e (dl_clis d ! i) d1) \<Longrightarrow> P i d"
  shows "P i d"
proof (induction "length (dl_clis d) - i" arbitrary: i d rule: less_induct)
  case less
  consider "length (dl_clis d) \<le> i" | "i < length (dl_clis d)" "loc \<and> dl_types d ! i = CT_REMOTE"
    | d1 where "i < length (dl_clis d)" "\<not> (loc \<and> dl_types d ! i = CT_REMOTE)" "write_all (dl_clis d ! i) ss d = (True, d1)"
    | d1 where "i < length (dl_clis d)" "\<not> (loc \<and> dl_types d ! i = CT_REMOTE)" "write_all (dl_clis d ! i) ss d = (False, d1)"
    by (metis (full_types) not_less old.prod.exhaust)
  then show ?case
  proof cases
    case 1
    then show ?thesis by (rule assms(1))
  next
    case 2
    then show ?thesis using assms(2) less by simp
  next
    case 3
    then show ?thesis using assms(3) [OF 3] less [of d1 "i + 1"] write_all_clis [OF 3(3)] by simp
  next
    case 4
    have c: "dl_clis d1 = dl_clis d" by (rule write_all_clis [OF 4(3)])
    then have "dl_clis d ! i \<in> set (dl_clis d1)" using 4(1) by simp
    then have "length (dl_clis (remove_client e (dl_clis d ! i) d1)) < length (dl_clis d)"
      using remove_client_length [of "dl_clis d ! i" d1 e] c by simp
    then show ?thesis using assms(4) [OF 4] less [of "remove_client e (dl_clis d ! i) d1" i] 4(1) by simp
  qed
qed

text \<open>\<open>broadcast_message\<close>, and the part of \<open>get_peer_message\<close> that relays a message to the local clients.\<close>

definition broadcast_message :: "lircd_env \<Rightarrow> string \<Rightarrow> lircd \<Rightarrow> lircd" where
  "broadcast_message e msg d = tell_clients e False [msg] 0 d"

definition relay_message :: "lircd_env \<Rightarrow> string \<Rightarrow> lircd \<Rightarrow> lircd" where
  "relay_message e msg d = tell_clients e True [msg] 0 d"

end
