(* ===== verification/Daemon_Reply.thy ===== *)
theory Daemon_Reply
  imports Daemon_Types
begin

text \<open>
  \<open>daemons/lircd.cpp\<close>: the replies to the commands of the clients. A function that replies gives whether
  everything was written, and the state.
\<close>

text \<open>\<open>protocol_string\<close>.\<close>

definition p_begin :: string where "p_begin = ''BEGIN'' @ nl"
definition p_data :: string where "p_data = ''DATA'' @ nl"
definition p_end :: string where "p_end = ''END'' @ nl"
definition p_error :: string where "p_error = ''ERROR'' @ nl"
definition p_success :: string where "p_success = ''SUCCESS'' @ nl"
definition p_sighup :: string where "p_sighup = ''SIGHUP'' @ nl"

abbreviation (input) c_nul :: char where "c_nul \<equiv> char_of (0::nat)"

definition send_success :: "int \<Rightarrow> string \<Rightarrow> lircd \<Rightarrow> bool \<times> lircd" where
  "send_success fd msg d = write_all fd [p_begin, msg, p_success, p_end] d"

text \<open>The part before the last newline.\<close>

definition cut_last_line :: "string \<Rightarrow> string" where
  "cut_last_line s = (if newline \<in> set s then rev (drop 1 (dropWhile (\<lambda>c. c \<noteq> newline) (rev s))) else s)"

text \<open>The text of an error as it is sent, and its lines; \<open>snprintf\<close> into \<open>buffer2\<close> keeps 257 characters.\<close>

definition error_text :: "string \<Rightarrow> string" where
  "error_text txt = take (PACKET_SIZE + 1) (cut_last_line txt @ nl)"

definition error_lines :: "string \<Rightarrow> nat" where
  "error_lines txt = length (filter (\<lambda>c. c = newline) (error_text txt))"

text \<open>\<open>txt\<close> is the formatted text, which \<open>vsprintf\<close> writes into \<open>buffer\<close>, however long it is.\<close>

definition send_error :: "int \<Rightarrow> string \<Rightarrow> string \<Rightarrow> lircd \<Rightarrow> bool \<times> lircd" where
  "send_error fd msg txt d =
     write_all fd [p_begin, msg, p_error, p_data, fmt_d 0 (int (error_lines txt)) @ nl, error_text txt, p_end]
       (if length txt > PACKET_SIZE then d\<lparr>dl_fault := True\<rparr> else d)"

section \<open>Lists\<close>

text \<open>\<open>%s\<close> of a name that may be NULL.\<close>

definition name_text :: "string option \<Rightarrow> string" where
  "name_text n = (case n of Some s \<Rightarrow> s | None \<Rightarrow> ''(null)'')"

definition remote_line :: "ir_remote \<Rightarrow> string" where
  "remote_line rm = (let s = name_text (rname rm) @ nl
     in if length s \<ge> PACKET_SIZE + 1 then ''name_too_long'' @ nl else s)"

definition send_remote_list :: "int \<Rightarrow> string \<Rightarrow> lircd \<Rightarrow> bool \<times> lircd" where
  "send_remote_list fd msg d =
     (let rs = remotes (dl_g d); n = length rs
      in write_all fd ([p_begin, msg, p_success] @
           (if n = 0 then [p_end] else [p_data, fmt_d 0 (int n) @ nl] @ map remote_line rs @ [p_end])) d)"

text \<open>What is written for a text: \<open>snprintf\<close> is given one byte less than the buffer has, the test is for the size
  of the buffer. A text of exactly \<open>PACKET_SIZE\<close> characters is written without its last one and with the NUL.\<close>

definition clipped :: "string \<Rightarrow> string \<Rightarrow> string" where
  "clipped s other =
     (if length s \<ge> PACKET_SIZE + 1 then other
      else if length s = PACKET_SIZE then take (PACKET_SIZE - 1) s @ [c_nul] else s)"

definition code_line_text :: "ir_ncode \<Rightarrow> string" where
  "code_line_text nc = fmt_hex 16 (unat (code nc)) @ '' '' @ nname nc @ nl"

definition code_list_line :: "ir_ncode \<Rightarrow> string" where
  "code_list_line nc = clipped (code_line_text nc) (''code_too_long'' @ nl)"

definition send_remote :: "int \<Rightarrow> string \<Rightarrow> ir_remote \<Rightarrow> lircd \<Rightarrow> bool \<times> lircd" where
  "send_remote fd msg rm d =
     (let cs = (case codes rm of Some cs \<Rightarrow> cs | None \<Rightarrow> []); n = length cs
      in write_all fd ([p_begin, msg, p_success] @
           (if n = 0 then [p_end] else [p_data, fmt_d 0 (int n) @ nl] @ map code_list_line cs @ [p_end])) d)"

definition send_name :: "int \<Rightarrow> string \<Rightarrow> ir_ncode \<Rightarrow> lircd \<Rightarrow> bool \<times> lircd" where
  "send_name fd msg nc d =
     write_all fd [p_begin, msg, p_success, p_data,
       clipped (''1'' @ nl @ code_line_text nc) (''1'' @ nl @ ''code_too_long'' @ nl), p_end] d"

definition version :: "lircd_env \<Rightarrow> int \<Rightarrow> string \<Rightarrow> lircd \<Rightarrow> bool \<times> lircd" where
  "version e fd msg d = write_all fd [p_begin, msg, p_success, p_data, ''1'' @ nl @ de_version e @ nl, p_end] d"

end
