(* ===== verification/Daemon_Args.thy ===== *)
theory Daemon_Args
  imports Daemon_Reply Client_Lines
begin

unbundle bit_operations_syntax

text \<open>
  \<open>daemons/lircd.cpp\<close>: the arguments of the commands, and the commands that neither send nor change the
  configuration. \<open>arguments\<close> is NULL (None) when nothing follows the directive.
\<close>

definition is_blank :: "char \<Rightarrow> bool" where
  "is_blank c \<longleftrightarrow> c = CHR '' '' \<or> of_char c = (9::nat)"

text \<open>\<open>strtol\<close> and \<open>strtoul\<close> with base 10: value and end pointer (\<open>long\<close> has 64 bits), for \<open>strtoul\<close> also whether
  \<open>errno\<close> is \<open>ERANGE\<close>.\<close>

definition read_dec :: "string \<Rightarrow> (bool \<times> nat \<times> string) option" where
  "read_dec s =
     (let t = dropWhile isspace s;
          (neg, t) = (case t of
              c # cs \<Rightarrow> (if c = CHR ''-'' then (True, cs) else if c = CHR ''+'' then (False, cs) else (False, t))
            | [] \<Rightarrow> (False, t))
      in if t \<noteq> [] \<and> is_digit_of 10 (hd t)
         then Some (neg, fst (read_digits 10 0 t), snd (read_digits 10 0 t)) else None)"

definition strtol10 :: "string \<Rightarrow> int \<times> string" where
  "strtol10 s = (case read_dec s of
     None \<Rightarrow> (0, s)
   | Some (neg, m, r) \<Rightarrow>
       (if neg then max (- (2 ^ 63)) (- int m) else min (2 ^ 63 - 1) (int m), r))"

definition strtoul10 :: "string \<Rightarrow> int \<times> string \<times> bool" where
  "strtoul10 s = (case read_dec s of
     None \<Rightarrow> (0, s, False)
   | Some (neg, m, r) \<Rightarrow>
       (if int m \<ge> 2 ^ 64 then (2 ^ 64 - 1, r, True) else (u64 (if neg then - int m else int m), r, False)))"

section \<open>Remote, code and repeats\<close>

text \<open>\<open>parse_rc\<close>. \<open>want_reps\<close> says that \<open>reps\<close> is not NULL; \<open>n\<close> is how many of remote and code have to be there. \<open>Inl\<close>
  is the result after an error has been sent (\<open>err\<close> is 1); \<open>Inr\<close> has the remote, the code and the repeats.\<close>

type_synonym rc_args = "remote_ref option \<times> ncode_ref option \<times> int"

definition deref_remote :: "lircd \<Rightarrow> remote_ref \<Rightarrow> ir_remote" where
  "deref_remote d r = (case r of RInternal \<Rightarrow> lirc_internal_remote | RIndex i \<Rightarrow> remote_at d (Here i))"

definition quoted :: "string \<Rightarrow> string" where
  "quoted s = CHR ''\"'' # s @ [CHR ''\"'']"

definition parse_reps :: "lircd_env \<Rightarrow> string option \<Rightarrow> string + int" where
  "parse_reps e repeats = (case repeats of
     None \<Rightarrow> Inr (u32 (-1))
   | Some s \<Rightarrow>
       (let (v, r) = strtol10 s; k = u32 v
        in if r \<noteq> [] \<or> k < 0 then Inl (''bad send packet (reps/eol)'' @ nl)
           else if k > de_repeat_max e
           then Inl (''too many repeats: '' @ quoted (fmt_d 0 (i32 k)) @ '' > '' @ quoted (fmt_u 0 (de_repeat_max e)) @ nl)
           else Inr k))"

text \<open>The scan of the words: the text of an error, or what was found.\<close>

definition scan_rc :: "lircd_env \<Rightarrow> bool \<Rightarrow> string list \<Rightarrow> lircd \<Rightarrow> string + rc_args" where
  "scan_rc e want_reps ws d = (case ws of
     [] \<Rightarrow> Inr (None, None, 0)
   | name # ws \<Rightarrow> (case get_ir_remote (remotes (dl_g d)) name of
       None \<Rightarrow> Inl (''unknown remote: '' @ quoted name @ nl)
     | Some r \<Rightarrow> (case ws of
         [] \<Rightarrow> Inr (Some r, None, 0)
       | command # ws \<Rightarrow> (case get_code_by_name (deref_remote d r) command of
           None \<Rightarrow> Inl (''unknown command: '' @ quoted command @ nl)
         | Some c \<Rightarrow>
             (let (res, ws) = (if want_reps then (parse_reps e (case ws of w # _ \<Rightarrow> Some w | [] \<Rightarrow> None), drop 1 ws)
                               else (Inr 0, ws))
              in case res of Inl t \<Rightarrow> Inl t
                | Inr k \<Rightarrow> (if ws \<noteq> [] then Inl (''bad send packet (trailing ws)'' @ nl)
                             else Inr (Some r, Some c, k)))))))"

definition rc_words :: "string option \<Rightarrow> string list" where
  "rc_words arguments = (case arguments of None \<Rightarrow> [] | Some a \<Rightarrow> strtok_all is_blank a)"

definition parse_rc :: "lircd_env \<Rightarrow> int \<Rightarrow> string \<Rightarrow> string option \<Rightarrow> bool \<Rightarrow> nat \<Rightarrow> lircd
    \<Rightarrow> (bool \<times> lircd) + rc_args" where
  "parse_rc e fd msg arguments want_reps n d = (case scan_rc e want_reps (rc_words arguments) d of
     Inl t \<Rightarrow> Inl (send_error fd msg t d)
   | Inr (r, c, k) \<Rightarrow>
       (if n > 0 \<and> r = None then Inl (send_error fd msg (''remote missing'' @ nl) d)
        else if n > 1 \<and> c = None then Inl (send_error fd msg (''code missing'' @ nl) d)
        else Inr (r, c, k)))"

definition list_cmd :: "lircd_env \<Rightarrow> int \<Rightarrow> string \<Rightarrow> string option \<Rightarrow> lircd \<Rightarrow> bool \<times> lircd" where
  "list_cmd e fd msg arguments d = (case parse_rc e fd msg arguments False 0 d of
     Inl res \<Rightarrow> res
   | Inr (r, c, _) \<Rightarrow> (case r of
       None \<Rightarrow> send_remote_list fd msg d
     | Some r \<Rightarrow> (case c of
         None \<Rightarrow> send_remote fd msg (deref_remote d r) d
       | Some c \<Rightarrow> send_name fd msg (deref (deref_remote d r) c) d)))"

section \<open>Transmitters\<close>

abbreviation (input) LIRC_CAN_SET_TRANSMITTER_MASK :: int where "LIRC_CAN_SET_TRANSMITTER_MASK \<equiv> 0x00000400"
abbreviation (input) MAX_TX :: int where "MAX_TX \<equiv> 32"

text \<open>A call of \<open>drvctl_func\<close> with a command that sets something; without that function a NULL pointer is called.\<close>

definition drvctl :: "lircd_env \<Rightarrow> drv_cmd \<Rightarrow> lircd \<Rightarrow> int \<times> lircd" where
  "drvctl e c d = (case de_drvctl e of
     None \<Rightarrow> (-1, d\<lparr>dl_fault := True\<rparr>)
   | Some f \<Rightarrow> (f c, d\<lparr>dl_drv := dl_drv d @ [c]\<rparr>))"

text \<open>The loop \<open>for (i = 1; i < n; i++) x = x << 1\<close>.\<close>

primrec shift_times :: "nat \<Rightarrow> 32 word \<Rightarrow> 32 word" where
  "shift_times 0 x = x"
| "shift_times (Suc n) x = shift_times n (push_bit 1 x)"

text \<open>The words of the arguments: the text of an error, or the mask. The number is stored in 32 bits before it is
  compared with \<open>ULONG_MAX\<close>.\<close>

fun tx_scan :: "string list \<Rightarrow> 32 word \<Rightarrow> string + 32 word" where
  "tx_scan [] channels = Inr channels"
| "tx_scan (w # ws) channels =
     (let (v, r, erange) = strtoul10 w; n = u32 v
      in if r \<noteq> [] \<or> n = 0 \<or> (n = 2 ^ 64 - 1 \<and> erange) then Inl (''invalid argument'' @ nl)
         else if n > MAX_TX then Inl (''cannot support more than '' @ fmt_d 0 MAX_TX @ '' transmitters'' @ nl)
         else tx_scan ws (channels OR shift_times (nat n - 1) 1))"

definition set_transmitters :: "lircd_env \<Rightarrow> int \<Rightarrow> string \<Rightarrow> string option \<Rightarrow> lircd \<Rightarrow> bool \<times> lircd" where
  "set_transmitters e fd msg arguments d =
     (if arguments = None then send_error fd msg (''no arguments given'' @ nl) d
      else if de_send_mode e = 0 then send_error fd msg (''hardware does not support sending'' @ nl) d
      else if de_drvctl e = None \<or> de_features e AND LIRC_CAN_SET_TRANSMITTER_MASK = 0
      then send_error fd msg (''hardware does not support multiple transmitters'' @ nl) d
      else if rc_words arguments = [] then send_error fd msg (''no arguments given'' @ nl) d
      else (case tx_scan (rc_words arguments) 0 of
          Inl t \<Rightarrow> send_error fd msg t d
        | Inr channels \<Rightarrow>
            (let (ret, d) = drvctl e (DrvTransmitters (uint channels)) d
             in if ret < 0 then send_error fd msg (''error - could not set transmitters'' @ nl) d
                else if ret > 0
                then send_error fd msg (''error - maximum of '' @ fmt_d 0 ret @ '' transmitters'' @ nl) d
                else send_success fd msg d)))"

section \<open>Simulated events\<close>

text \<open>The scan for 16 hexadecimal digits, and the one for digits up to a blank.\<close>

fun skip_hex :: "nat \<Rightarrow> string \<Rightarrow> string option" where
  "skip_hex 0 s = Some s"
| "skip_hex (Suc n) [] = None"
| "skip_hex (Suc n) (c # cs) = (if is_digit_of 16 c then skip_hex n cs else None)"

fun skip_hex_word :: "string \<Rightarrow> string option" where
  "skip_hex_word [] = None"
| "skip_hex_word (c # cs) =
     (if c = CHR '' '' then Some (c # cs) else if is_digit_of 16 c then skip_hex_word cs else None)"

text \<open>\<open>strchr(s, ' ')\<close>: what is before and after the first blank.\<close>

definition at_blank :: "string \<Rightarrow> (string \<times> string) option" where
  "at_blank s = (if CHR '' '' \<in> set s
     then Some (takeWhile (\<lambda>c. c \<noteq> CHR '' '') s, drop 1 (dropWhile (\<lambda>c. c \<noteq> CHR '' '') s)) else None)"

definition valid_event :: "string \<Rightarrow> bool" where
  "valid_event arguments = (case skip_hex 16 arguments of
     Some (b # s) \<Rightarrow>
       (if b \<noteq> CHR '' '' then False
        else if s \<noteq> [] \<and> hd s = CHR '' '' then False
        else (case skip_hex_word s of
            None \<Rightarrow> False
          | Some t \<Rightarrow> (case at_blank (drop 1 t) of
              None \<Rightarrow> False
            | Some (button, r) \<Rightarrow> button \<noteq> [] \<and> r \<noteq> [] \<and> at_blank r = None)))
   | _ \<Rightarrow> False)"

definition simulate :: "lircd_env \<Rightarrow> int \<Rightarrow> string \<Rightarrow> string option \<Rightarrow> lircd \<Rightarrow> bool \<times> lircd" where
  "simulate e fd msg arguments d =
     (if \<not> de_allow_simulate e then send_error fd msg (''SIMULATE command is disabled'' @ nl) d
      else (case arguments of
          None \<Rightarrow> send_error fd msg (''no arguments given'' @ nl) d
        | Some a \<Rightarrow>
            (if valid_event a then send_success fd msg (broadcast_message e (a @ nl) d)
             else send_error fd msg (''invalid event'' @ nl) d)))"

section \<open>Driver options and the input log\<close>

text \<open>\<open>%ns\<close> of \<open>sscanf\<close>: the word (at most \<open>n\<close> characters) and the rest.\<close>

definition scan_word :: "nat \<Rightarrow> string \<Rightarrow> (string \<times> string) option" where
  "scan_word n s =
     (let t = dropWhile isspace s; w = take n (takeWhile (\<lambda>c. \<not> isspace c) t)
      in if t = [] then None else Some (w, drop (length w) t))"

text \<open>\<open>key\<close> has 32 bytes and \<open>value\<close>, which follows it, 64. The NUL behind a key of 32 characters is overwritten by the
  value; the one behind a value of 64 characters lies outside. Without arguments \<open>sscanf\<close> is given NULL.\<close>

definition drv_option :: "lircd_env \<Rightarrow> int \<Rightarrow> string \<Rightarrow> string option \<Rightarrow> lircd \<Rightarrow> bool \<times> lircd" where
  "drv_option e fd msg arguments d = (case arguments of
     None \<Rightarrow> (False, d\<lparr>dl_fault := True\<rparr>)
   | Some a \<Rightarrow> (case scan_word 32 a of
       None \<Rightarrow> send_error fd msg (''Illegal argument (protocol error): '' @ a) d
     | Some (key, r) \<Rightarrow> (case scan_word 64 r of
         None \<Rightarrow> send_error fd msg (''Illegal argument (protocol error): '' @ a) d
       | Some (val, _) \<Rightarrow>
           (let d = (if length val = 64 then d\<lparr>dl_fault := True\<rparr> else d);
                (ret, d) = drvctl e (DrvOption (if length key = 32 then key @ val else key) val) d
            in if ret \<noteq> 0
               then send_error fd msg (''Cannot set driver option, code: '' @ fmt_d 0 (de_errno e)) d
               else send_success fd msg d))))"

definition use_logfile :: "lircd_env \<Rightarrow> int \<Rightarrow> string \<Rightarrow> string \<Rightarrow> lircd \<Rightarrow> bool \<times> lircd" where
  "use_logfile e fd msg path d = (case de_open_log e path of
     Some errno \<Rightarrow> send_error fd msg
       (''Cannot open input logfile: '' @ path @ '' (errno: '' @ fmt_d 0 errno @ '')'') d
   | None \<Rightarrow> send_success fd msg (d\<lparr>dl_logfile := Some path\<rparr>))"

definition set_inputlog :: "lircd_env \<Rightarrow> int \<Rightarrow> string \<Rightarrow> string option \<Rightarrow> lircd \<Rightarrow> bool \<times> lircd" where
  "set_inputlog e fd msg arguments d = (case arguments of
     None \<Rightarrow> send_success fd msg (d\<lparr>dl_logfile := None\<rparr>)
   | Some a \<Rightarrow> (case scan_word 128 a of
       None \<Rightarrow> send_error fd msg (''Illegal argument (protocol error): '' @ a) d
     | Some (path, _) \<Rightarrow>
         (let d = (if length path = 128 then d\<lparr>dl_fault := True\<rparr> else d)
          in if strcaseeq path ''null'' then send_success fd msg (d\<lparr>dl_logfile := None\<rparr>)
             else use_logfile e fd msg path d)))"

end
