(* ===== verification/Daemon_Send.thy ===== *)
theory Daemon_Send
  imports Daemon_Args
begin

text \<open>
  \<open>daemons/lircd.cpp\<close>: sending a button once or repeatedly, and the timer that repeats it.
\<close>

section \<open>One transmission\<close>

text \<open>\<open>send_ir_ncode(remote, code, 1)\<close> of \<open>lib/ir_remote.c\<close> with the daemon's state; the pause it makes before sending
  is left out. The clock is read once when the remote has sent before and once after a success.\<close>

definition transmit :: "lircd_env \<Rightarrow> remote_ptr \<Rightarrow> ncode_ref \<Rightarrow> lircd \<Rightarrow> bool \<times> lircd" where
  "transmit e r p d =
     (let rm = remote_at d r;
          (t0, d) = (if last_code rm \<noteq> None then time_of_day d else (zero_timeval, d));
          (ok, rm', tx) = de_send e (dl_repeat d \<noteq> None) rm p (dl_tx d);
          (t1, d) = (if ok then time_of_day d else (zero_timeval, d));
          (_, ret, rm') = send_ir_ncode (\<lambda>_ _. (ok, rm')) rm p True (map_option fst (dl_repeat d) = Some r) t0 t1
      in (ret, set_remote r rm' (d\<lparr>dl_tx := tx\<rparr>)))"

definition the_remote :: "remote_ptr \<Rightarrow> (ir_remote \<Rightarrow> ir_remote) \<Rightarrow> lircd \<Rightarrow> lircd" where
  "the_remote r f d = set_remote r (f (remote_at d r)) d"

section \<open>The timer\<close>

text \<open>The microseconds until the next repeat. \<open>secs\<close> is an \<open>unsigned long\<close>, \<open>gap\<close> and \<open>diff\<close> are \<open>lirc_t\<close>.\<close>

definition repeat_usecs :: "timespec \<Rightarrow> timespec \<Rightarrow> lirc_t \<Rightarrow> lirc_t" where
  "repeat_usecs before now gap' =
     (let secs = u64 (ts_sec now - ts_sec before);
          diff = i32 (u64 (1000000 * secs + (ts_nsec now - ts_nsec before) sdiv 1000));
          usecs = (if diff < gap' then i32 (gap' - diff) else 0)
      in if usecs < 10 then 10 else usecs)"

text \<open>\<open>setitimer\<close> with 0 seconds; it refuses a million microseconds and more, and the timer stays as it was.\<close>

definition setitimer :: "int \<Rightarrow> lircd \<Rightarrow> lircd" where
  "setitimer usecs d =
     (if usecs < 0 \<or> usecs \<ge> 1000000 then d
      else d\<lparr>dl_timer := (if usecs = 0 then None else Some usecs)\<rparr>)"

definition schedule_repeat_timer :: "timespec \<Rightarrow> lircd \<Rightarrow> lircd" where
  "schedule_repeat_timer before d = (case dl_repeat d of
     None \<Rightarrow> d\<lparr>dl_fault := True\<rparr>
   | Some (r, _) \<Rightarrow>
       (let gap' = i32 (send_buffer_sum (dl_tx d) + min_remaining_gap (remote_at d r));
            (now, d) = monotonic d
        in setitimer (repeat_usecs before now gap') d))"

definition sigalrm :: "lircd \<Rightarrow> lircd" where
  "sigalrm d = d\<lparr>dl_alrm := True\<rparr>"

text \<open>The end of a repetition: the client that waits is answered with \<open>reply\<close>.\<close>

definition answer_waiting :: "(int \<Rightarrow> string \<Rightarrow> lircd \<Rightarrow> bool \<times> lircd) \<Rightarrow> lircd \<Rightarrow> lircd" where
  "answer_waiting reply d = (case dl_repeat_fd d of
     None \<Rightarrow> d
   | Some fd \<Rightarrow> (case dl_repeat_message d of
       None \<Rightarrow> d\<lparr>dl_fault := True\<rparr>
     | Some msg \<Rightarrow> snd (reply fd msg d)))"

definition forget_waiting :: "lircd \<Rightarrow> lircd" where
  "forget_waiting d = d\<lparr>dl_repeat_fd := None, dl_repeat_message := None\<rparr>"

text \<open>The button counts as sent once more when it has no list of codes, or has got to the last one.\<close>

definition one_sent :: "ir_ncode \<Rightarrow> bool" where
  "one_sent nc \<longleftrightarrow> nexts nc = []
     \<or> (case transmit_state nc of None \<Rightarrow> False | Some k \<Rightarrow> succ_node nc k = None)"

definition count_repeat :: "remote_ptr \<Rightarrow> ncode_ref \<Rightarrow> lircd \<Rightarrow> lircd" where
  "count_repeat r p d =
     (if one_sent (deref (remote_at d r) p)
      then the_remote r (\<lambda>rm. rm\<lparr>repeat_countdown := i32 (repeat_countdown rm - 1)\<rparr>) d else d)"

definition end_repeat :: "lircd_env \<Rightarrow> lircd \<Rightarrow> lircd" where
  "end_repeat e d =
     (let d = d\<lparr>dl_repeat := None\<rparr>
      in deinit_hw e (if dl_repeat_fd d \<noteq> None then forget_waiting (answer_waiting send_success d) else d))"

definition interrupt_repeat :: "lircd_env \<Rightarrow> lircd \<Rightarrow> lircd" where
  "interrupt_repeat e d = deinit_hw e (forget_waiting
     ((answer_waiting (\<lambda>fd msg. send_error fd msg (''repeating interrupted'' @ nl)) d)\<lparr>dl_repeat := None\<rparr>))"

definition dosigalrm :: "lircd_env \<Rightarrow> lircd \<Rightarrow> lircd" where
  "dosigalrm e d = (case dl_repeat d of
     None \<Rightarrow> d\<lparr>dl_fault := True\<rparr>
   | Some (r, p) \<Rightarrow>
       (if last_code (remote_at d r) \<noteq> Some p then interrupt_repeat e d
        else
          (let (before, d) = monotonic (count_repeat r p d);
               (ok, d) = transmit e r p d
           in if ok \<and> repeat_countdown (remote_at d r) > 0 then schedule_repeat_timer before d else end_repeat e d)))"

section \<open>Sending\<close>

text \<open>What \<open>send_core\<close> does to the remote and the button before sending.\<close>

definition before_sending :: "ncode_ref \<Rightarrow> ir_remote \<Rightarrow> ir_remote" where
  "before_sending p rm =
     (let rm = (if has_toggle_mask rm then rm\<lparr>toggle_mask_state := 0\<rparr> else rm);
          rm = (if has_toggle_bit_mask rm
                then rm\<lparr>toggle_bit_mask_state := toggle_bit_mask_state rm XOR toggle_bit_mask rm\<rparr> else rm)
      in upd_ncode rm p (\<lambda>nc. nc\<lparr>transmit_state := None\<rparr>))"

text \<open>The number of repeats that are left after the first transmission; \<open>max\<close> has \<open>int\<close> arguments.\<close>

definition first_countdown :: "lircd_env \<Rightarrow> bool \<Rightarrow> int \<Rightarrow> ir_remote \<Rightarrow> int" where
  "first_countdown e once k rm =
     (if once then max (repeat_countdown rm) (i32 k) else i32 (de_repeat_max e))"

text \<open>The button is to be repeated: with \<open>SEND_ONCE\<close> the client is answered at the end.\<close>

definition begin_repeating :: "bool \<Rightarrow> int \<Rightarrow> string \<Rightarrow> timespec \<Rightarrow> remote_ptr \<Rightarrow> ncode_ref \<Rightarrow> lircd \<Rightarrow> bool \<times> lircd" where
  "begin_repeating once fd msg before r p d =
     (let d = d\<lparr>dl_repeat := Some (r, p)\<rparr>
      in if once then (True, schedule_repeat_timer before (d\<lparr>dl_repeat_message := Some msg, dl_repeat_fd := Some fd\<rparr>))
         else
           (let (ok, d) = send_success fd msg d
            in if ok then (True, schedule_repeat_timer before d) else (False, d\<lparr>dl_repeat := None\<rparr>)))"

definition send_button :: "lircd_env \<Rightarrow> bool \<Rightarrow> int \<Rightarrow> string \<Rightarrow> remote_ptr \<Rightarrow> ncode_ref \<Rightarrow> int \<Rightarrow> lircd \<Rightarrow> bool \<times> lircd" where
  "send_button e once fd msg r p k d =
     (let d = the_remote r (before_sending p) d;
          (before, d) = monotonic d;
          (ok, d) = transmit e r p d
      in if \<not> ok then send_error fd msg (''transmission failed'' @ nl) d
         else
           (let (t, d) = time_of_day d;
                d = the_remote r (\<lambda>rm. rm\<lparr>last_send := t, last_code := Some p,
                                     repeat_countdown := first_countdown e once k rm\<rparr>) d;
                rm = remote_at d r
            in if repeat_countdown rm > 0 \<or> nexts (deref rm p) \<noteq> [] then begin_repeating once fd msg before r p d
               else send_success fd msg d))"

definition send_core :: "lircd_env \<Rightarrow> bool \<Rightarrow> int \<Rightarrow> string \<Rightarrow> string option \<Rightarrow> lircd \<Rightarrow> bool \<times> lircd" where
  "send_core e once fd msg arguments d =
     (if de_send_mode e = 0 then send_error fd msg (''hardware does not support sending'' @ nl) d
      else (case parse_rc e fd msg arguments once 2 d of
          Inl res \<Rightarrow> res
        | Inr (r, c, k) \<Rightarrow>
            (if dl_repeat d \<noteq> None
             then send_error fd msg (if once then ''busy: repeating'' @ nl else ''already repeating'' @ nl) d
             else (case (r, c) of
                 (Some (RIndex i), Some p) \<Rightarrow> send_button e once fd msg (Here i) p k d
               | _ \<Rightarrow> (False, d\<lparr>dl_fault := True\<rparr>)))))"

definition send_once :: "lircd_env \<Rightarrow> int \<Rightarrow> string \<Rightarrow> string option \<Rightarrow> lircd \<Rightarrow> bool \<times> lircd" where
  "send_once e = send_core e True"

definition send_start :: "lircd_env \<Rightarrow> int \<Rightarrow> string \<Rightarrow> string option \<Rightarrow> lircd \<Rightarrow> bool \<times> lircd" where
  "send_start e = send_core e False"

section \<open>Stopping\<close>

definition stop_repeating :: "lircd_env \<Rightarrow> int \<Rightarrow> string \<Rightarrow> remote_ptr \<Rightarrow> lircd \<Rightarrow> bool \<times> lircd" where
  "stop_repeating e fd msg r d =
     (let rm = remote_at d r; sent = i32 (de_repeat_max e - repeat_countdown rm)
      in if sent < min_repeat rm
         then send_success fd msg (the_remote r (\<lambda>rm. rm\<lparr>repeat_countdown := i32 (min_repeat rm - sent)\<rparr>) d)
         else send_success fd msg
           ((the_remote r (\<lambda>rm. rm\<lparr>toggle_mask_state := 0\<rparr>) (setitimer 0 d))\<lparr>dl_repeat := None, dl_alrm := False\<rparr>))"

definition send_stop :: "lircd_env \<Rightarrow> int \<Rightarrow> string \<Rightarrow> string option \<Rightarrow> lircd \<Rightarrow> bool \<times> lircd" where
  "send_stop e fd msg arguments d = (case parse_rc e fd msg arguments False 0 d of
     Inl res \<Rightarrow> res
   | Inr (r, c, _) \<Rightarrow> (case dl_repeat d of
       None \<Rightarrow> send_error fd msg (''not repeating'' @ nl) d
     | Some (q, p) \<Rightarrow>
         (if (case r of None \<Rightarrow> False
              | Some r \<Rightarrow> \<not> strcaseeq (name_text (rname (deref_remote d r))) (name_text (rname (remote_at d q))))
          then send_error fd msg (''specified remote does not match'' @ nl) d
          else if (case (r, c) of (Some r, Some c) \<Rightarrow>
                     \<not> strcaseeq (nname (deref (deref_remote d r) c)) (nname (deref (remote_at d q) p))
                   | _ \<Rightarrow> False)
          then send_error fd msg (''specified code does not match'' @ nl) d
          else stop_repeating e fd msg q d)))"

end
