(* ===== verification/Daemon_Config.thy ===== *)
theory Daemon_Config
  imports Daemon_Send Config_Read
begin

text \<open>
  \<open>daemons/lircd.cpp\<close>: reading the configuration, setting up the receiver for it, and letting the configuration
  before it go.
\<close>

section \<open>The receiver\<close>

abbreviation (input) LIRC_CAN_SET_REC_CARRIER :: int where "LIRC_CAN_SET_REC_CARRIER \<equiv> 0x01000000"
abbreviation (input) LIRC_CAN_SET_REC_CARRIER_RANGE :: int where "LIRC_CAN_SET_REC_CARRIER_RANGE \<equiv> 0x80000000"
abbreviation (input) LIRC_CAN_SET_REC_TIMEOUT :: int where "LIRC_CAN_SET_REC_TIMEOUT \<equiv> 0x10000000"

definition can :: "lircd_env \<Rightarrow> int \<Rightarrow> bool" where
  "can e f \<longleftrightarrow> de_features e AND f \<noteq> 0"

definition setup_frequency :: "lircd_env \<Rightarrow> lircd \<Rightarrow> bool \<times> lircd" where
  "setup_frequency e d =
     (if \<not> can e LIRC_CAN_SET_REC_CARRIER then (True, d)
      else
        (let d = (if dl_min_freq d = 0 \<or> dl_max_freq d = 0
                  then d\<lparr>dl_min_freq := DEFAULT_FREQ, dl_max_freq := DEFAULT_FREQ\<rparr> else d);
             (ok, fr, d) =
               (if can e LIRC_CAN_SET_REC_CARRIER_RANGE \<and> dl_min_freq d \<noteq> dl_max_freq d then
                  (let (ret, d) = drvctl e (DrvCarrierRange (dl_min_freq d)) d in (ret \<noteq> -1, dl_max_freq d, d))
                else (True, u32 (dl_min_freq d + dl_max_freq d) div 2, d))
         in if \<not> ok then (False, d)
            else (let (ret, d) = drvctl e (DrvCarrier fr) d in (ret \<noteq> -1, d))))"

text \<open>The timeout that is chosen.\<close>

definition choose_timeout :: "lirc_t \<Rightarrow> lirc_t \<Rightarrow> int \<Rightarrow> int \<Rightarrow> int" where
  "choose_timeout max_gap' max_space lo hi =
     (if u32 max_gap' \<ge> lo \<and> u32 max_gap' \<le> hi then u32 max_gap'
      else (let val = u32 (i32 (max_space + 1)) in if val < lo then lo else if val > hi then hi else val))"

definition setup_timeout :: "lircd_env \<Rightarrow> lircd \<Rightarrow> bool \<times> lircd" where
  "setup_timeout e d =
     (if \<not> can e LIRC_CAN_SET_REC_TIMEOUT \<or> fp_max_space (dl_filter d) = 0 then (True, d)
      else (case de_timeouts e of
          None \<Rightarrow> (False, d)
        | Some (lo, hi) \<Rightarrow>
            (let (ret, d) = drvctl e (DrvTimeout (choose_timeout (fp_max_gap (dl_filter d)) (fp_max_space (dl_filter d)) lo hi)) d
             in if ret \<noteq> 0 then (False, d) else (True, snd (drvctl e DrvTimeoutReports d)))))"

definition setup_hardware :: "lircd_env \<Rightarrow> lircd \<Rightarrow> bool \<times> lircd" where
  "setup_hardware e d =
     (if dl_hw d \<and> de_drvctl e \<noteq> None \<and> (can e LIRC_CAN_SET_REC_CARRIER \<or> can e LIRC_CAN_SET_REC_TIMEOUT)
      then (let (ok, d) = setup_frequency e d in if ok then setup_timeout e d else (False, d))
      else (True, d))"

section \<open>Reading the configuration\<close>

text \<open>The names \<open>check_config_duplicates\<close> warns of.\<close>

fun check_config_duplicates :: "string list \<Rightarrow> string set \<Rightarrow> string list" where
  "check_config_duplicates [] names = []"
| "check_config_duplicates (n # ns) names =
     (if n \<in> names then n # check_config_duplicates ns names else check_config_duplicates ns (insert n names))"

text \<open>The remotes of a configuration that was read come into use; the pointers into the one before stay.
  \<open>last_decoded\<close> is only compared with remotes of the configuration in use.\<close>

definition adopt :: "lircd_env \<Rightarrow> ir_remote list \<Rightarrow> lircd \<Rightarrow> lircd" where
  "adopt e rs d =
     (let d = d\<lparr>dl_old := (if remotes (dl_g d) = [] then None else Some (remotes (dl_g d))),
                dl_last_old := (case last_remote (dl_g d) of Some i \<Rightarrow> OldAt i | None \<Rightarrow> dl_last_old d),
                dl_repeat := map_option (\<lambda>(r, p). (case r of Here i \<Rightarrow> Gone i | Gone i \<Rightarrow> Gone i, p)) (dl_repeat d),
                dl_g := (dl_g d)\<lparr>remotes := rs, last_remote := None, last_decoded := None\<rparr>,
                dl_min_freq := fst (get_frequency_range rs), dl_max_freq := snd (get_frequency_range rs),
                dl_filter := get_filter_parameters (de_driver e) rs\<rparr>
      in snd (setup_hardware e d))"

text \<open>The file that is read: without an option the old place is tried as well. \<open>fs\<close> gives the contents of a file.\<close>

definition config_file :: "lircd_env \<Rightarrow> (string \<Rightarrow> string option) \<Rightarrow> string option \<Rightarrow> (string \<times> string) option" where
  "config_file e fs configfile =
     (let filename = (case configfile of None \<Rightarrow> de_cfgfile e | Some f \<Rightarrow> f)
      in case fs filename of
           Some c \<Rightarrow> Some (filename, c)
         | None \<Rightarrow> (if configfile = None then map_option (Pair (de_oldcfgfile e)) (fs (de_oldcfgfile e)) else None))"

text \<open>\<open>config\<close>. \<open>read_config\<close> gives a list of remotes even for a file with an error, so that the test for the error
  value never holds.\<close>

definition config :: "lircd_env \<Rightarrow> (string \<Rightarrow> string option) \<Rightarrow> lircd \<Rightarrow> lircd" where
  "config e fs d =
     (if dl_old d \<noteq> None then d
      else (case config_file e fs (dl_configfile d) of
          None \<Rightarrow> d
        | Some (filename, c) \<Rightarrow>
            (let d = d\<lparr>dl_configfile := Some filename\<rparr>
             in case read_config fs (de_glob e) (use_dyncodes (dl_g d)) filename c (dl_tx d) of
                  None \<Rightarrow> d\<lparr>dl_fault := True\<rparr>
                | Some (rs, tx) \<Rightarrow>
                    (if \<exists>rm \<in> set rs. rname rm = None then d\<lparr>dl_fault := True\<rparr>
                     else adopt e rs (d\<lparr>dl_tx := tx\<rparr>)))))"

text \<open>\<open>dosighup\<close>, when the log file could be opened again. All clients are told, and the peers that are not connected
  are tried at once.\<close>

definition restart_peers :: "peer list \<Rightarrow> lircd \<Rightarrow> peer list \<times> lircd" where
  "restart_peers ps d = fold (\<lambda>p (qs, d).
     if pr_socket p = None then (let (t, d) = time_of_day d in (qs @ [p\<lparr>pr_reconnect := t, pr_failures := 0\<rparr>], d))
     else (qs @ [p], d)) ps ([], d)"

definition dosighup :: "lircd_env \<Rightarrow> (string \<Rightarrow> string option) \<Rightarrow> lircd \<Rightarrow> lircd" where
  "dosighup e fs d =
     (let d = tell_clients e False [p_begin, p_sighup, p_end] 0 (config e fs d);
          (ps, d) = restart_peers (dl_peers d) d
      in d\<lparr>dl_peers := ps\<rparr>)"

section \<open>Letting the old configuration go\<close>

text \<open>The pointers in the new configuration for a remote and a button of the old one, by their names.\<close>

definition same_button :: "lircd \<Rightarrow> ir_remote \<Rightarrow> ncode_ref \<Rightarrow> (nat \<times> ncode_ref) option" where
  "same_button d rm p = (case get_ir_remote (remotes (dl_g d)) (name_text (rname rm)) of
     None \<Rightarrow> None
   | Some r \<Rightarrow> (case get_code_by_name (deref_remote d r) (nname (deref rm p)) of
       None \<Rightarrow> None
     | Some c \<Rightarrow> (case r of RIndex i \<Rightarrow> Some (i, c) | RInternal \<Rightarrow> None)))"

text \<open>What is known of the signals of the old remote is copied.\<close>

definition copy_signal_state :: "ir_remote \<Rightarrow> ncode_ref \<Rightarrow> ir_remote \<Rightarrow> ir_remote" where
  "copy_signal_state old c rm = rm\<lparr>toggle_bit_mask_state := toggle_bit_mask_state old,
     min_remaining_gap := min_remaining_gap old, max_remaining_gap := max_remaining_gap old,
     last_send := last_send old, last_code := Some c\<rparr>"

text \<open>\<open>last_remote\<close>: mapped when the new configuration has the remote and the button, else left where it is; a pointer
  that does not point into the old configuration is cleared, also one into the new configuration.\<close>

definition map_last_remote :: "lircd \<Rightarrow> lircd" where
  "map_last_remote d = (case dl_last_old d of
     OldAt i \<Rightarrow>
       (let old = remote_at d (Gone i)
        in case last_code old of
             None \<Rightarrow> d\<lparr>dl_fault := True\<rparr>
           | Some p \<Rightarrow> (case same_button d old p of
               None \<Rightarrow> d
             | Some (j, c) \<Rightarrow>
                 (let d = the_remote (Here j) (\<lambda>rm. (copy_signal_state old c rm)\<lparr>reps := reps old\<rparr>) d
                  in d\<lparr>dl_g := (dl_g d)\<lparr>last_remote := Some j\<rparr>, dl_last_old := NotOld\<rparr>)))
   | _ \<Rightarrow> d\<lparr>dl_g := (dl_g d)\<lparr>last_remote := None\<rparr>, dl_last_old := NotOld\<rparr>)"

text \<open>\<open>repeat_remote\<close>: mapped in the same way; the result says whether the old configuration is still needed.\<close>

definition map_repeat :: "lircd \<Rightarrow> bool \<times> lircd" where
  "map_repeat d = (case dl_repeat d of
     Some (Gone i, p) \<Rightarrow>
       (let old = remote_at d (Gone i)
        in case same_button d old p of
             None \<Rightarrow> (True, d)
           | Some (j, c) \<Rightarrow>
               (False, (the_remote (Here j) (copy_signal_state old c) d)\<lparr>dl_repeat := Some (Here j, c)\<rparr>))
   | _ \<Rightarrow> (False, d))"

text \<open>\<open>get_decoding\<close> gives the address of the variable \<open>decoding\<close>, which is never that of a remote: the tests for a
  decoding that is going on with the old configuration do not hold. The timer goes on with the time it had left.\<close>

definition free_old_remotes :: "lircd \<Rightarrow> lircd" where
  "free_old_remotes d =
     (let (needed, d) = map_repeat (map_last_remote d)
      in if needed then d
         else d\<lparr>dl_old := None, dl_last_old := (case dl_last_old d of OldAt _ \<Rightarrow> OldFreed | x \<Rightarrow> x)\<rparr>)"

end
