(* ===== verification/Daemon_Command.thy ===== *)
theory Daemon_Command
  imports Daemon_Config
begin

text \<open>
  \<open>daemons/lircd.cpp\<close>: reading the commands of a client and the messages of a peer, new clients and connections to
  peers.
\<close>

section \<open>Commands\<close>

type_synonym command = "int \<Rightarrow> string \<Rightarrow> string option \<Rightarrow> lircd \<Rightarrow> bool \<times> lircd"

definition directives :: "lircd_env \<Rightarrow> (string \<times> command) list" where
  "directives e =
     [(''LIST'', list_cmd e), (''SEND_ONCE'', send_once e), (''SEND_START'', send_start e), (''SEND_STOP'', send_stop e),
      (''SET_INPUTLOG'', set_inputlog e), (''DRV_OPTION'', drv_option e), (''VERSION'', \<lambda>fd msg _. version e fd msg),
      (''SET_TRANSMITTERS'', set_transmitters e), (''SIMULATE'', simulate e)]"

text \<open>The line without the carriage return at its end.\<close>

definition strip_cr :: "string \<Rightarrow> string" where
  "strip_cr s = (if s \<noteq> [] \<and> last s = carriage_return then butlast s else s)"

text \<open>One line of a packet, without its newline: the part of \<open>get_command\<close> that handles a command. The arguments are
  what \<open>strtok(NULL, "")\<close> gives: everything behind the blank that ended the directive.\<close>

definition handle_line :: "lircd_env \<Rightarrow> int \<Rightarrow> string \<Rightarrow> lircd \<Rightarrow> bool \<times> lircd" where
  "handle_line e fd line d =
     (let backup = line @ nl; (tok, rest) = strtok_step is_blank (strip_cr line)
      in case tok of
           None \<Rightarrow> send_error fd backup (''bad send packet'' @ nl) d
         | Some t \<Rightarrow> (case find_index (\<lambda>(n, _). strcaseeq t n) (directives e) of
             None \<Rightarrow> send_error fd backup (''unknown directive: '' @ quoted t @ nl) d
           | Some i \<Rightarrow> snd (directives e ! i) fd backup (if rest = [] then None else Some rest) d))"

end
