(* ===== verification/Daemon_Frame.thy ===== *)
theory Daemon_Frame
  imports Daemon_Command
begin

text \<open>
  What the operations of the daemon leave alone: replies only write, no command reads from a client, and the sockets
  of the other clients are not written to.
\<close>

section \<open>Writing\<close>

lemma same_frame: "\<exists>out sent. d = d\<lparr>dl_out := out, dl_sent := sent\<rparr>"
  by (rule exI [of _ "dl_out d"], rule exI [of _ "dl_sent d"]) simp

lemma write_socket_frame: "\<exists>out sent. snd (write_socket fd s d) = d\<lparr>dl_out := out, dl_sent := sent\<rparr>"
proof (cases "fd \<in> set (dl_clis d)")
  case True
  obtain ok es w where "write_loop WRITE_RETRIES (dl_out d fd) s [] = (ok, es, w)" by (cases "write_loop WRITE_RETRIES (dl_out d fd) s []")
  then have "snd (write_socket fd s d) = d\<lparr>dl_out := (dl_out d)(fd := es), dl_sent := (dl_sent d)(fd := dl_sent d fd @ w)\<rparr>"
    using True by (simp add: write_socket_def)
  then show ?thesis by blast
qed (simp add: write_socket_def same_frame)

lemma write_all_frame: "\<exists>out sent. snd (write_all fd ss d) = d\<lparr>dl_out := out, dl_sent := sent\<rparr>"
proof (induction ss arbitrary: d)
  case Nil
  show ?case using same_frame [of d] by simp
next
  case (Cons s ss)
  obtain ok d1 where w: "write_socket fd s d = (ok, d1)" by (cases "write_socket fd s d")
  then obtain o1 s1 where d1: "d1 = d\<lparr>dl_out := o1, dl_sent := s1\<rparr>" using write_socket_frame [of fd s d] by auto
  obtain o2 s2 where "snd (write_all fd ss d1) = d1\<lparr>dl_out := o2, dl_sent := s2\<rparr>" using Cons.IH by blast
  then have "snd (write_all fd (s # ss) d) = d\<lparr>dl_out := (if ok then o2 else o1), dl_sent := (if ok then s2 else s1)\<rparr>"
    using w d1 by simp
  then show ?case by blast
qed

declare write_all.simps [simp del]

lemma written_fields:
  assumes "\<exists>out sent. d' = d\<lparr>dl_out := out, dl_sent := sent\<rparr>"
  shows "dl_g d' = dl_g d" "dl_old d' = dl_old d" "dl_last_old d' = dl_last_old d" "dl_repeat d' = dl_repeat d"
    "dl_repeat_fd d' = dl_repeat_fd d" "dl_repeat_message d' = dl_repeat_message d" "dl_timer d' = dl_timer d"
    "dl_alrm d' = dl_alrm d" "dl_clis d' = dl_clis d" "dl_types d' = dl_types d" "dl_peers d' = dl_peers d"
    "dl_hw d' = dl_hw d" "dl_tx d' = dl_tx d" "dl_drv d' = dl_drv d" "dl_in d' = dl_in d" "dl_fault d' = dl_fault d"
    "dl_logfile d' = dl_logfile d" "dl_configfile d' = dl_configfile d" "dl_exit d' = dl_exit d"
    "dl_filter d' = dl_filter d" "dl_mono d' = dl_mono d" "dl_tod d' = dl_tod d"
  using assms by (elim exE, simp)+

lemmas write_all_fields [simp] = written_fields [OF write_all_frame]

lemma fault_if_fields [simp]:
  "dl_g (if b then d\<lparr>dl_fault := True\<rparr> else d) = dl_g d" "dl_old (if b then d\<lparr>dl_fault := True\<rparr> else d) = dl_old d"
  "dl_repeat (if b then d\<lparr>dl_fault := True\<rparr> else d) = dl_repeat d" "dl_clis (if b then d\<lparr>dl_fault := True\<rparr> else d) = dl_clis d"
  "dl_repeat_fd (if b then d\<lparr>dl_fault := True\<rparr> else d) = dl_repeat_fd d"
  "dl_repeat_message (if b then d\<lparr>dl_fault := True\<rparr> else d) = dl_repeat_message d"
  "dl_timer (if b then d\<lparr>dl_fault := True\<rparr> else d) = dl_timer d" "dl_alrm (if b then d\<lparr>dl_fault := True\<rparr> else d) = dl_alrm d"
  "dl_types (if b then d\<lparr>dl_fault := True\<rparr> else d) = dl_types d" "dl_in (if b then d\<lparr>dl_fault := True\<rparr> else d) = dl_in d"
  "dl_tx (if b then d\<lparr>dl_fault := True\<rparr> else d) = dl_tx d" "dl_sent (if b then d\<lparr>dl_fault := True\<rparr> else d) = dl_sent d"
  "dl_out (if b then d\<lparr>dl_fault := True\<rparr> else d) = dl_out d" "dl_drv (if b then d\<lparr>dl_fault := True\<rparr> else d) = dl_drv d"
  "dl_last_old (if b then d\<lparr>dl_fault := True\<rparr> else d) = dl_last_old d"
  by simp_all

section \<open>Commands\<close>

text \<open>What no command changes.\<close>

definition quiet :: "lircd \<Rightarrow> lircd \<Rightarrow> bool" where
  "quiet d d' \<longleftrightarrow> dl_in d' = dl_in d \<and> dl_types d' = dl_types d \<and> dl_last_old d' = dl_last_old d
     \<and> dl_peers d' = dl_peers d \<and> dl_exit d' = dl_exit d \<and> dl_configfile d' = dl_configfile d
     \<and> (dl_old d' = None \<longleftrightarrow> dl_old d = None)"

lemma quiet_refl [simp]: "quiet d d"
  by (simp add: quiet_def)

lemma quiet_trans: "quiet d d1 \<Longrightarrow> quiet d1 d2 \<Longrightarrow> quiet d d2"
  by (simp add: quiet_def)

lemma quiet_in: "quiet d d' \<Longrightarrow> dl_in d' = dl_in d"
  by (simp add: quiet_def)

lemma quiet_write_all: "quiet d (snd (write_all fd ss d))"
  by (simp add: quiet_def)

lemma quiet_fault: "quiet d (d\<lparr>dl_fault := b\<rparr>)"
  by (simp add: quiet_def)

lemma quiet_reply:
  "quiet d (snd (send_success fd msg d))" "quiet d (snd (send_error fd msg t d))"
  "quiet d (snd (send_remote_list fd msg d))" "quiet d (snd (send_remote fd msg rm d))"
  "quiet d (snd (send_name fd msg nc d))" "quiet d (snd (version e fd msg d))"
  by (simp_all add: quiet_def send_success_def send_error_def send_remote_list_def send_remote_def send_name_def
      version_def Let_def)

lemma quiet_then_reply:
  "quiet d d1 \<Longrightarrow> quiet d (snd (send_success fd msg d1))" "quiet d d1 \<Longrightarrow> quiet d (snd (send_error fd msg t d1))"
  by (auto intro: quiet_trans quiet_reply)

lemma quiet_deinit: "quiet d (deinit_hw e d)"
  by (simp add: quiet_def deinit_hw_def)

lemma quiet_remove_client: "quiet d (remove_client e fd d)"
proof (cases "find_index (\<lambda>x. x = fd) (dl_clis d)")
  case (Some i)
  have "quiet d (d\<lparr>dl_clis := take i (dl_clis d) @ drop (i + 1) (dl_clis d), dl_stale := last (dl_clis d) # dl_stale d\<rparr>)"
    by (simp add: quiet_def)
  then show ?thesis unfolding remove_client_def Some option.case by (rule quiet_trans [OF _ quiet_deinit])
qed (simp add: remove_client_def)

lemma quiet_tell: "quiet d (tell_clients e loc ss i d)"
proof (induction i d rule: tell_induct [where e = e and loc = loc and ss = ss])
  case (ok i d d1)
  then show ?case using quiet_trans [OF quiet_write_all [of d "dl_clis d ! i" ss]] by (simp add: tell_ok)
next
  case (gone i d d1)
  have "quiet d d1" using quiet_write_all [of d "dl_clis d ! i" ss] gone(3) by simp
  then have "quiet d (remove_client e (dl_clis d ! i) d1)" by (rule quiet_trans [OF _ quiet_remove_client])
  then show ?case using quiet_trans gone by (simp add: tell_drop)
qed (simp_all add: tell_end tell_skip)

lemma quiet_drvctl: "quiet d (snd (drvctl e c d))"
  by (simp add: quiet_def drvctl_def split: option.split)

lemma quiet_rc: "parse_rc e fd msg arguments w n d = Inl res \<Longrightarrow> quiet d (snd res)"
  by (auto simp: parse_rc_def quiet_reply split: sum.splits if_splits)

lemma quiet_list: "quiet d (snd (list_cmd e fd msg a d))"
  by (auto simp: list_cmd_def quiet_reply split: sum.split option.split dest: quiet_rc)

lemma quiet_transmitters: "quiet d (snd (set_transmitters e fd msg a d))"
  by (auto simp: set_transmitters_def quiet_reply Let_def case_prod_beta split: sum.split intro: quiet_then_reply quiet_drvctl)

lemma quiet_simulate: "quiet d (snd (simulate e fd msg a d))"
  by (auto simp: simulate_def quiet_reply broadcast_message_def split: option.split intro: quiet_then_reply quiet_tell)

lemma quiet_if_fault: "quiet d (if b then d\<lparr>dl_fault := True\<rparr> else d)"
  by (simp add: quiet_fault)

lemma quiet_option: "quiet d (snd (drv_option e fd msg a d))"
  by (auto simp: drv_option_def quiet_reply quiet_fault Let_def case_prod_beta split: option.split
      intro!: quiet_then_reply intro: quiet_trans [OF quiet_if_fault quiet_drvctl] quiet_drvctl
        quiet_trans [OF quiet_fault quiet_drvctl])

lemma quiet_log: "quiet d (snd (set_inputlog e fd msg a d))"
proof -
  have l: "quiet d1 (snd (use_logfile e fd msg path d1))" for path d1
    by (auto simp: use_logfile_def quiet_def split: option.split intro!: quiet_then_reply [unfolded quiet_def])
  have n: "quiet d1 (d1\<lparr>dl_logfile := x\<rparr>)" for d1 x by (simp add: quiet_def)
  show ?thesis
    by (auto simp: set_inputlog_def quiet_reply Let_def case_prod_beta n l split: option.split
        intro!: quiet_then_reply intro: quiet_trans [OF quiet_fault n] quiet_trans [OF quiet_fault l])
qed

section \<open>Sending\<close>

lemma quiet_set_remote: "quiet d (set_remote r rm d)" "quiet d (the_remote r f d)"
  by (simp_all add: quiet_def set_remote_def the_remote_def split: remote_ptr.split)

lemma quiet_clocks: "quiet d (snd (monotonic d))" "quiet d (snd (time_of_day d))"
  by (simp_all add: quiet_def monotonic_def time_of_day_def split: list.split)

lemma quiet_setitimer: "quiet d (setitimer n d)"
  by (simp add: quiet_def setitimer_def)

lemma quiet_transmit: "quiet d (snd (transmit e r p d))"
proof -
  have t: "quiet d1 (d1\<lparr>dl_tx := x\<rparr>)" for d1 x by (simp add: quiet_def)
  have c: "quiet d (snd (if b then time_of_day d else (z, d)))" for b z d
    by (simp add: quiet_clocks)
  show ?thesis unfolding transmit_def Let_def case_prod_beta snd_conv
    by (rule quiet_trans [OF quiet_trans [OF quiet_trans [OF c c] t] quiet_set_remote(1)])
qed

lemma quiet_schedule: "quiet d (schedule_repeat_timer t d)"
  unfolding schedule_repeat_timer_def Let_def case_prod_beta
  by (auto split: option.split intro: quiet_fault quiet_trans [OF quiet_clocks(1) quiet_setitimer])

lemma quiet_updates:
  "quiet d (d\<lparr>dl_repeat := x\<rparr>)" "quiet d (d\<lparr>dl_repeat_message := m, dl_repeat_fd := f\<rparr>)"
  "quiet d (d\<lparr>dl_repeat := x, dl_alrm := a\<rparr>)"
  by (simp_all add: quiet_def)

lemma quiet_begin: "quiet d (snd (begin_repeating once fd msg before r p d))"
proof -
  define d1 where "d1 = d\<lparr>dl_repeat := Some (r, p)\<rparr>"
  have q: "quiet d d1" "quiet d (snd (send_success fd msg d1))" unfolding d1_def
    by (auto intro: quiet_then_reply quiet_updates)
  show ?thesis unfolding begin_repeating_def Let_def case_prod_beta d1_def [symmetric]
    using quiet_trans [OF quiet_trans [OF q(1) quiet_updates(2)] quiet_schedule] quiet_trans [OF q(2) quiet_schedule]
      quiet_trans [OF q(2) quiet_updates(1)] by auto
qed

lemma quiet_send_button: "quiet d (snd (send_button e once fd msg r p k d))"
proof -
  define d1 where "d1 = snd (monotonic (the_remote r (before_sending p) d))"
  define d2 where "d2 = snd (transmit e r p d1)"
  have q2: "quiet d d2" unfolding d2_def d1_def
    by (rule quiet_trans [OF quiet_trans [OF quiet_set_remote(2) quiet_clocks(1)] quiet_transmit])
  have q3: "quiet d (the_remote r f (snd (time_of_day d2)))" for f
    by (rule quiet_trans [OF quiet_trans [OF q2 quiet_clocks(2)] quiet_set_remote(2)])
  show ?thesis unfolding send_button_def Let_def case_prod_beta d1_def [symmetric] d2_def [symmetric]
    using quiet_then_reply(2) [OF q2] quiet_then_reply(1) [OF q3] quiet_trans [OF q3 quiet_begin] by auto
qed

lemma quiet_send_core: "quiet d (snd (send_core e once fd msg a d))"
  unfolding send_core_def
  by (auto split: sum.split option.split remote_ref.split prod.split
      intro: quiet_reply quiet_fault quiet_send_button dest: quiet_rc)

lemma quiet_stop: "quiet d (snd (send_stop e fd msg a d))"
proof -
  have s: "quiet d (snd (stop_repeating e fd msg r d))" for r
    unfolding stop_repeating_def Let_def
    by (auto intro!: quiet_then_reply quiet_set_remote intro: quiet_trans [OF _ quiet_updates(3)]
        quiet_trans [OF quiet_setitimer quiet_set_remote(2)])
  show ?thesis unfolding send_stop_def
    by (auto split: sum.split option.split prod.split intro: quiet_reply s dest: quiet_rc)
qed

lemma quiet_command: "i < length (directives e) \<Longrightarrow> quiet d (snd (snd (directives e ! i) fd msg a d))"
proof -
  have "\<forall>c \<in> set (map snd (directives e)). quiet d (snd (c fd msg a d))"
    by (simp add: directives_def quiet_list send_once_def send_start_def quiet_send_core quiet_stop quiet_log quiet_option
        quiet_reply quiet_transmitters quiet_simulate)
  then show "i < length (directives e) \<Longrightarrow> quiet d (snd (snd (directives e ! i) fd msg a d))" by simp
qed

lemma quiet_line: "quiet d (snd (handle_line e fd line d))"
  by (auto simp: handle_line_def Let_def quiet_reply split: option.split prod.split
      dest!: find_index_Some intro: quiet_command)

end
