(* ===== verification/Daemon_Loop.thy ===== *)
theory Daemon_Loop
  imports Daemon_Frame
begin

text \<open>
  \<open>daemons/lircd.cpp\<close>: the commands of a client, the messages of a peer, new clients and connections, and the loop
  that waits for them.
\<close>

section \<open>The commands of a client\<close>

text \<open>A C string in a buffer.\<close>

definition packet_text :: "string \<Rightarrow> string" where
  "packet_text s = takeWhile (\<lambda>c. c \<noteq> c_nul) s"

definition in_left :: "read_event list \<Rightarrow> nat" where
  "in_left es = sum_list (map (\<lambda>ev. case ev of RData s \<Rightarrow> length s | RFail \<Rightarrow> 0) es)"

lemma read_timeout_left:
  "read_timeout fd n w d = Some (Inr s, d') \<Longrightarrow> length s + in_left (dl_in d' fd) \<le> in_left (dl_in d fd)"
  by (auto simp: read_timeout_def in_left_def split: list.splits read_event.splits if_splits)

text \<open>The loop of \<open>get_command\<close>; \<open>buf\<close> is what the buffer holds. When a packet ends in a line the rest of which has not
  come within 5 microseconds, the function returns 0, and the client is removed.\<close>

function command_lines :: "lircd_env \<Rightarrow> int \<Rightarrow> string \<Rightarrow> lircd \<Rightarrow> bool \<times> lircd" where
  "command_lines e fd buf d =
     (if newline \<notin> set (packet_text buf) then (False, d)
      else
        (let line = takeWhile (\<lambda>c. c \<noteq> newline) buf;
             (ok, d) = handle_line e fd line d;
             rest = drop (length line + 1) buf
         in if \<not> ok then (False, d)
            else if rest = [] then (True, d)
            else if newline \<in> set (packet_text rest) then command_lines e fd rest d
            else (case read_timeout fd (PACKET_SIZE - length rest) False d of
                None \<Rightarrow> (False, d)
              | Some (Inl _, d) \<Rightarrow> (True, d)
              | Some (Inr s, d) \<Rightarrow> (if s = [] then (False, d) else command_lines e fd (rest @ s) d))))"
  by pat_completeness auto
termination
proof (relation "measure (\<lambda>(e, fd, buf, d). length buf + in_left (dl_in d fd))")
  fix e fd buf d line x ok d1 rest
  assume a: "\<not> newline \<notin> set (packet_text buf)" "line = takeWhile (\<lambda>c. c \<noteq> newline) buf" "x = handle_line e fd line d"
    "(ok, d1) = x" "rest = drop (length line + 1) buf"
  have i: "dl_in d1 = dl_in d" using quiet_in [OF quiet_line, of e fd line d] a(3,4) by (metis snd_conv)
  have l: "length rest < length buf" using a(1,5) by (cases buf) (auto simp: packet_text_def)
  show "((e, fd, rest, d1), e, fd, buf, d) \<in> measure (\<lambda>(e, fd, buf, d). length buf + in_left (dl_in d fd))"
    using i l by simp
  fix r z d2 s
  assume "read_timeout fd (PACKET_SIZE - length rest) False d1 = Some r" "(z, d2) = r" "z = Inr s"
  then have "length s + in_left (dl_in d2 fd) \<le> in_left (dl_in d fd)" using read_timeout_left i by metis
  then show "((e, fd, rest @ s, d2), e, fd, buf, d) \<in> measure (\<lambda>(e, fd, buf, d). length buf + in_left (dl_in d fd))"
    using l by simp
qed simp

declare command_lines.simps [simp del]

text \<open>None: the function waits for the client without a limit.\<close>

definition get_command :: "lircd_env \<Rightarrow> int \<Rightarrow> lircd \<Rightarrow> (bool \<times> lircd) option" where
  "get_command e fd d = (case read_timeout fd PACKET_SIZE True d of
     None \<Rightarrow> None
   | Some (Inl _, d) \<Rightarrow> Some (True, d)
   | Some (Inr s, d) \<Rightarrow> Some (if s = [] then (False, d) else command_lines e fd s d))"

section \<open>New clients\<close>

datatype family = FUnix | FInet | FOther

text \<open>What \<open>accept\<close> gives: the descriptor, the family of the address, and what the socket will do.\<close>

record accepted =
  ac_fd :: int
  ac_family :: family
  ac_out :: "write_event list"
  ac_in :: "read_event list"

definition client_type :: "family \<Rightarrow> int" where
  "client_type f = (case f of FUnix \<Rightarrow> CT_LOCAL | FInet \<Rightarrow> CT_REMOTE | FOther \<Rightarrow> 0)"

text \<open>The type is stored behind those of the clients there are; the socket is new.\<close>

definition new_socket :: "accepted \<Rightarrow> lircd \<Rightarrow> lircd" where
  "new_socket a d =
     (let fd = ac_fd a
      in d\<lparr>dl_types := (dl_types d)[length (dl_clis d) := client_type (ac_family a)],
           dl_out := (dl_out d)(fd := ac_out a), dl_in := (dl_in d)(fd := ac_in a), dl_sent := (dl_sent d)(fd := [])\<rparr>)"

text \<open>The hardware is initialised for the first client.\<close>

definition wake_hw :: "lircd_env \<Rightarrow> lircd \<Rightarrow> lircd" where
  "wake_hw e d =
     (if \<not> use_hw d \<and> de_has_init e
      then (let (ok, d) = init_hw d in if ok then snd (setup_hardware e d) else d) else d)"

text \<open>\<open>accept\<close> failing (None) ends the daemon.\<close>

definition add_client :: "lircd_env \<Rightarrow> accepted option \<Rightarrow> lircd \<Rightarrow> lircd" where
  "add_client e acc d = (case acc of
     None \<Rightarrow> d\<lparr>dl_exit := True\<rparr>
   | Some a \<Rightarrow>
       (if length (dl_clis d) \<ge> MAX_CLIENTS then d
        else (let d = wake_hw e (new_socket a d)
              in d\<lparr>dl_clis := dl_clis d @ [ac_fd a], dl_stale := drop 1 (dl_stale d)\<rparr>)))"

section \<open>Peers\<close>

definition timerisset :: "timeval \<Rightarrow> bool" where
  "timerisset t \<longleftrightarrow> tv_sec t \<noteq> 0 \<or> tv_usec t \<noteq> 0"

definition timer_less :: "timeval \<Rightarrow> timeval \<Rightarrow> bool" where
  "timer_less a b \<longleftrightarrow> (if tv_sec a = tv_sec b then tv_usec a < tv_usec b else tv_sec a < tv_sec b)"

definition timersub :: "timeval \<Rightarrow> timeval \<Rightarrow> timeval" where
  "timersub a b =
     (let s = tv_sec a - tv_sec b; u = tv_usec a - tv_usec b
      in if u < 0 then \<lparr>tv_sec = s - 1, tv_usec = u + 1000000\<rparr> else \<lparr>tv_sec = s, tv_usec = u\<rparr>)"

text \<open>\<open>connect_to_peer\<close>: the descriptor when name lookup and \<open>connect\<close> succeed.\<close>

definition connect_to_peer :: "peer \<Rightarrow> lircd \<Rightarrow> peer \<times> lircd" where
  "connect_to_peer p d =
     (let (res, d) = (case dl_connects d of [] \<Rightarrow> (None, d) | c # cs \<Rightarrow> (c, d\<lparr>dl_connects := cs\<rparr>))
      in case res of
           Some fd \<Rightarrow> (p\<lparr>pr_socket := Some fd, pr_failures := 0\<rparr>, d)
         | None \<Rightarrow>
             (let n = i32 (pr_failures p + 1); (t, d) = time_of_day d
              in (p\<lparr>pr_failures := n, pr_reconnect := t\<lparr>tv_sec := tv_sec t + 5 * n\<rparr>, pr_socket := None\<rparr>, d)))"

fun connect_all :: "timeval \<Rightarrow> peer list \<Rightarrow> lircd \<Rightarrow> peer list \<times> lircd" where
  "connect_all now [] d = ([], d)"
| "connect_all now (p # ps) d =
     (let (p, d) = (if pr_socket p = None \<and> timer_less (pr_reconnect p) now then connect_to_peer p d else (p, d));
          (ps, d) = connect_all now ps d
      in (p # ps, d))"

definition connect_to_peers :: "lircd \<Rightarrow> lircd" where
  "connect_to_peers d =
     (let (now, d) = time_of_day d; (ps, d) = connect_all now (dl_peers d) d in d\<lparr>dl_peers := ps\<rparr>)"

text \<open>A length of -1 is used as an index of the buffer; what follows is not modelled.\<close>

definition get_peer_message :: "lircd_env \<Rightarrow> int \<Rightarrow> lircd \<Rightarrow> (bool \<times> lircd) option" where
  "get_peer_message e fd d = (case read_timeout fd PACKET_SIZE True d of
     None \<Rightarrow> None
   | Some (Inl _, d) \<Rightarrow> Some (False, d\<lparr>dl_fault := True\<rparr>)
   | Some (Inr s, d) \<Rightarrow> Some
       (if s = [] then (False, d)
        else if packet_text s = [] \<or> last (packet_text s) \<noteq> newline then (False, d)
        else (True, relay_message e (packet_text s) d)))"

definition drop_peer :: "nat \<Rightarrow> lircd \<Rightarrow> lircd" where
  "drop_peer i d =
     (let (t, d) = time_of_day d
      in d\<lparr>dl_peers := (dl_peers d)[i := (dl_peers d ! i)\<lparr>pr_socket := None, pr_failures := 1,
                                       pr_reconnect := t\<lparr>tv_sec := tv_sec t + 5\<rparr>\<rparr>]\<rparr>)"

end
