(* ===== verification/Rcd_Server.thy ===== *)
theory Rcd_Server
  imports Daemon_Loop Client_Commands
begin

text \<open>
  \<open>daemons/lircrcd.cpp\<close>, the daemon that holds one \<open>lircrc\<close> configuration for several clients: its state, the
  commands and their replies, the packets of a client, clients that come and go, and a turn of its loop. The sockets are modelled as those of \<open>lircd\<close>.
\<close>

section \<open>The state\<close>

record rcd_client =
  rcc_fd :: int
  rcc_ident :: "string option"
  rcc_codes :: "string list"
  rcc_strings :: "string list"
  rcc_last :: string

abbreviation (input) RCD_MAX_CLIENTS :: nat where "RCD_MAX_CLIENTS \<equiv> 100"

text \<open>\<open>rcd_clis\<close> is the whole array \<open>clis\<close>, of which the first \<open>rcd_clin\<close> entries are clients. \<open>rcd_fault\<close> is set when
  a NULL pointer is read or memory behind an array is written.\<close>

record lircrcd =
  rcd_clis :: "rcd_client list"
  rcd_clin :: nat
  rcd_config :: lirc_config
  rcd_fault :: bool
  rcd_out :: "int \<Rightarrow> write_event list"
  rcd_sent :: "int \<Rightarrow> string"
  rcd_in :: "int \<Rightarrow> read_event list"

definition rcd_start :: "lirc_config \<Rightarrow> lircrcd" where
  "rcd_start c = \<lparr>rcd_clis = replicate RCD_MAX_CLIENTS \<lparr>rcc_fd = 0, rcc_ident = None, rcc_codes = [], rcc_strings = [], rcc_last = []\<rparr>,
     rcd_clin = 0, rcd_config = c, rcd_fault = False, rcd_out = (\<lambda>_. []), rcd_sent = (\<lambda>_. []), rcd_in = (\<lambda>_. [])\<rparr>"

definition client_index :: "int \<Rightarrow> lircrcd \<Rightarrow> nat option" where
  "client_index fd d = find_index (\<lambda>c. rcc_fd c = fd) (take (rcd_clin d) (rcd_clis d))"

definition upd_client :: "nat \<Rightarrow> (rcd_client \<Rightarrow> rcd_client) \<Rightarrow> lircrcd \<Rightarrow> lircrcd" where
  "upd_client i f d = d\<lparr>rcd_clis := (rcd_clis d)[i := f (rcd_clis d ! i)]\<rparr>"

section \<open>Reading and writing\<close>

text \<open>\<open>write_socket\<close> gives up at the first call that does not write.\<close>

definition rcd_write_socket :: "int \<Rightarrow> string \<Rightarrow> lircrcd \<Rightarrow> bool \<times> lircrcd" where
  "rcd_write_socket fd buf d =
     (let (ok, es, w) = write_loop 1 (rcd_out d fd) buf []
      in (ok, d\<lparr>rcd_out := (rcd_out d)(fd := es), rcd_sent := (rcd_sent d)(fd := rcd_sent d fd @ w)\<rparr>))"

fun rcd_write_all :: "int \<Rightarrow> string list \<Rightarrow> lircrcd \<Rightarrow> bool \<times> lircrcd" where
  "rcd_write_all fd [] d = (True, d)"
| "rcd_write_all fd (s # ss) d = (let (ok, d) = rcd_write_socket fd s d in if ok then rcd_write_all fd ss d else (False, d))"

text \<open>A timeout of 0 microseconds is none; one of 5 is rounded down to not waiting.\<close>

definition rcd_read_timeout :: "int \<Rightarrow> nat \<Rightarrow> bool \<Rightarrow> lircrcd \<Rightarrow> ((unit + string) \<times> lircrcd) option" where
  "rcd_read_timeout fd n wait d = (case rcd_in d fd of
     [] \<Rightarrow> (if wait then None else Some (Inr [], d))
   | RFail # es \<Rightarrow> Some (Inl (), d\<lparr>rcd_in := (rcd_in d)(fd := es)\<rparr>)
   | RData s # es \<Rightarrow> Some (Inr (take n s),
       d\<lparr>rcd_in := (rcd_in d)(fd := if length s \<le> n then es else RData (drop n s) # es)\<rparr>))"

section \<open>Replies\<close>

definition rcd_send_success :: "int \<Rightarrow> string \<Rightarrow> lircrcd \<Rightarrow> bool \<times> lircrcd" where
  "rcd_send_success fd msg d = rcd_write_all fd [p_begin, msg, p_success, p_end] d"

definition rcd_send_result :: "int \<Rightarrow> string \<Rightarrow> string \<Rightarrow> lircrcd \<Rightarrow> bool \<times> lircrcd" where
  "rcd_send_result fd msg result d = rcd_write_all fd [p_begin, msg, p_success, p_data, ''1'' @ nl, result @ nl, p_end] d"

text \<open>\<open>txt\<close> is the formatted text, which \<open>vsprintf\<close> writes into \<open>buffer\<close>, however long it is.\<close>

definition rcd_send_error :: "int \<Rightarrow> string \<Rightarrow> string \<Rightarrow> lircrcd \<Rightarrow> bool \<times> lircrcd" where
  "rcd_send_error fd msg txt d =
     rcd_write_all fd [p_begin, msg, p_error, p_data, fmt_d 0 (int (length (filter (\<lambda>c. c = newline) txt))) @ nl, txt, p_end]
       (if length txt > PACKET_SIZE then d\<lparr>rcd_fault := True\<rparr> else d)"

section \<open>Commands\<close>

text \<open>The loop over \<open>lirc_code2charprog\<close>: the strings it gives until it gives none or an empty one. The result
  \<open>Inl\<close> is a crash, None that the loop does not end. Only without memory \<open>lirc_code2charprog\<close> gives an error.\<close>

partial_function (option) collect_strings :: "string \<Rightarrow> string list \<Rightarrow> lirc_config \<Rightarrow> (unit + string list \<times> lirc_config) option" where
  "collect_strings cd acc c = (case lirc_code2charprog c cd of
     None \<Rightarrow> Some (Inl ())
   | Some ((s, _), c) \<Rightarrow> (case s of
       None \<Rightarrow> Some (Inr (acc, c))
     | Some t \<Rightarrow> (if t = [] then Some (Inr (acc, c)) else collect_strings cd (acc @ [t]) c)))"

text \<open>The first string that is waiting is sent.\<close>

definition send_next :: "int \<Rightarrow> string \<Rightarrow> nat \<Rightarrow> lircrcd \<Rightarrow> bool \<times> lircrcd" where
  "send_next fd msg i d = (case rcc_strings (rcd_clis d ! i) of
     [] \<Rightarrow> rcd_send_success fd msg d
   | s # ss \<Rightarrow> rcd_send_result fd msg s (upd_client i (\<lambda>c. c\<lparr>rcc_strings := ss\<rparr>) d))"

text \<open>A code that is new for the client is translated; its strings are put behind those that wait.\<close>

definition new_code :: "int \<Rightarrow> string \<Rightarrow> nat \<Rightarrow> string \<Rightarrow> lircrcd \<Rightarrow> (bool \<times> lircrcd) option" where
  "new_code fd msg i a d =
     (let codes' = rcc_codes (rcd_clis d ! i) @ [a];
          d = upd_client i (\<lambda>c. c\<lparr>rcc_last := a, rcc_codes := tl codes'\<rparr>) d
      in case collect_strings (hd codes') [] (rcd_config d) of
           None \<Rightarrow> None
         | Some (Inl _) \<Rightarrow> Some (True, d\<lparr>rcd_fault := True\<rparr>)
         | Some (Inr (ss, c)) \<Rightarrow> Some (send_next fd msg i
             ((upd_client i (\<lambda>c. c\<lparr>rcc_strings := rcc_strings c @ ss\<rparr>) d)\<lparr>rcd_config := c\<rparr>)))"

definition code_func :: "int \<Rightarrow> string \<Rightarrow> string option \<Rightarrow> lircrcd \<Rightarrow> (bool \<times> lircrcd) option" where
  "code_func fd msg arguments d = (case arguments of
     None \<Rightarrow> Some (rcd_send_error fd msg (''protocol error'' @ nl) d)
   | Some a \<Rightarrow> (case client_index fd d of
       None \<Rightarrow> Some (rcd_send_error fd msg (''identify yourself first!'' @ nl) d)
     | Some i \<Rightarrow>
         (if rcc_last (rcd_clis d ! i) = a then
            Some (if rcc_strings (rcd_clis d ! i) \<noteq> [] then send_next fd msg i d
                  else rcd_send_success fd msg (upd_client i (\<lambda>c. c\<lparr>rcc_last := ''A never used code''\<rparr>) d))
          else new_code fd msg i a d)))"

definition ident_func :: "int \<Rightarrow> string \<Rightarrow> string option \<Rightarrow> lircrcd \<Rightarrow> bool \<times> lircrcd" where
  "ident_func fd msg arguments d = (case arguments of
     None \<Rightarrow> rcd_send_error fd msg (''protocol error'' @ nl) d
   | Some a \<Rightarrow> (case client_index fd d of
       None \<Rightarrow> (True, d\<lparr>rcd_fault := True\<rparr>)
     | Some i \<Rightarrow>
         (if rcc_ident (rcd_clis d ! i) \<noteq> None then rcd_send_error fd msg (''protocol error'' @ nl) d
          else rcd_send_success fd msg (upd_client i (\<lambda>c. c\<lparr>rcc_ident := Some a\<rparr>) d))))"

text \<open>\<open>lirc_getmode\<close> and \<open>lirc_setmode\<close> of a configuration without a socket.\<close>

definition getmode_func :: "int \<Rightarrow> string \<Rightarrow> string option \<Rightarrow> lircrcd \<Rightarrow> bool \<times> lircrcd" where
  "getmode_func fd msg arguments d =
     (if arguments \<noteq> None then rcd_send_error fd msg (''protocol error'' @ nl) d
      else (case lirc_getmode None (rcd_config d) of
          Answer (Some m) \<Rightarrow> rcd_send_result fd msg m d
        | _ \<Rightarrow> rcd_send_success fd msg d))"

definition setmode_func :: "int \<Rightarrow> string \<Rightarrow> string option \<Rightarrow> lircrcd \<Rightarrow> bool \<times> lircrcd" where
  "setmode_func fd msg arguments d = (case lirc_setmode None (rcd_config d) arguments of
     Answer (mode, c) \<Rightarrow>
       (let d = d\<lparr>rcd_config := c\<rparr>
        in case mode of
             Some m \<Rightarrow> rcd_send_result fd msg m d
           | None \<Rightarrow> (if arguments = None then rcd_send_success fd msg d
                      else rcd_send_error fd msg (''out of memory'' @ nl) d))
   | _ \<Rightarrow> (True, d\<lparr>rcd_fault := True\<rparr>))"

type_synonym rcd_command = "int \<Rightarrow> string \<Rightarrow> string option \<Rightarrow> lircrcd \<Rightarrow> (bool \<times> lircrcd) option"

definition rcd_directives :: "(string \<times> rcd_command) list" where
  "rcd_directives =
     [(''CODE'', code_func), (''IDENT'', \<lambda>fd msg a d. Some (ident_func fd msg a d)),
      (''GETMODE'', \<lambda>fd msg a d. Some (getmode_func fd msg a d)), (''SETMODE'', \<lambda>fd msg a d. Some (setmode_func fd msg a d))]"

definition rcd_line :: "int \<Rightarrow> string \<Rightarrow> lircrcd \<Rightarrow> (bool \<times> lircrcd) option" where
  "rcd_line fd line d =
     (let backup = line @ nl; (tok, rest) = strtok_step is_blank line
      in case tok of
           None \<Rightarrow> Some (rcd_send_error fd backup (''bad send packet'' @ nl) d)
         | Some t \<Rightarrow> (case find_index (\<lambda>(n, _). strcaseeq t n) rcd_directives of
             None \<Rightarrow> Some (rcd_send_error fd backup (''unknown directive: '' @ quoted t @ nl) d)
           | Some i \<Rightarrow> snd (rcd_directives ! i) fd backup (if rest = [] then None else Some rest) d))"

section \<open>What a command leaves alone\<close>

text \<open>The clients' descriptors and what they will send.\<close>

definition rcd_calm :: "lircrcd \<Rightarrow> lircrcd \<Rightarrow> bool" where
  "rcd_calm d d' \<longleftrightarrow> rcd_in d' = rcd_in d \<and> rcd_clin d' = rcd_clin d \<and> map rcc_fd (rcd_clis d') = map rcc_fd (rcd_clis d)"

lemma calm_refl [simp]: "rcd_calm d d"
  by (simp add: rcd_calm_def)

lemma calm_trans: "rcd_calm d d1 \<Longrightarrow> rcd_calm d1 d2 \<Longrightarrow> rcd_calm d d2"
  by (simp add: rcd_calm_def)

lemma calm_updates [simp]:
  "rcd_calm d1 (d\<lparr>rcd_fault := b\<rparr>) = rcd_calm d1 d" "rcd_calm d1 (d\<lparr>rcd_config := c\<rparr>) = rcd_calm d1 d"
  "rcd_calm d1 (d\<lparr>rcd_out := w, rcd_sent := s\<rparr>) = rcd_calm d1 d"
  by (simp_all add: rcd_calm_def)

lemma calm_client: "(\<And>c. rcc_fd (f c) = rcc_fd c) \<Longrightarrow> rcd_calm d1 (upd_client i f d) = rcd_calm d1 d"
proof -
  assume f: "\<And>c. rcc_fd (f c) = rcc_fd c"
  have "map rcc_fd ((rcd_clis d)[i := f (rcd_clis d ! i)]) = map rcc_fd (rcd_clis d)"
    using f by (cases "i < length (rcd_clis d)") (simp_all add: map_update list_update_same_conv list_update_beyond)
  then show ?thesis by (simp add: rcd_calm_def upd_client_def)
qed

lemma calm_write_all: "rcd_calm d1 d \<Longrightarrow> rcd_calm d1 (snd (rcd_write_all fd ss d))"
proof (induction fd ss d rule: rcd_write_all.induct)
  case (2 fd s ss d)
  then show ?case by (auto simp: rcd_write_socket_def split: prod.splits)
qed simp

declare rcd_write_all.simps [simp del]

lemma calm_replies:
  "rcd_calm d1 d \<Longrightarrow> rcd_calm d1 (snd (rcd_send_success fd msg d))"
  "rcd_calm d1 d \<Longrightarrow> rcd_calm d1 (snd (rcd_send_result fd msg r d))"
  "rcd_calm d1 d \<Longrightarrow> rcd_calm d1 (snd (rcd_send_error fd msg t d))"
  "rcd_calm d1 d \<Longrightarrow> rcd_calm d1 (snd (send_next fd msg i d))"
  unfolding rcd_send_success_def rcd_send_result_def rcd_send_error_def send_next_def
  by (auto intro!: calm_write_all simp: calm_client split: list.split)

lemma calm_code: "code_func fd msg a d = Some r \<Longrightarrow> rcd_calm d (snd r)"
  unfolding code_func_def new_code_def Let_def
  by (auto simp: calm_client calm_replies split: option.splits sum.splits prod.splits if_splits)

lemma calm_line: "rcd_line fd line d = Some r \<Longrightarrow> rcd_calm d (snd r)"
proof -
  assume l: "rcd_line fd line d = Some r"
  have c: "rcd_calm d (snd x)" if "snd (rcd_directives ! i) fd msg a d = Some x" "i < 4" for i msg a x
  proof -
    have "i = 0 \<or> i = 1 \<or> i = 2 \<or> i = 3" using that(2) by auto
    then show ?thesis using that(1) calm_code [of fd msg a d x]
      by (auto simp del: split_paired_All simp: rcd_directives_def ident_func_def getmode_func_def setmode_func_def lirc_getmode_def lirc_setmode_def
          calm_replies calm_client Let_def split: option.splits)
  qed
  have "length rcd_directives = 4" by (simp add: rcd_directives_def)
  then have "find_index (\<lambda>(n, _). strcaseeq t n) rcd_directives = Some i \<Longrightarrow> i < 4" for t i using find_index_Some(1) by metis
  then show ?thesis using l c unfolding rcd_line_def Let_def
    by (auto simp: calm_replies split: option.splits prod.splits)
qed

section \<open>Packets\<close>

lemma rcd_read_left:
  "rcd_read_timeout fd n w d = Some (Inr s, d') \<Longrightarrow> length s + in_left (rcd_in d' fd) \<le> in_left (rcd_in d fd)"
  by (auto simp: rcd_read_timeout_def in_left_def split: list.splits read_event.splits if_splits)

text \<open>The loop of \<open>get_command\<close>, as that of \<open>lircd\<close>; a command that does not return gives None.\<close>

function rcd_lines :: "int \<Rightarrow> string \<Rightarrow> lircrcd \<Rightarrow> (bool \<times> lircrcd) option" where
  "rcd_lines fd buf d =
     (if newline \<notin> set (packet_text buf) then Some (False, d)
      else
        (let line = takeWhile (\<lambda>c. c \<noteq> newline) buf; rest = drop (length line + 1) buf
         in case rcd_line fd line d of
              None \<Rightarrow> None
            | Some (ok, d) \<Rightarrow>
                (if \<not> ok then Some (False, d)
                 else if rest = [] then Some (True, d)
                 else if newline \<in> set (packet_text rest) then rcd_lines fd rest d
                 else (case rcd_read_timeout fd (PACKET_SIZE - length rest) False d of
                     None \<Rightarrow> None
                   | Some (Inl _, d) \<Rightarrow> Some (True, d)
                   | Some (Inr s, d) \<Rightarrow> (if s = [] then Some (False, d) else rcd_lines fd (rest @ s) d)))))"
  by pat_completeness auto
termination
proof (relation "measure (\<lambda>(fd, buf, d). length buf + in_left (rcd_in d fd))")
  fix fd buf d line rest x ok d1
  assume a: "\<not> newline \<notin> set (packet_text buf)" "line = takeWhile (\<lambda>c. c \<noteq> newline) buf"
    "rest = drop (length line + 1) buf" "rcd_line fd line d = Some x" "(ok, d1) = x"
  have i: "rcd_in d1 = rcd_in d" using calm_line [OF a(4)] a(5) by (metis rcd_calm_def snd_conv)
  have l: "length rest < length buf" using a(1,3) by (cases buf) (auto simp: packet_text_def)
  show "((fd, rest, d1), fd, buf, d) \<in> measure (\<lambda>(fd, buf, d). length buf + in_left (rcd_in d fd))"
    using i l by simp
  fix r z d2 s
  assume "rcd_read_timeout fd (PACKET_SIZE - length rest) False d1 = Some r" "(z, d2) = r" "z = Inr s"
  then have "length s + in_left (rcd_in d2 fd) \<le> in_left (rcd_in d fd)" using rcd_read_left i by metis
  then show "((fd, rest @ s, d2), fd, buf, d) \<in> measure (\<lambda>(fd, buf, d). length buf + in_left (rcd_in d fd))"
    using l by simp
qed simp

declare rcd_lines.simps [simp del]

text \<open>None: the function waits for the client without a limit, or a command does not return.\<close>

definition rcd_get_command :: "int \<Rightarrow> lircrcd \<Rightarrow> (bool \<times> lircrcd) option" where
  "rcd_get_command fd d = (case rcd_read_timeout fd PACKET_SIZE True d of
     None \<Rightarrow> None
   | Some (Inl _, d) \<Rightarrow> Some (True, d)
   | Some (Inr s, d) \<Rightarrow> (if s = [] then Some (False, d) else rcd_lines fd s d))"

section \<open>Clients\<close>

text \<open>The entries behind the removed one move down; the last one stays as it was behind the clients.\<close>

definition rcd_remove_client :: "nat \<Rightarrow> lircrcd \<Rightarrow> lircrcd" where
  "rcd_remove_client i d =
     (let n = rcd_clin d - 1
      in d\<lparr>rcd_clin := n, rcd_clis := take i (rcd_clis d) @ take (n - i) (drop (i + 1) (rcd_clis d)) @ drop n (rcd_clis d)\<rparr>)"

text \<open>Only the descriptor and the name of the entry are set: the strings and the last code stay.\<close>

definition rcd_add_client :: "accepted option \<Rightarrow> lircrcd \<Rightarrow> lircrcd" where
  "rcd_add_client acc d = (case acc of
     None \<Rightarrow> d
   | Some a \<Rightarrow>
       (if rcd_clin d \<ge> RCD_MAX_CLIENTS then d
        else (upd_client (rcd_clin d) (\<lambda>c. c\<lparr>rcc_fd := ac_fd a, rcc_ident := None\<rparr>) d)\<lparr>rcd_clin := rcd_clin d + 1,
            rcd_out := (rcd_out d)(ac_fd a := ac_out a), rcd_in := (rcd_in d)(ac_fd a := ac_in a),
            rcd_sent := (rcd_sent d)(ac_fd a := [])\<rparr>))"

section \<open>The loop\<close>

text \<open>A turn: the daemon goes on, ends (the flag says whether by a signal), or waits for ever.\<close>

datatype rcd_turn = RcdGoes lircrcd | RcdEnds bool lircrcd | RcdBlocks

text \<open>The clients that have something to read, by the entries \<open>curl_poll\<close> reported; the daemon ends with the last
  client.\<close>

fun rcd_serve :: "(nat \<Rightarrow> bool) \<Rightarrow> nat list \<Rightarrow> lircrcd \<Rightarrow> rcd_turn" where
  "rcd_serve rdy [] d = RcdGoes d"
| "rcd_serve rdy (i # is) d =
     (if i \<ge> rcd_clin d then RcdGoes d
      else if \<not> rdy i then rcd_serve rdy is d
      else (case rcd_get_command (rcc_fd (rcd_clis d ! i)) d of
          None \<Rightarrow> RcdBlocks
        | Some (True, d) \<Rightarrow> rcd_serve rdy is d
        | Some (False, d) \<Rightarrow>
            (let d = rcd_remove_client i d in if rcd_clin d = 0 then RcdEnds False d else rcd_serve rdy is d)))"

text \<open>\<open>curl_poll\<close> is called with a timeout of 0: it gives 0 entries (\<open>rr_ret\<close>) when there is nothing to do. -1 is an
  interruption.\<close>

record rcd_round =
  rr_term :: bool
  rr_ret :: int
  rr_clis :: "nat \<Rightarrow> bool"
  rr_sock :: "accepted option option"

definition rcd_loop_turn :: "rcd_round \<Rightarrow> lircrcd \<Rightarrow> rcd_turn" where
  "rcd_loop_turn w d =
     (if rr_term w then RcdEnds True d
      else if rr_ret w \<le> 0 then RcdGoes d
      else (case rcd_serve (\<lambda>i. rr_clis w i \<and> i < rcd_clin d) [0..<RCD_MAX_CLIENTS] d of
          RcdGoes d \<Rightarrow> RcdGoes (case rr_sock w of None \<Rightarrow> d | Some acc \<Rightarrow> rcd_add_client acc d)
        | t \<Rightarrow> t))"

end
