(* ===== verification/Daemon_Wait.thy ===== *)
theory Daemon_Wait
  imports Daemon_Loop
begin

text \<open>
  \<open>daemons/lircd.cpp\<close>: \<open>mywaitfordata\<close>, one turn of its loop at a time, and \<open>loop\<close>. What happens in a turn (signals, what
  \<open>curl_poll\<close> reports) is a record. An error of \<open>curl_poll\<close> other than an interruption is left out. At
  the end the options that the daemon parses itself, and the state it starts in.
\<close>

text \<open>\<open>po_ret\<close> is the result of \<open>curl_poll\<close>, -1 for an interruption. \<open>po_clis\<close> and \<open>po_peers\<close> are the entries that have
  data, \<open>po_local\<close> and \<open>po_inet\<close> the connections that wait. \<open>po_hup\<close> gives the files when \<open>SIGHUP\<close> has come.\<close>

record poll_round =
  po_term :: bool
  po_hup :: "(string \<Rightarrow> string option) option"
  po_alrm :: bool
  po_ret :: int
  po_clis :: "nat \<Rightarrow> bool"
  po_peers :: "nat \<Rightarrow> bool"
  po_local :: "accepted option option"
  po_inet :: "accepted option option"
  po_driver :: bool

text \<open>Without a positive result of \<open>curl_poll\<close> nothing is reported.\<close>

definition reported :: "poll_round \<Rightarrow> poll_round" where
  "reported w = (if po_ret w > 0 then w
     else w\<lparr>po_clis := (\<lambda>_. False), po_peers := (\<lambda>_. False), po_local := None, po_inet := None, po_driver := False\<rparr>)"

section \<open>Before waiting\<close>

text \<open>The timer runs out once; its signal sets the flag.\<close>

definition timer_signal :: "lircd \<Rightarrow> lircd" where
  "timer_signal d = (if dl_timer d \<noteq> None then sigalrm (d\<lparr>dl_timer := None\<rparr>) else d)"

definition handle_signals :: "lircd_env \<Rightarrow> poll_round \<Rightarrow> lircd \<Rightarrow> lircd" where
  "handle_signals e w d =
     (let d = (if po_alrm w then timer_signal d else d);
          d = (case po_hup w of Some fs \<Rightarrow> dosighup e fs d | None \<Rightarrow> d)
      in if dl_alrm d then (dosigalrm e d)\<lparr>dl_alrm := False\<rparr> else d)"

text \<open>The earliest time at which a peer is to be tried again; a cleared one when there is none.\<close>

definition next_reconnect :: "peer list \<Rightarrow> timeval" where
  "next_reconnect ps = fold (\<lambda>p tv.
     if pr_socket p \<noteq> None then tv
     else if timerisset tv \<and> \<not> timer_less (pr_reconnect p) tv then tv else pr_reconnect p) ps zero_timeval"

text \<open>How long to wait for a peer: the time, and whether one is to be tried.\<close>

definition peer_wait :: "lircd \<Rightarrow> timeval \<times> bool \<times> lircd" where
  "peer_wait d =
     (let tv = next_reconnect (dl_peers d)
      in if timerisset tv then
           (let (now, d) = time_of_day d in (if timer_less tv now then zero_timeval else timersub tv now, True, d))
         else (tv, False, d))"

text \<open>The time until the button counts as released. A time that has passed clears the timeout.\<close>

definition release_wait :: "timeval \<Rightarrow> bool \<Rightarrow> lircd \<Rightarrow> timeval \<times> lircd" where
  "release_wait tv reconnect d =
     (let rt = get_release_time (rel (dl_g d))
      in if \<not> timerisset rt then (tv, d)
         else
           (let (now, d) = time_of_day d
            in if timer_less rt now then (zero_timeval, d)
               else
                 (let gap' = timersub rt now
                  in (if \<not> (timerisset tv \<or> reconnect) \<or> timer_less gap' tv then gap' else tv, d))))"

text \<open>The timeout of \<open>curl_poll\<close> in milliseconds (None is -1: no limit), whether a peer is to be tried, and the time
  at which waiting starts.\<close>

definition poll_timeout :: "int \<Rightarrow> lircd \<Rightarrow> int option \<times> bool \<times> timeval \<times> lircd" where
  "poll_timeout maxusec d =
     (let (tv, reconnect, d) = peer_wait d;
          (start, d) = time_of_day d;
          tv = (if maxusec > 0 then \<lparr>tv_sec = maxusec div 1000000, tv_usec = maxusec mod 1000000\<rparr> else tv);
          second = \<lparr>tv_sec = 1, tv_usec = 0\<rparr>;
          tv = (if \<not> dl_hw d \<and> use_hw d \<and> (timer_less second tv \<or> (\<not> reconnect \<and> \<not> timerisset tv)) then second else tv);
          (tv, d) = release_wait tv reconnect d
      in (if timerisset tv \<or> reconnect then Some (tv_sec tv * 1000 + tv_usec tv div 1000) else None, reconnect, start, d))"

text \<open>The clients that are polled: not the one that waits for the end of a repetition.\<close>

definition polled :: "lircd \<Rightarrow> nat \<Rightarrow> bool" where
  "polled d i \<longleftrightarrow> i < length (dl_clis d) \<and> Some (dl_clis d ! i) \<noteq> dl_repeat_fd d"

definition driver_polled :: "lircd_env \<Rightarrow> lircd \<Rightarrow> bool" where
  "driver_polled e d \<longleftrightarrow> use_hw d \<and> rec_mode (de_driver e) \<noteq> 0 \<and> dl_hw d"

section \<open>Serving\<close>

text \<open>The loop over the entries that have data. When a client is removed the following ones move down by one, but what
  \<open>curl_poll\<close> reported for the entries does not; the entry just served is not served again. The result of a command
  is applied to the entry it was read for: the client there may be another one by then, or the entry an old one.\<close>

definition slot :: "lircd \<Rightarrow> nat \<Rightarrow> int" where
  "slot d i = (if i < length (dl_clis d @ dl_stale d) then (dl_clis d @ dl_stale d) ! i else 0)"

fun serve_clients :: "lircd_env \<Rightarrow> (nat \<Rightarrow> bool) \<Rightarrow> nat list \<Rightarrow> lircd \<Rightarrow> lircd option" where
  "serve_clients e ready [] d = Some d"
| "serve_clients e ready (i # is) d =
     (if i \<ge> length (dl_clis d) then Some d
      else if \<not> ready i then serve_clients e ready is d
      else (case get_command e (dl_clis d ! i) d of
          None \<Rightarrow> None
        | Some (ok, d) \<Rightarrow> serve_clients e ready is (if ok then d else remove_client e (slot d i) d)))"

fun serve_peers :: "lircd_env \<Rightarrow> (nat \<Rightarrow> bool) \<Rightarrow> nat list \<Rightarrow> lircd \<Rightarrow> lircd option" where
  "serve_peers e ready [] d = Some d"
| "serve_peers e ready (i # is) d =
     (case (if ready i then pr_socket (dl_peers d ! i) else None) of
        None \<Rightarrow> serve_peers e ready is d
      | Some fd \<Rightarrow> (case get_peer_message e fd d of
          None \<Rightarrow> None
        | Some (ok, d) \<Rightarrow> serve_peers e ready is (if ok then d else drop_peer i d)))"

definition accept_client :: "lircd_env \<Rightarrow> accepted option option \<Rightarrow> lircd \<Rightarrow> lircd" where
  "accept_client e acc d = (case acc of None \<Rightarrow> d | Some a \<Rightarrow> add_client e a d)"

definition replug :: "lircd_env \<Rightarrow> lircd \<Rightarrow> lircd" where
  "replug e d = (if \<not> dl_hw d \<and> use_hw d \<and> de_has_init e then snd (setup_hardware e (snd (init_hw d))) else d)"

text \<open>What is done after \<open>curl_poll\<close> has reported something; \<open>ready\<close>, \<open>pready\<close> and \<open>drv\<close> are what it reported. The flag of
  the result says that there is something to read from the driver.\<close>

definition serve :: "lircd_env \<Rightarrow> (nat \<Rightarrow> bool) \<Rightarrow> (nat \<Rightarrow> bool) \<Rightarrow> bool \<Rightarrow> poll_round \<Rightarrow> lircd \<Rightarrow> (bool \<times> lircd) option" where
  "serve e ready pready drv w d =
     (case serve_clients e ready [0..<MAX_CLIENTS] (replug e d) of
        None \<Rightarrow> None
      | Some d \<Rightarrow> (case serve_peers e pready [0..<length (dl_peers d)] d of
          None \<Rightarrow> None
        | Some d \<Rightarrow> (let d = accept_client e (po_inet w) (accept_client e (po_local w) d) in Some (driver_polled e d \<and> drv, d))))"

section \<open>A turn\<close>

text \<open>The function returns, goes on with what is left of the time, or waits in a \<open>read\<close> for ever.\<close>

datatype turn = Returns int lircd | GoesOn int lircd | Blocks

definition after_poll :: "int \<Rightarrow> timeval \<Rightarrow> bool \<Rightarrow> int \<Rightarrow> lircd \<Rightarrow> (int \<times> lircd) + lircd" where
  "after_poll maxusec start reconnect ret d =
     (let (now, d) = time_of_day d;
          d = (if dl_old d \<noteq> None then free_old_remotes d else d)
      in if maxusec > 0 \<and> (ret = 0 \<or> time_elapsed start now \<ge> maxusec) then Inr d
         else Inl (if maxusec > 0 then u32 (maxusec - time_elapsed start now) else maxusec,
                   if reconnect then connect_to_peers d else d))"

definition wait_turn :: "lircd_env \<Rightarrow> poll_round \<Rightarrow> int \<Rightarrow> lircd \<Rightarrow> turn" where
  "wait_turn e w maxusec d =
     (if po_term w then Returns 0 (d\<lparr>dl_exit := True\<rparr>)
      else
        (let w = reported w;
             d = handle_signals e w d;
             ready = (\<lambda>i. po_clis w i \<and> polled d i);
             pready = (\<lambda>i. po_peers w i \<and> i < length (dl_peers d) \<and> pr_socket (dl_peers d ! i) \<noteq> None);
             drv = (po_driver w \<and> driver_polled e d);
             (_, reconnect, start, d) = poll_timeout maxusec d
         in case after_poll maxusec start reconnect (po_ret w) d of
              Inr d \<Rightarrow> Returns 0 d
            | Inl (maxusec, d) \<Rightarrow>
                (if po_ret w = -1 then GoesOn maxusec d
                 else (case serve e ready pready drv w d of
                     None \<Rightarrow> Blocks
                   | Some (True, d) \<Rightarrow> Returns 1 d
                   | Some (False, d) \<Rightarrow> GoesOn maxusec d))))"

text \<open>\<open>mywaitfordata\<close> for the turns of a list: the turns that are left are returned with the result.\<close>

fun mywaitfordata :: "lircd_env \<Rightarrow> poll_round list \<Rightarrow> int \<Rightarrow> lircd \<Rightarrow> turn \<times> poll_round list" where
  "mywaitfordata e [] maxusec d = (GoesOn maxusec d, [])"
| "mywaitfordata e (w # ws) maxusec d = (case wait_turn e w maxusec d of
     GoesOn m d \<Rightarrow> mywaitfordata e ws m d
   | t \<Rightarrow> (t, ws))"

text \<open>The body of \<open>loop\<close> after waiting: what was received is sent to all clients.\<close>

definition receive_message :: "lircd_env \<Rightarrow> lircd \<Rightarrow> lircd" where
  "receive_message e d = (case de_rec e of
     None \<Rightarrow> d
   | Some f \<Rightarrow> (case f (dl_g d) of
       None \<Rightarrow> d\<lparr>dl_fault := True\<rparr>
     | Some (m, g) \<Rightarrow> (case m of None \<Rightarrow> d\<lparr>dl_g := g\<rparr> | Some msg \<Rightarrow> broadcast_message e msg (d\<lparr>dl_g := g\<rparr>))))"

section \<open>Options\<close>

text \<open>\<open>oatoi\<close>: the value of an octal number, -1 for any other text.\<close>

fun octal_loop :: "int \<Rightarrow> string \<Rightarrow> int \<times> string" where
  "octal_loop i [] = (i, [])"
| "octal_loop i (c # cs) =
     (if is_digit_of 8 c then octal_loop (i32 (i * 8 + int (the (digit_val c)))) cs else (i, c # cs))"

definition oatoi :: "string \<Rightarrow> int" where
  "oatoi s = (if s = [] then -1 else (let (i, r) = octal_loop 0 s in if r \<noteq> [] then -1 else i))"

abbreviation (input) USHRT_MAX :: int where "USHRT_MAX \<equiv> 65535"
abbreviation (input) LIRC_INET_PORT :: int where "LIRC_INET_PORT \<equiv> 8765"

text \<open>The text before and after the first colon.\<close>

definition at_colon :: "string \<Rightarrow> string \<times> string option" where
  "at_colon s = (takeWhile (\<lambda>c. c \<noteq> CHR '':'') s,
     if CHR '':'' \<in> set s then Some (drop 1 (dropWhile (\<lambda>c. c \<noteq> CHR '':'') s)) else None)"

text \<open>\<open>opt2host_port\<close>: the address and the port, or the text of an error. \<open>inet_aton\<close> is the library function.\<close>

definition opt2host_port :: "(string \<Rightarrow> int option) \<Rightarrow> string \<Rightarrow> int \<Rightarrow> string + (int \<times> int)" where
  "opt2host_port inet_aton opt address =
     (let (host, sep) = at_colon opt;
          port_str = (case sep of Some s \<Rightarrow> s | None \<Rightarrow> opt);
          (p, r) = strtol10 port_str
      in if opt = [] \<or> r \<noteq> [] \<or> p < 1 \<or> p > USHRT_MAX
         then Inl (''lircd: bad port number '' @ quoted port_str @ nl)
         else if sep = None then Inr (address, p)
         else (case inet_aton host of
             None \<Rightarrow> Inl (''lircd: bad address '' @ quoted host @ nl)
           | Some a \<Rightarrow> Inr (a, p)))"

text \<open>\<open>add_peer_connection\<close>; \<open>service\<close> is \<open>getservbyname\<close>.\<close>

definition peer_port :: "(string \<Rightarrow> int option) \<Rightarrow> string option \<Rightarrow> int option" where
  "peer_port service sep = (case sep of
     None \<Rightarrow> Some LIRC_INET_PORT
   | Some s \<Rightarrow> (case service s of
       Some p \<Rightarrow> Some p
     | None \<Rightarrow> (let (p, r) = strtol10 s in if s = [] \<or> r \<noteq> [] \<or> p < 1 \<or> p > USHRT_MAX then None else Some p)))"

definition add_peer_connection :: "(string \<Rightarrow> int option) \<Rightarrow> string \<Rightarrow> lircd \<Rightarrow> bool \<times> lircd" where
  "add_peer_connection service server d =
     (if length (dl_peers d) \<ge> MAX_PEERS then (False, d)
      else
        (let (t, d) = time_of_day d; (host, sep) = at_colon server
         in case peer_port service sep of
              None \<Rightarrow> (False, d)
            | Some p \<Rightarrow> (True, d\<lparr>dl_peers := dl_peers d @
                [\<lparr>pr_host = host, pr_port = p, pr_reconnect = t, pr_failures = 0, pr_socket = None\<rparr>]\<rparr>)))"

fun add_peers :: "(string \<Rightarrow> int option) \<Rightarrow> string list \<Rightarrow> lircd \<Rightarrow> bool \<times> lircd" where
  "add_peers service [] d = (True, d)"
| "add_peers service (h # hs) d =
     (let (ok, d) = add_peer_connection service h d in if ok then add_peers service hs d else (False, d))"

text \<open>Only 255 characters of the option are used.\<close>

definition parse_peer_connections :: "(string \<Rightarrow> int option) \<Rightarrow> string option \<Rightarrow> lircd \<Rightarrow> bool \<times> lircd" where
  "parse_peer_connections service opt d = (case opt of
     None \<Rightarrow> (True, d)
   | Some s \<Rightarrow> add_peers service (strtok_all (\<lambda>c. c = CHR '','' \<or> c = CHR '' '') (take 255 s)) d)"

section \<open>The first state\<close>

text \<open>The values the static variables start with; \<open>g\<close> are those of \<open>ir_remote.c\<close>, without remotes.\<close>

definition lircd_start :: "lirc_state \<Rightarrow> sbuf \<Rightarrow> string option \<Rightarrow> lircd" where
  "lircd_start g tx configfile = \<lparr>dl_g = g\<lparr>remotes := [], last_remote := None\<rparr>, dl_old = None, dl_last_old = NotOld,
     dl_repeat = None, dl_repeat_fd = None, dl_repeat_message = None, dl_timer = None, dl_alrm = False, dl_clis = [],
     dl_stale = replicate MAX_CLIENTS 0, dl_types = replicate MAX_CLIENTS 0, dl_peers = [], dl_hw = False, dl_tx = tx,
     dl_min_freq = 0, dl_max_freq = 0,
     dl_filter = \<lparr>fp_max_gap = 0, fp_min_pulse = 0, fp_min_space = 0, fp_max_pulse = 0, fp_max_space = 0\<rparr>,
     dl_drv = [], dl_configfile = configfile, dl_logfile = None, dl_exit = False, dl_fault = False,
     dl_out = (\<lambda>_. []), dl_sent = (\<lambda>_. []), dl_in = (\<lambda>_. []), dl_mono = [], dl_tod = [], dl_plugs = [], dl_connects = []\<rparr>"

end
