(* ===== verification/Daemon_Facts.thy ===== *)
theory Daemon_Facts
  imports Daemon_Wait Client_Reply Dump_Lines
begin

text \<open>
  What the clients are sent: writing to a socket that takes everything, the shape of the replies, and that every
  command gives exactly one reply; messages for all clients: who gets them, and who is removed.
\<close>

section \<open>Writing\<close>

text \<open>A socket that neither fails nor is busy.\<close>

definition flows :: "write_event list \<Rightarrow> bool" where
  "flows es \<longleftrightarrow> (\<forall>ev \<in> set es. \<exists>k. ev = WTake k)"

lemma write_loop_sent:
  "write_loop n es cs w = (ok, es', w') \<Longrightarrow> \<exists>k. w' = w @ take k cs \<and> (ok \<longrightarrow> w' = w @ cs) \<and> set es' \<subseteq> set es"
proof (induction n es cs w rule: write_loop.induct)
  case (2 n c cs w)
  have "w @ c # cs = w @ take (length (c # cs)) (c # cs)" by simp
  then show ?case using 2 by (metis append_Nil2 empty_set empty_subsetI prod.inject write_loop.simps(2))
next
  case (3 n k es c cs w)
  obtain j where j: "w' = (w @ c # take k cs) @ take j (drop k cs)" "ok \<longrightarrow> w' = (w @ c # take k cs) @ drop k cs" "set es' \<subseteq> set es"
    using 3 by auto
  have "(w @ c # take k cs) @ take j (drop k cs) = w @ take (Suc (k + j)) (c # cs)" by (simp add: take_add)
  then have "w' = w @ take (Suc (k + j)) (c # cs)" using j(1) by metis
  then show ?case using j(2,3) by (intro exI [of _ "Suc (k + j)"]) auto
next
  case (4 n es c cs w)
  then show ?case by (auto split: if_splits intro: exI [of _ 0])
next
  case (5 n es c cs w)
  then show ?case by (auto intro: exI [of _ 0])
qed auto

lemma write_loop_flows: "flows es \<Longrightarrow> \<exists>es'. write_loop n es cs w = (True, es', w @ cs) \<and> flows es'"
proof (induction n es cs w rule: write_loop.induct)
  case (3 n k es c cs w)
  then show ?case by (auto simp: flows_def)
qed (auto simp: flows_def)

lemma write_socket_flows:
  assumes "fd \<in> set (dl_clis d)" "flows (dl_out d fd)"
  shows "\<exists>d'. write_socket fd s d = (True, d') \<and> dl_sent d' = (dl_sent d)(fd := dl_sent d fd @ s)
    \<and> flows (dl_out d' fd) \<and> (\<forall>x. x \<noteq> fd \<longrightarrow> dl_out d' x = dl_out d x) \<and> dl_clis d' = dl_clis d"
proof -
  obtain es' where "write_loop WRITE_RETRIES (dl_out d fd) s [] = (True, es', s)" "flows es'"
    using write_loop_flows [OF assms(2), of WRITE_RETRIES s "[]"] by auto
  then show ?thesis using assms(1) by (simp add: write_socket_def)
qed

lemma write_all_flows:
  "fd \<in> set (dl_clis d) \<Longrightarrow> flows (dl_out d fd) \<Longrightarrow> \<exists>d'. write_all fd ss d = (True, d')
    \<and> dl_sent d' = (dl_sent d)(fd := dl_sent d fd @ concat ss)
    \<and> flows (dl_out d' fd) \<and> (\<forall>x. x \<noteq> fd \<longrightarrow> dl_out d' x = dl_out d x)"
proof (induction ss arbitrary: d)
  case (Cons s ss)
  obtain d1 where 1: "write_socket fd s d = (True, d1)" "dl_sent d1 = (dl_sent d)(fd := dl_sent d fd @ s)"
    "flows (dl_out d1 fd)" "\<forall>x. x \<noteq> fd \<longrightarrow> dl_out d1 x = dl_out d x" "dl_clis d1 = dl_clis d"
    using write_socket_flows [OF Cons.prems] by blast
  then have "fd \<in> set (dl_clis d1)" using Cons.prems(1) by simp
  then obtain d2 where "write_all fd ss d1 = (True, d2)"
    "dl_sent d2 = (dl_sent d1)(fd := dl_sent d1 fd @ concat ss)" "flows (dl_out d2 fd)"
    "\<forall>x. x \<noteq> fd \<longrightarrow> dl_out d2 x = dl_out d1 x" using Cons.IH 1(3) by blast
  then show ?case using 1 by (simp add: write_all.simps fun_upd_def fun_eq_iff)
qed (simp add: write_all.simps)

section \<open>Replies\<close>

text \<open>A reply: the command is repeated, then comes the result, then perhaps a block of lines with their number.\<close>

definition reply_text :: "string \<Rightarrow> bool \<Rightarrow> string list option \<Rightarrow> string" where
  "reply_text msg ok data = p_begin @ msg @ (if ok then p_success else p_error)
     @ (case data of None \<Rightarrow> [] | Some ls \<Rightarrow> p_data @ fmt_d 0 (int (length ls)) @ nl @ unlines ls) @ p_end"

definition line_ok :: "string \<Rightarrow> bool" where
  "line_ok l \<longleftrightarrow> newline \<notin> set l \<and> c_nul \<notin> set l"

text \<open>\<open>fd\<close> is sent one reply.\<close>

definition replied :: "int \<Rightarrow> string \<Rightarrow> lircd \<Rightarrow> bool \<times> lircd \<Rightarrow> bool" where
  "replied fd msg d res \<longleftrightarrow> fst res \<and> (\<exists>ok data. dl_sent (snd res) fd = dl_sent d fd @ reply_text msg ok data
     \<and> (\<forall>ls. data = Some ls \<longrightarrow> list_all reply_line ls))"

text \<open>\<open>fd\<close> is a client whose socket takes everything.\<close>

definition open_client :: "int \<Rightarrow> lircd \<Rightarrow> bool" where
  "open_client fd d \<longleftrightarrow> fd \<in> set (dl_clis d) \<and> flows (dl_out d fd)"

lemma write_all_open:
  assumes "open_client fd d"
  shows "fst (write_all fd ss d)" "dl_sent (snd (write_all fd ss d)) fd = dl_sent d fd @ concat ss"
    "x \<noteq> fd \<Longrightarrow> dl_sent (snd (write_all fd ss d)) x = dl_sent d x"
    "x \<noteq> fd \<Longrightarrow> dl_out (snd (write_all fd ss d)) x = dl_out d x" "flows (dl_out (snd (write_all fd ss d)) fd)"
  using write_all_flows [where fd = fd and d = d and ss = ss] assms by (auto simp: open_client_def)

text \<open>A state in which nothing has been written since \<open>d\<close>, to the same clients.\<close>

definition same_io :: "lircd \<Rightarrow> lircd \<Rightarrow> bool" where
  "same_io d d' \<longleftrightarrow> dl_sent d' = dl_sent d \<and> dl_out d' = dl_out d \<and> dl_clis d' = dl_clis d"

lemma same_io_refl [simp]: "same_io d d"
  by (simp add: same_io_def)

lemma same_io_trans: "same_io d d1 \<Longrightarrow> same_io d1 d2 \<Longrightarrow> same_io d d2"
  by (simp add: same_io_def)

lemma same_io_open: "same_io d d1 \<Longrightarrow> open_client fd d \<Longrightarrow> open_client fd d1"
  by (simp add: same_io_def open_client_def)

lemma replied_writes:
  assumes "same_io d d1" "open_client fd d" "concat ss = reply_text msg ok data"
    "\<And>ls. data = Some ls \<Longrightarrow> list_all reply_line ls"
  shows "replied fd msg d (write_all fd ss d1)"
proof -
  have o: "open_client fd d1" by (rule same_io_open [OF assms(1,2)])
  have "dl_sent d1 fd = dl_sent d fd" using assms(1) by (simp add: same_io_def)
  then show ?thesis using write_all_open [OF o, where ss = ss] assms(3,4) unfolding replied_def by auto
qed

lemma replied_success: "same_io d d1 \<Longrightarrow> open_client fd d \<Longrightarrow> replied fd msg d (send_success fd msg d1)"
  unfolding send_success_def by (rule replied_writes [where ok = True and data = None]) (auto simp: reply_text_def)

lemma cut_last_newline: "newline \<notin> set t \<Longrightarrow> cut_last_line (t @ nl) = t" "newline \<notin> set t \<Longrightarrow> cut_last_line t = t"
  by (auto simp: cut_last_line_def)

lemma reply_line_iff: "reply_line l \<longleftrightarrow> l \<noteq> [] \<and> line_ok l"
  by (simp add: reply_line_def line_ok_def)

lemma error_one_line:
  assumes "line_ok t" "length t < PACKET_SIZE + 1" "txt = t @ nl \<or> txt = t"
  shows "error_text txt = t @ nl" "error_lines txt = 1"
proof -
  have "cut_last_line txt = t" using assms cut_last_newline [of t] by (auto simp: line_ok_def)
  then show e: "error_text txt = t @ nl" using assms(2) by (simp add: error_text_def)
  have "filter (\<lambda>c. c = newline) t = []" using assms(1) by (auto simp: line_ok_def filter_empty_conv)
  then show "error_lines txt = 1" by (simp add: error_lines_def e)
qed

lemma replied_short_error:
  assumes "same_io d d1" "open_client fd d" "reply_line t" "txt = t @ nl \<or> txt = t" "length txt \<le> PACKET_SIZE"
  shows "replied fd msg d (send_error fd msg txt d1)"
proof -
  have "length t < PACKET_SIZE + 1" using assms(4,5) by auto
  note e = error_one_line [OF _ this assms(4)]
  have s: "same_io d (if length txt > PACKET_SIZE then d1\<lparr>dl_fault := True\<rparr> else d1)"
    using assms(1) by (simp add: same_io_def)
  show ?thesis unfolding send_error_def
    by (rule replied_writes [OF s assms(2), where ok = False and data = "Some [t]"])
      (use assms(3) in \<open>auto simp: reply_text_def e reply_line_iff\<close>)
qed

lemma replied_error:
  assumes "same_io d d1" "open_client fd d" "reply_line t" "txt = t @ nl \<or> txt = t" "\<not> dl_fault (snd (send_error fd msg txt d1))"
  shows "replied fd msg d (send_error fd msg txt d1)"
proof (rule replied_short_error [OF assms(1-4)])
  show "length txt \<le> PACKET_SIZE" using assms(5) by (auto simp: send_error_def split: if_splits)
qed

section \<open>Lines\<close>

lemma newline_code: "newline = CHR 0x0A"
  by code_simp

lemma nul_code: "c_nul = CHR 0x00"
  by code_simp

lemma line_ok_append [simp]: "line_ok (a @ b) \<longleftrightarrow> line_ok a \<and> line_ok b"
  by (auto simp: line_ok_def)

lemma line_ok_cons: "line_ok (c # s) \<longleftrightarrow> c \<noteq> newline \<and> c \<noteq> c_nul \<and> line_ok s"
  by (auto simp: line_ok_def)

lemma line_ok_nil [simp]: "line_ok []"
  by (simp add: line_ok_def)

lemma line_ok_digits: "list_all (is_digit_of b) s \<Longrightarrow> line_ok s"
proof -
  have "\<not> is_digit_of b newline" "\<not> is_digit_of b c_nul" by (simp_all add: is_digit_of_def digit_val_def)
  then show "list_all (is_digit_of b) s \<Longrightarrow> line_ok s" by (auto simp: line_ok_def list_all_iff)
qed

lemma line_ok_dec [simp]: "line_ok (fmt_d 0 x)" "line_ok (fmt_u 0 x)"
proof -
  have d: "line_ok (to_dec n)" for n by (rule line_ok_digits [OF to_dec_digits])
  have m: "CHR ''-'' \<noteq> newline" "CHR ''-'' \<noteq> c_nul" by code_simp+
  show "line_ok (fmt_d 0 x)" "line_ok (fmt_u 0 x)"
    using d m by (simp_all add: fmt_d_def fmt_u_def pad_left_def line_ok_cons)
qed

lemma line_ok_hex [simp]: "line_ok (fmt_hex w n)"
proof -
  have z: "is_digit_of 16 (CHR ''0'')" by (simp add: is_digit_of_def digit_val_def)
  show ?thesis by (rule line_ok_digits [OF fmt_hex_all [OF z to_hex_digits]])
qed

lemma line_ok_quoted [simp]: "line_ok (quoted s) \<longleftrightarrow> line_ok s"
  by (simp add: quoted_def line_ok_def newline_code nul_code)

lemma line_ok_tokens: "line_ok s \<Longrightarrow> line_ok cur \<Longrightarrow> t \<in> set (tokens_acc p cur s) \<Longrightarrow> line_ok t"
  by (induction p cur s rule: tokens_acc.induct) (auto simp: line_ok_def split: if_splits)

definition args_ok :: "string option \<Rightarrow> bool" where
  "args_ok a \<longleftrightarrow> (\<forall>s. a = Some s \<longrightarrow> line_ok s)"

lemma line_ok_words: "args_ok a \<Longrightarrow> w \<in> set (rc_words a) \<Longrightarrow> line_ok w"
  by (auto simp: rc_words_def args_ok_def strtok_all_def split: option.splits intro: line_ok_tokens [of _ "[]"])

text \<open>An error text: a line with or without its newline.\<close>

definition error_ok :: "string \<Rightarrow> bool" where
  "error_ok txt \<longleftrightarrow> (\<exists>t. reply_line t \<and> (txt = t @ nl \<or> txt = t))"

lemma error_okI: "line_ok t \<Longrightarrow> t \<noteq> [] \<Longrightarrow> error_ok (t @ nl)" "line_ok t \<Longrightarrow> t \<noteq> [] \<Longrightarrow> error_ok t"
  by (auto simp: error_ok_def reply_line_iff)

lemma replied_error_ok:
  "same_io d d1 \<Longrightarrow> open_client fd d \<Longrightarrow> error_ok txt \<Longrightarrow> \<not> dl_fault (snd (send_error fd msg txt d1))
    \<Longrightarrow> replied fd msg d (send_error fd msg txt d1)"
  by (auto simp: error_ok_def intro: replied_error)

lemma error_ok_parts:
  "line_ok (a @ b) \<Longrightarrow> a \<noteq> [] \<Longrightarrow> error_ok (a @ b @ nl)" "line_ok (a @ b @ c) \<Longrightarrow> a \<noteq> [] \<Longrightarrow> error_ok (a @ b @ c @ nl)"
  "line_ok (a @ b @ c @ e) \<Longrightarrow> a \<noteq> [] \<Longrightarrow> error_ok (a @ b @ c @ e @ nl)"
  using error_okI(1) [of "a @ b"] error_okI(1) [of "a @ b @ c"] error_okI(1) [of "a @ b @ c @ e"] by simp_all

section \<open>One client\<close>

lemma write_socket_ok: "write_socket fd s d = (True, d') \<Longrightarrow> dl_sent d' = (dl_sent d)(fd := dl_sent d fd @ s)"
  by (auto simp: write_socket_def split: if_splits prod.splits dest!: write_loop_sent)

lemma write_socket_others:
  "x \<noteq> fd \<Longrightarrow> dl_sent (snd (write_socket fd s d)) x = dl_sent d x \<and> dl_out (snd (write_socket fd s d)) x = dl_out d x"
  by (auto simp: write_socket_def split: prod.splits)

lemma write_all_ok: "write_all fd ss d = (True, d') \<Longrightarrow> dl_sent d' = (dl_sent d)(fd := dl_sent d fd @ concat ss)"
proof (induction ss arbitrary: d)
  case (Cons s ss)
  obtain ok d1 where w: "write_socket fd s d = (ok, d1)" by (cases "write_socket fd s d")
  with Cons.prems have ok: "ok" "write_all fd ss d1 = (True, d')" by (auto simp: write_all.simps split: if_splits)
  show ?case using Cons.IH [OF ok(2)] write_socket_ok [of fd s d d1] w ok(1) by (simp add: fun_upd_def fun_eq_iff)
qed (simp add: write_all.simps)

lemma write_all_others:
  "x \<noteq> fd \<Longrightarrow> dl_sent (snd (write_all fd ss d)) x = dl_sent d x \<and> dl_out (snd (write_all fd ss d)) x = dl_out d x"
proof (induction ss arbitrary: d)
  case (Cons s ss)
  obtain ok d1 where w: "write_socket fd s d = (ok, d1)" by (cases "write_socket fd s d")
  show ?case using Cons.IH [OF Cons.prems, of d1] write_socket_others [OF Cons.prems, of s d] w
    by (simp add: write_all.simps)
qed (simp add: write_all.simps)

text \<open>The client takes the whole text.\<close>

definition takes :: "string list \<Rightarrow> lircd \<Rightarrow> int \<Rightarrow> bool" where
  "takes ss d fd = fst (write_all fd ss d)"

lemma write_socket_cong:
  assumes "fd \<in> set (dl_clis d) \<longleftrightarrow> fd \<in> set (dl_clis d')" "dl_out d' fd = dl_out d fd"
  shows "fst (write_socket fd s d') = fst (write_socket fd s d)"
    "dl_out (snd (write_socket fd s d')) fd = dl_out (snd (write_socket fd s d)) fd"
  using assms by (auto simp: write_socket_def split: prod.splits)

lemma takes_cong:
  "fd \<in> set (dl_clis d) \<longleftrightarrow> fd \<in> set (dl_clis d') \<Longrightarrow> dl_out d' fd = dl_out d fd \<Longrightarrow> takes ss d' fd = takes ss d fd"
proof (induction ss arbitrary: d d')
  case (Cons s ss)
  obtain ok d1 where 1: "write_socket fd s d = (ok, d1)" by (cases "write_socket fd s d")
  obtain ok' d1' where 2: "write_socket fd s d' = (ok', d1')" by (cases "write_socket fd s d'")
  have "ok' = ok" "dl_out d1' fd = dl_out d1 fd" using write_socket_cong [OF Cons.prems, of s] 1 2 by simp_all
  moreover have "fd \<in> set (dl_clis d1) \<longleftrightarrow> fd \<in> set (dl_clis d1')"
    using Cons.prems(1) write_socket_clis [OF 1] write_socket_clis [OF 2] by simp
  ultimately show ?case using Cons.IH [of d1 d1'] 1 2 by (simp add: takes_def write_all.simps)
qed (simp add: takes_def write_all.simps)

lemma open_takes: "open_client fd d \<Longrightarrow> takes ss d fd"
  by (simp add: takes_def write_all_open)

section \<open>Removing\<close>

lemma deinit_fields [simp]: "dl_clis (deinit_hw e d) = dl_clis d" "dl_out (deinit_hw e d) = dl_out d"
  "dl_sent (deinit_hw e d) = dl_sent d" "dl_types (deinit_hw e d) = dl_types d" "dl_fault (deinit_hw e d) = dl_fault d"
  "dl_repeat (deinit_hw e d) = dl_repeat d" "dl_repeat_fd (deinit_hw e d) = dl_repeat_fd d"
  "dl_in (deinit_hw e d) = dl_in d" "dl_stale (deinit_hw e d) = dl_stale d"
  by (simp_all add: deinit_hw_def)

lemma remove_fields [simp]: "dl_out (remove_client e fd d) = dl_out d" "dl_sent (remove_client e fd d) = dl_sent d"
  "dl_types (remove_client e fd d) = dl_types d" "dl_fault (remove_client e fd d) = dl_fault d"
  "dl_repeat (remove_client e fd d) = dl_repeat d" "dl_repeat_fd (remove_client e fd d) = dl_repeat_fd d"
  "dl_in (remove_client e fd d) = dl_in d"
  by (simp_all add: remove_client_def split: option.split)

lemma find_index_nth:
  assumes "distinct xs" "i < length xs"
  shows "find_index (\<lambda>x. x = xs ! i) xs = Some i"
proof (rule find_index_SomeI [OF assms(2)])
  show "\<not> xs ! j = xs ! i" if "j < i" for j using that assms nth_eq_iff_index_eq [of xs j i] by simp
qed simp

lemma remove_nth:
  "distinct (dl_clis d) \<Longrightarrow> i < length (dl_clis d)
    \<Longrightarrow> dl_clis (remove_client e (dl_clis d ! i) d) = take i (dl_clis d) @ drop (i + 1) (dl_clis d)"
  by (simp add: remove_client_def find_index_nth)

section \<open>Everyone\<close>

lemma tell_all:
  "distinct (dl_clis d) \<Longrightarrow>
    dl_clis (tell_clients e False ss i d) = take i (dl_clis d) @ filter (takes ss d) (drop i (dl_clis d))
    \<and> (\<forall>x \<in> set (drop i (dl_clis d)). takes ss d x
         \<longrightarrow> dl_sent (tell_clients e False ss i d) x = dl_sent d x @ concat ss)
    \<and> (\<forall>x. x \<notin> set (drop i (dl_clis d)) \<longrightarrow> dl_sent (tell_clients e False ss i d) x = dl_sent d x)"
proof (induction i d rule: tell_induct [where e = e and loc = False and ss = ss])
  case (stop i d)
  then show ?case by (simp add: tell_end)
next
  case (ok i d d1)
  let ?x = "dl_clis d ! i"
  have c: "dl_clis d1 = dl_clis d" by (rule write_all_clis [OF ok(3)])
  have dr: "drop i (dl_clis d) = ?x # drop (i + 1) (dl_clis d)" using ok(1) by (simp add: Cons_nth_drop_Suc)
  have n: "?x \<notin> set (drop (i + 1) (dl_clis d))" using ok(5) dr distinct_drop [of "dl_clis d" i] by simp
  have t: "takes ss d ?x" using ok(3) by (simp add: takes_def)
  have o: "dl_out d1 y = dl_out d y" "dl_sent d1 y = dl_sent d y" if "y \<noteq> ?x" for y
    using write_all_others [OF that, of ss d] ok(3) by simp_all
  have e: "takes ss d1 y = takes ss d y" if "y \<in> set (drop (i + 1) (dl_clis d))" for y
  proof (rule takes_cong)
    have "y \<noteq> ?x" using that n by auto
    then show "dl_out d1 y = dl_out d y" by (rule o(1))
  qed (simp add: c)
  have IH: "dl_clis (tell_clients e False ss (i + 1) d1)
      = take (i + 1) (dl_clis d) @ filter (takes ss d) (drop (i + 1) (dl_clis d))"
    using ok(4,5) c e by (simp cong: filter_cong)
  have s: "dl_sent d1 ?x = dl_sent d ?x @ concat ss" using write_all_ok [OF ok(3)] by simp
  have n2: "dl_sent d1 y = dl_sent d y" if "y \<in> set (drop (i + 1) (dl_clis d))" for y
    by (rule o(2)) (use that n in auto)
  show ?case unfolding tell_ok [OF ok(1,2,3)] dr using IH ok(4,5) c e o n2 t s
    by (auto simp: take_Suc_conv_app_nth [OF ok(1)])
next
  case (gone i d d1)
  let ?x = "dl_clis d ! i" and ?d = "remove_client e (dl_clis d ! i) d1"
  have c: "dl_clis d1 = dl_clis d" by (rule write_all_clis [OF gone(3)])
  have c2: "dl_clis ?d = take i (dl_clis d) @ drop (i + 1) (dl_clis d)"
    using remove_nth [of d1 i e] gone(1,5) c by simp
  have di: "distinct (dl_clis ?d)" unfolding c2 using gone(5)
    by (simp add: set_take_disj_set_drop_if_distinct)
  have dr: "drop i (dl_clis d) = ?x # drop (i + 1) (dl_clis d)" using gone(1) by (simp add: Cons_nth_drop_Suc)
  have dr2: "drop i (dl_clis ?d) = drop (i + 1) (dl_clis d)" "take i (dl_clis ?d) = take i (dl_clis d)"
    unfolding c2 using gone(1) by simp_all
  have n: "?x \<notin> set (drop (i + 1) (dl_clis d))" using gone(5) dr distinct_drop [of "dl_clis d" i] by simp
  have t: "\<not> takes ss d ?x" using gone(3) by (simp add: takes_def)
  have o: "dl_out ?d y = dl_out d y" "dl_sent ?d y = dl_sent d y" if "y \<noteq> ?x" for y
    using write_all_others [OF that, of ss d] gone(3) by simp_all
  have e: "takes ss ?d y = takes ss d y" if "y \<in> set (drop (i + 1) (dl_clis d))" for y
  proof (rule takes_cong)
    have "y \<noteq> ?x" using that n by auto
    then show "dl_out ?d y = dl_out d y" by (rule o(1))
    show "y \<in> set (dl_clis d) \<longleftrightarrow> y \<in> set (dl_clis ?d)" unfolding c2 using that by (auto dest: in_set_dropD)
  qed
  have IH: "dl_clis (tell_clients e False ss i ?d) = take i (dl_clis d) @ filter (takes ss d) (drop (i + 1) (dl_clis d))"
    using gone(4) di dr2 e by (simp cong: filter_cong)
  have n2: "dl_sent d1 y = dl_sent d y" if "y \<in> set (drop (i + 1) (dl_clis d))" for y
  proof -
    have "y \<noteq> ?x" using that n by auto
    then show ?thesis using o(2) by simp
  qed
  show ?case unfolding tell_drop [OF gone(1,2,3)] dr using IH gone(4) di dr2 e o n2 t by auto
qed (simp add: tell_skip)

text \<open>A socket that takes everything goes on doing so.\<close>

lemma write_socket_keeps_flows: "flows (dl_out d x) \<Longrightarrow> flows (dl_out (snd (write_socket fd s d)) x)"
  using write_loop_flows [of "dl_out d fd" WRITE_RETRIES s "[]"]
  by (cases "x = fd") (auto simp: write_socket_def split: prod.splits)

lemma write_all_keeps_flows: "flows (dl_out d x) \<Longrightarrow> flows (dl_out (snd (write_all fd ss d)) x)"
proof (induction ss arbitrary: d)
  case (Cons s ss)
  obtain ok d1 where w: "write_socket fd s d = (ok, d1)" by (cases "write_socket fd s d")
  then show ?case using Cons write_socket_keeps_flows [OF Cons.prems, of fd s] by (simp add: write_all.simps)
qed (simp add: write_all.simps)

lemma tell_keeps_flows: "flows (dl_out d x) \<Longrightarrow> flows (dl_out (tell_clients e loc ss i d) x)"
proof (induction i d rule: tell_induct [where e = e and loc = loc and ss = ss])
  case (ok i d d1)
  then show ?case using write_all_keeps_flows [of d x "dl_clis d ! i" ss] by (simp add: tell_ok)
next
  case (gone i d d1)
  then show ?case using write_all_keeps_flows [of d x "dl_clis d ! i" ss] by (simp add: tell_drop)
qed (simp_all add: tell_end tell_skip)

lemma broadcast_open:
  assumes "open_client fd d" "distinct (dl_clis d)"
  shows "open_client fd (broadcast_message e s d)" "dl_sent (broadcast_message e s d) fd = dl_sent d fd @ s"
proof -
  have fd: "fd \<in> set (dl_clis d)" "flows (dl_out d fd)" using assms(1) by (simp_all add: open_client_def)
  have t: "takes [s] d fd" by (rule open_takes [OF assms(1)])
  note A = tell_all [OF assms(2), of e "[s]" 0]
  show "open_client fd (broadcast_message e s d)" using A fd t tell_keeps_flows [OF fd(2)]
    by (simp add: open_client_def broadcast_message_def)
  show "dl_sent (broadcast_message e s d) fd = dl_sent d fd @ s" using A fd t
    by (simp add: broadcast_message_def)
qed

end
