(* ===== verification/Daemon_Replies.thy ===== *)
theory Daemon_Replies
  imports Daemon_Facts
begin

text \<open>
  Every command is answered: with one complete reply at once, or at the end of the repetition it has started.
\<close>

section \<open>Lists\<close>

text \<open>Names as the configuration reader gives them: without newlines; the names of buttons not near the size of a
  packet.\<close>

definition names_ok :: "ir_remote \<Rightarrow> bool" where
  "names_ok rm \<longleftrightarrow> reply_line (name_text (rname rm))
     \<and> (\<forall>cs. codes rm = Some cs \<longrightarrow> (\<forall>nc \<in> set cs. line_ok (nname nc) \<and> length (nname nc) < 200))"

definition all_names_ok :: "lircd \<Rightarrow> bool" where
  "all_names_ok d \<longleftrightarrow> (\<forall>rm \<in> set (remotes (dl_g d)). names_ok rm)"

lemma replied_block:
  assumes "same_io d d1" "open_client fd d" "list_all reply_line ls" "concat ss = unlines ls" "n = length ls"
  shows "replied fd msg d (write_all fd ([p_begin, msg, p_success] @
    (if n = 0 then [p_end] else [p_data, fmt_d 0 (int n) @ nl] @ ss @ [p_end])) d1)"
proof (cases ls)
  case Nil
  then show ?thesis
    by (intro replied_writes [OF assms(1,2), where ok = True and data = None]) (use assms(5) in \<open>auto simp: reply_text_def\<close>)
next
  case (Cons l ls')
  then show ?thesis
    by (intro replied_writes [OF assms(1,2), where ok = True and data = "Some ls"])
      (use assms(3-5) in \<open>auto simp: reply_text_def\<close>)
qed

lemma unlines_map: "concat (map (\<lambda>x. f x @ nl) xs) = unlines (map f xs)"
  by (simp add: unlines_def comp_def)

lemma replied_remote_list:
  assumes "open_client fd d" "all_names_ok d"
  shows "replied fd msg d (send_remote_list fd msg d)"
proof -
  define f :: "ir_remote \<Rightarrow> string" where "f = (\<lambda>rm. if length (name_text (rname rm) @ nl) \<ge> PACKET_SIZE + 1 then ''name_too_long'' else name_text (rname rm))"
  have r: "remote_line rm = f rm @ nl" for rm by (simp add: remote_line_def f_def Let_def)
  have l: "list_all reply_line (map f (remotes (dl_g d)))"
    using assms(2) by (auto simp: list_all_iff f_def all_names_ok_def names_ok_def) (simp add: reply_line_iff line_ok_def newline_code nul_code)
  have "concat (map remote_line (remotes (dl_g d))) = unlines (map f (remotes (dl_g d)))"
    unfolding r [abs_def] by (rule unlines_map)
  then show ?thesis unfolding send_remote_list_def Let_def by (rule replied_block [OF same_io_refl assms(1) l]) simp
qed

lemma fmt_hex_length: "length (fmt_hex 16 (unat (c :: ir_code))) = 16"
proof -
  have "unat c < 16 ^ 16" using unsigned_less [of c, where 'a = nat] by simp
  then have "length (to_hex (unat c)) \<le> 16" by (intro to_hex_length) simp
  then show ?thesis by (simp add: fmt_hex_def)
qed

lemma clipped_short: "length s < PACKET_SIZE \<Longrightarrow> clipped s t = s"
  by (simp add: clipped_def)

lemma replied_remote:
  assumes "open_client fd d" "names_ok rm"
  shows "replied fd msg d (send_remote fd msg rm d)"
proof -
  define cs where "cs = (case codes rm of Some cs \<Rightarrow> cs | None \<Rightarrow> [])"
  define f :: "ir_ncode \<Rightarrow> string" where "f = (\<lambda>nc. fmt_hex 16 (unat (code nc)) @ '' '' @ nname nc)"
  have n: "line_ok (nname nc) \<and> length (nname nc) < 200" if "nc \<in> set cs" for nc
    using assms(2) that by (cases "codes rm") (auto simp: names_ok_def cs_def)
  have "code_list_line nc = f nc @ nl" if "nc \<in> set cs" for nc
    using n [OF that] by (simp add: code_list_line_def code_line_text_def f_def clipped_short fmt_hex_length)
  then have m: "map code_list_line cs = map (\<lambda>nc. f nc @ nl) cs" by simp
  have l: "list_all reply_line (map f cs)"
    using n line_ok_hex [of 16] by (auto simp: list_all_iff f_def reply_line_iff line_ok_cons newline_code nul_code)
  have "concat (map code_list_line cs) = unlines (map f cs)" unfolding m by (rule unlines_map)
  then show ?thesis unfolding send_remote_def cs_def [symmetric] Let_def
    by (rule replied_block [OF same_io_refl assms(1) l]) simp
qed

lemma replied_name:
  assumes "open_client fd d" "line_ok (nname nc)" "length (nname nc) < 200"
  shows "replied fd msg d (send_name fd msg nc d)"
proof -
  have o: "fmt_d 0 1 = ''1''" by code_simp
  have b: "line_ok '' ''" by (simp add: line_ok_def newline_code nul_code)
  have c: "clipped (''1'' @ nl @ code_line_text nc) t = ''1'' @ nl @ code_line_text nc" for t
    by (rule clipped_short) (use assms(3) in \<open>simp add: code_line_text_def fmt_hex_length\<close>)
  show ?thesis unfolding send_name_def c
    by (rule replied_writes [OF same_io_refl assms(1), where ok = True
          and data = "Some [fmt_hex 16 (unat (code nc)) @ '' '' @ nname nc]"])
      (use assms(2) o b in \<open>auto simp: reply_text_def code_line_text_def line_ok_cons reply_line_iff\<close>)
qed

section \<open>Arguments\<close>

lemma scan_rc_error: "\<forall>w \<in> set ws. line_ok w \<Longrightarrow> scan_rc e want ws d = Inl t \<Longrightarrow> error_ok t"
proof -
  have r: "error_ok (''unknown remote: '' @ quoted w @ nl)" "error_ok (''unknown command: '' @ quoted w @ nl)"
    if "line_ok w" for w
    by (rule error_ok_parts(1), use that in \<open>simp add: line_ok_def quoted_def newline_code nul_code\<close>, simp)+
  have t: "error_ok (''bad send packet (trailing ws)'' @ nl)" "error_ok (''bad send packet (reps/eol)'' @ nl)"
    by (rule error_okI(1), simp add: line_ok_def newline_code nul_code, simp)+
  have n: "error_ok (''too many repeats: '' @ quoted (fmt_d 0 x) @ '' > '' @ quoted (fmt_u 0 y) @ nl)" for x y
  proof (rule error_ok_parts(3))
    have "line_ok ''too many repeats: ''" "line_ok '' > ''" by (simp_all add: line_ok_def newline_code nul_code)
    then show "line_ok (''too many repeats: '' @ quoted (fmt_d 0 x) @ '' > '' @ quoted (fmt_u 0 y))"
      by (metis line_ok_append line_ok_dec line_ok_quoted)
  qed simp
  have p: "error_ok t" if "parse_reps e x = Inl t" for x t
    using that t(2) n unfolding parse_reps_def Let_def by (auto split: option.splits prod.splits if_splits)
  show "\<forall>w \<in> set ws. line_ok w \<Longrightarrow> scan_rc e want ws d = Inl t \<Longrightarrow> error_ok t"
    unfolding scan_rc_def using r t(1) p
    by (auto simp del: append.simps split: list.splits option.splits prod.splits sum.splits if_splits)
qed

lemma replied_rc:
  assumes "open_client fd d" "args_ok a" "parse_rc e fd msg a want n d = Inl res" "\<not> dl_fault (snd res)"
  shows "replied fd msg d res"
proof -
  have m: "error_ok (''remote missing'' @ nl)" "error_ok (''code missing'' @ nl)"
    by (rule error_okI(1), simp add: line_ok_def newline_code nul_code, simp)+
  have w: "\<forall>w \<in> set (rc_words a). line_ok w" using assms(2) line_ok_words by blast
  obtain t where t: "res = send_error fd msg t d" "error_ok t"
    using assms(3) m scan_rc_error [OF w] unfolding parse_rc_def by (auto split: sum.splits if_splits)
  then show ?thesis using replied_error_ok [OF same_io_refl assms(1) t(2)] assms(4) by simp
qed

text \<open>What the arguments give: a remote of the configuration and one of its buttons.\<close>

lemma get_ir_remote_valid: "get_ir_remote rs nm = Some (RIndex i) \<Longrightarrow> i < length rs \<and> has_name nm (rname (rs ! i))"
  by (auto simp: get_ir_remote_def split: if_splits dest!: find_index_Some)

lemma get_code_valid: "get_code_by_name rm nm = Some c \<Longrightarrow>
    c = NEof \<or> (\<exists>cs j. codes rm = Some cs \<and> c = NCode j \<and> j < length cs \<and> strcaseeq (nname (cs ! j)) nm)"
  by (auto simp: get_code_by_name_def split: option.splits if_splits dest!: find_index_Some)

lemma internal_no_code: "get_code_by_name lirc_internal_remote nm = None"
  by (simp add: get_code_by_name_def lirc_internal_remote_def zero_remote_def)

lemma scan_rc_ok:
  assumes "scan_rc e want ws d = Inr (r, c, k)"
  shows "(\<forall>q. r = Some q \<longrightarrow> ws \<noteq> [] \<and> get_ir_remote (remotes (dl_g d)) (hd ws) = Some q)
    \<and> (\<forall>p. c = Some p \<longrightarrow> (\<exists>q nm. r = Some q \<and> get_code_by_name (deref_remote d q) nm = Some p))"
  using assms unfolding scan_rc_def
  by (auto split: list.splits option.splits prod.splits sum.splits if_splits) (metis)+

lemma parse_rc_ok:
  assumes "parse_rc e fd msg a want n d = Inr (r, c, k)"
  shows "scan_rc e want (rc_words a) d = Inr (r, c, k)" "0 < n \<Longrightarrow> r \<noteq> None" "1 < n \<Longrightarrow> c \<noteq> None"
  using assms unfolding parse_rc_def by (auto split: sum.splits if_splits)

lemma names_deref:
  assumes "all_names_ok d" "get_ir_remote (remotes (dl_g d)) nm = Some q"
  shows "names_ok (deref_remote d q)"
proof (cases q)
  case RInternal
  then show ?thesis
    by (simp add: deref_remote_def names_ok_def lirc_internal_remote_def zero_remote_def name_text_def reply_line_iff line_ok_def
        newline_code nul_code)
next
  case (RIndex i)
  then show ?thesis using assms get_ir_remote_valid [of "remotes (dl_g d)" nm i]
    by (simp add: deref_remote_def remote_at_def all_names_ok_def)
qed

lemma names_code: "names_ok rm \<Longrightarrow> get_code_by_name rm nm = Some c \<Longrightarrow>
    line_ok (nname (deref rm c)) \<and> length (nname (deref rm c)) < 200"
  by (drule get_code_valid) (auto simp: names_ok_def deref_def line_ok_def newline_code nul_code)

lemma replied_list:
  assumes "open_client fd d" "args_ok a" "all_names_ok d" "\<not> dl_fault (snd (list_cmd e fd msg a d))"
  shows "replied fd msg d (list_cmd e fd msg a d)"
proof (cases "parse_rc e fd msg a False 0 d")
  case (Inl res)
  then show ?thesis using replied_rc [OF assms(1,2) Inl] assms(4) by (simp add: list_cmd_def)
next
  case (Inr x)
  obtain r c k where x: "x = (r, c, k)" by (cases x)
  note s = scan_rc_ok [OF parse_rc_ok(1) [OF Inr [unfolded x]]]
  have n: "names_ok (deref_remote d q)" if "r = Some q" for q using s that names_deref [OF assms(3)] by blast
  show ?thesis
  proof (cases r)
    case None
    then show ?thesis using Inr x replied_remote_list [OF assms(1,3)] by (simp add: list_cmd_def)
  next
    case q: (Some q)
    show ?thesis
    proof (cases c)
      case None
      then show ?thesis using Inr x q replied_remote [OF assms(1) n [OF q]] by (simp add: list_cmd_def)
    next
      case (Some p)
      then obtain nm where "get_code_by_name (deref_remote d q) nm = Some p" using s q by auto
      then have "replied fd msg d (send_name fd msg (deref (deref_remote d q) p) d)"
        using names_code [OF n [OF q]] replied_name [OF assms(1)] by blast
      then show ?thesis using Inr x q Some by (simp add: list_cmd_def)
    qed
  qed
qed

section \<open>Commands\<close>

lemma error_ok_fixed: "line_ok t \<Longrightarrow> t \<noteq> [] \<Longrightarrow> error_ok (t @ nl)"
  by (rule error_okI(1))

lemma same_io_drvctl: "same_io d (snd (drvctl e c d))"
  by (simp add: drvctl_def same_io_def split: option.split)

lemma same_io_fault: "same_io d (d\<lparr>dl_fault := b\<rparr>)"
  by (simp add: same_io_def)

lemma tx_scan_error: "tx_scan ws ch = Inl t \<Longrightarrow> error_ok t"
proof (induction ws ch rule: tx_scan.induct)
  case (2 w ws ch)
  have i: "error_ok (''invalid argument'' @ nl)" by (rule error_ok_fixed) (simp_all add: line_ok_def newline_code nul_code)
  have m: "error_ok (''cannot support more than '' @ fmt_d 0 MAX_TX @ '' transmitters'' @ nl)"
  proof (rule error_ok_parts(2))
    have "line_ok ''cannot support more than ''" "line_ok '' transmitters''" by (simp_all add: line_ok_def newline_code nul_code)
    then show "line_ok (''cannot support more than '' @ fmt_d 0 MAX_TX @ '' transmitters'')"
      by (metis line_ok_append line_ok_dec(1))
  qed simp
  show ?case using 2 i m by (auto simp: Let_def simp del: append.simps split: prod.splits if_splits)
qed simp

text \<open>One reply, unless memory was damaged; with rules for the branches of a command.\<close>

definition good :: "int \<Rightarrow> string \<Rightarrow> lircd \<Rightarrow> bool \<times> lircd \<Rightarrow> bool" where
  "good fd msg d res \<longleftrightarrow> (open_client fd d \<and> \<not> dl_fault (snd res) \<longrightarrow> replied fd msg d res)"

lemma goodD: "good fd msg d res \<Longrightarrow> open_client fd d \<Longrightarrow> \<not> dl_fault (snd res) \<Longrightarrow> replied fd msg d res"
  by (simp add: good_def)

lemma good_success: "same_io d d1 \<Longrightarrow> good fd msg d (send_success fd msg d1)"
  by (simp add: good_def replied_success)

lemma good_error: "error_ok t \<Longrightarrow> same_io d d1 \<Longrightarrow> good fd msg d (send_error fd msg t d1)"
  by (simp add: good_def replied_error_ok)

lemma good_if: "(b \<Longrightarrow> good fd msg d x) \<Longrightarrow> (\<not> b \<Longrightarrow> good fd msg d y) \<Longrightarrow> good fd msg d (if b then x else y)"
  by simp

lemma same_io_if: "same_io d x \<Longrightarrow> same_io d y \<Longrightarrow> same_io d (if b then x else y)"
  by simp

lemma good_transmitters: "good fd msg d (set_transmitters e fd msg a d)"
proof -
  have f: "error_ok (''no arguments given'' @ nl)" "error_ok (''hardware does not support sending'' @ nl)"
    "error_ok (''hardware does not support multiple transmitters'' @ nl)" "error_ok (''error - could not set transmitters'' @ nl)"
    by (rule error_ok_fixed, simp add: line_ok_def newline_code nul_code, simp)+
  have m: "error_ok (''error - maximum of '' @ fmt_d 0 x @ '' transmitters'' @ nl)" for x
  proof (rule error_ok_parts(2))
    have "line_ok ''error - maximum of ''" "line_ok '' transmitters''" by (simp_all add: line_ok_def newline_code nul_code)
    then show "line_ok (''error - maximum of '' @ fmt_d 0 x @ '' transmitters'')"
      by (metis line_ok_append line_ok_dec(1))
  qed simp
  show ?thesis
  proof (cases "tx_scan (rc_words a) 0")
    case (Inl t)
    show ?thesis unfolding set_transmitters_def Inl sum.case
      by (intro good_if good_error f same_io_refl tx_scan_error [OF Inl])
  next
    case (Inr ch)
    show ?thesis unfolding set_transmitters_def Inr sum.case Let_def case_prod_beta
      by (intro good_if good_error good_success f m same_io_refl same_io_drvctl)
  qed
qed

lemma illegal_ok: "args_ok (Some t) \<Longrightarrow> error_ok (''Illegal argument (protocol error): '' @ t)"
proof (rule error_okI(2))
  have "line_ok ''Illegal argument (protocol error): ''" by (simp add: line_ok_def newline_code nul_code)
  then show "args_ok (Some t) \<Longrightarrow> line_ok (''Illegal argument (protocol error): '' @ t)" by (metis line_ok_append args_ok_def)
qed simp

lemma good_option:
  assumes "args_ok a"
  shows "good fd msg d (drv_option e fd msg a d)"
proof (cases a)
  case None
  then show ?thesis by (simp add: drv_option_def good_def)
next
  case (Some t)
  have c: "error_ok (''Cannot set driver option, code: '' @ fmt_d 0 x)" for x
  proof (rule error_okI(2))
    have "line_ok ''Cannot set driver option, code: ''" by (simp add: line_ok_def newline_code nul_code)
    then show "line_ok (''Cannot set driver option, code: '' @ fmt_d 0 x)" by (metis line_ok_append line_ok_dec(1))
  qed simp
  have i: "error_ok (''Illegal argument (protocol error): '' @ t)" using illegal_ok assms Some by blast
  have s: "same_io d (snd (drvctl e x d1))" if "same_io d d1" for x d1
    by (rule same_io_trans [OF that same_io_drvctl])
  show ?thesis unfolding drv_option_def Some option.case
    by (cases "scan_word 32 t"; cases "scan_word 64 (snd (the (scan_word 32 t)))")
      (simp_all only: option.case prod.case Let_def case_prod_beta option.sel,
       (intro good_if good_error good_success c i s same_io_if same_io_fault same_io_refl)+)
qed

lemma line_ok_scan:
  assumes "line_ok s" "scan_word n s = Some (w, r)"
  shows "line_ok w"
proof -
  have "set w \<subseteq> set s" using assms(2)
    by (auto simp: scan_word_def Let_def split: if_splits dest!: in_set_takeD set_takeWhileD dest: set_dropWhileD)
  then show ?thesis using assms(1) by (auto simp: line_ok_def)
qed

lemma good_log:
  assumes "args_ok a"
  shows "good fd msg d (set_inputlog e fd msg a d)"
proof (cases a)
  case None
  have "same_io d (d\<lparr>dl_logfile := None\<rparr>)" by (simp add: same_io_def)
  then show ?thesis unfolding set_inputlog_def None option.case by (rule good_success)
next
  case (Some t)
  have o: "error_ok (''Cannot open input logfile: '' @ path @ '' (errno: '' @ fmt_d 0 x @ '')'')" if "line_ok path" for path x
  proof (rule error_okI(2))
    have "line_ok ''Cannot open input logfile: ''" "line_ok '' (errno: ''" "line_ok '')''"
      by (simp_all add: line_ok_def newline_code nul_code)
    then show "line_ok (''Cannot open input logfile: '' @ path @ '' (errno: '' @ fmt_d 0 x @ '')'')"
      using that by (metis line_ok_append line_ok_dec(1))
  qed simp
  have n: "same_io d (d1\<lparr>dl_logfile := x\<rparr>)" if "same_io d d1" for d1 x using that by (simp add: same_io_def)
  have l: "good fd msg d (use_logfile e fd msg path d1)" if "line_ok path" "same_io d d1" for path d1
    unfolding use_logfile_def by (cases "de_open_log e path")
      (simp_all only: option.case, (intro good_error good_success o n that)+)
  have i: "error_ok (''Illegal argument (protocol error): '' @ t)" using illegal_ok assms Some by blast
  show ?thesis
  proof (cases "scan_word 128 t")
    case None
    show ?thesis unfolding set_inputlog_def Some option.case None by (intro good_error i same_io_refl)
  next
    case (Some x)
    then have w: "line_ok (fst x)" using line_ok_scan [of t 128 "fst x" "snd x"] assms \<open>a = Some t\<close> by (simp add: args_ok_def)
    show ?thesis unfolding set_inputlog_def \<open>a = Some t\<close> option.case Some Let_def case_prod_beta
      by (intro good_if good_success n l w same_io_if same_io_fault same_io_refl)
  qed
qed

text \<open>\<open>SIMULATE\<close> sends the event to all clients before the reply.\<close>

definition replied_after :: "string \<Rightarrow> int \<Rightarrow> string \<Rightarrow> lircd \<Rightarrow> bool \<times> lircd \<Rightarrow> bool" where
  "replied_after pre fd msg d res \<longleftrightarrow> fst res \<and> (\<exists>ok data. dl_sent (snd res) fd = dl_sent d fd @ pre @ reply_text msg ok data
     \<and> (\<forall>ls. data = Some ls \<longrightarrow> list_all reply_line ls))"

lemma replied_after_nothing: "replied fd msg d res \<Longrightarrow> replied_after [] fd msg d res"
  by (simp add: replied_def replied_after_def)

lemma replied_simulate:
  assumes "open_client fd d" "distinct (dl_clis d)" "\<not> dl_fault (snd (simulate e fd msg a d))"
  shows "\<exists>pre. replied_after pre fd msg d (simulate e fd msg a d)
    \<and> (pre = [] \<or> (\<exists>t. a = Some t \<and> de_allow_simulate e \<and> valid_event t \<and> pre = t @ nl))"
proof -
  have f: "error_ok (''SIMULATE command is disabled'' @ nl)" "error_ok (''no arguments given'' @ nl)"
    "error_ok (''invalid event'' @ nl)"
    by (rule error_ok_fixed, simp add: line_ok_def newline_code nul_code, simp)+
  note E = replied_after_nothing [OF replied_error_ok [OF same_io_refl assms(1) f(1)], of msg]
    replied_after_nothing [OF replied_error_ok [OF same_io_refl assms(1) f(2)], of msg]
    replied_after_nothing [OF replied_error_ok [OF same_io_refl assms(1) f(3)], of msg]
  show ?thesis
  proof (cases "\<exists>t. a = Some t \<and> de_allow_simulate e \<and> valid_event t")
    case True
    then obtain t where t: "a = Some t" "de_allow_simulate e" "valid_event t" by blast
    note b = broadcast_open [OF assms(1,2), of e "t @ nl"]
    obtain ok data where "fst (send_success fd msg (broadcast_message e (t @ nl) d))"
      "dl_sent (snd (send_success fd msg (broadcast_message e (t @ nl) d))) fd
        = (dl_sent d fd @ (t @ nl)) @ reply_text msg ok data" "\<forall>ls. data = Some ls \<longrightarrow> list_all reply_line ls"
      using replied_success [OF same_io_refl b(1), of msg] unfolding replied_def b(2) by blast
    then have "replied_after (t @ nl) fd msg d (simulate e fd msg a d)"
      using t by (simp add: simulate_def replied_after_def) blast
    then show ?thesis using t by blast
  next
    case False
    then have "replied_after [] fd msg d (simulate e fd msg a d)"
      using E assms(3) unfolding simulate_def by (auto simp del: append.simps split: option.splits)
    then show ?thesis by blast
  qed
qed

section \<open>Sending\<close>

lemma same_io_set_remote: "same_io d (set_remote r rm d)" "same_io d (the_remote r f d)"
  by (simp_all add: same_io_def set_remote_def the_remote_def split: remote_ptr.split)

lemma same_io_clocks: "same_io d (snd (monotonic d))" "same_io d (snd (time_of_day d))"
  by (simp_all add: same_io_def monotonic_def time_of_day_def split: list.split)

lemma same_io_setitimer: "same_io d (setitimer n d)"
  by (simp add: same_io_def setitimer_def)

lemma same_io_transmit: "same_io d (snd (transmit e r p d))"
proof -
  have t: "same_io d1 (d1\<lparr>dl_tx := x\<rparr>)" for d1 x by (simp add: same_io_def)
  have c: "same_io d (snd (if b then time_of_day d else (z, d)))" for b z d by (simp add: same_io_clocks)
  show ?thesis unfolding transmit_def Let_def case_prod_beta snd_conv
    by (rule same_io_trans [OF same_io_trans [OF same_io_trans [OF c c] t] same_io_set_remote(1)])
qed

lemma same_io_schedule: "same_io d (schedule_repeat_timer t d)"
  unfolding schedule_repeat_timer_def Let_def case_prod_beta
  by (auto split: option.split intro: same_io_fault same_io_trans [OF same_io_clocks(1) same_io_setitimer])

lemma same_io_updates: "same_io d (d\<lparr>dl_repeat := x\<rparr>)" "same_io d (d\<lparr>dl_repeat_message := m, dl_repeat_fd := f\<rparr>)"
  "same_io d (d\<lparr>dl_repeat := x, dl_alrm := a\<rparr>)"
  by (simp_all add: same_io_def)

lemma good_rc: "args_ok a \<Longrightarrow> parse_rc e fd msg a want n d = Inl res \<Longrightarrow> good fd msg d res"
  by (auto simp: good_def intro: replied_rc)

lemma good_stop:
  assumes "args_ok a"
  shows "good fd msg d (send_stop e fd msg a d)"
proof -
  have f: "error_ok (''not repeating'' @ nl)" "error_ok (''specified remote does not match'' @ nl)"
    "error_ok (''specified code does not match'' @ nl)"
    by (rule error_ok_fixed, simp add: line_ok_def newline_code nul_code, simp)+
  have s: "good fd msg d (stop_repeating e fd msg r d)" for r
    unfolding stop_repeating_def Let_def
    by (intro good_if good_success same_io_set_remote
        same_io_trans [OF same_io_trans [OF same_io_setitimer same_io_set_remote(2)] same_io_updates(3)])
  show ?thesis
  proof (cases "parse_rc e fd msg a False 0 d")
    case (Inl res)
    then show ?thesis using good_rc [OF assms Inl] by (simp add: send_stop_def)
  next
    case (Inr x)
    obtain r c k where x: "x = (r, c, k)" by (cases x)
    show ?thesis unfolding send_stop_def Inr sum.case x prod.case
      by (cases "dl_repeat d") (simp_all only: option.case case_prod_beta, (intro good_if good_error f s same_io_refl)+)
  qed
qed

text \<open>The reply is put off to the end of the repetition.\<close>

definition deferred :: "int \<Rightarrow> string \<Rightarrow> lircd \<Rightarrow> bool \<times> lircd \<Rightarrow> bool" where
  "deferred fd msg d res \<longleftrightarrow> fst res \<and> same_io d (snd res) \<and> dl_repeat (snd res) \<noteq> None
     \<and> dl_repeat_fd (snd res) = Some fd \<and> dl_repeat_message (snd res) = Some msg"

definition good_or_deferred :: "int \<Rightarrow> string \<Rightarrow> lircd \<Rightarrow> bool \<times> lircd \<Rightarrow> bool" where
  "good_or_deferred fd msg d res \<longleftrightarrow> good fd msg d res \<or> deferred fd msg d res"

lemma setitimer_fields [simp]:
  "dl_g (setitimer n d) = dl_g d" "dl_old (setitimer n d) = dl_old d"
  "dl_last_old (setitimer n d) = dl_last_old d" "dl_repeat (setitimer n d) = dl_repeat d"
  "dl_repeat_fd (setitimer n d) = dl_repeat_fd d" "dl_repeat_message (setitimer n d) = dl_repeat_message d"
  "dl_alrm (setitimer n d) = dl_alrm d" "dl_clis (setitimer n d) = dl_clis d"
  "dl_types (setitimer n d) = dl_types d" "dl_fault (setitimer n d) = dl_fault d"
  "dl_tx (setitimer n d) = dl_tx d"
  by (simp_all add: setitimer_def)

lemma clock_fields [simp]:
  "dl_g (snd (monotonic d)) = dl_g d" "dl_old (snd (monotonic d)) = dl_old d"
  "dl_last_old (snd (monotonic d)) = dl_last_old d" "dl_repeat (snd (monotonic d)) = dl_repeat d"
  "dl_repeat_fd (snd (monotonic d)) = dl_repeat_fd d"
  "dl_repeat_message (snd (monotonic d)) = dl_repeat_message d" "dl_alrm (snd (monotonic d)) = dl_alrm d"
  "dl_clis (snd (monotonic d)) = dl_clis d" "dl_types (snd (monotonic d)) = dl_types d"
  "dl_fault (snd (monotonic d)) = dl_fault d" "dl_tx (snd (monotonic d)) = dl_tx d"
  "dl_g (snd (time_of_day d)) = dl_g d" "dl_old (snd (time_of_day d)) = dl_old d"
  "dl_last_old (snd (time_of_day d)) = dl_last_old d" "dl_repeat (snd (time_of_day d)) = dl_repeat d"
  "dl_repeat_fd (snd (time_of_day d)) = dl_repeat_fd d"
  "dl_repeat_message (snd (time_of_day d)) = dl_repeat_message d" "dl_alrm (snd (time_of_day d)) = dl_alrm d"
  "dl_clis (snd (time_of_day d)) = dl_clis d" "dl_types (snd (time_of_day d)) = dl_types d"
  "dl_fault (snd (time_of_day d)) = dl_fault d" "dl_tx (snd (time_of_day d)) = dl_tx d"
  "dl_timer (snd (monotonic d)) = dl_timer d" "dl_timer (snd (time_of_day d)) = dl_timer d"
  by (simp_all add: monotonic_def time_of_day_def split: list.split)

lemma schedule_fields [simp]:
  "dl_g (schedule_repeat_timer t d) = dl_g d" "dl_old (schedule_repeat_timer t d) = dl_old d"
  "dl_last_old (schedule_repeat_timer t d) = dl_last_old d"
  "dl_repeat (schedule_repeat_timer t d) = dl_repeat d"
  "dl_repeat_fd (schedule_repeat_timer t d) = dl_repeat_fd d"
  "dl_repeat_message (schedule_repeat_timer t d) = dl_repeat_message d"
  "dl_alrm (schedule_repeat_timer t d) = dl_alrm d" "dl_clis (schedule_repeat_timer t d) = dl_clis d"
  "dl_types (schedule_repeat_timer t d) = dl_types d" "dl_tx (schedule_repeat_timer t d) = dl_tx d"
  by (simp_all add: schedule_repeat_timer_def Let_def case_prod_beta split: option.split)

lemma begin_good:
  assumes "same_io d d1"
  shows "good_or_deferred fd msg d (begin_repeating once fd msg t r p d1)"
proof (cases once)
  case True
  have s: "same_io d (schedule_repeat_timer t (d1\<lparr>dl_repeat := Some (r, p), dl_repeat_message := Some msg, dl_repeat_fd := Some fd\<rparr>))"
    by (rule same_io_trans [OF _ same_io_schedule]) (use assms in \<open>simp add: same_io_def\<close>)
  then have "deferred fd msg d (begin_repeating once fd msg t r p d1)"
    using True by (simp add: begin_repeating_def deferred_def same_io_def)
  then show ?thesis by (simp add: good_or_deferred_def)
next
  case False
  define d2 where "d2 = d1\<lparr>dl_repeat := Some (r, p)\<rparr>"
  have s: "same_io d d2" unfolding d2_def by (rule same_io_trans [OF assms same_io_updates(1)])
  have "good fd msg d (begin_repeating once fd msg t r p d1)"
  proof (unfold good_def, intro impI)
    assume "open_client fd d \<and> \<not> dl_fault (snd (begin_repeating once fd msg t r p d1))"
    then have r: "replied fd msg d (send_success fd msg d2)" using replied_success [OF s] by blast
    have "same_io (snd (send_success fd msg d2)) (schedule_repeat_timer t (snd (send_success fd msg d2)))"
      by (rule same_io_schedule)
    then show "replied fd msg d (begin_repeating once fd msg t r p d1)"
      using r False unfolding begin_repeating_def Let_def d2_def [symmetric] by (simp add: replied_def same_io_def case_prod_beta)
  qed
  then show ?thesis by (simp add: good_or_deferred_def)
qed

lemma good_send_core:
  assumes "args_ok a"
  shows "good_or_deferred fd msg d (send_core e once fd msg a d)"
proof -
  have f: "error_ok (''hardware does not support sending'' @ nl)" "error_ok (''busy: repeating'' @ nl)"
    "error_ok (''already repeating'' @ nl)" "error_ok (''transmission failed'' @ nl)"
    by (rule error_ok_fixed, simp add: line_ok_def newline_code nul_code, simp)+
  have "good_or_deferred fd msg d (send_button e once fd msg r p k d)" for r p k
  proof -
    define d1 where "d1 = snd (monotonic (the_remote r (before_sending p) d))"
    define d2 where "d2 = snd (transmit e r p d1)"
    have s2: "same_io d d2" unfolding d2_def d1_def
      by (rule same_io_trans [OF same_io_trans [OF same_io_set_remote(2) same_io_clocks(1)] same_io_transmit])
    have s3: "same_io d (the_remote r g (snd (time_of_day d2)))" for g
      by (rule same_io_trans [OF same_io_trans [OF s2 same_io_clocks(2)] same_io_set_remote(2)])
    have g: "good_or_deferred fd msg d (send_error fd msg (''transmission failed'' @ nl) d2)"
      "good_or_deferred fd msg d (send_success fd msg (the_remote r g (snd (time_of_day d2))))" for g
      using good_error [OF f(4) s2] good_success [OF s3] by (simp_all add: good_or_deferred_def)
    show ?thesis unfolding send_button_def Let_def case_prod_beta d1_def [symmetric] d2_def [symmetric]
      using g begin_good [OF s3] by auto
  qed
  moreover have "good_or_deferred fd msg d (send_error fd msg (if once then ''busy: repeating'' @ nl else ''already repeating'' @ nl) d)"
    "good_or_deferred fd msg d (send_error fd msg (''hardware does not support sending'' @ nl) d)"
    "good_or_deferred fd msg d (False, d\<lparr>dl_fault := True\<rparr>)"
    using good_error [OF f(1) same_io_refl] good_error [OF f(2) same_io_refl] good_error [OF f(3) same_io_refl]
    by (simp_all add: good_or_deferred_def) (simp add: good_def)
  moreover have "good_or_deferred fd msg d res" if "parse_rc e fd msg a once 2 d = Inl res" for res
    using good_rc [OF assms that] by (simp add: good_or_deferred_def)
  ultimately show ?thesis unfolding send_core_def
    by (auto simp del: append.simps split: sum.split prod.split option.split remote_ref.split)
qed

section \<open>Lines\<close>

lemma good_version:
  assumes "reply_line (de_version e)"
  shows "good fd msg d (version e fd msg d)"
proof -
  have o: "fmt_d 0 1 = ''1''" by code_simp
  show ?thesis unfolding good_def version_def
    by (intro impI replied_writes [OF same_io_refl, where ok = True and data = "Some [de_version e]"])
      (use assms o in \<open>auto simp: reply_text_def\<close>)
qed

text \<open>A command is answered, at once or later; only an event may come before the reply.\<close>

definition answered :: "lircd_env \<Rightarrow> int \<Rightarrow> string \<Rightarrow> lircd \<Rightarrow> bool \<times> lircd \<Rightarrow> bool" where
  "answered e fd msg d res \<longleftrightarrow> deferred fd msg d res
     \<or> (\<exists>pre. replied_after pre fd msg d res \<and> (pre = [] \<or> (\<exists>t. de_allow_simulate e \<and> valid_event t \<and> pre = t @ nl)))"

lemma good_answered: "good fd msg d res \<Longrightarrow> open_client fd d \<Longrightarrow> \<not> dl_fault (snd res) \<Longrightarrow> answered e fd msg d res"
  by (auto simp: answered_def dest: goodD replied_after_nothing)

lemma answered_command:
  assumes "open_client fd d" "distinct (dl_clis d)" "all_names_ok d" "reply_line (de_version e)" "args_ok a"
    "i < length (directives e)" "\<not> dl_fault (snd (snd (directives e ! i) fd msg a d))"
  shows "answered e fd msg d (snd (directives e ! i) fd msg a d)"
proof -
  note G = good_answered [OF _ assms(1)]
  have s: "answered e fd msg d (send_core e once fd msg a d)" if "\<not> dl_fault (snd (send_core e once fd msg a d))" for once
    using good_send_core [OF assms(5), of fd msg d e once] G [OF _ that] unfolding good_or_deferred_def
    by (meson answered_def)
  have l: "answered e fd msg d (list_cmd e fd msg a d)" if "\<not> dl_fault (snd (list_cmd e fd msg a d))"
    using replied_after_nothing [OF replied_list [OF assms(1,5,3) that]] by (auto simp: answered_def)
  have m: "answered e fd msg d (simulate e fd msg a d)" if "\<not> dl_fault (snd (simulate e fd msg a d))"
    using replied_simulate [OF assms(1,2) that] by (auto simp: answered_def)
  have "\<forall>c \<in> set (map snd (directives e)). \<not> dl_fault (snd (c fd msg a d)) \<longrightarrow> answered e fd msg d (c fd msg a d)"
    using s l m G [OF good_stop [OF assms(5)]] G [OF good_log [OF assms(5)]] G [OF good_option [OF assms(5)]]
      G [OF good_version [OF assms(4)]] G [OF good_transmitters]
    by (simp add: directives_def send_once_def send_start_def)
  then show ?thesis using assms(6,7) by simp
qed

lemma line_ok_strtok: "line_ok s \<Longrightarrow> strtok_step p s = (t, r) \<Longrightarrow> line_ok r \<and> (\<forall>w. t = Some w \<longrightarrow> line_ok w)"
  by (auto simp: strtok_step_def Let_def line_ok_def split: if_splits
      dest!: set_takeWhileD in_set_dropD dest: set_dropWhileD)

lemma line_ok_strip: "line_ok s \<Longrightarrow> line_ok (strip_cr s)"
  by (auto simp: strip_cr_def line_ok_def dest: in_set_butlastD)

lemma answered_line:
  assumes "open_client fd d" "distinct (dl_clis d)" "all_names_ok d" "reply_line (de_version e)" "line_ok line"
    "\<not> dl_fault (snd (handle_line e fd line d))"
  shows "answered e fd (line @ nl) d (handle_line e fd line d)"
proof -
  obtain tok rest where t: "strtok_step is_blank (strip_cr line) = (tok, rest)"
    by (cases "strtok_step is_blank (strip_cr line)")
  have o: "line_ok rest" "tok = Some w \<Longrightarrow> line_ok w" for w
    using line_ok_strtok [OF line_ok_strip [OF assms(5)] t] by blast+
  note G = good_answered [OF good_error [OF _ same_io_refl] assms(1)]
  show ?thesis
  proof (cases tok)
    case None
    have "error_ok (''bad send packet'' @ nl)" by (rule error_ok_fixed) (simp_all add: line_ok_def newline_code nul_code)
    from G [OF this] show ?thesis using assms(6) t None by (simp add: handle_line_def del: append.simps)
  next
    case (Some w)
    show ?thesis
    proof (cases "find_index (\<lambda>(n, _). strcaseeq w n) (directives e)")
      case None
      have "error_ok (''unknown directive: '' @ quoted w @ nl)"
        by (rule error_ok_parts(1)) (use o(2) [OF Some] in \<open>simp_all add: line_ok_def quoted_def newline_code nul_code\<close>)
      from G [OF this] show ?thesis using assms(6) t Some None by (simp add: handle_line_def del: append.simps)
    next
      case i: (Some i)
      have "args_ok (if rest = [] then None else Some rest)" using o(1) by (simp add: args_ok_def)
      from answered_command [OF assms(1-4) this] show ?thesis
        using assms(6) t Some i find_index_Some [OF i] by (simp add: handle_line_def)
    qed
  qed
qed

end
