(* ===== verification/Daemon_Client.thy ===== *)
theory Daemon_Client
  imports Daemon_Replies
begin

text \<open>
  The replies of \<open>lircd\<close> as the client library reads them.
\<close>

text \<open>The lines of a reply to the command \<open>line\<close>.\<close>

definition reply_lines :: "string \<Rightarrow> bool \<Rightarrow> string list option \<Rightarrow> string list" where
  "reply_lines line ok data = [''BEGIN'', line, if ok then ''SUCCESS'' else ''ERROR'']
     @ (case data of None \<Rightarrow> [] | Some ls \<Rightarrow> [''DATA'', fmt_d 0 (int (length ls))] @ ls) @ [''END'']"

lemma unlines_append: "unlines (a @ b) = unlines a @ unlines b"
  by (simp add: unlines_def)

lemma reply_text_lines: "reply_text (line @ nl) ok data = unlines (reply_lines line ok data)"
  by (simp add: reply_text_def reply_lines_def unlines_append p_begin_def p_success_def p_error_def p_data_def p_end_def
      split: option.split)

lemma fmt_count: "fmt_d 0 (int n) = to_dec n"
  by (simp add: fmt_d_def pad_left_def)

lemma reply_lines_ok:
  assumes "reply_line line" "\<And>ls. data = Some ls \<Longrightarrow> list_all reply_line ls"
  shows "list_all reply_line (reply_lines line ok data)"
proof -
  have "reply_line ''BEGIN''" "reply_line ''SUCCESS''" "reply_line ''ERROR''" "reply_line ''DATA''" "reply_line ''END''"
    by (simp_all add: reply_line_iff line_ok_def newline_code nul_code)
  moreover have "reply_line (fmt_d 0 (int n))" for n
    using line_ok_dec(1) [of "int n"] by (simp add: reply_line_iff fmt_count)
  ultimately show ?thesis using assms by (auto simp: reply_lines_def split: option.split)
qed

lemma strtoul_count: "n < 2 ^ 32 \<Longrightarrow> strtoul (fmt_d 0 (int n)) = (int n, [], False)"
proof -
  assume n: "n < 2 ^ 32"
  have "\<not> n \<ge> 2 ^ 64" "u64 (int n) = int n" using n by (simp_all add: u64_def take_bit_int_eq_self)
  then show ?thesis by (simp add: strtoul_def read_integer_dec fmt_count)
qed

lemma different_words: "\<not> strcaseeq ''SUCCESS'' ''END''" "\<not> strcaseeq ''ERROR'' ''SUCCESS''" "\<not> strcaseeq ''ERROR'' ''END''"
  "\<not> strcaseeq ''DATA'' ''END''"
  by code_simp+

text \<open>The lines of the data.\<close>

lemma follow_data:
  "cs_state c = P_DATA_N \<Longrightarrow> ls \<noteq> [] \<Longrightarrow> cs_data_n c = cs_n c + length ls \<Longrightarrow>
    fst (follow c (ls @ [''END''])) = cs_status c
    \<and> (length ls = 1 \<longrightarrow> cs_ctx (snd (follow c (ls @ [''END'']))) = store_reply (cs_n c) (hd ls) (cs_ctx c))"
proof (induction ls arbitrary: c)
  case (Cons l ls)
  show ?case
  proof (cases ls)
    case Nil
    then show ?thesis using Cons.prems by (simp add: command_step_def)
  next
    case (Cons m ms)
    then show ?thesis using Cons.prems Cons.IH [of "c\<lparr>cs_ctx := store_reply (cs_n c) l (cs_ctx c), cs_n := cs_n c + 1\<rparr>"]
      by (simp add: command_step_def)
  qed
qed simp

lemma echo: "newline \<notin> set line \<Longrightarrow> echoes line (line @ nl)"
proof -
  assume n: "newline \<notin> set line"
  then have a: "takeWhile (\<lambda>c. c \<noteq> newline) line = line" by (auto simp: takeWhile_eq_all_conv)
  have b: "takeWhile (\<lambda>c. c \<noteq> newline) (line @ nl) = line" using n by (auto simp: takeWhile_append)
  show ?thesis unfolding echoes_def a b by simp
qed

lemma follow_reply:
  assumes "cc_packet ctx = line @ nl" "newline \<notin> set line" "\<And>ls. data = Some ls \<Longrightarrow> length ls < 2 ^ 32"
  shows "fst (follow (command_start ctx) (reply_lines line ok data)) = (if ok then CSuccess else CError)
    \<and> (\<forall>l. data = Some [l] \<longrightarrow> cs_ctx (snd (follow (command_start ctx) (reply_lines line ok data))) = store_reply 0 l ctx)
    \<and> (data = None \<longrightarrow> cs_ctx (snd (follow (command_start ctx) (reply_lines line ok data))) = ctx)"
proof -
  define c where "c = (command_start ctx)\<lparr>cs_state := P_DATA, cs_status := (if ok then CSuccess else CError)\<rparr>"
  have e: "echoes line (cc_packet ctx)" using echo assms(1,2) by simp
  have s: "follow (command_start ctx) (''BEGIN'' # line # (if ok then ''SUCCESS'' else ''ERROR'') # r) = follow c r" for r
    using e different_words by (simp add: command_step_def command_start_def c_def)
  show ?thesis
  proof (cases data)
    case None
    have "reply_lines line ok data = ''BEGIN'' # line # (if ok then ''SUCCESS'' else ''ERROR'') # [''END'']"
      by (simp add: reply_lines_def None)
    then show ?thesis unfolding None s by (simp only: s) (simp add: command_step_def c_def command_start_def)
  next
    case (Some ls)
    define c2 where "c2 = c\<lparr>cs_data_n := length ls, cs_state := (if length ls = 0 then P_END else P_DATA_N)\<rparr>"
    have "u32 (int (length ls)) = int (length ls)" using assms(3) [OF Some] by (simp add: u32_def take_bit_int_eq_self)
    then have d: "follow c (''DATA'' # fmt_d 0 (int (length ls)) # r) = follow c2 r" for r
      using strtoul_count [OF assms(3) [OF Some]] different_words
      by (simp add: command_step_def c_def c2_def Let_def)
    have "reply_lines line ok data = ''BEGIN'' # line # (if ok then ''SUCCESS'' else ''ERROR'') # ''DATA''
        # fmt_d 0 (int (length ls)) # ls @ [''END'']"
      by (simp add: reply_lines_def Some)
    then have f: "follow (command_start ctx) (reply_lines line ok data) = follow c2 (ls @ [''END''])" by (simp only: s d)
    show ?thesis
    proof (cases ls)
      case Nil
      then show ?thesis unfolding f by (simp add: Some command_step_def c2_def c_def)
    next
      case (Cons l ls')
      have "cs_state c2 = P_DATA_N" "cs_data_n c2 = cs_n c2 + length ls" "cs_ctx c2 = ctx" "cs_n c2 = 0"
        "cs_status c2 = (if ok then CSuccess else CError)"
        by (simp_all add: c2_def c_def command_start_def Cons)
      then show ?thesis unfolding f using follow_data [of c2 ls] Cons Some by auto
    qed
  qed
qed

text \<open>What a client gets that reads a reply of \<open>lircd\<close>.\<close>

lemma client_reads_reply:
  assumes "lirc_command_init (line @ nl) = Some ctx" "send_packet (line @ nl) ws = Some sent" "reply_line line"
    "\<And>ls. data = Some ls \<Longrightarrow> list_all reply_line ls \<and> length ls < 2 ^ 32"
    "list_all piece_ok ev" "pending ev = reply_text (line @ nl) ok data"
  shows "\<exists>ctx' ev'. lirc_command_run ctx ws ev = Some (Inl (if ok then CSuccess else CError, ctx', ev'))
    \<and> (\<forall>l. data = Some [l] \<longrightarrow> length l < CLIENT_PACKET_SIZE \<longrightarrow> cc_reply ctx' = l) \<and> (data = None \<longrightarrow> cc_reply ctx' = [])"
proof -
  have p: "cc_packet ctx = line @ nl" "cc_reply_to_stdout ctx = False" "cc_reply ctx = []" using assms(1)
    by (auto simp: lirc_command_init_def split: if_splits)
  have n: "newline \<notin> set line" using assms(3) by (simp add: reply_line_def)
  have l: "list_all reply_line (reply_lines line ok data)" using reply_lines_ok [OF assms(3)] assms(4) by blast
  note f = follow_reply [OF p(1) n, of data ok]
  have "cc_reply (store_reply 0 l ctx) = l" if "length l < CLIENT_PACKET_SIZE" for l
    using that p(2) by (simp add: store_reply_def copy_reply_def)
  then show ?thesis using run_follows_lines [OF assms(1,2) l assms(5)] f p(3) assms(4,6) by (auto simp: reply_text_lines)
qed

end
