(* ===== verification/Daemon_Invariant.thy ===== *)
theory Daemon_Invariant
  imports Daemon_Wait
begin

text \<open>
  The invariant of the daemon's state: the alarm only while something is repeated, no pointer into a configuration
  that has been freed, an answer for every client that waits, and no more clients than the arrays hold.
\<close>

section \<open>Statement\<close>

definition ptr_ok :: "lircd \<Rightarrow> remote_ptr \<Rightarrow> bool" where
  "ptr_ok d p = (case p of
     Here i \<Rightarrow> i < length (remotes (dl_g d))
   | Gone i \<Rightarrow> (case dl_old d of Some rs \<Rightarrow> i < length rs | None \<Rightarrow> False))"

definition lircd_ok :: "lircd \<Rightarrow> bool" where
  "lircd_ok d \<longleftrightarrow> (case dl_repeat d of None \<Rightarrow> dl_timer d = None \<and> \<not> dl_alrm d | Some (r, p) \<Rightarrow> ptr_ok d r)
     \<and> (dl_alrm d \<longrightarrow> dl_timer d = None)
     \<and> (dl_repeat_fd d \<noteq> None \<longrightarrow> dl_repeat_message d \<noteq> None)
     \<and> length (dl_types d) = MAX_CLIENTS \<and> length (dl_clis d) + length (dl_stale d) = MAX_CLIENTS
     \<and> (\<forall>i. dl_last_old d = OldAt i \<longrightarrow> ptr_ok d (Gone i))
     \<and> (\<forall>i. last_remote (dl_g d) = Some i \<longrightarrow> ptr_ok d (Here i))"

text \<open>What the invariant depends on.\<close>

definition ikey where
  "ikey d = (dl_repeat d, dl_timer d, dl_alrm d, dl_repeat_fd d, dl_repeat_message d, length (dl_types d),
     length (dl_clis d) + length (dl_stale d), dl_last_old d, last_remote (dl_g d), length (remotes (dl_g d)),
     map_option length (dl_old d))"

lemma ptr_ok_key: "ptr_ok d p = (case p of Here i \<Rightarrow> i < length (remotes (dl_g d))
    | Gone i \<Rightarrow> (case map_option length (dl_old d) of Some n \<Rightarrow> i < n | None \<Rightarrow> False))"
  by (simp add: ptr_ok_def split: remote_ptr.split option.split)

lemma ikey_ok: "ikey d' = ikey d \<Longrightarrow> lircd_ok d' = lircd_ok d"
  unfolding lircd_ok_def ptr_ok_key ikey_def prod.inject by (elim conjE, simp only:)

section \<open>What leaves it alone\<close>

lemma ikey_updates [simp]:
  "ikey (d\<lparr>dl_fault := b\<rparr>) = ikey d" "ikey (d\<lparr>dl_tx := t\<rparr>) = ikey d" "ikey (d\<lparr>dl_mono := m\<rparr>) = ikey d"
  "ikey (d\<lparr>dl_tod := m'\<rparr>) = ikey d" "ikey (d\<lparr>dl_logfile := l\<rparr>) = ikey d" "ikey (d\<lparr>dl_drv := c\<rparr>) = ikey d"
  "ikey (d\<lparr>dl_hw := b\<rparr>) = ikey d" "ikey (d\<lparr>dl_in := i\<rparr>) = ikey d" "ikey (d\<lparr>dl_peers := ps\<rparr>) = ikey d"
  "ikey (d\<lparr>dl_exit := b\<rparr>) = ikey d" "ikey (d\<lparr>dl_configfile := l\<rparr>) = ikey d" "ikey (d\<lparr>dl_connects := cs\<rparr>) = ikey d"
  "ikey (d\<lparr>dl_plugs := pl, dl_hw := b\<rparr>) = ikey d" "ikey (d\<lparr>dl_min_freq := f, dl_max_freq := f\<rparr>) = ikey d"
  "ikey (d\<lparr>dl_out := w, dl_sent := s\<rparr>) = ikey d" "ikey (d\<lparr>dl_plugs := pl\<rparr>) = ikey d"
  by (simp_all add: ikey_def)

lemma ikey_write_all [simp]: "ikey (snd (write_all fd ss d)) = ikey d"
proof -
  obtain out sent where "snd (write_all fd ss d) = d\<lparr>dl_out := out, dl_sent := sent\<rparr>" using write_all_frame by blast
  then show ?thesis by simp
qed

lemma ikey_replies [simp]:
  "ikey (snd (send_success fd msg d)) = ikey d" "ikey (snd (send_error fd msg t d)) = ikey d"
  "ikey (snd (send_remote_list fd msg d)) = ikey d" "ikey (snd (send_remote fd msg rm d)) = ikey d"
  "ikey (snd (send_name fd msg nc d)) = ikey d" "ikey (snd (version e fd msg d)) = ikey d"
  by (simp_all add: send_success_def send_error_def send_remote_list_def send_remote_def send_name_def version_def Let_def)

lemma ikey_deinit [simp]: "ikey (deinit_hw e d) = ikey d"
  by (simp add: deinit_hw_def)

lemma ikey_remove [simp]: "ikey (remove_client e fd d) = ikey d"
proof (cases "find_index (\<lambda>x. x = fd) (dl_clis d)")
  case (Some i)
  then have "i < length (dl_clis d)" using find_index_Some by blast
  then have "ikey (d\<lparr>dl_clis := take i (dl_clis d) @ drop (i + 1) (dl_clis d), dl_stale := last (dl_clis d) # dl_stale d\<rparr>) = ikey d"
    by (simp add: ikey_def)
  then show ?thesis by (simp add: remove_client_def Some)
qed (simp add: remove_client_def)

lemma ikey_tell [simp]: "ikey (tell_clients e loc ss i d) = ikey d"
proof (induction i d rule: tell_induct [where e = e and loc = loc and ss = ss])
  case (ok i d d1)
  then show ?case using ikey_write_all [of "dl_clis d ! i" ss d] by (simp add: tell_ok)
next
  case (gone i d d1)
  then show ?case using ikey_write_all [of "dl_clis d ! i" ss d] by (simp add: tell_drop)
qed (simp_all add: tell_end tell_skip)

lemma ikey_drvctl [simp]: "ikey (snd (drvctl e c d)) = ikey d"
  by (simp add: drvctl_def split: option.split)

lemma ikey_clocks [simp]: "ikey (snd (monotonic d)) = ikey d" "ikey (snd (time_of_day d)) = ikey d"
  by (simp_all add: monotonic_def time_of_day_def split: list.split)

lemma ikey_set_remote [simp]: "ikey (set_remote r rm d) = ikey d" "ikey (the_remote r f d) = ikey d"
  by (simp_all add: ikey_def set_remote_def the_remote_def option.map_comp comp_def split: remote_ptr.split)

lemma ikey_transmit [simp]: "ikey (snd (transmit e r p d)) = ikey d"
  unfolding transmit_def Let_def case_prod_beta by simp

lemma ikey_frequency [simp]: "ikey (snd (setup_frequency e d)) = ikey d"
  unfolding setup_frequency_def Let_def case_prod_beta by simp

lemma ikey_timeout [simp]: "ikey (snd (setup_timeout e d)) = ikey d"
  unfolding setup_timeout_def Let_def case_prod_beta by (auto split: option.split)

lemma ikey_hardware [simp]: "ikey (snd (setup_hardware e d)) = ikey d" "ikey (snd (init_hw d)) = ikey d"
  "ikey (replug e d) = ikey d"
proof -
  show h: "ikey (snd (setup_hardware e d)) = ikey d" for d unfolding setup_hardware_def Let_def case_prod_beta by simp
  show i: "ikey (snd (init_hw d)) = ikey d" by (simp add: init_hw_def split: list.split)
  show "ikey (replug e d) = ikey d" by (simp add: replug_def h i)
qed

lemma ikey_rc: "parse_rc e fd msg a w n d = Inl res \<Longrightarrow> ikey (snd res) = ikey d"
  by (auto simp: parse_rc_def split: sum.splits if_splits)

lemma ikey_read: "read_timeout fd n w d = Some (x, d') \<Longrightarrow> ikey d' = ikey d"
  by (auto simp: read_timeout_def split: list.splits read_event.splits if_splits)

section \<open>Commands\<close>

lemma ikey_plain_commands:
  "ikey (snd (list_cmd e fd msg a d)) = ikey d" "ikey (snd (set_transmitters e fd msg a d)) = ikey d"
  "ikey (snd (simulate e fd msg a d)) = ikey d" "ikey (snd (drv_option e fd msg a d)) = ikey d"
  "ikey (snd (set_inputlog e fd msg a d)) = ikey d"
proof -
  show "ikey (snd (list_cmd e fd msg a d)) = ikey d"
    by (auto simp: list_cmd_def split: sum.split option.split dest: ikey_rc)
  show "ikey (snd (set_transmitters e fd msg a d)) = ikey d"
    by (auto simp: set_transmitters_def Let_def case_prod_beta split: sum.split)
  show "ikey (snd (simulate e fd msg a d)) = ikey d"
    by (auto simp: simulate_def broadcast_message_def split: option.split)
  show "ikey (snd (drv_option e fd msg a d)) = ikey d"
    by (auto simp: drv_option_def Let_def case_prod_beta split: option.split)
  have "ikey (snd (use_logfile e fd msg p d1)) = ikey d1" for p d1
    by (simp add: use_logfile_def split: option.split)
  then show "ikey (snd (set_inputlog e fd msg a d)) = ikey d"
    by (auto simp: set_inputlog_def Let_def case_prod_beta split: option.split)
qed

section \<open>Sending\<close>

lemma okI: "ikey d' = ikey d \<Longrightarrow> lircd_ok d \<Longrightarrow> lircd_ok d'"
  using ikey_ok by blast

lemma ikey_ptr: "ikey d' = ikey d \<Longrightarrow> ptr_ok d' p = ptr_ok d p"
  unfolding ptr_ok_key ikey_def prod.inject by (elim conjE, simp only:)

lemma ikey_repeat: "ikey d' = ikey d \<Longrightarrow> dl_repeat d' = dl_repeat d"
  by (simp add: ikey_def)

lemma ptr_ok_updates [simp]:
  "ptr_ok (d\<lparr>dl_timer := t\<rparr>) p = ptr_ok d p" "ptr_ok (d\<lparr>dl_timer := t, dl_alrm := b\<rparr>) p = ptr_ok d p"
  "ptr_ok (d\<lparr>dl_repeat := x\<rparr>) p = ptr_ok d p"
  "ptr_ok (d\<lparr>dl_alrm := b\<rparr>) p = ptr_ok d p" "ptr_ok (d\<lparr>dl_repeat := x, dl_alrm := b\<rparr>) p = ptr_ok d p"
  "ptr_ok (d\<lparr>dl_repeat_message := m, dl_repeat_fd := f\<rparr>) p = ptr_ok d p"
  "ptr_ok (d\<lparr>dl_repeat_fd := f, dl_repeat_message := m\<rparr>) p = ptr_ok d p"
  by (simp_all add: ptr_ok_def split: remote_ptr.split)

lemma ok_timer:
  "lircd_ok d \<Longrightarrow> dl_repeat d \<noteq> None \<Longrightarrow> lircd_ok (d\<lparr>dl_timer := x, dl_alrm := False\<rparr>)"
  "lircd_ok d \<Longrightarrow> dl_repeat d \<noteq> None \<Longrightarrow> lircd_ok (d\<lparr>dl_timer := None\<rparr>)"
  by (auto simp: lircd_ok_def split: option.splits)

lemma ok_setitimer: "lircd_ok d \<Longrightarrow> dl_repeat d \<noteq> None \<Longrightarrow> lircd_ok (setitimer 0 d)"
  using ok_timer(2) by (simp add: setitimer_def)

lemma ok_schedule:
  assumes "lircd_ok d" "dl_repeat d \<noteq> None"
  shows "lircd_ok ((schedule_repeat_timer t d)\<lparr>dl_alrm := False\<rparr>)" "\<not> dl_alrm d \<Longrightarrow> lircd_ok (schedule_repeat_timer t d)"
proof -
  define m where "m = snd (monotonic d)"
  have m: "ikey m = ikey d" by (simp add: m_def)
  have "\<exists>x. setitimer n m = m\<lparr>dl_timer := x\<rparr>" for n
    unfolding setitimer_def by (cases "n < 0 \<or> n \<ge> 1000000") (auto intro: exI [of _ "dl_timer m"])
  then have "\<exists>x. schedule_repeat_timer t d = m\<lparr>dl_timer := x\<rparr>"
    using assms(2) unfolding schedule_repeat_timer_def Let_def case_prod_beta m_def by auto
  then obtain x where "schedule_repeat_timer t d = m\<lparr>dl_timer := x\<rparr>" by blast
  then have x: "ikey (schedule_repeat_timer t d) = ikey (d\<lparr>dl_timer := x\<rparr>)" using m by (simp add: ikey_def)
  then have "ikey ((schedule_repeat_timer t d)\<lparr>dl_alrm := False\<rparr>) = ikey (d\<lparr>dl_timer := x, dl_alrm := False\<rparr>)"
    by (simp add: ikey_def)
  then show r: "lircd_ok ((schedule_repeat_timer t d)\<lparr>dl_alrm := False\<rparr>)" by (rule okI) (rule ok_timer(1) [OF assms])
  show "lircd_ok (schedule_repeat_timer t d)" if "\<not> dl_alrm d"
    by (rule okI [OF _ r]) (use x that in \<open>simp add: ikey_def\<close>)
qed

lemma ok_repeat: "lircd_ok d \<Longrightarrow> ptr_ok d r \<Longrightarrow> lircd_ok (d\<lparr>dl_repeat := Some (r, p)\<rparr>)"
  by (auto simp: lircd_ok_def split: option.splits)

lemma ok_no_repeat: "lircd_ok d \<Longrightarrow> dl_timer d = None \<Longrightarrow> lircd_ok (d\<lparr>dl_repeat := None, dl_alrm := False\<rparr>)"
  "lircd_ok d \<Longrightarrow> dl_timer d = None \<Longrightarrow> \<not> dl_alrm d \<Longrightarrow> lircd_ok (d\<lparr>dl_repeat := None\<rparr>)"
  by (auto simp: lircd_ok_def split: option.splits)

lemma ok_waiting: "lircd_ok d \<Longrightarrow> lircd_ok (d\<lparr>dl_repeat_message := Some m, dl_repeat_fd := Some fd\<rparr>)"
  "lircd_ok d \<Longrightarrow> lircd_ok (d\<lparr>dl_repeat_fd := None, dl_repeat_message := None\<rparr>)"
  by (auto simp: lircd_ok_def split: option.splits)

lemma ok_begin:
  assumes "lircd_ok d" "ptr_ok d r" "dl_repeat d = None"
  shows "lircd_ok (snd (begin_repeating once fd msg t r p d))"
proof -
  define d1 where "d1 = d\<lparr>dl_repeat := Some (r, p)\<rparr>"
  have o1: "lircd_ok d1" "dl_repeat d1 \<noteq> None" unfolding d1_def using ok_repeat [OF assms(1,2)] by simp_all
  have a: "dl_timer d1 = None" "\<not> dl_alrm d1" using assms(1,3) by (simp_all add: d1_def lircd_ok_def)
  have k: "ikey (snd (send_success fd msg d1)) = ikey d1" by simp
  have o2: "lircd_ok (snd (send_success fd msg d1))" "dl_repeat (snd (send_success fd msg d1)) \<noteq> None"
    using okI [OF k o1(1)] ikey_repeat [OF k] o1(2) by simp_all
  have t: "dl_timer (snd (send_success fd msg d1)) = None" "\<not> dl_alrm (snd (send_success fd msg d1))"
    using a k by (simp_all add: ikey_def)
  show ?thesis unfolding begin_repeating_def Let_def case_prod_beta d1_def [symmetric]
    using ok_schedule(2) [OF ok_waiting(1) [OF o1(1)]] o1(2) a(2) ok_schedule(2) [OF o2 t(2)] ok_no_repeat(2) [OF o2(1) t] by auto
qed

lemma ok_send_button:
  assumes "lircd_ok d" "ptr_ok d r" "dl_repeat d = None"
  shows "lircd_ok (snd (send_button e once fd msg r p k d))"
proof -
  define d1 where "d1 = snd (monotonic (the_remote r (before_sending p) d))"
  define d2 where "d2 = snd (transmit e r p d1)"
  have k: "ikey d2 = ikey d" "ikey (the_remote r f (snd (time_of_day d2))) = ikey d" for f by (simp_all add: d2_def d1_def)
  have b: "lircd_ok (snd (begin_repeating once fd msg t r p (the_remote r f (snd (time_of_day d2)))))" for f t
    using ok_begin [OF okI [OF k(2) assms(1)]] ikey_ptr [OF k(2)] ikey_repeat [OF k(2)] assms(2,3) by metis
  have "lircd_ok (snd (send_success fd msg (the_remote r f (snd (time_of_day d2)))))" for f
    by (rule okI [OF _ assms(1)]) (simp only: ikey_replies k)
  moreover have "lircd_ok (snd (send_error fd msg t d2))" for t
    by (rule okI [OF _ assms(1)]) (simp only: ikey_replies k)
  ultimately show ?thesis using b
    unfolding send_button_def Let_def case_prod_beta d1_def [symmetric] d2_def [symmetric] by auto
qed

lemma ok_send_core:
  assumes "lircd_ok d"
  shows "lircd_ok (snd (send_core e once fd msg a d))"
proof -
  have r: "lircd_ok (snd (send_error fd msg t d))" for t by (rule okI [OF _ assms]) simp
  have f: "lircd_ok (d\<lparr>dl_fault := True\<rparr>)" by (rule okI [OF _ assms]) simp
  show ?thesis
  proof (cases "parse_rc e fd msg a once 2 d")
    case (Inl res)
    then have "lircd_ok (snd res)" using okI [OF ikey_rc assms] by blast
    then show ?thesis using Inl r by (simp add: send_core_def)
  next
    case (Inr x)
    obtain q c k where x: "x = (q, c, k)" by (cases x)
    have "ptr_ok d (Here i)" if "q = Some (RIndex i)" for i
      using Inr x that by (auto simp: parse_rc_def scan_rc_def ptr_ok_def get_ir_remote_def dest!: find_index_Some
          split: sum.splits list.splits option.splits if_splits prod.splits)
    then show ?thesis unfolding send_core_def Inr sum.case x prod.case
      using r f ok_send_button [OF assms] by (cases "dl_repeat d") (auto split: option.split remote_ref.split)
  qed
qed

lemma ok_stop:
  assumes "lircd_ok d"
  shows "lircd_ok (snd (send_stop e fd msg a d))"
proof -
  have r: "lircd_ok (snd (send_error fd msg t d))" for t by (rule okI [OF _ assms]) simp
  have s: "lircd_ok (snd (stop_repeating e fd msg q d))" if "dl_repeat d \<noteq> None" for q
  proof -
    have z: "lircd_ok (setitimer 0 d)" by (rule ok_setitimer [OF assms that])
    have "lircd_ok (the_remote q f (setitimer 0 d))" for f by (rule okI [OF _ z]) simp
    moreover have "dl_timer (the_remote q f (setitimer 0 d)) = None" for f
      by (simp add: the_remote_def set_remote_def setitimer_def split: remote_ptr.split)
    ultimately have n: "lircd_ok ((the_remote q f (setitimer 0 d))\<lparr>dl_repeat := None, dl_alrm := False\<rparr>)" for f
      by (rule ok_no_repeat(1))
    have "lircd_ok (snd (send_success fd msg ((the_remote q f (setitimer 0 d))\<lparr>dl_repeat := None, dl_alrm := False\<rparr>)))" for f
      by (rule okI [OF _ n]) simp
    moreover have "lircd_ok (snd (send_success fd msg (the_remote q f d)))" for f by (rule okI [OF _ assms]) simp
    ultimately show ?thesis unfolding stop_repeating_def Let_def by simp
  qed
  show ?thesis
  proof (cases "parse_rc e fd msg a False 0 d")
    case (Inl res)
    then have "lircd_ok (snd res)" using okI [OF ikey_rc assms] by blast
    then show ?thesis using Inl by (simp add: send_stop_def)
  next
    case (Inr x)
    then show ?thesis using r s by (cases x) (auto simp: send_stop_def split: option.split prod.split)
  qed
qed

lemma ok_line:
  assumes "lircd_ok d"
  shows "lircd_ok (snd (handle_line e fd line d))"
proof -
  have p: "lircd_ok (snd (list_cmd e fd msg a d))" "lircd_ok (snd (set_transmitters e fd msg a d))"
    "lircd_ok (snd (simulate e fd msg a d))" "lircd_ok (snd (drv_option e fd msg a d))"
    "lircd_ok (snd (set_inputlog e fd msg a d))" "lircd_ok (snd (version e fd msg d))"
    "lircd_ok (snd (send_error fd msg t d))" for msg a t
    by (rule okI [OF _ assms], simp add: ikey_plain_commands)+
  have "\<forall>c \<in> set (map snd (directives e)). lircd_ok (snd (c fd msg a d))" for msg a
    using p ok_send_core [OF assms] ok_stop [OF assms] by (simp add: directives_def send_once_def send_start_def)
  then show ?thesis unfolding handle_line_def Let_def case_prod_beta
    using p(7) by (auto split: option.split dest!: find_index_Some)
qed

section \<open>The alarm\<close>

lemma ikey_answer [simp]: "ikey (answer_waiting send_success d) = ikey d"
  "ikey (answer_waiting (\<lambda>fd msg. send_error fd msg t) d) = ikey d"
  by (simp_all add: answer_waiting_def split: option.split)

lemma ok_forget: "lircd_ok d \<Longrightarrow> lircd_ok (forget_waiting d)"
  unfolding forget_waiting_def by (rule ok_waiting(2))

text \<open>The end of a repetition, with the flag that \<open>mywaitfordata\<close> clears afterwards.\<close>

lemma ok_end:
  assumes "lircd_ok d" "dl_timer d = None" "ikey x = ikey (d\<lparr>dl_repeat := None\<rparr>)"
  shows "lircd_ok ((deinit_hw e (forget_waiting x))\<lparr>dl_alrm := False\<rparr>)" "lircd_ok ((deinit_hw e x)\<lparr>dl_alrm := False\<rparr>)"
proof -
  have n: "lircd_ok (d\<lparr>dl_repeat := None, dl_alrm := False\<rparr>)" by (rule ok_no_repeat(1) [OF assms(1,2)])
  have "ikey ((deinit_hw e (forget_waiting x))\<lparr>dl_alrm := False\<rparr>) = ikey (forget_waiting (d\<lparr>dl_repeat := None, dl_alrm := False\<rparr>))"
    using assms(3) by (simp add: ikey_def deinit_hw_def forget_waiting_def)
  then show "lircd_ok ((deinit_hw e (forget_waiting x))\<lparr>dl_alrm := False\<rparr>)" by (rule okI) (rule ok_forget [OF n])
  have "ikey ((deinit_hw e x)\<lparr>dl_alrm := False\<rparr>) = ikey (d\<lparr>dl_repeat := None, dl_alrm := False\<rparr>)"
    using assms(3) by (simp add: ikey_def deinit_hw_def)
  then show "lircd_ok ((deinit_hw e x)\<lparr>dl_alrm := False\<rparr>)" by (rule okI) (rule n)
qed

lemma ok_alarm:
  assumes "lircd_ok d" "dl_timer d = None"
  shows "lircd_ok ((dosigalrm e d)\<lparr>dl_alrm := False\<rparr>)"
proof (cases "dl_repeat d")
  case None
  have "lircd_ok (d\<lparr>dl_repeat := None, dl_alrm := False\<rparr>)" by (rule ok_no_repeat(1) [OF assms])
  then show ?thesis using None okI [of "(dosigalrm e d)\<lparr>dl_alrm := False\<rparr>" "d\<lparr>dl_repeat := None, dl_alrm := False\<rparr>"]
    by (simp add: dosigalrm_def ikey_def)
next
  case (Some x)
  obtain r p where x: "x = (r, p)" by (cases x)
  define d2 where "d2 = snd (transmit e r p (snd (monotonic (count_repeat r p d))))"
  have k: "ikey d2 = ikey d" by (simp add: d2_def count_repeat_def)
  have o: "lircd_ok d2" "dl_timer d2 = None" "dl_repeat d2 \<noteq> None"
    using okI [OF k assms(1)] k assms(2) Some by (simp_all add: ikey_def)
  have "ikey ((answer_waiting (\<lambda>fd msg. send_error fd msg t) d)\<lparr>dl_repeat := None\<rparr>) = ikey (d\<lparr>dl_repeat := None\<rparr>)" for t
    using ikey_answer(2) [of t d] by (simp add: ikey_def)
  note interrupted = ok_end(1) [OF assms this, of e]
  note ended = ok_end [OF o(1,2), of _ e]
  have s: "lircd_ok ((schedule_repeat_timer t d2)\<lparr>dl_alrm := False\<rparr>)" for t
    by (rule ok_schedule(1) [OF o(1,3)])
  have "dosigalrm e d = (if last_code (remote_at d r) \<noteq> Some p then interrupt_repeat e d
      else if fst (transmit e r p (snd (monotonic (count_repeat r p d)))) \<and> repeat_countdown (remote_at d2 r) > 0
      then schedule_repeat_timer (fst (monotonic (count_repeat r p d))) d2 else end_repeat e d2)"
    by (simp add: dosigalrm_def Some x Let_def case_prod_beta d2_def)
  then show ?thesis using interrupted ended [OF ikey_answer(1)] ended [OF refl] s
    by (simp add: interrupt_repeat_def end_repeat_def Let_def del: append.simps)
qed

section \<open>The configuration\<close>

lemma ok_adopt:
  assumes "lircd_ok d" "dl_old d = None"
  shows "lircd_ok (adopt e rs d)"
proof -
  have l: "last_remote (dl_g d) = Some i \<Longrightarrow> i < length (remotes (dl_g d))" for i
    using assms(1) by (auto simp: lircd_ok_def ptr_ok_def)
  have o: "dl_last_old d \<noteq> OldAt i" for i using assms by (auto simp: lircd_ok_def ptr_ok_def)
  have r: "\<exists>i. q = Here i \<and> i < length (remotes (dl_g d))" if "dl_repeat d = Some (q, p)" for q p
    using assms that by (auto simp: lircd_ok_def ptr_ok_def split: remote_ptr.splits)
  let ?d = "d\<lparr>dl_old := (if remotes (dl_g d) = [] then None else Some (remotes (dl_g d))),
      dl_last_old := (case last_remote (dl_g d) of Some i \<Rightarrow> OldAt i | None \<Rightarrow> dl_last_old d),
      dl_repeat := map_option (\<lambda>(r, p). (case r of Here i \<Rightarrow> Gone i | Gone i \<Rightarrow> Gone i, p)) (dl_repeat d),
      dl_g := (dl_g d)\<lparr>remotes := rs, last_remote := None, last_decoded := None\<rparr>,
      dl_min_freq := fst (get_frequency_range rs), dl_max_freq := snd (get_frequency_range rs),
      dl_filter := get_filter_parameters (de_driver e) rs\<rparr>"
  have "lircd_ok ?d"
  proof (cases "dl_repeat d")
    case None
    then show ?thesis using assms(1) l o by (auto simp: lircd_ok_def ptr_ok_def split: option.split)
  next
    case (Some x)
    then obtain i p where "dl_repeat d = Some (Here i, p)" "i < length (remotes (dl_g d))" using r by (cases x) blast
    then show ?thesis using assms(1) l o by (auto simp: lircd_ok_def ptr_ok_def split: option.split)
  qed
  then show ?thesis unfolding adopt_def Let_def by (rule okI [rotated]) (rule ikey_hardware(1))
qed

lemma ok_config:
  assumes "lircd_ok d"
  shows "lircd_ok (config e fs d)"
proof -
  have k: "lircd_ok (d\<lparr>dl_configfile := c, dl_fault := True\<rparr>)" "lircd_ok (d\<lparr>dl_configfile := c, dl_tx := t\<rparr>)" for c t
    by (rule okI [OF _ assms], simp)+
  have "lircd_ok (adopt e rs (d\<lparr>dl_configfile := c, dl_tx := t\<rparr>))" if "dl_old d = None" for rs c t
    by (rule ok_adopt [OF k(2)]) (use that in simp)
  then show ?thesis using assms k unfolding config_def Let_def by (auto split: option.split prod.split)
qed

lemma ikey_restart [simp]: "ikey (snd (restart_peers ps d)) = ikey d"
proof -
  have "ikey (snd (fold (\<lambda>p (qs, d). if pr_socket p = None
      then (let (t, d) = time_of_day d in (qs @ [p\<lparr>pr_reconnect := t, pr_failures := 0\<rparr>], d)) else (qs @ [p], d)) ps (qs, d))) = ikey d"
    for qs d
  proof (induction ps arbitrary: qs d)
    case (Cons p ps)
    show ?case using Cons [of "qs @ [p]" d] Cons [of _ "snd (time_of_day d)"] by (simp add: Let_def case_prod_beta)
  qed simp
  then show ?thesis by (simp add: restart_peers_def)
qed

lemma ok_hup: "lircd_ok d \<Longrightarrow> lircd_ok (dosighup e fs d)"
  unfolding dosighup_def Let_def case_prod_beta by (rule okI [OF _ ok_config]) simp_all

lemma same_button_valid: "same_button d rm p = Some (j, c) \<Longrightarrow> j < length (remotes (dl_g d))"
  by (auto simp: same_button_def get_ir_remote_def split: option.splits remote_ref.splits if_splits dest!: find_index_Some)

lemma ok_last_remote:
  assumes "lircd_ok d"
  shows "lircd_ok (map_last_remote d)" "dl_repeat (map_last_remote d) = dl_repeat d"
    "\<exists>i. dl_last_old (map_last_remote d) = OldAt i \<Longrightarrow> \<exists>i. dl_last_old d = OldAt i"
proof -
  have c: "lircd_ok (d1\<lparr>dl_g := (dl_g d1)\<lparr>last_remote := x\<rparr>, dl_last_old := NotOld\<rparr>)"
    if "lircd_ok d1" "\<And>j. x = Some j \<Longrightarrow> j < length (remotes (dl_g d1))" for d1 x
    using that by (auto simp: lircd_ok_def ptr_ok_def split: option.splits remote_ptr.splits)
  have f: "lircd_ok (d\<lparr>dl_fault := True\<rparr>)" by (rule okI [OF _ assms]) simp
  have t: "lircd_ok (the_remote q g d)" for q g by (rule okI [OF _ assms]) simp
  have n: "length (remotes (dl_g (the_remote q g d))) = length (remotes (dl_g d))" for q g
    by (simp add: the_remote_def set_remote_def split: remote_ptr.split)
  have m: "lircd_ok ((the_remote q g d)\<lparr>dl_g := (dl_g (the_remote q g d))\<lparr>last_remote := Some j\<rparr>, dl_last_old := NotOld\<rparr>)"
    if "same_button d old p = Some (j, c)" for q g j old p c
    by (rule c [OF t]) (use same_button_valid [OF that] n in simp)
  show "lircd_ok (map_last_remote d)" unfolding map_last_remote_def Let_def
    using assms f m c [OF assms, of None] by (auto split: old_ptr.split option.split)
  show "dl_repeat (map_last_remote d) = dl_repeat d" unfolding map_last_remote_def Let_def
    by (auto split: old_ptr.split option.split remote_ptr.split simp: the_remote_def set_remote_def)
  show "\<exists>i. dl_last_old (map_last_remote d) = OldAt i \<Longrightarrow> \<exists>i. dl_last_old d = OldAt i" unfolding map_last_remote_def Let_def
    by (auto split: old_ptr.splits option.splits)
qed

lemma ok_free:
  assumes "lircd_ok d"
  shows "lircd_ok (free_old_remotes d)"
proof -
  define d1 where "d1 = map_last_remote d"
  have o: "lircd_ok d1" unfolding d1_def by (rule ok_last_remote(1) [OF assms])
  obtain n d2 where m: "map_repeat d1 = (n, d2)" by (cases "map_repeat d1")
  have 2: "lircd_ok d2 \<and> (\<not> n \<longrightarrow> (\<forall>i p. dl_repeat d2 \<noteq> Some (Gone i, p)))"
  proof (cases "\<exists>i p. dl_repeat d1 = Some (Gone i, p)")
    case True
    then obtain i p where r: "dl_repeat d1 = Some (Gone i, p)" by blast
    show ?thesis
    proof (cases "same_button d1 (remote_at d1 (Gone i)) p")
      case None
      then show ?thesis using m r o by (auto simp: map_repeat_def)
    next
      case (Some y)
      obtain j c where y: "y = (j, c)" by (cases y)
      have k: "ikey (the_remote (Here j) (copy_signal_state (remote_at d1 (Gone i)) c) d1) = ikey d1" by simp
      have "ptr_ok (the_remote (Here j) (copy_signal_state (remote_at d1 (Gone i)) c) d1) (Here j)"
        unfolding ikey_ptr [OF k] using same_button_valid [of d1 _ p j c] Some y by (simp add: ptr_ok_def)
      then show ?thesis using m r Some y ok_repeat [OF okI [OF k o]] by (auto simp: map_repeat_def)
    qed
  next
    case False
    then have "map_repeat d1 = (False, d1)"
      by (auto simp: map_repeat_def split: option.split prod.split remote_ptr.split)
    then show ?thesis using False o m by auto
  qed
  have "lircd_ok (d2\<lparr>dl_old := None, dl_last_old := (case dl_last_old d2 of OldAt _ \<Rightarrow> OldFreed | x \<Rightarrow> x)\<rparr>)" if "\<not> n"
    using 2 that by (auto simp: lircd_ok_def ptr_ok_def split: option.splits old_ptr.splits remote_ptr.splits)
  then show ?thesis using 2 m by (simp add: free_old_remotes_def d1_def [symmetric])
qed

section \<open>Clients and peers\<close>

lemma drvctl_clis [simp]: "dl_clis (snd (drvctl e c d)) = dl_clis d" "dl_stale (snd (drvctl e c d)) = dl_stale d"
  by (simp_all add: drvctl_def split: option.split)

lemma setup_clis [simp]: "dl_clis (snd (setup_hardware e d)) = dl_clis d" "dl_stale (snd (setup_hardware e d)) = dl_stale d"
proof -
  have f: "dl_clis (snd (setup_frequency e d)) = dl_clis d" "dl_stale (snd (setup_frequency e d)) = dl_stale d" for d
    unfolding setup_frequency_def Let_def case_prod_beta by simp_all
  have t: "dl_clis (snd (setup_timeout e d)) = dl_clis d" "dl_stale (snd (setup_timeout e d)) = dl_stale d" for d
    unfolding setup_timeout_def Let_def case_prod_beta by (simp_all split: option.split)
  show "dl_clis (snd (setup_hardware e d)) = dl_clis d" "dl_stale (snd (setup_hardware e d)) = dl_stale d"
    unfolding setup_hardware_def Let_def case_prod_beta by (simp_all add: f t)
qed

lemma init_clis [simp]: "dl_clis (snd (init_hw d)) = dl_clis d" "dl_stale (snd (init_hw d)) = dl_stale d"
  by (simp_all add: init_hw_def split: list.split)

lemma ok_lines: "lircd_ok d \<Longrightarrow> lircd_ok (snd (command_lines e fd buf d))"
proof (induction e fd buf d rule: command_lines.induct)
  case (1 e fd buf d)
  let ?l = "takeWhile (\<lambda>c. c \<noteq> newline) buf"
  obtain ok d1 where h: "handle_line e fd ?l d = (ok, d1)" by (cases "handle_line e fd ?l d")
  have o: "lircd_ok d1" using ok_line [OF 1(3), of e fd ?l] h by simp
  show ?case
  proof (cases "newline \<in> set (packet_text buf) \<and> ok \<and> drop (length ?l + 1) buf \<noteq> []")
    case False
    then show ?thesis using h o 1(3) by (subst command_lines.simps) (auto simp: Let_def)
  next
    case True
    let ?r = "drop (length ?l + 1) buf"
    show ?thesis
    proof (cases "newline \<in> set (packet_text ?r)")
      case nl: True
      have "lircd_ok (snd (command_lines e fd ?r d1))" using 1(1) True nl h o by simp
      then show ?thesis using True nl h by (subst command_lines.simps) (simp add: Let_def)
    next
      case nonl: False
      show ?thesis
      proof (cases "read_timeout fd (PACKET_SIZE - length ?r) False d1")
        case None
        then show ?thesis using True nonl h o by (subst command_lines.simps) (simp add: Let_def)
      next
        case (Some y)
        obtain z d2 where y: "y = (z, d2)" by (cases y)
        have o2: "lircd_ok d2" using okI [OF ikey_read o] Some y by blast
        show ?thesis
        proof (cases z)
          case (Inl u)
          then show ?thesis using True nonl h o2 Some y by (subst command_lines.simps) (simp add: Let_def)
        next
          case (Inr t)
          have "t \<noteq> [] \<longrightarrow> lircd_ok (snd (command_lines e fd (?r @ t) d2))"
            using 1(2) True nonl h o2 Some y Inr by simp
          then show ?thesis using True nonl h o2 Some y Inr by (subst command_lines.simps) (simp add: Let_def)
        qed
      qed
    qed
  qed
qed

lemma ok_get_command: "lircd_ok d \<Longrightarrow> get_command e fd d = Some (b, d') \<Longrightarrow> lircd_ok d'"
  using ok_lines [of _ e fd] by (auto simp: get_command_def split: option.splits sum.splits if_splits dest!: ikey_read
      intro: okI) (metis okI snd_conv)+

lemma ok_serve_clients: "lircd_ok d \<Longrightarrow> serve_clients e ready is d = Some d' \<Longrightarrow> lircd_ok d'"
proof (induction e ready "is" d rule: serve_clients.induct)
  case (2 e ready i "is" d)
  have r: "lircd_ok (remove_client e x d1)" if "lircd_ok d1" for x d1 by (rule okI [OF _ that]) simp
  show ?case using 2 ok_get_command [OF 2(3)] r by (auto split: if_splits option.splits)
qed simp

lemma ok_peer_message: "lircd_ok d \<Longrightarrow> get_peer_message e fd d = Some (b, d') \<Longrightarrow> lircd_ok d'"
proof -
  have r: "lircd_ok d1 \<Longrightarrow> lircd_ok (relay_message e s d1)" "lircd_ok d1 \<Longrightarrow> lircd_ok (d1\<lparr>dl_fault := True\<rparr>)" for d1 s
    by (rule okI; simp add: relay_message_def)+
  have "lircd_ok d1" if "lircd_ok d" "read_timeout fd n w d = Some (x, d1)" for n w x d1
    using okI [OF ikey_read [OF that(2)] that(1)] .
  then show "lircd_ok d \<Longrightarrow> get_peer_message e fd d = Some (b, d') \<Longrightarrow> lircd_ok d'"
    using r by (auto simp: get_peer_message_def split: option.splits sum.splits if_splits)
qed

lemma ok_drop_peer: "lircd_ok d \<Longrightarrow> lircd_ok (drop_peer i d)"
  by (rule okI [of _ d]) (simp_all add: drop_peer_def Let_def case_prod_beta)

lemma ok_serve_peers: "lircd_ok d \<Longrightarrow> serve_peers e ready is d = Some d' \<Longrightarrow> lircd_ok d'"
proof (induction e ready "is" d rule: serve_peers.induct)
  case (2 e ready i "is" d)
  then show ?case using ok_peer_message [OF 2(3)] ok_drop_peer
    by (auto split: if_splits option.splits)
qed simp

lemma ok_add:
  assumes "lircd_ok d"
  shows "lircd_ok (add_client e acc d)"
proof (cases acc)
  case None
  then show ?thesis using okI [OF _ assms, of "d\<lparr>dl_exit := True\<rparr>"] by (simp add: add_client_def)
next
  case (Some a)
  define d2 where "d2 = wake_hw e (new_socket a d)"
  have "ikey (new_socket a d) = ikey d" by (simp add: new_socket_def ikey_def Let_def)
  then have k: "ikey d2 = ikey d" unfolding d2_def wake_hw_def by (simp add: Let_def case_prod_beta)
  have o: "lircd_ok d2" by (rule okI [OF k assms])
  have c: "dl_clis d2 = dl_clis d" "dl_stale d2 = dl_stale d"
    unfolding d2_def wake_hw_def by (simp_all add: Let_def case_prod_beta) (simp_all add: new_socket_def Let_def)
  have "lircd_ok (d2\<lparr>dl_clis := dl_clis d2 @ [ac_fd a], dl_stale := drop 1 (dl_stale d2)\<rparr>)" if "length (dl_clis d) < MAX_CLIENTS"
  proof (rule okI [OF _ o])
    show "ikey (d2\<lparr>dl_clis := dl_clis d2 @ [ac_fd a], dl_stale := drop 1 (dl_stale d2)\<rparr>) = ikey d2"
      using assms that c by (auto simp: ikey_def lircd_ok_def)
  qed
  then show ?thesis using assms Some by (simp add: add_client_def Let_def d2_def [symmetric])
qed

section \<open>A turn\<close>

lemma ikey_peer [simp]: "ikey (snd (connect_to_peer p d)) = ikey d"
  unfolding connect_to_peer_def Let_def case_prod_beta
  by (cases "dl_connects d") (auto split: option.split)

lemma ikey_connect [simp]: "ikey (snd (connect_all now ps d)) = ikey d" "ikey (connect_to_peers d) = ikey d"
proof -
  show c: "ikey (snd (connect_all now ps d)) = ikey d" for now ps d
    by (induction ps arbitrary: d) (simp_all add: Let_def case_prod_beta)
  show "ikey (connect_to_peers d) = ikey d"
    unfolding connect_to_peers_def Let_def case_prod_beta by (simp add: c)
qed

lemma ikey_timeout_of [simp]: "ikey (snd (snd (snd (poll_timeout m d)))) = ikey d"
proof -
  have "ikey (snd (snd (peer_wait d))) = ikey d" for d
    by (simp add: peer_wait_def Let_def case_prod_beta)
  moreover have "ikey (snd (release_wait tv r d)) = ikey d" for tv r d
    by (simp add: release_wait_def Let_def case_prod_beta)
  ultimately show ?thesis unfolding poll_timeout_def Let_def case_prod_beta by simp
qed

lemma ok_signal: "lircd_ok d \<Longrightarrow> lircd_ok (timer_signal d)"
  by (auto simp: timer_signal_def sigalrm_def lircd_ok_def ptr_ok_def split: option.splits remote_ptr.splits)

lemma config_timer: "dl_timer (dosighup e fs d) = dl_timer d" "dl_alrm (dosighup e fs d) = dl_alrm d"
proof -
  have h: "dl_timer (snd (setup_hardware e d)) = dl_timer d" "dl_alrm (snd (setup_hardware e d)) = dl_alrm d" for d
    using ikey_hardware(1) [of e d] by (simp_all add: ikey_def)
  have a: "dl_timer (adopt e rs d) = dl_timer d" "dl_alrm (adopt e rs d) = dl_alrm d" for rs d
    by (simp_all add: adopt_def Let_def h)
  have c: "dl_timer (config e fs d) = dl_timer d" "dl_alrm (config e fs d) = dl_alrm d"
    unfolding config_def Let_def by (simp_all add: a split: option.split prod.split)
  have t: "dl_timer (tell_clients e l ss i x) = dl_timer x" "dl_alrm (tell_clients e l ss i x) = dl_alrm x" for l ss i x
    using ikey_tell [of e l ss i x] by (simp_all add: ikey_def)
  have r: "dl_timer (snd (restart_peers ps x)) = dl_timer x" "dl_alrm (snd (restart_peers ps x)) = dl_alrm x" for ps x
    using ikey_restart [of ps x] by (simp_all add: ikey_def)
  show "dl_timer (dosighup e fs d) = dl_timer d" "dl_alrm (dosighup e fs d) = dl_alrm d"
    unfolding dosighup_def Let_def case_prod_beta by (simp_all add: r t c)
qed

lemma ok_signals:
  assumes "lircd_ok d"
  shows "lircd_ok (handle_signals e w d)"
proof -
  define d1 where "d1 = (if po_alrm w then timer_signal d else d)"
  define d2 where "d2 = (case po_hup w of Some fs \<Rightarrow> dosighup e fs d1 | None \<Rightarrow> d1)"
  have "lircd_ok d1" unfolding d1_def using ok_signal [OF assms] assms by simp
  then have o: "lircd_ok d2" unfolding d2_def using ok_hup by (simp split: option.split)
  then have "dl_timer d2 = None" if "dl_alrm d2" using that by (simp add: lircd_ok_def)
  then show ?thesis unfolding handle_signals_def Let_def d1_def [symmetric] d2_def [symmetric]
    using o ok_alarm [OF o] by simp
qed

lemma ok_after_poll:
  assumes "lircd_ok d"
  shows "after_poll m st r ret d = Inr d' \<Longrightarrow> lircd_ok d'" "after_poll m st r ret d = Inl (m', d') \<Longrightarrow> lircd_ok d'"
proof -
  define d1 where "d1 = (if dl_old (snd (time_of_day d)) \<noteq> None then free_old_remotes (snd (time_of_day d)) else snd (time_of_day d))"
  have "lircd_ok (snd (time_of_day d))" by (rule okI [OF _ assms]) simp
  then have o: "lircd_ok d1" unfolding d1_def using ok_free by simp
  have c: "lircd_ok (connect_to_peers d1)" by (rule okI [OF _ o]) simp
  show "after_poll m st r ret d = Inr d' \<Longrightarrow> lircd_ok d'" "after_poll m st r ret d = Inl (m', d') \<Longrightarrow> lircd_ok d'"
    unfolding after_poll_def Let_def case_prod_beta d1_def [symmetric] using o c by (auto split: if_splits)
qed

lemma ok_serve:
  assumes "lircd_ok d" "serve e ready pready drv w d = Some (b, d')"
  shows "lircd_ok d'"
proof -
  have a: "lircd_ok (accept_client e acc d)" if "lircd_ok d" for acc d
    using ok_add [OF that] that by (simp add: accept_client_def split: option.split)
  have r: "lircd_ok (replug e d)" by (rule okI [OF _ assms(1)]) simp
  obtain d1 where d1: "serve_clients e ready [0..<MAX_CLIENTS] (replug e d) = Some d1"
    using assms(2) unfolding serve_def by (cases "serve_clients e ready [0..<MAX_CLIENTS] (replug e d)") (simp_all del: upt_conv_Cons upt_rec_numeral)
  obtain d2 where d2: "serve_peers e pready [0..<length (dl_peers d1)] d1 = Some d2"
    using assms(2) unfolding serve_def d1 option.case by (cases "serve_peers e pready [0..<length (dl_peers d1)] d1") simp_all
  have "lircd_ok d2" by (rule ok_serve_peers [OF ok_serve_clients [OF r d1] d2])
  moreover have "d' = accept_client e (po_inet w) (accept_client e (po_local w) d2)"
    using assms(2) unfolding serve_def d1 option.case d2 by (simp add: Let_def)
  ultimately show ?thesis using a by simp
qed

lemma ok_turn:
  assumes "lircd_ok d"
  shows "wait_turn e w m d = Returns k d' \<Longrightarrow> lircd_ok d'" "wait_turn e w m d = GoesOn m' d' \<Longrightarrow> lircd_ok d'"
proof -
  have x: "lircd_ok (d\<lparr>dl_exit := True\<rparr>)" by (rule okI [OF _ assms]) simp
  have o: "lircd_ok (snd (snd (snd (poll_timeout m (handle_signals e (reported w) d)))))"
    by (rule okI [OF _ ok_signals [OF assms]]) simp
  have sv: "lircd_ok d2"
    if "after_poll a st r ret (snd (snd (snd (poll_timeout m (handle_signals e (reported w) d))))) = Inl (b, d1)"
      "serve e re pr dr w2 d1 = Some (c, d2)" for a st r ret b d1 re pr dr w2 c d2
    by (rule ok_serve [OF ok_after_poll(2) [OF o that(1)] that(2)])
  show "wait_turn e w m d = Returns k d' \<Longrightarrow> lircd_ok d'" "wait_turn e w m d = GoesOn m' d' \<Longrightarrow> lircd_ok d'"
    unfolding wait_turn_def Let_def case_prod_beta
    using x ok_after_poll [OF o] sv by (auto split: if_splits sum.splits prod.splits option.splits bool.splits)
qed

text \<open>What is received leaves the number of remotes alone, and \<open>last_remote\<close> points to one of them.\<close>

definition rec_ok :: "lircd_env \<Rightarrow> bool" where
  "rec_ok e \<longleftrightarrow> (\<forall>f g m g'. de_rec e = Some f \<and> f g = Some (m, g')
     \<longrightarrow> length (remotes g') = length (remotes g)
       \<and> (last_remote g' = last_remote g \<or> (\<exists>i < length (remotes g). last_remote g' = Some i)))"

lemma ok_receive:
  assumes "lircd_ok d" "rec_ok e"
  shows "lircd_ok (receive_message e d)"
proof -
  have f: "lircd_ok (d\<lparr>dl_fault := True\<rparr>)" by (rule okI [OF _ assms(1)]) simp
  have g: "lircd_ok (d\<lparr>dl_g := g'\<rparr>)" if "de_rec e = Some f" "f (dl_g d) = Some (m, g')" for f m g'
  proof -
    have "length (remotes g') = length (remotes (dl_g d))"
      "last_remote g' = last_remote (dl_g d) \<or> (\<exists>i < length (remotes (dl_g d)). last_remote g' = Some i)"
      using assms(2) that unfolding rec_ok_def by blast+
    then show ?thesis using assms(1) by (auto simp: lircd_ok_def ptr_ok_def split: option.splits remote_ptr.splits)
  qed
  have "lircd_ok (broadcast_message e s (d\<lparr>dl_g := g'\<rparr>))" if "de_rec e = Some f" "f (dl_g d) = Some (m, g')" for f m g' s
    by (rule okI [OF _ g [OF that]]) (simp add: broadcast_message_def)
  then show ?thesis using assms(1) f g by (auto simp: receive_message_def split: option.split)
qed

section \<open>Runs of the daemon\<close>

text \<open>A step: a turn of \<open>mywaitfordata\<close> (from \<open>loop\<close> or from the driver), receiving, or the timer running out.\<close>

inductive lircd_step :: "lircd_env \<Rightarrow> lircd \<Rightarrow> lircd \<Rightarrow> bool" for e where
  turn_again: "wait_turn e w m d = GoesOn m' d' \<Longrightarrow> lircd_step e d d'"
| turn_over: "wait_turn e w m d = Returns k d' \<Longrightarrow> lircd_step e d d'"
| receive: "lircd_step e d (receive_message e d)"
| timer_over: "lircd_step e d (timer_signal d)"

inductive_cases lircd_stepE: "lircd_step e d d'"

lemma step_ok: "lircd_step e d d' \<Longrightarrow> rec_ok e \<Longrightarrow> lircd_ok d \<Longrightarrow> lircd_ok d'"
  by (elim lircd_stepE) (auto intro: ok_turn ok_receive ok_signal)

lemma start_ok: "lircd_ok (lircd_start g tx c)"
  by (simp add: lircd_ok_def lircd_start_def)

lemma lircd_run_ok: "(lircd_step e)\<^sup>*\<^sup>* d d' \<Longrightarrow> rec_ok e \<Longrightarrow> lircd_ok d \<Longrightarrow> lircd_ok d'"
  by (induction rule: rtranclp_induct) (auto intro: step_ok)

end
