(* ===== verification/Daemon_Args_Facts.thy ===== *)
theory Daemon_Args_Facts
  imports Daemon_Facts
begin

text \<open>
  The arguments of the commands: the mask of \<open>SET_TRANSMITTERS\<close>, the syntax of an event, and the texts that do not fit
  into the buffers.
\<close>

section \<open>Transmitters\<close>

lemma shift_times_push: "shift_times n x = push_bit n x"
proof (induction n arbitrary: x)
  case (Suc n)
  then show ?case by (simp add: push_bit_push_bit)
qed simp

text \<open>A word that names a transmitter: its number in 32 bits.\<close>

definition tx_number :: "string \<Rightarrow> nat option" where
  "tx_number w = (let (v, r, erange) = strtoul10 w; n = u32 v
     in if r = [] \<and> 1 \<le> n \<and> n \<le> MAX_TX then Some (nat n) else None)"

lemma tx_scan_step:
  "tx_number w = Some n \<Longrightarrow> tx_scan (w # ws) ch = tx_scan ws (ch OR push_bit (n - 1) 1)"
  "tx_number w = None \<Longrightarrow> \<exists>t. tx_scan (w # ws) ch = Inl t"
proof -
  obtain v r er where v: "strtoul10 w = (v, r, er)" by (cases "strtoul10 w")
  have n: "0 \<le> u32 v" by (simp add: u32_def)
  show "tx_number w = Some n \<Longrightarrow> tx_scan (w # ws) ch = tx_scan ws (ch OR push_bit (n - 1) 1)"
    using n v by (auto simp: tx_number_def Let_def shift_times_push split: if_splits)
  show "tx_number w = None \<Longrightarrow> \<exists>t. tx_scan (w # ws) ch = Inl t"
    using n v by (auto simp: tx_number_def Let_def split: if_splits)
qed

lemma tx_number_range: "tx_number w = Some n \<Longrightarrow> 1 \<le> n \<and> n \<le> 32"
  by (auto simp: tx_number_def Let_def split: prod.splits if_splits)

lemma tx_scan_mask:
  "(\<forall>w \<in> set ws. tx_number w \<noteq> None) \<Longrightarrow> \<exists>m. tx_scan ws ch = Inr m
    \<and> (\<forall>i < 32. bit m i \<longleftrightarrow> bit ch i \<or> (\<exists>w \<in> set ws. tx_number w = Some (i + 1)))"
proof (induction ws arbitrary: ch)
  case (Cons w ws)
  then obtain n where n: "tx_number w = Some n" by auto
  have r: "1 \<le> n" "n \<le> 32" using tx_number_range [OF n] by simp_all
  obtain m where m: "tx_scan ws (ch OR push_bit (n - 1) 1) = Inr m"
    "\<forall>i < 32. bit m i \<longleftrightarrow> bit (ch OR push_bit (n - 1) 1) i \<or> (\<exists>w \<in> set ws. tx_number w = Some (i + 1))"
    using Cons.IH [of "ch OR push_bit (n - 1) 1"] Cons.prems unfolding list.set(2) ball_simps(7) by blast
  have b: "bit (ch OR push_bit (n - 1) 1) i \<longleftrightarrow> bit ch i \<or> n = i + 1" if "i < 32" for i
    using r that by (auto simp: bit_or_iff bit_exp_iff possible_bit_word)
  have "tx_scan (w # ws) ch = Inr m" using tx_scan_step(1) [OF n] m(1) by simp
  then show ?case using m(2) b n by auto
qed simp

lemma tx_scan_bad: "\<exists>w \<in> set ws. tx_number w = None \<Longrightarrow> \<exists>t. tx_scan ws ch = Inl t"
proof (induction ws arbitrary: ch)
  case (Cons w ws)
  show ?case
  proof (cases "tx_number w")
    case None
    then show ?thesis by (rule tx_scan_step(2))
  next
    case (Some n)
    then show ?thesis using Cons tx_scan_step(1) [OF Some] by simp
  qed
qed simp

section \<open>Events\<close>

lemma skip_hex_iff: "skip_hex n s = Some r \<longleftrightarrow> (\<exists>h. s = h @ r \<and> length h = n \<and> list_all (is_digit_of 16) h)"
proof (induction n s rule: skip_hex.induct)
  case (3 n c cs)
  have "(\<exists>h. c # cs = h @ r \<and> length h = Suc n \<and> list_all (is_digit_of 16) h)
      \<longleftrightarrow> is_digit_of 16 c \<and> (\<exists>h. cs = h @ r \<and> length h = n \<and> list_all (is_digit_of 16) h)"
  proof
    assume "\<exists>h. c # cs = h @ r \<and> length h = Suc n \<and> list_all (is_digit_of 16) h"
    then obtain x h where "c # cs = (x # h) @ r" "length h = n" "list_all (is_digit_of 16) (x # h)"
      by (metis length_Suc_conv)
    then show "is_digit_of 16 c \<and> (\<exists>h. cs = h @ r \<and> length h = n \<and> list_all (is_digit_of 16) h)" by auto
  next
    assume "is_digit_of 16 c \<and> (\<exists>h. cs = h @ r \<and> length h = n \<and> list_all (is_digit_of 16) h)"
    then obtain h where "is_digit_of 16 c" "cs = h @ r" "length h = n" "list_all (is_digit_of 16) h" by blast
    then show "\<exists>h. c # cs = h @ r \<and> length h = Suc n \<and> list_all (is_digit_of 16) h"
      by (intro exI [of _ "c # h"]) simp
  qed
  then show ?case using 3 by simp
qed auto

lemma no_blank_digit: "list_all (is_digit_of 16) h \<Longrightarrow> CHR '' '' \<notin> set h"
proof -
  have "\<not> is_digit_of 16 (CHR '' '')" by (simp add: is_digit_of_def digit_val_def)
  then show "list_all (is_digit_of 16) h \<Longrightarrow> CHR '' '' \<notin> set h" by (auto simp: list_all_iff)
qed

lemma skip_hex_word_blank: "list_all (is_digit_of 16) h \<Longrightarrow> skip_hex_word (h @ CHR '' '' # t) = Some (CHR '' '' # t)"
  using no_blank_digit [of h] by (induction h) auto

lemma skip_hex_word_Some:
  "skip_hex_word s = Some r \<Longrightarrow> \<exists>h t. s = h @ r \<and> r = CHR '' '' # t \<and> list_all (is_digit_of 16) h"
proof (induction s)
  case (Cons c cs)
  show ?case
  proof (cases "c = CHR '' ''")
    case True
    then show ?thesis using Cons.prems by (intro exI [of _ "[]"] exI [of _ cs]) simp
  next
    case False
    then obtain h t where "is_digit_of 16 c" "cs = h @ r" "r = CHR '' '' # t" "list_all (is_digit_of 16) h"
      using Cons by (auto split: if_splits)
    then show ?thesis by (intro exI [of _ "c # h"] exI [of _ t]) simp
  qed
qed simp

lemma at_blank_iff: "at_blank s = Some (a, b) \<longleftrightarrow> s = a @ CHR '' '' # b \<and> CHR '' '' \<notin> set a"
proof
  assume s: "at_blank s = Some (a, b)"
  then have "CHR '' '' \<in> set s" by (simp add: at_blank_def split: if_splits)
  then obtain u v where uv: "s = u @ CHR '' '' # v" "CHR '' '' \<notin> set u" by (meson split_list_first)
  then have "takeWhile (\<lambda>c. c \<noteq> CHR '' '') s = u" "dropWhile (\<lambda>c. c \<noteq> CHR '' '') s = CHR '' '' # v"
    by (auto simp: takeWhile_append dropWhile_append)
  then show "s = a @ CHR '' '' # b \<and> CHR '' '' \<notin> set a" using s uv by (simp add: at_blank_def split: if_splits)
next
  assume s: "s = a @ CHR '' '' # b \<and> CHR '' '' \<notin> set a"
  then have "takeWhile (\<lambda>c. c \<noteq> CHR '' '') s = a" "dropWhile (\<lambda>c. c \<noteq> CHR '' '') s = CHR '' '' # b"
    by (auto simp: takeWhile_append dropWhile_append)
  then show "at_blank s = Some (a, b)" using s by (simp add: at_blank_def)
qed

lemma at_blank_None: "at_blank s = None \<longleftrightarrow> CHR '' '' \<notin> set s"
  by (simp add: at_blank_def)

lemma valid_event_iff: "valid_event t \<longleftrightarrow> (\<exists>cd rep button remote. t = cd @ '' '' @ rep @ '' '' @ button @ '' '' @ remote
    \<and> length cd = 16 \<and> list_all (is_digit_of 16) cd \<and> rep \<noteq> [] \<and> list_all (is_digit_of 16) rep
    \<and> button \<noteq> [] \<and> CHR '' '' \<notin> set button \<and> remote \<noteq> [] \<and> CHR '' '' \<notin> set remote)" (is "_ \<longleftrightarrow> ?R")
proof
  assume "valid_event t"
  then obtain b s where s: "skip_hex 16 t = Some (b # s)" by (auto simp: valid_event_def split: option.splits list.splits)
  then have b: "b = CHR '' ''" "\<not> (s \<noteq> [] \<and> hd s = CHR '' '')"
    using \<open>valid_event t\<close> by (auto simp: valid_event_def split: if_splits)
  then obtain w where w: "skip_hex_word s = Some w" using s \<open>valid_event t\<close> by (auto simp: valid_event_def split: option.splits)
  then obtain x where x: "at_blank (drop 1 w) = Some x" using b s \<open>valid_event t\<close>
    by (auto simp: valid_event_def split: option.splits)
  obtain button r where xr: "x = (button, r)" by (cases x)
  have r: "button \<noteq> []" "r \<noteq> []" "CHR '' '' \<notin> set r"
    using b s w x xr \<open>valid_event t\<close> by (auto simp: valid_event_def at_blank_None)
  obtain cd where "t = cd @ b # s" "length cd = 16" "list_all (is_digit_of 16) cd" using s by (auto simp: skip_hex_iff)
  moreover obtain h u where hu: "s = h @ w" "w = CHR '' '' # u" "list_all (is_digit_of 16) h" using skip_hex_word_Some [OF w] by blast
  moreover have "h \<noteq> []" using b(2) hu by auto
  moreover have "u = button @ CHR '' '' # r" "CHR '' '' \<notin> set button" using x xr hu(2) by (auto simp: at_blank_iff)
  ultimately show ?R using r b(1) by (intro exI [of _ cd] exI [of _ h] exI [of _ button] exI [of _ r]) simp
next
  assume ?R
  then obtain cd rep button remote where t: "t = cd @ CHR '' '' # rep @ CHR '' '' # button @ CHR '' '' # remote"
    "length cd = 16" "list_all (is_digit_of 16) cd" "rep \<noteq> []" "list_all (is_digit_of 16) rep"
    "button \<noteq> []" "CHR '' '' \<notin> set button" "remote \<noteq> []" "CHR '' '' \<notin> set remote" by auto
  have "skip_hex 16 t = Some (CHR '' '' # rep @ CHR '' '' # button @ CHR '' '' # remote)"
    using t(1-3) by (auto simp: skip_hex_iff)
  moreover have "hd (rep @ x) \<noteq> CHR '' ''" for x using no_blank_digit [OF t(5)] t(4) by (cases rep) auto
  moreover have "at_blank (button @ CHR '' '' # remote) = Some (button, remote)" using t(7) by (simp add: at_blank_iff)
  ultimately show "valid_event t"
    using skip_hex_word_blank [OF t(5)] t(6,8,9) by (simp add: valid_event_def at_blank_None)
qed

end
