(* ===== verification/Daemon_Props.thy ===== *)
theory Daemon_Props
  imports Daemon_Client Daemon_Invariant Daemon_Args_Facts Sample
begin

text \<open>
  The properties of the daemon \<open>lircd\<close>: its commands and their replies, its clients, the repetition of buttons, the
  configuration, and the loop that waits.
\<close>

section \<open>An example\<close>

definition sample_env :: lircd_env where
  "sample_env = \<lparr>de_driver = sample_driver, de_send_mode = 2, de_features = 0x00000400, de_drvctl = Some (\<lambda>_. 0),
     de_timeouts = None, de_send = (\<lambda>_ rm _ tx. (True, rm, tx)), de_has_init = False, de_has_deinit = False,
     de_version = ''0.10'', de_allow_simulate = False, de_repeat_max = 600,
     de_rec = Some (\<lambda>g. Some (None, g)), de_errno = 0, de_open_log = (\<lambda>_. None), de_glob = (\<lambda>_. []),
     de_cfgfile = ''lircd.conf'', de_oldcfgfile = ''old.conf''\<rparr>"

definition idle_state :: lirc_state where
  "idle_state = \<lparr>remotes = [], last_remote = None, last_decoded = None, decoding = False, use_dyncodes = False,
     receiver = sample_rx [], rel = release_start\<rparr>"

definition sample_lircd :: lircd where
  "sample_lircd = (lircd_start idle_state sample_tx (Some ''lircd.conf''))\<lparr>dl_clis := [4, 5], dl_stale := replicate 254 0\<rparr>"

lemma sample_open: "open_client 4 sample_lircd" "open_client 5 sample_lircd" "distinct (dl_clis sample_lircd)"
  by (simp_all add: sample_lircd_def open_client_def flows_def lircd_start_def)

lemma sample_names: "all_names_ok sample_lircd" "reply_line (de_version sample_env)"
  by (simp_all add: sample_lircd_def all_names_ok_def lircd_start_def sample_env_def reply_line_iff line_ok_def newline_code nul_code)

lemma sample_version: "handle_line sample_env 4 ''VERSION'' sample_lircd = version sample_env 4 (''VERSION'' @ nl) sample_lircd"
proof -
  have t: "strtok_step is_blank (strip_cr ''VERSION'') = (Some ''VERSION'', [])" by code_simp
  have f: "find_index (\<lambda>(n, _). strcaseeq ''VERSION'' n) (directives sample_env) = Some 6"
    unfolding directives_def by (simp add: strcaseeq_def tolower_def)
  show ?thesis unfolding handle_line_def t Let_def prod.case option.case f by (simp add: directives_def)
qed

lemma version_fault: "\<not> dl_fault (snd (handle_line sample_env 4 ''VERSION'' sample_lircd))"
  "dl_repeat_fd (snd (handle_line sample_env 4 ''VERSION'' sample_lircd)) = None"
  unfolding sample_version version_def by (simp_all add: sample_lircd_def lircd_start_def)

section \<open>The end of a repetition\<close>

text \<open>\<open>fd\<close> waits for the reply to \<open>msg\<close> until the repetition ends.\<close>

definition waits_for :: "int \<Rightarrow> string \<Rightarrow> lircd \<Rightarrow> bool" where
  "waits_for fd msg d \<longleftrightarrow> open_client fd d \<and> dl_repeat d \<noteq> None \<and> dl_repeat_fd d = Some fd \<and> dl_repeat_message d = Some msg"

lemma waits_same: "same_io d d' \<Longrightarrow> ikey d' = ikey d \<Longrightarrow> waits_for fd msg d \<Longrightarrow> waits_for fd msg d'"
  using same_io_open by (simp add: waits_for_def ikey_def)

lemma interrupted_replied:
  assumes "waits_for fd msg d"
  shows "dl_repeat (interrupt_repeat e d) = None \<and> dl_repeat_fd (interrupt_repeat e d) = None
    \<and> replied fd msg d (True, interrupt_repeat e d)"
proof -
  have "replied fd msg d (send_error fd msg (''repeating interrupted'' @ nl) d)"
    by (rule replied_short_error [where t = "''repeating interrupted''"])
      (use assms in \<open>simp_all add: waits_for_def reply_line_iff line_ok_def newline_code nul_code\<close>)
  then show ?thesis using assms
    by (simp add: interrupt_repeat_def answer_waiting_def forget_waiting_def waits_for_def replied_def del: append.simps)
qed

lemma ended_replied:
  assumes "waits_for fd msg d"
  shows "dl_repeat (end_repeat e d) = None \<and> dl_repeat_fd (end_repeat e d) = None \<and> replied fd msg d (True, end_repeat e d)"
proof -
  have "replied fd msg d (send_success fd msg (d\<lparr>dl_repeat := None\<rparr>))"
    using assms by (intro replied_success) (simp_all add: same_io_def waits_for_def)
  then show ?thesis using assms
    by (simp add: end_repeat_def answer_waiting_def forget_waiting_def waits_for_def replied_def send_success_def)
qed

text \<open>An alarm leaves the client waiting, with nothing sent, or ends the repetition and answers it.\<close>

lemma alarm_answers:
  assumes "waits_for fd msg d"
  shows "dl_sent (dosigalrm e d) fd = dl_sent d fd \<and> waits_for fd msg (dosigalrm e d)
    \<or> dl_repeat (dosigalrm e d) = None \<and> dl_repeat_fd (dosigalrm e d) = None \<and> replied fd msg d (True, dosigalrm e d)"
proof -
  obtain r p where r: "dl_repeat d = Some (r, p)" using assms by (auto simp: waits_for_def)
  show ?thesis
  proof (cases "last_code (remote_at d r) = Some p")
    case False
    then show ?thesis using interrupted_replied [OF assms, of e] r by (simp add: dosigalrm_def)
  next
    case True
    obtain b d1 where b: "monotonic (count_repeat r p d) = (b, d1)" by force
    obtain ok d2 where t: "transmit e r p d1 = (ok, d2)" by force
    have c: "same_io d (count_repeat r p d)" "ikey (count_repeat r p d) = ikey d"
      by (simp_all add: count_repeat_def same_io_set_remote)
    have io: "same_io d d2" using same_io_trans [OF same_io_trans [OF c(1) same_io_clocks(1)] same_io_transmit] b t by (metis snd_conv)
    have k: "ikey d2 = ikey d" using c(2) ikey_clocks(1) ikey_transmit b t by (metis snd_conv)
    have w: "waits_for fd msg d2" by (rule waits_same [OF io k assms])
    have a: "dosigalrm e d = (if ok \<and> repeat_countdown (remote_at d2 r) > 0 then schedule_repeat_timer b d2 else end_repeat e d2)"
      using True r b t by (simp add: dosigalrm_def)
    have s: "waits_for fd msg (schedule_repeat_timer b d2)" "dl_sent (schedule_repeat_timer b d2) fd = dl_sent d fd"
      using w same_io_open [OF same_io_schedule] same_io_schedule [of d2 b] io by (auto simp: waits_for_def same_io_def)
    have "replied fd msg d (True, end_repeat e d2)" using ended_replied [OF w, of e] io by (simp add: replied_def same_io_def)
    then show ?thesis using s ended_replied [OF w, of e] unfolding a by simp
  qed
qed

lemma alarms_answer:
  assumes "waits_for fd msg d" "dl_repeat ((dosigalrm e ^^ k) d) \<noteq> None"
  shows "dl_sent ((dosigalrm e ^^ k) d) fd = dl_sent d fd \<and> waits_for fd msg ((dosigalrm e ^^ k) d)"
  using assms(2)
proof (induction k)
  case 0
  then show ?case using assms(1) by simp
next
  case (Suc k)
  let ?d = "(dosigalrm e ^^ k) d"
  have "dl_repeat d1 = None \<Longrightarrow> dl_repeat (dosigalrm e d1) = None" for d1 by (simp add: dosigalrm_def)
  then have "dl_repeat ?d \<noteq> None" using Suc.prems by (metis funpow.simps(2) comp_apply)
  then show ?case using Suc alarm_answers [of fd msg ?d e] by auto
qed

section \<open>Replies\<close>

text \<open>C2. Every command is answered. When the socket of a client takes what is written, a line it sends (whatever the
  line is) leads to exactly one complete reply in the format of the protocol: \<open>BEGIN\<close>, the command, \<open>SUCCESS\<close> or
  \<open>ERROR\<close>, perhaps a number and as many lines, \<open>END\<close>. Before it there is at most the event of a \<open>SIMULATE\<close>. Only a
  \<open>SEND_ONCE\<close> that repeats the button is answered later: the client and the command are kept, the alarms that go on
  with the repetition send the client nothing, and the alarm that ends it sends the one complete reply and forgets
  the client. Excluded are lines that damage memory; and nothing is said of a repetition that is not ended by an
  alarm: when a \<open>SEND_STOP\<close> ends it, the client is not answered (\<open>stop_leaves_waiting_client\<close>).\<close>

theorem every_command_is_answered:
  assumes "open_client fd d" "distinct (dl_clis d)" "all_names_ok d" "reply_line (de_version e)" "line_ok line"
    "handle_line e fd line d = (ok, d')" "\<not> dl_fault d'"
  shows "ok \<and> ((\<exists>pre res data. dl_sent d' fd = dl_sent d fd @ pre @ reply_text (line @ nl) res data
        \<and> (\<forall>ls. data = Some ls \<longrightarrow> list_all reply_line ls)
        \<and> (pre = [] \<or> (\<exists>t. de_allow_simulate e \<and> valid_event t \<and> pre = t @ nl)))
      \<or> dl_sent d' fd = dl_sent d fd \<and> dl_repeat d' \<noteq> None \<and> dl_repeat_fd d' = Some fd
        \<and> dl_repeat_message d' = Some (line @ nl)
        \<and> (\<forall>k. dl_repeat ((dosigalrm e ^^ k) d') \<noteq> None \<longrightarrow>
             dl_sent ((dosigalrm e ^^ k) d') fd = dl_sent d fd
             \<and> (dl_repeat ((dosigalrm e ^^ Suc k) d') = None \<longrightarrow>
                 dl_repeat_fd ((dosigalrm e ^^ Suc k) d') = None
                 \<and> (\<exists>res data. dl_sent ((dosigalrm e ^^ Suc k) d') fd = dl_sent d fd @ reply_text (line @ nl) res data
                      \<and> (\<forall>ls. data = Some ls \<longrightarrow> list_all reply_line ls)))))"
proof -
  have "answered e fd (line @ nl) d (ok, d')" using answered_line [OF assms(1-5)] assms(6,7) by simp
  then show ?thesis unfolding answered_def
  proof
    assume "deferred fd (line @ nl) d (ok, d')"
    then have o: "ok" "same_io d d'" "dl_repeat d' \<noteq> None" "dl_repeat_fd d' = Some fd" "dl_repeat_message d' = Some (line @ nl)"
      by (simp_all add: deferred_def)
    have w: "waits_for fd (line @ nl) d'" using o same_io_open [OF o(2) assms(1)] by (simp add: waits_for_def)
    have s: "dl_sent d' fd = dl_sent d fd" using o(2) by (simp add: same_io_def)
    have "dl_sent ((dosigalrm e ^^ k) d') fd = dl_sent d fd
      \<and> (dl_repeat ((dosigalrm e ^^ Suc k) d') = None \<longrightarrow> dl_repeat_fd ((dosigalrm e ^^ Suc k) d') = None
        \<and> replied fd (line @ nl) d (True, (dosigalrm e ^^ Suc k) d'))" if "dl_repeat ((dosigalrm e ^^ k) d') \<noteq> None" for k
      using alarms_answer [OF w that] alarm_answers [of fd "line @ nl" "(dosigalrm e ^^ k) d'" e] s
      by (auto simp: replied_def waits_for_def)
    then show ?thesis using o s unfolding replied_def prod.sel by blast
  next
    assume "\<exists>pre. replied_after pre fd (line @ nl) d (ok, d')
      \<and> (pre = [] \<or> (\<exists>t. de_allow_simulate e \<and> valid_event t \<and> pre = t @ nl))"
    then show ?thesis unfolding replied_after_def prod.sel by blast
  qed
qed

theorem every_command_is_answered_witness:
  "let (ok, d') = handle_line sample_env 4 ''VERSION'' sample_lircd
   in ok \<and> ((\<exists>pre res data. dl_sent d' 4 = pre @ reply_text (''VERSION'' @ nl) res data) \<or> dl_repeat_fd d' = Some 4)"
proof -
  obtain ok d' where h: "handle_line sample_env 4 ''VERSION'' sample_lircd = (ok, d')"
    by (cases "handle_line sample_env 4 ''VERSION'' sample_lircd")
  have l: "line_ok ''VERSION''" by (simp add: line_ok_def newline_code nul_code)
  have s: "dl_sent sample_lircd 4 = []" by (simp add: sample_lircd_def lircd_start_def)
  show ?thesis using every_command_is_answered [OF sample_open(1,3) sample_names l h] version_fault h s by auto
qed

text \<open>C4. What the daemon writes, the client library reads. When \<open>lircd\<close>, with \<open>SIMULATE\<close> not allowed, answers a command at
  once to a client whose socket takes what is written and without damage to memory, when the client has sent the
  command whole, and when the reply (of less than 4 GB) arrives in pieces of at most 128 bytes of which each ends a line,
  \<open>lirc_command_run\<close> returns success for \<open>SUCCESS\<close> and an error for \<open>ERROR\<close>, and a reply of one line that fits into the
  buffer of the command is the data it returns. A piece without the end of a line is refused by the client.\<close>

theorem reply_reaches_the_client:
  assumes "open_client fd d" "distinct (dl_clis d)" "all_names_ok d" "reply_line (de_version e)" "reply_line line"
    "\<not> de_allow_simulate e" "handle_line e fd line d = (ok, d')" "\<not> dl_fault d'" "dl_repeat_fd d' \<noteq> Some fd"
    "lirc_command_init (line @ nl) = Some ctx" "send_packet (line @ nl) ws = Some sent"
    "list_all piece_ok ev" "dl_sent d' fd = dl_sent d fd @ pending ev" "length (pending ev) < 2 ^ 32"
  shows "\<exists>res data ctx' ev'. pending ev = reply_text (line @ nl) res data
    \<and> lirc_command_run ctx ws ev = Some (Inl (if res then CSuccess else CError, ctx', ev'))
    \<and> (\<forall>l. data = Some [l] \<longrightarrow> length l < CLIENT_PACKET_SIZE \<longrightarrow> cc_reply ctx' = l)"
proof -
  have l: "line_ok line" using assms(5) by (simp add: reply_line_iff)
  obtain res data where r: "pending ev = reply_text (line @ nl) res data" "\<forall>ls. data = Some ls \<longrightarrow> list_all reply_line ls"
  proof -
    have "answered e fd (line @ nl) d (ok, d')" using answered_line [OF assms(1-4) l] assms(7,8) by simp
    then show ?thesis using that assms(6,9,13) unfolding answered_def deferred_def replied_after_def prod.sel by auto
  qed
  have u: "length ls \<le> length (unlines ls)" for ls by (induction ls) auto
  have "length ls < 2 ^ 32" if "data = Some ls" for ls
    using assms(14) u [of ls] that by (simp add: r(1) reply_text_def)
  then have "\<And>ls. data = Some ls \<Longrightarrow> list_all reply_line ls \<and> length ls < 2 ^ 32" using r(2) by blast
  from client_reads_reply [OF assms(10,11,5) this assms(12) r(1)] show ?thesis using r(1) by blast
qed

theorem reply_reaches_the_client_witness:
  "\<exists>ctx ev ctx' ev' res. lirc_command_init (''VERSION'' @ nl) = Some ctx \<and> dl_sent (snd (handle_line sample_env 4 ''VERSION'' sample_lircd)) 4 = pending ev
    \<and> lirc_command_run ctx [Some 8] ev = Some (Inl (if res then CSuccess else CError, ctx', ev'))"
proof -
  obtain ctx where c: "lirc_command_init (''VERSION'' @ nl) = Some ctx" by (simp add: lirc_command_init_def)
  obtain ok d' where h: "handle_line sample_env 4 ''VERSION'' sample_lircd = (ok, d')"
    by (cases "handle_line sample_env 4 ''VERSION'' sample_lircd")
  let ?t = "p_begin @ (''VERSION'' @ nl) @ p_success @ p_data @ (''1'' @ nl @ ''0.10'' @ nl) @ p_end"
  have s: "dl_sent sample_lircd 4 = []" by (simp add: sample_lircd_def lircd_start_def)
  have "dl_sent d' 4 = ?t"
    using h sample_version write_all_open(2) [OF sample_open(1)] s unfolding version_def
    by (metis append_Nil concat.simps(1,2) append_Nil2 sample_env_def lircd_env.select_convs(9) snd_conv)
  then have t: "dl_sent d' 4 = dl_sent sample_lircd 4 @ pending [SData ?t]" by (simp add: s pending_def)
  have p: "list_all piece_ok [SData ?t]" by code_simp
  have w: "send_packet (''VERSION'' @ nl) [Some 8] = Some (''VERSION'' @ nl)" by simp
  have l: "reply_line ''VERSION''" by (simp add: reply_line_iff line_ok_def newline_code nul_code)
  have b: "length (pending [SData ?t]) < 2 ^ 32" by (simp add: pending_def p_begin_def p_success_def p_data_def p_end_def)
  have a: "\<not> de_allow_simulate sample_env" by (simp add: sample_env_def)
  have f: "\<not> dl_fault d'" "dl_repeat_fd d' \<noteq> Some 4" using version_fault h by simp_all
  from reply_reaches_the_client [OF sample_open(1,3) sample_names l a h f c w p t b]
  show ?thesis using c h t s by (metis append_Nil snd_conv)
qed

section \<open>The state\<close>

text \<open>C3. The invariant of the daemon. In every state it reaches from its start, through turns of its loop with any
  signals, clients, commands, peers, reloads of the configuration and received buttons: an alarm is only pending
  while a button is repeated, the button is one of the configuration in use or of one that has not been freed, a
  client that waits for its answer has a command to be repeated to it, and there are at most 256 clients.\<close>

theorem daemon_invariant:
  assumes "rec_ok e" "(lircd_step e)\<^sup>*\<^sup>* (config e fs (lircd_start g tx c)) d"
  shows "(dl_timer d \<noteq> None \<or> dl_alrm d \<longrightarrow> dl_repeat d \<noteq> None)
    \<and> (\<forall>i p. dl_repeat d = Some (Here i, p) \<longrightarrow> i < length (remotes (dl_g d)))
    \<and> (\<forall>i p. dl_repeat d = Some (Gone i, p) \<longrightarrow> (\<exists>rs. dl_old d = Some rs \<and> i < length rs))
    \<and> (dl_repeat_fd d \<noteq> None \<longrightarrow> dl_repeat_message d \<noteq> None)
    \<and> length (dl_clis d) \<le> MAX_CLIENTS"
proof -
  have o: "lircd_ok d" by (rule lircd_run_ok [OF assms(2,1) ok_config [OF start_ok]])
  show ?thesis
  proof (cases "dl_repeat d")
    case None
    then show ?thesis using o by (simp add: lircd_ok_def)
  next
    case (Some x)
    then show ?thesis using o by (cases x) (auto simp: lircd_ok_def ptr_ok_def split: option.splits)
  qed
qed

theorem daemon_invariant_witness:
  "\<exists>d. (lircd_step sample_env)\<^sup>*\<^sup>* (config sample_env (\<lambda>_. None) (lircd_start idle_state sample_tx None)) d
    \<and> length (dl_clis d) \<le> MAX_CLIENTS"
proof -
  have r: "rec_ok sample_env" by (simp add: rec_ok_def sample_env_def)
  let ?d = "config sample_env (\<lambda>_. None) (lircd_start idle_state sample_tx None)"
  have "(lircd_step sample_env)\<^sup>*\<^sup>* ?d (receive_message sample_env ?d)" by (blast intro: receive)
  from daemon_invariant [OF r this] show ?thesis by (blast intro: receive)
qed

text \<open>C8. A message for all clients. Exactly the clients whose socket takes the whole message stay, in their order;
  each of them is sent the message once, and nothing is sent to anyone else.\<close>

theorem broadcast_reaches_all:
  assumes "distinct (dl_clis d)"
  shows "dl_clis (broadcast_message e msg d) = filter (takes [msg] d) (dl_clis d)
    \<and> (\<forall>x \<in> set (dl_clis (broadcast_message e msg d)). dl_sent (broadcast_message e msg d) x = dl_sent d x @ msg)
    \<and> (\<forall>x. x \<notin> set (dl_clis d) \<longrightarrow> dl_sent (broadcast_message e msg d) x = dl_sent d x)"
  using tell_all [OF assms, of e "[msg]" 0] by (auto simp: broadcast_message_def)

theorem broadcast_reaches_all_witness:
  "dl_clis (broadcast_message sample_env ''x'' sample_lircd) = filter (takes [''x''] sample_lircd) [4, 5]"
proof -
  have "dl_clis sample_lircd = [4, 5]" by (simp add: sample_lircd_def)
  then show ?thesis using broadcast_reaches_all [OF sample_open(3), of sample_env "''x''"] by simp
qed

section \<open>Arguments\<close>


text \<open>C10. The transmitter mask. With a driver that can select transmitters, \<open>SET_TRANSMITTERS\<close> hands it a mask exactly
  when every word names one of the transmitters 1 to 32 (as a number taken modulo 2 to the 32nd); the mask has exactly the
  bits of these transmitters.\<close>

theorem transmitter_mask:
  assumes "de_send_mode e \<noteq> 0" "de_drvctl e \<noteq> None" "de_features e AND LIRC_CAN_SET_TRANSMITTER_MASK \<noteq> 0"
    "rc_words (Some a) \<noteq> []"
  shows "(if \<forall>w \<in> set (rc_words (Some a)). tx_number w \<noteq> None
     then \<exists>m :: 32 word. dl_drv (snd (set_transmitters e fd msg (Some a) d)) = dl_drv d @ [DrvTransmitters (uint m)]
       \<and> (\<forall>i < 32. bit m i = (\<exists>w \<in> set (rc_words (Some a)). tx_number w = Some (i + 1)))
     else dl_drv (snd (set_transmitters e fd msg (Some a) d)) = dl_drv d)"
proof -
  have r: "dl_drv (snd (send_error fd msg t d1)) = dl_drv d1" "dl_drv (snd (send_success fd msg d1)) = dl_drv d1" for t d1
    by (simp_all add: send_error_def send_success_def)
  have v: "dl_drv (snd (drvctl e c d)) = dl_drv d @ [c]" for c using assms(2) by (auto simp: drvctl_def)
  show ?thesis
  proof (cases "\<forall>w \<in> set (rc_words (Some a)). tx_number w \<noteq> None")
    case True
    obtain m where m: "tx_scan (rc_words (Some a)) 0 = Inr m"
      "\<forall>i < 32. bit m i \<longleftrightarrow> bit (0 :: 32 word) i \<or> (\<exists>w \<in> set (rc_words (Some a)). tx_number w = Some (i + 1))"
      using tx_scan_mask [OF True, of 0] by blast
    have "dl_drv (snd (set_transmitters e fd msg (Some a) d)) = dl_drv d @ [DrvTransmitters (uint m)]"
      using assms m(1) r v by (simp add: set_transmitters_def Let_def case_prod_beta del: append.simps)
    then show ?thesis using m(2) True by auto
  next
    case False
    then obtain w where "w \<in> set (rc_words (Some a))" "tx_number w = None" by (metis (no_types))
    then have "\<exists>w \<in> set (rc_words (Some a)). tx_number w = None" by (rule bexI [rotated])
    then obtain t where "tx_scan (rc_words (Some a)) 0 = Inl t" using tx_scan_bad by blast
    then show ?thesis using False assms r by (simp add: set_transmitters_def del: append.simps)
  qed
qed

theorem transmitter_mask_witness:
  "dl_drv (snd (set_transmitters sample_env 4 ''m'' (Some ''1 x'') sample_lircd)) = dl_drv sample_lircd"
proof -
  have w: "rc_words (Some ''1 x'') = [''1'', ''x'']" by code_simp
  have n: "tx_number ''x'' = None" by (simp add: tx_number_def strtoul10_def read_dec_def isspace_def is_digit_of_def
      digit_val_def u32_def)
  have e: "de_send_mode sample_env \<noteq> 0" "de_drvctl sample_env \<noteq> None"
    "de_features sample_env AND LIRC_CAN_SET_TRANSMITTER_MASK \<noteq> 0" by (simp_all add: sample_env_def)
  show ?thesis using transmitter_mask [OF e, of "''1 x''" 4 "''m''" sample_lircd] unfolding w using n by simp
qed

text \<open>C9. The arguments of a command. When \<open>parse_rc\<close> accepts them, the remote and the button that are required are
  there, the remote is one of the configuration in use (or the internal one), the button is one of that remote, and a
  number of repeats is at most the limit, or stands for none given.\<close>

theorem parsed_arguments_are_valid:
  assumes "parse_rc e fd msg a want n d = Inr (r, c, k)"
  shows "(0 < n \<longrightarrow> r \<noteq> None) \<and> (1 < n \<longrightarrow> c \<noteq> None)
    \<and> (\<forall>i. r = Some (RIndex i) \<longrightarrow> i < length (remotes (dl_g d)))
    \<and> (\<forall>p. c = Some p \<longrightarrow> (\<exists>i cs. r = Some (RIndex i) \<and> codes (remotes (dl_g d) ! i) = Some cs
         \<and> (p = NEof \<or> (\<exists>j < length cs. p = NCode j))))
    \<and> (want \<and> c \<noteq> None \<longrightarrow> k = u32 (-1) \<or> 0 \<le> k \<and> k \<le> de_repeat_max e)"
proof -
  note s = parse_rc_ok(1) [OF assms]
  have i: "i < length (remotes (dl_g d))" if "r = Some (RIndex i)" for i
    using scan_rc_ok [OF s] that get_ir_remote_valid by blast
  have c: "\<exists>i cs. r = Some (RIndex i) \<and> codes (remotes (dl_g d) ! i) = Some cs \<and> (p = NEof \<or> (\<exists>j < length cs. p = NCode j))"
    if p: "c = Some p" for p
  proof -
    obtain q nm where q: "r = Some q" "get_code_by_name (deref_remote d q) nm = Some p" using scan_rc_ok [OF s] p by blast
    then obtain j where j: "q = RIndex j" using internal_no_code by (cases q) (auto simp: deref_remote_def)
    then have "deref_remote d q = remotes (dl_g d) ! j" using i q(1) by (simp add: deref_remote_def remote_at_def)
    moreover have "codes (deref_remote d q) \<noteq> None" using q(2) by (cases "codes (deref_remote d q)") (auto simp: get_code_by_name_def)
    ultimately show ?thesis using q j get_code_valid [OF q(2)] by auto
  qed
  have k: "want \<and> c \<noteq> None \<longrightarrow> k = u32 (-1) \<or> 0 \<le> k \<and> k \<le> de_repeat_max e"
    using s unfolding scan_rc_def parse_reps_def Let_def
    by (auto split: list.splits option.splits prod.splits sum.splits if_splits)
  show ?thesis using parse_rc_ok(2,3) [OF assms] i c k by blast
qed

definition sample_tv :: lircd where
  "sample_tv = sample_lircd\<lparr>dl_g := idle_state\<lparr>remotes := [sample_remote]\<rparr>\<rparr>"

theorem parsed_arguments_are_valid_witness:
  "parse_rc sample_env 4 ''m'' (Some ''tv UP 2'') True 2 sample_tv = Inr (Some (RIndex 0), Some (NCode 0), 2)
   \<and> (\<exists>cs. codes (remotes (dl_g sample_tv) ! 0) = Some cs \<and> (\<exists>j < length cs. NCode 0 = NCode j))"
proof -
  have "case parse_rc sample_env 4 ''m'' (Some ''tv UP 2'') True 2 sample_tv of
      Inl _ \<Rightarrow> False | Inr x \<Rightarrow> x = (Some (RIndex 0), Some (NCode 0), 2)"
    by code_simp
  then have p: "parse_rc sample_env 4 ''m'' (Some ''tv UP 2'') True 2 sample_tv = Inr (Some (RIndex 0), Some (NCode 0), 2)"
    by (simp split: sum.splits)
  show ?thesis using parsed_arguments_are_valid [OF p] p by simp
qed

end
