(* ===== verification/Daemon_Limits.thy ===== *)
theory Daemon_Limits
  imports Daemon_Props Sample_Config
begin

text \<open>
  Repetitions end; and what goes wrong in the daemon: a long directive, an old release time, a client that leaves, a
  configuration with an error.
\<close>

section \<open>A repetition ends\<close>

text \<open>A driver that does not change the number of repeats that are left and the codes of the buttons.\<close>

definition sends_only :: "lircd_env \<Rightarrow> bool" where
  "sends_only e \<longleftrightarrow> (\<forall>b rm p tx. let rm' = fst (snd (de_send e b rm p tx))
     in repeat_countdown rm' = repeat_countdown rm \<and> nexts (deref rm' p) = nexts (deref rm p))"

lemma remote_at_set:
  "ptr_ok d r \<Longrightarrow> remote_at (set_remote r rm d) r = rm"
  by (auto simp: ptr_ok_def remote_at_def set_remote_def split: remote_ptr.splits option.splits)

lemma remote_at_clocks [simp]:
  "remote_at (snd (time_of_day d)) r = remote_at d r" "remote_at (snd (monotonic d)) r = remote_at d r"
  "remote_at (d\<lparr>dl_tx := t\<rparr>) r = remote_at d r"
  by (auto simp: time_of_day_def monotonic_def remote_at_def split: list.splits remote_ptr.splits option.splits)

lemma deref_last_send [simp]: "deref (rm\<lparr>last_send := t, last_code := c\<rparr>) p = deref rm p"
  "deref (rm\<lparr>repeat_countdown := n\<rparr>) p = deref rm p"
  by (auto simp: deref_def split: ncode_ref.splits option.splits)

lemma transmit_keeps:
  assumes "sends_only e" "ptr_ok d r"
  shows "repeat_countdown (remote_at (snd (transmit e r p d)) r) = repeat_countdown (remote_at d r)
    \<and> nexts (deref (remote_at (snd (transmit e r p d)) r) p) = nexts (deref (remote_at d r) p)"
proof -
  obtain t0 d0 where 0: "(if last_code (remote_at d r) \<noteq> None then time_of_day d else (zero_timeval, d)) = (t0, d0)"
    by (metis surj_pair)
  obtain ok rm tx where 1: "de_send e (dl_repeat d0 \<noteq> None) (remote_at d r) p (dl_tx d0) = (ok, rm, tx)" by (metis prod_cases3)
  have s: "repeat_countdown rm = repeat_countdown (remote_at d r) \<and> nexts (deref rm p) = nexts (deref (remote_at d r) p)"
    using assms(1) 1 unfolding sends_only_def by (metis fst_conv snd_conv)
  obtain t1 d1 where 2: "(if ok then time_of_day d0 else (zero_timeval, d0)) = (t1, d1)" by (metis surj_pair)
  have k: "ikey d1 = ikey d" using 0 2 ikey_clocks(2) by (metis snd_conv)
  then have "ptr_ok (d1\<lparr>dl_tx := tx\<rparr>) r" using assms(2) ikey_ptr [of "d1\<lparr>dl_tx := tx\<rparr>" d r] by simp
  then show ?thesis unfolding transmit_def Let_def 0 prod.case 1 2 send_ir_ncode_def
    using s by (auto simp: remote_at_set)
qed

lemma end_repeat_none: "dl_repeat (end_repeat e d) = None"
proof -
  have "dl_repeat (answer_waiting send_success d1) = dl_repeat d1" for d1 by (rule ikey_repeat) simp
  then show ?thesis by (simp add: end_repeat_def deinit_hw_def forget_waiting_def Let_def)
qed

lemma alarm_step:
  assumes "sends_only e" "dl_repeat d = Some (r, p)" "ptr_ok d r" "nexts (deref (remote_at d r) p) = []"
    "0 \<le> repeat_countdown (remote_at d r)" "repeat_countdown (remote_at d r) < 2 ^ 31"
  shows "dl_repeat (dosigalrm e d) = None
    \<or> (dl_repeat (dosigalrm e d) = Some (r, p) \<and> ptr_ok (dosigalrm e d) r
       \<and> nexts (deref (remote_at (dosigalrm e d) r) p) = [] \<and> 0 < repeat_countdown (remote_at (dosigalrm e d) r)
       \<and> repeat_countdown (remote_at (dosigalrm e d) r) = repeat_countdown (remote_at d r) - 1)"
proof (cases "last_code (remote_at d r) = Some p")
  case False
  have "dl_repeat (deinit_hw e d1) = dl_repeat d1" for d1 by (simp add: deinit_hw_def)
  then show ?thesis using False assms(2) by (simp add: dosigalrm_def interrupt_repeat_def forget_waiting_def)
next
  case True
  let ?n = "repeat_countdown (remote_at d r) - 1"
  define d1 where "d1 = snd (monotonic (count_repeat r p d))"
  obtain b where b: "monotonic (count_repeat r p d) = (b, d1)" unfolding d1_def by (metis prod.collapse)
  have c: "count_repeat r p d = the_remote r (\<lambda>rm. rm\<lparr>repeat_countdown := ?n\<rparr>) d"
    using assms(4-6) by (simp add: count_repeat_def one_sent_def i32_id the_remote_def)
  have r1: "remote_at d1 r = (remote_at d r)\<lparr>repeat_countdown := ?n\<rparr>"
    unfolding d1_def c the_remote_def by (simp add: remote_at_set assms(3))
  have k1: "ikey d1 = ikey d" unfolding d1_def c by simp
  obtain ok d2 where t: "transmit e r p d1 = (ok, d2)" by (metis surj_pair)
  have k2: "ikey d2 = ikey d" using k1 t ikey_transmit [of e r p d1] by simp
  have "ptr_ok d1 r" using ikey_ptr [OF k1] assms(3) by simp
  then have r2: "repeat_countdown (remote_at d2 r) = ?n" "nexts (deref (remote_at d2 r) p) = []"
    using transmit_keeps [OF assms(1), of d1 r p] t r1 assms(4) by simp_all
  have s: "dosigalrm e d = (if ok \<and> ?n > 0 then schedule_repeat_timer b d2 else end_repeat e d2)"
    using True assms(2) b t r2 by (simp add: dosigalrm_def)
  show ?thesis
  proof (cases "ok \<and> ?n > 0")
    case False
    then have "dosigalrm e d = end_repeat e d2" unfolding s by (rule if_not_P)
    then show ?thesis by (simp add: end_repeat_none)
  next
    case go: True
    have d2: "dl_repeat d2 = Some (r, p)" using ikey_repeat [OF k2] assms(2) by simp
    obtain u d3 where m: "monotonic d2 = (u, d3)" by (metis surj_pair)
    have "\<exists>us. schedule_repeat_timer b d2 = setitimer us d3" using d2 m by (auto simp: schedule_repeat_timer_def Let_def)
    then obtain us where q: "dosigalrm e d = setitimer us d3" using s go by auto
    have f: "remote_at (setitimer us d3) r = remote_at d3 r" "dl_repeat (setitimer us d3) = dl_repeat d3"
      "ptr_ok (setitimer us d3) r = ptr_ok d3 r"
      by (simp_all add: setitimer_def remote_at_def split: remote_ptr.splits)
    have m3: "remote_at d3 r = remote_at d2 r" "ikey d3 = ikey d2" using m remote_at_clocks(2) ikey_clocks(1) by (metis snd_conv)+
    then have "dl_repeat d3 = Some (r, p)" "ptr_ok d3 r" using ikey_repeat ikey_ptr k2 d2 assms(3) by metis+
    then show ?thesis using q f m3 r2 go by simp
  qed
qed

text \<open>C19. A repetition ends. When a button with one code is repeated and the driver leaves the number of repeats
  alone, the daemon stops repeating after at most as many alarms as there are repeats left.\<close>

theorem repetition_ends:
  assumes "sends_only e" "dl_repeat d = Some (r, p)" "ptr_ok d r" "nexts (deref (remote_at d r) p) = []"
    "0 \<le> repeat_countdown (remote_at d r)" "repeat_countdown (remote_at d r) < 2 ^ 31"
  shows "\<exists>k \<le> max 1 (nat (repeat_countdown (remote_at d r))). dl_repeat ((dosigalrm e ^^ k) d) = None"
  using assms(2-6)
proof (induction "nat (repeat_countdown (remote_at d r))" arbitrary: d rule: less_induct)
  case less
  let ?d = "dosigalrm e d" and ?n = "repeat_countdown (remote_at d r)"
  from alarm_step [OF assms(1) less.prems] show ?case
  proof (elim disjE conjE)
    assume "dl_repeat ?d = None"
    then show ?thesis by (intro exI [of _ 1]) simp
  next
    assume a: "dl_repeat ?d = Some (r, p)" "ptr_ok ?d r" "nexts (deref (remote_at ?d r) p) = []"
      "0 < repeat_countdown (remote_at ?d r)" "repeat_countdown (remote_at ?d r) = ?n - 1"
    have "\<exists>k \<le> max 1 (nat (repeat_countdown (remote_at ?d r))). dl_repeat ((dosigalrm e ^^ k) ?d) = None"
      using less.hyps [of ?d] a less.prems by simp
    then obtain k where "k \<le> nat (?n - 1)" "dl_repeat ((dosigalrm e ^^ k) ?d) = None" using a by auto
    then show ?thesis using a by (intro exI [of _ "Suc k"]) (auto simp: funpow_swap1)
  qed
qed

definition sample_repeating :: lircd where
  "sample_repeating = sample_lircd\<lparr>dl_g := idle_state\<lparr>remotes := [sample_remote\<lparr>repeat_countdown := 2\<rparr>]\<rparr>,
     dl_repeat := Some (Here 0, NCode 0)\<rparr>"

theorem repetition_ends_witness: "\<exists>k \<le> 2. dl_repeat ((dosigalrm sample_env ^^ k) sample_repeating) = None"
proof -
  have e: "sends_only sample_env" by (simp add: sends_only_def sample_env_def)
  have r: "remote_at sample_repeating (Here 0) = sample_remote\<lparr>repeat_countdown := 2\<rparr>"
    by (simp add: sample_repeating_def remote_at_def)
  have p: "dl_repeat sample_repeating = Some (Here 0, NCode 0)" "ptr_ok sample_repeating (Here 0)"
    by (simp_all add: sample_repeating_def ptr_ok_def)
  have n: "nexts (deref (sample_remote\<lparr>repeat_countdown := 2\<rparr>) (NCode 0)) = []" by code_simp
  show ?thesis using repetition_ends [OF e p] r n by (simp add: max_def)
qed

text \<open>\<open>SEND_STOP\<close> ends a repetition that \<open>SEND_ONCE\<close> has begun without an answer to the client that waits for it: the
  client is remembered, and is not read any more until some later repetition ends.\<close>

lemma stop_leaves_waiting_client:
  assumes "dl_repeat d = Some (q, p)" "dl_repeat_fd d = Some fd" "fd \<noteq> fd'"
    "min_repeat (remote_at d q) \<le> i32 (de_repeat_max e - repeat_countdown (remote_at d q))"
  shows "dl_repeat (snd (send_stop e fd' msg None d)) = None"
    "dl_sent (snd (send_stop e fd' msg None d)) fd = dl_sent d fd"
    "i < length (dl_clis d) \<Longrightarrow> dl_clis d ! i = fd \<Longrightarrow> \<not> polled (snd (send_stop e fd' msg None d)) i"
proof -
  have "parse_rc e fd' msg None False 0 d = Inr (None, None, 0)" by (simp add: parse_rc_def scan_rc_def rc_words_def)
  then have "send_stop e fd' msg None d = stop_repeating e fd' msg q d" using assms(1) by (simp add: send_stop_def)
  then have s: "snd (send_stop e fd' msg None d) = snd (send_success fd' msg
      ((the_remote q (\<lambda>rm. rm\<lparr>toggle_mask_state := 0\<rparr>) (setitimer 0 d))\<lparr>dl_repeat := None, dl_alrm := False\<rparr>))"
    using assms(4) by (simp add: stop_repeating_def Let_def)
  let ?d = "(the_remote q (\<lambda>rm. rm\<lparr>toggle_mask_state := 0\<rparr>) (setitimer 0 d))\<lparr>dl_repeat := None, dl_alrm := False\<rparr>"
  have f: "dl_clis ?d = dl_clis d" "dl_repeat_fd ?d = dl_repeat_fd d" "dl_sent ?d = dl_sent d"
    by (simp_all add: the_remote_def set_remote_def setitimer_def split: remote_ptr.split)
  show "dl_repeat (snd (send_stop e fd' msg None d)) = None" unfolding s by (simp add: send_success_def)
  show "dl_sent (snd (send_stop e fd' msg None d)) fd = dl_sent d fd"
    unfolding s send_success_def using write_all_others [OF assms(3)] f(3) by metis
  show "\<not> polled (snd (send_stop e fd' msg None d)) i" if "i < length (dl_clis d)" "dl_clis d ! i = fd"
    unfolding s send_success_def polled_def using that f assms(2) by simp
qed

section \<open>Directives\<close>

lemma strtok_word:
  assumes "w \<noteq> []" "\<forall>c \<in> set w. \<not> del c"
  shows "strtok_step del w = (Some w, [])"
proof -
  have "dropWhile (\<lambda>c. \<not> del c) w = []" "takeWhile (\<lambda>c. \<not> del c) w = w" "dropWhile del w = w"
    using assms by (auto simp: dropWhile_eq_Nil_conv takeWhile_eq_all_conv dropWhile_eq_self_iff)
  then show ?thesis using assms(1) unfolding strtok_step_def Let_def by (simp only: if_False list.size drop_Nil)
qed

text \<open>C22. A directive that is not known is repeated in the error with \<open>vsprintf\<close> into a buffer of 257 characters, which
  overflows exactly for more than 234 characters; a packet has room for 255.\<close>

theorem long_directive_overflows:
  assumes "16 < length w" "\<forall>c \<in> set w. \<not> is_blank c" "last w \<noteq> carriage_return"
  shows "dl_fault (snd (handle_line e fd w d)) \<longleftrightarrow> dl_fault d \<or> 234 < length w"
proof -
  have "w \<noteq> []" using assms(1) by auto
  then have t: "strtok_step is_blank (strip_cr w) = (Some w, [])" using assms(2,3) strtok_word by (simp add: strip_cr_def)
  have n: "\<not> strcaseeq w n" if "length n \<le> 16" for n
    using that assms(1) map_eq_imp_length_eq by (fastforce simp: strcaseeq_def)
  have "find_index (\<lambda>(n, _). strcaseeq w n) (directives e) = None"
    unfolding find_index_None directives_def by (simp add: n)
  then have "handle_line e fd w d = send_error fd (w @ nl) (''unknown directive: '' @ quoted w @ nl) d"
    unfolding handle_line_def t by (simp add: Let_def)
  then show ?thesis by (auto simp: send_error_def quoted_def)
qed

theorem long_directive_overflows_witness:
  "dl_fault (snd (handle_line sample_env 4 (replicate 235 (CHR ''A'')) sample_lircd))"
proof -
  have c: "CHR ''A'' \<noteq> char_of (13::nat)" by code_simp
  show ?thesis using long_directive_overflows [of "replicate 235 (CHR ''A'')" sample_env 4 sample_lircd] c
    by (simp add: is_blank_def last_replicate)
qed

section \<open>The configuration\<close>

text \<open>C23. A configuration with an error: when the reader reports an error for the file, \<open>config\<close> does not keep the
  remotes it has: afterwards there are none, and those before are to be freed.\<close>

theorem broken_file_drops_remotes:
  assumes "dl_old d = None" "dl_configfile d = Some name" "fs name = Some contents"
    "read_config_recursive fs (de_glob e) (use_dyncodes (dl_g d)) (MAX_INCLUDES + 1) name contents (dl_tx d) = Some (Inl err, tx)"
  shows "remotes (dl_g (config e fs d)) = []
    \<and> dl_old (config e fs d) = (if remotes (dl_g d) = [] then None else Some (remotes (dl_g d)))"
proof -
  have k: "remotes (dl_g (snd (setup_hardware e d1))) = remotes (dl_g d1)" "dl_old (snd (setup_hardware e d1)) = dl_old d1" for d1
    by (simp_all add: setup_hardware_def setup_frequency_def setup_timeout_def drvctl_def Let_def case_prod_beta split: option.splits)
  have f: "config_file e fs (dl_configfile d) = Some (name, contents)" using assms(2,3) by (simp add: config_file_def)
  have "sort_by_bit_count (Inl err) = []" by (simp add: sort_by_bit_count_def)
  then have "config e fs d = adopt e [] (d\<lparr>dl_configfile := Some name, dl_tx := tx\<rparr>)"
    using assms(1) f assms(4) by (simp add: config_def read_config_def Let_def)
  then show ?thesis by (simp add: adopt_def k Let_def)
qed

text \<open>A file that ends inside a remote.\<close>

lemma unfinished_file:
  "read_config_recursive fs globf False k name (''begin remote'' @ [newline]) t = Some (Inl (), t)"
proof -
  have f: "fgets_all 4095 (''begin remote'' @ [newline]) = [''begin remote'' @ [newline]]" by code_simp
  have l: "length (''begin remote'' @ [newline]) < LINE_LEN" by simp
  have s: "strcaseeq ''begin'' ''begin''" "strcaseeq ''remote'' ''remote''" "\<not> strcaseeq ''codes'' ''remote''"
    "\<not> strcaseeq ''raw_codes'' ''remote''" by code_simp+
  obtain r where "begin_line ''begin'' ''remote'' [] reader_start = Some r" "rd_mode r = ID_remote"
    by (auto simp: begin_line_def s sample_sections begin_remote_def checkMode_def reader_start_def)
  then have "read_lines fs globf sub False name [''begin remote'' @ [newline]] reader_start t = Some (Inr r, t)" for sub
    using l unfolding read_lines.simps sample_read_line by simp
  then show ?thesis using \<open>rd_mode r = ID_remote\<close> by (cases k) (simp_all add: f [simplified] finish_file_def)
qed

theorem broken_file_drops_remotes_witness:
  "remotes (dl_g (config sample_env (\<lambda>_. Some (''begin remote'' @ [newline])) sample_tv)) = []
    \<and> dl_old (config sample_env (\<lambda>_. Some (''begin remote'' @ [newline])) sample_tv) = Some [sample_remote]"
proof -
  have s: "dl_old sample_tv = None" "dl_configfile sample_tv = Some ''lircd.conf''" "\<not> use_dyncodes (dl_g sample_tv)"
    "remotes (dl_g sample_tv) = [sample_remote]"
    by (simp_all add: sample_tv_def sample_lircd_def lircd_start_def idle_state_def)
  have "read_config_recursive (\<lambda>_. Some (''begin remote'' @ [newline])) (de_glob sample_env) (use_dyncodes (dl_g sample_tv))
    (MAX_INCLUDES + 1) ''lircd.conf'' (''begin remote'' @ [newline]) (dl_tx sample_tv) = Some (Inl (), dl_tx sample_tv)"
    using unfinished_file s(3) by simp
  from broken_file_drops_remotes [OF s(1,2) _ this] s(4) show ?thesis by simp
qed

text \<open>After a reload \<open>last_remote\<close> is left pointing into the old configuration, which is then freed, when the new one
  does not have the remote or the button.\<close>

lemma reload_leaves_dangling_pointer:
  assumes "dl_old d = Some rs" "dl_last_old d = OldAt i" "i < length rs" "last_code (rs ! i) = Some p"
    "same_button d (rs ! i) p = None" "\<And>j q. dl_repeat d \<noteq> Some (Gone j, q)"
  shows "dl_old (free_old_remotes d) = None" "dl_last_old (free_old_remotes d) = OldFreed"
proof -
  have "map_last_remote d = d" using assms(1-5) by (simp add: map_last_remote_def remote_at_def)
  moreover have "map_repeat d = (False, d)" using assms(6) by (auto simp: map_repeat_def split: option.splits prod.splits remote_ptr.splits)
  ultimately show "dl_old (free_old_remotes d) = None" "dl_last_old (free_old_remotes d) = OldFreed"
    using assms(2) by (simp_all add: free_old_remotes_def)
qed

section \<open>Waiting\<close>

lemma serve_clients_skip:
  assumes "i \<le> k" "k \<le> n" "k \<le> length (dl_clis d)" "\<forall>j. i \<le> j \<and> j < k \<longrightarrow> \<not> rdy j"
  shows "serve_clients e rdy [i..<n] d = serve_clients e rdy [k..<n] d"
  using assms
proof (induction "k - i" arbitrary: i)
  case (Suc m)
  then have "i < n" "\<not> rdy i" "i < length (dl_clis d)" by auto
  then have "serve_clients e rdy [i..<n] d = serve_clients e rdy [Suc i..<n] d" by (simp add: upt_conv_Cons)
  then show ?case using Suc by simp
qed simp

text \<open>C20. A client that leaves stops the daemon. When it has closed its connection and the next client is to be read as
  well, the one behind that is read instead, for which nothing was reported: without anything to read the daemon waits
  in \<open>get_command\<close> for ever.\<close>

theorem closed_client_blocks_daemon:
  assumes "dl_clis d = xs @ a # b # c # ys" "distinct (dl_clis d)" "length (dl_clis d) \<le> MAX_CLIENTS"
    "\<forall>j < length xs. \<not> rdy j" "rdy (length xs)" "rdy (length xs + 1)"
    "dl_in d a = RData [] # es" "dl_in d c = []"
  shows "serve_clients e rdy [0..<MAX_CLIENTS] d = None"
proof -
  let ?k = "length xs"
  let ?d1 = "d\<lparr>dl_in := (dl_in d)(a := es)\<rparr>"
  let ?d2 = "remove_client e a ?d1"
  have l: "?k + 2 < length (dl_clis d)" using assms(1) by simp
  have s: "serve_clients e rdy [0..<MAX_CLIENTS] d = serve_clients e rdy [?k..<MAX_CLIENTS] d"
    using serve_clients_skip [of 0 ?k MAX_CLIENTS d rdy e] l assms(3,4) by simp
  have a: "dl_clis d ! ?k = a" using assms(1) by simp
  have g: "get_command e a d = Some (False, ?d1)" using assms(7) by (simp add: get_command_def read_timeout_def)
  have sl: "slot ?d1 ?k = a" using assms(1) by (simp add: slot_def nth_append)
  have fi: "find_index (\<lambda>x. x = a) (dl_clis ?d1) = Some ?k"
    using find_index_nth [of "dl_clis ?d1" ?k] a l assms(2) by simp
  have c2: "dl_clis ?d2 = xs @ b # c # ys" "dl_in ?d2 c = []"
    using fi assms(1,2,8) by (auto simp: remove_client_def deinit_hw_def)
  have st: "serve_clients e rdy [?k..<MAX_CLIENTS] d = serve_clients e rdy [Suc ?k..<MAX_CLIENTS] ?d2"
    using a l assms(3,5) g sl by (simp add: upt_conv_Cons)
  have gc: "get_command e c ?d2 = None" using c2(2) by (simp add: get_command_def read_timeout_def)
  have "dl_clis ?d2 ! Suc ?k = c" using c2(1) by (simp add: nth_append)
  then show ?thesis unfolding s st using l assms(3,6) c2(1) gc by (simp add: upt_conv_Cons)
qed

theorem closed_client_blocks_daemon_witness:
  "serve_clients sample_env (\<lambda>i. i < 2) [0..<MAX_CLIENTS] (sample_lircd\<lparr>dl_clis := [4, 5, 6], dl_in := (\<lambda>_. [])(4 := [RData []])\<rparr>) = None"
  by (rule closed_client_blocks_daemon [where xs = "[]" and a = 4 and b = 5 and c = 6 and ys = "[]" and es = "[]"]) simp_all

text \<open>C21. The time of the last release is never cleared. Once it has passed, the timeout asked for, the second after
  which the hardware is tried again and the time until a peer is tried again are all given up: the daemon waits
  without a limit, or, when a peer is to be tried later, not at all.\<close>

theorem overdue_release_removes_timeout:
  assumes "timerisset (get_release_time (rel (dl_g d)))" "3 \<le> length (dl_tod d)"
    "\<forall>t \<in> set (dl_tod d). timer_less (get_release_time (rel (dl_g d))) t"
  shows "fst (poll_timeout maxusec d) = (if timerisset (next_reconnect (dl_peers d)) then Some 0 else None)"
proof -
  have z: "\<not> timerisset zero_timeval" by (simp add: timerisset_def zero_timeval_def)
  obtain t1 t2 t3 ts where t: "dl_tod d = t1 # t2 # t3 # ts"
    using assms(2) by (metis Suc_le_length_iff numeral_3_eq_3)
  define rt where "rt = get_release_time (rel (dl_g d))"
  have r: "timerisset rt" "timer_less rt t1" "timer_less rt t2" "timer_less rt t3"
    using assms(1,3) t by (simp_all add: rt_def)
  have w: "fst (release_wait tv rc d1) = zero_timeval"
    if "get_release_time (rel (dl_g d1)) = rt" "dl_tod d1 = u # us" "timer_less rt u" for tv rc d1 u us
    using that r(1) by (simp add: release_wait_def time_of_day_def Let_def)
  show ?thesis
  proof (cases "timerisset (next_reconnect (dl_peers d))")
    case True
    then have p: "\<exists>tv. peer_wait d = (tv, True, d\<lparr>dl_tod := t2 # t3 # ts\<rparr>)"
      by (simp add: peer_wait_def time_of_day_def t Let_def)
    then obtain tv where p: "peer_wait d = (tv, True, d\<lparr>dl_tod := t2 # t3 # ts\<rparr>)" by blast
    have "fst (release_wait tv' True (d\<lparr>dl_tod := t3 # ts\<rparr>)) = zero_timeval" for tv'
      using w [of "d\<lparr>dl_tod := t3 # ts\<rparr>" t3 ts] r(4) by (simp add: rt_def)
    then show ?thesis using True p by (simp add: poll_timeout_def time_of_day_def Let_def case_prod_beta zero_timeval_def)
  next
    case False
    then have p: "peer_wait d = (next_reconnect (dl_peers d), False, d)" by (simp add: peer_wait_def Let_def)
    have "fst (release_wait tv' False (d\<lparr>dl_tod := t2 # t3 # ts\<rparr>)) = zero_timeval" for tv'
      using w [of "d\<lparr>dl_tod := t2 # t3 # ts\<rparr>" t2 "t3 # ts"] r(3) by (simp add: rt_def)
    then show ?thesis using False p z by (simp add: poll_timeout_def time_of_day_def t Let_def case_prod_beta)
  qed
qed

theorem overdue_release_removes_timeout_witness:
  "fst (poll_timeout 1000 (sample_lircd\<lparr>dl_g := idle_state\<lparr>rel := release_start\<lparr>release_time := \<lparr>tv_sec = 1, tv_usec = 0\<rparr>\<rparr>\<rparr>,
     dl_tod := replicate 3 \<lparr>tv_sec = 2, tv_usec = 0\<rparr>\<rparr>)) = None"
proof -
  let ?d = "sample_lircd\<lparr>dl_g := idle_state\<lparr>rel := release_start\<lparr>release_time := \<lparr>tv_sec = 1, tv_usec = 0\<rparr>\<rparr>\<rparr>,
     dl_tod := replicate 3 \<lparr>tv_sec = 2, tv_usec = 0\<rparr>\<rparr>"
  have n: "\<not> timerisset (next_reconnect (dl_peers ?d))"
    by (simp add: sample_lircd_def lircd_start_def next_reconnect_def timerisset_def zero_timeval_def)
  show ?thesis using overdue_release_removes_timeout [of ?d 1000] n
    by (simp add: timerisset_def timer_less_def get_release_time_def idle_state_def)
qed

end
