(* ===== verification/Rcd_Props.thy ===== *)
theory Rcd_Props
  imports Rcd_Server Daemon_Limits Client_Facts
begin

text \<open>
  The properties of \<open>lircrcd\<close>: a client that asks for the strings of a code gets them, but never learns that there
  are no more, and a code pressed twice is translated once.
\<close>

section \<open>Replies\<close>

lemma rcd_written:
  "flows (rcd_out d fd) \<Longrightarrow> \<exists>es. rcd_write_all fd ss d = (True, d\<lparr>rcd_out := (rcd_out d)(fd := es),
      rcd_sent := (rcd_sent d)(fd := rcd_sent d fd @ concat ss)\<rparr>) \<and> flows es"
proof (induction ss arbitrary: d)
  case Nil
  have "d\<lparr>rcd_out := (rcd_out d)(fd := rcd_out d fd), rcd_sent := (rcd_sent d)(fd := rcd_sent d fd @ concat [])\<rparr> = d" by simp
  then show ?case using Nil unfolding rcd_write_all.simps by metis
next
  case (Cons s ss)
  obtain es where w: "write_loop 1 (rcd_out d fd) s [] = (True, es, s)" "flows es"
    using write_loop_flows [OF Cons.prems, of 1 s "[]"] by auto
  let ?d = "d\<lparr>rcd_out := (rcd_out d)(fd := es), rcd_sent := (rcd_sent d)(fd := rcd_sent d fd @ s)\<rparr>"
  have "flows (rcd_out ?d fd)" using w(2) by simp
  then obtain es' where "rcd_write_all fd ss ?d = (True, ?d\<lparr>rcd_out := (rcd_out ?d)(fd := es'),
      rcd_sent := (rcd_sent ?d)(fd := rcd_sent ?d fd @ concat ss)\<rparr>)" "flows es'"
    using Cons.IH [of ?d] by blast
  then have "rcd_write_all fd (s # ss) d = (True, d\<lparr>rcd_out := (rcd_out d)(fd := es'),
      rcd_sent := (rcd_sent d)(fd := rcd_sent d fd @ concat (s # ss))\<rparr>)"
    using w(1) by (simp add: rcd_write_all.simps rcd_write_socket_def)
  then show ?case using \<open>flows es'\<close> by blast
qed

lemma rcd_replied:
  assumes "flows (rcd_out d fd)"
  shows "\<exists>es. rcd_send_success fd msg d = (True, d\<lparr>rcd_out := (rcd_out d)(fd := es),
      rcd_sent := (rcd_sent d)(fd := rcd_sent d fd @ reply_text msg True None)\<rparr>) \<and> flows es"
    "\<exists>es. rcd_send_result fd msg r d = (True, d\<lparr>rcd_out := (rcd_out d)(fd := es),
      rcd_sent := (rcd_sent d)(fd := rcd_sent d fd @ reply_text msg True (Some [r]))\<rparr>) \<and> flows es"
proof -
  have "fmt_d 0 1 = ''1''" by code_simp
  then show "\<exists>es. rcd_send_success fd msg d = (True, d\<lparr>rcd_out := (rcd_out d)(fd := es),
      rcd_sent := (rcd_sent d)(fd := rcd_sent d fd @ reply_text msg True None)\<rparr>) \<and> flows es"
    "\<exists>es. rcd_send_result fd msg r d = (True, d\<lparr>rcd_out := (rcd_out d)(fd := es),
      rcd_sent := (rcd_sent d)(fd := rcd_sent d fd @ reply_text msg True (Some [r]))\<rparr>) \<and> flows es"
    using rcd_written [OF assms, of "[p_begin, msg, p_success, p_end]"]
      rcd_written [OF assms, of "[p_begin, msg, p_success, p_data, ''1'' @ nl, r @ nl, p_end]"]
    by (simp_all add: rcd_send_success_def rcd_send_result_def reply_text_def)
qed

section \<open>The strings of a code\<close>

text \<open>The loop over \<open>lirc_code2charprog\<close> collects what a client without \<open>lircrcd\<close> gets one by one.\<close>

lemma collect_all:
  "all_strings None s n c = Some (ts, c') \<Longrightarrow> [] \<notin> set ts \<Longrightarrow> collect_strings s acc c = Some (Inr (acc @ ts, c'))"
proof (induction n arbitrary: c ts acc)
  case (Suc n)
  then obtain t p c1 where r: "lirc_code2char_internal None c s = Some ((t, p), c1)"
    by (cases "lirc_code2char_internal None c s") auto
  show ?case
  proof (cases t)
    case None
    then show ?thesis using r Suc.prems by (subst collect_strings.simps) (simp add: lirc_code2charprog_def)
  next
    case (Some x)
    then obtain ts1 where t: "all_strings None s n c1 = Some (ts1, c')" "ts = x # ts1" using r Suc.prems(1) by auto
    then have "collect_strings s (acc @ [x]) c1 = Some (Inr (acc @ ts, c'))" using Suc.IH [OF t(1), of "acc @ [x]"] Suc.prems(2) by simp
    then show ?thesis using r Some t(2) Suc.prems(2) by (subst collect_strings.simps) (auto simp: lirc_code2charprog_def)
  qed
qed simp

lemma code_line: "s \<noteq> [] \<Longrightarrow> rcd_line fd (''CODE '' @ s) d = code_func fd (''CODE '' @ s @ nl) (Some s) d"
proof -
  assume "s \<noteq> []"
  have t: "strtok_step is_blank (''CODE '' @ s) = (Some ''CODE'', s)" by (simp add: strtok_step_def is_blank_def)
  have f: "find_index (\<lambda>(n, _). strcaseeq ''CODE'' n) rcd_directives = Some 0" by (simp add: rcd_directives_def)
  show ?thesis unfolding rcd_line_def t Let_def prod.case option.case f using \<open>s \<noteq> []\<close> by (simp add: rcd_directives_def)
qed

text \<open>The client of entry \<open>i\<close>, with strings that wait, and the last code.\<close>

definition waits :: "int \<Rightarrow> nat \<Rightarrow> string list \<Rightarrow> string \<Rightarrow> lirc_config \<Rightarrow> lircrcd \<Rightarrow> bool" where
  "waits fd i ss lst c d \<longleftrightarrow> client_index fd d = Some i \<and> i < length (rcd_clis d) \<and> flows (rcd_out d fd)
     \<and> rcc_strings (rcd_clis d ! i) = ss \<and> rcc_codes (rcd_clis d ! i) = [] \<and> rcc_last (rcd_clis d ! i) = lst \<and> rcd_config d = c"

lemma index_of_fds: "map rcc_fd (rcd_clis d') = map rcc_fd (rcd_clis d) \<Longrightarrow> rcd_clin d' = rcd_clin d
    \<Longrightarrow> client_index fd d' = client_index fd d"
proof -
  assume a: "map rcc_fd (rcd_clis d') = map rcc_fd (rcd_clis d)" "rcd_clin d' = rcd_clin d"
  have f: "find_index (\<lambda>c. rcc_fd c = fd) xs = find_index (\<lambda>x. x = fd) (map rcc_fd xs)" for xs by (induction xs) auto
  show ?thesis unfolding client_index_def f take_map [symmetric] a ..
qed

lemma waitsI:
  assumes "waits fd i ss l c d" "rcd_clis d' = (rcd_clis d)[i := x]" "rcc_fd x = rcc_fd (rcd_clis d ! i)"
    "rcd_clin d' = rcd_clin d" "flows (rcd_out d' fd)" "rcc_codes x = []"
  shows "waits fd i (rcc_strings x) (rcc_last x) (rcd_config d') d'"
proof -
  have "map rcc_fd (rcd_clis d') = map rcc_fd (rcd_clis d)"
    using assms(1-3) by (simp add: waits_def map_update list_update_same_conv)
  then have "client_index fd d' = Some i" using index_of_fds assms(1,4) by (metis waits_def)
  then show ?thesis using assms by (simp add: waits_def)
qed

text \<open>The reply to \<open>CODE s\<close>.\<close>

definition code_reply :: "string \<Rightarrow> string list option \<Rightarrow> string" where
  "code_reply s data = reply_text (''CODE '' @ s @ nl) True data"

text \<open>\<open>CODE s\<close> leads to a reply with \<open>data\<close>.\<close>

definition asked :: "int \<Rightarrow> nat \<Rightarrow> string \<Rightarrow> lircrcd \<Rightarrow> string list option \<Rightarrow> string list \<Rightarrow> string \<Rightarrow> lirc_config \<Rightarrow> bool" where
  "asked fd i s d data ss l c \<longleftrightarrow> (\<exists>d'. rcd_line fd (''CODE '' @ s) d = Some (True, d')
     \<and> rcd_sent d' fd = rcd_sent d fd @ code_reply s data \<and> waits fd i ss l c d')"

lemma ask_next:
  assumes "waits fd i (t # ss) l c d"
  shows "\<exists>d'. send_next fd (''CODE '' @ s @ nl) i d = (True, d') \<and> rcd_sent d' fd = rcd_sent d fd @ code_reply s (Some [t])
    \<and> waits fd i ss l c d'"
proof -
  let ?d = "upd_client i (\<lambda>x. x\<lparr>rcc_strings := ss\<rparr>) d"
  have f: "flows (rcd_out ?d fd)" using assms by (simp add: waits_def upd_client_def)
  obtain es where r: "rcd_send_result fd (''CODE '' @ s @ nl) t ?d = (True, ?d\<lparr>rcd_out := (rcd_out ?d)(fd := es),
      rcd_sent := (rcd_sent ?d)(fd := rcd_sent ?d fd @ code_reply s (Some [t]))\<rparr>)" "flows es"
    using rcd_replied(2) [OF f, of "''CODE '' @ s @ nl" t] unfolding code_reply_def by blast
  let ?e = "?d\<lparr>rcd_out := (rcd_out ?d)(fd := es), rcd_sent := (rcd_sent ?d)(fd := rcd_sent ?d fd @ code_reply s (Some [t]))\<rparr>"
  have n: "send_next fd (''CODE '' @ s @ nl) i d = (True, ?e)"
    using assms r(1) by (simp add: send_next_def waits_def del: append.simps)
  have w: "waits fd i ss l c ?e"
    using waitsI [OF assms, of ?e "(rcd_clis d ! i)\<lparr>rcc_strings := ss\<rparr>"] r(2) assms by (simp add: waits_def upd_client_def)
  have "rcd_sent ?e fd = rcd_sent d fd @ code_reply s (Some [t])" by (simp add: upd_client_def)
  then show ?thesis using n w by blast
qed

lemma ask_nothing:
  assumes "waits fd i ss l c d"
  shows "\<exists>d'. rcd_send_success fd (''CODE '' @ s @ nl) d = (True, d') \<and> rcd_sent d' fd = rcd_sent d fd @ code_reply s None
    \<and> waits fd i ss l c d'"
proof -
  have f: "flows (rcd_out d fd)" using assms by (simp add: waits_def)
  obtain es where r: "rcd_send_success fd (''CODE '' @ s @ nl) d = (True, d\<lparr>rcd_out := (rcd_out d)(fd := es),
      rcd_sent := (rcd_sent d)(fd := rcd_sent d fd @ code_reply s None)\<rparr>)" "flows es"
    using rcd_replied(1) [OF f, of "''CODE '' @ s @ nl"] unfolding code_reply_def by blast
  let ?e = "d\<lparr>rcd_out := (rcd_out d)(fd := es), rcd_sent := (rcd_sent d)(fd := rcd_sent d fd @ code_reply s None)\<rparr>"
  have "waits fd i ss l c ?e" using waitsI [OF assms, of ?e "rcd_clis d ! i"] r(2) assms by (simp add: waits_def)
  then show ?thesis using r(1) by fastforce
qed

lemma ask_waiting: "waits fd i (t # ss) s c d \<Longrightarrow> s \<noteq> [] \<Longrightarrow> asked fd i s d (Some [t]) ss s c"
  using ask_next [of fd i t ss s c d s] code_line [of s fd d]
  by (fastforce simp: asked_def code_func_def waits_def simp del: append.simps)

lemma ask_done:
  assumes "waits fd i [] s c d" "s \<noteq> []"
  shows "asked fd i s d None [] ''A never used code'' c"
proof -
  let ?d = "upd_client i (\<lambda>x. x\<lparr>rcc_last := ''A never used code''\<rparr>) d"
  have "waits fd i [] ''A never used code'' c ?d"
    using waitsI [OF assms(1), of ?d "(rcd_clis d ! i)\<lparr>rcc_last := ''A never used code''\<rparr>"] assms(1)
    by (simp add: waits_def upd_client_def)
  from ask_nothing [OF this, of s] show ?thesis using code_line [OF assms(2), of fd d] assms(1)
    by (auto simp: asked_def code_func_def waits_def upd_client_def simp del: append.simps)
qed

lemma ask_new:
  assumes "waits fd i ss l c d" "l \<noteq> s" "s \<noteq> []" "collect_strings s [] c = Some (Inr (ts, c'))"
  shows "asked fd i s d (case ss @ ts of [] \<Rightarrow> None | t # _ \<Rightarrow> Some [t]) (tl (ss @ ts)) s c'"
proof -
  let ?x = "(rcd_clis d ! i)\<lparr>rcc_last := s, rcc_codes := [], rcc_strings := ss @ ts\<rparr>"
  let ?d = "(upd_client i (\<lambda>x. x\<lparr>rcc_strings := rcc_strings x @ ts\<rparr>)
      (upd_client i (\<lambda>x. x\<lparr>rcc_last := s, rcc_codes := []\<rparr>) d))\<lparr>rcd_config := c'\<rparr>"
  define dn where "dn = ?d"
  have u: "rcd_config (upd_client i f d) = rcd_config d" for f by (simp add: upd_client_def)
  have e: "client_index fd d = Some i" "rcc_last (rcd_clis d ! i) = l" "rcc_codes (rcd_clis d ! i) = []" "rcd_config d = c"
    "i < length (rcd_clis d)" "flows (rcd_out d fd)" "rcc_strings (rcd_clis d ! i) = ss"
    using assms(1) by (simp_all add: waits_def)
  have dn: "rcd_clis dn = (rcd_clis d)[i := ?x]" "rcd_clin dn = rcd_clin d" "rcd_out dn = rcd_out d" "rcd_config dn = c'"
    using e(5,7) by (simp_all add: dn_def upd_client_def)
  have "waits fd i (rcc_strings ?x) (rcc_last ?x) (rcd_config dn) dn"
    by (rule waitsI [OF assms(1) dn(1) _ dn(2)]) (simp_all add: dn e)
  then have w: "waits fd i (ss @ ts) s c' dn" by (simp add: dn(4))
  have f: "code_func fd msg (Some s) d = new_code fd msg i s d" for msg using e(1,2) assms(2) by (simp add: code_func_def)
  have "new_code fd msg i s d = Some (send_next fd msg i dn)" for msg
    unfolding new_code_def e(3) Let_def append_Nil list.sel u e(4) assms(4) dn_def by simp
  then have n: "rcd_line fd (''CODE '' @ s) d = Some (send_next fd (''CODE '' @ s @ nl) i dn)"
    unfolding code_line [OF assms(3)] f by blast
  have q: "rcd_sent dn fd = rcd_sent d fd" by (simp add: dn_def upd_client_def)
  show ?thesis
  proof (cases "ss @ ts")
    case Nil
    then have "send_next fd (''CODE '' @ s @ nl) i dn = rcd_send_success fd (''CODE '' @ s @ nl) dn"
      using w by (simp add: send_next_def waits_def)
    then obtain d' where "rcd_line fd (''CODE '' @ s) d = Some (True, d')" "rcd_sent d' fd = rcd_sent d fd @ code_reply s None"
      "waits fd i (ss @ ts) s c' d'" using ask_nothing [OF w, of s] n q by metis
    then show ?thesis unfolding asked_def Nil by (simp del: append.simps)
  next
    case (Cons t us)
    obtain d' where "rcd_line fd (''CODE '' @ s) d = Some (True, d')" "rcd_sent d' fd = rcd_sent d fd @ code_reply s (Some [t])"
      "waits fd i us s c' d'" using ask_next [OF w [unfolded Cons], of s] n q by metis
    then show ?thesis unfolding asked_def Cons by (simp del: append.simps)
  qed
qed

section \<open>A client that asks\<close>

text \<open>The loop of a client (\<open>while (lirc_code2char(...) == 0 && c != NULL)\<close>, as in \<open>tools/irexec.cpp\<close>) for at most \<open>k\<close>
  calls, with \<open>lircrcd\<close> at the other end of its socket: the strings it gets. \<open>net\<close> are the pieces in which a reply
  arrives. None: the loop has ended before.\<close>

fun code_loop :: "string option \<Rightarrow> lirc_config \<Rightarrow> (string \<Rightarrow> sock_event list) \<Rightarrow> string \<Rightarrow> int \<Rightarrow> nat \<Rightarrow> lircrcd
    \<Rightarrow> (string list \<times> lircrcd) option" where
  "code_loop prog cf net line fd 0 d = Some ([], d)"
| "code_loop prog cf net line fd (Suc k) d = (case rcd_line fd (butlast (code_command line)) d of
     Some (True, d') \<Rightarrow>
       (case lirc_code2char prog (Some ([Some (length (code_command line))], net (drop (length (rcd_sent d fd)) (rcd_sent d' fd)))) cf line of
          Answer (ret, Some t, _) \<Rightarrow>
            (if ret = 0 then map_option (\<lambda>(ts, d). (t # ts, d)) (code_loop prog cf net line fd k d') else None)
        | _ \<Rightarrow> None)
   | _ \<Rightarrow> None)"

declare code_loop.simps(2) [simp del]

text \<open>A reply arrives whole, in pieces that end lines; a string the client can read.\<close>

definition carries :: "(string \<Rightarrow> sock_event list) \<Rightarrow> string \<Rightarrow> bool" where
  "carries net r \<longleftrightarrow> list_all piece_ok (net r) \<and> pending (net r) = r"

definition readable :: "(string \<Rightarrow> sock_event list) \<Rightarrow> string \<Rightarrow> string \<Rightarrow> bool" where
  "readable net s t \<longleftrightarrow> reply_line t \<and> length t < CLIENT_PACKET_SIZE \<and> carries net (code_reply s (Some [t]))"

text \<open>The code of \<open>line\<close> is \<open>s\<close>, and the command for it fits into a packet.\<close>

definition asks_for :: "string \<Rightarrow> string \<Rightarrow> bool" where
  "asks_for line s \<longleftrightarrow> code_command line = ''CODE '' @ s @ nl \<and> s \<noteq> [] \<and> line_ok s \<and> length (code_command line) < CLIENT_PACKET_SIZE"

lemma answer_read:
  assumes "asks_for line s" "carries net (code_reply s data)"
    "data = None \<and> t = [] \<or> data = Some [t] \<and> reply_line t \<and> length t < CLIENT_PACKET_SIZE"
  shows "lirc_code2char prog (Some ([Some (length (code_command line))], net (code_reply s data))) cf line = Answer (0, Some t, cf)"
proof -
  have c: "code_command line = (''CODE '' @ s) @ nl" "length (code_command line) < CLIENT_PACKET_SIZE"
    using assms(1) unfolding asks_for_def append_assoc by blast+
  have "\<not> CLIENT_PACKET_SIZE \<le> length ((''CODE '' @ s) @ nl)" using c(2) unfolding c(1) by (simp only: not_le)
  then obtain ctx where i: "lirc_command_init ((''CODE '' @ s) @ nl) = Some ctx" unfolding lirc_command_init_def by (metis (no_types))
  have w: "send_packet ((''CODE '' @ s) @ nl) [Some (length (code_command line))] = Some ((''CODE '' @ s) @ nl)"
    unfolding c(1) by simp
  have l: "reply_line (''CODE '' @ s)" using assms(1) by (simp add: asks_for_def reply_line_iff line_ok_append newline_code nul_code line_ok_def)
  have r: "pending (net (code_reply s data)) = reply_text ((''CODE '' @ s) @ nl) True data"
    using assms(2) by (simp add: carries_def code_reply_def)
  have "\<And>ls. data = Some ls \<Longrightarrow> list_all reply_line ls \<and> length ls < 2 ^ 32" using assms(3) by auto
  from client_reads_reply [OF i w l this _ r] assms(2) obtain ctx' ev' where
    "lirc_command_run ctx [Some (length (code_command line))] (net (code_reply s data)) = Some (Inl (CSuccess, ctx', ev'))"
    "\<forall>l. data = Some [l] \<longrightarrow> length l < CLIENT_PACKET_SIZE \<longrightarrow> cc_reply ctx' = l" "data = None \<longrightarrow> cc_reply ctx' = []"
    unfolding carries_def by auto
  moreover have "cc_reply ctx' = t" using calculation(2,3) assms(3) by auto
  ultimately show ?thesis using i c(1) by (simp add: lirc_code2char_def run_command_def reply_of_def del: append.simps)
qed

text \<open>One round of the loop.\<close>

lemma loop_round:
  assumes "asks_for line s" "asked fd i s d data ss l c" "carries net (code_reply s data)"
    "data = None \<and> t = [] \<or> data = Some [t] \<and> reply_line t \<and> length t < CLIENT_PACKET_SIZE"
  shows "\<exists>d'. waits fd i ss l c d' \<and> (\<forall>k. code_loop prog cf net line fd (Suc k) d
    = map_option (\<lambda>(ts, d). (t # ts, d)) (code_loop prog cf net line fd k d'))"
proof -
  obtain d' where d: "rcd_line fd (''CODE '' @ s) d = Some (True, d')" "rcd_sent d' fd = rcd_sent d fd @ code_reply s data"
    "waits fd i ss l c d'" using assms(2) unfolding asked_def by blast
  have b: "butlast (code_command line) = ''CODE '' @ s" using assms(1) unfolding asks_for_def
    by (metis append_assoc butlast_snoc)
  have "drop (length (rcd_sent d fd)) (rcd_sent d' fd) = code_reply s data" using d(2) by simp
  then have "code_loop prog cf net line fd (Suc k) d = map_option (\<lambda>(ts, d). (t # ts, d)) (code_loop prog cf net line fd k d')" for k
    using d(1) answer_read [OF assms(1,3,4), of prog cf] unfolding code_loop.simps b by simp
  then show ?thesis using d(3) by blast
qed

lemma loop_rest:
  assumes "asks_for line s" "carries net (code_reply s None)" "\<forall>t \<in> set ts. readable net s t"
  shows "waits fd i ts s c d \<Longrightarrow> \<exists>d'. code_loop prog cf net line fd (Suc (length ts)) d = Some (ts @ [[]], d')
    \<and> waits fd i [] ''A never used code'' c d'"
  using assms(3)
proof (induction ts arbitrary: d)
  case Nil
  have "s \<noteq> []" using assms(1) by (simp add: asks_for_def)
  from loop_round [OF assms(1) ask_done [OF Nil(1) this] assms(2), of "[]" prog cf] obtain d' where
    "waits fd i [] ''A never used code'' c d'" "\<forall>k. code_loop prog cf net line fd (Suc k) d
    = map_option (\<lambda>(ts, d). ([] # ts, d)) (code_loop prog cf net line fd k d')" by blast
  then show ?case by simp
next
  case (Cons t ts)
  have "s \<noteq> []" using assms(1) by (simp add: asks_for_def)
  from loop_round [OF assms(1) ask_waiting [OF Cons.prems(1) this], of net t prog cf] Cons.prems(2) obtain d1 where
    1: "waits fd i ts s c d1" "\<forall>k. code_loop prog cf net line fd (Suc k) d
    = map_option (\<lambda>(ts, d). (t # ts, d)) (code_loop prog cf net line fd k d1)" unfolding readable_def by auto
  from Cons.IH [OF 1(1)] Cons.prems(2) obtain d' where
    "code_loop prog cf net line fd (Suc (length ts)) d1 = Some (ts @ [[]], d')" "waits fd i [] ''A never used code'' c d'" by auto
  then show ?case using 1(2) by simp
qed

text \<open>C7. \<open>lircrcd\<close> hands out the strings of a code for all programs. When a client with no strings waiting asks for a
  code that is not its last one, its loop gets exactly the strings of the entries of every program, not only of the
  client's own, that a local translation of the code with the same configuration and without a program name gives, in
  the same order, then an empty string; and the configuration is afterwards that of the local translation. The
  strings and the replies are ones that the socket carries.\<close>

theorem lircrcd_gives_the_strings:
  assumes "waits fd i [] l c d" "l \<noteq> s" "asks_for line s" "all_strings None s n c = Some (ts, c')"
    "\<forall>t \<in> set ts. readable net s t" "carries net (code_reply s None)"
  shows "\<exists>d'. code_loop prog cf net line fd (Suc (length ts)) d = Some (ts @ [[]], d') \<and> rcd_config d' = c'"
proof -
  have s: "s \<noteq> []" using assms(3) by (simp add: asks_for_def)
  have "[] \<notin> set ts" using assms(5) by (auto simp: readable_def reply_line_def)
  then have a: "asked fd i s d (case ts of [] \<Rightarrow> None | t # _ \<Rightarrow> Some [t]) (tl ts) s c'"
    using ask_new [OF assms(1,2) s collect_all [OF assms(4), of "[]", simplified]] by simp
  show ?thesis
  proof (cases ts)
    case Nil
    from loop_round [OF assms(3), of fd i d None "[]" s c' net "[]" prog cf] a assms(6) obtain d1 where
      "waits fd i [] s c' d1" "\<forall>k. code_loop prog cf net line fd (Suc k) d
      = map_option (\<lambda>(ts, d). ([] # ts, d)) (code_loop prog cf net line fd k d1)" unfolding Nil by auto
    then show ?thesis by (simp add: Nil waits_def)
  next
    case (Cons t us)
    from loop_round [OF assms(3), of fd i d "Some [t]" us s c' net t prog cf] a assms(5) obtain d1 where
      1: "waits fd i us s c' d1" "\<forall>k. code_loop prog cf net line fd (Suc k) d
      = map_option (\<lambda>(ts, d). (t # ts, d)) (code_loop prog cf net line fd k d1)" unfolding Cons readable_def by auto
    from loop_rest [OF assms(3,6) _ 1(1), where prog = prog and cf = cf] assms(5) obtain d' where
      "code_loop prog cf net line fd (Suc (length us)) d1 = Some (us @ [[]], d')" "waits fd i [] ''A never used code'' c' d'"
      unfolding Cons by auto
    then show ?thesis using 1(2) by (simp add: Cons waits_def)
  qed
qed

text \<open>C24. A client of \<open>lircrcd\<close> never learns that there are no more strings: \<open>lirc_code2char\<close> gives an empty string, not
  NULL, and with the next call the code is translated anew. A loop that ends with NULL does not end.\<close>

theorem lircrcd_client_never_ends:
  assumes "waits fd i ss l c d" "config_ok c" "asks_for line s" "carries net (code_reply s None)"
    "\<forall>t. t \<in> set ss \<or> ours None c t \<longrightarrow> readable net s t"
  shows "\<exists>ts d'. code_loop prog cf net line fd k d = Some (ts, d') \<and> length ts = k"
  using assms(1,2,5)
proof (induction k arbitrary: ss l c d)
  case (Suc k)
  have s: "s \<noteq> []" using assms(3) by (simp add: asks_for_def)
  have round: ?case if "asked fd i s d (case us of [] \<Rightarrow> None | t # _ \<Rightarrow> Some [t]) (tl us) l1 c1" "config_ok c1"
    "\<forall>t. t \<in> set us \<or> ours None c1 t \<longrightarrow> readable net s t" for us l1 c1
  proof -
    note a = that
    define t where "t = (case us of [] \<Rightarrow> [] | t # _ \<Rightarrow> t)"
    have x: "carries net (code_reply s (case us of [] \<Rightarrow> None | t # _ \<Rightarrow> Some [t]))" using that(3) assms(4)
      by (cases us) (auto simp: readable_def)
    have y: "(case us of [] \<Rightarrow> None | t # _ \<Rightarrow> Some [t]) = None \<and> t = []
      \<or> (case us of [] \<Rightarrow> None | t # _ \<Rightarrow> Some [t]) = Some [t] \<and> reply_line t \<and> length t < CLIENT_PACKET_SIZE"
      using that(3) by (cases us) (auto simp: readable_def t_def)
    obtain d1 where 1: "waits fd i (tl us) l1 c1 d1" "\<forall>k. code_loop prog cf net line fd (Suc k) d
      = map_option (\<lambda>(ts, d). (t # ts, d)) (code_loop prog cf net line fd k d1)"
      using loop_round [OF assms(3) a(1) x y, of prog cf] by blast
    have "\<forall>t. t \<in> set (tl us) \<or> ours None c1 t \<longrightarrow> readable net s t" using that(3) by (cases us) auto
    from Suc.IH [OF 1(1) a(2) this] obtain ts d' where "code_loop prog cf net line fd k d1 = Some (ts, d')" "length ts = k"
      by blast
    then show ?thesis using 1(2) by (intro exI [of _ "t # ts"] exI [of _ d']) (simp del: code_loop.simps)
  qed
  show ?case
  proof (cases "l = s")
    case True
    then show ?thesis
    proof (cases ss)
      case Nil
      then show ?thesis using round [of "[]"] ask_done [OF _ s, of fd i c d] Suc.prems True by simp
    next
      case (Cons t us)
      then show ?thesis using round [of "t # us"] ask_waiting [of fd i t us s c d] s Suc.prems True by simp
    qed
  next
    case False
    obtain ts c1 where a: "all_strings None s (Suc (entries_left c)) c = Some (ts, c1)" "config_ok c1" "keeps c c1"
      "\<forall>t \<in> set ts. ours None c t" using all_strings_end [OF Suc.prems(2), of "Suc (entries_left c)" None s] by blast
    have n: "[] \<notin> set ts" using a(4) Suc.prems(3) by (fastforce simp: readable_def reply_line_def)
    have "\<forall>t. t \<in> set (ss @ ts) \<or> ours None c1 t \<longrightarrow> readable net s t" using Suc.prems(3) a(4) keeps_ours [OF a(3)] by auto
    from round [OF ask_new [OF Suc.prems(1) False s collect_all [OF a(1) n, of "[]", simplified]] a(2) this] show ?thesis .
  qed
qed simp

text \<open>C25. A code that is pressed twice. When \<open>lircrcd\<close> had no string for a code, it takes the same code, when it is the next
  one of this client, for the question for more strings: it is not translated, so that the sequences, repeat counts and modes
  of the configuration miss it.\<close>

theorem second_press_is_lost:
  assumes "waits fd i [] l c d" "l \<noteq> s" "s \<noteq> []" "all_strings None s n c = Some ([], c')"
  shows "\<exists>d1 d2. rcd_line fd (''CODE '' @ s) d = Some (True, d1) \<and> rcd_config d1 = c'
    \<and> rcd_line fd (''CODE '' @ s) d1 = Some (True, d2) \<and> rcd_config d2 = c'
    \<and> rcd_sent d2 fd = rcd_sent d fd @ code_reply s None @ code_reply s None"
proof -
  have "asked fd i s d None [] s c'"
    using ask_new [OF assms(1-3) collect_all [OF assms(4), of "[]", simplified]] by simp
  then obtain d1 where 1: "rcd_line fd (''CODE '' @ s) d = Some (True, d1)" "rcd_sent d1 fd = rcd_sent d fd @ code_reply s None"
    "waits fd i [] s c' d1" unfolding asked_def by blast
  from ask_done [OF 1(3) assms(3)] obtain d2 where "rcd_line fd (''CODE '' @ s) d1 = Some (True, d2)"
    "rcd_sent d2 fd = rcd_sent d1 fd @ code_reply s None" "waits fd i [] ''A never used code'' c' d2" unfolding asked_def by blast
  then show ?thesis using 1 unfolding waits_def by auto
qed

section \<open>An example\<close>

definition rcd_entry :: "string list \<Rightarrow> lirc_entry" where
  "rcd_entry bs = empty_entry\<lparr>le_prog := Some ''p'', le_code := map (\<lambda>b. \<lparr>lc_remote = None, lc_button = Some b\<rparr>) bs,
     le_config := [''x''], le_next_config := Some 0, le_next_code := Some 0\<rparr>"

definition rcd_sample_config :: "string list \<Rightarrow> lirc_config" where
  "rcd_sample_config bs = \<lparr>cf_lircrc_class = None, cf_current_mode = None, cf_next = Some 0, cf_first = [rcd_entry bs]\<rparr>"

text \<open>A press of the button \<open>A\<close>, in a form that evaluates.\<close>

definition press_A :: "lirc_config \<Rightarrow> ((string option \<times> string option) \<times> lirc_config) option" where
  "press_A c = (case code_scan None ''r'' ''A'' 0 (case cf_next c of None \<Rightarrow> [] | Some i \<Rightarrow> [i..<length (cf_first c)]) False ((None, None), c) of
     None \<Rightarrow> None
   | Some ((t, p), c) \<Rightarrow> Some ((t, p), if t \<noteq> None then c else c\<lparr>cf_next := list_head (cf_first c)\<rparr>))"

lemma press_A: "lirc_code2char_internal None c ''1 0 A r'' = press_A c"
proof -
  have s: "code_rep ''1 0 A r'' = Some 0"
    by (simp add: code_rep_def scan_hex_def isspace_def is_digit_of_def digit_val_def hex_prefix_def Let_def u32_def i32_def)
  have f: "code_fields ''1 0 A r'' = (Some ''A'', Some ''r'')" by code_simp
  show ?thesis unfolding lirc_code2char_internal_def s f press_A_def by simp
qed

lemma strings_A:
  "all_strings None ''1 0 A r'' (Suc n) c = (case press_A c of None \<Rightarrow> None
     | Some ((None, _), c) \<Rightarrow> Some ([], c)
     | Some ((Some t, _), c) \<Rightarrow> map_option (\<lambda>(ts, c). (t # ts, c)) (all_strings None ''1 0 A r'' n c))"
  by (simp add: press_A)

lemma gave_none: "(case x of Some ((None, _), c) \<Rightarrow> P c | _ \<Rightarrow> False) \<Longrightarrow> \<exists>p c. x = Some ((None, p), c) \<and> P c"
  by (auto split: option.splits)

lemma gave_string: "(case x of Some ((Some t, _), c) \<Rightarrow> P t c | _ \<Rightarrow> False) \<Longrightarrow> \<exists>t p c. x = Some ((Some t, p), c) \<and> P t c"
  by (auto split: option.splits)

lemma one_string: "\<exists>c'. all_strings None ''1 0 A r'' (Suc (Suc 0)) (rcd_sample_config [''A'']) = Some ([''x''], c')"
proof -
  have "case press_A (rcd_sample_config [''A'']) of Some ((Some t, _), c) \<Rightarrow> t = ''x''
      \<and> (case press_A c of Some ((None, _), _) \<Rightarrow> True | _ \<Rightarrow> False) | _ \<Rightarrow> False" by code_simp
  from gave_string [OF this] show ?thesis unfolding strings_A by (auto dest!: gave_none)
qed

lemma two_presses: "\<exists>c' c''. all_strings None ''1 0 A r'' (Suc 0) (rcd_sample_config [''A'', ''A'']) = Some ([], c')
  \<and> all_strings None ''1 0 A r'' (Suc (Suc 0)) c' = Some ([''x''], c'')"
proof -
  have "case press_A (rcd_sample_config [''A'', ''A'']) of Some ((None, _), c) \<Rightarrow>
      (case press_A c of Some ((Some t, _), c) \<Rightarrow> t = ''x'' \<and> (case press_A c of Some ((None, _), _) \<Rightarrow> True | _ \<Rightarrow> False) | _ \<Rightarrow> False)
     | _ \<Rightarrow> False" by code_simp
  from gave_none [OF this] show ?thesis unfolding strings_A by (auto dest!: gave_string gave_none)
qed

definition rcd_sample :: "string list \<Rightarrow> lircrcd" where
  "rcd_sample bs = rcd_add_client (Some \<lparr>ac_fd = 4, ac_family = FUnix, ac_out = [], ac_in = []\<rparr>) (rcd_start (rcd_sample_config bs))"

definition net_lines :: "string \<Rightarrow> sock_event list" where
  "net_lines r = map SData (fgets_all 128 r)"

lemma rcd_sample_waits: "waits 4 0 [] [] (rcd_sample_config bs) (rcd_sample bs)"
  by (simp add: waits_def rcd_sample_def rcd_add_client_def rcd_start_def upd_client_def client_index_def flows_def take_update_swap)

lemma rcd_sample_line: "asks_for ''1 0 A r'' ''1 0 A r''"
proof -
  have "code_command ''1 0 A r'' = ''CODE '' @ ''1 0 A r'' @ nl" by code_simp
  then show ?thesis unfolding asks_for_def by (simp add: line_ok_def newline_code nul_code)
qed

lemma rcd_sample_net: "carries net_lines (code_reply ''1 0 A r'' None)" "readable net_lines ''1 0 A r'' ''x''"
proof -
  show "carries net_lines (code_reply ''1 0 A r'' None)" unfolding carries_def by code_simp
  have "carries net_lines (code_reply ''1 0 A r'' (Some [''x'']))" unfolding carries_def by code_simp
  then show "readable net_lines ''1 0 A r'' ''x''" by (simp add: readable_def reply_line_iff line_ok_def newline_code nul_code)
qed

theorem lircrcd_gives_the_strings_witness:
  "\<exists>d'. code_loop None (rcd_sample_config []) net_lines ''1 0 A r'' 4 2 (rcd_sample [''A'']) = Some ([''x'', []], d')"
proof -
  obtain c' where "all_strings None ''1 0 A r'' (Suc (Suc 0)) (rcd_sample_config [''A'']) = Some ([''x''], c')"
    using one_string by blast
  from lircrcd_gives_the_strings [OF rcd_sample_waits _ rcd_sample_line this _ rcd_sample_net(1), of None "rcd_sample_config []"]
  show ?thesis using rcd_sample_net(2) by (auto simp: numeral_2_eq_2)
qed

theorem lircrcd_client_never_ends_witness:
  "\<exists>ts d'. code_loop None (rcd_sample_config []) net_lines ''1 0 A r'' 4 1000 (rcd_sample [''A'']) = Some (ts, d') \<and> length ts = 1000"
proof -
  have e: "entry_ok (rcd_entry [''A''])" "calm (rcd_entry [''A''])" by (simp_all add: entry_ok_def calm_def rcd_entry_def empty_entry_def)
  then have c: "config_ok (rcd_sample_config [''A''])" by (simp add: config_ok_def rcd_sample_config_def)
  have o: "ours None (rcd_sample_config [''A'']) t \<Longrightarrow> t = ''x''" for t
    by (simp add: ours_def rcd_sample_config_def rcd_entry_def)
  have "\<forall>t. t \<in> set [] \<or> ours None (rcd_sample_config [''A'']) t \<longrightarrow> readable net_lines ''1 0 A r'' t"
    using o rcd_sample_net(2) by auto
  from lircrcd_client_never_ends [OF rcd_sample_waits c rcd_sample_line rcd_sample_net(1) this] show ?thesis by blast
qed

text \<open>A sequence of two buttons: without \<open>lircrcd\<close> the second press completes it.\<close>

theorem second_press_is_lost_witness:
  "\<exists>c' c'' d1 d2. all_strings None ''1 0 A r'' (Suc 0) (rcd_sample_config [''A'', ''A'']) = Some ([], c')
    \<and> all_strings None ''1 0 A r'' (Suc (Suc 0)) c' = Some ([''x''], c'')
    \<and> rcd_line 4 ''CODE 1 0 A r'' (rcd_sample [''A'', ''A'']) = Some (True, d1)
    \<and> rcd_line 4 ''CODE 1 0 A r'' d1 = Some (True, d2) \<and> rcd_config d2 = c'"
proof -
  obtain c' c'' where a: "all_strings None ''1 0 A r'' (Suc 0) (rcd_sample_config [''A'', ''A'']) = Some ([], c')"
    "all_strings None ''1 0 A r'' (Suc (Suc 0)) c' = Some ([''x''], c'')" using two_presses by blast
  from second_press_is_lost [OF rcd_sample_waits _ _ a(1)] show ?thesis using a by auto
qed

end
