(* ===== verification/Spec2Isabelle.thy ===== *)
theory Spec2Isabelle
  imports Press Transmit_Props Receive_Props Remote_Props Config_Props Dump_Props Client_Props Client_Message Record_Props Rcd_Props
begin

text \<open>
  A verification library for the core of LIRC, the \<open>lib/\<close> directory and the daemons \<open>lircd\<close> and \<open>lircrcd\<close>: from the
  durations an infrared receiver measures to the line of text the clients read, from the name of a button to
  the durations a transmitter sends, from a \<open>lircd.conf\<close> file to the remotes both work with, from the
  command of a client to its reply, and from the line a client reads to the strings its \<open>lircrc\<close> file
  has for it.

  \<^bold>\<open>The parts of the program.\<close> A driver delivers pulses and spaces. \<open>receive.c\<close> keeps them in the
  receive buffer and recognises, for one remote at a time, header, pre data, code, post data,
  trail and gap (\<open>receive_decode\<close>). \<open>ir_remote.c\<close> tries all remotes (\<open>decode_all\<close>), finds the
  button a code belongs to (\<open>get_code\<close>), counts repetitions (\<open>set_code\<close>), writes the message and
  schedules the release of the button with \<open>release.c\<close>. The other way, \<open>transmit.c\<close> fills the send
  buffer for a button (\<open>init_send_or_sim\<close>). \<open>config_file.c\<close> reads the remotes, checks and repairs
  them, measures their signals by simulating the encoder, and sorts them; \<open>dump_config.c\<close> writes
  remotes in the same format. \<open>lirc_client.c\<close>, the library of the clients, cuts what \<open>lircd\<close> sends into
  messages (\<open>lirc_nextcode\<close>), translates them by the entries of a \<open>lircrc\<close> file (\<open>lirc_code2char\<close>), and
  sends commands (\<open>lirc_command_run\<close>). \<open>irrecord.c\<close> finds the configuration of an unknown remote: it counts
  the durations of many signals (\<open>get_lengths\<close>), concludes encoding, header and data from the counts, and
  records the buttons (\<open>record_buttons\<close>). \<open>lircd.cpp\<close> puts these together: its loop (\<open>mywaitfordata\<close>) waits for
  the driver, for clients, their commands and the timer of a repetition; commands list remotes and send buttons
  (\<open>get_command\<close>, \<open>send_core\<close>, \<open>dosigalrm\<close>), what the driver decodes goes to all clients
  (\<open>broadcast_message\<close>), and a signal makes it read the configuration again (\<open>config\<close>, \<open>free_old_remotes\<close>).
  \<open>lircrcd.cpp\<close> holds one \<open>lircrc\<close> configuration for several clients and gives them the strings of a code one by one
  (\<open>code_func\<close>). The server side uses the predicates and the arithmetic of codes of \<open>ir_remote.h\<close> on the structures of \<open>ir_remote_types.h\<close>.

  \<^bold>\<open>Theories.\<close>

  \<^item> \<open>Prelude\<close>: C integers (\<open>i32\<close>, \<open>u32\<close>, \<open>u64\<close> wrap a result, \<open>ir_code\<close> is \<open>64 word\<close>), C strings, lists.
  \<^item> \<open>IR_Types\<close>, \<open>IR_Ops\<close>: \<open>lib/ir_remote_types.h\<close>, \<open>lib/ir_remote.h\<close>. A struct is a record, a
    pointer into an array is an index, NULL is \<open>None\<close>; macros are abbreviations of the same name.
  \<^item> \<open>Rec_Buffer\<close>, \<open>Receive\<close>, \<open>Receive_Data\<close>, \<open>Receive_Decode\<close>: \<open>lib/receive.c\<close>. The state is the record
    \<open>rstate\<close>: the static \<open>rec_buffer\<close>, the samples and times the driver and the clock will give,
    and \<open>mem_fault\<close>, set by an access outside the array. Every recogniser takes and returns it.
  \<^item> \<open>Transmit\<close>: \<open>lib/transmit.c\<close>, with the record \<open>sbuf\<close> for the static \<open>send_buffer\<close> and \<open>tx_fault\<close>.
  \<^item> \<open>Release\<close>: \<open>lib/release.c\<close>. \<open>IR_Remote\<close>, \<open>Decode_All\<close>: \<open>lib/ir_remote.c\<close>, with the record
    \<open>lirc_state\<close> for the global variables; the decoder of the driver is an argument.
  \<^item> \<open>CStdlib\<close>: \<open>strtoul\<close>, \<open>strtol\<close>, \<open>strtok\<close>, \<open>fgets\<close>. \<open>Config_Define\<close>, \<open>Config_Read\<close>, \<open>Config_Fixup\<close>:
    \<open>lib/config_file.c\<close>, with the record \<open>reader\<close> for the variables of \<open>read_config_recursive\<close>; a step
    that sets \<open>parse_error\<close> gives \<open>None\<close>. \<open>fopen\<close> and \<open>glob\<close> are the arguments \<open>fs\<close> and \<open>globf\<close>.
  \<^item> \<open>Rec_Tape\<close>, \<open>Space_Decode\<close>, \<open>Receive_Facts\<close>, \<open>Receive_Props\<close>: the receive buffer as a tape that is
    read from left to right (\<open>on_tape\<close>); the decoder on the samples of a space-encoded signal; the
    contract of reading samples (locale \<open>sample_reader\<close>, interpreted for samples, pulses and
    spaces); widths of the data; the properties of \<open>receive.c\<close>.
  \<^item> \<open>Space_Send\<close>, \<open>Transmit_Facts\<close>, \<open>Transmit_Props\<close>: the send buffer as the list it stands for
    (\<open>tx_holds\<close>) and the signal of a code (\<open>signal_of\<close>); safety, termination and the properties of
    \<open>transmit.c\<close>.
  \<^item> \<open>Remote_Facts\<close>, \<open>Press\<close>, \<open>Code_Facts\<close>, \<open>Remote_Props\<close>: which button is found; the contract of a
    driver's decoder (locale \<open>driver_decoder\<close>, interpreted for \<open>receive_decode\<close>), which keeps names, buttons and the buttons
    remembered (\<open>refs_ok\<close>); the first report
    of a button; reversed codes, messages, repetitions; the properties of \<open>ir_remote.c\<close> and \<open>release.c\<close>.
  \<^item> \<open>Config_Facts\<close>, \<open>Config_Props\<close>: the contract of the sorting (locale \<open>insertion_sort\<close>, interpreted
    for \<open>remote_bits_cmp\<close>), the reader as a step relation with its invariant, a reader that goes on
    against one that starts anew (\<open>resumes\<close>, by which a file is read in parts), the checks and the repairs; the
    properties of \<open>config_file.c\<close>.
  \<^item> \<open>Dump_Config\<close>: \<open>lib/dump_config.c\<close>, every function as the text it prints. \<open>Dump_Lines\<close>, \<open>Dump_Facts\<close>,
    \<open>Dump_Whole\<close>, \<open>Dump_Props\<close>: numbers, lines, groups of fields, codes and whole files that were
    written take the reader from one state to the next (\<open>reads\<close>); a written file is read back.
  \<^item> \<open>Client_Types\<close>, \<open>Client_Lines\<close>, \<open>Client_Read\<close>, \<open>Client_Code\<close>: \<open>lib/lirc_client.c\<close>, the entries of a
    \<open>lircrc\<close> file (linked lists are lists, a pointer into one is an index), its lines and escapes,
    the reader (record \<open>lircrc_reader\<close> for its variables; NULL that is dereferenced is \<open>Crash\<close>, the
    result \<open>-1\<close> is \<open>Fail\<close>), and the translation of codes. \<open>Client_Socket\<close>, \<open>Client_Commands\<close>: the stream of
    codes and the commands; what \<open>read\<close> gives is a list of events, what \<open>write\<close> takes a list of lengths.
  \<^item> \<open>Client_Sequence\<close>: sequences of buttons against the history of all buttons. \<open>Client_Facts\<close>,
    \<open>Client_Read_Facts\<close>: the invariant \<open>config_ok\<close> of a configuration under every code, and the readers of
    lines and files. \<open>Client_Socket_Facts\<close>, \<open>Client_Reply\<close>: the stream and the replies in whatever pieces
    they arrive. \<open>Client_Message\<close>: the messages of \<open>lircd\<close> as a client reads them. \<open>Client_Props\<close>: the
    properties of \<open>lirc_client.c\<close>.
  \<^item> \<open>Record_Data\<close>, \<open>Record_Lengths\<close>, \<open>Record_State\<close>, \<open>Record_Analyse\<close>, \<open>Record_Emulate\<close>, \<open>Record_Buttons\<close>:
    \<open>lib/irrecord.c\<close>. A histogram, a linked list of \<open>struct lengths\<close>, is a list; the record \<open>recorder\<close> holds the
    static variables, with \<open>g_fault\<close> for an access outside of an array and \<open>g_pulse_cycle\<close> for a list that
    has become circular; every read and write of \<open>signals\<close> and \<open>lengths\<close> in the counting of a signal is checked. The results of the analysis are of the type \<open>effect\<close>: a value, a NULL pointer
    dereferenced, a division by zero, or a loop that does not end.
  \<^item> \<open>Record_Data_Facts\<close>, \<open>Record_Lengths_Facts\<close>, \<open>Record_Histogram\<close>, \<open>Record_Find_Facts\<close>,
    \<open>Record_Analyse_Facts\<close>, \<open>Record_Loop_Facts\<close>, \<open>Record_Props\<close>: pre and post data are split off and joined;
    a histogram counts every sample once and, for ideal samples, exactly; the number of items in every list
    is tied to the number of signals (\<open>lists_ok\<close>), so that the analysis is safe (\<open>delivers\<close>); raw buttons.
  \<^item> \<open>Daemon_Types\<close>, \<open>Daemon_Reply\<close>, \<open>Daemon_Args\<close>, \<open>Daemon_Send\<close>, \<open>Daemon_Config\<close>, \<open>Daemon_Command\<close>, \<open>Daemon_Loop\<close>,
    \<open>Daemon_Wait\<close>: \<open>daemons/lircd.cpp\<close>. The record \<open>lircd\<close> holds its static variables and what the
    sockets, clocks and the driver will still give; \<open>lircd_env\<close> is what is constant. Every command takes and returns
    the state with the result of the C function; \<open>dl_sent\<close> is what each client has been sent, \<open>dl_fault\<close> is set by an
    access to memory that is not there. A turn of the loop that waits (\<open>wait_turn\<close>) is a function of what
    \<open>curl_poll\<close> and the signals bring (\<open>poll_round\<close>). A pointer to a remote says which configuration it points
    into, the one in use or the one before.
  \<^item> \<open>Daemon_Frame\<close>, \<open>Daemon_Facts\<close>, \<open>Daemon_Replies\<close>, \<open>Daemon_Args_Facts\<close>, \<open>Daemon_Client\<close>,
    \<open>Daemon_Invariant\<close>, \<open>Daemon_Props\<close>, \<open>Daemon_Limits\<close>: every command leads to one complete reply, at once or
    from the alarm that ends a repetition (\<open>waits_for\<close>), which \<open>lirc_command_run\<close> reads; messages reach exactly the clients that can be written to; the invariant
    \<open>lircd_ok\<close> of the steps of the daemon (\<open>lircd_step\<close>); arguments; repetitions end; where the daemon goes wrong.
  \<^item> \<open>Rcd_Server\<close>, \<open>Rcd_Props\<close>: \<open>daemons/lircrcd.cpp\<close>. The record \<open>lircrcd\<close> holds the array of clients, each with the
    strings that wait for it, and the configuration; a command that does not return is None. The loop of a client
    (\<open>code_loop\<close>) is the client library at one end and this daemon at the other.
  \<^item> \<open>Sample\<close>, \<open>Sample_Config\<close>: a remote, a driver, buffers and a configuration file for the examples.
  \<^item> This theory: the properties that span the parts, sending and receiving, receiving and
    reporting, reading and reporting.

  \<^bold>\<open>What the lemmas show.\<close> A refinement of both directions to the abstract signal: the encoder leaves
  exactly \<open>signal_of\<close> in its buffer, and the decoder gives back the code whenever what it measures is
  within the tolerance of that signal (\<open>sent_signal_is_received\<close>, \<open>pressed_button_is_reported\<close>).
  Invariants: accesses stay in the buffers, the reader's list and pointer stay valid, decoding
  does not change what identifies a remote. Round trips: put back and read, split and join,
  reverse twice, print and read, write and read again. Error behaviour on every branch where the code goes wrong.

  \<^bold>\<open>Bounds and recursion.\<close> Loops are functions with a measure, so the model of a loop that ends needs no
  fuel. Includes nest to \<open>MAX_INCLUDES + 1\<close> levels: the recursion is primitive in the levels left, as
  \<open>depth\<close> counts in the code, and the statements hold for every number of levels. The loop of
  \<open>init_send_or_sim\<close> may run for ever (XMP buttons with several codes and a short gap never count
  down), so it is a \<open>partial_function (option)\<close>, and \<open>sending_returns\<close> shows that it ends for every
  other protocol. The loops of \<open>lirc_command_run\<close> and \<open>code_func\<close> are such functions too: \<open>reply_is_read_by_lines\<close> and
  \<open>closed_in_a_line_never_returns\<close> say when it ends. The loop of \<open>analyse_get_lengths\<close> is followed for a given number of calls,
  and its safety is shown for ten million, more samples than a recording has. \<open>None\<close> from a decoder is a division by zero or a NULL pointer, which
  \<open>decoding_returns\<close> confines to serial, XMP and raw remotes without codes. Buffers have the sizes of
  the code, 512 samples received and 256 sent. Signed overflow, undefined in C, wraps in the model.

  \<^bold>\<open>Assumptions.\<close> What is not in the repository appears as an argument: the samples a driver reads, the
  clock, the file system and \<open>glob\<close>, the driver's decoder and sender. \<open>lirc_t\<close> is an \<open>int\<close> of 32 bits and
  \<open>long\<close> has 64 bits.

  \<^bold>\<open>Not modelled.\<close> Logging; allocation (\<open>void_array\<close>, \<open>ncode_dup\<close>, \<open>free_config\<close>), whose failure ends the
  program; waiting for input (\<open>waitfordata\<close>); connecting sockets and starting \<open>lircrcd\<close>; of the daemons the start
  (options, privileges, pid file, sockets) and the end of the process; the other daemons and the
  tools with their sockets, signals and command lines; loading plugins and the hardware drivers; of
  \<open>irrecord.c\<close> polling, resetting the hardware and writing the files.
\<close>

section \<open>From the sender to the receiver\<close>

text \<open>C1. A receiver understands a sender: when \<open>send_buffer_put\<close> has filled the send buffer for
  a button of a space-encoded remote and every duration the receiver measures is within the
  tolerance of the duration sent, then \<open>receive_decode\<close> succeeds on these samples, gives the code
  of that button and the pre and post data of the remote, and leaves the remote as it is.\<close>

theorem sent_signal_is_received:
  assumes r: "space_remote rm" "plain_sender rm" "separated d rm"
    and md: "pre_data rm AND gen_mask (pre_data_bits rm) = pre_data rm"
      "post_data rm AND gen_mask (post_data_bits rm) = post_data rm"
    and nc: "nexts nc = []" "transmit_state nc = None" "length (tx_buf t) = 256"
      "is_const rm \<Longrightarrow> i32 (sum_list (signal_of rm (code nc))) < min_gap rm"
    and sent: "send_buffer_put False rm nc t = Some (ok, rm', nc', t')"
    and dr: "reads_samples d" "\<not> (has_repeat rm \<and> is_last)"
      "\<And>l. lst = Some l \<Longrightarrow> expect_at_least d l sp (min_remaining_gap l)"
    and heard: "hears d rm ms (send_buffer_data t')"
      "holds_samples (samples_of sp ms v) s" "duration sp" "duration v"
    and gp: "gap_left rm (sum_list ms) \<le> v" "0 \<le> min_gap rm" "min_gap rm < 0x01000000"
      "sum_list ms < 0x01000000"
  shows "ok \<and> (\<exists>ctx s'. receive_decode d lst is_last rm s = Some (True, ctx, rm, s')
    \<and> ctx_code ctx = code nc AND gen_mask (bits rm)
    \<and> ctx_pre ctx = (if has_pre rm then pre_data rm else 0)
    \<and> ctx_post ctx = (if has_post rm then post_data rm else 0))"
proof -
  have "ok" "send_buffer_data t' = signal_of rm (code nc)"
    using put_space_remote [OF r(1,2) nc(3,1,2,4)] sent by auto
  moreover have "\<not> has_toggle_mask rm" using r(2) by (simp add: plain_sender_def)
  ultimately show ?thesis
    using decode_hears [where cd = "code nc" and lst = lst and is_last = is_last, OF r(1,3) _ dr(1,2) md heard(2-4) dr(3) _ gp] heard(1) by auto
qed

theorem sent_signal_is_received_witness:
  "\<exists>rm' nc' t' ctx s'. send_buffer_put False sample_remote (sample_button ''UP'' 5) sample_tx
      = Some (True, rm', nc', t')
    \<and> hears sample_driver sample_remote sample_heard (send_buffer_data t')
    \<and> receive_decode sample_driver None False sample_remote
        (sample_rx (samples_of 50000 sample_heard 50000)) = Some (True, ctx, sample_remote, s')
    \<and> ctx_code ctx = 5"
proof -
  note b = sample_button_plain [of "''UP''" 5]
  obtain rm' t' where p: "send_buffer_put False sample_remote (sample_button ''UP'' 5) sample_tx
      = Some (True, rm', sample_button ''UP'' 5, t')"
      "send_buffer_data t' = signal_of sample_remote 5"
    using put_space_remote [OF sample_space_remote sample_tx_inv(2) b(1,2)] b(3) sample_not_const by auto
  have "(5 :: ir_code) AND gen_mask (bits sample_remote) = 5"
    by (simp only: sample_bits sample_masks) simp
  moreover have "\<exists>ctx s'. receive_decode sample_driver None False sample_remote
        (sample_rx (samples_of 50000 sample_heard 50000)) = Some (True, ctx, sample_remote, s')
      \<and> ctx_code ctx = 5 AND gen_mask (bits sample_remote)"
    using sent_signal_is_received [where ms = sample_heard and sp = 50000 and v = 50000 and lst = None
        and is_last = False, OF sample_space_remote sample_separated sample_data b(1,2) sample_tx_inv(2)
        _ p(1) sample_reads _ _ _ sample_rx_holds] sample_hears sample_not_const p(2) b(3)
    by (auto simp: samples_of_def sample_heard_def sample_gap sample_min_gap duration_def)
  ultimately show ?thesis using p sample_hears by auto
qed

section \<open>From the receiver to the clients\<close>

definition sample_state :: "lirc_t list \<Rightarrow> lirc_state" where
  "sample_state xs = \<lparr>remotes = [sample_remote], last_remote = None, last_decoded = None,
     decoding = False, use_dyncodes = False, receiver = sample_rx xs, rel = release_start\<rparr>"

lemma sample_full_code: "full_code sample_remote (NCode 0) = 0xE5"
proof -
  have "deref sample_remote (NCode 0) = sample_button ''UP'' 5" by (simp add: deref_def sample_codes)
  moreover have "flags sample_remote AND COMPAT_REVERSE = 0" by (simp add: sample_remote_def zero_remote_def)
  ultimately show ?thesis
    by (simp add: full_code_def has_pre_def has_post_def sample_bits sample_button_plain shl_def Let_def)
qed

lemma sample_message: "message_text ''tv'' ''UP'' (Some []) 0xE5 0 = ''00000000000000e5 00 UP tv'' @ [newline]"
  by code_simp

lemma sample_state_fields:
  "remotes (sample_state xs) = [sample_remote]" "last_remote (sample_state xs) = None"
  "last_decoded (sample_state xs) \<noteq> Some 0" "\<not> use_dyncodes (sample_state xs)"
  "receiver (sample_state xs) = sample_rx xs"
  by (simp_all add: sample_state_def)

lemma sample_press:
  "first_with_code sample_remote [sample_button ''UP'' 5, sample_button ''DOWN'' 10] 0"
  "holds_samples (samples_of 50000 sample_heard 50000)
     (receiver (sample_state (samples_of 50000 sample_heard 50000)))"
  unfolding sample_state_fields
  by (simp add: first_with_code_def, rule sample_rx_holds) (simp add: samples_of_def sample_heard_def)

text \<open>C5. A button of a space encoded remote is reported. The program is configured with just this remote: it is
  sane (\<open>space_remote\<close>), tells one from zero (\<open>separated\<close>), has one code per button and neither toggle bits nor a toggle,
  repeat or ignore mask. It receives the signal of a button as the first one (nothing was decoded before), every
  duration within the tolerance and followed by a space at least as long as the remote's gap. Then it reports the
  button: the message has the full code, repeat count 0, the name of the button, the first one with this code, and
  the name of the remote, as long as it fits into a packet.\<close>

theorem pressed_button_is_reported:
  assumes "space_remote rm" "separated d rm" "plain_remote rm" "ignore_mask rm = 0"
    and "reads_samples d"
    and "pre_data rm AND gen_mask (pre_data_bits rm) = pre_data rm"
      "post_data rm AND gen_mask (post_data_bits rm) = post_data rm"
    and "codes rm = Some cs" "first_with_code rm cs i" "rname rm = Some nm"
    and "remotes g = [rm]" "last_remote g = None" "last_decoded g \<noteq> Some 0" "\<not> use_dyncodes g"
    and "holds_samples (samples_of sp ms v) (receiver g)" "duration sp" "duration v"
    and "hears d rm ms (signal_of rm (code (cs ! i)))"
    and "gap_left rm (sum_list ms) \<le> v" "0 \<le> min_gap rm" "min_gap rm < 0x01000000"
      "sum_list ms < 0x01000000"
    and "length (message_text nm (nname (cs ! i)) (Some []) (full_code rm (NCode i)) 0) \<le> PACKET_SIZE"
  shows "\<exists>g'. decode_all d (receive_decode d) g
    = Some (Some (message_text nm (nname (cs ! i)) (Some []) (full_code rm (NCode i)) 0), g')"
  by (rule press_reported [OF assms])

theorem pressed_button_is_reported_witness:
  "\<exists>g'. decode_all sample_driver (receive_decode sample_driver)
      (sample_state (samples_of 50000 sample_heard 50000))
    = Some (Some (''00000000000000e5 00 UP tv'' @ [newline]), g')"
proof -
  show ?thesis
    using pressed_button_is_reported [OF sample_space_remote(1) sample_separated sample_plain sample_codes(3)
        sample_reads sample_data sample_codes(1) sample_press(1) sample_codes(2)
        sample_state_fields(1-4) sample_press(2)]
      sample_hears
    by (simp add: sample_button_plain sample_full_code sample_message sample_gap sample_min_gap
        duration_def sample_heard_def)
qed

text \<open>C6. Decoding never changes which remotes and buttons are configured: whether it gives a message or
  not, names, buttons and codes of the remotes stay, and the references the remotes keep (the last button) stay
  those of their own buttons. A message names one of the configured remotes and one of that remote's buttons, of
  its list or its two dynamic codes, and fits into a packet.\<close>

theorem messages_name_configured_buttons:
  assumes "list_all refs_ok (remotes g)" "decode_all d (receive_decode d) g = Some (res, g')"
  shows "map remote_label (remotes g') = map remote_label (remotes g) \<and> list_all refs_ok (remotes g')
    \<and> (\<forall>msg. res = Some msg \<longrightarrow> length msg \<le> PACKET_SIZE
        \<and> (\<exists>i p cd rp. i < length (remotes g')
            \<and> (case p of NCode j \<Rightarrow> \<exists>cs. codes (remotes g' ! i) = Some cs \<and> j < length cs
                 | NDyn j \<Rightarrow> j < length (dyncodes (remotes g' ! i)) | NEof \<Rightarrow> False)
            \<and> msg = message_text (case rname (remotes g' ! i) of Some n \<Rightarrow> n | None \<Rightarrow> [])
                (nname (deref (remotes g' ! i) p)) (Some []) cd rp))"
proof -
  have "list_all refs_ok (remotes (g\<lparr>decoding := True\<rparr>))" using assms(1) by simp
  note r = lirc_decoder.decode_from_result [OF assms(2) [unfolded decode_all_def] this]
  have v: "valid_ref rm p \<Longrightarrow> (case p of NCode j \<Rightarrow> \<exists>cs. codes rm = Some cs \<and> j < length cs
      | NDyn j \<Rightarrow> j < length (dyncodes rm) | NEof \<Rightarrow> False)" for rm p
    by (auto simp: valid_ref_def split: ncode_ref.splits option.splits)
  show ?thesis using r v unfolding proper_message_def by (cases res) (simp, simp, blast)
qed

theorem messages_name_configured_buttons_witness:
  "\<exists>msg g'. decode_all sample_driver (receive_decode sample_driver)
      (sample_state (samples_of 50000 sample_heard 50000)) = Some (Some msg, g')
    \<and> map remote_label (remotes g') = [remote_label sample_remote] \<and> length msg \<le> 256"
proof -
  obtain msg g' where "decode_all sample_driver (receive_decode sample_driver)
      (sample_state (samples_of 50000 sample_heard 50000)) = Some (Some msg, g')"
    using press_reported [OF sample_space_remote(1) sample_separated sample_plain sample_codes(3)
        sample_reads sample_data sample_codes(1) sample_press(1) sample_codes(2)
        sample_state_fields(1-4) sample_press(2)]
      sample_hears
    by (auto simp: sample_button_plain sample_full_code sample_message sample_gap sample_min_gap
        duration_def sample_heard_def)
  note m = this
  have "list_all refs_ok (remotes (sample_state (samples_of 50000 sample_heard 50000)))"
    by (simp add: sample_state_fields(1) refs_ok_def sample_remote_def zero_remote_def)
  note r = messages_name_configured_buttons [OF this m]
  then have "map remote_label (remotes g') = [remote_label sample_remote]" by (simp add: sample_state_fields(1))
  moreover have "length msg \<le> 256" using r by blast
  ultimately show ?thesis using m by (intro exI [of _ msg] exI [of _ g'] conjI)
qed

text \<open>C34. A client understands what \<open>lircd\<close> sends: from the message for a button \<open>lirc_code2char\<close>
  takes the repeat count, the button and the remote that were put into it, for every code and
  every count, when the name of the button has no blanks.\<close>

theorem message_is_understood:
  assumes "no_blank button" "remote \<noteq> []" "newline \<notin> set remote"
  shows "code_rep (message_text remote button (Some []) cd rp) = Some (i32 rp)
    \<and> code_fields (message_text remote button (Some []) cd rp) = (Some button, Some remote)"
proof -
  have "unat cd < 2 ^ 64" using unsigned_less [of cd] by simp
  then show ?thesis unfolding message_is_line using line_understood [OF _ assms] by blast
qed

theorem message_is_understood_witness:
  "code_rep (''00000000000000e5 00 UP tv'' @ [newline]) = Some 0
    \<and> code_fields (''00000000000000e5 00 UP tv'' @ [newline]) = (Some ''UP'', Some ''tv'')"
proof -
  have n: "newline \<notin> set ''tv''" by code_simp
  show ?thesis using message_is_understood [OF _ _ n, of "''UP''" "0xE5" 0] unfolding sample_message by (simp add: no_blank_def)
qed

section \<open>From the configuration to the clients\<close>

text \<open>C26. A remote with the \<open>REVERSE\<close> flag is turned round when it is read, and back when a
  button is reported: the clients see the parts of the code as the configuration file has them,
  with the pre data in the low and the post data in the high bits.\<close>

theorem reversed_remote_reports_configured_code:
  assumes "\<not> is_raw rm" "flags rm AND REVERSE \<noteq> 0" "codes rm = Some cs" "i < length cs" "sane_bits rm"
    and "code (cs ! i) AND gen_mask (bits rm) = code (cs ! i)"
  shows "\<exists>rm'. kick_reverse rm = Some rm' \<and> full_code rm' (NCode i)
    = shl (shl (if has_post rm then post_data rm else 0) (bits rm) OR code (cs ! i)) (pre_data_bits rm)
      OR (if has_pre rm then pre_data rm else 0)"
  using reversed_full_code [OF assms] unfolding configured_pre_def configured_post_def .

theorem reversed_remote_reports_configured_code_witness:
  "\<exists>rm'. kick_reverse (sample_remote\<lparr>flags := SPACE_ENC OR REVERSE\<rparr>) = Some rm'
    \<and> full_code rm' (NCode 1) = 0xAE"
proof -
  let ?rm = "sample_remote\<lparr>flags := SPACE_ENC OR REVERSE\<rparr>" and ?cs = "[sample_button ''UP'' 5, sample_button ''DOWN'' 10]"
  have f: "\<not> is_raw ?rm" "flags ?rm AND REVERSE \<noteq> 0" "codes ?rm = Some ?cs" "1 < length ?cs"
    by (simp_all add: is_raw_def sample_codes)
  have b: "pre_data_bits ?rm = 4" "bits ?rm = 4" "post_data_bits ?rm = 0" "pre_data ?rm = 14" "post_data ?rm = 0"
    by (simp_all add: sample_bits)
  have s: "sane_bits ?rm" unfolding sane_bits_def b sample_masks by simp
  have c: "code (?cs ! 1) AND gen_mask (bits ?rm) = code (?cs ! 1)"
    unfolding b sample_masks by (simp add: sample_button_plain)
  have "has_pre ?rm" "\<not> has_post ?rm" by (simp_all add: has_pre_def has_post_def sample_bits)
  then show ?thesis
    using reversed_remote_reports_configured_code [OF f s c] unfolding b
    by (simp add: sample_button_plain shl_def)
qed

end
